(* ===== verification/Prelude.thy ===== *)
theory Prelude
  imports Main "HOL-Library.Word"
begin

text \<open>
  Shared vocabulary of the development.

  \<^item> \<^bold>\<open>Results.\<close> A Go function returning \<open>(T, error)\<close> is a value of type \<open>gerror + T\<close>;
    \<open>ebind\<close> is the \<open>if err != nil { return err }\<close> sequencing, \<open>assert_err\<close> a guard clause.
    \<open>gerror\<close> lists the sentinel errors the code compares with \<open>errors.Is\<close>; the message text a
    \<open>fmt.Errorf\<close> adds around a sentinel is dropped, errors that are never compared are
    \<open>ErrOther\<close> with a short tag, and \<open>GoPanic\<close> stands for a run-time panic, so that the absence
    of panics is something to prove.
  \<^item> \<^bold>\<open>Integers.\<close> Go's \<open>int64\<close> is \<open>64 word\<close>, read through \<open>sint\<close>: addition, negation and
    multiplication wrap, comparison is signed, division truncates towards zero. \<open>in64\<close> is the
    mathematical range, \<open>wrap64\<close> the two's complement reduction. \<open>big.Int\<close> and counters that
    are far from any bound are \<open>int\<close>.
  \<^item> \<^bold>\<open>Strings\<close> are byte lists (\<open>string\<close>), as in Go; times are \<open>int\<close> nanoseconds; a
    \<open>uuid.UUID\<close> is a number with \<open>uuid.Nil\<close> as 0, and a call of \<open>uuid.New()\<close> or
    \<open>time.Now()\<close> is an argument of the definition that makes it.
\<close>

named_theorems word64 \<open>how sint acts on the wrapping int64 operations\<close>
named_theorems err_simps \<open>evaluation and inversion of the error sequencing\<close>

type_synonym int64 = "64 word"
type_synonym time = int
type_synonym uuid = nat
type_synonym currency = string

text \<open>The normalized class of a provider failure (psp/errors.go); declared here because a
  provider error travels inside \<open>gerror\<close>. \<open>ClassOther\<close> is any string outside the constants,
  the empty class included: \<open>ErrorClass\<close> is a string type.\<close>

datatype ErrorClass =
    ClassDeclined | ClassInsufficientFunds | ClassDoNotHonor | ClassSuspectedFraud
  | ClassInvalidInstrument | ClassTimeout | ClassNetworkError | ClassUnknown
  | ClassRateLimited | ClassUnavailable | ClassOther string

datatype gerror =
    ErrInvalidCurrency | ErrCurrencyMismatch | ErrOverflow | ErrNegativeRatio
  | ErrEmptyAllocation | ErrZeroRatioTotal | ErrRoundingOverflow
  | ErrInvalidRate | ErrSamePair | ErrFxCurrencyMismatch | ErrUnknownPair
  | ErrLockExpired | ErrLockTTLNotPositive | ErrRateNotFound | ErrLockNotFound
  | ErrNoSchedule | ErrFeeExceedsAmount
  | ErrUnbalancedEntry | ErrNoPostings | ErrPostingNotPositive | ErrUnknownAccountType
  | ErrAccountNotFound
  | ErrIllegalTransition | ErrAmountNotPositive | ErrExceedsAuthorized | ErrExceedsCaptured
  | ErrMerchantRequired | ErrIdempotencyKeyReqd
  | ErrTxNotFound | ErrVersionConflict | ErrPaymentNotFound
  | ErrOutcomeUnresolved gerror
  | ErrIdemNotFound | ErrClaimLost
  | ErrNoRows | ErrInsufficientBalance | ErrTransferNotFound | ErrAlreadyResolved | ErrSameMerchant
  | ErrUnknownProvider | ErrInvalidSignature | ErrTimestampOutsideWindow | ErrMalformedPayload
  | ErrEventNotFound | ErrNotCorrelated | ErrCircuitOpen
  | ErrMalformedFile | ErrFileNotFound | ErrNoParser | ErrMalformedKey | ErrKeyNotFound
  | ErrConstraint string | ErrInfra string | ErrCtxDone
  | PspError ErrorClass string string
  | ErrOther string
  | GoPanic string

subsection \<open>Error sequencing\<close>

type_synonym 'a result = "gerror + 'a"

fun ebind :: "'e + 'a \<Rightarrow> ('a \<Rightarrow> 'e + 'b) \<Rightarrow> 'e + 'b" where
  "ebind (Inl e) f = Inl e"
| "ebind (Inr x) f = f x"

definition assert_err :: "bool \<Rightarrow> 'e \<Rightarrow> 'e + unit" where
  "assert_err b e = (if b then Inr () else Inl e)"

definition is_ok :: "'e + 'a \<Rightarrow> bool" where
  "is_ok r \<longleftrightarrow> (case r of Inl _ \<Rightarrow> False | Inr _ \<Rightarrow> True)"

lemma is_ok_simps [simp, err_simps]: "is_ok (Inl e) = False" "is_ok (Inr x) = True"
  by (simp_all add: is_ok_def)

lemma is_ok_iff: "is_ok r \<longleftrightarrow> (\<exists>x. r = Inr x)"
  by (cases r) auto

lemma ebind_Inr_iff [err_simps]: "ebind m f = Inr y \<longleftrightarrow> (\<exists>x. m = Inr x \<and> f x = Inr y)"
  by (cases m) auto

lemma ebind_Inl_iff [err_simps]:
  "ebind m f = Inl e \<longleftrightarrow> m = Inl e \<or> (\<exists>x. m = Inr x \<and> f x = Inl e)"
  by (cases m) auto

lemma assert_err_Inr_iff [err_simps]: "assert_err b e = Inr u \<longleftrightarrow> b"
  by (simp add: assert_err_def)

lemma assert_err_Inl_iff [err_simps]: "assert_err b e = Inl e' \<longleftrightarrow> \<not> b \<and> e' = e"
  by (auto simp: assert_err_def)

lemma assert_err_bind [simp]: "ebind (assert_err b e) f = (if b then f () else Inl e)"
  by (simp add: assert_err_def)

lemma ebind_assoc: "ebind (ebind m f) g = ebind m (\<lambda>x. ebind (f x) g)"
  by (cases m) auto

subsection \<open>int64\<close>

definition in64 :: "int \<Rightarrow> bool" where
  "in64 k \<longleftrightarrow> - (2 ^ 63) \<le> k \<and> k < 2 ^ 63"

definition wrap64 :: "int \<Rightarrow> int" where
  "wrap64 k = (k + 2 ^ 63) mod 2 ^ 64 - 2 ^ 63"

definition MinInt64 :: int64 where
  "MinInt64 = word_of_int (- (2 ^ 63))"

text \<open>Go's \<open>/\<close> and \<open>%\<close>: truncated division. At \<open>int64\<close> the one overflowing quotient,
  \<open>MinInt64 / -1\<close>, wraps to \<open>MinInt64\<close> as the language specification says.\<close>

definition go_quot :: "int \<Rightarrow> int \<Rightarrow> int" where
  "go_quot a b = sgn a * sgn b * (\<bar>a\<bar> div \<bar>b\<bar>)"

definition go_rem :: "int \<Rightarrow> int \<Rightarrow> int" where
  "go_rem a b = a - b * go_quot a b"

definition quot64 :: "int64 \<Rightarrow> int64 \<Rightarrow> int64" where
  "quot64 a b = word_of_int (go_quot (sint a) (sint b))"

lemma signed_take_bit_63: "signed_take_bit 63 k = wrap64 k" for k :: int
  unfolding wrap64_def by (simp add: signed_take_bit_eq_take_bit_shift take_bit_eq_mod)

lemma sint_of_int [word64]: "sint (word_of_int k :: int64) = wrap64 k"
  using signed_take_bit_63 [of k] by (simp add: signed_take_bit_63 sint_sbintrunc')

lemma wrap64_id [simp]: "in64 k \<Longrightarrow> wrap64 k = k"
  by (simp add: in64_def wrap64_def)

lemma in64_wrap64 [simp]: "in64 (wrap64 k)"
  by (simp add: in64_def wrap64_def)

lemma wrap64_eq_iff: "wrap64 k = k \<longleftrightarrow> in64 k"
  by (metis in64_wrap64 wrap64_id)

lemma in64_sint [simp, intro]: "in64 (sint (w :: int64))"
  using sint_range_size [of w] by (simp add: in64_def word_size)

lemma in64_0 [simp]: "in64 0"
  by (simp add: in64_def)

lemma sint_add64 [word64]: "sint (a + b :: int64) = wrap64 (sint a + sint b)"
  using signed_take_bit_63 [of "sint a + sint b"] by (simp add: sint_word_add)

lemma sint_sub64 [word64]: "sint (a - b :: int64) = wrap64 (sint a - sint b)"
  using signed_take_bit_63 [of "sint a - sint b"] by (simp add: sint_word_ariths)

lemma sint_mult64 [word64]: "sint (a * b :: int64) = wrap64 (sint a * sint b)"
  using signed_take_bit_63 [of "sint a * sint b"] by (simp add: sint_word_ariths)

lemma sint_minus64 [word64]: "sint (- a :: int64) = wrap64 (- sint a)"
  using signed_take_bit_63 [of "- sint a"] by (simp add: sint_word_ariths)

lemma sint_quot64 [word64]: "sint (quot64 a b) = wrap64 (go_quot (sint a) (sint b))"
  by (simp add: quot64_def sint_of_int)

lemma sint_MinInt64 [simp]: "sint MinInt64 = - (2 ^ 63)"
  by (simp add: MinInt64_def)

lemma sint_eq64: "sint a = sint b \<longleftrightarrow> a = (b :: int64)"
proof
  assume "sint a = sint b"
  then have "(word_of_int (sint a) :: int64) = word_of_int (sint b)" by simp
  then show "a = b" by simp
qed simp

lemma wrap64_sum:
  assumes "in64 a" "in64 b"
  shows "wrap64 (a + b) =
    (if 2 ^ 63 \<le> a + b then a + b - 2 ^ 64
     else if a + b < - (2 ^ 63) then a + b + 2 ^ 64 else a + b)"
proof -
  have up: "(a + b + 2 ^ 63) mod 2 ^ 64 = a + b + 2 ^ 63 - 2 ^ 64" if "2 ^ 63 \<le> a + b"
    using that assms by (subst mod_pos_geq) (auto simp: in64_def)
  have down: "(a + b + 2 ^ 63) mod 2 ^ 64 = a + b + 2 ^ 63 + 2 ^ 64" if "a + b < - (2 ^ 63)"
  proof -
    have "(a + b + 2 ^ 63) mod 2 ^ 64 = (a + b + 2 ^ 63 + 2 ^ 64) mod 2 ^ 64"
      by (metis mod_add_self2)
    also have "\<dots> = a + b + 2 ^ 63 + 2 ^ 64"
      using that assms by (intro mod_pos_pos_trivial) (auto simp: in64_def)
    finally show ?thesis .
  qed
  show ?thesis
    using up down wrap64_id [of "a + b"] by (auto simp: wrap64_def in64_def)
qed

text \<open>The sign test the code uses after an addition detects overflow exactly.\<close>

lemma add_overflow_check:
  fixes a b :: int64
  shows "(sint b > 0 \<and> sint (a + b) < sint a) \<or> (sint b < 0 \<and> sint (a + b) > sint a)
    \<longleftrightarrow> \<not> in64 (sint a + sint b)"
proof -
  have "in64 (sint a)" "in64 (sint b)" by simp_all
  then show ?thesis
    by (auto simp: sint_add64 wrap64_sum in64_def)
qed

lemma go_quot_nonneg: "0 \<le> a \<Longrightarrow> 0 < b \<Longrightarrow> go_quot a b = a div b"
  by (cases "a = 0") (auto simp: go_quot_def sgn_if)

lemma go_quot_minus: "go_quot (- a) b = - go_quot a b"
  by (simp add: go_quot_def)

lemma go_quot_mult [simp]: "b \<noteq> 0 \<Longrightarrow> go_quot (a * b) b = a"
proof -
  assume "b \<noteq> 0"
  then have "go_quot (a * b) b = sgn a * \<bar>a\<bar> * (sgn b * sgn b)"
    by (simp add: go_quot_def abs_mult sgn_mult ac_simps)
  also have "\<dots> = a" using \<open>b \<noteq> 0\<close> by (simp add: sgn_mult_abs sgn_if)
  finally show ?thesis .
qed

lemma abs_go_quot_le: "\<bar>go_quot a b\<bar> \<le> \<bar>a\<bar>"
proof (cases "b = 0")
  case False
  have "\<bar>a\<bar> div \<bar>b\<bar> \<le> \<bar>a\<bar>"
    using False zdiv_mono2 [of "\<bar>a\<bar>" 1 "\<bar>b\<bar>"] by simp
  moreover have "0 \<le> \<bar>a\<bar> div \<bar>b\<bar>" using False by (simp add: pos_imp_zdiv_nonneg_iff)
  ultimately show ?thesis by (auto simp: go_quot_def sgn_if abs_mult)
qed (simp add: go_quot_def)

lemma sint_word_of_int_in64 [simp]: "in64 k \<Longrightarrow> sint (word_of_int k :: int64) = k"
  by (simp add: sint_of_int)

lemma sint_add_in64 [simp]: "in64 (sint a + sint b) \<Longrightarrow> sint (a + b :: int64) = sint a + sint b"
  by (simp add: sint_add64)

lemma sint_sub_in64 [simp]: "in64 (sint a - sint b) \<Longrightarrow> sint (a - b :: int64) = sint a - sint b"
  by (simp add: sint_sub64)

lemma sint_minus_in64 [simp]: "in64 (- sint a) \<Longrightarrow> sint (- a :: int64) = - sint a"
  by (simp add: sint_minus64)

lemma sint_eq_0_iff64 [simp]: "sint w = 0 \<longleftrightarrow> w = (0 :: int64)"
  using sint_eq64 [of w 0] by simp

lemma in64_add_nonneg: "0 \<le> x \<Longrightarrow> 0 \<le> y \<Longrightarrow> in64 (x + y) \<Longrightarrow> in64 x"
  by (auto simp: in64_def)

lemma go_rem_eq: "go_rem a b = sgn a * (\<bar>a\<bar> mod \<bar>b\<bar>)"
proof -
  have "b * sgn b = \<bar>b\<bar>" by (simp add: sgn_if)
  then have "b * (sgn a * sgn b * q) = sgn a * (\<bar>b\<bar> * q)" for q
    by (metis mult.assoc mult.left_commute)
  then have "go_rem a b = sgn a * \<bar>a\<bar> - sgn a * (\<bar>b\<bar> * (\<bar>a\<bar> div \<bar>b\<bar>))"
    by (simp add: go_rem_def go_quot_def sgn_mult_abs)
  also have "\<dots> = sgn a * (\<bar>a\<bar> - \<bar>b\<bar> * (\<bar>a\<bar> div \<bar>b\<bar>))" by (simp only: right_diff_distrib)
  finally show ?thesis by (simp only: minus_mult_div_eq_mod)
qed

lemma abs_go_rem_less: "b \<noteq> 0 \<Longrightarrow> \<bar>go_rem a b\<bar> < \<bar>b\<bar>"
  by (auto simp: go_rem_eq abs_mult sgn_if)

lemma abs_go_quot_half: "2 \<le> \<bar>b\<bar> \<Longrightarrow> 2 * \<bar>go_quot a b\<bar> \<le> \<bar>a\<bar>"
proof -
  assume "2 \<le> \<bar>b\<bar>"
  then have "\<bar>a\<bar> div \<bar>b\<bar> \<le> \<bar>a\<bar> div 2" by (intro zdiv_mono2) auto
  moreover have "0 \<le> \<bar>a\<bar> div \<bar>b\<bar>" using \<open>2 \<le> \<bar>b\<bar>\<close> by (simp add: pos_imp_zdiv_nonneg_iff)
  ultimately show ?thesis by (auto simp: go_quot_def abs_mult sgn_if)
qed

lemma wrap64_shift: "\<exists>k. wrap64 x = x + k * 2 ^ 64"
proof -
  have "(x + 2 ^ 63) mod 2 ^ 64 = (x + 2 ^ 63) - 2 ^ 64 * ((x + 2 ^ 63) div 2 ^ 64)"
    by (simp add: minus_mult_div_eq_mod)
  then have "wrap64 x = x + (- ((x + 2 ^ 63) div 2 ^ 64)) * 2 ^ 64" by (simp add: wrap64_def)
  then show ?thesis by blast
qed

text \<open>The code's multiplication check, \<open>product / factor != amount\<close>, misses exactly one pair.\<close>

lemma mul_overflow_check:
  fixes a f :: int64
  assumes "f \<noteq> 0"
  shows "quot64 (a * f) f = a \<longleftrightarrow> in64 (sint a * sint f) \<or> (a = MinInt64 \<and> f = - 1)"
proof -
  define p where "p = wrap64 (sint a * sint f)"
  have f0: "sint f \<noteq> 0" using assms by (metis sint_0 sint_eq64)
  have eq: "quot64 (a * f) f = a \<longleftrightarrow> wrap64 (go_quot p (sint f)) = sint a"
    unfolding p_def by (metis sint_eq64 sint_mult64 sint_quot64)
  consider "in64 (sint a * sint f)" | "\<not> in64 (sint a * sint f)" "\<bar>sint f\<bar> \<le> 1"
    | "\<not> in64 (sint a * sint f)" "2 \<le> \<bar>sint f\<bar>" by linarith
  then show ?thesis
  proof cases
    case 1
    then show ?thesis using f0 eq by (simp add: p_def)
  next
    case 2
    then have "sint f = 1 \<or> sint f = - 1" using f0 by linarith
    with 2 have f1: "f = - 1" and "sint f = - 1"
      using sint_eq64 [of f "- 1"] by auto
    with 2 have "sint a = sint MinInt64" using in64_sint [of a] by (auto simp: in64_def)
    then have "a = MinInt64" by (simp only: sint_eq64)
    moreover have "quot64 (MinInt64 * - 1) (- 1) = MinInt64"
      by (simp add: MinInt64_def quot64_def go_quot_def)
    ultimately show ?thesis using f1 by simp
  next
    case 3
    have "in64 p" by (simp add: p_def)
    then have inq: "in64 (go_quot p (sint f))"
      using abs_go_quot_half [OF 3(2), of p] by (auto simp: in64_def)
    obtain k where k: "p = sint a * sint f + k * 2 ^ 64"
      using wrap64_shift unfolding p_def by blast
    have "k \<noteq> 0" using 3 k \<open>in64 p\<close> by auto
    have "go_quot p (sint f) \<noteq> sint a"
    proof
      assume q: "go_quot p (sint f) = sint a"
      have "\<bar>p - sint f * sint a\<bar> < \<bar>sint f\<bar>"
        using abs_go_rem_less [OF f0, of p] by (simp add: go_rem_def q)
      moreover have "p - sint f * sint a = k * 2 ^ 64" using k by (simp add: mult.commute)
      ultimately have "\<bar>k\<bar> * 2 ^ 64 < \<bar>sint f\<bar>" by (simp add: abs_mult)
      moreover have "\<bar>sint f\<bar> \<le> 2 ^ 63" using in64_sint [of f] by (auto simp: in64_def)
      moreover have "1 \<le> \<bar>k\<bar>" using \<open>k \<noteq> 0\<close> by linarith
      ultimately show False by simp
    qed
    moreover have "f \<noteq> - 1" using 3(2) by auto
    ultimately show ?thesis using eq inq 3 by simp
  qed
qed

subsection \<open>Decimal rendering\<close>

text \<open>\<open>fmt\<close>'s \<open>%d\<close> on a non-negative value and \<open>%0*d\<close> with a width.\<close>

definition digit_char :: "nat \<Rightarrow> char" where
  "digit_char d = char_of (48 + d)"

fun show_nat :: "nat \<Rightarrow> string" where
  "show_nat n = (if n < 10 then [digit_char n] else show_nat (n div 10) @ [digit_char (n mod 10)])"

declare show_nat.simps [simp del]

definition pad0 :: "nat \<Rightarrow> string \<Rightarrow> string" where
  "pad0 w s = replicate (w - length s) (CHR ''0'') @ s"

definition show_int :: "int \<Rightarrow> string" where
  "show_int k = (if k < 0 then CHR ''-'' # show_nat (nat (- k)) else show_nat (nat k))"

text \<open>The same digits computed on binary integers, which is how the rendering is evaluated.\<close>

function show_digits :: "int \<Rightarrow> string" where
  "show_digits k = (if k < 10 then [digit_char (nat k)] else show_digits (k div 10) @ [digit_char (nat (k mod 10))])"
  by pat_completeness auto
termination by (relation "measure nat") auto

declare show_digits.simps [simp del]

lemma show_digits_eq: "0 \<le> k \<Longrightarrow> show_digits k = show_nat (nat k)"
proof (induction k rule: show_digits.induct)
  case (1 k)
  then show ?case
    by (subst show_digits.simps, subst show_nat.simps) (auto simp: nat_div_distrib nat_mod_distrib)
qed

lemma show_int_code [code]: "show_int k = (if k < 0 then CHR ''-'' # show_digits (- k) else show_digits k)"
  by (simp add: show_int_def show_digits_eq)

subsection \<open>Lists\<close>

lemma sum_list_filter_partition:
  fixes f :: "'a \<Rightarrow> 'b::comm_monoid_add"
  shows "sum_list (map f xs) = sum_list (map f (filter P xs)) + sum_list (map f (filter (\<lambda>x. \<not> P x) xs))"
  by (induction xs) (auto simp: ac_simps)

lemma sum_list_list_update:
  fixes f :: "'a \<Rightarrow> int"
  assumes "i < length xs"
  shows "sum_list (map f (xs[i := y])) = sum_list (map f xs) - f (xs ! i) + f y"
  using assms by (induction xs arbitrary: i) (auto split: nat.splits)

end
