(* ===== verification/Money.thy ===== *)
theory Money
  imports Prelude
begin

text \<open>
  The monetary value type of internal/domain/money: currency validation and exponents
  (currency.go), overflow- and currency-checked arithmetic (money.go), banker's rounding
  (rounding.go) and proportional allocation (allocate.go). Amounts are \<open>int64\<close> minor units.
  JSON encoding (serialization.go) is not modelled beyond its validation.
\<close>

section \<open>Currency (currency.go)\<close>

definition is_upper :: "char \<Rightarrow> bool" where
  "is_upper ch \<longleftrightarrow> \<not> ((of_char ch :: nat) < of_char (CHR ''A'') \<or> (of_char ch :: nat) > of_char (CHR ''Z''))"

definition Currency_Validate :: "currency \<Rightarrow> unit result" where
  "Currency_Validate c =
     (if length c \<noteq> 3 then Inl ErrInvalidCurrency
      else if \<not> list_all is_upper c then Inl ErrInvalidCurrency
      else Inr ())"

definition exponents :: "currency \<rightharpoonup> nat" where
  "exponents = map_of
     [(''BHD'', 3), (''CLP'', 0), (''IDR'', 0), (''ISK'', 0), (''JOD'', 3), (''JPY'', 0),
      (''KRW'', 0), (''KWD'', 3), (''OMR'', 3), (''TND'', 3), (''VND'', 0)]"

definition defaultExponent :: nat where
  "defaultExponent = 2"

definition Exponent :: "currency \<Rightarrow> nat" where
  "Exponent c = (case exponents c of Some e \<Rightarrow> e | None \<Rightarrow> defaultExponent)"

section \<open>Money (money.go)\<close>

record Money =
  m_amount :: int64
  m_currency :: currency

abbreviation minor :: "Money \<Rightarrow> int" where
  "minor m \<equiv> sint (m_amount m)"

abbreviation mk_money :: "int64 \<Rightarrow> currency \<Rightarrow> Money" where
  "mk_money a c \<equiv> \<lparr>m_amount = a, m_currency = c\<rparr>"

definition Money_New :: "int64 \<Rightarrow> currency \<Rightarrow> Money result" where
  "Money_New minorUnits c = ebind (Currency_Validate c) (\<lambda>_. Inr (mk_money minorUnits c))"

definition MustNew :: "int64 \<Rightarrow> currency \<Rightarrow> Money result" where
  "MustNew minorUnits c =
     (case Money_New minorUnits c of Inl _ \<Rightarrow> Inl (GoPanic ''MustNew'') | Inr m \<Rightarrow> Inr m)"

definition Money_Zero :: "currency \<Rightarrow> Money result" where
  "Money_Zero c = Money_New 0 c"

definition IsZero :: "Money \<Rightarrow> bool" where
  "IsZero m \<longleftrightarrow> minor m = 0"

definition IsPositive :: "Money \<Rightarrow> bool" where
  "IsPositive m \<longleftrightarrow> minor m > 0"

definition IsValid :: "Money \<Rightarrow> bool" where
  "IsValid m \<longleftrightarrow> is_ok (Currency_Validate (m_currency m))"

definition assertSameCurrency :: "Money \<Rightarrow> Money \<Rightarrow> unit result" where
  "assertSameCurrency m other =
     ebind (Currency_Validate (m_currency m)) (\<lambda>_.
     assert_err (m_currency m = m_currency other) ErrCurrencyMismatch)"

definition Money_Add :: "Money \<Rightarrow> Money \<Rightarrow> Money result" where
  "Money_Add m other =
     ebind (assertSameCurrency m other) (\<lambda>_.
     let s = m_amount m + m_amount other in
     if (minor other > 0 \<and> sint s < minor m) \<or> (minor other < 0 \<and> sint s > minor m)
     then Inl ErrOverflow
     else Inr (mk_money s (m_currency m)))"

definition Money_Neg :: "Money \<Rightarrow> Money result" where
  "Money_Neg m =
     (if m_amount m = MinInt64 then Inl ErrOverflow
      else Inr (mk_money (- m_amount m) (m_currency m)))"

definition Money_Sub :: "Money \<Rightarrow> Money \<Rightarrow> Money result" where
  "Money_Sub m other = ebind (Money_Neg other) (\<lambda>neg. Money_Add m neg)"

definition Money_Mul :: "Money \<Rightarrow> int64 \<Rightarrow> Money result" where
  "Money_Mul m factor =
     (if m_amount m = 0 \<or> factor = 0 then Inr (mk_money 0 (m_currency m))
      else let product = m_amount m * factor in
        if quot64 product factor \<noteq> m_amount m then Inl ErrOverflow
        else Inr (mk_money product (m_currency m)))"

definition Money_Cmp :: "Money \<Rightarrow> Money \<Rightarrow> int result" where
  "Money_Cmp m other =
     ebind (assertSameCurrency m other) (\<lambda>_.
     if minor m < minor other then Inr (- 1)
     else if minor m > minor other then Inr 1
     else Inr 0)"

definition Money_Equal :: "Money \<Rightarrow> Money \<Rightarrow> bool" where
  "Money_Equal m other \<longleftrightarrow> m_amount m = m_amount other \<and> m_currency m = m_currency other"

text \<open>\<open>String\<close>: the divisor loop multiplies by ten \<open>exp\<close> times; \<open>exp\<close> is at most 3.\<close>

definition Money_String :: "Money \<Rightarrow> string" where
  "Money_String m =
     (let exp = Exponent (m_currency m) in
      if exp = 0 \<or> (minor m < 0 \<and> m_amount m = MinInt64)
      then show_int (minor m) @ '' '' @ m_currency m
      else
        let neg = minor m < 0;
            a = (if neg then - minor m else minor m);
            divisor = 10 ^ exp;
            whole = go_quot a divisor;
            frac = go_rem a divisor
        in (if neg then ''-'' else []) @ show_int whole @ ''.'' @
           pad0 exp (show_int frac) @ '' '' @ m_currency m)"

section \<open>Rounding (rounding.go)\<close>

definition DivRoundHalfEven :: "int \<Rightarrow> int \<Rightarrow> int64 result" where
  "DivRoundHalfEven num den =
     (if sgn den = 0 then Inl (ErrOther ''division by zero'')
      else
        let negative = sgn num * sgn den < 0;
            absNum = \<bar>num\<bar>;
            absDen = \<bar>den\<bar>;
            quo = absNum div absDen;
            rem = absNum mod absDen;
            quo1 = (if 2 * rem > absDen then quo + 1
                    else if 2 * rem = absDen then (if odd quo then quo + 1 else quo)
                    else quo);
            quo2 = (if negative then - quo1 else quo1)
        in if \<not> in64 quo2 then Inl ErrRoundingOverflow
           else if word_of_int quo2 = MinInt64 then Inl ErrRoundingOverflow
           else Inr (word_of_int quo2))"

definition MulRatio :: "Money \<Rightarrow> int64 \<Rightarrow> int64 \<Rightarrow> Money result" where
  "MulRatio m num den =
     (if den = 0 then Inl (ErrOther ''MulRatio: division by zero'')
      else ebind (DivRoundHalfEven (minor m * sint num) (sint den))
        (\<lambda>scaled. Money_New scaled (m_currency m)))"

section \<open>Allocation (allocate.go)\<close>

text \<open>The first loop of \<open>Allocate\<close>: reject a negative ratio, accumulate the total.\<close>

fun ratio_total :: "int64 \<Rightarrow> int64 list \<Rightarrow> int64 result" where
  "ratio_total tot [] = Inr tot"
| "ratio_total tot (r # rs) =
     (if sint r < 0 then Inl ErrNegativeRatio
      else let s = tot + r in
        if sint s < sint tot then Inl ErrOverflow else ratio_total s rs)"

text \<open>The second loop: truncated shares and their running total.\<close>

fun alloc_shares :: "int64 \<Rightarrow> int64 \<Rightarrow> int64 \<Rightarrow> int64 list \<Rightarrow> (int64 list \<times> int64) result" where
  "alloc_shares amt tot allocated [] = Inr ([], allocated)"
| "alloc_shares amt tot allocated (r # rs) =
     (let product = amt * r in
      if r \<noteq> 0 \<and> quot64 product r \<noteq> amt then Inl ErrOverflow
      else let share = quot64 product tot in
        ebind (alloc_shares amt tot (allocated + share) rs) (\<lambda>(ps, al). Inr (share # ps, al)))"

text \<open>The third loop: one unit per part from the first on. Running off the end of \<open>parts\<close>
  would be an index panic.\<close>

fun distribute :: "int64 \<Rightarrow> int64 \<Rightarrow> int64 list \<Rightarrow> int64 list result" where
  "distribute step remainder [] =
     (if remainder = 0 then Inr [] else Inl (GoPanic ''index out of range''))"
| "distribute step remainder (p # ps) =
     (if remainder = 0 then Inr (p # ps)
      else ebind (distribute step (remainder - step) ps) (\<lambda>qs. Inr ((p + step) # qs)))"

definition Allocate :: "Money \<Rightarrow> int64 list \<Rightarrow> Money list result" where
  "Allocate m ratios =
     ebind (Currency_Validate (m_currency m)) (\<lambda>_.
     if ratios = [] then Inl ErrEmptyAllocation else
     ebind (ratio_total 0 ratios) (\<lambda>total.
     if total = 0 then Inl ErrZeroRatioTotal else
     ebind (alloc_shares (m_amount m) total 0 ratios) (\<lambda>(shares, allocated).
     let remainder = m_amount m - allocated;
         step = (if sint remainder < 0 then - 1 else 1) in
     ebind (distribute step remainder shares) (\<lambda>parts.
     Inr (map (\<lambda>a. mk_money a (m_currency m)) parts)))))"

definition Split :: "Money \<Rightarrow> int \<Rightarrow> Money list result" where
  "Split m n =
     (if n \<le> 0 then Inl ErrEmptyAllocation else Allocate m (replicate (nat n) 1))"

fun add_all :: "Money \<Rightarrow> Money list \<Rightarrow> Money result" where
  "add_all acc [] = Inr acc"
| "add_all acc (a # as) = ebind (Money_Add acc a) (\<lambda>t. add_all t as)"

fun Money_Sum :: "Money list \<Rightarrow> Money result" where
  "Money_Sum [] = Inl ErrEmptyAllocation"
| "Money_Sum (a # as) = ebind (Currency_Validate (m_currency a)) (\<lambda>_. add_all a as)"

section \<open>Arithmetic is exact or refused\<close>

definition valid_currency :: "currency \<Rightarrow> bool" where
  "valid_currency c \<longleftrightarrow> length c = 3 \<and> list_all is_upper c"

lemma Currency_Validate_eq:
  "Currency_Validate c = (if valid_currency c then Inr () else Inl ErrInvalidCurrency)"
  by (simp add: Currency_Validate_def valid_currency_def)

lemma IsValid_iff: "IsValid m \<longleftrightarrow> valid_currency (m_currency m)"
  by (simp add: IsValid_def Currency_Validate_eq)

lemma Money_New_Inr_iff [err_simps]:
  "Money_New a c = Inr m \<longleftrightarrow> valid_currency c \<and> m = mk_money a c"
  by (auto simp: Money_New_def Currency_Validate_eq split: if_splits)

lemma Money_Add_eq:
  "Money_Add m other =
    (if \<not> IsValid m then Inl ErrInvalidCurrency
     else if m_currency m \<noteq> m_currency other then Inl ErrCurrencyMismatch
     else if \<not> in64 (minor m + minor other) then Inl ErrOverflow
     else Inr (mk_money (word_of_int (minor m + minor other)) (m_currency m)))"
  unfolding Money_Add_def assertSameCurrency_def IsValid_iff Let_def add_overflow_check
    Currency_Validate_eq by simp

lemma Money_Add_Inr_iff [err_simps]:
  "Money_Add m other = Inr s \<longleftrightarrow> IsValid m \<and> m_currency other = m_currency m
    \<and> in64 (minor m + minor other)
    \<and> s = mk_money (word_of_int (minor m + minor other)) (m_currency m)"
  by (auto simp: Money_Add_eq)

lemma Money_Cmp_Inr_iff [err_simps]:
  "Money_Cmp m other = Inr k \<longleftrightarrow> IsValid m \<and> m_currency other = m_currency m
    \<and> k = (if minor m < minor other then - 1 else if minor m > minor other then 1 else 0)"
  by (auto simp: Money_Cmp_def assertSameCurrency_def IsValid_iff err_simps Currency_Validate_eq
      split: if_splits)

lemma Money_Neg_eq:
  "Money_Neg m = (if minor m = - (2 ^ 63) then Inl ErrOverflow
     else Inr (mk_money (word_of_int (- minor m)) (m_currency m)))"
  using sint_eq64 [of "m_amount m" MinInt64] by (auto simp: Money_Neg_def)

lemma Money_Sub_Inr_iff [err_simps]:
  "Money_Sub m other = Inr d \<longleftrightarrow> IsValid m \<and> m_currency other = m_currency m
    \<and> minor other \<noteq> - (2 ^ 63) \<and> in64 (minor m - minor other)
    \<and> d = mk_money (word_of_int (minor m - minor other)) (m_currency m)"
proof -
  have "in64 (- minor other)" if "minor other \<noteq> - (2 ^ 63)"
    using that in64_sint [of "m_amount other"] by (auto simp: in64_def)
  then show ?thesis
    by (auto simp: Money_Sub_def Money_Neg_eq err_simps split: if_splits)
qed

section \<open>Banker's rounding is the nearest integer, ties to even\<close>
definition is_half_even :: "int \<Rightarrow> int \<Rightarrow> int \<Rightarrow> bool" where
  "is_half_even num den q \<longleftrightarrow>
     2 * \<bar>num - q * den\<bar> \<le> \<bar>den\<bar> \<and> (2 * \<bar>num - q * den\<bar> = \<bar>den\<bar> \<longrightarrow> even q)"

lemma is_half_even_unique:
  assumes "den \<noteq> 0" "is_half_even num den q" "is_half_even num den q'"
  shows "q = q'"
proof (rule ccontr)
  assume "q \<noteq> q'"
  have "(q' - q) * den = (num - q * den) - (num - q' * den)" by (simp add: algebra_simps)
  then have le: "\<bar>q' - q\<bar> * \<bar>den\<bar> \<le> \<bar>num - q * den\<bar> + \<bar>num - q' * den\<bar>"
    by (simp add: abs_mult [symmetric])
  moreover have sum: "\<bar>num - q * den\<bar> + \<bar>num - q' * den\<bar> \<le> \<bar>den\<bar>"
    using assms(2,3) by (simp add: is_half_even_def)
  ultimately have "\<bar>q' - q\<bar> * \<bar>den\<bar> \<le> 1 * \<bar>den\<bar>" by linarith
  then have "\<bar>q' - q\<bar> \<le> 1" using assms(1) by (simp only: mult_le_cancel_right)
  then have one: "\<bar>q' - q\<bar> = 1" using \<open>q \<noteq> q'\<close> by linarith
  have "\<bar>num - q * den\<bar> + \<bar>num - q' * den\<bar> = \<bar>den\<bar>" using le sum one by simp
  then have "2 * \<bar>num - q * den\<bar> = \<bar>den\<bar>" "2 * \<bar>num - q' * den\<bar> = \<bar>den\<bar>"
    using assms(2,3) by (auto simp: is_half_even_def)
  then have "even q" "even q'" using assms(2,3) by (auto simp: is_half_even_def)
  then show False using one by presburger
qed

lemma is_half_even_sign:
  assumes "is_half_even \<bar>num\<bar> \<bar>den\<bar> q" "den \<noteq> 0"
  shows "is_half_even num den (if sgn num * sgn den < 0 then - q else q)"
proof -
  let ?q = "if sgn num * sgn den < 0 then - q else q"
  consider "num = 0" | "num > 0" "den > 0" | "num > 0" "den < 0" | "num < 0" "den > 0"
    | "num < 0" "den < 0" using assms(2) by linarith
  then have "\<bar>num - ?q * den\<bar> = \<bar>\<bar>num\<bar> - q * \<bar>den\<bar>\<bar>"
  proof cases
    case 4
    then have "num - ?q * den = - (\<bar>num\<bar> - q * \<bar>den\<bar>)" by simp
    then show ?thesis by (simp only: abs_minus_cancel)
  next
    case 5
    then have "num - ?q * den = - (\<bar>num\<bar> - q * \<bar>den\<bar>)" by simp
    then show ?thesis by (simp only: abs_minus_cancel)
  qed (simp_all add: abs_mult)
  then show ?thesis using assms(1) by (auto simp: is_half_even_def)
qed

lemma is_half_even_pos:
  fixes n d :: int
  assumes "0 \<le> n" "0 < d"
  shows "is_half_even n d
    (if 2 * (n mod d) > d then n div d + 1
     else if 2 * (n mod d) = d then (if odd (n div d) then n div d + 1 else n div d) else n div d)"
proof -
  have n: "n = n div d * d + n mod d" and m: "0 \<le> n mod d" "n mod d < d"
    using assms by simp_all
  have lo: "\<bar>n - n div d * d\<bar> = n mod d" using n m by linarith
  have "n - (n div d + 1) * d = n mod d - d" by (simp add: distrib_right minus_div_mult_eq_mod)
  then have hi: "\<bar>n - (n div d + 1) * d\<bar> = d - n mod d" using m by linarith
  show ?thesis using m assms by (auto simp: is_half_even_def lo hi)
qed

lemma DivRoundHalfEven_eq:
  assumes "den \<noteq> 0" "is_half_even num den q"
  shows "DivRoundHalfEven num den =
    (if \<bar>q\<bar> < 2 ^ 63 then Inr (word_of_int q) else Inl ErrRoundingOverflow)"
proof -
  define N D where "N = \<bar>num\<bar>" and "D = \<bar>den\<bar>"
  define c where "c = (if 2 * (N mod D) > D then N div D + 1
     else if 2 * (N mod D) = D then (if odd (N div D) then N div D + 1 else N div D) else N div D)"
  have "is_half_even N D c"
    unfolding c_def by (rule is_half_even_pos) (use assms(1) in \<open>auto simp: N_def D_def\<close>)
  then have "is_half_even num den (if sgn num * sgn den < 0 then - c else c)"
    using is_half_even_sign assms(1) by (simp add: N_def D_def)
  then have q: "q = (if sgn num * sgn den < 0 then - c else c)"
    using is_half_even_unique assms by blast
  have "DivRoundHalfEven num den = (if \<not> in64 q \<or> word_of_int q = MinInt64
     then Inl ErrRoundingOverflow else Inr (word_of_int q))"
    using assms(1) unfolding DivRoundHalfEven_def Let_def N_def [symmetric] D_def [symmetric]
      c_def [symmetric] q [symmetric] by (simp add: sgn_eq_0_iff)
  moreover have "word_of_int q = MinInt64 \<longleftrightarrow> q = - (2 ^ 63)" if "in64 q"
    using that sint_eq64 [of "word_of_int q" MinInt64] by (simp add: sint_of_int)
  ultimately show ?thesis by (auto simp: in64_def abs_less_iff)
qed

lemma is_half_even_exists: "den \<noteq> 0 \<Longrightarrow> \<exists>q. is_half_even num den q"
  using is_half_even_sign [OF is_half_even_pos [of "\<bar>num\<bar>" "\<bar>den\<bar>"]] by fastforce

lemma DivRoundHalfEven_Inr:
  assumes "DivRoundHalfEven num den = Inr w"
  shows "den \<noteq> 0" "is_half_even num den (sint w)"
proof -
  show d: "den \<noteq> 0" using assms by (auto simp: DivRoundHalfEven_def)
  obtain q where q: "is_half_even num den q" using is_half_even_exists [OF d] by blast
  then have "\<bar>q\<bar> < 2 ^ 63" "w = word_of_int q"
    using DivRoundHalfEven_eq [OF d q] assms by (auto split: if_splits)
  then have "sint w = q" by (simp only:) (rule sint_word_of_int_in64, simp add: in64_def abs_less_iff)
  then show "is_half_even num den (sint w)" using q by simp
qed

section \<open>Allocation\<close>

abbreviation ratio_sum :: "int64 list \<Rightarrow> int" where
  "ratio_sum rs \<equiv> sum_list (map sint rs)"

lemma ratio_sum_nonneg: "list_all (\<lambda>r. 0 \<le> sint r) rs \<Longrightarrow> 0 \<le> ratio_sum rs"
  by (intro sum_list_nonneg) (auto simp: list_all_iff)

lemma ratio_total_Inr:
  assumes "0 \<le> sint t"
  shows "ratio_total t rs = Inr T \<longleftrightarrow>
    list_all (\<lambda>r. 0 \<le> sint r) rs \<and> in64 (sint t + ratio_sum rs)
    \<and> T = word_of_int (sint t + ratio_sum rs)"
  using assms
proof (induction rs arbitrary: t)
  case Nil
  then show ?case by auto
next
  case (Cons r rs)
  show ?case
  proof (cases "0 \<le> sint r")
    case r: True
    then have chk: "sint (t + r) < sint t \<longleftrightarrow> \<not> in64 (sint t + sint r)"
      using Cons.prems add_overflow_check [of r t] by (cases "r = 0") auto
    show ?thesis
    proof (cases "in64 (sint t + sint r)")
      case True
      then have "sint (t + r) = sint t + sint r" by (simp add: sint_add64)
      then show ?thesis using True r chk Cons by (simp add: Let_def add.assoc)
    next
      case False
      then have "\<not> in64 (sint t + (sint r + ratio_sum rs))" if "list_all (\<lambda>r. 0 \<le> sint r) rs"
        using in64_add_nonneg [of "sint t + sint r" "ratio_sum rs"] ratio_sum_nonneg [OF that] r Cons.prems
        by (auto simp: add.assoc)
      then show ?thesis using False r chk by (auto simp: Let_def)
    qed
  qed simp
qed

lemma alloc_shares_Inr:
  "alloc_shares amt t al rs = Inr (ps, al') \<longleftrightarrow>
    list_all (\<lambda>r. r = 0 \<or> quot64 (amt * r) r = amt) rs
    \<and> ps = map (\<lambda>r. quot64 (amt * r) t) rs \<and> al' = al + sum_list ps"
  by (induction rs arbitrary: al ps al') (auto simp: Let_def err_simps add.assoc)

lemma distribute_eq:
  assumes "step = 1 \<or> step = - 1" "k \<le> length ps" "k < 2 ^ 64"
  shows "distribute step (step * of_nat k) ps = Inr (map (\<lambda>p. p + step) (take k ps) @ drop k ps)"
  using assms(2,3)
proof (induction ps arbitrary: k)
  case Nil
  then show ?case by simp
next
  case (Cons p ps)
  show ?case
  proof (cases k)
    case 0
    then show ?thesis by simp
  next
    case (Suc j)
    have "of_nat k \<noteq> (0 :: int64)"
      using Cons.prems Suc by (auto simp: word_of_nat_eq_0_iff simp del: of_nat_Suc dest: dvd_imp_le)
    then have "step * of_nat k \<noteq> 0" using assms(1) by auto
    moreover have "step * of_nat k - step = step * of_nat j" using Suc by (simp add: algebra_simps)
    ultimately show ?thesis using Cons.IH [of j] Cons.prems Suc by simp
  qed
qed


text \<open>Integer-level account of the truncated shares.\<close>

definition share_of :: "int \<Rightarrow> int \<Rightarrow> int \<Rightarrow> int" where
  "share_of a t r = go_quot (a * r) t"

lemma share_of_eq: "0 \<le> r \<Longrightarrow> 0 < t \<Longrightarrow> share_of a t r = sgn a * (\<bar>a\<bar> * r div t)"
  by (cases "r = 0") (auto simp: share_of_def go_quot_def abs_mult sgn_mult)

lemma sum_floor_shares:
  fixes t A :: int
  assumes "0 < t" "0 \<le> A" "\<forall>r \<in> set rs. 0 \<le> r"
  shows "0 \<le> A * sum_list rs - t * (\<Sum>r\<leftarrow>rs. A * r div t)
    \<and> A * sum_list rs - t * (\<Sum>r\<leftarrow>rs. A * r div t) \<le> (t - 1) * int (length rs)"
  using assms(3)
proof (induction rs)
  case Nil
  then show ?case by simp
next
  case (Cons r rs)
  have "A * r - t * (A * r div t) = A * r mod t" by (simp add: minus_mult_div_eq_mod)
  moreover have "0 \<le> A * r mod t" "A * r mod t \<le> t - 1" using assms by simp_all
  moreover have "A * sum_list (r # rs) - t * (\<Sum>r\<leftarrow>r # rs. A * r div t) =
      (A * r - t * (A * r div t)) + (A * sum_list rs - t * (\<Sum>r\<leftarrow>rs. A * r div t))"
    by (simp add: distrib_left)
  moreover have "(t - 1) * int (length (r # rs)) = (t - 1) + (t - 1) * int (length rs)"
    by (simp add: distrib_left)
  ultimately show ?case using Cons by auto
qed

lemma remainder_bounds:
  fixes t A :: int
  assumes "0 < t" "0 \<le> A" "\<forall>r \<in> set rs. 0 \<le> r" "sum_list rs = t" "rs \<noteq> []"
  shows "0 \<le> A - (\<Sum>r\<leftarrow>rs. A * r div t)" "A - (\<Sum>r\<leftarrow>rs. A * r div t) < int (length rs)"
proof -
  let ?S = "\<Sum>r\<leftarrow>rs. A * r div t"
  have b: "0 \<le> t * (A - ?S)" "t * (A - ?S) \<le> (t - 1) * int (length rs)"
    using sum_floor_shares [OF assms(1-3)] assms(4) by (auto simp: algebra_simps)
  show "0 \<le> A - ?S" using b(1) assms(1) by (simp add: zero_le_mult_iff)
  have "(t - 1) * int (length rs) < t * int (length rs)" using assms(5) by (simp add: left_diff_distrib)
  then have "t * (A - ?S) < t * int (length rs)" using b(2) by linarith
  then show "A - ?S < int (length rs)" using assms(1) by (simp only: mult_less_cancel_left_pos)
qed

lemma sum_word_of_ints:
  "sum_list (map (\<lambda>x. word_of_int (f x) :: int64) xs) = word_of_int (\<Sum>x\<leftarrow>xs. f x)"
  by (induction xs) auto

lemma elem_le_sum_list:
  fixes f :: "'a \<Rightarrow> int"
  assumes "\<forall>x \<in> set xs. 0 \<le> f x" "x \<in> set xs"
  shows "f x \<le> (\<Sum>x\<leftarrow>xs. f x)"
proof -
  have "f x + sum_list (map f (remove1 x xs)) = sum_list (map f xs)"
    using assms(2) by (simp add: sum_list_map_remove1)
  moreover have "0 \<le> sum_list (map f (remove1 x xs))"
    using assms(1) by (intro sum_list_nonneg) (auto dest: notin_set_remove1)
  ultimately show ?thesis by linarith
qed

text \<open>The allocation on integers: truncated shares, the first \<open>k\<close> moved one unit away from 0.\<close>

definition alloc_ints :: "int \<Rightarrow> int list \<Rightarrow> int list" where
  "alloc_ints a rs =
     (let t = sum_list rs;
          qs = map (share_of a t) rs;
          k = nat \<bar>a - sum_list qs\<bar>
      in map (\<lambda>q. q + sgn a) (take k qs) @ drop k qs)"


lemma alloc_ints_facts:
  fixes a :: int
  assumes nonneg: "\<forall>r \<in> set rs. 0 \<le> r" and pos: "0 < sum_list rs" and ne: "rs \<noteq> []"
  defines "t \<equiv> sum_list rs"
  defines "S \<equiv> \<Sum>r\<leftarrow>rs. \<bar>a\<bar> * r div t"
  shows "sum_list (map (share_of a t) rs) = sgn a * S"
    and "a - sgn a * S = sgn a * (\<bar>a\<bar> - S)"
    and "0 \<le> \<bar>a\<bar> - S" and "\<bar>a\<bar> - S < int (length rs)"
    and "\<And>r. r \<in> set rs \<Longrightarrow> 0 \<le> \<bar>a\<bar> * r div t \<and> \<bar>a\<bar> * r div t \<le> S"
proof -
  have "map (share_of a t) rs = map (\<lambda>r. sgn a * (\<bar>a\<bar> * r div t)) rs"
    using nonneg pos by (auto simp: share_of_eq t_def)
  then show "sum_list (map (share_of a t) rs) = sgn a * S"
    by (simp only: S_def sum_list_const_mult)
  show "a - sgn a * S = sgn a * (\<bar>a\<bar> - S)" by (simp add: right_diff_distrib sgn_mult_abs)
  show "0 \<le> \<bar>a\<bar> - S" "\<bar>a\<bar> - S < int (length rs)"
    unfolding S_def t_def
    by (rule remainder_bounds, use nonneg pos ne in simp_all)+
  fix r assume "r \<in> set rs"
  moreover have "\<forall>r \<in> set rs. 0 \<le> \<bar>a\<bar> * r div t"
    using nonneg pos by (auto simp: t_def pos_imp_zdiv_nonneg_iff)
  ultimately show "0 \<le> \<bar>a\<bar> * r div t \<and> \<bar>a\<bar> * r div t \<le> S"
    unfolding S_def using elem_le_sum_list [where f = "\<lambda>r. \<bar>a\<bar> * r div t"] by blast
qed

lemma alloc_ints_nth:
  fixes a :: int
  assumes "\<forall>r \<in> set rs. 0 \<le> r" "0 < sum_list rs" "rs \<noteq> []" "i < length rs"
  defines "S \<equiv> \<Sum>r\<leftarrow>rs. \<bar>a\<bar> * r div sum_list rs"
  shows "alloc_ints a rs ! i =
    sgn a * (\<bar>a\<bar> * (rs ! i) div sum_list rs + (if int i < \<bar>a\<bar> - S then 1 else 0))"
proof -
  note f = alloc_ints_facts [OF assms(1-3), where a = a, folded S_def]
  have k: "\<bar>a - sum_list (map (share_of a (sum_list rs)) rs)\<bar> = (if a = 0 then 0 else \<bar>a\<bar> - S)"
    using f(1-3) by (simp add: abs_mult)
  have "a = 0 \<Longrightarrow> S = 0" using f(3) f(5) assms(3) by (simp add: S_def)
  then show ?thesis
    using assms(1,2,4) k f(3,4)
    by (auto simp: alloc_ints_def Let_def nth_append share_of_eq distrib_left min_def)
qed

lemma sum_list_bump:
  fixes qs :: "int list"
  shows "k \<le> length qs \<Longrightarrow>
    sum_list (map (\<lambda>q. q + d) (take k qs) @ drop k qs) = sum_list qs + int k * d"
proof -
  assume "k \<le> length qs"
  moreover have "sum_list qs = sum_list (take k qs) + sum_list (drop k qs)"
    by (metis append_take_drop_id sum_list_append)
  ultimately show ?thesis by (simp add: sum_list_addf sum_list_triv min_def)
qed

lemma alloc_ints_spec:
  assumes "\<forall>r \<in> set rs. 0 \<le> r" "0 < sum_list rs" "rs \<noteq> []"
  shows "length (alloc_ints a rs) = length rs"
    and "sum_list (alloc_ints a rs) = a"
    and "\<forall>x \<in> set (alloc_ints a rs). 0 \<le> sgn a * x \<and> sgn a * x \<le> \<bar>a\<bar>"
proof -
  define S where "S = (\<Sum>r\<leftarrow>rs. \<bar>a\<bar> * r div sum_list rs)"
  note f = alloc_ints_facts [OF assms, where a = a, folded S_def]
  have k: "nat \<bar>a - sum_list (map (share_of a (sum_list rs)) rs)\<bar> \<le> length rs"
    using f(1-4) by (cases "a = 0") (auto simp: abs_mult)
  show len: "length (alloc_ints a rs) = length rs"
    using k by (simp add: alloc_ints_def Let_def min_def)
  have "\<bar>a - sgn a * S\<bar> * sgn a = sgn a * (\<bar>a\<bar> - S)"
    unfolding f(2) using f(3) by (cases "a = 0") (auto simp: abs_mult)
  moreover have "sum_list (alloc_ints a rs) = sgn a * S + \<bar>a - sgn a * S\<bar> * sgn a"
    unfolding alloc_ints_def Let_def using k by (subst sum_list_bump) (simp_all add: f(1))
  ultimately show "sum_list (alloc_ints a rs) = a" using f(2) by linarith
  show "\<forall>x \<in> set (alloc_ints a rs). 0 \<le> sgn a * x \<and> sgn a * x \<le> \<bar>a\<bar>"
  proof
    fix x assume "x \<in> set (alloc_ints a rs)"
    then obtain i where i: "i < length rs" "x = alloc_ints a rs ! i"
      using len by (metis in_set_conv_nth)
    have "sgn a * x = sgn a * sgn a * (\<bar>a\<bar> * (rs ! i) div sum_list rs + (if int i < \<bar>a\<bar> - S then 1 else 0))"
      using alloc_ints_nth [OF assms i(1), of a] by (simp add: i(2) S_def)
    moreover have "0 \<le> \<bar>a\<bar> * (rs ! i) div sum_list rs \<and> \<bar>a\<bar> * (rs ! i) div sum_list rs \<le> S"
      using f(5) i(1) by simp
    moreover have "sgn a * sgn a = (if a = 0 then 0 else 1)" by (simp add: sgn_if)
    ultimately show "0 \<le> sgn a * x \<and> sgn a * x \<le> \<bar>a\<bar>"
      using f(3) by (auto split: if_splits)
  qed
qed


text \<open>When \<open>Allocate\<close> returns, its parts are those of the integer-level account.\<close>

definition allocatable :: "Money \<Rightarrow> int64 list \<Rightarrow> bool" where
  "allocatable m ratios \<longleftrightarrow> valid_currency (m_currency m) \<and> ratios \<noteq> []
     \<and> list_all (\<lambda>r. 0 \<le> sint r) ratios \<and> 0 < ratio_sum ratios \<and> in64 (ratio_sum ratios)
     \<and> list_all (\<lambda>r. in64 (minor m * sint r)) ratios"

lemma in64_same_sign:
  assumes "in64 a" "0 \<le> sgn a * x" "sgn a * x \<le> \<bar>a\<bar>" "a = 0 \<longrightarrow> x = 0"
  shows "in64 x"
  using assms by (auto simp: in64_def sgn_if split: if_splits)

lemma alloc_shares_ok:
  assumes "allocatable m ratios"
  defines "a \<equiv> minor m" and "rs \<equiv> map sint ratios"
  shows "alloc_shares (m_amount m) (word_of_int (sum_list rs)) 0 ratios =
    Inr (map (\<lambda>q. word_of_int q) (map (share_of a (sum_list rs)) rs),
         word_of_int (sum_list (map (share_of a (sum_list rs)) rs)))"
proof -
  have t: "sint (word_of_int (sum_list rs) :: int64) = sum_list rs"
    using assms(1) by (simp add: allocatable_def rs_def)
  have ok: "list_all (\<lambda>r. r = 0 \<or> quot64 (m_amount m * r) r = m_amount m) ratios"
    using assms(1) by (auto simp: allocatable_def list_all_iff) (metis mul_overflow_check)
  have sh: "quot64 (m_amount m * r) (word_of_int (sum_list rs)) = word_of_int (share_of a (sum_list rs) (sint r))"
    if "r \<in> set ratios" for r
    using assms(1) that t by (auto simp: allocatable_def list_all_iff quot64_def sint_mult64 share_of_def a_def)
  have shs: "map (\<lambda>r. quot64 (m_amount m * r) (word_of_int (sum_list rs))) ratios =
      map (\<lambda>q. word_of_int q) (map (share_of a (sum_list rs)) rs)"
    using sh by (simp add: rs_def)
  have "alloc_shares (m_amount m) (word_of_int (sum_list rs)) 0 ratios =
    Inr (map (\<lambda>q. word_of_int q) (map (share_of a (sum_list rs)) rs),
         0 + sum_list (map (\<lambda>q. word_of_int q) (map (share_of a (sum_list rs)) rs)))"
    by (subst alloc_shares_Inr) (use ok shs in simp)
  then show ?thesis using sum_word_of_ints [of "\<lambda>q. q"] by (simp del: map_map)
qed

lemma Allocate_ok:
  assumes "allocatable m ratios"
  shows "Allocate m ratios =
    Inr (map (\<lambda>x. mk_money (word_of_int x) (m_currency m)) (alloc_ints (minor m) (map sint ratios)))"
proof -
  define a rs where "a = minor m" and "rs = map sint ratios"
  define qs where "qs = map (share_of a (sum_list rs)) rs"
  define S where "S = (\<Sum>r\<leftarrow>rs. \<bar>a\<bar> * r div sum_list rs)"
  define d where "d = a - sum_list qs"
  have rs: "\<forall>r \<in> set rs. 0 \<le> r" "0 < sum_list rs" "rs \<noteq> []"
    using assms by (auto simp: allocatable_def rs_def list_all_iff)
  note f = alloc_ints_facts [OF rs, where a = a, folded S_def qs_def]
  have d: "d = sgn a * (\<bar>a\<bar> - S)" using f(1,2) by (simp add: d_def)
  have S0: "0 \<le> S" using f(5) by (auto simp: S_def intro!: sum_list_nonneg)
  have in_d: "in64 d" and in_S: "\<bar>a\<bar> - S \<le> 2 ^ 63"
    using d f(3) S0 in64_sint [of "m_amount m"] by (auto simp: a_def in64_def sgn_if split: if_splits)
  have k: "nat \<bar>d\<bar> \<le> length (map word_of_int qs :: int64 list)" "nat \<bar>d\<bar> < 2 ^ 64"
    using d f(3,4) in_S by (cases "a = 0"; simp add: abs_mult qs_def)+
  define step :: int64 where "step = (if d < 0 then - 1 else 1)"
  have rem: "m_amount m - word_of_int (sum_list qs) = step * of_nat (nat \<bar>d\<bar>)"
    by (simp add: step_def d_def a_def)
  have sd: "d \<noteq> 0 \<Longrightarrow> step = word_of_int (sgn a)"
    using d f(3) by (auto simp: step_def sgn_if mult_less_0_iff)
  have ai: "alloc_ints a rs = map (\<lambda>q. q + sgn a) (take (nat \<bar>d\<bar>) qs) @ drop (nat \<bar>d\<bar>) qs"
    by (simp add: alloc_ints_def Let_def qs_def d_def)
  have "distribute step (m_amount m - word_of_int (sum_list qs)) (map word_of_int qs) =
     Inr (map (\<lambda>p. p + step) (take (nat \<bar>d\<bar>) (map word_of_int qs)) @ drop (nat \<bar>d\<bar>) (map word_of_int qs))"
    unfolding rem by (rule distribute_eq) (use k in \<open>auto simp: step_def\<close>)
  also have "map (\<lambda>p. p + step) (take (nat \<bar>d\<bar>) (map word_of_int qs)) @ drop (nat \<bar>d\<bar>) (map word_of_int qs)
     = map word_of_int (alloc_ints a rs)"
    using sd by (cases "d = 0") (simp_all add: ai take_map drop_map comp_def)
  finally have dist: "distribute step (m_amount m - word_of_int (sum_list qs)) (map word_of_int qs) =
     Inr (map word_of_int (alloc_ints a rs))" .
  have "sint (m_amount m - word_of_int (sum_list qs)) = d"
  proof -
    have "m_amount m - word_of_int (sum_list qs) = word_of_int d" by (simp add: d_def a_def)
    then show ?thesis using in_d by (simp only: sint_word_of_int_in64)
  qed
  then have step: "(if sint (m_amount m - word_of_int (sum_list qs)) < 0 then - 1 else 1) = step"
    by (simp add: step_def)
  have tot: "ratio_total 0 ratios = Inr (word_of_int (sum_list rs))"
    using assms by (subst ratio_total_Inr) (auto simp: allocatable_def rs_def)
  have t0: "(word_of_int (sum_list rs) :: int64) \<noteq> 0"
    using rs(2) assms by (metis allocatable_def less_irrefl rs_def sint_0 sint_word_of_int_in64)
  show ?thesis
    using assms alloc_shares_ok [OF assms] tot t0 dist step
    by (simp add: Allocate_def Currency_Validate_eq allocatable_def rs_def [symmetric] a_def [symmetric]
        qs_def [symmetric] Let_def)
qed


lemma alloc_guards_allocatable:
  assumes v: "valid_currency (m_currency m)" "ratios \<noteq> []"
    and T: "ratio_total 0 ratios = Inr T" "T \<noteq> 0"
    and sh: "alloc_shares (m_amount m) T 0 ratios = Inr (shares, al)"
  shows "allocatable m ratios"
proof -
  have nn: "list_all (\<lambda>r. 0 \<le> sint r) ratios" "in64 (ratio_sum ratios)" "T = word_of_int (ratio_sum ratios)"
    using T(1) by (auto simp: ratio_total_Inr)
  have "ratio_sum ratios \<noteq> 0" using T(2) nn(3) by auto
  then have "0 < ratio_sum ratios" using ratio_sum_nonneg [OF nn(1)] by linarith
  moreover have "list_all (\<lambda>r. in64 (minor m * sint r)) ratios"
    unfolding list_all_iff
  proof
    fix r assume r: "r \<in> set ratios"
    then have "r = 0 \<or> quot64 (m_amount m * r) r = m_amount m" "r \<noteq> - 1"
      using sh nn(1) by (auto simp: alloc_shares_Inr list_all_iff)
    then show "in64 (minor m * sint r)" by (cases "r = 0") (auto simp: mul_overflow_check)
  qed
  ultimately show ?thesis using v nn by (simp add: allocatable_def)
qed

lemma Allocate_is_ok_iff: "is_ok (Allocate m ratios) \<longleftrightarrow> allocatable m ratios"
proof
  assume "is_ok (Allocate m ratios)"
  then show "allocatable m ratios"
    by (auto simp: is_ok_iff Allocate_def err_simps Currency_Validate_eq intro: alloc_guards_allocatable
        split: if_splits)
qed (simp add: Allocate_ok)

lemma add_all_same_sign:
  assumes "valid_currency (m_currency acc)"
    and "\<forall>p \<in> set ps. m_currency p = m_currency acc \<and> 0 \<le> s * minor p"
    and "0 \<le> s * minor acc" "s = 1 \<or> s = - 1" "in64 (minor acc + sum_list (map minor ps))"
  shows "add_all acc ps = Inr (mk_money (word_of_int (minor acc + sum_list (map minor ps))) (m_currency acc))"
  using assms
proof (induction ps arbitrary: acc)
  case Nil
  then show ?case by simp
next
  case (Cons p ps)
  have "0 \<le> s * sum_list (map minor ps)"
    using Cons.prems(2) by (induction ps) (auto simp: distrib_left)
  then have "in64 (minor acc + minor p)"
    using Cons.prems by (auto simp: in64_def)
  then have acc: "Money_Add acc p = Inr (mk_money (m_amount acc + m_amount p) (m_currency acc))"
    and mn: "sint (m_amount acc + m_amount p) = minor acc + minor p"
    using Cons.prems by (auto simp: Money_Add_eq IsValid_iff)
  have "add_all (mk_money (m_amount acc + m_amount p) (m_currency acc)) ps =
     Inr (mk_money (word_of_int (minor acc + minor p + sum_list (map minor ps))) (m_currency acc))"
    using Cons.IH [of "mk_money (m_amount acc + m_amount p) (m_currency acc)"] Cons.prems mn
    by (simp add: distrib_left add.assoc)
  then show ?case using acc by (simp add: add.assoc)
qed

lemma Money_Sum_same_sign:
  assumes "ps \<noteq> []" "valid_currency c" "\<forall>p \<in> set ps. m_currency p = c \<and> 0 \<le> s * minor p"
    and "s = 1 \<or> s = - 1" "in64 (sum_list (map minor ps))"
  shows "Money_Sum ps = Inr (mk_money (word_of_int (sum_list (map minor ps))) c)"
proof (cases ps)
  case (Cons p qs)
  have "m_currency p = c" using assms(3) Cons by simp
  moreover have "add_all p qs =
      Inr (mk_money (word_of_int (minor p + sum_list (map minor qs))) (m_currency p))"
    by (rule add_all_same_sign [where s = s]) (use assms Cons in auto)
  ultimately show ?thesis using assms(2) Cons by (simp add: Currency_Validate_eq)
qed (use assms(1) in simp)

text \<open>C29: whatever the ratios, the parts an allocation returns are in the original currency, one per
  ratio, add up to the original amount exactly, and \<open>Sum\<close> gives the original value back: no
  minor unit is created or destroyed.\<close>

theorem Allocate_exact:
  assumes "Allocate m ratios = Inr parts"
  shows "length parts = length ratios
    \<and> list_all (\<lambda>p. m_currency p = m_currency m) parts
    \<and> sum_list (map minor parts) = minor m
    \<and> Money_Sum parts = Inr m"
proof -
  have al: "allocatable m ratios" using assms Allocate_is_ok_iff [of m ratios] by simp
  define xs where "xs = alloc_ints (minor m) (map sint ratios)"
  have parts: "parts = map (\<lambda>x. mk_money (word_of_int x) (m_currency m)) xs"
    using Allocate_ok [OF al] assms by (simp add: xs_def)
  have rs: "\<forall>r \<in> set (map sint ratios). 0 \<le> r" "0 < ratio_sum ratios" "map sint ratios \<noteq> []"
    using al by (auto simp: allocatable_def list_all_iff)
  note sp = alloc_ints_spec [OF rs, where a = "minor m", folded xs_def]
  have x0: "minor m = 0 \<Longrightarrow> x \<in> set xs \<Longrightarrow> x = 0" for x
    using alloc_ints_nth [OF rs, where a = 0] sp(1) by (auto simp: xs_def in_set_conv_nth)
  have xin: "in64 x" if "x \<in> set xs" for x
    using in64_same_sign [of "minor m" x] sp(3) that x0 by auto
  then have mins: "map minor parts = xs" by (simp add: parts map_idI)
  define s where "s = (if minor m < 0 then - 1 else (1::int))"
  have "\<forall>p \<in> set parts. m_currency p = m_currency m \<and> 0 \<le> s * minor p"
    using sp(3) xin x0 by (auto simp: parts s_def sgn_if split: if_splits)
  then have "Money_Sum parts = Inr (mk_money (word_of_int (sum_list (map minor parts))) (m_currency m))"
    using al sp(1,2) mins by (intro Money_Sum_same_sign [where s = s]) (auto simp: allocatable_def s_def)
  then show ?thesis using sp(1,2) mins by (auto simp: parts list_all_iff)
qed


theorem Allocate_exact_witness:
  "Allocate (mk_money 1000 ''USD'') [1, 1, 1] =
     Inr [mk_money 334 ''USD'', mk_money 333 ''USD'', mk_money 333 ''USD'']
   \<and> Money_Sum [mk_money 334 ''USD'', mk_money 333 ''USD'', mk_money 333 ''USD''] =
     Inr (mk_money 1000 ''USD'')"
proof -
  have "Allocate (mk_money 1000 ''USD'') [1, 1, 1] =
     Inr [mk_money 334 ''USD'', mk_money 333 ''USD'', mk_money 333 ''USD'']" by code_simp
  then show ?thesis using Allocate_exact by blast
qed

text \<open>Every part of an allocation is within one minor unit of its exact proportional share
  \<open>amount * ratio / total\<close>.\<close>

theorem Allocate_fair:
  assumes "Allocate m ratios = Inr parts" "i < length ratios"
  shows "\<bar>minor (parts ! i) * ratio_sum ratios - minor m * sint (ratios ! i)\<bar> \<le> ratio_sum ratios"
proof -
  have al: "allocatable m ratios" using assms(1) Allocate_is_ok_iff [of m ratios] by simp
  define t where "t = ratio_sum ratios"
  define xs where "xs = alloc_ints (minor m) (map sint ratios)"
  have rs: "\<forall>r \<in> set (map sint ratios). 0 \<le> r" "0 < ratio_sum ratios" "map sint ratios \<noteq> []"
    using al by (auto simp: allocatable_def list_all_iff)
  note sp = alloc_ints_spec [OF rs, where a = "minor m", folded xs_def]
  define e :: int where
    "e = (if int i < \<bar>minor m\<bar> - (\<Sum>r\<leftarrow>map sint ratios. \<bar>minor m\<bar> * r div t) then 1 else 0)"
  have e: "e = 0 \<or> e = 1" by (simp add: e_def)
  have x: "xs ! i = sgn (minor m) * (\<bar>minor m\<bar> * sint (ratios ! i) div t + e)"
    using alloc_ints_nth [OF rs, of i "minor m"] assms(2) unfolding xs_def t_def e_def by simp
  have "in64 (xs ! i)"
  proof (rule in64_same_sign [of "minor m"])
    have "xs ! i \<in> set xs" using sp(1) assms(2) by simp
    then show "0 \<le> sgn (minor m) * xs ! i" "sgn (minor m) * xs ! i \<le> \<bar>minor m\<bar>" using sp(3) by auto
  qed (use x in auto)
  then have mi: "minor (parts ! i) = xs ! i"
    using Allocate_ok [OF al] assms sp(1) by (simp add: xs_def)
  define r where "r = sint (ratios ! i)"
  have "\<bar>minor m\<bar> * r - (\<bar>minor m\<bar> * r div t) * t = \<bar>minor m\<bar> * r mod t"
    by (simp add: minus_div_mult_eq_mod)
  moreover have "0 \<le> \<bar>minor m\<bar> * r mod t" "\<bar>minor m\<bar> * r mod t < t" using rs(2) by (auto simp: t_def)
  ultimately have b: "\<bar>(\<bar>minor m\<bar> * r div t + e) * t - \<bar>minor m\<bar> * r\<bar> \<le> t"
    using e by (auto simp: distrib_right)
  have "minor (parts ! i) * t - minor m * r =
      sgn (minor m) * ((\<bar>minor m\<bar> * r div t + e) * t - \<bar>minor m\<bar> * r)"
    unfolding mi x r_def [symmetric] by (simp add: right_diff_distrib mult.assoc [symmetric] sgn_mult_abs)
  then show ?thesis using b rs(2) by (cases "minor m = 0") (auto simp: abs_mult t_def r_def)
qed

theorem Allocate_fair_witness:
  "\<bar>minor (mk_money 334 ''USD'') * ratio_sum [1, 1, 1] - minor (mk_money 1000 ''USD'') * sint (1 :: int64)\<bar>
     \<le> ratio_sum [1, 1, 1]"
proof -
  have "Allocate (mk_money 1000 ''USD'') [1, 1, 1] =
     Inr [mk_money 334 ''USD'', mk_money 333 ''USD'', mk_money 333 ''USD'']" by code_simp
  from Allocate_fair [OF this, of 0] show ?thesis by simp
qed

lemma ratio_total_no_panic: "ratio_total t rs \<noteq> Inl (GoPanic s)"
  by (induction rs arbitrary: t) (auto simp: Let_def)

lemma alloc_shares_no_panic: "alloc_shares a t al rs \<noteq> Inl (GoPanic s)"
  by (induction rs arbitrary: al) (auto simp: Let_def err_simps)

text \<open>An allocation succeeds exactly on a valid currency with non-negative ratios whose total
  is positive and fits an int64 and whose products with the amount fit an int64; the distribution
  loop never runs past the last part.\<close>

theorem Allocate_total:
  "(is_ok (Allocate m ratios) \<longleftrightarrow> allocatable m ratios) \<and> Allocate m ratios \<noteq> Inl (GoPanic s)"
proof -
  have "allocatable m ratios" if "Allocate m ratios = Inl (GoPanic s)"
    using that by (auto simp: Allocate_def err_simps Currency_Validate_eq ratio_total_no_panic
        alloc_shares_no_panic intro: alloc_guards_allocatable split: if_splits)
  then show ?thesis using Allocate_is_ok_iff Allocate_ok by fastforce
qed

section \<open>Claims on the arithmetic\<close>

text \<open>\<open>Add\<close> never returns a wrong number. The wrap-around sum with its sign
  test gives the exact mathematical sum in the common currency, or an error: the invalid
  currency first, then the mismatch, then the overflow.\<close>

theorem Money_Add_exact:
  "Money_Add m other =
    (if \<not> valid_currency (m_currency m) then Inl ErrInvalidCurrency
     else if m_currency m \<noteq> m_currency other then Inl ErrCurrencyMismatch
     else if \<not> in64 (minor m + minor other) then Inl ErrOverflow
     else Inr (mk_money (word_of_int (minor m + minor other)) (m_currency m)))"
  by (simp only: Money_Add_eq IsValid_iff)

text \<open>\<open>Mul\<close> returns the exact product or the overflow error, except at the single pair
  \<open>MinInt64\<close> times \<open>-1\<close>: there the division check passes because \<open>MinInt64 / -1\<close> wraps, and the
  result is \<open>MinInt64\<close> although the product is \<open>2^63\<close>.\<close>

theorem Money_Mul_exact_but_one:
  "Money_Mul m f =
    (if in64 (minor m * sint f) then Inr (mk_money (word_of_int (minor m * sint f)) (m_currency m))
     else if m_amount m = MinInt64 \<and> f = - 1 then Inr (mk_money MinInt64 (m_currency m))
     else Inl ErrOverflow)"
proof (cases "m_amount m = 0 \<or> f = 0")
  case True
  then show ?thesis by (auto simp: Money_Mul_def)
next
  case False
  have "MinInt64 * - 1 = MinInt64" by (simp add: MinInt64_def)
  then show ?thesis
    using False mul_overflow_check [of f "m_amount m"] by (auto simp: Money_Mul_def Let_def)
qed

text \<open>\<open>DivRoundHalfEven\<close> is division to the nearest integer with exact halves going to the even
  neighbour, for every sign combination; it is refused when the divisor is zero and when the
  rounded value is outside the symmetric int64 range.\<close>

theorem DivRoundHalfEven_correct:
  "(\<exists>e. DivRoundHalfEven num 0 = Inl e)
   \<and> (den \<noteq> 0 \<longrightarrow> (\<exists>!q. is_half_even num den q
        \<and> DivRoundHalfEven num den =
            (if \<bar>q\<bar> < 2 ^ 63 then Inr (word_of_int q) else Inl ErrRoundingOverflow)))"
proof -
  have "\<exists>e. DivRoundHalfEven num 0 = Inl e" by (simp add: DivRoundHalfEven_def)
  moreover have "\<exists>!q. is_half_even num den q \<and> DivRoundHalfEven num den =
      (if \<bar>q\<bar> < 2 ^ 63 then Inr (word_of_int q) else Inl ErrRoundingOverflow)" if "den \<noteq> 0"
    using is_half_even_exists [OF that] is_half_even_unique [OF that] DivRoundHalfEven_eq [OF that]
    by metis
  ultimately show ?thesis by blast
qed

theorem DivRoundHalfEven_correct_witness:
  "DivRoundHalfEven 5 (- 2) = Inr (- 2) \<and> is_half_even 5 (- 2) (- 2)"
proof -
  have d: "DivRoundHalfEven 5 (- 2) = Inr (- 2)" by code_simp
  obtain q where q: "is_half_even 5 (- 2) q"
    and "DivRoundHalfEven 5 (- 2) = (if \<bar>q\<bar> < 2 ^ 63 then Inr (word_of_int q) else Inl ErrRoundingOverflow)"
    using DivRoundHalfEven_correct [of 5 "- 2"] by auto
  then have w: "word_of_int q = (- 2 :: int64)" and "\<bar>q\<bar> < 2 ^ 63" using d by (auto split: if_splits)
  then have "q = sint (word_of_int q :: int64)"
    by (subst sint_word_of_int_in64) (simp_all add: in64_def abs_less_iff)
  also have "\<dots> = - 2" by (simp add: w)
  finally show ?thesis using q d by simp
qed

end
