(* ===== verification/Fx.thy ===== *)
theory Fx
  imports Money
begin

text \<open>
  Exchange rates, locks and conversion (internal/domain/fx). A rate is a fixed-point integer
  scaled by \<open>10^9\<close>; conversion is one exact fraction rounded once. The simulated provider's
  oscillation is computed in floating point: its offset is an argument here, everything around
  it (the central rates with their reciprocals, the positivity guard) is modelled.
\<close>

section \<open>Rates (rate.go)\<close>

definition Scale :: int64 where
  "Scale = 1000000000"

record Rate =
  r_Base :: currency
  r_Quote :: currency
  r_Nano :: int64
  r_Source :: string
  r_AsOf :: time

definition NewRate :: "currency \<Rightarrow> currency \<Rightarrow> int64 \<Rightarrow> string \<Rightarrow> time \<Rightarrow> Rate result" where
  "NewRate base quote nano source asOf =
     ebind (Currency_Validate base) (\<lambda>_.
     ebind (Currency_Validate quote) (\<lambda>_.
     if base = quote then Inl ErrSamePair
     else if sint nano \<le> 0 then Inl ErrInvalidRate
     else Inr \<lparr>r_Base = base, r_Quote = quote, r_Nano = nano, r_Source = source, r_AsOf = asOf\<rparr>))"

definition Invert :: "Rate \<Rightarrow> Rate result" where
  "Invert r =
     (if sint (r_Nano r) \<le> 0 then Inl ErrInvalidRate
      else ebind (DivRoundHalfEven (sint Scale * sint Scale) (sint (r_Nano r))) (\<lambda>inverted.
        if sint inverted \<le> 0 then Inl ErrInvalidRate
        else Inr \<lparr>r_Base = r_Quote r, r_Quote = r_Base r, r_Nano = inverted,
                  r_Source = r_Source r, r_AsOf = r_AsOf r\<rparr>))"

section \<open>Conversion (convert.go)\<close>

definition pow10 :: "int \<Rightarrow> int" where
  "pow10 n = 10 ^ nat n"

definition Rate_Convert :: "Rate \<Rightarrow> Money \<Rightarrow> Money result" where
  "Rate_Convert r amount =
     (if m_currency amount \<noteq> r_Base r then Inl ErrFxCurrencyMismatch
      else if sint (r_Nano r) \<le> 0 then Inl ErrInvalidRate
      else
        let num = minor amount * sint (r_Nano r);
            den = sint Scale;
            shift = int (Exponent (r_Quote r)) - int (Exponent (r_Base r));
            num' = (if shift > 0 then num * pow10 shift else num);
            den' = (if shift > 0 then den else if shift < 0 then den * pow10 (- shift) else den)
        in ebind (DivRoundHalfEven num' den') (\<lambda>converted. Money_New converted (r_Quote r)))"

section \<open>Locks (lock.go)\<close>

record Lock =
  l_ID :: uuid
  l_TransactionID :: uuid
  l_Rate :: Rate
  l_LockedAt :: time
  l_ExpiresAt :: time

definition NewLock :: "uuid \<Rightarrow> uuid \<Rightarrow> Rate \<Rightarrow> time \<Rightarrow> int \<Rightarrow> Lock result" where
  "NewLock newID transactionID rate at ttl =
     (if transactionID = 0 then Inl (ErrOther ''fx rate lock requires a transaction id'')
      else if sint (r_Nano rate) \<le> 0 then Inl ErrInvalidRate
      else if ttl \<le> 0 then Inl ErrLockTTLNotPositive
      else Inr \<lparr>l_ID = newID, l_TransactionID = transactionID, l_Rate = rate,
                l_LockedAt = at, l_ExpiresAt = at + ttl\<rparr>)"

definition IsExpired :: "Lock \<Rightarrow> time \<Rightarrow> bool" where
  "IsExpired l now \<longleftrightarrow> \<not> now < l_ExpiresAt l"

definition Lock_Convert :: "Lock \<Rightarrow> Money \<Rightarrow> time \<Rightarrow> Money result" where
  "Lock_Convert l amount now =
     (if IsExpired l now then Inl ErrLockExpired else Rate_Convert (l_Rate l) amount)"

section \<open>The simulated rate feed (provider.go)\<close>

definition DefaultRates :: "((currency \<times> currency) \<times> int64) list" where
  "DefaultRates =
     [((''EUR'', ''USD''), 1085000000), ((''GBP'', ''USD''), 1270000000),
      ((''USD'', ''SGD''), 1345000000), ((''USD'', ''JPY''), 157200000000),
      ((''USD'', ''VND''), 25400000000000), ((''AUD'', ''USD''), 655000000)]"

definition reciprocal_entry ::
  "(currency \<times> currency) \<times> int64 \<Rightarrow> ((currency \<times> currency) \<times> int64) list" where
  "reciprocal_entry e =
     (case e of ((b, q), nano) \<Rightarrow>
        (case ebind (NewRate b q nano ''sim'' 0) Invert of
           Inl _ \<Rightarrow> [] | Inr recip \<Rightarrow> [((q, b), r_Nano recip)]))"

record SimulatedProvider =
  sp_base :: "(currency \<times> currency) \<rightharpoonup> int64"
  sp_volatilityBps :: int64

definition NewSimulatedProvider :: "int64 \<Rightarrow> SimulatedProvider" where
  "NewSimulatedProvider vol =
     \<lparr>sp_base = map_of (concat (map (\<lambda>e. reciprocal_entry e @ [e]) DefaultRates)),
      sp_volatilityBps = vol\<rparr>"

text \<open>\<open>offset base quote central at\<close> is the value of the floating-point oscillation
  (\<open>math.Sin\<close> of the position in the day plus a per-pair phase, scaled), converted to int64.\<close>

definition rateAt ::
  "(currency \<Rightarrow> currency \<Rightarrow> int64 \<Rightarrow> time \<Rightarrow> int64) \<Rightarrow> SimulatedProvider \<Rightarrow>
   currency \<Rightarrow> currency \<Rightarrow> int64 \<Rightarrow> time \<Rightarrow> int64" where
  "rateAt offset p base quote central at =
     (if sint (sp_volatilityBps p) \<le> 0 then central
      else let rate = central + offset base quote central at in
        if sint rate \<le> 0 then central else rate)"

definition Quote ::
  "(currency \<Rightarrow> currency \<Rightarrow> int64 \<Rightarrow> time \<Rightarrow> int64) \<Rightarrow> SimulatedProvider \<Rightarrow>
   currency \<Rightarrow> currency \<Rightarrow> time \<Rightarrow> Rate result" where
  "Quote offset p base quote at =
     (if base = quote then Inl ErrSamePair
      else case sp_base p (base, quote) of
        None \<Rightarrow> Inl ErrUnknownPair
      | Some central \<Rightarrow> NewRate base quote (rateAt offset p base quote central at) ''sim-fx'' at)"

section \<open>Conversion is the exact fraction, rounded once\<close>

lemma is_half_even_scale:
  assumes "0 < k"
  shows "is_half_even (num * k) (den * k) q \<longleftrightarrow> is_half_even num den q"
proof -
  have "num * k - q * (den * k) = (num - q * den) * k" by (simp add: left_diff_distrib mult.assoc)
  then have "\<bar>num * k - q * (den * k)\<bar> = \<bar>num - q * den\<bar> * k"
    using assms by (simp only: abs_mult)
  then show ?thesis
    using assms by (simp add: is_half_even_def abs_mult mult.assoc [symmetric])
qed

lemma half_gap:
  fixes n n' x x' d :: int
  shows "x' + d \<le> x \<Longrightarrow> 2 * \<bar>n - x\<bar> \<le> d \<Longrightarrow> 2 * \<bar>n' - x'\<bar> \<le> d \<Longrightarrow> n' \<le> n"
  by arith

lemma is_half_even_mono:
  assumes "0 < den" "num \<le> num'" "is_half_even num den q" "is_half_even num' den q'"
  shows "q \<le> q'"
proof (rule ccontr)
  assume "\<not> q \<le> q'"
  then have "q' * den + den \<le> q * den"
    using assms(1) mult_right_mono [of "q' + 1" q den] by (simp add: distrib_right)
  moreover have "2 * \<bar>num - q * den\<bar> \<le> den" "2 * \<bar>num' - q' * den\<bar> \<le> den"
    using assms by (simp_all add: is_half_even_def)
  ultimately have "num' \<le> num" using half_gap by blast
  then have "num = num'" using assms(2) by simp
  then show False using \<open>\<not> q \<le> q'\<close> is_half_even_unique [of den num q q'] assms by simp
qed

lemma sint_Scale [simp]: "sint Scale = 1000000000"
  by (simp add: Scale_def)

lemma Rate_Convert_Inr:
  assumes "Rate_Convert r a = Inr c"
  shows "m_currency a = r_Base r" "0 < sint (r_Nano r)" "valid_currency (r_Quote r)"
    "m_currency c = r_Quote r"
    "is_half_even (minor a * sint (r_Nano r) * 10 ^ Exponent (r_Quote r))
       (1000000000 * 10 ^ Exponent (r_Base r)) (minor c)"
proof -
  let ?eq = "Exponent (r_Quote r)" and ?eb = "Exponent (r_Base r)"
  let ?num = "minor a * sint (r_Nano r)"
  obtain w where g: "m_currency a = r_Base r" "0 < sint (r_Nano r)" "valid_currency (r_Quote r)"
    and c: "c = mk_money w (r_Quote r)"
    and w: "DivRoundHalfEven (if ?eq > ?eb then ?num * 10 ^ (?eq - ?eb) else ?num)
       (if ?eq > ?eb then 1000000000 else if ?eq < ?eb then 1000000000 * 10 ^ (?eb - ?eq)
        else 1000000000) = Inr w"
    using assms by (auto simp: Rate_Convert_def Let_def err_simps pow10_def nat_diff_distrib'
        split: if_splits)
  show "m_currency a = r_Base r" "0 < sint (r_Nano r)" "valid_currency (r_Quote r)"
    "m_currency c = r_Quote r" using g c by simp_all
  note h = DivRoundHalfEven_Inr(2) [OF w]
  have "is_half_even (?num * 10 ^ ?eq) (1000000000 * 10 ^ ?eb) (sint w)"
  proof (cases "?eq > ?eb")
    case True
    then have "?num * 10 ^ ?eq = ?num * 10 ^ (?eq - ?eb) * 10 ^ ?eb"
      by (simp add: mult.assoc flip: power_add)
    then show ?thesis using h True by (simp only: is_half_even_scale zero_less_power zero_less_numeral) simp
  next
    case False
    then have "(1000000000 * 10 ^ ?eb :: int) = 1000000000 * 10 ^ (?eb - ?eq) * 10 ^ ?eq"
      by (simp add: mult.assoc flip: power_add)
    then show ?thesis using h False
      by (simp only: is_half_even_scale zero_less_power zero_less_numeral) (auto split: if_splits)
  qed
  then show "is_half_even (minor a * sint (r_Nano r) * 10 ^ ?eq) (1000000000 * 10 ^ ?eb) (minor c)"
    by (simp add: c)
qed

text \<open>A conversion yields the rate's quote currency and the integer nearest to the exact value
  \<open>amount * nano / 10^9 * 10^(exp_quote - exp_base)\<close>, ties to even: the decimal places of both
  currencies are accounted for and rounding happens once.\<close>

theorem Rate_Convert_exact_fraction:
  assumes "Rate_Convert r a = Inr c"
  shows "m_currency c = r_Quote r \<and> valid_currency (m_currency c)
    \<and> is_half_even (minor a * sint (r_Nano r) * 10 ^ Exponent (r_Quote r))
         (10 ^ 9 * 10 ^ Exponent (r_Base r)) (minor c)"
  using Rate_Convert_Inr [OF assms] by simp

theorem Rate_Convert_exact_fraction_witness:
  "is_half_even (10000 * 157200000000 * 10 ^ 0) (10 ^ 9 * 10 ^ 2) 15720"
proof -
  have "Rate_Convert \<lparr>r_Base = ''USD'', r_Quote = ''JPY'', r_Nano = 157200000000, r_Source = ''sim'',
      r_AsOf = 0\<rparr> (mk_money 10000 ''USD'') = Inr (mk_money 15720 ''JPY'')" by code_simp
  from Rate_Convert_exact_fraction [OF this] show ?thesis
    by (simp add: Exponent_def exponents_def defaultExponent_def)
qed

text \<open>Under one rate a larger amount never converts to a smaller one.\<close>

theorem Rate_Convert_mono:
  assumes "Rate_Convert r a = Inr c" "Rate_Convert r b = Inr d" "minor a \<le> minor b"
  shows "minor c \<le> minor d"
proof (rule is_half_even_mono)
  note ca = Rate_Convert_Inr [OF assms(1)] and cb = Rate_Convert_Inr [OF assms(2)]
  show "is_half_even (minor a * sint (r_Nano r) * 10 ^ Exponent (r_Quote r))
       (1000000000 * 10 ^ Exponent (r_Base r)) (minor c)" by (rule ca(5))
  show "is_half_even (minor b * sint (r_Nano r) * 10 ^ Exponent (r_Quote r))
       (1000000000 * 10 ^ Exponent (r_Base r)) (minor d)" by (rule cb(5))
  show "minor a * sint (r_Nano r) * 10 ^ Exponent (r_Quote r)
      \<le> minor b * sint (r_Nano r) * 10 ^ Exponent (r_Quote r)"
    using assms(3) ca(2) by (intro mult_right_mono) auto
qed simp

theorem Rate_Convert_mono_witness: "minor (mk_money 15720 ''JPY'') \<le> minor (mk_money 15877 ''JPY'')"
proof (rule Rate_Convert_mono)
  let ?r = "\<lparr>r_Base = ''USD'', r_Quote = ''JPY'', r_Nano = 157200000000, r_Source = ''sim'', r_AsOf = 0\<rparr>"
  show "Rate_Convert ?r (mk_money 10000 ''USD'') = Inr (mk_money 15720 ''JPY'')" by code_simp
  show "Rate_Convert ?r (mk_money 10100 ''USD'') = Inr (mk_money 15877 ''JPY'')" by code_simp
qed simp

text \<open>A lock converts exactly while the clock is strictly before its expiry, at the rate it
  was taken on; from the expiry instant on every conversion is refused.\<close>

theorem Lock_window:
  assumes "NewLock newID tid rate at ttl = Inr l"
  shows "Lock_Convert l amount now =
    (if now < at + ttl then Rate_Convert rate amount else Inl ErrLockExpired)
    \<and> l_TransactionID l = tid \<and> at < l_ExpiresAt l"
  using assms by (auto simp: NewLock_def Lock_Convert_def IsExpired_def split: if_splits)

theorem Lock_window_witness:
  "Lock_Convert \<lparr>l_ID = 7, l_TransactionID = 3,
      l_Rate = \<lparr>r_Base = ''USD'', r_Quote = ''JPY'', r_Nano = 157200000000, r_Source = ''sim'', r_AsOf = 0\<rparr>,
      l_LockedAt = 100, l_ExpiresAt = 110\<rparr> (mk_money 10000 ''USD'') 110 = Inl ErrLockExpired"
proof -
  let ?r = "\<lparr>r_Base = ''USD'', r_Quote = ''JPY'', r_Nano = 157200000000, r_Source = ''sim'', r_AsOf = 0\<rparr>"
  have "NewLock 7 3 ?r 100 10 =
      Inr \<lparr>l_ID = 7, l_TransactionID = 3, l_Rate = ?r, l_LockedAt = 100, l_ExpiresAt = 110\<rparr>"
    by (simp add: NewLock_def)
  from Lock_window [OF this, of "mk_money 10000 ''USD''" 110] show ?thesis by simp
qed

lemma NewRate_Inr [err_simps]:
  "NewRate b q n s a = Inr r \<longleftrightarrow> valid_currency b \<and> valid_currency q \<and> b \<noteq> q \<and> 0 < sint n
     \<and> r = \<lparr>r_Base = b, r_Quote = q, r_Nano = n, r_Source = s, r_AsOf = a\<rparr>"
  by (auto simp: NewRate_def err_simps Currency_Validate_eq split: if_splits)

lemma Invert_Inr:
  assumes "Invert r = Inr v"
  shows "r_Base v = r_Quote r" "r_Quote v = r_Base r" "0 < sint (r_Nano v)" "0 < sint (r_Nano r)"
    "is_half_even (10 ^ 18) (sint (r_Nano r)) (sint (r_Nano v))"
proof -
  obtain w where w: "DivRoundHalfEven (10 ^ 18) (sint (r_Nano r)) = Inr w" "0 < sint w"
    "0 < sint (r_Nano r)" "v = \<lparr>r_Base = r_Quote r, r_Quote = r_Base r, r_Nano = w,
                  r_Source = r_Source r, r_AsOf = r_AsOf r\<rparr>"
    using assms by (auto simp: Invert_def err_simps split: if_splits)
  then show "r_Base v = r_Quote r" "r_Quote v = r_Base r" "0 < sint (r_Nano v)" "0 < sint (r_Nano r)"
    by simp_all
  show "is_half_even (10 ^ 18) (sint (r_Nano r)) (sint (r_Nano v))"
    using DivRoundHalfEven_Inr(2) [OF w(1)] w(4) by simp
qed

text \<open>A rate and its inverse swap base and quote, both are positive, and their product is
  within half of the original rate of one (in units of \<open>10^-18\<close>): the reciprocal is rounded
  once.\<close>

theorem Invert_accurate:
  assumes "Invert r = Inr v"
  shows "r_Base v = r_Quote r \<and> r_Quote v = r_Base r \<and> 0 < sint (r_Nano v)
    \<and> 2 * \<bar>10 ^ 18 - sint (r_Nano v) * sint (r_Nano r)\<bar> \<le> sint (r_Nano r)"
  using Invert_Inr [OF assms] by (auto simp: is_half_even_def)

theorem Invert_accurate_witness:
  "2 * \<bar>10 ^ 18 - (921658986 :: int) * 1085000000\<bar> \<le> 1085000000"
proof -
  have "Invert \<lparr>r_Base = ''EUR'', r_Quote = ''USD'', r_Nano = 1085000000, r_Source = ''sim'', r_AsOf = 0\<rparr>
    = Inr \<lparr>r_Base = ''USD'', r_Quote = ''EUR'', r_Nano = 921658986, r_Source = ''sim'', r_AsOf = 0\<rparr>"
    by code_simp
  from Invert_accurate [OF this] show ?thesis by simp
qed

lemma Quote_positive:
  "Quote offset p base quote at = Inr r \<Longrightarrow>
     r_Base r = base \<and> r_Quote r = quote \<and> base \<noteq> quote \<and> 0 < sint (r_Nano r) \<and> r_AsOf r = at"
  by (auto simp: Quote_def err_simps split: if_splits option.splits)

end
