(* ===== verification/Fee.thy ===== *)
theory Fee
  imports Money
begin

text \<open>
  Fee schedules (internal/domain/fee/schedule.go): the validity window and the fee on a captured
  amount, a rounded percentage plus a fixed part. \<open>schedule_ok\<close> is what the \<open>CHECK\<close> constraints of
  the fee_schedules table guarantee of a stored row.
\<close>

definition DefaultMerchant :: string where
  "DefaultMerchant = ''*''"

record Schedule =
  s_MerchantID :: string
  s_Currency :: currency
  s_BasisPoints :: int
  s_FixedMinor :: int64
  s_EffectiveFrom :: time
  s_EffectiveTo :: "time option"

definition Applies :: "Schedule \<Rightarrow> time \<Rightarrow> bool" where
  "Applies s at =
     (if at < s_EffectiveFrom s then False
      else case s_EffectiveTo s of None \<Rightarrow> True | Some t \<Rightarrow> at < t)"

definition Calculate :: "Schedule \<Rightarrow> Money \<Rightarrow> Money result" where
  "Calculate s amount =
     (if m_currency amount \<noteq> s_Currency s then Inl (ErrOther ''fee schedule currency'')
      else if \<not> IsPositive amount then Inl (ErrOther ''fee on a non-positive amount'')
      else
        ebind (MulRatio amount (word_of_int (s_BasisPoints s)) 10000) (\<lambda>variable.
        ebind (Money_New (s_FixedMinor s) (s_Currency s)) (\<lambda>fixed.
        ebind (Money_Add variable fixed) (\<lambda>tot.
        ebind (Money_Cmp tot amount) (\<lambda>cmp.
        if cmp \<ge> 0 then Inl ErrFeeExceedsAmount else Inr tot)))))"

definition schedule_ok :: "Schedule \<Rightarrow> bool" where
  "schedule_ok s \<longleftrightarrow> 0 \<le> s_BasisPoints s \<and> s_BasisPoints s \<le> 10000 \<and> 0 \<le> sint (s_FixedMinor s)
     \<and> (case s_EffectiveTo s of None \<Rightarrow> True | Some t \<Rightarrow> s_EffectiveFrom s < t)"

section \<open>The fee\<close>

lemma MulRatio_Inr:
  assumes "MulRatio m num den = Inr v"
  shows "m_currency v = m_currency m" "valid_currency (m_currency m)" "den \<noteq> 0"
    "is_half_even (minor m * sint num) (sint den) (minor v)"
proof -
  obtain w where w: "DivRoundHalfEven (minor m * sint num) (sint den) = Inr w"
    and v: "valid_currency (m_currency m)" "v = mk_money w (m_currency m)" "den \<noteq> 0"
    using assms by (auto simp: MulRatio_def err_simps split: if_splits)
  then show "m_currency v = m_currency m" "valid_currency (m_currency m)" "den \<noteq> 0" by simp_all
  show "is_half_even (minor m * sint num) (sint den) (minor v)"
    using DivRoundHalfEven_Inr(2) [OF w] v by simp
qed

lemma is_half_even_nonneg: "0 < den \<Longrightarrow> 0 \<le> num \<Longrightarrow> is_half_even num den q \<Longrightarrow> 0 \<le> q"
proof (rule ccontr)
  assume "0 < den" "0 \<le> num" "is_half_even num den q" "\<not> 0 \<le> q"
  then have "q * den \<le> - 1 * den" by (intro mult_right_mono) auto
  moreover have "2 * \<bar>num - q * den\<bar> \<le> den"
    using \<open>is_half_even num den q\<close> \<open>0 < den\<close> by (simp add: is_half_even_def)
  moreover have "num - q * den \<le> \<bar>num - q * den\<bar>" by (rule abs_ge_self)
  ultimately show False using \<open>0 \<le> num\<close> \<open>0 < den\<close> by simp
qed

lemma Calculate_Inr:
  assumes "Calculate s amount = Inr f"
  shows "m_currency f = m_currency amount" "valid_currency (m_currency amount)"
    "m_currency amount = s_Currency s" "0 < minor amount" "minor f < minor amount"
    "\<exists>v. is_half_even (minor amount * sint (word_of_int (s_BasisPoints s) :: int64)) 10000 v
         \<and> minor f = v + sint (s_FixedMinor s)"
proof -
  obtain v where g: "m_currency amount = s_Currency s" "0 < minor amount"
    and v: "MulRatio amount (word_of_int (s_BasisPoints s)) 10000 = Inr v"
    and in_f: "in64 (minor v + sint (s_FixedMinor s))"
    and f: "f = mk_money (m_amount v + s_FixedMinor s) (m_currency v)"
    and lt: "sint (m_amount v + s_FixedMinor s) < minor amount"
    using assms by (auto simp: Calculate_def err_simps IsPositive_def IsValid_iff split: if_splits)
  note r = MulRatio_Inr [OF v]
  show "m_currency f = m_currency amount" "valid_currency (m_currency amount)"
    "m_currency amount = s_Currency s" "0 < minor amount" "minor f < minor amount"
    using g f lt r by simp_all
  show "\<exists>v. is_half_even (minor amount * sint (word_of_int (s_BasisPoints s) :: int64)) 10000 v
         \<and> minor f = v + sint (s_FixedMinor s)"
    using r(4) f in_f by auto
qed

lemma Calculate_bounds:
  assumes "Calculate s amount = Inr f" "schedule_ok s"
  shows "0 \<le> minor f" "minor f < minor amount"
proof -
  obtain v where v: "is_half_even (minor amount * sint (word_of_int (s_BasisPoints s) :: int64)) 10000 v"
    and f: "minor f = v + sint (s_FixedMinor s)"
    using Calculate_Inr(6) [OF assms(1)] by blast
  have "sint (word_of_int (s_BasisPoints s) :: int64) = s_BasisPoints s"
    using assms(2) by (simp add: schedule_ok_def in64_def)
  then have "0 \<le> v"
    using v assms(2) Calculate_Inr(4) [OF assms(1)]
      is_half_even_nonneg [of 10000 "minor amount * s_BasisPoints s" v]
    by (simp add: schedule_ok_def)
  then show "0 \<le> minor f" using f assms(2) by (simp add: schedule_ok_def)
  show "minor f < minor amount" by (rule Calculate_Inr(5) [OF assms(1)])
qed

text \<open>C30: the fee a stored schedule takes is the percentage rounded half to even plus the fixed
  part, it is never negative and always strictly less than the amount captured, so the merchant
  is owed something.\<close>

theorem Calculate_fee_bounds:
  assumes "Calculate s amount = Inr f" "schedule_ok s"
  shows "m_currency f = m_currency amount \<and> 0 \<le> minor f \<and> minor f < minor amount
    \<and> is_half_even (minor amount * s_BasisPoints s) 10000 (minor f - sint (s_FixedMinor s))"
proof -
  have "sint (word_of_int (s_BasisPoints s) :: int64) = s_BasisPoints s"
    using assms(2) by (simp add: schedule_ok_def in64_def)
  moreover obtain v where
    "is_half_even (minor amount * sint (word_of_int (s_BasisPoints s) :: int64)) 10000 v"
    "minor f = v + sint (s_FixedMinor s)"
    using Calculate_Inr(6) [OF assms(1)] by blast
  ultimately show ?thesis
    using Calculate_bounds [OF assms] Calculate_Inr(1) [OF assms(1)] by simp
qed

theorem Calculate_fee_bounds_witness:
  "(0::int) \<le> 320 \<and> is_half_even (10000 * 290) 10000 (320 - 30)"
proof -
  let ?s = "\<lparr>s_MerchantID = ''*'', s_Currency = ''USD'', s_BasisPoints = 290, s_FixedMinor = 30,
     s_EffectiveFrom = 0, s_EffectiveTo = None\<rparr>"
  have "Calculate ?s (mk_money 10000 ''USD'') = Inr (mk_money 320 ''USD'')" by code_simp
  from Calculate_fee_bounds [OF this] show ?thesis by (simp add: schedule_ok_def)
qed

text \<open>Schedules that follow each other do not overlap: at every instant at most one of a
  schedule ending at \<open>t\<close> and one starting at \<open>t\<close> applies, and at \<open>t\<close> itself it is the new one.\<close>

theorem Applies_half_open:
  assumes "s_EffectiveTo old = Some t" "s_EffectiveFrom new = t" "schedule_ok new" "schedule_ok old"
  shows "\<not> (Applies old at \<and> Applies new at) \<and> \<not> Applies old t \<and> Applies new t"
  using assms by (auto simp: Applies_def schedule_ok_def split: option.splits)

theorem Applies_half_open_witness:
  "\<not> Applies \<lparr>s_MerchantID = ''*'', s_Currency = ''USD'', s_BasisPoints = 290, s_FixedMinor = 30,
     s_EffectiveFrom = 0, s_EffectiveTo = Some 10\<rparr> 10"
  using Applies_half_open [of "\<lparr>s_MerchantID = ''*'', s_Currency = ''USD'', s_BasisPoints = 290,
     s_FixedMinor = 30, s_EffectiveFrom = 0, s_EffectiveTo = Some 10\<rparr>" 10
     "\<lparr>s_MerchantID = ''*'', s_Currency = ''USD'', s_BasisPoints = 300, s_FixedMinor = 30,
     s_EffectiveFrom = 10, s_EffectiveTo = None\<rparr>" 5]
  by (simp add: schedule_ok_def)

end
