(* ===== verification/Ledger.thy ===== *)
theory Ledger
  imports Money
begin

text \<open>
  The double-entry model of internal/domain/ledger: account types (account.go), postings and the
  constructor of a balanced entry (entry.go). \<open>posting_net\<close> is the mathematical debits-minus-credits
  of a list of postings in one currency; the theorems relate the code's wrapping running totals
  to it.
\<close>

section \<open>Accounts (account.go)\<close>

datatype AccountType =
    AccountTypeAsset | AccountTypeLiability | AccountTypeRevenue | AccountTypeExpense
  | AccountTypeEquity | AccountTypeOther string

definition AccountType_Validate :: "AccountType \<Rightarrow> unit result" where
  "AccountType_Validate a =
     (case a of AccountTypeOther _ \<Rightarrow> Inl ErrUnknownAccountType | _ \<Rightarrow> Inr ())"

definition DebitIncreases :: "AccountType \<Rightarrow> bool" where
  "DebitIncreases a \<longleftrightarrow> a = AccountTypeAsset \<or> a = AccountTypeExpense"

record Owner =
  o_Type :: string
  o_ID :: string

datatype Purpose =
    PurposeClearing | PurposePayable | PurposeFeeRevenue | PurposeFXGainLoss
  | PurposeSettlement | PurposeTransferSuspense | PurposeOther string

record Account =
  a_ID :: uuid
  a_Owner :: Owner
  a_Purpose :: Purpose
  a_Type :: AccountType
  a_Currency :: currency
  a_ShardKey :: string

section \<open>Entries (entry.go)\<close>

datatype Direction = Debit | Credit | DirectionOther string

record Posting =
  p_AccountID :: uuid
  p_Direction :: Direction
  p_Amount :: Money

abbreviation mk_posting :: "uuid \<Rightarrow> Direction \<Rightarrow> Money \<Rightarrow> Posting" where
  "mk_posting a d m \<equiv> \<lparr>p_AccountID = a, p_Direction = d, p_Amount = m\<rparr>"

record Entry =
  e_ID :: uuid
  e_TransactionID :: "uuid option"
  e_ShardKey :: string
  e_Description :: string
  e_OccurredAt :: time
  e_CreatedAt :: time
  e_Postings :: "Posting list"

text \<open>The first loop of \<open>assertBalanced\<close>. \<open>net\<close> is the Go map; a missing key reads as 0.\<close>

definition delta64 :: "Posting \<Rightarrow> int64" where
  "delta64 p = (if p_Direction p = Credit then - m_amount (p_Amount p) else m_amount (p_Amount p))"

fun net_loop :: "(currency \<Rightarrow> int64) \<Rightarrow> Posting list \<Rightarrow> (currency \<Rightarrow> int64) result" where
  "net_loop net [] = Inr net"
| "net_loop net (p # ps) =
     (let delta = delta64 p;
          cur = m_currency (p_Amount p);
          s = net cur + delta
      in if (sint delta > 0 \<and> sint s < sint (net cur)) \<or> (sint delta < 0 \<and> sint s > sint (net cur))
         then Inl ErrOverflow
         else net_loop (net(cur := s)) ps)"

definition assertBalanced :: "Posting list \<Rightarrow> unit result" where
  "assertBalanced ps =
     ebind (net_loop (\<lambda>_. 0) ps) (\<lambda>net.
     assert_err (list_all (\<lambda>cur. net cur = 0) (map (m_currency \<circ> p_Amount) ps)) ErrUnbalancedEntry)"

fun check_postings :: "Posting list \<Rightarrow> unit result" where
  "check_postings [] = Inr ()"
| "check_postings (p # ps) =
     (if \<not> IsValid (p_Amount p) then Inl ErrInvalidCurrency
      else if \<not> IsPositive (p_Amount p) then Inl ErrPostingNotPositive
      else if p_Direction p \<noteq> Debit \<and> p_Direction p \<noteq> Credit then Inl (ErrOther ''unknown direction'')
      else check_postings ps)"

definition NewEntry ::
  "uuid \<Rightarrow> time \<Rightarrow> uuid option \<Rightarrow> string \<Rightarrow> string \<Rightarrow> time \<Rightarrow> Posting list \<Rightarrow> Entry result" where
  "NewEntry newID now transactionID shardKey description occurredAt postings =
     (if postings = [] then Inl ErrNoPostings
      else ebind (check_postings postings) (\<lambda>_.
        ebind (assertBalanced postings) (\<lambda>_.
        Inr \<lparr>e_ID = newID, e_TransactionID = transactionID, e_ShardKey = shardKey,
             e_Description = description, e_OccurredAt = occurredAt, e_CreatedAt = now,
             e_Postings = postings\<rparr>)))"

section \<open>The running totals are exact\<close>

definition posting_delta :: "Posting \<Rightarrow> int" where
  "posting_delta p = (if p_Direction p = Credit then - minor (p_Amount p) else minor (p_Amount p))"

definition posting_net :: "currency \<Rightarrow> Posting list \<Rightarrow> int" where
  "posting_net cur ps = (\<Sum>p\<leftarrow>ps. if m_currency (p_Amount p) = cur then posting_delta p else 0)"

definition well_formed_posting :: "Posting \<Rightarrow> bool" where
  "well_formed_posting p \<longleftrightarrow> valid_currency (m_currency (p_Amount p)) \<and> 0 < minor (p_Amount p)
     \<and> (p_Direction p = Debit \<or> p_Direction p = Credit)"

definition postings_balanced :: "Posting list \<Rightarrow> bool" where
  "postings_balanced ps \<longleftrightarrow> (\<forall>cur. posting_net cur ps = 0)"

lemma posting_net_simps [simp]:
  "posting_net cur [] = 0"
  "posting_net cur (p # ps) =
     (if m_currency (p_Amount p) = cur then posting_delta p else 0) + posting_net cur ps"
  "posting_net cur (ps @ qs) = posting_net cur ps + posting_net cur qs"
  by (simp_all add: posting_net_def)

lemma posting_net_notin: "cur \<notin> set (map (m_currency \<circ> p_Amount) ps) \<Longrightarrow> posting_net cur ps = 0"
  by (induction ps) auto

lemma check_postings_Inr [err_simps]: "check_postings ps = Inr u \<longleftrightarrow> list_all well_formed_posting ps"
  by (induction ps) (auto simp: well_formed_posting_def IsValid_iff IsPositive_def)

lemma sint_delta64:
  assumes "well_formed_posting p"
  shows "sint (delta64 p) = posting_delta p"
proof -
  have "in64 (- minor (p_Amount p))"
    using assms in64_sint [of "m_amount (p_Amount p)"] by (auto simp: in64_def well_formed_posting_def)
  then show ?thesis by (simp add: posting_delta_def delta64_def)
qed

lemma net_loop_Cons:
  "net_loop net (p # ps) =
     (let c = m_currency (p_Amount p) in
      if in64 (sint (net c) + sint (delta64 p)) then net_loop (net(c := net c + delta64 p)) ps
      else Inl ErrOverflow)"
  using add_overflow_check [of "delta64 p" "net (m_currency (p_Amount p))"] by (simp add: Let_def)

declare net_loop.simps(2) [simp del]

lemma net_loop_exact:
  assumes "net_loop net ps = Inr net'" "list_all well_formed_posting ps"
  shows "sint (net' cur) = sint (net cur) + posting_net cur ps"
  using assms
proof (induction ps arbitrary: net)
  case Nil
  then show ?case by simp
next
  case (Cons p ps)
  let ?c = "m_currency (p_Amount p)"
  have i: "in64 (sint (net ?c) + sint (delta64 p))"
    and n: "net_loop (net(?c := net ?c + delta64 p)) ps = Inr net'"
    using Cons.prems(1) by (auto simp: net_loop_Cons Let_def split: if_splits)
  show ?case
    using Cons.IH [OF n] Cons.prems(2) i sint_delta64 [of p] by auto
qed

lemma assertBalanced_sound:
  assumes "assertBalanced ps = Inr u" "list_all well_formed_posting ps"
  shows "postings_balanced ps"
  unfolding postings_balanced_def
proof
  fix cur
  obtain net where n: "net_loop (\<lambda>_. 0) ps = Inr net"
    "list_all (\<lambda>cur. net cur = 0) (map (m_currency \<circ> p_Amount) ps)"
    using assms(1) by (auto simp: assertBalanced_def err_simps)
  show "posting_net cur ps = 0"
  proof (cases "cur \<in> set (map (m_currency \<circ> p_Amount) ps)")
    case True
    then have "net cur = 0" using n(2) by (auto simp: list_all_iff)
    then show ?thesis using net_loop_exact [OF n(1) assms(2), of cur] by simp
  qed (rule posting_net_notin)
qed

lemma NewEntry_Inr:
  assumes "NewEntry newID now tid sk desc occ ps = Inr e"
  shows "e_Postings e = ps" "e_ID e = newID" "e_TransactionID e = tid" "e_ShardKey e = sk"
    "ps \<noteq> []" "list_all well_formed_posting ps" "postings_balanced ps"
  using assms assertBalanced_sound [of ps]
  by (auto simp: NewEntry_def err_simps split: if_splits)

text \<open>An entry is refused exactly when it is empty, has a malformed leg, a running total leaves
  the int64 range, or it does not balance.\<close>

fun totals_in_range :: "(currency \<Rightarrow> int) \<Rightarrow> Posting list \<Rightarrow> bool" where
  "totals_in_range net [] = True"
| "totals_in_range net (p # ps) =
     (let c = m_currency (p_Amount p) in
      in64 (net c + posting_delta p) \<and> totals_in_range (net(c := net c + posting_delta p)) ps)"

lemma net_loop_ok_iff:
  assumes "list_all well_formed_posting ps"
  shows "is_ok (net_loop net ps) \<longleftrightarrow> totals_in_range (\<lambda>c. sint (net c)) ps"
  using assms
proof (induction ps arbitrary: net)
  case Nil
  then show ?case by simp
next
  case (Cons p ps)
  let ?c = "m_currency (p_Amount p)"
  have d: "sint (delta64 p) = posting_delta p" using Cons.prems sint_delta64 by simp
  have upd: "(\<lambda>c. sint ((net(?c := net ?c + delta64 p)) c)) =
      (\<lambda>c. sint (net c))(?c := sint (net ?c) + posting_delta p)" if "in64 (sint (net ?c) + posting_delta p)"
    using that d by (auto simp: fun_eq_iff)
  show ?case
    using Cons.IH [of "net(?c := net ?c + delta64 p)"] Cons.prems upd d
    by (simp add: net_loop_Cons Let_def del: fun_upd_apply)
qed

lemma NewEntry_ok_iff:
  "is_ok (NewEntry newID now tid sk desc occ ps) \<longleftrightarrow>
     ps \<noteq> [] \<and> list_all well_formed_posting ps \<and> totals_in_range (\<lambda>_. 0) ps \<and> postings_balanced ps"
proof
  assume l: "is_ok (NewEntry newID now tid sk desc occ ps)"
  then obtain e where e: "NewEntry newID now tid sk desc occ ps = Inr e" by (auto simp: is_ok_iff)
  have "is_ok (net_loop (\<lambda>_. 0) ps)"
    using e by (auto simp: NewEntry_def assertBalanced_def err_simps split: if_splits)
  then show "ps \<noteq> [] \<and> list_all well_formed_posting ps \<and> totals_in_range (\<lambda>_. 0) ps \<and> postings_balanced ps"
    using NewEntry_Inr [OF e] net_loop_ok_iff [of ps "\<lambda>_. 0"] by simp
next
  assume r: "ps \<noteq> [] \<and> list_all well_formed_posting ps \<and> totals_in_range (\<lambda>_. 0) ps \<and> postings_balanced ps"
  then obtain net where n: "net_loop (\<lambda>_. 0) ps = Inr net"
    using net_loop_ok_iff [of ps "\<lambda>_. 0"] by (auto simp: is_ok_iff)
  have "net cur = 0" for cur
    using net_loop_exact [OF n, of cur] r by (simp add: postings_balanced_def)
  then show "is_ok (NewEntry newID now tid sk desc occ ps)"
    using r n check_postings_Inr [of ps "()"]
    by (simp add: NewEntry_def assertBalanced_def assert_err_def list_all_iff)
qed

text \<open>C4: \<open>NewEntry\<close> builds an entry exactly from a non-empty list of positive legs in valid
  currencies whose debits equal its credits in every currency, computed over the integers; the
  only balanced input it refuses is one whose running total leaves the int64 range.\<close>

theorem NewEntry_balanced:
  "is_ok (NewEntry newID now tid sk desc occ ps) \<longleftrightarrow>
     ps \<noteq> [] \<and> list_all well_formed_posting ps \<and> totals_in_range (\<lambda>_. 0) ps
     \<and> (\<forall>cur. (\<Sum>p\<leftarrow>ps. if m_currency (p_Amount p) = cur then posting_delta p else 0) = 0)"
  using NewEntry_ok_iff by (simp add: postings_balanced_def posting_net_def)

theorem NewEntry_balanced_witness:
  "is_ok (NewEntry 9 5 None ''s00'' ''capture'' 5
     [mk_posting 1 Debit (mk_money 10000 ''USD''), mk_posting 2 Credit (mk_money 9680 ''USD''),
      mk_posting 3 Credit (mk_money 320 ''USD'')])
   \<and> \<not> is_ok (NewEntry 9 5 None ''s00'' ''capture'' 5
     [mk_posting 1 Debit (mk_money 10000 ''USD''), mk_posting 2 Credit (mk_money 9680 ''USD'')])"
  unfolding NewEntry_balanced
  by (auto simp: posting_delta_def well_formed_posting_def valid_currency_def is_upper_def in64_def
      intro!: exI [of _ "''USD''"])

end
