(* ===== verification/StateMachine.thy ===== *)
theory StateMachine
  imports Prelude
begin

text \<open>
  The contract of a lifecycle matrix: a table of edges, the test a writer makes before it moves
  (same state or an edge), and the terminal predicate. The transaction aggregate, the database's
  transition trigger and the transfer coordinator each provide it; what follows from it is proved
  here once.
\<close>

locale state_machine =
  fixes edge :: "'s \<Rightarrow> 's \<Rightarrow> bool"
    and can :: "'s \<Rightarrow> 's \<Rightarrow> bool"
    and terminal :: "'s \<Rightarrow> bool"
  assumes can_iff: "can s t \<longleftrightarrow> s = t \<or> edge s t"
    and terminal_iff: "terminal s \<longleftrightarrow> (\<forall>t. \<not> edge s t)"
begin

lemma can_refl: "can s s"
  by (simp add: can_iff)

lemma terminal_stuck: "terminal s \<Longrightarrow> can s t \<longleftrightarrow> t = s"
  by (auto simp: can_iff terminal_iff)

lemma can_rtranclp: "can\<^sup>*\<^sup>* s t \<longleftrightarrow> edge\<^sup>*\<^sup>* s t"
proof
  show "can\<^sup>*\<^sup>* s t \<Longrightarrow> edge\<^sup>*\<^sup>* s t"
    by (induction rule: rtranclp_induct) (auto simp: can_iff intro: rtranclp.rtrancl_into_rtrancl)
  show "edge\<^sup>*\<^sup>* s t \<Longrightarrow> can\<^sup>*\<^sup>* s t"
    by (induction rule: rtranclp_induct) (auto simp: can_iff intro: rtranclp.rtrancl_into_rtrancl)
qed

lemma terminal_absorbing: "can\<^sup>*\<^sup>* s t \<Longrightarrow> terminal s \<Longrightarrow> t = s"
  by (induction rule: rtranclp_induct) (auto simp: terminal_stuck)

lemma closed_set:
  assumes "\<And>s t. P s \<Longrightarrow> edge s t \<Longrightarrow> P t" "P s" "can\<^sup>*\<^sup>* s t"
  shows "P t"
  using assms(3,2) by (induction rule: rtranclp_induct) (auto simp: can_iff intro: assms(1))

end

end
