(* ===== verification/Sharding.thy ===== *)
theory Sharding
  imports Prelude
begin

unbundle bit_operations_syntax

text \<open>
  Shard key derivation and the logical-to-physical mapping (internal/platform/sharding). The
  FNV-1a hash is the standard library's \<open>hash/fnv\<close> 64-bit variant; \<open>atoi\<close> is \<open>strconv.Atoi\<close> on
  the two-character strings the parser passes to it.
\<close>

section \<open>Keys (shard_key.go)\<close>

definition LogicalShards :: nat where
  "LogicalShards = 64"

definition fnv_offset :: "64 word" where
  "fnv_offset = 14695981039346656037"

definition fnv_prime :: "64 word" where
  "fnv_prime = 1099511628211"

fun fnv1a :: "64 word \<Rightarrow> string \<Rightarrow> 64 word" where
  "fnv1a h [] = h"
| "fnv1a h (c # cs) = fnv1a ((h XOR of_char c) * fnv_prime) cs"

definition shardKeyPrefix :: string where
  "shardKeyPrefix = ''s''"

definition shardKeyDigits :: nat where
  "shardKeyDigits = 2"

definition KeyForMerchant :: "string \<Rightarrow> string" where
  "KeyForMerchant merchantID =
     shardKeyPrefix @ pad0 shardKeyDigits (show_nat (nat (uint (fnv1a fnv_offset merchantID) mod int LogicalShards)))"

section \<open>Mapping (mapping.go)\<close>

record Mapping =
  physical :: nat

definition NewMapping :: "int \<Rightarrow> Mapping result" where
  "NewMapping n =
     (if n < 1 \<or> n > int LogicalShards then Inl (ErrOther ''physical shard count'')
      else if n AND (n - 1) \<noteq> 0 then Inl (ErrOther ''physical shard count must be a power of two'')
      else Inr \<lparr>physical = nat n\<rparr>)"

definition PhysicalFor :: "Mapping \<Rightarrow> int \<Rightarrow> nat result" where
  "PhysicalFor m logical =
     (if logical < 0 \<or> logical \<ge> int LogicalShards then Inl (ErrOther ''logical shard out of range'')
      else Inr (nat logical div (LogicalShards div physical m)))"

definition LogicalRange :: "Mapping \<Rightarrow> int \<Rightarrow> (nat \<times> nat) result" where
  "LogicalRange m phys =
     (if phys < 0 \<or> phys \<ge> int (physical m) then Inl (ErrOther ''physical shard out of range'')
      else let width = LogicalShards div physical m in
        Inr (nat phys * width, (nat phys + 1) * width - 1))"

text \<open>\<open>strconv.Atoi\<close>: an optional sign, then at least one decimal digit and nothing else.\<close>

definition digit_val :: "char \<Rightarrow> nat option" where
  "digit_val c = (let n = of_char c :: nat in if 48 \<le> n \<and> n \<le> 57 then Some (n - 48) else None)"

fun parse_digits :: "nat \<Rightarrow> string \<Rightarrow> nat option" where
  "parse_digits acc [] = Some acc"
| "parse_digits acc (c # cs) =
     (case digit_val c of None \<Rightarrow> None | Some d \<Rightarrow> parse_digits (10 * acc + d) cs)"

definition parse_nat :: "string \<Rightarrow> nat option" where
  "parse_nat s = (if s = [] then None else parse_digits 0 s)"

definition atoi :: "string \<Rightarrow> int option" where
  "atoi s =
     (case s of
        [] \<Rightarrow> None
      | c # cs \<Rightarrow>
          if c = CHR ''-'' then map_option (\<lambda>n. - int n) (parse_nat cs)
          else if c = CHR ''+'' then map_option int (parse_nat cs)
          else map_option int (parse_nat s))"

text \<open>\<open>strconv.ParseInt(s, 10, 64)\<close>, the same with the range of an \<open>int64\<close>.\<close>

definition ParseInt64 :: "string \<Rightarrow> int option" where
  "ParseInt64 s = (case atoi s of None \<Rightarrow> None | Some k \<Rightarrow> if in64 k then Some k else None)"

definition LogicalIndex :: "string \<Rightarrow> nat result" where
  "LogicalIndex shardKey =
     (case shardKey of
        c # digits \<Rightarrow>
          if [c] \<noteq> shardKeyPrefix \<or> length digits \<noteq> shardKeyDigits
          then Inl (ErrOther ''malformed shard key'')
          else (case atoi digits of
              None \<Rightarrow> Inl (ErrOther ''malformed shard key'')
            | Some n \<Rightarrow> if n < 0 \<or> n \<ge> int LogicalShards then Inl (ErrOther ''shard key out of range'')
                        else Inr (nat n))
      | [] \<Rightarrow> Inl (ErrOther ''malformed shard key''))"

definition Resolve :: "Mapping \<Rightarrow> string \<Rightarrow> nat result" where
  "Resolve m shardKey = ebind (LogicalIndex shardKey) (\<lambda>logical. PhysicalFor m (int logical))"

section \<open>Keys parse back\<close>

lemma index_of_rendered_key:
  "n < 64 \<Longrightarrow> LogicalIndex (shardKeyPrefix @ pad0 shardKeyDigits (show_nat n)) = Inr n"
proof -
  have "list_all (\<lambda>n. LogicalIndex (shardKeyPrefix @ pad0 shardKeyDigits (show_nat n)) = Inr n) [0..<64]"
    by code_simp
  then show "n < 64 \<Longrightarrow> LogicalIndex (shardKeyPrefix @ pad0 shardKeyDigits (show_nat n)) = Inr n"
    by (simp add: list_all_iff)
qed

definition merchant_slot :: "string \<Rightarrow> nat" where
  "merchant_slot merchantID = nat (uint (fnv1a fnv_offset merchantID) mod 64)"

lemma merchant_slot_less: "merchant_slot merchantID < 64"
  by (simp add: merchant_slot_def nat_less_iff)

lemma KeyForMerchant_index: "LogicalIndex (KeyForMerchant merchantID) = Inr (merchant_slot merchantID)"
  using index_of_rendered_key [OF merchant_slot_less, of merchantID]
  by (simp add: KeyForMerchant_def LogicalShards_def merchant_slot_def)

section \<open>The mapping\<close>

lemma NewMapping_Inr:
  assumes "NewMapping n = Inr m"
  shows "n = int (physical m)" "physical m \<in> {1, 2, 4, 8, 16, 32, 64}"
proof -
  have n: "n \<in> {1..64}" "n AND (n - 1) = 0" "physical m = nat n"
    using assms by (auto simp: NewMapping_def LogicalShards_def split: if_splits)
  then show "n = int (physical m)" by simp
  have "list_all (\<lambda>k. k AND (k - 1) = 0 \<longrightarrow> k \<in> {1, 2, 4, 8, 16, 32, 64}) [1..64 :: int]" by code_simp
  then have "n \<in> {1, 2, 4, 8, 16, 32, 64}" using n by (auto simp: list_all_iff)
  then show "physical m \<in> {1, 2, 4, 8, 16, 32, 64}" using n(3) by auto
qed

lemma Resolve_merchant:
  assumes "NewMapping n = Inr m"
  shows "Resolve m (KeyForMerchant merchantID) = Inr (merchant_slot merchantID div (64 div physical m))"
    "merchant_slot merchantID div (64 div physical m) < physical m"
  using merchant_slot_less [of merchantID] NewMapping_Inr [OF assms]
  by (auto simp: Resolve_def KeyForMerchant_index PhysicalFor_def LogicalShards_def)

text \<open>A shard key derived from any merchant parses back to the slot it encodes, one of the 64,
  and under every mapping the constructor accepts it resolves to an existing physical database:
  routing a merchant never fails.\<close>

theorem merchant_routing_total:
  assumes "NewMapping n = Inr m"
  shows "LogicalIndex (KeyForMerchant merchantID) = Inr (merchant_slot merchantID)
    \<and> merchant_slot merchantID < 64
    \<and> (\<exists>p. Resolve m (KeyForMerchant merchantID) = Inr p \<and> p < physical m)"
  using Resolve_merchant [OF assms, of merchantID] KeyForMerchant_index merchant_slot_less by blast

theorem merchant_routing_total_witness:
  "\<exists>p. Resolve \<lparr>physical = 4\<rparr> (KeyForMerchant ''m_alpha'') = Inr p \<and> p < 4"
proof -
  have "NewMapping 4 = Inr \<lparr>physical = 4\<rparr>" by code_simp
  from merchant_routing_total [OF this, of "''m_alpha''"] show ?thesis by simp
qed

text \<open>The physical databases partition the 64 logical shards into equal contiguous ranges: a
  shard lives on database \<open>p\<close> exactly when it lies in the range reported for \<open>p\<close>.\<close>

theorem physical_ranges_partition:
  assumes "NewMapping n = Inr m" "l < 64"
  shows "PhysicalFor m (int l) = Inr p \<longleftrightarrow>
    (\<exists>lo hi. LogicalRange m (int p) = Inr (lo, hi) \<and> lo \<le> l \<and> l \<le> hi)"
proof -
  have ph: "physical m \<in> {1, 2, 4, 8, 16, 32, 64}" by (rule NewMapping_Inr(2) [OF assms(1)])
  define w where "w = 64 div physical m"
  have w: "0 < w" "w * physical m = 64" using ph by (auto simp: w_def)
  have "PhysicalFor m (int l) = Inr p \<longleftrightarrow> l div w = p"
    using assms(2) by (simp add: PhysicalFor_def LogicalShards_def w_def)
  also have "\<dots> \<longleftrightarrow> p * w \<le> l \<and> l \<le> (p + 1) * w - 1"
  proof -
    have "l div w = p \<longleftrightarrow> p * w \<le> l \<and> l < (p + 1) * w"
      using w(1) by (metis Suc_eq_plus1 div_nat_eqI dividend_less_div_times div_times_less_eq_dividend
          mult.commute mult_Suc add.commute)
    moreover have "l < x \<longleftrightarrow> l \<le> x - 1" if "0 < x" for x using that by linarith
    ultimately show ?thesis using w(1) by simp
  qed
  also have "\<dots> \<longleftrightarrow> p < physical m \<and> p * w \<le> l \<and> l \<le> (p + 1) * w - 1"
  proof -
    have "p < physical m" if "p * w \<le> l"
      using that assms(2) w by (metis le_less_trans mult.commute mult_less_cancel2)
    then show ?thesis by blast
  qed
  finally show ?thesis by (auto simp: LogicalRange_def LogicalShards_def w_def Let_def)
qed

theorem physical_ranges_partition_witness:
  "PhysicalFor \<lparr>physical = 2\<rparr> 32 = Inr 1"
proof -
  have "NewMapping 2 = Inr \<lparr>physical = 2\<rparr>" by code_simp
  from physical_ranges_partition [OF this, of 32 1] show ?thesis
    by (simp add: LogicalRange_def LogicalShards_def)
qed

text \<open>C13: doubling the number of databases splits every range in half: the shards of database \<open>p\<close>
  go to \<open>2p\<close> and \<open>2p + 1\<close> and to no other.\<close>

theorem doubling_splits_ranges:
  assumes "NewMapping n = Inr m" "NewMapping (2 * n) = Inr m'" "PhysicalFor m' (int l) = Inr p'"
  shows "PhysicalFor m (int l) = Inr (p' div 2)"
proof -
  have ph: "physical m \<in> {1, 2, 4, 8, 16, 32, 64}" "physical m' = 2 * physical m"
    "physical m' \<in> {1, 2, 4, 8, 16, 32, 64}"
    using NewMapping_Inr [OF assms(1)] NewMapping_Inr [OF assms(2)] by auto
  have "64 div physical m = 64 div physical m' * 2" using ph by auto
  then show ?thesis
    using assms(3) by (auto simp: PhysicalFor_def LogicalShards_def div_mult2_eq split: if_splits)
qed

theorem doubling_splits_ranges_witness: "PhysicalFor \<lparr>physical = 2\<rparr> 40 = Inr (2 div 2)"
proof -
  have "NewMapping 2 = Inr \<lparr>physical = 2\<rparr>" "NewMapping (2 * 2) = Inr \<lparr>physical = 4\<rparr>"
    "PhysicalFor \<lparr>physical = 4\<rparr> (int 40) = Inr 2" by code_simp+
  from doubling_splits_ranges [OF this] show ?thesis by simp
qed

text \<open>The parser of stored keys is more permissive than its message says: a sign passes
  \<open>strconv.Atoi\<close>, so \<open>s+5\<close> and \<open>s-0\<close> are accepted although they are not "s followed by 2 digits"
  and no merchant's key has that shape.\<close>

theorem LogicalIndex_accepts_sign:
  "LogicalIndex ''s+5'' = Inr 5 \<and> LogicalIndex ''s-0'' = Inr 0
   \<and> KeyForMerchant m \<noteq> ''s+5'' \<and> KeyForMerchant m \<noteq> ''s-0''"
proof -
  have a: "LogicalIndex ''s+5'' = Inr 5" "LogicalIndex ''s-0'' = Inr 0" by code_simp+
  have k: "KeyForMerchant m = shardKeyPrefix @ pad0 shardKeyDigits (show_nat (merchant_slot m))"
    by (simp add: KeyForMerchant_def LogicalShards_def merchant_slot_def)
  have "shardKeyPrefix @ pad0 shardKeyDigits (show_nat 5) = ''s05''"
    "shardKeyPrefix @ pad0 shardKeyDigits (show_nat 0) = ''s00''" by code_simp+
  then have "KeyForMerchant m \<noteq> ''s+5''" "KeyForMerchant m \<noteq> ''s-0''"
    using a k KeyForMerchant_index [of m] by auto
  then show ?thesis using a by blast
qed

section \<open>Numbers survive printing\<close>

lemma digit_val_char: "d < 10 \<Longrightarrow> digit_val (digit_char d) = Some d"
  by (simp add: digit_val_def digit_char_def)

lemma parse_digits_append: "parse_digits acc (xs @ ys) = (case parse_digits acc xs of None \<Rightarrow> None | Some k \<Rightarrow> parse_digits k ys)"
  by (induction xs arbitrary: acc) (auto split: option.splits)

lemma parse_show_nat: "parse_digits 0 (show_nat n) = Some n"
proof (induction n rule: show_nat.induct)
  case (1 n)
  then show ?case by (subst show_nat.simps) (auto simp: digit_val_char parse_digits_append)
qed

lemma show_nat_hd: "\<exists>c cs. show_nat n = c # cs \<and> digit_val c \<noteq> None"
proof (induction n rule: show_nat.induct)
  case (1 n)
  then show ?case by (subst show_nat.simps) (auto simp: digit_val_char)
qed

lemma atoi_show_int: "atoi (show_int k) = Some k"
proof -
  have p: "parse_nat (show_nat n) = Some n" for n
    using show_nat_hd [of n] parse_show_nat [of n] by (auto simp: parse_nat_def)
  show ?thesis
  proof (cases "k < 0")
    case True
    then show ?thesis using p by (simp add: show_int_def atoi_def)
  next
    case False
    obtain c cs where c: "show_nat (nat k) = c # cs" "digit_val c \<noteq> None" using show_nat_hd by blast
    have "c \<noteq> CHR ''-''" "c \<noteq> CHR ''+''" using c(2) by (auto simp: digit_val_def)
    then show ?thesis using False c p [of "nat k"] by (simp add: show_int_def atoi_def)
  qed
qed

lemma ParseInt64_show_int: "in64 k \<Longrightarrow> ParseInt64 (show_int k) = Some k"
  by (simp add: ParseInt64_def atoi_show_int)

end
