(* ===== verification/Transaction.thy ===== *)
theory Transaction
  imports Money StateMachine Sharding
begin

text \<open>
  The payment transaction aggregate and its state machine (internal/domain/transaction), and the
  database's copy of the transition matrix (migrations/000003). Every mutation of the aggregate is
  one definition; \<open>txn_op\<close> is a step by any of them.
\<close>

section \<open>States (state.go)\<close>

datatype State =
    StateCreated | StateAuthorizing | StateAuthorized | StateCapturing | StateCaptured
  | StateSettled | StateFailed | StateCancelled | StateRefunded | StatePartiallyRefunded
  | StateExpired | StateOther string

fun allowedTransitions :: "State \<Rightarrow> State list" where
  "allowedTransitions StateCreated = [StateAuthorizing, StateCancelled, StateFailed, StateExpired]"
| "allowedTransitions StateAuthorizing = [StateAuthorized, StateFailed, StateExpired]"
| "allowedTransitions StateAuthorized = [StateCapturing, StateCancelled, StateFailed, StateExpired]"
| "allowedTransitions StateCapturing = [StateCaptured, StateFailed, StateAuthorized]"
| "allowedTransitions StateCaptured = [StateSettled, StatePartiallyRefunded, StateRefunded]"
| "allowedTransitions StateSettled = [StatePartiallyRefunded, StateRefunded]"
| "allowedTransitions StatePartiallyRefunded = [StateRefunded]"
| "allowedTransitions _ = []"

definition allStates :: "State list" where
  "allStates = [StateCreated, StateAuthorizing, StateAuthorized, StateCapturing, StateCaptured,
     StateSettled, StateFailed, StateCancelled, StateRefunded, StatePartiallyRefunded, StateExpired]"

definition State_Validate :: "State \<Rightarrow> unit result" where
  "State_Validate s = assert_err (s \<in> set allStates) (ErrOther ''unknown transaction state'')"

definition State_IsTerminal :: "State \<Rightarrow> bool" where
  "State_IsTerminal s \<longleftrightarrow> length (allowedTransitions s) = 0"

definition CanTransitionTo :: "State \<Rightarrow> State \<Rightarrow> bool" where
  "CanTransitionTo s target = (if s = target then True else target \<in> set (allowedTransitions s))"

text \<open>The rows of transaction_state_transitions and the trigger that reads them.\<close>

definition db_transitions :: "(State \<times> State) list" where
  "db_transitions =
     [(StateCreated, StateAuthorizing), (StateCreated, StateCancelled), (StateCreated, StateFailed),
      (StateCreated, StateExpired), (StateAuthorizing, StateAuthorized), (StateAuthorizing, StateFailed),
      (StateAuthorizing, StateExpired), (StateAuthorized, StateCapturing),
      (StateAuthorized, StateCancelled), (StateAuthorized, StateFailed), (StateAuthorized, StateExpired),
      (StateCapturing, StateCaptured), (StateCapturing, StateFailed), (StateCapturing, StateAuthorized),
      (StateCaptured, StateSettled), (StateCaptured, StatePartiallyRefunded),
      (StateCaptured, StateRefunded), (StateSettled, StatePartiallyRefunded),
      (StateSettled, StateRefunded), (StatePartiallyRefunded, StateRefunded)]"

definition assert_valid_transaction_transition :: "State \<Rightarrow> State \<Rightarrow> unit result" where
  "assert_valid_transaction_transition old new =
     (if new = old then Inr ()
      else assert_err ((old, new) \<in> set db_transitions) (ErrConstraint ''illegal transition''))"

section \<open>The aggregate (transaction.go)\<close>

record Transaction =
  t_ID :: uuid
  t_MerchantID :: string
  t_ShardKey :: string
  t_IdempotencyKey :: string
  t_State :: State
  t_Amount :: Money
  t_Captured :: Money
  t_Refunded :: Money
  t_PSP :: string
  t_PSPReference :: string
  t_Version :: int
  t_LastAppliedEventSeq :: int
  t_CreatedAt :: time
  t_UpdatedAt :: time

definition Transaction_New :: "uuid \<Rightarrow> time \<Rightarrow> string \<Rightarrow> string \<Rightarrow> Money \<Rightarrow> Transaction result" where
  "Transaction_New newID now merchantID idempotencyKey amount =
     (if merchantID = [] then Inl ErrMerchantRequired
      else if idempotencyKey = [] then Inl ErrIdempotencyKeyReqd
      else if \<not> IsValid amount then Inl ErrInvalidCurrency
      else if \<not> IsPositive amount then Inl ErrAmountNotPositive
      else ebind (Money_Zero (m_currency amount)) (\<lambda>zero.
        Inr \<lparr>t_ID = newID, t_MerchantID = merchantID, t_ShardKey = KeyForMerchant merchantID,
             t_IdempotencyKey = idempotencyKey, t_State = StateCreated, t_Amount = amount,
             t_Captured = zero, t_Refunded = zero, t_PSP = [], t_PSPReference = [],
             t_Version = 1, t_LastAppliedEventSeq = 0, t_CreatedAt = now, t_UpdatedAt = now\<rparr>))"

definition TransitionTo :: "time \<Rightarrow> Transaction \<Rightarrow> State \<Rightarrow> Transaction result" where
  "TransitionTo now t target =
     ebind (State_Validate target) (\<lambda>_.
     if \<not> CanTransitionTo (t_State t) target then Inl ErrIllegalTransition
     else Inr (t\<lparr>t_State := target, t_UpdatedAt := now\<rparr>))"

definition Transaction_Capture :: "time \<Rightarrow> Transaction \<Rightarrow> Money \<Rightarrow> Transaction result" where
  "Transaction_Capture now t amount =
     (if \<not> IsPositive amount then Inl ErrAmountNotPositive
      else ebind (Money_Add (t_Captured t) amount) (\<lambda>newCaptured.
        ebind (Money_Cmp newCaptured (t_Amount t)) (\<lambda>cmp.
        if cmp > 0 then Inl ErrExceedsAuthorized
        else ebind (TransitionTo now t StateCaptured) (\<lambda>t'.
          Inr (t'\<lparr>t_Captured := newCaptured\<rparr>)))))"

definition Transaction_Refund :: "time \<Rightarrow> Transaction \<Rightarrow> Money \<Rightarrow> Transaction result" where
  "Transaction_Refund now t amount =
     (if \<not> IsPositive amount then Inl ErrAmountNotPositive
      else ebind (Money_Add (t_Refunded t) amount) (\<lambda>newRefunded.
        ebind (Money_Cmp newRefunded (t_Captured t)) (\<lambda>cmp.
        if cmp > 0 then Inl ErrExceedsCaptured
        else let target = (if cmp = 0 then StateRefunded else StatePartiallyRefunded) in
          ebind (TransitionTo now t target) (\<lambda>t'.
          Inr (t'\<lparr>t_Refunded := newRefunded\<rparr>)))))"

definition RemainingCapturable :: "Transaction \<Rightarrow> Money result" where
  "RemainingCapturable t = Money_Sub (t_Amount t) (t_Captured t)"

definition RemainingRefundable :: "Transaction \<Rightarrow> Money result" where
  "RemainingRefundable t = Money_Sub (t_Captured t) (t_Refunded t)"

section \<open>The two copies of the matrix\<close>

definition state_edge :: "State \<Rightarrow> State \<Rightarrow> bool" where
  "state_edge s t \<longleftrightarrow> t \<in> set (allowedTransitions s)"

interpretation go_matrix: state_machine state_edge CanTransitionTo State_IsTerminal
  by unfold_locales (auto simp: state_edge_def CanTransitionTo_def State_IsTerminal_def neq_Nil_conv)

lemma state_edge_iff_db: "state_edge s t \<longleftrightarrow> (s, t) \<in> set db_transitions"
  by (cases s; cases t) (simp_all add: state_edge_def db_transitions_def)

lemma db_accepts_iff: "is_ok (assert_valid_transaction_transition s t) \<longleftrightarrow> CanTransitionTo s t"
  by (auto simp: assert_valid_transaction_transition_def CanTransitionTo_def assert_err_def
      state_edge_iff_db [symmetric] state_edge_def)

interpretation db_matrix: state_machine "\<lambda>s t. (s, t) \<in> set db_transitions"
    "\<lambda>s t. is_ok (assert_valid_transaction_transition s t)" State_IsTerminal
  by unfold_locales (auto simp: db_accepts_iff go_matrix.can_iff go_matrix.terminal_iff state_edge_iff_db)

lemma State_Validate_ok [simp]: "is_ok (State_Validate s) \<longleftrightarrow> (\<forall>x. s \<noteq> StateOther x)"
  by (cases s) (auto simp: State_Validate_def assert_err_def allStates_def)

lemma State_Validate_Inr [err_simps]: "State_Validate s = Inr u \<longleftrightarrow> (\<forall>x. s \<noteq> StateOther x)"
  using State_Validate_ok [of s] by (auto simp: is_ok_iff)

section \<open>The aggregate keeps its amounts in order\<close>

definition txn_inv :: "Transaction \<Rightarrow> bool" where
  "txn_inv t \<longleftrightarrow> valid_currency (m_currency (t_Amount t))
     \<and> m_currency (t_Captured t) = m_currency (t_Amount t)
     \<and> m_currency (t_Refunded t) = m_currency (t_Amount t)
     \<and> 0 < minor (t_Amount t)
     \<and> 0 \<le> minor (t_Refunded t) \<and> minor (t_Refunded t) \<le> minor (t_Captured t)
     \<and> minor (t_Captured t) \<le> minor (t_Amount t)"

text \<open>States a payment can be in once money has been captured, and once money went back.\<close>

definition money_moved :: "State \<Rightarrow> bool" where
  "money_moved s \<longleftrightarrow> s \<in> {StateCaptured, StateSettled, StatePartiallyRefunded, StateRefunded}"

definition money_returned :: "State \<Rightarrow> bool" where
  "money_returned s \<longleftrightarrow> s \<in> {StatePartiallyRefunded, StateRefunded}"

definition txn_state_inv :: "Transaction \<Rightarrow> bool" where
  "txn_state_inv t \<longleftrightarrow> (0 < minor (t_Captured t) \<longrightarrow> money_moved (t_State t))
     \<and> (0 < minor (t_Refunded t) \<longrightarrow> money_returned (t_State t))"

lemma money_moved_step: "money_moved s \<Longrightarrow> CanTransitionTo s t \<Longrightarrow> money_moved t"
  by (auto simp: money_moved_def CanTransitionTo_def split: if_splits)

lemma money_returned_step: "money_returned s \<Longrightarrow> CanTransitionTo s t \<Longrightarrow> money_returned t"
  by (auto simp: money_returned_def CanTransitionTo_def split: if_splits)

lemma money_states [simp]:
  "money_moved StateCaptured" "money_moved StateRefunded" "money_moved StatePartiallyRefunded"
  "money_returned StateRefunded" "money_returned StatePartiallyRefunded" "\<not> money_returned StateCaptured"
  by (simp_all add: money_moved_def money_returned_def)

lemma Transaction_New_Inr:
  assumes "Transaction_New newID now mid key amount = Inr t"
  shows "t_State t = StateCreated" "t_Amount t = amount" "t_ID t = newID" "t_MerchantID t = mid"
    "t_ShardKey t = KeyForMerchant mid" "t_Version t = 1" "t_LastAppliedEventSeq t = 0"
    "t_IdempotencyKey t = key" "mid \<noteq> []" "key \<noteq> []"
    "minor (t_Captured t) = 0" "minor (t_Refunded t) = 0" "txn_inv t" "txn_state_inv t"
  using assms
  by (auto simp: Transaction_New_def Money_Zero_def err_simps txn_inv_def txn_state_inv_def IsValid_iff
      IsPositive_def split: if_splits)

lemma TransitionTo_Inr [err_simps]:
  "TransitionTo now t s = Inr t' \<longleftrightarrow>
     (\<forall>x. s \<noteq> StateOther x) \<and> CanTransitionTo (t_State t) s \<and> t' = t\<lparr>t_State := s, t_UpdatedAt := now\<rparr>"
  by (auto simp: TransitionTo_def err_simps split: if_splits)

lemma Transaction_Capture_Inr [err_simps]:
  "Transaction_Capture now t a = Inr t' \<longleftrightarrow>
     0 < minor a \<and> valid_currency (m_currency (t_Captured t)) \<and> m_currency a = m_currency (t_Captured t)
     \<and> m_currency (t_Amount t) = m_currency (t_Captured t)
     \<and> in64 (minor (t_Captured t) + minor a) \<and> minor (t_Captured t) + minor a \<le> minor (t_Amount t)
     \<and> CanTransitionTo (t_State t) StateCaptured
     \<and> t' = t\<lparr>t_State := StateCaptured, t_UpdatedAt := now,
               t_Captured := mk_money (m_amount (t_Captured t) + m_amount a) (m_currency (t_Captured t))\<rparr>"
  by (auto simp: Transaction_Capture_def err_simps IsPositive_def IsValid_iff split: if_splits)

lemma Transaction_Capture_exceeds:
  assumes "txn_inv t" "minor (t_Captured t) = 0" "m_currency a = m_currency (t_Amount t)" "minor (t_Amount t) < minor a"
  shows "Transaction_Capture now t a = Inl ErrExceedsAuthorized"
proof -
  have "Money_Add (t_Captured t) a = Inr (mk_money (m_amount a) (m_currency a))"
    using assms by (simp add: Money_Add_eq IsValid_iff txn_inv_def)
  moreover have "Money_Cmp (mk_money (m_amount a) (m_currency a)) (t_Amount t) = Inr 1"
    using assms by (simp add: Money_Cmp_Inr_iff IsValid_iff txn_inv_def)
  ultimately show ?thesis using assms(1,4) by (simp add: Transaction_Capture_def IsPositive_def txn_inv_def)
qed

lemma Transaction_Refund_Inr [err_simps]:
  "Transaction_Refund now t a = Inr t' \<longleftrightarrow>
     0 < minor a \<and> valid_currency (m_currency (t_Refunded t)) \<and> m_currency a = m_currency (t_Refunded t)
     \<and> m_currency (t_Captured t) = m_currency (t_Refunded t)
     \<and> in64 (minor (t_Refunded t) + minor a) \<and> minor (t_Refunded t) + minor a \<le> minor (t_Captured t)
     \<and> (let target = (if minor (t_Refunded t) + minor a = minor (t_Captured t)
           then StateRefunded else StatePartiallyRefunded) in
        CanTransitionTo (t_State t) target
        \<and> t' = t\<lparr>t_State := target, t_UpdatedAt := now,
               t_Refunded := mk_money (m_amount (t_Refunded t) + m_amount a) (m_currency (t_Refunded t))\<rparr>)"
  by (auto simp: Transaction_Refund_def err_simps IsPositive_def IsValid_iff Let_def split: if_splits)

inductive txn_op :: "Transaction \<Rightarrow> Transaction \<Rightarrow> bool" where
  op_transition: "TransitionTo now t s = Inr t' \<Longrightarrow> txn_op t t'"
| op_capture: "Transaction_Capture now t a = Inr t' \<Longrightarrow> txn_op t t'"
| op_refund: "Transaction_Refund now t a = Inr t' \<Longrightarrow> txn_op t t'"

lemma txn_op_inv: "txn_op t t' \<Longrightarrow> txn_inv t \<Longrightarrow> txn_inv t'"
  by (induction rule: txn_op.induct) (auto simp: err_simps txn_inv_def Let_def)

lemma txn_op_can: "txn_op t t' \<Longrightarrow> CanTransitionTo (t_State t) (t_State t')"
  by (induction rule: txn_op.induct) (auto simp: err_simps Let_def)

lemma txn_op_state_inv: "txn_op t t' \<Longrightarrow> txn_inv t \<Longrightarrow> txn_state_inv t \<Longrightarrow> txn_state_inv t'"
  by (induction rule: txn_op.induct)
    (auto simp: err_simps txn_inv_def txn_state_inv_def Let_def dest: money_moved_step money_returned_step)

lemma txn_op_frame:
  "txn_op t t' \<Longrightarrow> t_Amount t' = t_Amount t \<and> t_ID t' = t_ID t \<and> t_MerchantID t' = t_MerchantID t
     \<and> t_ShardKey t' = t_ShardKey t"
  by (induction rule: txn_op.induct) (auto simp: err_simps Let_def)

lemma txn_run:
  assumes "txn_op\<^sup>*\<^sup>* t t'" "txn_inv t" "txn_state_inv t"
  shows "txn_inv t' \<and> txn_state_inv t' \<and> t_Amount t' = t_Amount t \<and> t_ShardKey t' = t_ShardKey t
    \<and> CanTransitionTo\<^sup>*\<^sup>* (t_State t) (t_State t')"
  using assms
proof (induction rule: rtranclp_induct)
  case (step t' t'')
  then have "txn_inv t''" "txn_state_inv t''" "t_Amount t'' = t_Amount t" "t_ShardKey t'' = t_ShardKey t"
    using txn_op_inv txn_op_state_inv txn_op_frame by metis+
  moreover have "CanTransitionTo\<^sup>*\<^sup>* (t_State t) (t_State t'')"
    using step txn_op_can by (meson rtranclp.rtrancl_into_rtrancl)
  ultimately show ?case by blast
qed simp

text \<open>C8: whatever sequence of state changes, captures and refunds is applied to a payment after its
  creation, the amounts stay ordered, \<open>0 \<le> refunded \<le> captured \<le> authorized\<close>, all in one currency;
  the authorized amount never changes; a payment with captured money is captured, settled or
  refunded and one with refunded money is (partially) refunded.\<close>

theorem payment_amounts_ordered:
  assumes "Transaction_New newID now mid key amount = Inr t0" "txn_op\<^sup>*\<^sup>* t0 t"
  shows "t_Amount t = amount
    \<and> 0 \<le> minor (t_Refunded t) \<and> minor (t_Refunded t) \<le> minor (t_Captured t)
    \<and> minor (t_Captured t) \<le> minor amount
    \<and> m_currency (t_Captured t) = m_currency amount \<and> m_currency (t_Refunded t) = m_currency amount
    \<and> (0 < minor (t_Captured t) \<longrightarrow>
         t_State t \<in> {StateCaptured, StateSettled, StatePartiallyRefunded, StateRefunded})
    \<and> (0 < minor (t_Refunded t) \<longrightarrow> t_State t \<in> {StatePartiallyRefunded, StateRefunded})"
  using txn_run [OF assms(2)] Transaction_New_Inr [OF assms(1)]
  by (auto simp: txn_inv_def txn_state_inv_def money_moved_def money_returned_def)

theorem payment_amounts_ordered_witness:
  "\<exists>t0 t. Transaction_New 1 0 ''m'' ''k'' (mk_money 500 ''USD'') = Inr t0 \<and> txn_op\<^sup>*\<^sup>* t0 t
     \<and> minor (t_Captured t) = 300 \<and> minor (t_Captured t) \<le> minor (mk_money 500 ''USD'')"
proof -
  define t0 where "t0 = \<lparr>t_ID = 1, t_MerchantID = ''m'', t_ShardKey = KeyForMerchant ''m'',
     t_IdempotencyKey = ''k'', t_State = StateCreated, t_Amount = mk_money 500 ''USD'',
     t_Captured = mk_money 0 ''USD'', t_Refunded = mk_money 0 ''USD'', t_PSP = [], t_PSPReference = [],
     t_Version = 1, t_LastAppliedEventSeq = 0, t_CreatedAt = 0, t_UpdatedAt = 0\<rparr>"
  define t1 where "t1 = t0\<lparr>t_State := StateAuthorizing\<rparr>"
  define t2 where "t2 = t0\<lparr>t_State := StateAuthorized\<rparr>"
  define t3 where "t3 = t0\<lparr>t_State := StateCapturing\<rparr>"
  define t4 where "t4 = t0\<lparr>t_State := StateCaptured, t_Captured := mk_money 300 ''USD''\<rparr>"
  note d = t0_def t1_def t2_def t3_def t4_def CanTransitionTo_def valid_currency_def is_upper_def in64_def
  have vc: "valid_currency ''USD''" by (simp add: d)
  have n: "Transaction_New 1 0 ''m'' ''k'' (mk_money 500 ''USD'') = Inr t0"
    using vc by (simp add: Transaction_New_def Money_Zero_def Money_New_def Currency_Validate_eq IsValid_iff
        IsPositive_def t0_def)
  have "txn_op t0 t1" by (rule op_transition [of 0 _ StateAuthorizing]) (simp add: err_simps d)
  moreover have "txn_op t1 t2" by (rule op_transition [of 0 _ StateAuthorized]) (simp add: err_simps d)
  moreover have "txn_op t2 t3" by (rule op_transition [of 0 _ StateCapturing]) (simp add: err_simps d)
  moreover have "txn_op t3 t4"
    by (rule op_capture [of 0 _ "mk_money 300 ''USD''"]) (simp add: err_simps d)
  ultimately have r: "txn_op\<^sup>*\<^sup>* t0 t4" by (meson converse_rtranclp_into_rtranclp rtranclp.rtrancl_refl)
  have "minor (t_Captured t4) = 300" by (simp add: t4_def)
  then show ?thesis using n r payment_amounts_ordered [OF n r] by blast
qed

text \<open>C31: the matrix in Go and the trigger in the database accept exactly the same moves, and both
  treat the same states as final: failed, cancelled, refunded and expired.\<close>

theorem go_and_db_matrices_agree:
  "(is_ok (assert_valid_transaction_transition s t) \<longleftrightarrow> CanTransitionTo s t)
   \<and> (s \<in> set allStates \<and> State_IsTerminal s
        \<longleftrightarrow> s \<in> {StateFailed, StateCancelled, StateRefunded, StateExpired})"
proof -
  have "s \<in> set allStates \<and> State_IsTerminal s
      \<longleftrightarrow> s \<in> {StateFailed, StateCancelled, StateRefunded, StateExpired}"
    by (cases s) (simp_all add: allStates_def State_IsTerminal_def)
  then show ?thesis using db_accepts_iff by blast
qed

text \<open>A payment in a terminal state stays in it under every sequence of operations.\<close>

theorem terminal_is_final:
  assumes "txn_op\<^sup>*\<^sup>* t t'" "State_IsTerminal (t_State t)"
  shows "t_State t' = t_State t"
  using assms(1)
proof (induction rule: rtranclp_induct)
  case (step u v)
  then have "CanTransitionTo (t_State t) (t_State v)" using txn_op_can by metis
  then show ?case using go_matrix.terminal_stuck assms(2) by blast
qed simp

theorem terminal_is_final_witness:
  "\<exists>t t'. t_State t = StateFailed \<and> t' \<noteq> t \<and> txn_op\<^sup>*\<^sup>* t t' \<and> t_State t' = StateFailed"
proof -
  define t where "t = \<lparr>t_ID = 1, t_MerchantID = ''m'', t_ShardKey = ''s00'',
     t_IdempotencyKey = ''k'', t_State = StateFailed, t_Amount = mk_money 500 ''USD'',
     t_Captured = mk_money 0 ''USD'', t_Refunded = mk_money 0 ''USD'', t_PSP = [], t_PSPReference = [],
     t_Version = 1, t_LastAppliedEventSeq = 0, t_CreatedAt = 0, t_UpdatedAt = 0\<rparr>"
  define t' where "t' = t\<lparr>t_UpdatedAt := 9\<rparr>"
  have "txn_op t t'"
    by (rule op_transition [of 9 _ StateFailed]) (simp add: err_simps CanTransitionTo_def t_def t'_def)
  then have r: "txn_op\<^sup>*\<^sup>* t t'" by blast
  have "t_State t = StateFailed" "t' \<noteq> t" by (simp_all add: t_def t'_def)
  moreover from this have "State_IsTerminal (t_State t)" by (simp add: State_IsTerminal_def)
  ultimately show ?thesis using r terminal_is_final [OF r] by metis
qed

end
