(* ===== verification/Psp.thy ===== *)
theory Psp
  imports Money
begin

text \<open>
  The provider-facing contract (internal/psp): the error taxonomy and its three predicates
  (errors.go), the retry policy (retry_policy.go), provider statuses, requests, responses and the
  operation key (adapter.go), the registry (registry.go). An adapter's answers are those of code
  outside this development: it is a record of functions from the calls made so far and the
  request to a result, so that a provider may answer the same request differently over time.
\<close>

section \<open>Error classes (errors.go)\<close>

definition IsAmbiguous :: "ErrorClass \<Rightarrow> bool" where
  "IsAmbiguous c = (case c of ClassTimeout \<Rightarrow> True | ClassNetworkError \<Rightarrow> True | ClassUnknown \<Rightarrow> True
     | _ \<Rightarrow> False)"

definition Class_IsTerminal :: "ErrorClass \<Rightarrow> bool" where
  "Class_IsTerminal c = (case c of ClassDeclined \<Rightarrow> True | ClassInsufficientFunds \<Rightarrow> True
     | ClassDoNotHonor \<Rightarrow> True | ClassSuspectedFraud \<Rightarrow> True | ClassInvalidInstrument \<Rightarrow> True
     | _ \<Rightarrow> False)"

definition IsRetryable :: "ErrorClass \<Rightarrow> bool" where
  "IsRetryable c = (case c of ClassRateLimited \<Rightarrow> True | ClassUnavailable \<Rightarrow> True | _ \<Rightarrow> False)"

text \<open>\<open>ClassOf\<close> on a non-nil error: \<open>errors.As\<close> also looks through the wrapping of
  \<open>ErrOutcomeUnresolved\<close>.\<close>

fun ClassOf :: "gerror \<Rightarrow> ErrorClass" where
  "ClassOf (PspError c _ _) = c"
| "ClassOf (ErrOutcomeUnresolved e) = ClassOf e"
| "ClassOf _ = ClassUnknown"

text \<open>\<open>errors.Is(err, target)\<close> for two provider errors, \<open>(e *Error) Is\<close>: same class, and the target
  is a bare sentinel with neither provider nor raw code.\<close>

definition Error_Is :: "ErrorClass \<times> string \<times> string \<Rightarrow> ErrorClass \<times> string \<times> string \<Rightarrow> bool" where
  "Error_Is e target =
     (case (e, target) of ((c, _, _), (tc, tprovider, trawCode)) \<Rightarrow>
        tc = c \<and> tprovider = [] \<and> trawCode = [])"

section \<open>Retry policy (retry_policy.go)\<close>

record RetryDecision =
  rd_Retry :: bool
  rd_RequiresStatusCheck :: bool
  rd_MaxAttempts :: nat
  rd_LongBackoff :: bool
  rd_Alert :: bool

definition no_decision :: RetryDecision where
  "no_decision = \<lparr>rd_Retry = False, rd_RequiresStatusCheck = False, rd_MaxAttempts = 0,
     rd_LongBackoff = False, rd_Alert = False\<rparr>"

definition RetryPolicyFor :: "ErrorClass \<Rightarrow> RetryDecision" where
  "RetryPolicyFor class =
     (case class of
        ClassTimeout \<Rightarrow> no_decision\<lparr>rd_Retry := True, rd_RequiresStatusCheck := True\<rparr>
      | ClassNetworkError \<Rightarrow> no_decision\<lparr>rd_Retry := True, rd_RequiresStatusCheck := True\<rparr>
      | ClassUnknown \<Rightarrow> no_decision\<lparr>rd_Retry := True, rd_RequiresStatusCheck := True,
          rd_MaxAttempts := 2, rd_Alert := True\<rparr>
      | ClassRateLimited \<Rightarrow> no_decision\<lparr>rd_Retry := True, rd_LongBackoff := True\<rparr>
      | ClassUnavailable \<Rightarrow> no_decision\<lparr>rd_Retry := True, rd_LongBackoff := True\<rparr>
      | ClassDeclined \<Rightarrow> no_decision
      | ClassInsufficientFunds \<Rightarrow> no_decision
      | ClassDoNotHonor \<Rightarrow> no_decision
      | ClassSuspectedFraud \<Rightarrow> no_decision\<lparr>rd_Alert := True\<rparr>
      | ClassInvalidInstrument \<Rightarrow> no_decision
      | ClassOther _ \<Rightarrow> no_decision\<lparr>rd_Retry := True, rd_RequiresStatusCheck := True,
          rd_MaxAttempts := 2, rd_Alert := True\<rparr>)"

section \<open>The adapter contract (adapter.go)\<close>

datatype Status =
    StatusAuthorized | StatusCaptured | StatusRefunded | StatusVoided | StatusFailed
  | StatusPending | StatusRequiresAction | StatusNotFound | StatusOther string

definition Status_IsTerminal :: "Status \<Rightarrow> bool" where
  "Status_IsTerminal s \<longleftrightarrow> s \<in> {StatusCaptured, StatusRefunded, StatusVoided, StatusFailed}"

record Response =
  rs_Status :: Status
  rs_ProviderReference :: string
  rs_Amount :: Money

datatype ProviderCall =
    CallAuthorize string uuid Money
  | CallCapture string uuid string Money
  | CallGetStatus string uuid

record Adapter =
  ad_Name :: string
  ad_call :: "ProviderCall list \<Rightarrow> ProviderCall \<Rightarrow> Response result"

definition OperationKey :: "(uuid \<Rightarrow> string) \<Rightarrow> uuid \<Rightarrow> string \<Rightarrow> string" where
  "OperationKey uuidString transactionID operation = uuidString transactionID @ '':'' @ operation"

section \<open>Registry (registry.go)\<close>

record Registry =
  reg_adapters :: "string \<rightharpoonup> Adapter"
  reg_default :: string

definition NewRegistry :: "string \<Rightarrow> Adapter list \<Rightarrow> Registry" where
  "NewRegistry defaultName adapters =
     \<lparr>reg_adapters = foldl (\<lambda>m a. m(ad_Name a \<mapsto> a)) Map.empty adapters, reg_default = defaultName\<rparr>"

definition Registry_Get :: "Registry \<Rightarrow> string \<Rightarrow> Adapter result" where
  "Registry_Get r name =
     (case reg_adapters r name of None \<Rightarrow> Inl (ErrOther ''no payment provider registered'') | Some a \<Rightarrow> Inr a)"

definition Registry_Default :: "Registry \<Rightarrow> Adapter result" where
  "Registry_Default r = Registry_Get r (reg_default r)"

section \<open>Properties of the taxonomy\<close>

lemma taxonomy_partition:
  "(\<forall>s. c \<noteq> ClassOther s) \<Longrightarrow>
     (IsAmbiguous c \<and> \<not> Class_IsTerminal c \<and> \<not> IsRetryable c)
   \<or> (\<not> IsAmbiguous c \<and> Class_IsTerminal c \<and> \<not> IsRetryable c)
   \<or> (\<not> IsAmbiguous c \<and> \<not> Class_IsTerminal c \<and> IsRetryable c)"
  by (cases c) (simp_all add: IsAmbiguous_def Class_IsTerminal_def IsRetryable_def)

text \<open>The policy never repeats a definitive refusal, never repeats a call whose effect is
  unknown without asking the provider first, and asks for nothing else: a blind retry is
  permitted exactly for the classes that say nothing happened. Only unrecognised failures have
  their own attempt cap, and they alert.\<close>

theorem retry_policy_safe:
  "(rd_Retry (RetryPolicyFor c) \<longleftrightarrow> \<not> Class_IsTerminal c)
   \<and> (rd_Retry (RetryPolicyFor c) \<and> \<not> rd_RequiresStatusCheck (RetryPolicyFor c) \<longleftrightarrow> IsRetryable c)
   \<and> (rd_LongBackoff (RetryPolicyFor c) \<longleftrightarrow> IsRetryable c)
   \<and> (IsAmbiguous c \<longrightarrow> rd_RequiresStatusCheck (RetryPolicyFor c))
   \<and> (rd_MaxAttempts (RetryPolicyFor c) \<noteq> 0 \<longrightarrow>
        rd_MaxAttempts (RetryPolicyFor c) = 2 \<and> rd_Alert (RetryPolicyFor c))"
  by (cases c) (simp_all add: RetryPolicyFor_def no_decision_def IsAmbiguous_def Class_IsTerminal_def
      IsRetryable_def)

theorem retry_policy_safe_witness:
  "rd_RequiresStatusCheck (RetryPolicyFor ClassTimeout) \<and> \<not> rd_Retry (RetryPolicyFor ClassDeclined)"
  using retry_policy_safe [of ClassTimeout] retry_policy_safe [of ClassDeclined]
  by (simp add: IsAmbiguous_def Class_IsTerminal_def)

text \<open>Distinct operations on one transaction never share a provider key, and neither do two
  transactions, whenever the textual form of an identifier is injective and free of colons.\<close>

lemma OperationKey_inj:
  assumes "inj us" "\<And>x. CHR '':'' \<notin> set (us x)" "CHR '':'' \<notin> set op1" "CHR '':'' \<notin> set op2"
    and eq: "OperationKey us t1 op1 = OperationKey us t2 op2"
  shows "t1 = t2 \<and> op1 = op2"
proof -
  have tw: "takeWhile (\<lambda>c. c \<noteq> CHR '':'') (us t @ CHR '':'' # op) = us t" for t op
    using assms(2) [of t] by (subst takeWhile_append2) auto
  have e: "us t1 @ CHR '':'' # op1 = us t2 @ CHR '':'' # op2" using eq by (simp add: OperationKey_def)
  then have "us t1 = us t2" by (metis tw)
  then show ?thesis using e assms(1) by (auto dest: injD)
qed

end
