(* ===== verification/Resilience.thy ===== *)
theory Resilience
  imports Prelude
begin

text \<open>
  The circuit breaker of internal/resilience/circuit_breaker.go. Each method runs under the
  breaker's mutex, so it is one atomic step; the injectable clock is an argument. \<open>cb_run\<close> applies
  a sequence of calls with their clock readings and returns what \<open>Allow\<close> answered.
\<close>

datatype CircuitState = StateClosed | StateOpen | StateHalfOpen

record CircuitConfig =
  FailureThreshold :: int
  OpenDuration :: int
  HalfOpenProbes :: int

record CircuitBreaker =
  cb_cfg :: CircuitConfig
  cb_state :: CircuitState
  cb_consecutiveFails :: int
  cb_openedAt :: time
  cb_halfOpenInFlight :: int
  cb_halfOpenSuccess :: int

definition DefaultCircuitConfig :: CircuitConfig where
  "DefaultCircuitConfig =
     \<lparr>FailureThreshold = 5, OpenDuration = 10 * 1000000000, HalfOpenProbes = 2\<rparr>"

definition NewCircuitBreaker :: "CircuitConfig \<Rightarrow> CircuitBreaker" where
  "NewCircuitBreaker cfg =
     (let cfg1 = (if FailureThreshold cfg \<le> 0 then cfg\<lparr>FailureThreshold := 5\<rparr> else cfg);
          cfg2 = (if HalfOpenProbes cfg1 \<le> 0 then cfg1\<lparr>HalfOpenProbes := 1\<rparr> else cfg1)
      in \<lparr>cb_cfg = cfg2, cb_state = StateClosed, cb_consecutiveFails = 0, cb_openedAt = 0,
          cb_halfOpenInFlight = 0, cb_halfOpenSuccess = 0\<rparr>)"

definition refresh :: "time \<Rightarrow> CircuitBreaker \<Rightarrow> CircuitBreaker" where
  "refresh now b =
     (if cb_state b = StateOpen \<and> now - cb_openedAt b \<ge> OpenDuration (cb_cfg b)
      then b\<lparr>cb_state := StateHalfOpen, cb_halfOpenInFlight := 0, cb_halfOpenSuccess := 0\<rparr>
      else b)"

definition openCircuit :: "time \<Rightarrow> CircuitBreaker \<Rightarrow> CircuitBreaker" where
  "openCircuit now b =
     b\<lparr>cb_state := StateOpen, cb_openedAt := now, cb_consecutiveFails := 0,
       cb_halfOpenInFlight := 0, cb_halfOpenSuccess := 0\<rparr>"

definition closeCircuit :: "CircuitBreaker \<Rightarrow> CircuitBreaker" where
  "closeCircuit b =
     b\<lparr>cb_state := StateClosed, cb_consecutiveFails := 0, cb_halfOpenInFlight := 0,
       cb_halfOpenSuccess := 0\<rparr>"

definition Allow :: "time \<Rightarrow> CircuitBreaker \<Rightarrow> bool \<times> CircuitBreaker" where
  "Allow now b0 =
     (let b = refresh now b0 in
      case cb_state b of
        StateClosed \<Rightarrow> (True, b)
      | StateHalfOpen \<Rightarrow>
          if cb_halfOpenInFlight b \<ge> HalfOpenProbes (cb_cfg b) then (False, b)
          else (True, b\<lparr>cb_halfOpenInFlight := cb_halfOpenInFlight b + 1\<rparr>)
      | StateOpen \<Rightarrow> (False, b))"

definition Success :: "CircuitBreaker \<Rightarrow> CircuitBreaker" where
  "Success b =
     (case cb_state b of
        StateHalfOpen \<Rightarrow>
          let b1 = b\<lparr>cb_halfOpenSuccess := cb_halfOpenSuccess b + 1,
                     cb_halfOpenInFlight := cb_halfOpenInFlight b - 1\<rparr> in
          if cb_halfOpenSuccess b1 \<ge> HalfOpenProbes (cb_cfg b1) then closeCircuit b1 else b1
      | _ \<Rightarrow> b\<lparr>cb_consecutiveFails := 0\<rparr>)"

definition Failure :: "time \<Rightarrow> CircuitBreaker \<Rightarrow> CircuitBreaker" where
  "Failure now b =
     (case cb_state b of
        StateHalfOpen \<Rightarrow> openCircuit now (b\<lparr>cb_halfOpenInFlight := cb_halfOpenInFlight b - 1\<rparr>)
      | _ \<Rightarrow>
          let b1 = b\<lparr>cb_consecutiveFails := cb_consecutiveFails b + 1\<rparr> in
          if cb_consecutiveFails b1 \<ge> FailureThreshold (cb_cfg b1) then openCircuit now b1 else b1)"

definition Breaker_State :: "time \<Rightarrow> CircuitBreaker \<Rightarrow> CircuitState \<times> CircuitBreaker" where
  "Breaker_State now b = (let b1 = refresh now b in (cb_state b1, b1))"

datatype cb_event = EvAllow | EvSuccess | EvFailure

fun cb_step :: "time \<times> cb_event \<Rightarrow> CircuitBreaker \<Rightarrow> bool list \<times> CircuitBreaker" where
  "cb_step (now, EvAllow) b = (case Allow now b of (r, b1) \<Rightarrow> ([r], b1))"
| "cb_step (now, EvSuccess) b = ([], Success b)"
| "cb_step (now, EvFailure) b = ([], Failure now b)"

fun cb_run :: "(time \<times> cb_event) list \<Rightarrow> CircuitBreaker \<Rightarrow> bool list \<times> CircuitBreaker" where
  "cb_run [] b = ([], b)"
| "cb_run (e # es) b =
     (case cb_step e b of (rs, b1) \<Rightarrow> case cb_run es b1 of (rs', b2) \<Rightarrow> (rs @ rs', b2))"

section \<open>Invariant and behaviour\<close>

definition cb_inv :: "CircuitBreaker \<Rightarrow> bool" where
  "cb_inv b \<longleftrightarrow> 0 < FailureThreshold (cb_cfg b) \<and> 0 < HalfOpenProbes (cb_cfg b)
     \<and> 0 \<le> cb_consecutiveFails b \<and> cb_consecutiveFails b < FailureThreshold (cb_cfg b)
     \<and> 0 \<le> cb_halfOpenSuccess b \<and> cb_halfOpenSuccess b < HalfOpenProbes (cb_cfg b)
     \<and> cb_halfOpenInFlight b \<le> HalfOpenProbes (cb_cfg b)
     \<and> (cb_state b \<noteq> StateHalfOpen \<longrightarrow> cb_halfOpenInFlight b = 0 \<and> cb_halfOpenSuccess b = 0)"

lemmas cb_defs = refresh_def openCircuit_def closeCircuit_def Allow_def Success_def Failure_def

lemma NewCircuitBreaker_inv: "cb_inv (NewCircuitBreaker cfg)"
  by (simp add: NewCircuitBreaker_def cb_inv_def Let_def)

lemma cb_step_inv: "cb_inv b \<Longrightarrow> cb_inv (snd (cb_step e b))"
  by (cases "(e, b)" rule: cb_step.cases)
    (auto simp: cb_inv_def cb_defs Let_def split: CircuitState.splits)

lemma cb_step_cfg: "cb_cfg (snd (cb_step e b)) = cb_cfg b"
  by (cases "(e, b)" rule: cb_step.cases) (auto simp: cb_defs Let_def split: CircuitState.splits)

lemma cb_run_Cons:
  "cb_run (e # es) b = (fst (cb_step e b) @ fst (cb_run es (snd (cb_step e b))),
                        snd (cb_run es (snd (cb_step e b))))"
  by (simp add: case_prod_unfold)

lemmas cb_run_simps = cb_run.simps(1) cb_run_Cons

declare cb_run.simps(2) [simp del]

lemma cb_run_inv: "cb_inv b \<Longrightarrow> cb_inv (snd (cb_run es b))"
  by (induction es arbitrary: b) (simp_all add: cb_run_Cons cb_step_inv)

lemma cb_run_append:
  "cb_run (es @ fs) b = (fst (cb_run es b) @ fst (cb_run fs (snd (cb_run es b))),
                         snd (cb_run fs (snd (cb_run es b))))"
  by (induction es arbitrary: b) (simp_all add: cb_run_Cons)

text \<open>The counters stay in range under any interleaving of calls and results: consecutive
  failures below the threshold, probe successes below the number needed, never more probes in
  flight than configured, and no probe bookkeeping outside the half-open state.\<close>

theorem breaker_counters_bounded: "cb_inv (snd (cb_run es (NewCircuitBreaker cfg)))"
  by (rule cb_run_inv) (rule NewCircuitBreaker_inv)

lemma failures_accumulate:
  assumes "cb_state b = StateClosed" "int (length ts) + cb_consecutiveFails b < FailureThreshold (cb_cfg b)"
  shows "cb_run (map (\<lambda>t. (t, EvFailure)) ts) b =
     ([], b\<lparr>cb_consecutiveFails := cb_consecutiveFails b + int (length ts)\<rparr>)"
  using assms
proof (induction ts arbitrary: b)
  case (Cons t ts)
  let ?b1 = "b\<lparr>cb_consecutiveFails := cb_consecutiveFails b + 1\<rparr>"
  have "Failure t b = ?b1" using Cons.prems by (simp add: Failure_def Let_def)
  then show ?case using Cons.IH [of ?b1] Cons.prems by (simp add: cb_run_Cons add.commute add.left_commute)
qed simp

lemma open_rejects:
  assumes "cb_state b = StateOpen" "list_all (\<lambda>t. t < cb_openedAt b + OpenDuration (cb_cfg b)) ts"
  shows "cb_run (map (\<lambda>t. (t, EvAllow)) ts) b = (replicate (length ts) False, b)"
  using assms(2)
proof (induction ts)
  case (Cons t ts)
  then have "Allow t b = (False, b)" using assms(1) by (simp add: Allow_def refresh_def)
  then show ?case using Cons by (simp add: cb_run_Cons)
qed simp

lemma half_open_admits:
  assumes "cb_state b = StateHalfOpen" "0 \<le> cb_halfOpenInFlight b"
    "cb_halfOpenInFlight b \<le> HalfOpenProbes (cb_cfg b)"
  shows "fst (cb_run (map (\<lambda>t. (t, EvAllow)) ts) b) =
     (let k = min (length ts) (nat (HalfOpenProbes (cb_cfg b) - cb_halfOpenInFlight b)) in
      replicate k True @ replicate (length ts - k) False)"
  using assms
proof (induction ts arbitrary: b)
  case (Cons t ts)
  show ?case
  proof (cases "cb_halfOpenInFlight b \<ge> HalfOpenProbes (cb_cfg b)")
    case True
    then have "Allow t b = (False, b)" using Cons.prems by (simp add: Allow_def refresh_def)
    then show ?thesis using Cons.IH [of b] Cons.prems True by (simp add: cb_run_Cons)
  next
    case False
    let ?b1 = "b\<lparr>cb_halfOpenInFlight := cb_halfOpenInFlight b + 1\<rparr>"
    have "Allow t b = (True, ?b1)" using False Cons.prems by (simp add: Allow_def refresh_def)
    moreover have "nat (HalfOpenProbes (cb_cfg b) - cb_halfOpenInFlight b) =
        Suc (nat (HalfOpenProbes (cb_cfg b) - (cb_halfOpenInFlight b + 1)))"
      using False by (simp add: Suc_nat_eq_nat_zadd1)
    ultimately show ?thesis using Cons.IH [of ?b1] Cons.prems False
      by (simp add: cb_run_Cons Let_def)
  qed
qed simp

text \<open>A closed breaker opens on exactly the configured number of consecutive failures, not
  before; then it rejects every call until the open duration has passed, and after that it
  admits exactly the configured number of probes while none has reported.\<close>

theorem breaker_trips_and_probes:
  assumes inv: "cb_inv b" and closed: "cb_state b = StateClosed" and fails: "cb_consecutiveFails b = 0"
    and thr: "int (length ts) + 1 = FailureThreshold (cb_cfg b)"
    and early: "list_all (\<lambda>t. t < now + OpenDuration (cb_cfg b)) us"
    and late: "now + OpenDuration (cb_cfg b) \<le> v" "list_all (\<lambda>t. now + OpenDuration (cb_cfg b) \<le> t) vs"
  defines "b1 \<equiv> snd (cb_run (map (\<lambda>t. (t, EvFailure)) ts) b)"
  defines "b2 \<equiv> Failure now b1"
  shows "cb_state b1 = StateClosed \<and> cb_state b2 = StateOpen
    \<and> fst (cb_run (map (\<lambda>t. (t, EvAllow)) us) b2) = replicate (length us) False
    \<and> (let k = min (length (v # vs)) (nat (HalfOpenProbes (cb_cfg b)))
        in fst (cb_run (map (\<lambda>t. (t, EvAllow)) (us @ v # vs)) b2) =
           replicate (length us) False @ replicate k True @ replicate (length (v # vs) - k) False)"
proof -
  have b1: "b1 = b\<lparr>cb_consecutiveFails := int (length ts)\<rparr>"
    using failures_accumulate [of b ts] closed fails thr by (simp add: b1_def)
  have b2: "b2 = openCircuit now (b\<lparr>cb_consecutiveFails := int (length ts) + 1\<rparr>)"
    using closed thr by (simp add: b2_def b1 Failure_def Let_def)
  have st: "cb_state b2 = StateOpen" "cb_openedAt b2 = now" "cb_cfg b2 = cb_cfg b"
    by (simp_all add: b2 openCircuit_def)
  have rej: "cb_run (map (\<lambda>t. (t, EvAllow)) us) b2 = (replicate (length us) False, b2)"
    using open_rejects [of b2 us] st early by simp
  let ?h = "b2\<lparr>cb_state := StateHalfOpen, cb_halfOpenInFlight := 0, cb_halfOpenSuccess := 0\<rparr>"
  have "Allow v b2 = Allow v ?h"
    using st late(1) by (simp add: Allow_def refresh_def)
  then have "cb_run (map (\<lambda>t. (t, EvAllow)) (v # vs)) b2 = cb_run (map (\<lambda>t. (t, EvAllow)) (v # vs)) ?h"
    by (simp add: cb_run_Cons)
  moreover have "fst (cb_run (map (\<lambda>t. (t, EvAllow)) (v # vs)) ?h) =
     (let k = min (length (v # vs)) (nat (HalfOpenProbes (cb_cfg b))) in
      replicate k True @ replicate (length (v # vs) - k) False)"
    using half_open_admits [of ?h "v # vs"] inv st by (simp add: cb_inv_def)
  ultimately have "fst (cb_run (map (\<lambda>t. (t, EvAllow)) (v # vs)) b2) =
     (let k = min (length (v # vs)) (nat (HalfOpenProbes (cb_cfg b))) in
      replicate k True @ replicate (length (v # vs) - k) False)" by simp
  then have "fst (cb_run (map (\<lambda>t. (t, EvAllow)) (us @ v # vs)) b2) =
     replicate (length us) False @ (let k = min (length (v # vs)) (nat (HalfOpenProbes (cb_cfg b))) in
      replicate k True @ replicate (length (v # vs) - k) False)"
    by (simp only: map_append cb_run_append rej fst_conv snd_conv)
  then show ?thesis using b1 closed st(1) rej by (simp add: Let_def)
qed

theorem breaker_trips_and_probes_witness:
  "fst (cb_run (map (\<lambda>t. (t, EvAllow)) ([6] @ 10000000005 # [10000000006, 10000000007]))
      (Failure 5 (snd (cb_run (map (\<lambda>t. (t, EvFailure)) [1, 2, 3, 4]) (NewCircuitBreaker DefaultCircuitConfig)))))
   = [False, True, True, False]"
  using breaker_trips_and_probes [of "NewCircuitBreaker DefaultCircuitConfig" "[1, 2, 3, 4]" 5 "[6]"
      10000000005 "[10000000006, 10000000007]", OF NewCircuitBreaker_inv]
  by (simp add: NewCircuitBreaker_def DefaultCircuitConfig_def Let_def eval_nat_numeral)

lemma closed_admits:
  "cb_state b = StateClosed \<Longrightarrow> cb_run (replicate n (t, EvAllow)) b = (replicate n True, b)"
  by (induction n) (simp_all add: cb_run_Cons Allow_def refresh_def)

text \<open>Results are credited to whatever state the breaker is in when they arrive. Seven calls
  admitted while closed, five of which fail and open the breaker: after the open period one
  probe is admitted, and the two remaining old calls, finishing late, close the breaker although
  the probe has not reported. The configuration says that \<open>HalfOpenProbes\<close> probes must succeed.\<close>

theorem late_results_close_the_breaker:
  "let b0 = NewCircuitBreaker DefaultCircuitConfig;
       before = replicate 7 (0, EvAllow) @ map (\<lambda>t. (t, EvFailure)) [1, 2, 3, 4] @ [(5, EvFailure)];
       probe = [(10000000005, EvAllow)];
       late = [(10000000006, EvSuccess), (10000000007, EvSuccess)]
   in fst (cb_run before b0) = replicate 7 True
    \<and> cb_state (snd (cb_run before b0)) = StateOpen
    \<and> fst (cb_run probe (snd (cb_run before b0))) = [True]
    \<and> cb_halfOpenInFlight (snd (cb_run (before @ probe) b0)) = 1
    \<and> cb_state (snd (cb_run (before @ probe @ late) b0)) = StateClosed"
proof -
  define b0 where "b0 = NewCircuitBreaker DefaultCircuitConfig"
  define before where "before = replicate 7 (0, EvAllow) @ map (\<lambda>t. (t, EvFailure)) [1, 2, 3, 4] @ [(5 :: time, EvFailure)]"
  define bo where "bo = openCircuit 5 (b0\<lparr>cb_consecutiveFails := 5\<rparr>)"
  have b0: "cb_state b0 = StateClosed" "cb_consecutiveFails b0 = 0" "cb_cfg b0 = DefaultCircuitConfig"
    by (simp_all add: b0_def NewCircuitBreaker_def DefaultCircuitConfig_def Let_def)
  have "cb_run (map (\<lambda>t. (t, EvFailure)) [1, 2, 3, 4]) b0 = ([], b0\<lparr>cb_consecutiveFails := 4\<rparr>)"
    by (subst failures_accumulate) (use b0 in \<open>simp_all add: DefaultCircuitConfig_def\<close>)
  then have run: "cb_run before b0 = (replicate 7 True, bo)"
    unfolding before_def cb_run_append closed_admits [OF b0(1)] using b0
    by (simp add: cb_run_Cons Failure_def bo_def DefaultCircuitConfig_def)
  have bo: "cb_state bo = StateOpen" "cb_openedAt bo = 5" "cb_cfg bo = DefaultCircuitConfig"
    by (simp_all add: bo_def openCircuit_def b0)
  define bh where "bh = bo\<lparr>cb_state := StateHalfOpen, cb_halfOpenInFlight := 1, cb_halfOpenSuccess := 0\<rparr>"
  have pr: "cb_run [(10000000005, EvAllow)] bo = ([True], bh)"
    using bo by (simp add: cb_run_Cons Allow_def refresh_def bh_def DefaultCircuitConfig_def)
  have "cb_state (snd (cb_run [(10000000006, EvSuccess), (10000000007, EvSuccess)] bh)) = StateClosed"
    using bo by (simp add: cb_run_Cons Success_def bh_def DefaultCircuitConfig_def Let_def closeCircuit_def)
  then have "cb_state (snd (cb_run ([(10000000005, EvAllow)] @
      [(10000000006, EvSuccess), (10000000007, EvSuccess)]) bo)) = StateClosed"
    by (simp only: cb_run_append pr snd_conv)
  moreover have "cb_halfOpenInFlight bh = 1" by (simp add: bh_def)
  ultimately show ?thesis
    unfolding Let_def before_def [symmetric] b0_def [symmetric]
    by (simp only: cb_run_append [of before] run pr bo(1) fst_conv snd_conv simp_thms)
qed

end
