(* ===== verification/Csv.thy ===== *)
theory Csv
  imports Sharding
begin

text \<open>
  What the settlement parser uses of the standard library, on byte strings: \<open>strings.TrimSpace\<close>,
  \<open>strings.Join\<close>, \<open>strings.EqualFold\<close> against a fixed lower-case word, and \<open>encoding/csv\<close>'s
  \<open>Reader.ReadAll\<close> with its defaults (comma separator, no comments, strict quotes) and a fixed
  number of fields. The reader works line by line, as the library does: a quoted field may span lines,
  blank lines are skipped, a carriage return before a line feed or at the end of the input is dropped.

  The lemmas show the two facts its clients need: a record that is written without quotes is read back
  field by field, and every record that is returned has the required number of fields.
\<close>

section \<open>Trimming and joining\<close>

text \<open>The UTF-8 encodings of the runes \<open>unicode.IsSpace\<close> accepts.\<close>

definition space_runes :: "string list" where
  "space_runes =
     map (\<lambda>c. [c]) [CHR 0x09, CHR 0x0A, CHR 0x0B, CHR 0x0C, CHR 0x0D, CHR 0x20]
     @ [[CHR 0xC2, CHR 0x85], [CHR 0xC2, CHR 0xA0], [CHR 0xE1, CHR 0x9A, CHR 0x80]]
     @ map (\<lambda>c. [CHR 0xE2, CHR 0x80, c])
         [CHR 0x80, CHR 0x81, CHR 0x82, CHR 0x83, CHR 0x84, CHR 0x85, CHR 0x86, CHR 0x87, CHR 0x88, CHR 0x89,
          CHR 0x8A, CHR 0xA8, CHR 0xA9, CHR 0xAF]
     @ [[CHR 0xE2, CHR 0x81, CHR 0x9F], [CHR 0xE3, CHR 0x80, CHR 0x80]]"

definition starts_with :: "'a list \<Rightarrow> 'a list \<Rightarrow> bool" where
  "starts_with s p \<longleftrightarrow> take (length p) s = p"

function strip_front :: "string list \<Rightarrow> string \<Rightarrow> string" where
  "strip_front pats s =
     (case find (\<lambda>p. p \<noteq> [] \<and> starts_with s p) pats of
        Some p \<Rightarrow> strip_front pats (drop (length p) s)
      | None \<Rightarrow> s)"
  by pat_completeness auto
termination
proof (relation "measure (\<lambda>(pats, s). length s)")
  fix pats s p
  assume "find (\<lambda>p. p \<noteq> [] \<and> starts_with s p) pats = Some p"
  then have "p \<noteq> []" "take (length p) s = p" by (auto simp: find_Some_iff starts_with_def)
  then show "((pats, drop (length p) s), pats, s) \<in> measure (\<lambda>(pats, s). length s)"
    by (cases s) auto
qed simp

declare strip_front.simps [simp del]

definition TrimSpace :: "string \<Rightarrow> string" where
  "TrimSpace s = rev (strip_front (map rev space_runes) (rev (strip_front space_runes s)))"

fun Join :: "string list \<Rightarrow> string \<Rightarrow> string" where
  "Join [] sep = []"
| "Join [s] sep = s"
| "Join (s # t # ss) sep = s @ sep @ Join (t # ss) sep"

text \<open>\<open>strings.EqualFold(s, t)\<close> for a \<open>t\<close> of ASCII letters other than \<open>k\<close> and \<open>s\<close>, the two that
  have a fold outside ASCII.\<close>

definition lower :: "char \<Rightarrow> char" where
  "lower c = (let n = of_char c :: nat in if 65 \<le> n \<and> n \<le> 90 then char_of (n + 32) else c)"

definition EqualFold :: "string \<Rightarrow> string \<Rightarrow> bool" where
  "EqualFold s t \<longleftrightarrow> map lower s = map lower t"

section \<open>The reader\<close>

definition newline :: string where
  "newline = [CHR 0x0A]"

text \<open>\<open>readLine\<close>: each line with its line feed, if it has one.\<close>

fun split_lines :: "string \<Rightarrow> string \<Rightarrow> string list" where
  "split_lines acc [] = (if acc = [] then [] else [if last acc = CHR 0x0D then butlast acc else acc])"
| "split_lines acc (c # cs) =
     (if c = CHR 0x0A
      then ((if acc \<noteq> [] \<and> last acc = CHR 0x0D then butlast acc else acc) @ newline) # split_lines [] cs
      else split_lines (acc @ [c]) cs)"

definition lengthNL :: "string \<Rightarrow> nat" where
  "lengthNL b = (if b \<noteq> [] \<and> last b = CHR 0x0A then 1 else 0)"

definition not_char :: "char \<Rightarrow> char \<Rightarrow> bool" where
  "not_char c d \<longleftrightarrow> d \<noteq> c"

lemma dropWhile_shorter: "length (dropWhile P xs) \<le> length xs" "dropWhile P xs \<noteq> [] \<Longrightarrow> length (tl (dropWhile P xs)) < length xs"
proof -
  show *: "length (dropWhile P xs) \<le> length xs" by (induction xs) auto
  show "dropWhile P xs \<noteq> [] \<Longrightarrow> length (tl (dropWhile P xs)) < length xs"
    using * by (cases "dropWhile P xs") auto
qed

text \<open>\<open>readRecord\<close>: the fields of one record, from the current line and the lines after it, with the
  lines that remain. \<open>None\<close> is \<open>ErrBareQuote\<close> or \<open>ErrQuote\<close>.\<close>

function read_field :: "string \<Rightarrow> string list \<Rightarrow> string list \<Rightarrow> (string list \<times> string list) option"
  and read_quoted :: "string \<Rightarrow> string list \<Rightarrow> string \<Rightarrow> string list \<Rightarrow> (string list \<times> string list) option" where
  "read_field line rest fs =
     (if line \<noteq> [] \<and> hd line = CHR 0x22 then read_quoted (tl line) rest [] fs
      else
        let after = dropWhile (not_char (CHR '','')) line;
            field = (if after = [] then take (length line - lengthNL line) line else takeWhile (not_char (CHR '','')) line)
        in if CHR 0x22 \<in> set field then None
           else if after = [] then Some (fs @ [field], rest)
           else read_field (tl after) rest (fs @ [field]))"
| "read_quoted line rest buf fs =
     (let after = dropWhile (not_char (CHR 0x22)) line; buf' = buf @ takeWhile (not_char (CHR 0x22)) line in
      if after \<noteq> [] then
        let line' = tl after in
        if line' \<noteq> [] \<and> hd line' = CHR 0x22 then read_quoted (tl line') rest (buf' @ [CHR 0x22]) fs
        else if line' \<noteq> [] \<and> hd line' = CHR '','' then read_field (tl line') rest (fs @ [buf'])
        else if lengthNL line' = length line' then Some (fs @ [buf'], rest)
        else None
      else if line \<noteq> [] then
        (case rest of [] \<Rightarrow> read_quoted [] [] buf' fs | l # ls \<Rightarrow> read_quoted l ls buf' fs)
      else None)"
  by pat_completeness auto

termination
proof (relation "measure (\<lambda>x. case x of Inl (line, rest, _) \<Rightarrow> length line + sum_list (map length rest)
    | Inr (line, rest, _, _) \<Rightarrow> length line + sum_list (map length rest))", goal_cases)
  case (2 line rest fs)
  then show ?case by (cases line) simp_all
next
  case (3 line rest fs after field)
  then show ?case using dropWhile_shorter(2) [of "not_char (CHR '','')" line] by simp
next
  case (4 line rest buf fs after buf' line')
  then have "length line' < length line" using dropWhile_shorter(2) [of "not_char (CHR 0x22)" line] by simp
  then show ?case by simp
next
  case (5 line rest buf fs after buf' line')
  then have "length line' < length line" using dropWhile_shorter(2) [of "not_char (CHR 0x22)" line] by simp
  then show ?case by simp
qed simp_all

declare read_field.simps [simp del] read_quoted.simps [simp del]

lemma read_rest_shorter:
  "read_field line rest fs = Some (fs', rest') \<Longrightarrow> length rest' \<le> length rest"
  "read_quoted line rest buf fs = Some (fs', rest') \<Longrightarrow> length rest' \<le> length rest"
proof (induction line rest fs and line rest buf fs rule: read_field_read_quoted.induct)
  case (1 line rest fs)
  note r = 1(3) [unfolded read_field.simps [of line]]
  show ?case using r 1(1) 1(2) [OF _ refl refl] by (auto simp: Let_def split: if_splits)
next
  case (2 line rest buf fs)
  note r = 2(5) [unfolded read_quoted.simps [of line]]
  show ?case using r 2(1) [OF refl refl _ refl] 2(2) [OF refl refl _ refl] 2(3) [OF refl refl] 2(4) [OF refl refl]
    by (auto simp: Let_def split: if_splits list.splits)
qed

text \<open>\<open>ReadAll\<close> on the lines of the input: blank lines are skipped, a record with another number of
  fields than required is \<open>ErrFieldCount\<close>.\<close>

function read_records :: "nat \<Rightarrow> string list \<Rightarrow> string list list option" where
  "read_records n [] = Some []"
| "read_records n (line # rest) =
     (if length line = lengthNL line then read_records n rest
      else case read_field line rest [] of
        None \<Rightarrow> None
      | Some (rec, rest') \<Rightarrow>
          if length rec \<noteq> n then None else map_option (\<lambda>rs. rec # rs) (read_records n rest'))"
  by pat_completeness auto
termination
proof (relation "measure (\<lambda>(n, lines). length lines)", goal_cases)
  case (3 n line rest p rec rest')
  then show ?case using read_rest_shorter(1) [of line rest "[]" rec rest'] by simp
qed simp_all

definition ReadAll :: "nat \<Rightarrow> string \<Rightarrow> string list list option" where
  "ReadAll n input = read_records n (split_lines [] input)"

section \<open>What is read\<close>

lemma read_records_fields: "read_records n lines = Some rs \<Longrightarrow> rec \<in> set rs \<Longrightarrow> length rec = n"
  by (induction n lines arbitrary: rs rule: read_records.induct) (auto split: if_splits option.splits prod.splits)

lemma ReadAll_fields: "ReadAll n input = Some rs \<Longrightarrow> rec \<in> set rs \<Longrightarrow> length rec = n"
  by (auto simp: ReadAll_def intro: read_records_fields)

text \<open>A plain field is one the writer need not quote.\<close>

definition plain_field :: "string \<Rightarrow> bool" where
  "plain_field s \<longleftrightarrow> set s \<inter> {CHR '','', CHR 0x22, CHR 0x0A, CHR 0x0D} = {}"

lemma plain_field_append [simp]: "plain_field (s @ t) \<longleftrightarrow> plain_field s \<and> plain_field t"
  by (auto simp: plain_field_def)

lemma takeWhile_plain: "\<forall>c \<in> set s. P c \<Longrightarrow> \<not> P d \<Longrightarrow> takeWhile P (s @ d # t) = s \<and> dropWhile P (s @ d # t) = d # t"
  by (induction s) auto

lemma read_field_plain:
  assumes "fds \<noteq> []" "\<forall>f \<in> set fds. plain_field f"
  shows "read_field (Join fds '','' @ newline) rest acc = Some (acc @ fds, rest)"
  using assms
proof (induction fds arbitrary: acc rule: induct_list012)
  case (2 f)
  have f: "set f \<inter> {CHR '','', CHR 0x22, CHR 0x0A, CHR 0x0D} = {}" using 2 by (simp add: plain_field_def)
  then have h: "hd (f @ newline) \<noteq> CHR 0x22" by (cases f) (auto simp: newline_def)
  have d: "dropWhile (not_char (CHR '','')) (f @ newline) = []" using f by (auto simp: newline_def not_char_def)
  show ?case using h d f by (subst read_field.simps) (auto simp: Let_def newline_def lengthNL_def)
next
  case (3 f g fs)
  have f: "set f \<inter> {CHR '','', CHR 0x22, CHR 0x0A, CHR 0x0D} = {}" using 3 by (simp add: plain_field_def)
  let ?line = "Join (f # g # fs) '','' @ newline"
  have l: "?line = f @ CHR '','' # (Join (g # fs) '','' @ newline)" by simp
  have nc: "\<forall>c \<in> set f. not_char (CHR '','') c" using f by (auto simp: not_char_def)
  have td: "takeWhile (not_char (CHR '','')) ?line = f" "dropWhile (not_char (CHR '','')) ?line = CHR '','' # (Join (g # fs) '','' @ newline)"
    unfolding l using takeWhile_plain [of f "not_char (CHR '','')" "CHR '',''" "Join (g # fs) '','' @ newline", OF nc]
    by (simp_all add: not_char_def)
  have h: "hd ?line \<noteq> CHR 0x22" using f by (cases f) auto
  have "read_field ?line rest acc = read_field (Join (g # fs) '','' @ newline) rest (acc @ [f])"
    using h td f by (subst read_field.simps) (auto simp: Let_def)
  then show ?case using 3 by simp
qed simp

lemma split_lines_step:
  assumes "CHR 0x0A \<notin> set l" "CHR 0x0D \<notin> set l" "CHR 0x0D \<notin> set acc"
  shows "split_lines acc (l @ newline @ rest) = (acc @ l @ newline) # split_lines [] rest"
  using assms
proof (induction l arbitrary: acc)
  case Nil
  then show ?case by (cases acc rule: rev_cases) (auto simp: newline_def)
next
  case (Cons c l)
  then show ?case using Cons.IH [of "acc @ [c]"] by auto
qed

lemma Join_chars: "set (Join fs '','') \<subseteq> insert (CHR '','') (\<Union> (set ` set fs))"
  by (induction fs rule: induct_list012) auto

lemma Join_nonempty: "1 < length fs \<Longrightarrow> Join fs '','' \<noteq> []"
  by (induction fs rule: induct_list012) auto

text \<open>The writer's counterpart: plain records, one per line.\<close>

definition render_lines :: "string list list \<Rightarrow> string" where
  "render_lines recs = concat (map (\<lambda>fs. Join fs '','' @ newline) recs)"

lemma ReadAll_render:
  assumes "1 < n" "\<forall>fs \<in> set recs. length fs = n \<and> (\<forall>f \<in> set fs. plain_field f)"
  shows "ReadAll n (render_lines recs) = Some recs"
  using assms(2)
proof (induction recs)
  case Nil
  then show ?case by (simp add: ReadAll_def render_lines_def)
next
  case (Cons fs recs)
  let ?l = "Join fs '',''"
  have pl: "\<forall>f \<in> set fs. plain_field f" "length fs = n" using Cons by auto
  then have "CHR 0x0A \<notin> set ?l" "CHR 0x0D \<notin> set ?l" using Join_chars [of fs] by (auto simp: plain_field_def)
  then have s: "split_lines [] (render_lines (fs # recs)) = (?l @ newline) # split_lines [] (render_lines recs)"
    using split_lines_step [of ?l "[]" "render_lines recs"] by (simp add: render_lines_def)
  have ne: "?l \<noteq> []" "fs \<noteq> []" using Join_nonempty [of fs] pl(2) assms(1) by auto
  have "read_records n (split_lines [] (render_lines recs)) = Some recs" using Cons by (simp add: ReadAll_def)
  then show ?case using read_field_plain [OF ne(2) pl(1)] ne(1) pl(2)
    by (simp add: ReadAll_def s lengthNL_def newline_def)
qed

section \<open>Trimming a word\<close>

definition graphic :: "char \<Rightarrow> bool" where
  "graphic c \<longleftrightarrow> 33 \<le> (of_char c :: nat) \<and> (of_char c :: nat) \<le> 126"

lemma strip_front_none:
  assumes "s = [] \<or> graphic (hd s)" "\<forall>p \<in> set pats. p \<noteq> [] \<and> \<not> graphic (hd p)"
  shows "strip_front pats s = s"
proof -
  have "find (\<lambda>p. p \<noteq> [] \<and> starts_with s p) pats = None"
    using assms by (cases s) (auto simp: find_None_iff starts_with_def neq_Nil_conv)
  then show ?thesis by (subst strip_front.simps) simp
qed

lemma space_runes_ends: "list_all (\<lambda>p. p \<noteq> [] \<and> \<not> graphic (hd p) \<and> \<not> graphic (last p)) space_runes"
  by (simp add: space_runes_def graphic_def)

lemma TrimSpace_word:
  assumes "\<forall>c \<in> set s. graphic c"
  shows "TrimSpace s = s"
proof -
  have p: "\<forall>p \<in> set space_runes. p \<noteq> [] \<and> \<not> graphic (hd p)" "\<forall>p \<in> set (map rev space_runes). p \<noteq> [] \<and> \<not> graphic (hd p)"
    using space_runes_ends by (auto simp: list_all_iff hd_rev)
  have 1: "strip_front space_runes s = s" using assms by (intro strip_front_none p) (cases s, auto)
  have "strip_front (map rev space_runes) (rev s) = rev s"
    using assms by (intro strip_front_none p) (cases s rule: rev_cases, auto)
  then show ?thesis by (simp add: TrimSpace_def 1)
qed

end
