(* ===== verification/Settlement.thy ===== *)
theory Settlement
  imports Csv Fx "HOL-Library.Multiset" "HOL-Library.List_Lexorder" "HOL-Library.Char_ord"
begin

text \<open>
  Reconciliation without its database (internal/recon and internal/recon/breaks): settlement rows and
  files, the break taxonomy and its workflow, the simulator's file format (parser and generator),
  matching by provider reference and the classification of what does not agree.

  The time codec of a file (\<open>time.Parse\<close> and \<open>Format\<close> with the RFC 3339 layout), the SHA-256 of its
  bytes and the text of a \<open>uuid.UUID\<close> are parameters. Instants are nanoseconds.
\<close>

section \<open>Rows and files (settlement.go)\<close>

record Row =
  ro_ID :: nat
  ro_FileID :: uuid
  ro_LineNumber :: int
  ro_ProviderReference :: string
  ro_Gross :: Money
  ro_Fee :: Money
  ro_Net :: Money
  ro_SettlementCurrency :: currency
  ro_SettlementRateNano :: int64
  ro_Settled :: Money
  ro_SettledAt :: time
  ro_Raw :: string

definition HasFX :: "Row \<Rightarrow> bool" where
  "HasFX r \<longleftrightarrow> ro_SettlementCurrency r \<noteq> [] \<and> ro_SettlementCurrency r \<noteq> m_currency (ro_Gross r)
     \<and> sint (ro_SettlementRateNano r) > 0 \<and> IsValid (ro_Settled r)"

record File =
  f_ID :: uuid
  f_Provider :: string
  f_Filename :: string
  f_ContentSHA256 :: string
  f_PeriodStart :: time
  f_PeriodEnd :: time
  f_RowCount :: int
  f_IngestedAt :: time
  f_Rows :: "Row list"

definition Covers :: "File \<Rightarrow> time \<Rightarrow> bool" where
  "Covers f at \<longleftrightarrow> \<not> at < f_PeriodStart f \<and> at < f_PeriodEnd f"

section \<open>The taxonomy (breaks/taxonomy.go)\<close>

text \<open>\<open>Category\<close> and \<open>Status\<close> are string types; the last constructor is any other string.\<close>

datatype Category = MissingAtPSP | MissingInternally | AmountMismatch | FXDrift | FeeMismatch
  | TimingCutoff | DuplicateSettlement | CurrencyMismatch | OtherCategory string

fun category_string :: "Category \<Rightarrow> string" where
  "category_string MissingAtPSP = ''missing_at_psp''"
| "category_string MissingInternally = ''missing_internally''"
| "category_string AmountMismatch = ''amount_mismatch''"
| "category_string FXDrift = ''fx_drift''"
| "category_string FeeMismatch = ''fee_mismatch''"
| "category_string TimingCutoff = ''timing_cutoff''"
| "category_string DuplicateSettlement = ''duplicate_settlement''"
| "category_string CurrencyMismatch = ''currency_mismatch''"
| "category_string (OtherCategory s) = s"

definition All_categories :: "Category list" where
  "All_categories = [DuplicateSettlement, CurrencyMismatch, FXDrift, FeeMismatch, AmountMismatch, TimingCutoff,
     MissingInternally, MissingAtPSP]"

definition Category_Validate :: "Category \<Rightarrow> unit result" where
  "Category_Validate c = assert_err (c \<in> set All_categories) (ErrOther ''unknown reconciliation break category'')"

definition AutoResolvable :: "Category \<Rightarrow> bool" where
  "AutoResolvable c \<longleftrightarrow> c = FXDrift \<or> c = TimingCutoff"

datatype BreakStatus = StatusOpen | StatusInvestigating | StatusResolved | StatusWrittenOff | OtherBreakStatus string

definition BreakStatus_IsTerminal :: "BreakStatus \<Rightarrow> bool" where
  "BreakStatus_IsTerminal s \<longleftrightarrow> s = StatusResolved \<or> s = StatusWrittenOff"

definition break_transitions :: "(BreakStatus \<times> BreakStatus list) list" where
  "break_transitions =
     [(StatusOpen, [StatusInvestigating, StatusResolved, StatusWrittenOff]),
      (StatusInvestigating, [StatusResolved, StatusWrittenOff])]"

definition Break_CanTransitionTo :: "BreakStatus \<Rightarrow> BreakStatus \<Rightarrow> bool" where
  "Break_CanTransitionTo s target =
     (case map_of break_transitions s of None \<Rightarrow> False | Some allowed \<Rightarrow> list_ex (\<lambda>a. a = target) allowed)"

record Resolution =
  rsl_Status :: BreakStatus
  rsl_Actor :: string
  rsl_Note :: string
  rsl_At :: time

definition Resolution_Validate :: "Resolution \<Rightarrow> unit result" where
  "Resolution_Validate r =
     (if \<not> BreakStatus_IsTerminal (rsl_Status r) \<and> rsl_Status r \<noteq> StatusInvestigating then Inl (ErrOther ''unknown resolution status'')
      else if BreakStatus_IsTerminal (rsl_Status r) \<and> rsl_Actor r = [] then Inl (ErrOther ''resolving a break requires an actor'')
      else if BreakStatus_IsTerminal (rsl_Status r) \<and> rsl_Note r = [] then Inl (ErrOther ''resolving a break requires a reason'')
      else Inr ())"

section \<open>The simulator's file format (parser.go)\<close>

record codec =
  co_parseTime :: "string \<Rightarrow> time option"
  co_formatTime :: "time \<Rightarrow> string"
  co_sha256 :: "string \<Rightarrow> string"
  co_uuidString :: "uuid \<Rightarrow> string"

definition simulatorColumns :: nat where
  "simulatorColumns = 9"

definition parse_amount :: "currency \<Rightarrow> string \<Rightarrow> Money result" where
  "parse_amount cur raw =
     (case ParseInt64 (TrimSpace raw) of
        None \<Rightarrow> Inl ErrMalformedFile
      | Some minorUnits \<Rightarrow> (case Money_New (word_of_int minorUnits) cur of Inl _ \<Rightarrow> Inl ErrMalformedFile | Inr m \<Rightarrow> Inr m))"

definition no_money :: Money where
  "no_money = mk_money 0 []"

text \<open>The last part of \<open>parseRow\<close>: the three conversion columns.\<close>

definition parse_fx :: "string list \<Rightarrow> Row \<Rightarrow> Row result" where
  "parse_fx rec row =
     (let settlementCurrency = TrimSpace (rec ! 6); rawRate = TrimSpace (rec ! 7); rawSettled = TrimSpace (rec ! 8);
          present = length (filter (\<lambda>s. s \<noteq> []) [settlementCurrency, rawRate, rawSettled])
      in if present \<noteq> 0 \<and> present \<noteq> 3 then Inl ErrMalformedFile
         else if present = 3 then
           (if \<not> is_ok (Currency_Validate settlementCurrency) then Inl ErrMalformedFile
            else case ParseInt64 rawRate of
              None \<Rightarrow> Inl ErrMalformedFile
            | Some rate \<Rightarrow>
                if rate \<le> 0 then Inl ErrMalformedFile
                else ebind (parse_amount settlementCurrency rawSettled) (\<lambda>settled.
                  Inr (row\<lparr>ro_Settled := settled, ro_SettlementCurrency := settlementCurrency,
                    ro_SettlementRateNano := word_of_int rate\<rparr>)))
         else Inr row)"

definition parseRow :: "codec \<Rightarrow> string list \<Rightarrow> int \<Rightarrow> Row result" where
  "parseRow co rec line =
     (if length rec < simulatorColumns then Inl (GoPanic ''index out of range'') else
      let cur = TrimSpace (rec ! 4) in
      if \<not> is_ok (Currency_Validate cur) then Inl ErrMalformedFile
      else
        ebind (parse_amount cur (rec ! 1)) (\<lambda>gross.
        ebind (parse_amount cur (rec ! 2)) (\<lambda>fee.
        ebind (parse_amount cur (rec ! 3)) (\<lambda>net.
        case co_parseTime co (TrimSpace (rec ! 5)) of
          None \<Rightarrow> Inl ErrMalformedFile
        | Some settledAt \<Rightarrow>
            let row = \<lparr>ro_ID = 0, ro_FileID = 0, ro_LineNumber = line, ro_ProviderReference = TrimSpace (rec ! 0),
                 ro_Gross = gross, ro_Fee = fee, ro_Net = net, ro_SettlementCurrency = [], ro_SettlementRateNano = 0,
                 ro_Settled = no_money, ro_SettledAt = settledAt, ro_Raw = Join rec '',''\<rparr>
            in if ro_ProviderReference row = [] then Inl ErrMalformedFile else parse_fx rec row))))"

definition second :: time where
  "second = 1000000000"

definition windowFor :: "time \<Rightarrow> Row list \<Rightarrow> time \<times> time" where
  "windowFor now rows =
     (case rows of
        [] \<Rightarrow> (now, now + second)
      | r # rs \<Rightarrow>
          let (start, end') = fold (\<lambda>row (s, e). (if ro_SettledAt row < s then ro_SettledAt row else s,
                                                  if ro_SettledAt row > e then ro_SettledAt row else e))
                                   rs (ro_SettledAt r, ro_SettledAt r)
          in (start, end' + second))"

text \<open>The loop of \<open>Parse\<close>; \<open>i\<close> is the index of the record.\<close>

fun parse_rows :: "codec \<Rightarrow> nat \<Rightarrow> string list list \<Rightarrow> Row list result" where
  "parse_rows co i [] = Inr []"
| "parse_rows co i (rec # recs) =
     (if i = 0 \<and> rec \<noteq> [] \<and> EqualFold (TrimSpace (hd rec)) ''reference'' then parse_rows co (Suc i) recs
      else ebind (parseRow co rec (int i + 1)) (\<lambda>row.
           ebind (parse_rows co (Suc i) recs) (\<lambda>rows. Inr (row # rows))))"

definition Parse :: "codec \<Rightarrow> time \<Rightarrow> string \<Rightarrow> string \<Rightarrow> File result" where
  "Parse co now name input =
     (case ReadAll simulatorColumns input of
        None \<Rightarrow> Inl ErrMalformedFile
      | Some recs \<Rightarrow>
          if recs = [] then Inl ErrMalformedFile
          else ebind (parse_rows co 0 recs) (\<lambda>rows.
            let (start, end') = windowFor now rows in
            Inr \<lparr>f_ID = 0, f_Provider = name, f_Filename = [], f_ContentSHA256 = co_sha256 co input, f_PeriodStart = start,
              f_PeriodEnd = end', f_RowCount = int (length rows), f_IngestedAt = 0, f_Rows = rows\<rparr>))"

section \<open>Matching (matcher.go)\<close>

record LedgerRecord =
  lr_TransactionID :: uuid
  lr_MerchantID :: string
  lr_ProviderReference :: string
  lr_Captured :: Money
  lr_Fee :: Money
  lr_CapturedAt :: time

definition LedgerRecord_Net :: "LedgerRecord \<Rightarrow> Money result" where
  "LedgerRecord_Net r = Money_Sub (lr_Captured r) (lr_Fee r)"

record MatchResult =
  mr_Matched :: "(Row \<times> LedgerRecord) list"
  mr_UnmatchedRows :: "Row list"
  mr_UnmatchedRecords :: "LedgerRecord list"
  mr_DuplicateRows :: "Row list"

definition by_reference :: "LedgerRecord list \<Rightarrow> string \<rightharpoonup> LedgerRecord" where
  "by_reference records =
     fold (\<lambda>r m. if lr_ProviderReference r \<noteq> [] then m(lr_ProviderReference r \<mapsto> r) else m) records Map.empty"

text \<open>The loop over the rows, with the maps \<open>seen\<close> and \<open>matchedRefs\<close> as lists of their keys.\<close>

fun match_loop :: "(string \<rightharpoonup> LedgerRecord) \<Rightarrow> Row list \<Rightarrow> string list \<Rightarrow> string list \<Rightarrow> MatchResult \<Rightarrow> string list \<times> MatchResult" where
  "match_loop byRef [] seen matchedRefs res = (matchedRefs, res)"
| "match_loop byRef (row # rows) seen matchedRefs res =
     (let ref = ro_ProviderReference row in
      if ref \<in> set seen
      then match_loop byRef rows seen matchedRefs (res\<lparr>mr_DuplicateRows := mr_DuplicateRows res @ [row]\<rparr>)
      else case byRef ref of
        None \<Rightarrow> match_loop byRef rows (ref # seen) matchedRefs (res\<lparr>mr_UnmatchedRows := mr_UnmatchedRows res @ [row]\<rparr>)
      | Some rcd \<Rightarrow> match_loop byRef rows (ref # seen) (ref # matchedRefs)
          (res\<lparr>mr_Matched := mr_Matched res @ [(row, rcd)]\<rparr>))"

definition Match :: "Row list \<Rightarrow> LedgerRecord list \<Rightarrow> MatchResult" where
  "Match rows records =
     (case match_loop (by_reference records) rows [] []
         \<lparr>mr_Matched = [], mr_UnmatchedRows = [], mr_UnmatchedRecords = [], mr_DuplicateRows = []\<rparr> of
        (matchedRefs, res) \<Rightarrow>
          res\<lparr>mr_UnmatchedRecords :=
            filter (\<lambda>r. lr_ProviderReference r = [] \<or> lr_ProviderReference r \<notin> set matchedRefs) records\<rparr>)"

section \<open>Classification (classifier.go, classify_unmatched.go)\<close>

record Break =
  bk_Category :: Category
  bk_MatchKey :: string
  bk_TransactionID :: "uuid option"
  bk_SettlementRowID :: "nat option"
  bk_Expected :: "Money option"
  bk_Actual :: "Money option"
  bk_Delta :: "Money option"
  bk_Detail :: string

record Tolerances =
  to_FXDriftBps :: int64
  to_TimingWindowFiles :: int

definition DefaultTolerances :: Tolerances where
  "DefaultTolerances = \<lparr>to_FXDriftBps = 50, to_TimingWindowFiles = 1\<rparr>"

definition absMinor :: "Money \<Rightarrow> int64" where
  "absMinor m = (if minor m < 0 then - m_amount m else m_amount m)"

definition pair_break :: "Category \<Rightarrow> Row \<Rightarrow> LedgerRecord \<Rightarrow> Money option \<Rightarrow> Money option \<Rightarrow> Money option \<Rightarrow> string \<Rightarrow> Break" where
  "pair_break cat row rcd expected actual delta detail =
     \<lparr>bk_Category = cat, bk_MatchKey = ro_ProviderReference row, bk_TransactionID = Some (lr_TransactionID rcd),
      bk_SettlementRowID = Some (ro_ID row), bk_Expected = expected, bk_Actual = actual, bk_Delta = delta, bk_Detail = detail\<rparr>"

definition classifyConverted :: "Tolerances \<Rightarrow> Row \<Rightarrow> LedgerRecord \<Rightarrow> Lock \<Rightarrow> Break option result" where
  "classifyConverted tol row rcd lock =
     ebind (NewRate (m_currency (lr_Captured rcd)) (ro_SettlementCurrency row) (ro_SettlementRateNano row) ''settlement''
         (ro_SettledAt row)) (\<lambda>settlementRate.
     ebind (Rate_Convert settlementRate (lr_Captured rcd)) (\<lambda>implied.
     ebind (Money_Sub (ro_Settled row) implied) (\<lambda>residual.
     ebind (MulRatio implied (to_FXDriftBps tol) 10000) (\<lambda>tolerance.
     if sint (absMinor residual) > sint (absMinor tolerance)
     then Inr (Some (pair_break AmountMismatch row rcd (Some implied) (Some (ro_Settled row)) (Some residual)
       (''settled '' @ Money_String (ro_Settled row) @ '', but rate '' @ show_int (sint (ro_SettlementRateNano row))
         @ '' nano on '' @ Money_String (lr_Captured rcd) @ '' implies '' @ Money_String implied)))
     else
       ebind (Rate_Convert (l_Rate lock) (lr_Captured rcd)) (\<lambda>atLocked.
       ebind (Money_Sub (ro_Settled row) atLocked) (\<lambda>drift.
       if IsZero drift then Inr None
       else Inr (Some (pair_break FXDrift row rcd (Some atLocked) (Some (ro_Settled row)) (Some drift)
         (''settled at '' @ show_int (sint (ro_SettlementRateNano row)) @ '' nano against locked ''
           @ show_int (sint (r_Nano (l_Rate lock))) @ '' nano'')))))))))"

definition ClassifyPair :: "Tolerances \<Rightarrow> Row \<Rightarrow> LedgerRecord \<Rightarrow> Lock option \<Rightarrow> Break option result" where
  "ClassifyPair tol row rcd lock =
     (if m_currency (ro_Gross row) \<noteq> m_currency (lr_Captured rcd)
      then Inr (Some (pair_break CurrencyMismatch row rcd None None None
        (''settled in '' @ m_currency (ro_Gross row) @ '', captured in '' @ m_currency (lr_Captured rcd))))
      else if HasFX row \<and> lock \<noteq> None then classifyConverted tol row rcd (the lock)
      else ebind (Money_Sub (ro_Gross row) (lr_Captured rcd)) (\<lambda>grossDelta.
        if IsZero grossDelta then
          ebind (LedgerRecord_Net rcd) (\<lambda>expectedNet.
          ebind (Money_Sub (ro_Net row) expectedNet) (\<lambda>netDelta.
          if IsZero netDelta then Inr None
          else Inr (Some (pair_break FeeMismatch row rcd (Some expectedNet) (Some (ro_Net row)) (Some netDelta)
            (''provider kept '' @ Money_String (ro_Fee row) @ '', schedule says '' @ Money_String (lr_Fee rcd))))))
        else Inr (Some (pair_break AmountMismatch row rcd (Some (lr_Captured rcd)) (Some (ro_Gross row)) (Some grossDelta)
          (''settled '' @ Money_String (ro_Gross row) @ '' against captured '' @ Money_String (lr_Captured rcd))))))"

definition ClassifyDuplicate :: "Row \<Rightarrow> Break" where
  "ClassifyDuplicate row =
     \<lparr>bk_Category = DuplicateSettlement, bk_MatchKey = ro_ProviderReference row @ ''#'' @ show_int (ro_LineNumber row),
      bk_TransactionID = None, bk_SettlementRowID = Some (ro_ID row), bk_Expected = None, bk_Actual = Some (ro_Gross row),
      bk_Delta = None,
      bk_Detail = ''reference '' @ ro_ProviderReference row @ '' settled again on line '' @ show_int (ro_LineNumber row)\<rparr>"

definition ClassifyUnmatchedRow :: "Row \<Rightarrow> Break" where
  "ClassifyUnmatchedRow row =
     \<lparr>bk_Category = MissingInternally, bk_MatchKey = ro_ProviderReference row, bk_TransactionID = None,
      bk_SettlementRowID = Some (ro_ID row), bk_Expected = None, bk_Actual = Some (ro_Gross row), bk_Delta = None,
      bk_Detail = ''settled '' @ Money_String (ro_Gross row) @ '' with no matching capture''\<rparr>"

definition ClassifyUnmatchedRecord :: "codec \<Rightarrow> LedgerRecord \<Rightarrow> File \<Rightarrow> Break" where
  "ClassifyUnmatchedRecord co rcd file =
     (let txID = lr_TransactionID rcd in
      if \<not> Covers file (lr_CapturedAt rcd) then
        \<lparr>bk_Category = TimingCutoff, bk_MatchKey = co_uuidString co txID, bk_TransactionID = Some txID,
         bk_SettlementRowID = None, bk_Expected = Some (lr_Captured rcd), bk_Actual = None, bk_Delta = None,
         bk_Detail = ''captured '' @ co_formatTime co (lr_CapturedAt rcd) @ '', outside the file window ''
           @ co_formatTime co (f_PeriodStart file) @ '' to '' @ co_formatTime co (f_PeriodEnd file)\<rparr>
      else
        \<lparr>bk_Category = MissingAtPSP, bk_MatchKey = co_uuidString co txID, bk_TransactionID = Some txID,
         bk_SettlementRowID = None, bk_Expected = Some (lr_Captured rcd), bk_Actual = None, bk_Delta = None,
         bk_Detail = ''captured '' @ Money_String (lr_Captured rcd) @ '' inside the window with no settlement row''\<rparr>)"

section \<open>The generator (generator.go)\<close>

record Defect =
  df_Category :: Category
  df_Reference :: string

record GeneratorInput =
  gi_Provider :: string
  gi_Records :: "LedgerRecord list"
  gi_Defects :: "Defect list"
  gi_SettledAt :: time

definition convertForSettlement :: "time \<Rightarrow> LedgerRecord \<Rightarrow> int64 \<Rightarrow> int64 result" where
  "convertForSettlement now rcd rateNano =
     ebind (NewRate (m_currency (lr_Captured rcd)) ''USD'' rateNano ''generated'' now) (\<lambda>rate.
     ebind (Rate_Convert rate (lr_Captured rcd)) (\<lambda>converted. Inr (m_amount converted)))"

definition omittedCategory :: "Defect list \<Rightarrow> Category option" where
  "omittedCategory defects =
     map_option df_Category (find (\<lambda>d. df_Category d = MissingAtPSP \<or> df_Category d = TimingCutoff) defects)"

definition hasCategory :: "Defect list \<Rightarrow> Category \<Rightarrow> bool" where
  "hasCategory defects want \<longleftrightarrow> list_ex (\<lambda>d. df_Category d = want) defects"

text \<open>The variables of \<open>renderRow\<close> and its loop over the defects.\<close>

record rendering =
  rd_gross :: int64
  rd_fee :: int64
  rd_currency :: currency
  rd_settlementCurrency :: currency
  rd_rateNano :: int64
  rd_settled :: int64
  rd_applied :: "Defect list"

fun render_defects :: "time \<Rightarrow> LedgerRecord \<Rightarrow> Defect list \<Rightarrow> rendering \<Rightarrow> rendering result" where
  "render_defects now rcd [] v = Inr v"
| "render_defects now rcd (d # ds) v =
     (let v' = v\<lparr>rd_applied := rd_applied v @ [d]\<rparr> in
      case df_Category d of
        AmountMismatch \<Rightarrow> render_defects now rcd ds (v'\<lparr>rd_gross := rd_gross v + 777\<rparr>)
      | FeeMismatch \<Rightarrow> render_defects now rcd ds (v'\<lparr>rd_fee := rd_fee v + 45\<rparr>)
      | CurrencyMismatch \<Rightarrow> render_defects now rcd ds (v'\<lparr>rd_currency := ''GBP''\<rparr>)
      | FXDrift \<Rightarrow> ebind (convertForSettlement now rcd 1090000000) (\<lambda>converted.
          render_defects now rcd ds (v'\<lparr>rd_settlementCurrency := ''USD'', rd_rateNano := 1090000000, rd_settled := converted\<rparr>))
      | OtherCategory _ \<Rightarrow> Inl (ErrOther ''generator does not implement defect'')
      | _ \<Rightarrow> render_defects now rcd ds v)"

definition row_fields :: "codec \<Rightarrow> LedgerRecord \<Rightarrow> time \<Rightarrow> rendering \<Rightarrow> string list" where
  "row_fields co rcd settledAt v =
     (let fx = rd_settlementCurrency v \<noteq> [] in
      [lr_ProviderReference rcd, show_int (sint (rd_gross v)), show_int (sint (rd_fee v)),
       show_int (sint (rd_gross v - rd_fee v)), rd_currency v, co_formatTime co settledAt, rd_settlementCurrency v,
       if fx then show_int (sint (rd_rateNano v)) else [], if fx then show_int (sint (rd_settled v)) else []])"

definition renderRow :: "codec \<Rightarrow> time \<Rightarrow> LedgerRecord \<Rightarrow> Defect list \<Rightarrow> time \<Rightarrow> (string \<times> Defect list) result" where
  "renderRow co now rcd defects settledAt =
     ebind (render_defects now rcd defects
        \<lparr>rd_gross = m_amount (lr_Captured rcd), rd_fee = m_amount (lr_Fee rcd), rd_currency = m_currency (lr_Captured rcd),
         rd_settlementCurrency = [], rd_rateNano = 0, rd_settled = 0, rd_applied = []\<rparr>) (\<lambda>v.
     Inr (Join (row_fields co rcd settledAt v) '','', rd_applied v))"

definition header_fields :: "string list" where
  "header_fields = [''reference'', ''gross_minor'', ''fee_minor'', ''net_minor'', ''currency'', ''settled_at'',
     ''settlement_currency'', ''settlement_rate_nano'', ''settled_minor'']"

text \<open>The two loops of \<open>Generate\<close>: over the records, and over the defects with no reference.\<close>

fun generate_records :: "codec \<Rightarrow> time \<Rightarrow> GeneratorInput \<Rightarrow> LedgerRecord list \<Rightarrow> string list \<Rightarrow> Defect list \<Rightarrow> (string list \<times> Defect list) result" where
  "generate_records co now inp [] lines applied = Inr (lines, applied)"
| "generate_records co now inp (rcd # rcds) lines applied =
     (let ref = lr_ProviderReference rcd;
          defects = filter (\<lambda>d. df_Reference d \<noteq> [] \<and> df_Reference d = ref) (gi_Defects inp)
      in case omittedCategory defects of
        Some omitted \<Rightarrow> generate_records co now inp rcds lines (applied @ [\<lparr>df_Category = omitted, df_Reference = ref\<rparr>])
      | None \<Rightarrow>
          ebind (renderRow co now rcd defects (gi_SettledAt inp)) (\<lambda>(line, extra).
          if hasCategory defects DuplicateSettlement
          then generate_records co now inp rcds (lines @ [line, line])
            (applied @ extra @ [\<lparr>df_Category = DuplicateSettlement, df_Reference = ref\<rparr>])
          else generate_records co now inp rcds (lines @ [line]) (applied @ extra)))"

definition phantom_fields :: "codec \<Rightarrow> time \<Rightarrow> nat \<Rightarrow> string list" where
  "phantom_fields co settledAt i =
     [''ch_phantom_'' @ show_nat i, ''4200'', ''130'', ''4070'', ''USD'', co_formatTime co settledAt, [], [], []]"

fun generate_phantoms :: "codec \<Rightarrow> time \<Rightarrow> nat \<Rightarrow> Defect list \<Rightarrow> string list \<Rightarrow> Defect list \<Rightarrow> (string list \<times> Defect list) result" where
  "generate_phantoms co settledAt i [] lines applied = Inr (lines, applied)"
| "generate_phantoms co settledAt i (d # ds) lines applied =
     (if df_Category d \<noteq> MissingInternally then Inl (ErrOther ''defect requires a reference'')
      else generate_phantoms co settledAt (Suc i) ds (lines @ [Join (phantom_fields co settledAt i) '',''])
        (applied @ [\<lparr>df_Category = MissingInternally, df_Reference = ''ch_phantom_'' @ show_nat i\<rparr>]))"

definition Generate :: "codec \<Rightarrow> time \<Rightarrow> GeneratorInput \<Rightarrow> (string \<times> Defect list) result" where
  "Generate co now inp =
     ebind (generate_records co now inp (gi_Records inp) [Join header_fields '',''] []) (\<lambda>(lines, applied).
     ebind (generate_phantoms co (gi_SettledAt inp) 0 (filter (\<lambda>d. df_Reference d = []) (gi_Defects inp)) lines applied)
       (\<lambda>(lines, applied).
     Inr (Join lines newline @ newline, sort_key (category_string \<circ> df_Category) applied)))"

end
