(* ===== verification/Database.thy ===== *)
theory Database
  imports Transaction Ledger Fee Fx Psp Settlement
begin

text \<open>
  The physical databases and the way the code reaches them: the tables a component uses (rows in
  insertion order, from src/migrations), transactions (postgres.go, \<open>DB.WithTx\<close>) and routing
  (router.go). A transaction body works on the caller's variables and the database; it commits
  as a whole, subject to the deferred balance trigger of migration 2, or leaves the database as
  it was. PostgreSQL runs the transactions of one database one at a time here: the code takes row
  or advisory locks where it reads and then writes.

  What the code cannot control is the schedule of the world: before each access other processes
  may act on the databases, and the access itself may fail before it starts, fail at commit, or
  commit with the acknowledgement lost. One element of \<open>w_sched\<close> is consumed by each access.
  \<open>w_calls\<close> is the history of calls to the payment provider, the oldest first.
\<close>

section \<open>Tables\<close>

definition tfind :: "('r \<Rightarrow> bool) \<Rightarrow> 'r list \<Rightarrow> 'r option" where
  "tfind P rows = find P rows"

definition tupdate :: "('r \<Rightarrow> bool) \<Rightarrow> ('r \<Rightarrow> 'r) \<Rightarrow> 'r list \<Rightarrow> 'r list" where
  "tupdate P f rows = map (\<lambda>r. if P r then f r else r) rows"

record JournalRow =
  je_ID :: uuid
  je_TransactionID :: "uuid option"
  je_ShardKey :: string
  je_Description :: string
  je_OccurredAt :: time

record PostingRow =
  pr_EntryID :: uuid
  pr_Posting :: Posting

record StateChange =
  sc_TransactionID :: uuid
  sc_From :: "State option"
  sc_To :: State
  sc_Reason :: string
  sc_Actor :: string
  sc_SourceIP :: string

datatype OutboxStatus = OutboxPending | OutboxPublished | OutboxFailed

text \<open>A message body is JSON in the code; the constructors are the documents the code writes, and
  \<open>RawPayload\<close> is any other byte string.\<close>

datatype Payload = AuthorizeRequested uuid string | WebhookReceived nat string string | RawPayload string

record OutboxRow =
  ob_ID :: nat
  ob_EventID :: uuid
  ob_AggregateID :: uuid
  ob_PartitionKey :: string
  ob_Topic :: string
  ob_Payload :: Payload
  ob_Status :: OutboxStatus
  ob_Attempts :: int
  ob_AvailableAt :: time

datatype IdemState = StateInFlight | StateCompleted | StateIdemFailed

record IdemRecord =
  i_MerchantID :: string
  i_Key :: string
  i_Fingerprint :: string
  i_State :: IdemState
  i_ResponseStatus :: int
  i_ResponseBody :: string
  i_ClaimToken :: uuid
  i_LockedAt :: time
  i_ExpiresAt :: time

datatype TccState = StateTrying | StateConfirming | StateConfirmed | StateCancelling | StateTccCancelled

datatype Role = RoleSource | RoleDestination

datatype ReservationState = ReservationReserved | ReservationConfirmed | ReservationCancelled

record Transfer =
  x_ID :: uuid
  x_State :: TccState
  x_SourceMerchant :: string
  x_SourceShardKey :: string
  x_DestMerchant :: string
  x_DestShardKey :: string
  x_Amount :: Money
  x_IdempotencyKey :: string
  x_TimeoutAt :: time
  x_Attempts :: int
  x_LastError :: "gerror option"
  x_CreatedAt :: time
  x_ResolvedAt :: "time option"

record Reservation =
  rv_ID :: uuid
  rv_TransferID :: uuid
  rv_Role :: Role
  rv_MerchantID :: string
  rv_ShardKey :: string
  rv_Amount :: Money
  rv_State :: ReservationState
  rv_EntryID :: "uuid option"
  rv_ExpiresAt :: time

datatype WebhookOutcome = OutcomeReceived | OutcomeApplied | OutcomeSuperseded | OutcomeRejected
  | OutcomeIgnored | OutcomeUnmatched

record RawEvent =
  re_ID :: nat
  re_Provider :: string
  re_ProviderEventID :: string
  re_Payload :: string
  re_Signature :: string
  re_Sequence :: int
  re_OccurredAt :: time
  re_Reference :: string
  re_TransactionID :: uuid
  re_Status :: WebhookOutcome
  re_Note :: string
  re_ReceivedAt :: time

record RateRow =
  fr_Base :: currency
  fr_Quote :: currency
  fr_Nano :: int64
  fr_Source :: string
  fr_ValidFrom :: time
  fr_ValidTo :: "time option"

text \<open>A settlement row with its nullable columns.\<close>

record SettlementRow =
  sr_ID :: nat
  sr_FileID :: uuid
  sr_LineNumber :: int
  sr_ProviderReference :: string
  sr_GrossMinor :: int64
  sr_FeeMinor :: int64
  sr_NetMinor :: int64
  sr_Currency :: currency
  sr_SettlementCurrency :: "currency option"
  sr_SettlementRateNano :: "int64 option"
  sr_SettledMinor :: "int64 option"
  sr_SettledAt :: time
  sr_Raw :: string

record ReconRun =
  rr_ID :: uuid
  rr_FileID :: uuid
  rr_Actor :: string
  rr_Matched :: int
  rr_Breaks :: int
  rr_FinishedAt :: "time option"

record BreakRow =
  br_ID :: uuid
  br_RunID :: uuid
  br_FileID :: uuid
  br_Category :: Category
  br_MatchKey :: string
  br_TransactionID :: "uuid option"
  br_SettlementRowID :: "nat option"
  br_ExpectedMinor :: "int64 option"
  br_ActualMinor :: "int64 option"
  br_DeltaMinor :: "int64 option"
  br_Currency :: "currency option"
  br_Detail :: string
  br_Status :: BreakStatus
  br_Note :: "string option"
  br_ResolvedBy :: "string option"
  br_ResolvedAt :: "time option"
  br_AdjustmentEntryID :: "uuid option"

record KeyRow =
  kr_ID :: uuid
  kr_MerchantID :: string
  kr_Public :: string
  kr_Hash :: string
  kr_Name :: string
  kr_CreatedAt :: time
  kr_LastUsedAt :: "time option"
  kr_RevokedAt :: "time option"

text \<open>\<open>db_nextid\<close> is the supply behind \<open>gen_random_uuid()\<close> and identity columns: every value is new.\<close>

record db =
  db_accounts :: "Account list"
  db_entries :: "JournalRow list"
  db_postings :: "PostingRow list"
  db_payments :: "Transaction list"
  db_changes :: "StateChange list"
  db_outbox :: "OutboxRow list"
  db_processed :: "(uuid \<times> string) list"
  db_idem :: "IdemRecord list"
  db_fees :: "Schedule list"
  db_transfers :: "Transfer list"
  db_reservations :: "Reservation list"
  db_webhooks :: "RawEvent list"
  db_rates :: "RateRow list"
  db_locks :: "Lock list"
  db_files :: "File list"
  db_rows :: "SettlementRow list"
  db_runs :: "ReconRun list"
  db_breaks :: "BreakRow list"
  db_keys :: "KeyRow list"
  db_nextid :: uuid

definition empty_db :: db where
  "empty_db = \<lparr>db_accounts = [], db_entries = [], db_postings = [], db_payments = [], db_changes = [],
     db_outbox = [], db_processed = [], db_idem = [], db_fees = [], db_transfers = [],
     db_reservations = [], db_webhooks = [], db_rates = [], db_locks = [], db_files = [], db_rows = [], db_runs = [],
     db_breaks = [], db_keys = [], db_nextid = 1\<rparr>"

section \<open>Transactions (postgres.go)\<close>

definition entry_postings :: "db \<Rightarrow> uuid \<Rightarrow> Posting list" where
  "entry_postings d e = map pr_Posting (filter (\<lambda>r. pr_EntryID r = e) (db_postings d))"

definition assert_journal_entry_balances :: "db \<Rightarrow> JournalRow \<Rightarrow> bool" where
  "assert_journal_entry_balances d e =
     (let ps = entry_postings d (je_ID e) in
      ps \<noteq> [] \<and> list_all (\<lambda>c. posting_net c ps = 0) (map (m_currency \<circ> p_Amount) ps))"

definition commit_check :: "db \<Rightarrow> db \<Rightarrow> unit result" where
  "commit_check d d' =
     assert_err (list_all (assert_journal_entry_balances d') (drop (length (db_entries d)) (db_entries d')))
       (ErrConstraint ''journal entry does not balance'')"

datatype tx_fault = TxOk | TxBeginFails | TxCommitFails | TxCommitLost

type_synonym 's body = "'s \<Rightarrow> db \<Rightarrow> 's \<times> db result"

definition body_seq :: "'s body \<Rightarrow> 's body \<Rightarrow> 's body" where
  "body_seq b1 b2 = (\<lambda>s d. case b1 s d of (s1, Inl e) \<Rightarrow> (s1, Inl e) | (s1, Inr d1) \<Rightarrow> b2 s1 d1)"

definition DB_WithTx :: "tx_fault \<Rightarrow> 's body \<Rightarrow> 's \<Rightarrow> db \<Rightarrow> 's \<times> unit result \<times> db" where
  "DB_WithTx f body s d =
     (if f = TxBeginFails then (s, Inl (ErrInfra ''begin transaction''), d)
      else case body s d of
        (s', Inl e) \<Rightarrow> (s', Inl e, d)
      | (s', Inr d') \<Rightarrow>
          (case commit_check d d' of
             Inl e \<Rightarrow> (s', Inl e, d)
           | Inr _ \<Rightarrow>
               if f = TxCommitFails then (s', Inl (ErrInfra ''commit transaction''), d)
               else if f = TxCommitLost then (s', Inl (ErrInfra ''commit transaction''), d')
               else (s', Inr (), d')))"

section \<open>Routing (router.go)\<close>

record world =
  w_dbs :: "db list"
  w_sched :: "(tx_fault \<times> (db list \<Rightarrow> db list)) list"
  w_calls :: "ProviderCall list"

definition turn :: "world \<Rightarrow> tx_fault \<times> world" where
  "turn w =
     (case w_sched w of
        [] \<Rightarrow> (TxOk, w)
      | (f, env) # rest \<Rightarrow> (f, w\<lparr>w_dbs := env (w_dbs w), w_sched := rest\<rparr>))"

text \<open>The databases as the next access of the process finds them, after whatever others did before it.\<close>

definition seen :: "world \<Rightarrow> db list" where
  "seen w = w_dbs (snd (turn w))"

definition Shard :: "Mapping \<Rightarrow> string \<Rightarrow> nat result" where
  "Shard m shardKey = Resolve m shardKey"

definition tx_at :: "nat \<Rightarrow> 's body \<Rightarrow> 's \<Rightarrow> world \<Rightarrow> 's \<times> unit result \<times> world" where
  "tx_at p body s w =
     (case turn w of (f, w1) \<Rightarrow>
        if length (w_dbs w1) \<le> p then (s, Inl (GoPanic ''index out of range''), w1)
        else case DB_WithTx f body s (w_dbs w1 ! p) of
          (s', r, d') \<Rightarrow> (s', r, w1\<lparr>w_dbs := (w_dbs w1)[p := d']\<rparr>))"

definition Router_WithTx :: "Mapping \<Rightarrow> string \<Rightarrow> 's body \<Rightarrow> 's \<Rightarrow> world \<Rightarrow> 's \<times> unit result \<times> world" where
  "Router_WithTx m shardKey body s w =
     (case Shard m shardKey of Inl e \<Rightarrow> (s, Inl e, w) | Inr p \<Rightarrow> tx_at p body s w)"

text \<open>\<open>Global()\<close> is physical database 0. A read on a pool needs no transaction; it can only fail.\<close>

definition Global :: nat where
  "Global = 0"

definition query_at :: "nat \<Rightarrow> (db \<Rightarrow> 'a result) \<Rightarrow> world \<Rightarrow> 'a result \<times> world" where
  "query_at p q w =
     (case turn w of (f, w1) \<Rightarrow>
        if length (w_dbs w1) \<le> p then (Inl (GoPanic ''index out of range''), w1)
        else if f = TxOk then (q (w_dbs w1 ! p), w1)
        else (Inl (ErrInfra ''query''), w1))"

section \<open>Lookup after update\<close>

lemma tfind_Some_iff_exists: "(\<exists>r. tfind P rows = Some r) \<longleftrightarrow> (\<exists>r \<in> set rows. P r)"
  unfolding tfind_def by (induction rows) auto

lemma tfind_SomeD: "tfind P rows = Some r \<Longrightarrow> r \<in> set rows \<and> P r"
  unfolding tfind_def by (auto simp: find_Some_iff)

lemma tfind_None_iff: "tfind P rows = None \<longleftrightarrow> (\<forall>r \<in> set rows. \<not> P r)"
  unfolding tfind_def by (auto simp: find_None_iff)

lemma tfind_append:
  "tfind P (xs @ ys) = (case tfind P xs of Some r \<Rightarrow> Some r | None \<Rightarrow> tfind P ys)"
  unfolding tfind_def by (induction xs) auto

lemma tfind_Cons [simp]: "tfind P (x # xs) = (if P x then Some x else tfind P xs)"
  by (simp add: tfind_def)

lemma tfind_Nil [simp]: "tfind P [] = None"
  by (simp add: tfind_def)

lemma tupdate_simps [simp]:
  "tupdate P f [] = []"
  "tupdate P f (x # xs) = (if P x then f x else x) # tupdate P f xs"
  "tupdate P f (xs @ ys) = tupdate P f xs @ tupdate P f ys"
  by (simp_all add: tupdate_def)

lemma tfind_tupdate:
  assumes "\<And>r. P r \<Longrightarrow> Q (f r) \<longleftrightarrow> Q r"
  shows "tfind Q (tupdate P f rows) = map_option (\<lambda>r. if P r then f r else r) (tfind Q rows)"
  using assms by (induction rows) auto

lemma tfind_tupdate_same: "(\<And>x. P x \<Longrightarrow> P (f x)) \<Longrightarrow> tfind P (tupdate P f rows) = map_option f (tfind P rows)"
  by (induction rows) auto

lemma tfind_tupdate_other:
  "(\<And>x. P x \<Longrightarrow> \<not> Q x \<and> \<not> Q (f x)) \<Longrightarrow> tfind Q (tupdate P f rows) = tfind Q rows"
  by (induction rows) auto

lemma length_tupdate [simp]: "length (tupdate P f rows) = length rows"
  by (simp add: tupdate_def)

lemma tupdate_id: "(\<And>r. r \<in> set rows \<Longrightarrow> \<not> P r) \<Longrightarrow> tupdate P f rows = rows"
  by (induction rows) auto

lemma set_tupdate: "set (tupdate P f rows) = (\<lambda>r. if P r then f r else r) ` set rows"
  by (simp add: tupdate_def)

section \<open>Atomicity\<close>

lemma DB_WithTx_cases:
  assumes "DB_WithTx f body s d = (s', r, d')"
  obtains (noop) "d' = d" "\<not> is_ok r"
  | (committed) d1 where "body s d = (s', Inr d1)" "commit_check d d1 = Inr ()" "d' = d1"
      "f = TxOk \<and> r = Inr () \<or> f = TxCommitLost \<and> r = Inl (ErrInfra ''commit transaction'')"
proof (cases "f = TxBeginFails \<or> \<not> is_ok (snd (body s d))")
  case True
  then have "d' = d" "\<not> is_ok r"
    using assms by (auto simp: DB_WithTx_def split: if_splits prod.splits sum.splits)
  then show ?thesis by (rule noop)
next
  case False
  then obtain s1 d1 where b: "body s d = (s1, Inr d1)" by (cases "body s d") (auto simp: is_ok_iff)
  have s1: "s1 = s'" using assms False b by (auto simp: DB_WithTx_def split: if_splits sum.splits)
  show ?thesis
  proof (cases "is_ok (commit_check d d1) \<and> f \<noteq> TxCommitFails")
    case True
    then have "commit_check d d1 = Inr ()" by (auto simp: is_ok_iff)
    then show ?thesis
      using assms False b s1 True by (cases f) (auto simp: DB_WithTx_def intro!: committed)
  next
    case nc: False
    then have "d' = d" "\<not> is_ok r"
      using assms False b by (auto simp: DB_WithTx_def is_ok_def split: if_splits sum.splits)
    then show ?thesis by (rule noop)
  qed
qed

lemma DB_WithTx_ok:
  assumes "DB_WithTx f body s d = (s', Inr u, d')"
  shows "body s d = (s', Inr d')" "commit_check d d' = Inr ()" "f = TxOk"
  using assms by (auto elim!: DB_WithTx_cases)

lemma body_seq_Inr:
  "body_seq b1 b2 s d = (s', Inr d') \<longleftrightarrow> (\<exists>s1 d1. b1 s d = (s1, Inr d1) \<and> b2 s1 d1 = (s', Inr d'))"
  by (auto simp: body_seq_def split: prod.splits sum.splits)

lemma tx_at_calls: "tx_at p body s w = (s', r, w') \<Longrightarrow> w_calls w' = w_calls w"
  by (auto simp: tx_at_def turn_def split: list.splits prod.splits if_splits)

lemma query_at_calls: "query_at p q w = (r, w') \<Longrightarrow> w_calls w' = w_calls w"
  by (auto simp: query_at_def turn_def split: list.splits prod.splits if_splits)

lemma query_at_seen:
  assumes "query_at p q w = (r, w')"
  shows "w_dbs w' = seen w" "r = Inr x \<Longrightarrow> q (seen w ! p) = Inr x"
  using assms by (auto simp: query_at_def seen_def split: prod.splits if_splits)

text \<open>An access leaves the databases as it found them, or with the whole effect of its body on one of
  them; it reports success only in the second case.\<close>

lemma tx_at_atomic:
  assumes "tx_at p body s w = (s', r, w')"
  obtains f w1 where "turn w = (f, w1)"
    "(w_dbs w' = w_dbs w1 \<and> \<not> is_ok r) \<or> (\<exists>d1. p < length (w_dbs w1) \<and> body s (w_dbs w1 ! p) = (s', Inr d1)
       \<and> commit_check (w_dbs w1 ! p) d1 = Inr () \<and> w_dbs w' = (w_dbs w1)[p := d1])"
proof -
  obtain f w1 where t: "turn w = (f, w1)" by (cases "turn w")
  show ?thesis
  proof (cases "length (w_dbs w1) \<le> p")
    case True
    then show ?thesis using that [OF t] assms t by (auto simp: tx_at_def)
  next
    case False
    then obtain d' where D: "DB_WithTx f body s (w_dbs w1 ! p) = (s', r, d')"
      and w': "w' = w1\<lparr>w_dbs := (w_dbs w1)[p := d']\<rparr>"
      using assms t by (auto simp: tx_at_def split: prod.splits)
    from D show ?thesis
    proof (cases rule: DB_WithTx_cases)
      case noop
      then show ?thesis using that [OF t] w' by simp
    next
      case (committed d1)
      then show ?thesis using that [OF t] w' False by auto
    qed
  qed
qed

lemma tx_at_seen:
  assumes "tx_at p body s w = (s', Inr (), w')"
  obtains d' where "p < length (seen w)" "body s (seen w ! p) = (s', Inr d')" "commit_check (seen w ! p) d' = Inr ()"
    "w_dbs w' = (seen w)[p := d']"
  using tx_at_atomic [OF assms] by (metis is_ok_iff seen_def snd_conv)

definition home :: "Mapping \<Rightarrow> string \<Rightarrow> nat" where
  "home m merchantID = merchant_slot merchantID div (64 div physical m)"

lemma Shard_merchant:
  assumes "NewMapping n = Inr m"
  shows "Shard m (KeyForMerchant merchantID) = Inr (home m merchantID)" "home m merchantID < physical m"
  using Resolve_merchant [OF assms, of merchantID] by (simp_all add: Shard_def home_def)

lemma Router_WithTx_merchant:
  "NewMapping n = Inr m \<Longrightarrow> Router_WithTx m (KeyForMerchant merchantID) body s w = tx_at (home m merchantID) body s w"
  by (simp add: Router_WithTx_def Shard_merchant)

lemma tx_at_quiet:
  assumes "w_sched w = []" "p < length (w_dbs w)" "body s (w_dbs w ! p) = (s', Inr d')" "db_entries d' = db_entries (w_dbs w ! p)"
  shows "tx_at p body s w = (s', Inr (), w\<lparr>w_dbs := (w_dbs w)[p := d']\<rparr>)"
  using assms by (simp add: tx_at_def turn_def DB_WithTx_def commit_check_def assert_err_def)

section \<open>Other processes\<close>

text \<open>
  What the environment may do between two accesses is a relation on the list of databases. The
  laws of the interface are that doing nothing is allowed and that two moves make a move; then an
  access of ours whose committed effect is such a move is, together with everything the
  environment did before it, such a move too.
\<close>

definition sched_ok :: "(db list \<Rightarrow> db list \<Rightarrow> bool) \<Rightarrow> world \<Rightarrow> bool" where
  "sched_ok R w \<longleftrightarrow> (\<forall>(f, env) \<in> set (w_sched w). \<forall>dbs. R dbs (env dbs))"

locale environment =
  fixes R :: "db list \<Rightarrow> db list \<Rightarrow> bool"
  assumes R_refl: "R dbs dbs"
    and R_trans: "R dbs dbs' \<Longrightarrow> R dbs' dbs'' \<Longrightarrow> R dbs dbs''"
begin

lemma turn_rel:
  assumes "sched_ok R w" "turn w = (f, w1)"
  shows "R (w_dbs w) (w_dbs w1)" "sched_ok R w1"
  using assms R_refl by (auto simp: turn_def sched_ok_def split: list.splits prod.splits)

lemma seen_rel: "sched_ok R w \<Longrightarrow> R (w_dbs w) (seen w)"
  using turn_rel(1) by (metis seen_def surjective_pairing)

lemma query_at_rel:
  assumes "sched_ok R w" "query_at p q w = (r, w')"
  shows "R (w_dbs w) (w_dbs w')" "sched_ok R w'"
    "r = Inr x \<Longrightarrow> p < length (w_dbs w') \<and> q (w_dbs w' ! p) = Inr x"
proof -
  obtain f w1 where t: "turn w = (f, w1)" by (cases "turn w")
  then have "w' = w1" using assms(2) by (auto simp: query_at_def split: if_splits)
  then show "R (w_dbs w) (w_dbs w')" "sched_ok R w'" using turn_rel [OF assms(1) t] by simp_all
  show "r = Inr x \<Longrightarrow> p < length (w_dbs w') \<and> q (w_dbs w' ! p) = Inr x"
    using assms(2) t by (auto simp: query_at_def split: if_splits)
qed

lemma tx_at_rel:
  assumes "sched_ok R w" "tx_at p body s w = (s', r, w')"
    and step: "\<forall>dbs s1 d1. R (w_dbs w) dbs \<longrightarrow> p < length dbs \<longrightarrow> body s (dbs ! p) = (s1, Inr d1)
      \<longrightarrow> commit_check (dbs ! p) d1 = Inr () \<longrightarrow> R dbs (dbs[p := d1])"
  shows "R (w_dbs w) (w_dbs w')" "sched_ok R w'"
    "r = Inr () \<Longrightarrow> \<exists>dbs d1. R (w_dbs w) dbs \<and> p < length dbs \<and> body s (dbs ! p) = (s', Inr d1)
      \<and> commit_check (dbs ! p) d1 = Inr () \<and> w_dbs w' = dbs[p := d1]"
proof -
  obtain f w1 where t: "turn w = (f, w1)" by (cases "turn w")
  note tr = turn_rel [OF assms(1) t]
  have *: "R (w_dbs w) (w_dbs w') \<and> sched_ok R w' \<and> (r = Inr () \<longrightarrow>
      (\<exists>dbs d1. R (w_dbs w) dbs \<and> p < length dbs \<and> body s (dbs ! p) = (s', Inr d1)
      \<and> commit_check (dbs ! p) d1 = Inr () \<and> w_dbs w' = dbs[p := d1]))"
  proof (cases "length (w_dbs w1) \<le> p")
    case True
    then show ?thesis using assms(2) t tr by (auto simp: tx_at_def)
  next
    case False
    then obtain d' where D: "DB_WithTx f body s (w_dbs w1 ! p) = (s', r, d')"
      and w': "w' = w1\<lparr>w_dbs := (w_dbs w1)[p := d']\<rparr>"
      using assms(2) t by (auto simp: tx_at_def split: prod.splits)
    have so: "sched_ok R w'" using tr(2) by (simp add: w' sched_ok_def)
    from D show ?thesis
    proof (cases rule: DB_WithTx_cases)
      case noop
      then show ?thesis using tr(1) so by (auto simp: w')
    next
      case (committed d1)
      then have "R (w_dbs w1) ((w_dbs w1)[p := d1])" using step tr(1) False by simp
      then show ?thesis
        using committed tr(1) so False R_trans by (auto simp: w')
    qed
  qed
  then show "R (w_dbs w) (w_dbs w')" "sched_ok R w'" by simp_all
  show "r = Inr () \<Longrightarrow> \<exists>dbs d1. R (w_dbs w) dbs \<and> p < length dbs \<and> body s (dbs ! p) = (s', Inr d1)
      \<and> commit_check (dbs ! p) d1 = Inr () \<and> w_dbs w' = dbs[p := d1]" using * by simp
qed

end

end
