(* ===== verification/CompareAndSet.thy ===== *)
theory CompareAndSet
  imports Prelude
begin

text \<open>
  The contract of a guarded write: a record has a current token, a write names the token it was
  decided under, and a write that goes through moves the token strictly upwards or retires it.
  The version column of a payment, the fencing token of an idempotency claim and the state of a
  transfer are three providers of it. What callers rely on, that of all the writers that decided
  under one token at most one goes through however they interleave, is proved here once.
\<close>

fun run_writes ::
  "('k \<Rightarrow> 'tok \<Rightarrow> 'v \<Rightarrow> 'st \<Rightarrow> 'st option) \<Rightarrow> ('k \<times> 'tok \<times> 'v) list \<Rightarrow> 'st \<Rightarrow> bool list \<times> 'st" where
  "run_writes wr [] st = ([], st)"
| "run_writes wr ((k, tok, v) # ws) st =
     (case wr k tok v st of
        None \<Rightarrow> (let (bs, st') = run_writes wr ws st in (False # bs, st'))
      | Some st1 \<Rightarrow> (let (bs, st') = run_writes wr ws st1 in (True # bs, st')))"

definition wins :: "'k \<Rightarrow> 'tok \<Rightarrow> ('k \<times> 'tok \<times> 'v) list \<Rightarrow> bool list \<Rightarrow> nat" where
  "wins k tok ws bs = length (filter (\<lambda>((k', tok', v), ok). k' = k \<and> tok' = tok \<and> ok) (zip ws bs))"

lemma wins_simps [simp]:
  "wins k tok [] bs = 0"
  "wins k tok ((k', tok', v) # ws) (b # bs) = (if k' = k \<and> tok' = tok \<and> b then 1 else 0) + wins k tok ws bs"
  by (simp_all add: wins_def)

locale cas_store =
  fixes holder :: "'st \<Rightarrow> 'k \<Rightarrow> 'tok option"
    and wr :: "'k \<Rightarrow> 'tok \<Rightarrow> 'v \<Rightarrow> 'st \<Rightarrow> 'st option"
    and rank :: "'tok \<Rightarrow> int"
    and ok :: "'st \<Rightarrow> bool"
  assumes wr_guard: "wr k tok v st = Some st' \<Longrightarrow> holder st k = Some tok"
    and wr_ok: "ok st \<Longrightarrow> wr k tok v st = Some st' \<Longrightarrow> ok st'"
    and wr_moves: "ok st \<Longrightarrow> wr k tok v st = Some st' \<Longrightarrow>
      (case holder st' k of None \<Rightarrow> True | Some tok' \<Rightarrow> rank tok < rank tok')"
    and wr_frame: "wr k tok v st = Some st' \<Longrightarrow> k' \<noteq> k \<Longrightarrow> holder st' k' = holder st k'"
begin

lemma second_loses: "ok st \<Longrightarrow> wr k tok v st = Some st' \<Longrightarrow> wr k tok v' st' = None"
  using wr_guard wr_moves by (cases "wr k tok v' st'") (fastforce split: option.splits)+

lemma past_token_never_wins:
  assumes "ok st" "case holder st k of None \<Rightarrow> True | Some t \<Rightarrow> rank tok < rank t"
  shows "wins k tok ws (fst (run_writes wr ws st)) = 0"
  using assms
proof (induction ws arbitrary: st)
  case (Cons w ws)
  obtain k' tok' v where w: "w = (k', tok', v)" by (cases w)
  show ?case
  proof (cases "wr k' tok' v st")
    case None
    then show ?thesis using Cons by (simp add: w case_prod_unfold Let_def)
  next
    case (Some st1)
    have "case holder st1 k of None \<Rightarrow> True | Some t \<Rightarrow> rank tok < rank t"
      using Cons.prems wr_guard [OF Some] wr_moves [OF Cons.prems(1) Some] wr_frame [OF Some, of k]
      by (cases "k' = k") (auto split: option.splits)
    moreover have "\<not> (k' = k \<and> tok' = tok)" using Cons.prems wr_guard [OF Some] by auto
    ultimately show ?thesis using Cons.IH [of st1] wr_ok [OF Cons.prems(1) Some] Some by (auto simp: w case_prod_unfold Let_def)
  qed
qed simp

lemma one_winner: "ok st \<Longrightarrow> wins k tok ws (fst (run_writes wr ws st)) \<le> 1"
proof (induction ws arbitrary: st)
  case (Cons w ws)
  obtain k' tok' v where w: "w = (k', tok', v)" by (cases w)
  show ?case
  proof (cases "wr k' tok' v st")
    case None
    then show ?thesis using Cons.IH [OF Cons.prems] by (simp add: w case_prod_unfold Let_def)
  next
    case (Some st1)
    show ?thesis
    proof (cases "k' = k \<and> tok' = tok")
      case True
      then have "wins k tok ws (fst (run_writes wr ws st1)) = 0"
        using past_token_never_wins wr_moves wr_ok Some Cons.prems by blast
      then show ?thesis using Some True by (simp add: w case_prod_unfold Let_def)
    next
      case False
      then show ?thesis using Some Cons.IH [of st1] wr_ok [OF Cons.prems Some] by (auto simp: w case_prod_unfold Let_def)
    qed
  qed
qed simp

end

end
