(* ===== verification/IdemStore.thy ===== *)
theory IdemStore
  imports Database CompareAndSet
begin

text \<open>
  Idempotency keys (internal/store/idempotency/repository.go) and the HTTP middleware that uses
  them (internal/transport/http/middleware/idempotency.go). The wrapped handler and the digest of
  the request are parameters of the middleware.
\<close>

section \<open>The repository\<close>

datatype Outcome = OutcomeAcquired | OutcomeReplay | OutcomeInFlight | OutcomeFingerprintMismatch

record IdemRepo =
  LockTTL :: int
  TTL :: int

text \<open>\<open>intervalString\<close> renders whole seconds.\<close>

definition interval_ns :: "int \<Rightarrow> int" where
  "interval_ns dur = go_quot dur 1000000000 * 1000000000"

definition idem_row :: "string \<Rightarrow> string \<Rightarrow> db \<Rightarrow> IdemRecord option" where
  "idem_row m k d = tfind (\<lambda>r. i_MerchantID r = m \<and> i_Key r = k) (db_idem d)"

definition Idem_Get :: "string \<Rightarrow> string \<Rightarrow> db \<Rightarrow> IdemRecord result" where
  "Idem_Get m k d = (case idem_row m k d of None \<Rightarrow> Inl ErrIdemNotFound | Some r \<Rightarrow> Inr r)"

definition lapsed :: "IdemRepo \<Rightarrow> time \<Rightarrow> IdemRecord \<Rightarrow> bool" where
  "lapsed repo now r \<longleftrightarrow> i_State r = StateInFlight \<and> i_LockedAt r < now - interval_ns (LockTTL repo)"

definition Claim ::
  "IdemRepo \<Rightarrow> time \<Rightarrow> string \<Rightarrow> string \<Rightarrow> string \<Rightarrow> db \<Rightarrow> ((Outcome \<times> IdemRecord) \<times> db) result" where
  "Claim repo now m k fp d =
     (let tok = db_nextid d; expires = now + interval_ns (TTL repo) in
      case idem_row m k d of
        None \<Rightarrow>
          let r = \<lparr>i_MerchantID = m, i_Key = k, i_Fingerprint = fp, i_State = StateInFlight,
                   i_ResponseStatus = 0, i_ResponseBody = [], i_ClaimToken = tok, i_LockedAt = now,
                   i_ExpiresAt = expires\<rparr>
          in Inr ((OutcomeAcquired, r), d\<lparr>db_idem := db_idem d @ [r], db_nextid := Suc tok\<rparr>)
      | Some r \<Rightarrow>
          if lapsed repo now r then
            let r' = r\<lparr>i_LockedAt := now, i_State := StateInFlight, i_Fingerprint := fp,
                       i_ExpiresAt := expires, i_ClaimToken := tok\<rparr>
            in Inr ((OutcomeAcquired, r'),
                 d\<lparr>db_idem := tupdate (\<lambda>x. i_MerchantID x = m \<and> i_Key x = k) (\<lambda>_. r') (db_idem d),
                   db_nextid := Suc tok\<rparr>)
          else ebind (Idem_Get m k d) (\<lambda>existing.
            if i_Fingerprint existing \<noteq> fp then Inr ((OutcomeFingerprintMismatch, existing), d)
            else if i_State existing = StateInFlight then Inr ((OutcomeInFlight, existing), d)
            else Inr ((OutcomeReplay, existing), d)))"

definition Complete :: "string \<Rightarrow> string \<Rightarrow> uuid \<Rightarrow> int \<Rightarrow> string \<Rightarrow> db \<Rightarrow> db result" where
  "Complete m k tok status bdy d =
     (let st = (if status \<ge> 400 then StateIdemFailed else StateCompleted) in
      case idem_row m k d of
        None \<Rightarrow> Inl ErrClaimLost
      | Some r \<Rightarrow>
          if i_State r \<noteq> StateInFlight \<or> i_ClaimToken r \<noteq> tok then Inl ErrClaimLost
          else Inr (d\<lparr>db_idem := tupdate (\<lambda>x. i_MerchantID x = m \<and> i_Key x = k)
                 (\<lambda>x. x\<lparr>i_State := st, i_ResponseStatus := status, i_ResponseBody := bdy\<rparr>) (db_idem d)\<rparr>))"

section \<open>The middleware\<close>

record HttpResponse =
  h_Status :: int
  h_Body :: string
  h_Replayed :: bool

definition http_error :: "int \<Rightarrow> string \<Rightarrow> HttpResponse" where
  "http_error st tag = \<lparr>h_Status = st, h_Body = tag, h_Replayed = False\<rparr>"

definition maxIdempotencyKeyLen :: nat where
  "maxIdempotencyKeyLen = 255"

definition claim_body :: "IdemRepo \<Rightarrow> time \<Rightarrow> string \<Rightarrow> string \<Rightarrow> string \<Rightarrow> (Outcome \<times> IdemRecord) option body" where
  "claim_body repo now m k fp s d =
     (case Claim repo now m k fp d of Inl e \<Rightarrow> (s, Inl e) | Inr (c, d') \<Rightarrow> (Some c, Inr d'))"

definition complete_body :: "string \<Rightarrow> string \<Rightarrow> uuid \<Rightarrow> int \<Rightarrow> string \<Rightarrow> unit body" where
  "complete_body m k tok status bdy s d = (s, Complete m k tok status bdy d)"

text \<open>\<open>merchant\<close> is what the authentication middleware established, \<open>handler\<close> the rest of the chain.
  The last component tells whether the handler ran.\<close>

definition Idempotency ::
  "Mapping \<Rightarrow> IdemRepo \<Rightarrow> string \<Rightarrow> string option \<Rightarrow> string \<Rightarrow> (world \<Rightarrow> (int \<times> string) \<times> world) \<Rightarrow> time \<Rightarrow>
   world \<Rightarrow> HttpResponse \<times> world \<times> bool" where
  "Idempotency mp repo key merchant fingerprint handler now w =
     (if key = [] \<or> length key > maxIdempotencyKeyLen then (http_error 400 ''idempotency_key_required'', w, False)
      else case merchant of
        None \<Rightarrow> (http_error 401 ''authorization_required'', w, False)
      | Some merchantID \<Rightarrow>
          let shardKey = KeyForMerchant merchantID in
          (case Router_WithTx mp shardKey (claim_body repo now merchantID key fingerprint) None w of
             (s, Inl e, w1) \<Rightarrow> (http_error 500 ''internal_error'', w1, False)
           | (None, Inr _, w1) \<Rightarrow> (http_error 500 ''internal_error'', w1, False)
           | (Some (outcome, r), Inr _, w1) \<Rightarrow>
               (case outcome of
                  OutcomeReplay \<Rightarrow>
                    (\<lparr>h_Status = i_ResponseStatus r, h_Body = i_ResponseBody r, h_Replayed = True\<rparr>, w1, False)
                | OutcomeInFlight \<Rightarrow> (http_error 409 ''request_in_progress'', w1, False)
                | OutcomeFingerprintMismatch \<Rightarrow> (http_error 409 ''idempotency_key_reused'', w1, False)
                | OutcomeAcquired \<Rightarrow>
                    (case handler w1 of ((status, bdy), w2) \<Rightarrow>
                      (case Router_WithTx mp shardKey
                         (complete_body merchantID key (i_ClaimToken r) status bdy) () w2 of
                         (_, _, w3) \<Rightarrow> (\<lparr>h_Status = status, h_Body = bdy, h_Replayed = False\<rparr>, w3, True))))))"

section \<open>Ownership of a key\<close>

definition claim_holder :: "db \<Rightarrow> string \<times> string \<Rightarrow> uuid option" where
  "claim_holder d mk =
     (case idem_row (fst mk) (snd mk) d of
        None \<Rightarrow> None
      | Some r \<Rightarrow> if i_State r = StateInFlight then Some (i_ClaimToken r) else None)"

definition tokens_ok :: "db \<Rightarrow> bool" where
  "tokens_ok d \<longleftrightarrow> (\<forall>r \<in> set (db_idem d). i_ClaimToken r < db_nextid d)"

text \<open>The two writes on an existing claim: its owner stores a response, or another request takes it
  over after it lapsed.\<close>

datatype idem_write = WComplete int string | WTakeover IdemRepo time string

definition idem_wr :: "string \<times> string \<Rightarrow> uuid \<Rightarrow> idem_write \<Rightarrow> db \<Rightarrow> db option" where
  "idem_wr mk tok wrt d =
     (case wrt of
        WComplete status bdy \<Rightarrow>
          (case Complete (fst mk) (snd mk) tok status bdy d of Inl _ \<Rightarrow> None | Inr d' \<Rightarrow> Some d')
      | WTakeover repo now fp \<Rightarrow>
          if claim_holder d mk = Some tok then
            (case Claim repo now (fst mk) (snd mk) fp d of
               Inr ((OutcomeAcquired, _), d') \<Rightarrow> Some d' | _ \<Rightarrow> None)
          else None)"

lemma idem_row_tupdate:
  assumes "\<And>x. i_MerchantID x = m \<Longrightarrow> i_Key x = k \<Longrightarrow> i_MerchantID (f x) = m \<and> i_Key (f x) = k"
  shows "idem_row m' k' (d\<lparr>db_idem := tupdate (\<lambda>x. i_MerchantID x = m \<and> i_Key x = k) f (db_idem d), db_nextid := n\<rparr>)
    = (if m' = m \<and> k' = k then map_option f (idem_row m k d) else idem_row m' k' d)"
proof (cases "m' = m \<and> k' = k")
  case True
  then show ?thesis
    using assms tfind_tupdate_same [of "\<lambda>r. i_MerchantID r = m \<and> i_Key r = k" f "db_idem d"]
    by (simp add: idem_row_def)
next
  case False
  then have "tfind (\<lambda>r. i_MerchantID r = m' \<and> i_Key r = k') (tupdate (\<lambda>x. i_MerchantID x = m \<and> i_Key x = k) f (db_idem d))
      = tfind (\<lambda>r. i_MerchantID r = m' \<and> i_Key r = k') (db_idem d)"
    using assms by (intro tfind_tupdate_other) auto
  then show ?thesis using False by (auto simp: idem_row_def)
qed

lemma Complete_Inr:
  assumes "Complete m k tok status bdy d = Inr d'"
  shows "\<exists>r. idem_row m k d = Some r \<and> i_State r = StateInFlight \<and> i_ClaimToken r = tok"
    "idem_row m' k' d' = (if m' = m \<and> k' = k then map_option (\<lambda>x. x\<lparr>i_State := (if status \<ge> 400 then StateIdemFailed
       else StateCompleted), i_ResponseStatus := status, i_ResponseBody := bdy\<rparr>) (idem_row m k d) else idem_row m' k' d)"
    "tokens_ok d \<Longrightarrow> tokens_ok d'"
proof -
  define f where "f x = x\<lparr>i_State := (if status \<ge> 400 then StateIdemFailed else StateCompleted),
     i_ResponseStatus := status, i_ResponseBody := bdy\<rparr>" for x :: IdemRecord
  have d': "d' = d\<lparr>db_idem := tupdate (\<lambda>x. i_MerchantID x = m \<and> i_Key x = k) f (db_idem d), db_nextid := db_nextid d\<rparr>"
    using assms by (auto simp: Complete_def Let_def f_def [abs_def] split: option.splits if_splits)
  show "\<exists>r. idem_row m k d = Some r \<and> i_State r = StateInFlight \<and> i_ClaimToken r = tok"
    using assms by (auto simp: Complete_def Let_def split: option.splits if_splits)
  show "idem_row m' k' d' = (if m' = m \<and> k' = k then map_option (\<lambda>x. x\<lparr>i_State := (if status \<ge> 400 then StateIdemFailed
       else StateCompleted), i_ResponseStatus := status, i_ResponseBody := bdy\<rparr>) (idem_row m k d) else idem_row m' k' d)"
    unfolding d' f_def [symmetric] by (rule idem_row_tupdate) (simp add: f_def)
  show "tokens_ok d \<Longrightarrow> tokens_ok d'" by (auto simp: d' tokens_ok_def set_tupdate f_def)
qed

lemma takeover_row:
  assumes "Claim repo now m k fp d = Inr ((OutcomeAcquired, r'), d')" "idem_row m k d = Some r"
  shows "lapsed repo now r" "i_ClaimToken r' = db_nextid d" "i_State r' = StateInFlight"
    "idem_row m' k' d' = (if m' = m \<and> k' = k then Some r' else idem_row m' k' d)" "tokens_ok d \<Longrightarrow> tokens_ok d'"
proof -
  show l: "lapsed repo now r" and t: "i_ClaimToken r' = db_nextid d" "i_State r' = StateInFlight"
    using assms by (auto simp: Claim_def Let_def Idem_Get_def split: if_splits)
  have d': "d' = d\<lparr>db_idem := tupdate (\<lambda>x. i_MerchantID x = m \<and> i_Key x = k) (\<lambda>_. r') (db_idem d),
      db_nextid := Suc (db_nextid d)\<rparr>" and mk: "i_MerchantID r' = m" "i_Key r' = k"
    using assms l tfind_SomeD [OF assms(2) [unfolded idem_row_def]] by (auto simp: Claim_def Let_def)
  show "idem_row m' k' d' = (if m' = m \<and> k' = k then Some r' else idem_row m' k' d)"
    unfolding d' using mk assms(2) by (subst idem_row_tupdate) auto
  show "tokens_ok d \<Longrightarrow> tokens_ok d'" using t by (auto simp: d' tokens_ok_def set_tupdate less_Suc_eq)
qed

lemma idem_wr_cases:
  assumes "idem_wr mk tok v d = Some d'"
  shows "claim_holder d mk = Some tok" "tokens_ok d \<Longrightarrow> tokens_ok d'"
    "tokens_ok d \<Longrightarrow> (case claim_holder d' mk of None \<Rightarrow> True | Some t \<Rightarrow> tok < t)"
    "mk' \<noteq> mk \<Longrightarrow> claim_holder d' mk' = claim_holder d mk'"
proof -
  obtain m k where mk: "mk = (m, k)" by (cases mk)
  obtain m' k' where mk': "mk' = (m', k')" by (cases mk')
  have "claim_holder d mk = Some tok \<and> (tokens_ok d \<longrightarrow> tokens_ok d')
    \<and> (tokens_ok d \<longrightarrow> (case claim_holder d' mk of None \<Rightarrow> True | Some t \<Rightarrow> tok < t))
    \<and> (mk' \<noteq> mk \<longrightarrow> claim_holder d' mk' = claim_holder d mk')"
  proof (cases v)
    case (WComplete status bdy)
    then have c: "Complete m k tok status bdy d = Inr d'"
      using assms mk by (auto simp: idem_wr_def split: sum.splits)
    show ?thesis using Complete_Inr [OF c] mk mk' by (auto simp: claim_holder_def)
  next
    case (WTakeover repo now fp)
    then obtain r' where c: "Claim repo now m k fp d = Inr ((OutcomeAcquired, r'), d')" and h: "claim_holder d (m, k) = Some tok"
      using assms mk by (auto simp: idem_wr_def split: sum.splits prod.splits Outcome.splits if_splits)
    obtain r where r: "idem_row m k d = Some r" "i_ClaimToken r = tok"
      using h by (auto simp: claim_holder_def split: option.splits if_splits)
    have "tokens_ok d \<Longrightarrow> tok < db_nextid d"
      using r tfind_SomeD [OF r(1) [unfolded idem_row_def]] by (auto simp: tokens_ok_def)
    then show ?thesis using takeover_row [OF c r(1)] h mk mk' by (auto simp: claim_holder_def)
  qed
  then show "claim_holder d mk = Some tok" "tokens_ok d \<Longrightarrow> tokens_ok d'"
    "tokens_ok d \<Longrightarrow> (case claim_holder d' mk of None \<Rightarrow> True | Some t \<Rightarrow> tok < t)"
    "mk' \<noteq> mk \<Longrightarrow> claim_holder d' mk' = claim_holder d mk'" by blast+
qed

interpretation claims: cas_store claim_holder idem_wr int tokens_ok
proof
  show "case claim_holder d' mk of None \<Rightarrow> True | Some t \<Rightarrow> int tok < int t"
    if "tokens_ok d" "idem_wr mk tok v d = Some d'" for d d' mk tok v
    using idem_wr_cases(3) [OF that(2,1)] by (auto split: option.splits)
qed (auto dest: idem_wr_cases)

text \<open>C21: of all the executions that were granted one claim token at most one stores its response,
  however completions and takeovers interleave: an owner whose claim was taken over cannot
  overwrite the new owner's result.\<close>

theorem one_response_per_claim:
  assumes "tokens_ok d"
  shows "wins mk tok ws (fst (run_writes idem_wr ws d)) \<le> 1"
  using assms by (rule claims.one_winner)

theorem one_response_per_claim_witness:
  "wins (''m'', ''k'') (1 :: uuid) [((''m'', ''k''), 1, WComplete 201 ''ok''), ((''m'', ''k''), 1, WComplete 500 ''late'')]
     (fst (run_writes idem_wr [((''m'', ''k''), 1, WComplete 201 ''ok''), ((''m'', ''k''), 1, WComplete 500 ''late'')]
       (empty_db\<lparr>db_idem := [\<lparr>i_MerchantID = ''m'', i_Key = ''k'', i_Fingerprint = ''f'', i_State = StateInFlight,
          i_ResponseStatus = 0, i_ResponseBody = [], i_ClaimToken = 1, i_LockedAt = 0, i_ExpiresAt = 9\<rparr>],
          db_nextid := 2\<rparr>))) \<le> 1"
  by (rule one_response_per_claim) (simp add: tokens_ok_def)

section \<open>A key is executed once\<close>

lemma Claim_acquired_row:
  assumes "Claim repo now m k fp d = Inr ((OutcomeAcquired, r), d1)"
  shows "idem_row m k d1 = Some r" "i_Fingerprint r = fp" "i_State r = StateInFlight" "i_LockedAt r = now"
    "db_entries d1 = db_entries d"
proof -
  have "idem_row m k d1 = Some r \<and> i_Fingerprint r = fp \<and> i_State r = StateInFlight \<and> i_LockedAt r = now
     \<and> db_entries d1 = db_entries d"
  proof (cases "idem_row m k d")
    case None
    then show ?thesis using assms by (auto simp: Claim_def Let_def idem_row_def tfind_append)
  next
    case (Some r0)
    note t = takeover_row [OF assms Some]
    then show ?thesis using t(4) [of m k] assms Some by (auto simp: Claim_def Let_def)
  qed
  then show "idem_row m k d1 = Some r" "i_Fingerprint r = fp" "i_State r = StateInFlight" "i_LockedAt r = now"
    "db_entries d1 = db_entries d" by blast+
qed

lemma Claim_blocked:
  assumes "idem_row m k d = Some r" "\<not> lapsed repo now r"
  shows "Claim repo now m k fp d = Inr ((if i_Fingerprint r \<noteq> fp then OutcomeFingerprintMismatch
     else if i_State r = StateInFlight then OutcomeInFlight else OutcomeReplay, r), d)"
  using assms by (simp add: Claim_def Let_def Idem_Get_def)

lemma Complete_owner:
  assumes "idem_row m k d = Some r" "i_State r = StateInFlight"
  shows "\<exists>d'. Complete m k (i_ClaimToken r) status bdy d = Inr d' \<and> db_entries d' = db_entries d
    \<and> idem_row m k d' = Some (r\<lparr>i_State := (if status \<ge> 400 then StateIdemFailed else StateCompleted),
        i_ResponseStatus := status, i_ResponseBody := bdy\<rparr>)"
proof -
  obtain d' where c: "Complete m k (i_ClaimToken r) status bdy d = Inr d'" "db_entries d' = db_entries d"
    using assms by (simp add: Complete_def)
  then show ?thesis using Complete_Inr(2) [OF c(1), of m k] assms by auto
qed

text \<open>A key is executed once. After a request has claimed a key, until the claim has aged past
  the lock period every other request with that key is refused, as in progress or as a
  mismatch; the owner can store its response; and from then on the same request is answered by
  that response, status and body, at any later time, and a different one by a mismatch.\<close>

theorem Claim_exclusive_then_replays:
  assumes "Claim repo now m k fp d = Inr ((OutcomeAcquired, r), d1)"
  shows "(now' - interval_ns (LockTTL repo) \<le> now \<longrightarrow>
      Claim repo now' m k fp' d1 = Inr ((if fp' = fp then OutcomeInFlight else OutcomeFingerprintMismatch, r), d1))
    \<and> (\<exists>d2 r2. Complete m k (i_ClaimToken r) status bdy d1 = Inr d2
        \<and> i_ResponseStatus r2 = status \<and> i_ResponseBody r2 = bdy
        \<and> Claim repo later m k fp' d2 =
            Inr ((if fp' = fp then OutcomeReplay else OutcomeFingerprintMismatch, r2), d2))"
proof -
  note a = Claim_acquired_row [OF assms]
  have "Claim repo now' m k fp' d1 = Inr ((if fp' = fp then OutcomeInFlight else OutcomeFingerprintMismatch, r), d1)"
    if "now' - interval_ns (LockTTL repo) \<le> now"
    using that a by (subst Claim_blocked [OF a(1)]) (auto simp: lapsed_def)
  moreover obtain d2 where c: "Complete m k (i_ClaimToken r) status bdy d1 = Inr d2"
    "idem_row m k d2 = Some (r\<lparr>i_State := (if status \<ge> 400 then StateIdemFailed else StateCompleted),
        i_ResponseStatus := status, i_ResponseBody := bdy\<rparr>)"
    using Complete_owner [OF a(1,3)] by blast
  moreover have "Claim repo later m k fp' d2 = Inr ((if fp' = fp then OutcomeReplay else OutcomeFingerprintMismatch,
      r\<lparr>i_State := (if status \<ge> 400 then StateIdemFailed else StateCompleted), i_ResponseStatus := status,
        i_ResponseBody := bdy\<rparr>), d2)"
    using a by (subst Claim_blocked [OF c(2)]) (auto simp: lapsed_def)
  ultimately show ?thesis by auto
qed

theorem Claim_exclusive_then_replays_witness:
  "\<exists>r d1. Claim \<lparr>LockTTL = 30000000000, TTL = 86400000000000\<rparr> 0 ''m'' ''k'' ''f'' empty_db = Inr ((OutcomeAcquired, r), d1)
     \<and> Claim \<lparr>LockTTL = 30000000000, TTL = 86400000000000\<rparr> 5 ''m'' ''k'' ''f'' d1 = Inr ((OutcomeInFlight, r), d1)"
proof -
  let ?repo = "\<lparr>LockTTL = 30000000000, TTL = 86400000000000\<rparr>"
  obtain r d1 where c: "Claim ?repo 0 ''m'' ''k'' ''f'' empty_db = Inr ((OutcomeAcquired, r), d1)"
    by (simp add: Claim_def idem_row_def empty_db_def Let_def)
  moreover have "5 - interval_ns (LockTTL ?repo) \<le> 0" by (simp add: interval_ns_def go_quot_def)
  ultimately show ?thesis using Claim_exclusive_then_replays [OF c, of 5 "''f''"] by auto
qed

text \<open>Two things the comments promise and the statement does not do. A completed record goes on
  answering after its \<open>expires_at\<close>: no query reads that column. And a request with another body
  takes over a lapsed claim and is executed, although the fingerprint is said to be checked
  before anything else.\<close>

theorem Claim_ignores_expiry_and_fingerprint:
  "let repo = \<lparr>LockTTL = 30000000000, TTL = 86400000000000\<rparr>;
       row = \<lparr>i_MerchantID = ''m'', i_Key = ''k'', i_Fingerprint = ''f'', i_State = StateCompleted, i_ResponseStatus = 201,
              i_ResponseBody = ''ok'', i_ClaimToken = 1, i_LockedAt = 0, i_ExpiresAt = 86400000000000\<rparr>
   in Claim repo 90000000000000 ''m'' ''k'' ''f'' (empty_db\<lparr>db_idem := [row]\<rparr>)
        = Inr ((OutcomeReplay, row), empty_db\<lparr>db_idem := [row]\<rparr>)
    \<and> (\<exists>r d'. Claim repo 40000000000 ''m'' ''k'' ''other body'' (empty_db\<lparr>db_idem := [row\<lparr>i_State := StateInFlight\<rparr>]\<rparr>)
        = Inr ((OutcomeAcquired, r), d'))"
  by (simp add: Claim_def Idem_Get_def idem_row_def lapsed_def interval_ns_def go_quot_def Let_def)

section \<open>The middleware answers a repeated request\<close>

lemma claim_body_quiet:
  assumes "NewMapping n = Inr mp" "w_sched w = []" "home mp m < length (w_dbs w)"
    "Claim repo now m k fp (w_dbs w ! home mp m) = Inr (c, d')" "db_entries d' = db_entries (w_dbs w ! home mp m)"
  shows "Router_WithTx mp (KeyForMerchant m) (claim_body repo now m k fp) None w =
    (Some c, Inr (), w\<lparr>w_dbs := (w_dbs w)[home mp m := d']\<rparr>)"
  using assms by (simp add: Router_WithTx_merchant tx_at_quiet claim_body_def)

lemma Claim_total: "\<exists>c d'. Claim repo now m k fp d = Inr (c, d') \<and> db_entries d' = db_entries d"
  by (cases "idem_row m k d") (auto simp: Claim_def Idem_Get_def Let_def)

lemma Claim_unchanged:
  "Claim repo now m k fp d = Inr ((oc, r), d') \<Longrightarrow> oc \<noteq> OutcomeAcquired \<Longrightarrow> d' = d"
  by (cases "idem_row m k d") (auto simp: Claim_def Idem_Get_def Let_def split: if_splits)

text \<open>C10: end to end through the middleware. If a request was executed, with no fault or interference on the two
  database accesses and a handler that leaves the claim alone, then the same request sent again
  before the time to live of the claim has passed, whatever handler is now behind the middleware, gets the same status and body
  marked as a replay; the handler is not run and nothing is written.\<close>

theorem Idempotency_executes_once:
  assumes mp: "NewMapping n = Inr mp" "length (w_dbs w) = physical mp" and quiet: "w_sched w = []"
    and run: "Idempotency mp repo key (Some m) fp handler now w = (resp, w3, True)"
    and handler: "\<And>w1 st b w2. handler w1 = ((st, b), w2) \<Longrightarrow> w_sched w1 = [] \<Longrightarrow>
      w_sched w2 = [] \<and> length (w_dbs w2) = length (w_dbs w1)
      \<and> idem_row m key (w_dbs w2 ! home mp m) = idem_row m key (w_dbs w1 ! home mp m)"
    and ttl: "later < now + interval_ns (TTL repo)"
  shows "Idempotency mp repo key (Some m) fp handler' later w3 = (resp\<lparr>h_Replayed := True\<rparr>, w3, False)"
proof -
  let ?p = "home mp m"
  have p: "?p < length (w_dbs w)" using Shard_merchant(2) [OF mp(1)] mp(2) by simp
  obtain oc r d1 where c: "Claim repo now m key fp (w_dbs w ! ?p) = Inr ((oc, r), d1)"
    and e: "db_entries d1 = db_entries (w_dbs w ! ?p)" using Claim_total by fastforce
  define w1 where "w1 = w\<lparr>w_dbs := (w_dbs w)[?p := d1]\<rparr>"
  have k: "key \<noteq> []" "length key \<le> maxIdempotencyKeyLen" using run by (auto simp: Idempotency_def split: if_splits)
  note cb = claim_body_quiet [OF mp(1) quiet p c e, folded w1_def]
  have oc: "oc = OutcomeAcquired"
    using run k cb by (cases oc) (auto simp: Idempotency_def Let_def)
  obtain st b w2 where h: "handler w1 = ((st, b), w2)" by (metis surj_pair)
  have h2: "w_sched w2 = []" "?p < length (w_dbs w2)" "idem_row m key (w_dbs w2 ! ?p) = idem_row m key d1"
    using handler [OF h] quiet p by (simp_all add: w1_def)
  note a = Claim_acquired_row [OF c [unfolded oc]]
  obtain d3 where d3: "Complete m key (i_ClaimToken r) st b (w_dbs w2 ! ?p) = Inr d3" "db_entries d3 = db_entries (w_dbs w2 ! ?p)"
    and r3: "idem_row m key d3 = Some (r\<lparr>i_State := (if st \<ge> 400 then StateIdemFailed else StateCompleted),
        i_ResponseStatus := st, i_ResponseBody := b\<rparr>)"
    using Complete_owner [of m key "w_dbs w2 ! ?p" r st b] a h2(3) by auto
  have "Router_WithTx mp (KeyForMerchant m) (complete_body m key (i_ClaimToken r) st b) () w2 =
      ((), Inr (), w2\<lparr>w_dbs := (w_dbs w2)[?p := d3]\<rparr>)"
    unfolding Router_WithTx_merchant [OF mp(1)] by (rule tx_at_quiet) (use h2 d3 in \<open>simp_all add: complete_body_def\<close>)
  then have w3: "w3 = w2\<lparr>w_dbs := (w_dbs w2)[?p := d3]\<rparr>" "resp = \<lparr>h_Status = st, h_Body = b, h_Replayed = False\<rparr>"
    using run k cb oc h by (auto simp: Idempotency_def Let_def)
  define r2 where "r2 = r\<lparr>i_State := (if st \<ge> 400 then StateIdemFailed else StateCompleted),
        i_ResponseStatus := st, i_ResponseBody := b\<rparr>"
  have d3_eq: "w_dbs w3 ! ?p = d3" and w3q: "w_sched w3 = []" "?p < length (w_dbs w3)" using w3 h2 by simp_all
  have "(w_dbs w3)[?p := d3] = w_dbs w3" using list_update_id [of "w_dbs w3" ?p] d3_eq by simp
  then have "w3\<lparr>w_dbs := (w_dbs w3)[?p := d3]\<rparr> = w3" by simp
  moreover have "Claim repo later m key fp d3 = Inr ((OutcomeReplay, r2), d3)"
    using a by (subst Claim_blocked [OF r3 [folded r2_def]]) (auto simp: lapsed_def r2_def)
  ultimately have "Router_WithTx mp (KeyForMerchant m) (claim_body repo later m key fp) None w3 = (Some (OutcomeReplay, r2), Inr (), w3)"
    using claim_body_quiet [OF mp(1), of w3 m repo later key fp "(OutcomeReplay, r2)" d3] d3_eq w3q by simp
  then show ?thesis using k w3 by (simp add: Idempotency_def Let_def r2_def)
qed

theorem Idempotency_executes_once_witness:
  "let w = \<lparr>w_dbs = [empty_db], w_sched = [], w_calls = []\<rparr>; repo = \<lparr>LockTTL = 30000000000, TTL = 86400000000000\<rparr>;
       first = Idempotency \<lparr>physical = 1\<rparr> repo ''k1'' (Some ''m'') ''f'' (\<lambda>w. ((201, ''paid''), w)) 0 w;
       second = Idempotency \<lparr>physical = 1\<rparr> repo ''k1'' (Some ''m'') ''f'' (\<lambda>w. ((500, ''again''), w)) 7 (fst (snd first))
   in snd (snd first) \<and> h_Status (fst second) = 201 \<and> h_Body (fst second) = ''paid'' \<and> \<not> snd (snd second)"
proof -
  define w where "w = \<lparr>w_dbs = [empty_db], w_sched = [], w_calls = []\<rparr>"
  define repo where "repo = \<lparr>LockTTL = 30000000000, TTL = 86400000000000\<rparr>"
  have mp: "NewMapping 1 = Inr \<lparr>physical = 1\<rparr>" by code_simp
  have hm: "home \<lparr>physical = 1\<rparr> ''m'' = 0" using Shard_merchant(2) [OF mp, of "''m''"] by simp
  obtain r d1 where c: "Claim repo 0 ''m'' ''k1'' ''f'' empty_db = Inr ((OutcomeAcquired, r), d1)"
    and e: "db_entries d1 = db_entries empty_db"
    by (simp add: Claim_def idem_row_def empty_db_def Let_def)
  have cb: "Router_WithTx \<lparr>physical = 1\<rparr> (KeyForMerchant ''m'') (claim_body repo 0 ''m'' ''k1'' ''f'') None w
      = (Some (OutcomeAcquired, r), Inr (), w\<lparr>w_dbs := [d1]\<rparr>)"
    using claim_body_quiet [OF mp, of w "''m''" repo 0 "''k1''" "''f''" "(OutcomeAcquired, r)" d1] c e hm
    by (simp add: w_def)
  obtain w3 where i: "Idempotency \<lparr>physical = 1\<rparr> repo ''k1'' (Some ''m'') ''f'' (\<lambda>w. ((201, ''paid''), w)) 0 w
      = (\<lparr>h_Status = 201, h_Body = ''paid'', h_Replayed = False\<rparr>, w3, True)"
    using cb by (cases "Router_WithTx \<lparr>physical = 1\<rparr> (KeyForMerchant ''m'')
        (complete_body ''m'' ''k1'' (i_ClaimToken r) 201 ''paid'') () (w\<lparr>w_dbs := [d1]\<rparr>)")
      (auto simp: Idempotency_def maxIdempotencyKeyLen_def)
  have "Idempotency \<lparr>physical = 1\<rparr> repo ''k1'' (Some ''m'') ''f'' (\<lambda>w. ((500, ''again''), w)) 7 w3
      = (\<lparr>h_Status = 201, h_Body = ''paid'', h_Replayed = False\<rparr>\<lparr>h_Replayed := True\<rparr>, w3, False)"
    by (rule Idempotency_executes_once [OF mp _ _ i]) (auto simp: w_def repo_def interval_ns_def go_quot_def)
  then show ?thesis using i unfolding Let_def w_def [symmetric] repo_def [symmetric] by simp
qed

end
