(* ===== verification/TxStore.thy ===== *)
theory TxStore
  imports Database CompareAndSet
begin

text \<open>
  The payment transaction repository (internal/store/transaction) with the constraints of its
  table: the domain checks on amounts, the transition trigger, the audit trail's foreign key.
\<close>

section \<open>Operations (repository.go)\<close>

definition known_state :: "State \<Rightarrow> bool" where
  "known_state s \<longleftrightarrow> s \<in> set allStates"

definition payment_checks :: "Transaction \<Rightarrow> bool" where
  "payment_checks r \<longleftrightarrow> known_state (t_State r) \<and> valid_currency (m_currency (t_Amount r))
     \<and> 0 < minor (t_Amount r) \<and> 0 \<le> minor (t_Captured r) \<and> 0 \<le> minor (t_Refunded r)
     \<and> minor (t_Captured r) \<le> minor (t_Amount r) \<and> minor (t_Refunded r) \<le> minor (t_Captured r)"

definition Insert :: "time \<Rightarrow> Transaction \<Rightarrow> db \<Rightarrow> db result" where
  "Insert now t d =
     (let cur = m_currency (t_Amount t);
          row = t\<lparr>t_Captured := mk_money (m_amount (t_Captured t)) cur,
                  t_Refunded := mk_money (m_amount (t_Refunded t)) cur,
                  t_PSP := [], t_PSPReference := [], t_LastAppliedEventSeq := 0,
                  t_CreatedAt := now, t_UpdatedAt := now\<rparr>
      in if list_ex (\<lambda>r. t_ID r = t_ID t) (db_payments d) then Inl (ErrConstraint ''payment_transactions_pkey'')
         else if \<not> payment_checks row then Inl (ErrConstraint ''payment_transactions'')
         else Inr (d\<lparr>db_payments := db_payments d @ [row]\<rparr>))"

definition scanTransaction :: "Transaction option \<Rightarrow> Transaction result" where
  "scanTransaction row =
     (case row of
        None \<Rightarrow> Inl ErrTxNotFound
      | Some r \<Rightarrow>
          let cur = m_currency (t_Amount r) in
          ebind (Money_New (m_amount (t_Amount r)) cur) (\<lambda>amount.
          ebind (Money_New (m_amount (t_Captured r)) cur) (\<lambda>captured.
          ebind (Money_New (m_amount (t_Refunded r)) cur) (\<lambda>refunded.
          Inr (r\<lparr>t_Amount := amount, t_Captured := captured, t_Refunded := refunded\<rparr>)))))"

definition payment_row :: "uuid \<Rightarrow> db \<Rightarrow> Transaction option" where
  "payment_row i d = tfind (\<lambda>r. t_ID r = i) (db_payments d)"

definition TxStore_Get :: "uuid \<Rightarrow> db \<Rightarrow> Transaction result" where
  "TxStore_Get i d = scanTransaction (payment_row i d)"

text \<open>An empty reference is stored as NULL, which equals nothing.\<close>

definition GetByProviderReferenceForUpdate :: "string \<Rightarrow> db \<Rightarrow> Transaction result" where
  "GetByProviderReferenceForUpdate reference d =
     scanTransaction (tfind (\<lambda>r. t_PSPReference r \<noteq> [] \<and> t_PSPReference r = reference) (db_payments d))"

definition updated_row :: "time \<Rightarrow> Transaction \<Rightarrow> Transaction \<Rightarrow> Transaction" where
  "updated_row now t r =
     r\<lparr>t_State := t_State t,
       t_Captured := mk_money (m_amount (t_Captured t)) (m_currency (t_Amount r)),
       t_Refunded := mk_money (m_amount (t_Refunded t)) (m_currency (t_Amount r)),
       t_PSP := t_PSP t, t_PSPReference := t_PSPReference t,
       t_LastAppliedEventSeq := max (t_LastAppliedEventSeq r) (t_LastAppliedEventSeq t),
       t_Version := t_Version r + 1, t_UpdatedAt := now\<rparr>"

definition Update :: "time \<Rightarrow> Transaction body" where
  "Update now t d =
     (case payment_row (t_ID t) d of
        None \<Rightarrow> (t, Inl ErrVersionConflict)
      | Some r \<Rightarrow>
          if t_Version r \<noteq> t_Version t then (t, Inl ErrVersionConflict)
          else if \<not> is_ok (assert_valid_transaction_transition (t_State r) (t_State t))
          then (t, Inl (ErrConstraint ''illegal transaction state transition''))
          else if \<not> payment_checks (updated_row now t r) then (t, Inl (ErrConstraint ''payment_transactions''))
          else (t\<lparr>t_Version := t_Version t + 1\<rparr>,
                Inr (d\<lparr>db_payments := tupdate (\<lambda>x. t_ID x = t_ID t) (updated_row now t) (db_payments d)\<rparr>)))"

text \<open>\<open>inet_ok\<close> tells which source addresses the database can read as an \<open>inet\<close>.\<close>

definition RecordStateChange :: "(string \<Rightarrow> bool) \<Rightarrow> StateChange \<Rightarrow> db \<Rightarrow> db result" where
  "RecordStateChange inet_ok c d =
     (if payment_row (sc_TransactionID c) d = None then Inl (ErrConstraint ''transaction_id'')
      else if \<not> known_state (sc_To c) \<or> (case sc_From c of None \<Rightarrow> False | Some s \<Rightarrow> \<not> known_state s)
      then Inl (ErrConstraint ''transaction_state'')
      else if sc_SourceIP c \<noteq> [] \<and> \<not> inet_ok (sc_SourceIP c) then Inl (ErrConstraint ''inet'')
      else Inr (d\<lparr>db_changes := db_changes d @ [c]\<rparr>))"

section \<open>Rows\<close>

definition payments_ok :: "db \<Rightarrow> bool" where
  "payments_ok d \<longleftrightarrow> distinct (map t_ID (db_payments d))
     \<and> (\<forall>r \<in> set (db_payments d). txn_inv r \<and> known_state (t_State r))"

lemma known_state_iff: "known_state s \<longleftrightarrow> (\<forall>x. s \<noteq> StateOther x)"
  by (cases s) (auto simp: known_state_def allStates_def)

lemma payment_row_Some: "payment_row i d = Some r \<Longrightarrow> r \<in> set (db_payments d) \<and> t_ID r = i"
  unfolding payment_row_def by (rule tfind_SomeD)

lemma TxStore_Get_Inr:
  assumes "TxStore_Get i d = Inr t"
  shows "\<exists>r. payment_row i d = Some r \<and> t = r\<lparr>t_Captured := mk_money (m_amount (t_Captured r)) (m_currency (t_Amount r)),
      t_Refunded := mk_money (m_amount (t_Refunded r)) (m_currency (t_Amount r))\<rparr>"
    "payments_ok d \<Longrightarrow> payment_row i d = Some t"
proof -
  obtain r where r: "payment_row i d = Some r" using assms
    by (auto simp: TxStore_Get_def scanTransaction_def split: option.splits)
  then have t: "t = r\<lparr>t_Captured := mk_money (m_amount (t_Captured r)) (m_currency (t_Amount r)),
      t_Refunded := mk_money (m_amount (t_Refunded r)) (m_currency (t_Amount r))\<rparr>"
    using assms by (auto simp: TxStore_Get_def scanTransaction_def Let_def err_simps)
  then show "\<exists>r. payment_row i d = Some r \<and> t = r\<lparr>t_Captured := mk_money (m_amount (t_Captured r)) (m_currency (t_Amount r)),
      t_Refunded := mk_money (m_amount (t_Refunded r)) (m_currency (t_Amount r))\<rparr>" using r by blast
  show "payment_row i d = Some t" if "payments_ok d"
  proof -
    have "txn_inv r" using that payment_row_Some [OF r] by (auto simp: payments_ok_def)
    then have "m_currency (t_Captured r) = m_currency (t_Amount r)" "m_currency (t_Refunded r) = m_currency (t_Amount r)"
      by (auto simp: txn_inv_def)
    then show ?thesis using r t by simp
  qed
qed

lemma TxStore_Get_row:
  assumes "payments_ok d" "payment_row i d = Some t"
  shows "TxStore_Get i d = Inr t"
proof -
  have "txn_inv t" using assms(1) payment_row_Some [OF assms(2)] by (auto simp: payments_ok_def)
  then show ?thesis
    using assms(2) by (simp add: TxStore_Get_def scanTransaction_def Money_New_def Currency_Validate_eq txn_inv_def Let_def)
qed

lemma Update_Inr:
  assumes "Update now t d = (t', Inr d')"
  shows "t' = t\<lparr>t_Version := t_Version t + 1\<rparr>"
    "d' = d\<lparr>db_payments := tupdate (\<lambda>x. t_ID x = t_ID t) (updated_row now t) (db_payments d)\<rparr>"
    "\<exists>r. payment_row (t_ID t) d = Some r \<and> t_Version r = t_Version t \<and> CanTransitionTo (t_State r) (t_State t)
       \<and> payment_checks (updated_row now t r)"
  using assms by (auto simp: Update_def db_accepts_iff split: option.splits if_splits)

lemma updated_row_id [simp]: "t_ID (updated_row now t r) = t_ID r"
  by (simp add: updated_row_def)

lemma payment_row_Update:
  assumes "Update now t d = (t', Inr d')"
  shows "payment_row i d' = (if i = t_ID t then map_option (updated_row now t) (payment_row i d) else payment_row i d)"
  unfolding payment_row_def Update_Inr(2) [OF assms]
  by (simp add: tfind_tupdate) (auto simp: map_option_case split: option.splits dest!: tfind_SomeD)

lemma Update_payments_ok:
  assumes "payments_ok d" "Update now t d = (t', Inr d')"
  shows "payments_ok d'"
proof -
  note u = Update_Inr [OF assms(2)]
  obtain r where r: "payment_row (t_ID t) d = Some r" "payment_checks (updated_row now t r)" using u(3) by blast
  have "x = r" if "x \<in> set (db_payments d)" "t_ID x = t_ID t" for x
    using that payment_row_Some [OF r(1)] assms(1) inj_onD [of t_ID "set (db_payments d)" x r]
    by (simp add: payments_ok_def distinct_map)
  moreover have "txn_inv (updated_row now t r)" "known_state (t_State (updated_row now t r))"
    using r(2) by (auto simp: payment_checks_def txn_inv_def updated_row_def)
  moreover have "map t_ID (db_payments d') = map t_ID (db_payments d)" by (simp add: u(2) tupdate_def)
  ultimately show ?thesis using assms(1) by (auto simp: payments_ok_def u(2) set_tupdate)
qed

lemma Insert_Inr:
  assumes "Insert now t d = Inr d'"
  shows "\<exists>row. d' = d\<lparr>db_payments := db_payments d @ [row]\<rparr> \<and> t_ID row = t_ID t \<and> payment_checks row
      \<and> t_State row = t_State t \<and> t_Version row = t_Version t \<and> t_MerchantID row = t_MerchantID t
      \<and> m_currency (t_Captured row) = m_currency (t_Amount row) \<and> m_currency (t_Refunded row) = m_currency (t_Amount row)"
    "payment_row (t_ID t) d = None"
proof -
  show "\<exists>row. d' = d\<lparr>db_payments := db_payments d @ [row]\<rparr> \<and> t_ID row = t_ID t \<and> payment_checks row
      \<and> t_State row = t_State t \<and> t_Version row = t_Version t \<and> t_MerchantID row = t_MerchantID t
      \<and> m_currency (t_Captured row) = m_currency (t_Amount row) \<and> m_currency (t_Refunded row) = m_currency (t_Amount row)"
    using assms by (auto simp: Insert_def Let_def split: if_splits)
  show "payment_row (t_ID t) d = None"
    using assms by (auto simp: Insert_def Let_def payment_row_def tfind_None_iff list_ex_iff split: if_splits)
qed

lemma Insert_payments_ok:
  assumes "payments_ok d" "Insert now t d = Inr d'"
  shows "payments_ok d'"
proof -
  have "t_ID t \<notin> t_ID ` set (db_payments d)"
    using Insert_Inr(2) [OF assms(2)] by (auto simp: payment_row_def tfind_None_iff)
  then show ?thesis
    using Insert_Inr(1) [OF assms(2)] assms(1) by (auto simp: payments_ok_def payment_checks_def txn_inv_def)
qed

section \<open>The audit trail\<close>

text \<open>A trail is a path of the state machine: it starts with the row recording creation and every
  later row leaves the state the previous one entered, by an allowed move.\<close>

fun trail_path :: "State option \<Rightarrow> (State option \<times> State) list \<Rightarrow> State option \<Rightarrow> bool" where
  "trail_path s [] s' \<longleftrightarrow> s = s'"
| "trail_path s ((f, t) # cs) s' \<longleftrightarrow>
     f = s \<and> (case s of None \<Rightarrow> t = StateCreated | Some x \<Rightarrow> CanTransitionTo x t) \<and> trail_path (Some t) cs s'"

definition trail :: "uuid \<Rightarrow> db \<Rightarrow> (State option \<times> State) list" where
  "trail i d = map (\<lambda>c. (sc_From c, sc_To c)) (filter (\<lambda>c. sc_TransactionID c = i) (db_changes d))"

definition trail_ok :: "db \<Rightarrow> bool" where
  "trail_ok d \<longleftrightarrow> (\<forall>i. trail_path None (trail i d) (map_option t_State (payment_row i d)))"

lemma trail_path_snoc:
  "trail_path s (cs @ [(f, t)]) s' \<longleftrightarrow>
     (\<exists>m. trail_path s cs m \<and> f = m \<and> (case m of None \<Rightarrow> t = StateCreated | Some x \<Rightarrow> CanTransitionTo x t)
       \<and> s' = Some t)"
  by (induction s cs s' rule: trail_path.induct) auto

lemma trail_path_None: "trail_path None cs None \<longleftrightarrow> cs = []"
proof -
  have "\<not> trail_path (Some x) cs None" for x cs by (induction cs arbitrary: x) auto
  then show ?thesis by (cases cs) auto
qed

lemma RecordStateChange_Inr:
  assumes "RecordStateChange inet c d = Inr d'"
  shows "d' = d\<lparr>db_changes := db_changes d @ [c]\<rparr>" "payment_row (sc_TransactionID c) d \<noteq> None"
  using assms by (auto simp: RecordStateChange_def split: if_splits)

lemma trail_ok_transition:
  assumes "trail_ok d" "Update now t d = (t', Inr d1)" "RecordStateChange inet c d1 = Inr d'"
    and "sc_TransactionID c = t_ID t" "sc_To c = t_State t" "sc_From c = map_option t_State (payment_row (t_ID t) d)"
  shows "trail_ok d'"
  unfolding trail_ok_def
proof
  fix i
  note u = Update_Inr [OF assms(2)]
  obtain r where r: "payment_row (t_ID t) d = Some r" "CanTransitionTo (t_State r) (t_State t)" using u(3) by blast
  have row: "payment_row i d' = payment_row i d1" and ch: "db_changes d' = db_changes d @ [c]"
    using RecordStateChange_Inr(1) [OF assms(3)] by (simp_all add: payment_row_def u(2))
  have old: "trail_path None (trail i d) (map_option t_State (payment_row i d))"
    using assms(1) by (simp add: trail_ok_def)
  show "trail_path None (trail i d') (map_option t_State (payment_row i d'))"
  proof (cases "i = t_ID t")
    case True
    then have "map_option t_State (payment_row i d') = Some (t_State t)"
      using row payment_row_Update [OF assms(2), of i] r by (simp add: updated_row_def)
    moreover have "trail i d' = trail i d @ [(Some (t_State r), t_State t)]"
      using True assms(4-6) r by (simp add: trail_def ch)
    ultimately show ?thesis using old r True by (simp add: trail_path_snoc)
  next
    case False
    then show ?thesis using old row payment_row_Update [OF assms(2), of i] assms(4) by (simp add: trail_def ch)
  qed
qed

lemma trail_ok_same_state:
  assumes "trail_ok d" "Update now t d = (t', Inr d')" "map_option t_State (payment_row (t_ID t) d) = Some (t_State t)"
  shows "trail_ok d'"
proof -
  have "map_option t_State (payment_row i d') = map_option t_State (payment_row i d)" for i
    using payment_row_Update [OF assms(2), of i] assms(3) by (auto simp: updated_row_def)
  moreover have "trail i d' = trail i d" for i by (simp add: trail_def Update_Inr(2) [OF assms(2)])
  ultimately show ?thesis using assms(1) by (simp add: trail_ok_def)
qed

lemma trail_ok_insert:
  assumes "trail_ok d" "Insert now t d = Inr d1" "RecordStateChange inet c d1 = Inr d'"
    and "sc_TransactionID c = t_ID t" "sc_To c = t_State t" "sc_From c = None" "t_State t = StateCreated"
  shows "trail_ok d'"
  unfolding trail_ok_def
proof
  fix i
  obtain row where row: "d1 = d\<lparr>db_payments := db_payments d @ [row]\<rparr>" "t_ID row = t_ID t" "t_State row = t_State t"
    using Insert_Inr(1) [OF assms(2)] by blast
  note rc = RecordStateChange_Inr(1) [OF assms(3)]
  have none: "payment_row (t_ID t) d = None" by (rule Insert_Inr(2) [OF assms(2)])
  have "trail_path None (trail i d) (map_option t_State (payment_row i d))" using assms(1) by (simp add: trail_ok_def)
  then show "trail_path None (trail i d') (map_option t_State (payment_row i d'))"
    using none row assms(4-7) by (auto simp: rc payment_row_def tfind_append trail_def trail_path_None split: option.splits)
qed

section \<open>Optimistic locking\<close>

definition payment_version :: "db \<Rightarrow> uuid \<Rightarrow> int option" where
  "payment_version d i = map_option t_Version (payment_row i d)"

text \<open>A writer: it decided under the version it read and now writes the aggregate it computed.\<close>

definition update_as :: "time \<Rightarrow> uuid \<Rightarrow> int \<Rightarrow> Transaction \<Rightarrow> db \<Rightarrow> db option" where
  "update_as now i v t d =
     (case Update now (t\<lparr>t_ID := i, t_Version := v\<rparr>) d of (_, Inl _) \<Rightarrow> None | (_, Inr d') \<Rightarrow> Some d')"

lemma update_as_Some:
  "update_as now i v t d = Some d' \<longleftrightarrow> (\<exists>t'. Update now (t\<lparr>t_ID := i, t_Version := v\<rparr>) d = (t', Inr d'))"
  by (auto simp: update_as_def split: prod.splits sum.splits)

lemma update_as_version:
  assumes "update_as now i v t d = Some d'"
  shows "payment_version d i = Some v" "payment_version d' j = (if j = i then Some (v + 1) else payment_version d j)"
proof -
  obtain t' where u: "Update now (t\<lparr>t_ID := i, t_Version := v\<rparr>) d = (t', Inr d')"
    using assms by (auto simp: update_as_Some)
  obtain r where r: "payment_row i d = Some r" "t_Version r = v" using Update_Inr(3) [OF u] by auto
  then show "payment_version d i = Some v" by (simp add: payment_version_def)
  show "payment_version d' j = (if j = i then Some (v + 1) else payment_version d j)"
    using payment_row_Update [OF u, of j] r by (simp add: payment_version_def updated_row_def)
qed

interpretation versions: cas_store payment_version "update_as now" "\<lambda>v. v" "\<lambda>_. True" for now
  by unfold_locales (auto simp: update_as_version split: option.splits)

text \<open>Of all the writers that read a payment at one version, at most one write goes through,
  however many there are, in whatever order they and other writers run and whatever each of them
  computed; in particular two concurrent captures cannot both be recorded.\<close>

theorem one_writer_per_version: "wins i v ws (fst (run_writes (update_as now) ws d)) \<le> 1"
  by (rule versions.one_winner) simp

end
