(* ===== verification/LedgerStore.thy ===== *)
theory LedgerStore
  imports Database
begin

text \<open>
  The ledger repository (internal/store/ledger): accounts on demand, entries with their postings,
  derived balances, and the ledger-wide invariant check. The insert statements carry the
  constraints of migration 2: positive amounts, known directions, the composite foreign key on
  account and currency, the primary key of entries.
\<close>

section \<open>Operations (repository.go, invariant.go)\<close>

definition natural_key :: "Account \<Rightarrow> Owner \<times> Purpose \<times> currency" where
  "natural_key a = (a_Owner a, a_Purpose a, a_Currency a)"

definition EnsureAccount :: "Account \<Rightarrow> db \<Rightarrow> (Account \<times> db) result" where
  "EnsureAccount acct d =
     ebind (AccountType_Validate (a_Type acct)) (\<lambda>_.
     ebind (Currency_Validate (a_Currency acct)) (\<lambda>_.
     case tfind (\<lambda>a. natural_key a = natural_key acct) (db_accounts d) of
       Some a \<Rightarrow> Inr (a, d)
     | None \<Rightarrow>
         let a = acct\<lparr>a_ID := db_nextid d\<rparr> in
         Inr (a, d\<lparr>db_accounts := db_accounts d @ [a], db_nextid := Suc (db_nextid d)\<rparr>)))"

definition insert_posting :: "uuid \<Rightarrow> Posting \<Rightarrow> db \<Rightarrow> db result" where
  "insert_posting e p d =
     (if \<not> 0 < minor (p_Amount p) then Inl (ErrConstraint ''amount_minor'')
      else if p_Direction p \<noteq> Debit \<and> p_Direction p \<noteq> Credit then Inl (ErrConstraint ''direction'')
      else if \<not> list_ex (\<lambda>a. a_ID a = p_AccountID p \<and> a_Currency a = m_currency (p_Amount p)) (db_accounts d)
      then Inl (ErrConstraint ''postings_account_currency_fk'')
      else if \<not> list_ex (\<lambda>r. je_ID r = e) (db_entries d) then Inl (ErrConstraint ''entry_id'')
      else Inr (d\<lparr>db_postings := db_postings d @ [\<lparr>pr_EntryID = e, pr_Posting = p\<rparr>]\<rparr>))"

fun insert_postings :: "uuid \<Rightarrow> Posting list \<Rightarrow> db \<Rightarrow> db result" where
  "insert_postings e [] d = Inr d"
| "insert_postings e (p # ps) d = ebind (insert_posting e p d) (insert_postings e ps)"

definition RecordEntry :: "Entry \<Rightarrow> db \<Rightarrow> db result" where
  "RecordEntry entry d =
     (if e_Postings entry = [] then Inl ErrNoPostings
      else if list_ex (\<lambda>r. je_ID r = e_ID entry) (db_entries d) then Inl (ErrConstraint ''journal_entries_pkey'')
      else insert_postings (e_ID entry) (e_Postings entry)
        (d\<lparr>db_entries := db_entries d @ [\<lparr>je_ID = e_ID entry, je_TransactionID = e_TransactionID entry,
             je_ShardKey = e_ShardKey entry, je_Description = e_Description entry,
             je_OccurredAt = e_OccurredAt entry\<rparr>]\<rparr>))"

definition sum_where :: "(Posting \<Rightarrow> bool) \<Rightarrow> Direction \<Rightarrow> db \<Rightarrow> int" where
  "sum_where P dir d =
     (\<Sum>p \<leftarrow> filter (\<lambda>p. P p \<and> p_Direction p = dir) (map pr_Posting (db_postings d)). minor (p_Amount p))"

record Balance =
  bal_AccountID :: uuid
  bal_Amount :: Money
  bal_Debits :: Money
  bal_Credits :: Money

definition Balance_of :: "uuid \<Rightarrow> db \<Rightarrow> Balance result" where
  "Balance_of accountID d =
     (case tfind (\<lambda>a. a_ID a = accountID) (db_accounts d) of
        None \<Rightarrow> Inl ErrAccountNotFound
      | Some a \<Rightarrow>
          let debits = sum_where (\<lambda>p. p_AccountID p = accountID) Debit d;
              credits = sum_where (\<lambda>p. p_AccountID p = accountID) Credit d;
              cur = a_Currency a
          in if \<not> in64 debits \<or> \<not> in64 credits then Inl (ErrInfra ''query balance'')
             else
               let net = (word_of_int debits :: int64) - word_of_int credits;
                   net' = (if DebitIncreases (a_Type a) then net else - net)
               in ebind (Money_New net' cur) (\<lambda>amount.
                  ebind (Money_New (word_of_int debits) cur) (\<lambda>debitTotal.
                  ebind (Money_New (word_of_int credits) cur) (\<lambda>creditTotal.
                  Inr \<lparr>bal_AccountID = accountID, bal_Amount = amount, bal_Debits = debitTotal,
                       bal_Credits = creditTotal\<rparr>))))"

record Imbalance =
  im_Currency :: currency
  im_Debits :: int64
  im_Credits :: int64
  im_Delta :: int64

definition imbalance_row :: "db \<Rightarrow> currency \<Rightarrow> Imbalance result" where
  "imbalance_row d cur =
     (let debits = sum_where (\<lambda>p. m_currency (p_Amount p) = cur) Debit d;
          credits = sum_where (\<lambda>p. m_currency (p_Amount p) = cur) Credit d
      in if \<not> in64 debits \<or> \<not> in64 credits then Inl (ErrInfra ''scan imbalance'')
         else Inr \<lparr>im_Currency = cur, im_Debits = word_of_int debits, im_Credits = word_of_int credits,
                   im_Delta = word_of_int debits - word_of_int credits\<rparr>)"

fun collect_results :: "('a \<Rightarrow> 'b result) \<Rightarrow> 'a list \<Rightarrow> 'b list result" where
  "collect_results f [] = Inr []"
| "collect_results f (x # xs) = ebind (f x) (\<lambda>y. ebind (collect_results f xs) (\<lambda>ys. Inr (y # ys)))"

definition CheckInvariant :: "db \<Rightarrow> Imbalance list result" where
  "CheckInvariant d =
     collect_results (imbalance_row d)
       (filter (\<lambda>cur. sum_where (\<lambda>p. m_currency (p_Amount p) = cur) Debit d
                    \<noteq> sum_where (\<lambda>p. m_currency (p_Amount p) = cur) Credit d)
         (remdups (map (m_currency \<circ> p_Amount \<circ> pr_Posting) (db_postings d))))"

section \<open>What a ledger write does\<close>

definition posting_row_ok :: "Posting \<Rightarrow> bool" where
  "posting_row_ok p \<longleftrightarrow> (p_Direction p = Debit \<or> p_Direction p = Credit) \<and> 0 < minor (p_Amount p)"

text \<open>A transaction extends the ledger when all it does to it is append new entries and postings
  of those entries.\<close>

definition ledger_extends :: "db \<Rightarrow> db \<Rightarrow> bool" where
  "ledger_extends d d' \<longleftrightarrow>
     (\<exists>es ps. db_entries d' = db_entries d @ es \<and> db_postings d' = db_postings d @ ps
        \<and> (\<forall>p \<in> set ps. pr_EntryID p \<in> je_ID ` set es \<and> posting_row_ok (pr_Posting p))
        \<and> je_ID ` set es \<inter> je_ID ` set (db_entries d) = {} \<and> distinct (map je_ID es))"

definition ledger_total :: "db \<Rightarrow> currency \<Rightarrow> int" where
  "ledger_total d cur = posting_net cur (map pr_Posting (db_postings d))"

definition ledger_ok :: "db \<Rightarrow> bool" where
  "ledger_ok d \<longleftrightarrow> (\<forall>cur. ledger_total d cur = 0)
     \<and> (\<forall>p \<in> set (db_postings d). pr_EntryID p \<in> je_ID ` set (db_entries d) \<and> posting_row_ok (pr_Posting p))"

lemma ledger_extends_refl [simp]: "ledger_extends d d"
  by (auto simp: ledger_extends_def)

lemma ledger_extends_same:
  "db_entries d' = db_entries d \<Longrightarrow> db_postings d' = db_postings d \<Longrightarrow> ledger_extends d d'"
  by (auto simp: ledger_extends_def)

lemma ledger_extends_trans:
  assumes "ledger_extends d d1" "ledger_extends d1 d2"
  shows "ledger_extends d d2"
proof -
  obtain es ps where 1: "db_entries d1 = db_entries d @ es" "db_postings d1 = db_postings d @ ps"
    "\<forall>p \<in> set ps. pr_EntryID p \<in> je_ID ` set es \<and> posting_row_ok (pr_Posting p)" "je_ID ` set es \<inter> je_ID ` set (db_entries d) = {}"
    "distinct (map je_ID es)" using assms(1) by (auto simp: ledger_extends_def)
  obtain es' ps' where 2: "db_entries d2 = db_entries d1 @ es'" "db_postings d2 = db_postings d1 @ ps'"
    "\<forall>p \<in> set ps'. pr_EntryID p \<in> je_ID ` set es' \<and> posting_row_ok (pr_Posting p)" "je_ID ` set es' \<inter> je_ID ` set (db_entries d1) = {}"
    "distinct (map je_ID es')" using assms(2) by (auto simp: ledger_extends_def)
  have "db_entries d2 = db_entries d @ (es @ es')" "db_postings d2 = db_postings d @ (ps @ ps')"
    using 1 2 by simp_all
  moreover have "\<forall>p \<in> set (ps @ ps'). pr_EntryID p \<in> je_ID ` set (es @ es') \<and> posting_row_ok (pr_Posting p)" using 1(3) 2(3) by auto
  moreover have "je_ID ` set (es @ es') \<inter> je_ID ` set (db_entries d) = {}" using 1(1,4) 2(4) by auto
  moreover have "distinct (map je_ID (es @ es'))" using 1(1,5) 2(4,5) by auto
  ultimately show ?thesis unfolding ledger_extends_def by blast
qed

lemma posting_net_partition:
  assumes "distinct ids" "\<forall>r \<in> set rs. pr_EntryID r \<in> set ids"
  shows "posting_net c (map pr_Posting rs) =
    (\<Sum>i \<leftarrow> ids. posting_net c (map pr_Posting (filter (\<lambda>r. pr_EntryID r = i) rs)))"
  using assms(2)
proof (induction rs)
  case Nil
  then show ?case by (induction ids) auto
next
  case (Cons r rs)
  let ?x = "if m_currency (p_Amount (pr_Posting r)) = c then posting_delta (pr_Posting r) else 0"
  have "(\<Sum>i \<leftarrow> ids. posting_net c (map pr_Posting (filter (\<lambda>r. pr_EntryID r = i) (r # rs)))) =
      (\<Sum>i \<leftarrow> ids. (if i = pr_EntryID r then ?x else 0)
         + posting_net c (map pr_Posting (filter (\<lambda>r. pr_EntryID r = i) rs)))"
    by (intro arg_cong [where f = sum_list] map_cong) auto
  also have "\<dots> = (\<Sum>i \<leftarrow> ids. if i = pr_EntryID r then ?x else 0)
      + (\<Sum>i \<leftarrow> ids. posting_net c (map pr_Posting (filter (\<lambda>r. pr_EntryID r = i) rs)))"
    by (rule sum_list_addf)
  also have "(\<Sum>i \<leftarrow> ids. if i = pr_EntryID r then ?x else 0) = ?x"
    using assms(1) Cons.prems by (subst sum_list_distinct_conv_sum_set) auto
  finally show ?case using Cons by auto
qed

lemma balanced_entry_net:
  assumes "assert_journal_entry_balances d e"
  shows "posting_net c (entry_postings d (je_ID e)) = 0"
proof (cases "c \<in> set (map (m_currency \<circ> p_Amount) (entry_postings d (je_ID e)))")
  case True
  then show ?thesis using assms by (auto simp: assert_journal_entry_balances_def Let_def list_all_iff)
qed (rule posting_net_notin)

lemma ledger_ok_commit:
  assumes "ledger_ok d" "ledger_extends d d'" "commit_check d d' = Inr ()"
  shows "ledger_ok d'"
proof -
  obtain es ps where e: "db_entries d' = db_entries d @ es" "db_postings d' = db_postings d @ ps"
    "\<forall>p \<in> set ps. pr_EntryID p \<in> je_ID ` set es \<and> posting_row_ok (pr_Posting p)" "je_ID ` set es \<inter> je_ID ` set (db_entries d) = {}"
    "distinct (map je_ID es)" using assms(2) by (auto simp: ledger_extends_def)
  have bal: "assert_journal_entry_balances d' x" if "x \<in> set es" for x
    using assms(3) e(1) that by (auto simp: commit_check_def err_simps list_all_iff)
  have old: "filter (\<lambda>r. pr_EntryID r = i) (db_postings d) = []" if "i \<in> je_ID ` set es" for i
    using assms(1) e(4) that by (auto simp: ledger_ok_def filter_empty_conv)
  have z: "posting_net c (map pr_Posting (filter (\<lambda>r. pr_EntryID r = i) ps)) = 0"
    if i: "i \<in> set (map je_ID es)" for i c
  proof -
    obtain x where x: "x \<in> set es" "i = je_ID x" using i by auto
    then have "entry_postings d' i = map pr_Posting (filter (\<lambda>r. pr_EntryID r = i) ps)"
      using old [of i] by (simp add: entry_postings_def e(2))
    then show ?thesis using balanced_entry_net [OF bal [OF x(1)], of c] x(2) by simp
  qed
  have "posting_net c (map pr_Posting ps) = 0" for c
  proof -
    have "posting_net c (map pr_Posting ps) =
        (\<Sum>i \<leftarrow> map je_ID es. posting_net c (map pr_Posting (filter (\<lambda>r. pr_EntryID r = i) ps)))"
      using e(3,5) by (intro posting_net_partition) auto
    also have "\<dots> = (\<Sum>i \<leftarrow> map je_ID es. 0)" by (intro arg_cong [where f = sum_list] map_cong) (auto simp: z)
    finally show ?thesis by (simp add: comp_def)
  qed
  then have "ledger_total d' cur = 0" for cur
    using assms(1) by (simp add: ledger_total_def ledger_ok_def e(2))
  moreover have "pr_EntryID p \<in> je_ID ` set (db_entries d') \<and> posting_row_ok (pr_Posting p)"
    if "p \<in> set (db_postings d')" for p
    using that assms(1) e(3) by (auto simp: ledger_ok_def e(1,2))
  ultimately show ?thesis by (simp add: ledger_ok_def)
qed

lemma EnsureAccount_Inr:
  assumes "EnsureAccount acct d = Inr (a, d')"
  shows "natural_key a = natural_key acct" "a \<in> set (db_accounts d')"
    "d' = d \<and> a \<in> set (db_accounts d)
     \<or> d' = d\<lparr>db_accounts := db_accounts d @ [a], db_nextid := Suc (db_nextid d)\<rparr>
       \<and> a = acct\<lparr>a_ID := db_nextid d\<rparr> \<and> (\<forall>b \<in> set (db_accounts d). natural_key b \<noteq> natural_key acct)"
    "valid_currency (a_Currency a)"
  using assms
  by (auto simp: EnsureAccount_def err_simps Let_def Currency_Validate_eq natural_key_def tfind_None_iff
      split: option.splits if_splits dest!: tfind_SomeD)

lemma EnsureAccount_ledger: "EnsureAccount acct d = Inr (a, d') \<Longrightarrow> ledger_extends d d'"
  using EnsureAccount_Inr(3) [of acct d a d'] by (auto intro: ledger_extends_same)

lemma EnsureAccount_frame:
  assumes "EnsureAccount acct d = Inr (a, d')"
  shows "db_payments d' = db_payments d" "db_changes d' = db_changes d" "db_entries d' = db_entries d"
    "db_postings d' = db_postings d" "db_outbox d' = db_outbox d" "db_idem d' = db_idem d"
    "db_fees d' = db_fees d" "db_transfers d' = db_transfers d" "db_reservations d' = db_reservations d"
    "db_processed d' = db_processed d"
    "\<exists>bs. db_accounts d' = db_accounts d @ bs"
  using EnsureAccount_Inr(3) [OF assms] by auto

lemma insert_posting_Inr:
  assumes "insert_posting e p d = Inr d'"
  shows "d' = d\<lparr>db_postings := db_postings d @ [\<lparr>pr_EntryID = e, pr_Posting = p\<rparr>]\<rparr>"
    "0 < minor (p_Amount p)" "posting_row_ok p"
    "\<exists>a \<in> set (db_accounts d). a_ID a = p_AccountID p \<and> a_Currency a = m_currency (p_Amount p)"
  using assms by (auto simp: insert_posting_def posting_row_ok_def list_ex_iff split: if_splits)

lemma insert_postings_Inr:
  assumes "insert_postings e ps d = Inr d'"
  shows "d' = d\<lparr>db_postings := db_postings d @ map (\<lambda>p. \<lparr>pr_EntryID = e, pr_Posting = p\<rparr>) ps\<rparr>
    \<and> list_all posting_row_ok ps"
  using assms
proof (induction ps arbitrary: d)
  case (Cons p ps)
  then obtain d1 where "insert_posting e p d = Inr d1" "insert_postings e ps d1 = Inr d'"
    by (auto simp: err_simps)
  then show ?case using Cons.IH [of d1] insert_posting_Inr [of e p d d1] by simp
qed simp

lemma RecordEntry_Inr:
  assumes "RecordEntry x d = Inr d'"
  shows "d' = d\<lparr>db_entries := db_entries d @ [\<lparr>je_ID = e_ID x, je_TransactionID = e_TransactionID x,
             je_ShardKey = e_ShardKey x, je_Description = e_Description x, je_OccurredAt = e_OccurredAt x\<rparr>],
           db_postings := db_postings d @ map (\<lambda>p. \<lparr>pr_EntryID = e_ID x, pr_Posting = p\<rparr>) (e_Postings x)\<rparr>"
    "e_ID x \<notin> je_ID ` set (db_entries d)" "list_all posting_row_ok (e_Postings x)" "e_Postings x \<noteq> []"
proof -
  let ?d1 = "d\<lparr>db_entries := db_entries d @ [\<lparr>je_ID = e_ID x, je_TransactionID = e_TransactionID x,
     je_ShardKey = e_ShardKey x, je_Description = e_Description x, je_OccurredAt = e_OccurredAt x\<rparr>]\<rparr>"
  have g: "e_Postings x \<noteq> []" "\<not> list_ex (\<lambda>r. je_ID r = e_ID x) (db_entries d)"
    "insert_postings (e_ID x) (e_Postings x) ?d1 = Inr d'"
    using assms by (auto simp: RecordEntry_def split: if_splits)
  note i = insert_postings_Inr [OF g(3)]
  show "d' = d\<lparr>db_entries := db_entries d @ [\<lparr>je_ID = e_ID x, je_TransactionID = e_TransactionID x,
             je_ShardKey = e_ShardKey x, je_Description = e_Description x, je_OccurredAt = e_OccurredAt x\<rparr>],
           db_postings := db_postings d @ map (\<lambda>p. \<lparr>pr_EntryID = e_ID x, pr_Posting = p\<rparr>) (e_Postings x)\<rparr>"
    using i by simp
  show "e_ID x \<notin> je_ID ` set (db_entries d)" using g(2) by (auto simp: list_ex_iff)
  show "list_all posting_row_ok (e_Postings x)" "e_Postings x \<noteq> []" using i g(1) by simp_all
qed

lemma RecordEntry_ledger: "RecordEntry x d = Inr d' \<Longrightarrow> ledger_extends d d'"
  using RecordEntry_Inr [of x d d'] unfolding ledger_extends_def
  by (intro exI [of _ "[\<lparr>je_ID = e_ID x, je_TransactionID = e_TransactionID x, je_ShardKey = e_ShardKey x,
        je_Description = e_Description x, je_OccurredAt = e_OccurredAt x\<rparr>]"]
      exI [of _ "map (\<lambda>p. \<lparr>pr_EntryID = e_ID x, pr_Posting = p\<rparr>) (e_Postings x)"])
    (auto simp: list_all_iff)

section \<open>The ledger stays balanced\<close>

text \<open>The contract of a transaction body that writes the ledger: all it does to it is extend it.
  Whatever else it does, running it in a transaction, under any fault, keeps the ledger
  balanced, because the trigger runs at commit on every new entry.\<close>

locale ledger_writer =
  fixes body :: "'s body"
  assumes extends: "body s d = (s', Inr d') \<Longrightarrow> ledger_extends d d'"
begin

lemma tx_keeps_ledger:
  assumes "DB_WithTx f body s d = (s', r, d')" "ledger_ok d"
  shows "ledger_ok d'"
  using assms(1)
proof (cases rule: DB_WithTx_cases)
  case (committed d1)
  then show ?thesis using ledger_ok_commit [OF assms(2) extends] by blast
qed (use assms(2) in simp)

end

definition record_body :: "Entry body" where
  "record_body = (\<lambda>x d. (x, RecordEntry x d))"

interpretation entry_writer: ledger_writer record_body
  by unfold_locales (auto simp: record_body_def intro: RecordEntry_ledger)

lemma sum_where_split:
  assumes "\<forall>r \<in> set (db_postings d). posting_row_ok (pr_Posting r)"
  shows "sum_where (\<lambda>p. m_currency (p_Amount p) = cur) Debit d
       - sum_where (\<lambda>p. m_currency (p_Amount p) = cur) Credit d = ledger_total d cur"
proof -
  have "(\<Sum>p \<leftarrow> filter (\<lambda>p. m_currency (p_Amount p) = cur \<and> p_Direction p = Debit) ps. minor (p_Amount p))
      - (\<Sum>p \<leftarrow> filter (\<lambda>p. m_currency (p_Amount p) = cur \<and> p_Direction p = Credit) ps. minor (p_Amount p))
      = posting_net cur ps" if "\<forall>p \<in> set ps. posting_row_ok p" for ps
    using that by (induction ps) (auto simp: posting_row_ok_def posting_delta_def)
  then show ?thesis using assms by (simp add: sum_where_def ledger_total_def)
qed

lemma CheckInvariant_ok:
  assumes "ledger_ok d"
  shows "CheckInvariant d = Inr []"
proof -
  have "sum_where (\<lambda>p. m_currency (p_Amount p) = cur) Debit d
      = sum_where (\<lambda>p. m_currency (p_Amount p) = cur) Credit d" for cur
    using sum_where_split [of d cur] assms by (simp add: ledger_ok_def)
  then show ?thesis by (simp add: CheckInvariant_def)
qed

text \<open>C7: whatever entry is recorded, even one that was not built by \<open>NewEntry\<close>, and however the
  transaction ends (refused, rolled back, committed, committed with the answer lost), the ledger
  stays balanced in every currency and the invariant check reports nothing.\<close>

theorem RecordEntry_keeps_ledger:
  assumes "ledger_ok d" "DB_WithTx f record_body x d = (x', r, d')"
  shows "ledger_ok d' \<and> CheckInvariant d' = Inr []
    \<and> (r = Inr () \<longrightarrow> (\<forall>cur. posting_net cur (e_Postings x) = 0))"
proof -
  have ok: "ledger_ok d'" using entry_writer.tx_keeps_ledger [OF assms(2,1)] .
  have "posting_net cur (e_Postings x) = 0" if "r = Inr ()" for cur
  proof -
    have "RecordEntry x d = Inr d'"
      using DB_WithTx_ok(1) [of f record_body x d x' "()" d'] assms(2) that by (auto simp: record_body_def)
    then have "ledger_total d' cur = ledger_total d cur + posting_net cur (e_Postings x)"
      using RecordEntry_Inr(1) [of x d d'] by (simp add: ledger_total_def comp_def)
    then show ?thesis using ok assms(1) by (simp add: ledger_ok_def)
  qed
  then show ?thesis using ok CheckInvariant_ok by blast
qed

theorem RecordEntry_keeps_ledger_witness:
  "let d = empty_db\<lparr>db_accounts := [\<lparr>a_ID = 1, a_Owner = \<lparr>o_Type = ''psp'', o_ID = ''sim''\<rparr>,
             a_Purpose = PurposeClearing, a_Type = AccountTypeAsset, a_Currency = ''USD'', a_ShardKey = ''s00''\<rparr>],
           db_nextid := 2\<rparr>;
       x = \<lparr>e_ID = 9, e_TransactionID = None, e_ShardKey = ''s00'', e_Description = ''one leg'',
            e_OccurredAt = 0, e_CreatedAt = 0, e_Postings = [mk_posting 1 Debit (mk_money 5 ''USD'')]\<rparr>
   in ledger_ok d \<and> CheckInvariant (snd (snd (DB_WithTx TxOk record_body x d))) = Inr []
      \<and> fst (snd (DB_WithTx TxOk record_body x d)) \<noteq> Inr ()"
proof -
  define d where "d = empty_db\<lparr>db_accounts := [\<lparr>a_ID = 1, a_Owner = \<lparr>o_Type = ''psp'', o_ID = ''sim''\<rparr>,
     a_Purpose = PurposeClearing, a_Type = AccountTypeAsset, a_Currency = ''USD'', a_ShardKey = ''s00''\<rparr>],
     db_nextid := 2\<rparr>"
  define x where "x = \<lparr>e_ID = 9, e_TransactionID = None, e_ShardKey = ''s00'', e_Description = ''one leg'',
     e_OccurredAt = 0, e_CreatedAt = 0, e_Postings = [mk_posting 1 Debit (mk_money 5 ''USD'')]\<rparr>"
  have ok: "ledger_ok d" by (simp add: d_def empty_db_def ledger_ok_def ledger_total_def)
  obtain x' r d' where t: "DB_WithTx TxOk record_body x d = (x', r, d')" by (cases "DB_WithTx TxOk record_body x d") auto
  have "posting_net ''USD'' (e_Postings x) \<noteq> 0" by (simp add: x_def posting_delta_def)
  then have "CheckInvariant d' = Inr [] \<and> r \<noteq> Inr ()"
    using RecordEntry_keeps_ledger [OF ok t] by auto
  then show ?thesis using ok t unfolding Let_def d_def [symmetric] x_def [symmetric] by simp
qed

section \<open>Accounts and balances\<close>

definition accounts_ok :: "db \<Rightarrow> bool" where
  "accounts_ok d \<longleftrightarrow> distinct (map a_ID (db_accounts d)) \<and> distinct (map natural_key (db_accounts d))
     \<and> (\<forall>a \<in> set (db_accounts d). a_ID a < db_nextid d)"

lemma accounts_ok_append:
  assumes "accounts_ok d" "a_ID a = db_nextid d" "\<forall>b \<in> set (db_accounts d). natural_key b \<noteq> natural_key a"
  shows "accounts_ok (d\<lparr>db_accounts := db_accounts d @ [a], db_nextid := Suc (db_nextid d)\<rparr>)"
proof -
  have "natural_key a \<notin> natural_key ` set (db_accounts d)" using assms(3) by auto
  moreover have "a_ID a \<notin> a_ID ` set (db_accounts d)" using assms(1,2) by (auto simp: accounts_ok_def)
  ultimately show ?thesis using assms(1,2) by (auto simp: accounts_ok_def less_Suc_eq)
qed

lemma EnsureAccount_accounts_ok:
  assumes "accounts_ok d" "EnsureAccount acct d = Inr (a, d')"
  shows "accounts_ok d'"
  using EnsureAccount_Inr(1,3) [OF assms(2)] assms(1) by (auto intro: accounts_ok_append)

lemma accounts_ok_unique:
  assumes "accounts_ok d" "a \<in> set (db_accounts d)" "b \<in> set (db_accounts d)"
  shows "a_ID a = a_ID b \<Longrightarrow> a = b" "natural_key a = natural_key b \<Longrightarrow> a = b"
  using assms by (auto simp: accounts_ok_def distinct_map dest: inj_onD)

text \<open>Asking for an account twice gives the same account and creates it at most once; account
  identities and natural keys (owner, purpose, currency) stay distinct.\<close>

theorem EnsureAccount_once:
  assumes "accounts_ok d" "EnsureAccount acct d = Inr (a, d1)"
  shows "accounts_ok d1 \<and> natural_key a = natural_key acct \<and> EnsureAccount acct d1 = Inr (a, d1)
    \<and> (\<exists>bs. db_accounts d1 = db_accounts d @ bs \<and> length bs \<le> 1)"
proof -
  note i = EnsureAccount_Inr [OF assms(2)] and ok = EnsureAccount_accounts_ok [OF assms]
  obtain b where b: "tfind (\<lambda>x. natural_key x = natural_key acct) (db_accounts d1) = Some b"
    using i(1,2) tfind_Some_iff_exists [of "\<lambda>x. natural_key x = natural_key acct" "db_accounts d1"] by blast
  then have "b = a" using tfind_SomeD [OF b] i(1,2) accounts_ok_unique(2) [OF ok] by metis
  moreover have "AccountType_Validate (a_Type acct) = Inr ()" "Currency_Validate (a_Currency acct) = Inr ()"
    using assms(2) by (auto simp: EnsureAccount_def err_simps)
  ultimately have "EnsureAccount acct d1 = Inr (a, d1)" using b by (simp add: EnsureAccount_def)
  moreover have "\<exists>bs. db_accounts d1 = db_accounts d @ bs \<and> length bs \<le> 1" using i(3) by auto
  ultimately show ?thesis using ok i(1) by blast
qed

theorem EnsureAccount_once_witness:
  "\<exists>a d1. EnsureAccount \<lparr>a_ID = 0, a_Owner = \<lparr>o_Type = ''psp'', o_ID = ''sim''\<rparr>, a_Purpose = PurposeClearing,
      a_Type = AccountTypeAsset, a_Currency = ''USD'', a_ShardKey = ''s00''\<rparr> empty_db = Inr (a, d1)
    \<and> accounts_ok d1 \<and> length (db_accounts d1) = 1"
proof -
  let ?acct = "\<lparr>a_ID = 0, a_Owner = \<lparr>o_Type = ''psp'', o_ID = ''sim''\<rparr>, a_Purpose = PurposeClearing,
      a_Type = AccountTypeAsset, a_Currency = ''USD'', a_ShardKey = ''s00''\<rparr>"
  have ok: "accounts_ok empty_db" by (simp add: accounts_ok_def empty_db_def)
  obtain a d1 where e: "EnsureAccount ?acct empty_db = Inr (a, d1)" "length (db_accounts d1) = 1"
    by (simp add: EnsureAccount_def AccountType_Validate_def Currency_Validate_eq valid_currency_def
        is_upper_def empty_db_def Let_def)
  then show ?thesis using EnsureAccount_once [OF ok e(1)] by blast
qed

lemma sum_where_nonneg:
  assumes "ledger_ok d"
  shows "0 \<le> sum_where P dir d"
proof -
  have "\<forall>p \<in> set (map pr_Posting (db_postings d)). 0 < minor (p_Amount p)"
    using assms by (auto simp: ledger_ok_def posting_row_ok_def)
  then show ?thesis unfolding sum_where_def by (intro sum_list_nonneg) (auto intro: less_imp_le)
qed

text \<open>A derived balance is exact: debits minus credits of the account's postings for accounts
  that grow by debit, the negation for the others, with no wrap-around in the subtraction.\<close>

theorem Balance_exact:
  assumes "ledger_ok d" "Balance_of i d = Inr b"
  shows "\<exists>a \<in> set (db_accounts d). a_ID a = i \<and> m_currency (bal_Amount b) = a_Currency a
    \<and> minor (bal_Debits b) = sum_where (\<lambda>p. p_AccountID p = i) Debit d
    \<and> minor (bal_Credits b) = sum_where (\<lambda>p. p_AccountID p = i) Credit d
    \<and> minor (bal_Amount b) = (if DebitIncreases (a_Type a) then 1 else - 1)
        * (sum_where (\<lambda>p. p_AccountID p = i) Debit d - sum_where (\<lambda>p. p_AccountID p = i) Credit d)"
proof -
  define D where "D = sum_where (\<lambda>p. p_AccountID p = i) Debit d"
  define C where "C = sum_where (\<lambda>p. p_AccountID p = i) Credit d"
  obtain a where a: "tfind (\<lambda>a. a_ID a = i) (db_accounts d) = Some a"
    using assms(2) by (auto simp: Balance_of_def split: option.splits)
  have r: "in64 D" "in64 C"
    using assms(2) a unfolding D_def C_def by (auto simp: Balance_of_def Let_def split: if_splits)
  have nn: "0 \<le> D" "0 \<le> C" using sum_where_nonneg [OF assms(1)] unfolding D_def C_def by blast+
  have d: "in64 (D - C)" "in64 (- (D - C))" using r nn by (auto simp: in64_def)
  define net where "net = (if DebitIncreases (a_Type a) then (word_of_int D :: int64) - word_of_int C
     else - (word_of_int D - word_of_int C))"
  have "sint net = (if DebitIncreases (a_Type a) then 1 else - 1) * (D - C)"
    using r d by (simp add: net_def)
  moreover have "b = \<lparr>bal_AccountID = i, bal_Amount = mk_money net (a_Currency a),
      bal_Debits = mk_money (word_of_int D) (a_Currency a), bal_Credits = mk_money (word_of_int C) (a_Currency a)\<rparr>"
    using assms(2) a r unfolding Balance_of_def D_def [symmetric] C_def [symmetric]
    by (auto simp: Let_def net_def ebind_Inr_iff Money_New_Inr_iff)
  ultimately show ?thesis
    using tfind_SomeD [OF a] r unfolding D_def [symmetric] C_def [symmetric]
    by (intro bexI [of _ a]) simp_all
qed

theorem Balance_exact_witness:
  "let d = empty_db\<lparr>db_accounts := [\<lparr>a_ID = 1, a_Owner = \<lparr>o_Type = ''psp'', o_ID = ''sim''\<rparr>,
             a_Purpose = PurposeClearing, a_Type = AccountTypeAsset, a_Currency = ''USD'', a_ShardKey = ''s00''\<rparr>,
           \<lparr>a_ID = 2, a_Owner = \<lparr>o_Type = ''merchant'', o_ID = ''m''\<rparr>,
             a_Purpose = PurposePayable, a_Type = AccountTypeLiability, a_Currency = ''USD'', a_ShardKey = ''s00''\<rparr>],
           db_entries := [\<lparr>je_ID = 9, je_TransactionID = None, je_ShardKey = ''s00'', je_Description = [],
             je_OccurredAt = 0\<rparr>],
           db_postings := [\<lparr>pr_EntryID = 9, pr_Posting = mk_posting 1 Debit (mk_money 5 ''USD'')\<rparr>,
             \<lparr>pr_EntryID = 9, pr_Posting = mk_posting 2 Credit (mk_money 5 ''USD'')\<rparr>], db_nextid := 3\<rparr>
   in \<exists>b. Balance_of 2 d = Inr b \<and> minor (bal_Amount b) = 5"
proof -
  define d where "d = empty_db\<lparr>db_accounts := [\<lparr>a_ID = 1, a_Owner = \<lparr>o_Type = ''psp'', o_ID = ''sim''\<rparr>,
             a_Purpose = PurposeClearing, a_Type = AccountTypeAsset, a_Currency = ''USD'', a_ShardKey = ''s00''\<rparr>,
           \<lparr>a_ID = 2, a_Owner = \<lparr>o_Type = ''merchant'', o_ID = ''m''\<rparr>,
             a_Purpose = PurposePayable, a_Type = AccountTypeLiability, a_Currency = ''USD'', a_ShardKey = ''s00''\<rparr>],
           db_entries := [\<lparr>je_ID = 9, je_TransactionID = None, je_ShardKey = ''s00'', je_Description = [],
             je_OccurredAt = 0\<rparr>],
           db_postings := [\<lparr>pr_EntryID = 9, pr_Posting = mk_posting 1 Debit (mk_money 5 ''USD'')\<rparr>,
             \<lparr>pr_EntryID = 9, pr_Posting = mk_posting 2 Credit (mk_money 5 ''USD'')\<rparr>], db_nextid := 3\<rparr>"
  have ok: "ledger_ok d"
    by (simp add: d_def ledger_ok_def ledger_total_def posting_row_ok_def posting_delta_def)
  have s: "sum_where (\<lambda>p. p_AccountID p = 2) Debit d = 0" "sum_where (\<lambda>p. p_AccountID p = 2) Credit d = 5"
    by (simp_all add: d_def sum_where_def)
  have f: "tfind (\<lambda>a. a_ID a = 2) (db_accounts d) = Some \<lparr>a_ID = 2, a_Owner = \<lparr>o_Type = ''merchant'', o_ID = ''m''\<rparr>,
     a_Purpose = PurposePayable, a_Type = AccountTypeLiability, a_Currency = ''USD'', a_ShardKey = ''s00''\<rparr>"
    by (simp add: d_def)
  obtain b where b: "Balance_of 2 d = Inr b"
    by (simp add: Balance_of_def s f DebitIncreases_def Money_New_def Currency_Validate_eq valid_currency_def
        is_upper_def in64_def Let_def)
  have "minor (bal_Amount b) = 5"
    using Balance_exact [OF ok b] s by (auto simp: d_def DebitIncreases_def)
  then show ?thesis using b unfolding Let_def d_def [symmetric] by blast
qed

end
