(* ===== verification/FeeStore.thy ===== *)
theory FeeStore
  imports Database
begin

text \<open>
  The fee schedule repository (internal/store/fee/repository.go) with the constraints of migration
  8: the checks on a row, one row per merchant, currency and start, and at most one open-ended
  row per merchant and currency.
\<close>

definition outranks :: "string \<Rightarrow> Schedule \<Rightarrow> Schedule \<Rightarrow> bool" where
  "outranks m a b \<longleftrightarrow>
     (s_MerchantID a = m \<and> s_MerchantID b \<noteq> m)
     \<or> ((s_MerchantID a = m \<longleftrightarrow> s_MerchantID b = m) \<and> s_EffectiveFrom b < s_EffectiveFrom a)"

fun first_ranked :: "string \<Rightarrow> Schedule list \<Rightarrow> Schedule option" where
  "first_ranked m [] = None"
| "first_ranked m (s # ss) =
     (case first_ranked m ss of None \<Rightarrow> Some s | Some b \<Rightarrow> if outranks m b s then Some b else Some s)"

definition in_force :: "string \<Rightarrow> currency \<Rightarrow> time \<Rightarrow> Schedule \<Rightarrow> bool" where
  "in_force m cur at s \<longleftrightarrow>
     (s_MerchantID s = m \<or> s_MerchantID s = DefaultMerchant) \<and> s_Currency s = cur
     \<and> s_EffectiveFrom s \<le> at
     \<and> (case s_EffectiveTo s of None \<Rightarrow> True | Some t \<Rightarrow> at < t)"

definition ScheduleFor :: "string \<Rightarrow> currency \<Rightarrow> time \<Rightarrow> db \<Rightarrow> Schedule result" where
  "ScheduleFor m cur at d =
     (case first_ranked m (filter (in_force m cur at) (db_fees d)) of
        None \<Rightarrow> Inl ErrNoSchedule
      | Some s \<Rightarrow> Inr s)"

definition same_start :: "Schedule \<Rightarrow> Schedule \<Rightarrow> bool" where
  "same_start a b \<longleftrightarrow> s_MerchantID a = s_MerchantID b \<and> s_Currency a = s_Currency b
     \<and> s_EffectiveFrom a = s_EffectiveFrom b"

definition closePrevious :: "Schedule \<Rightarrow> Schedule list \<Rightarrow> Schedule list" where
  "closePrevious s rows =
     tupdate (\<lambda>r. s_MerchantID r = s_MerchantID s \<and> s_Currency r = s_Currency s \<and> s_EffectiveTo r = None
                \<and> s_EffectiveFrom r < s_EffectiveFrom s)
       (\<lambda>r. r\<lparr>s_EffectiveTo := Some (s_EffectiveFrom s)\<rparr>) rows"

definition Upsert :: "Schedule \<Rightarrow> db \<Rightarrow> db result" where
  "Upsert s d =
     (let rows = closePrevious s (db_fees d);
          rows' = (if list_ex (same_start s) rows
                   then tupdate (same_start s) (\<lambda>r. r\<lparr>s_BasisPoints := s_BasisPoints s,
                          s_FixedMinor := s_FixedMinor s, s_EffectiveTo := s_EffectiveTo s\<rparr>) rows
                   else rows @ [s])
      in if \<not> schedule_ok s \<or> \<not> valid_currency (s_Currency s) then Inl (ErrConstraint ''fee_schedules'')
         else if s_EffectiveTo s = None
           \<and> length (filter (\<lambda>r. s_MerchantID r = s_MerchantID s \<and> s_Currency r = s_Currency s
                \<and> s_EffectiveTo r = None) rows') > 1
         then Inl (ErrConstraint ''fee_schedules_current_idx'')
         else Inr (d\<lparr>db_fees := rows'\<rparr>))"

section \<open>Lookup\<close>

lemma outranks_trans: "outranks m a b \<Longrightarrow> outranks m b c \<Longrightarrow> outranks m a c"
  by (auto simp: outranks_def)

lemma first_ranked_None [simp]: "first_ranked m ss = None \<longleftrightarrow> ss = []"
  by (cases ss) (auto split: option.splits)

lemma first_ranked_Some:
  "first_ranked m ss = Some s \<Longrightarrow> s \<in> set ss \<and> (\<forall>x \<in> set ss. \<not> outranks m x s)"
proof (induction ss arbitrary: s)
  case (Cons x ss)
  show ?case
  proof (cases "first_ranked m ss")
    case None
    then show ?thesis using Cons.prems by (auto simp: outranks_def)
  next
    case (Some b)
    note ih = Cons.IH [OF Some]
    show ?thesis
    proof (cases "outranks m b x")
      case True
      then show ?thesis using Cons.prems Some ih outranks_trans [of m x b x] by (auto simp: outranks_def)
    next
      case False
      then have "s = x" using Cons.prems Some by simp
      moreover have "\<not> outranks m y x" if "y \<in> set ss" for y
        using ih that False outranks_trans [of m b x] by (auto simp: outranks_def)
      ultimately show ?thesis by (auto simp: outranks_def)
    qed
  qed
qed simp

lemma ScheduleFor_Inr:
  assumes "ScheduleFor m cur at d = Inr s"
  shows "s \<in> set (db_fees d)" "in_force m cur at s"
    "\<And>x. x \<in> set (db_fees d) \<Longrightarrow> in_force m cur at x \<Longrightarrow> \<not> outranks m x s"
  using assms first_ranked_Some [of m "filter (in_force m cur at) (db_fees d)" s]
  by (auto simp: ScheduleFor_def split: option.splits)

text \<open>The lookup finds a schedule exactly when one is in force; what it returns applies at the
  instant, in the right currency, is the merchant's own whenever the merchant has one in force,
  and is the one that started last.\<close>

theorem ScheduleFor_correct:
  "(case ScheduleFor m cur at d of
      Inl e \<Rightarrow> e = ErrNoSchedule \<and> filter (in_force m cur at) (db_fees d) = []
    | Inr s \<Rightarrow> s \<in> set (db_fees d) \<and> Applies s at \<and> s_Currency s = cur
        \<and> (s_MerchantID s = m \<or> s_MerchantID s = DefaultMerchant)
        \<and> list_all (\<lambda>x. (s_MerchantID x = m \<longrightarrow> s_MerchantID s = m)
             \<and> ((s_MerchantID x = m \<longleftrightarrow> s_MerchantID s = m) \<longrightarrow> s_EffectiveFrom x \<le> s_EffectiveFrom s))
            (filter (in_force m cur at) (db_fees d)))"
proof (cases "ScheduleFor m cur at d")
  case (Inl e)
  then show ?thesis by (auto simp: ScheduleFor_def split: option.splits)
next
  case (Inr s)
  note i = ScheduleFor_Inr [OF Inr]
  have "(s_MerchantID x = m \<longrightarrow> s_MerchantID s = m)
      \<and> ((s_MerchantID x = m \<longleftrightarrow> s_MerchantID s = m) \<longrightarrow> s_EffectiveFrom x \<le> s_EffectiveFrom s)"
    if "x \<in> set (db_fees d)" "in_force m cur at x" for x
    using i(3) [OF that] unfolding outranks_def by (meson not_le)
  moreover have "Applies s at" "s_Currency s = cur" "s_MerchantID s = m \<or> s_MerchantID s = DefaultMerchant"
    using i(2) by (auto simp: in_force_def Applies_def)
  ultimately show ?thesis using Inr i(1) by (simp add: list_all_iff) blast
qed

theorem ScheduleFor_correct_witness:
  "\<exists>s. ScheduleFor ''m'' ''USD'' 5 (empty_db\<lparr>db_fees :=
     [\<lparr>s_MerchantID = ''*'', s_Currency = ''USD'', s_BasisPoints = 290, s_FixedMinor = 30, s_EffectiveFrom = 2, s_EffectiveTo = None\<rparr>,
      \<lparr>s_MerchantID = ''m'', s_Currency = ''USD'', s_BasisPoints = 250, s_FixedMinor = 30, s_EffectiveFrom = 1, s_EffectiveTo = None\<rparr>]\<rparr>)
   = Inr s \<and> s_BasisPoints s = 250 \<and> Applies s 5"
proof -
  define d where "d = empty_db\<lparr>db_fees :=
     [\<lparr>s_MerchantID = ''*'', s_Currency = ''USD'', s_BasisPoints = 290, s_FixedMinor = 30, s_EffectiveFrom = 2, s_EffectiveTo = None\<rparr>,
      \<lparr>s_MerchantID = ''m'', s_Currency = ''USD'', s_BasisPoints = 250, s_FixedMinor = 30, s_EffectiveFrom = 1, s_EffectiveTo = None\<rparr>]\<rparr>"
  obtain s where s: "ScheduleFor ''m'' ''USD'' 5 d = Inr s" "s_BasisPoints s = 250"
    by (simp add: ScheduleFor_def d_def in_force_def DefaultMerchant_def outranks_def)
  then show ?thesis using ScheduleFor_correct [of "''m''" "''USD''" 5 d] unfolding d_def [symmetric] by auto
qed

section \<open>Replacing a schedule\<close>

definition fees_ok :: "db \<Rightarrow> bool" where
  "fees_ok d \<longleftrightarrow> (\<forall>s \<in> set (db_fees d). schedule_ok s) \<and> distinct (map (\<lambda>s. (s_MerchantID s, s_Currency s, s_EffectiveFrom s)) (db_fees d))"

lemma closePrevious_keys:
  "map (\<lambda>s. (s_MerchantID s, s_Currency s, s_EffectiveFrom s)) (closePrevious s rows) =
   map (\<lambda>s. (s_MerchantID s, s_Currency s, s_EffectiveFrom s)) rows"
  by (simp add: closePrevious_def tupdate_def)

lemma closePrevious_ok: "\<forall>x \<in> set rows. schedule_ok x \<Longrightarrow> \<forall>x \<in> set (closePrevious s rows). schedule_ok x"
  by (auto simp: closePrevious_def set_tupdate schedule_ok_def)

text \<open>The rows after a successful write.\<close>

lemma Upsert_Inr:
  assumes "Upsert s d = Inr d'" "fees_ok d"
  shows "fees_ok d'" "s \<in> set (db_fees d')" "schedule_ok s"
    "\<And>x. x \<in> set (db_fees d') \<Longrightarrow> same_start s x \<Longrightarrow> x = s"
proof -
  define rows where "rows = closePrevious s (db_fees d)"
  define upd where "upd r = r\<lparr>s_BasisPoints := s_BasisPoints s, s_FixedMinor := s_FixedMinor s, s_EffectiveTo := s_EffectiveTo s\<rparr>" for r :: Schedule
  have d': "db_fees d' = (if list_ex (same_start s) rows then tupdate (same_start s) upd rows else rows @ [s])"
    and s: "schedule_ok s"
    using assms(1) by (auto simp: Upsert_def rows_def [symmetric] upd_def [abs_def, symmetric] Let_def split: if_splits)
  have upd_eq: "same_start s r \<Longrightarrow> upd r = s" for r
    by (cases s; cases r) (simp add: same_start_def upd_def)
  have ok: "\<forall>x \<in> set rows. schedule_ok x" using assms(2) closePrevious_ok [of "db_fees d" s] by (simp add: rows_def fees_ok_def)
  have dist: "distinct (map (\<lambda>s. (s_MerchantID s, s_Currency s, s_EffectiveFrom s)) rows)"
    using assms(2) by (simp add: rows_def closePrevious_keys fees_ok_def)
  show "schedule_ok s" by (rule s)
  show "s \<in> set (db_fees d')" using upd_eq by (force simp: d' set_tupdate list_ex_iff)
  show "x = s" if "x \<in> set (db_fees d')" "same_start s x" for x
    using that upd_eq by (auto simp: d' set_tupdate list_ex_iff split: if_splits)
  show "fees_ok d'"
  proof (cases "list_ex (same_start s) rows")
    case True
    have "map (\<lambda>s. (s_MerchantID s, s_Currency s, s_EffectiveFrom s)) (tupdate (same_start s) upd rows) =
        map (\<lambda>s. (s_MerchantID s, s_Currency s, s_EffectiveFrom s)) rows"
      by (simp add: tupdate_def upd_def)
    then show ?thesis using True ok s dist upd_eq by (auto simp: fees_ok_def d' set_tupdate)
  next
    case False
    then have "(s_MerchantID s, s_Currency s, s_EffectiveFrom s)
        \<notin> (\<lambda>s. (s_MerchantID s, s_Currency s, s_EffectiveFrom s)) ` set rows"
      by (auto simp: list_ex_iff same_start_def)
    then show ?thesis using False ok s dist by (simp add: fees_ok_def d')
  qed
qed

text \<open>A schedule that was accepted is in force from its first instant: a lookup for its merchant
  at that instant returns it, and the table keeps its constraints.\<close>

theorem Upsert_takes_effect:
  assumes "fees_ok d" "Upsert s d = Inr d'"
  shows "fees_ok d' \<and> ScheduleFor (s_MerchantID s) (s_Currency s) (s_EffectiveFrom s) d' = Inr s"
proof -
  note u = Upsert_Inr [OF assms(2,1)]
  have inf: "in_force (s_MerchantID s) (s_Currency s) (s_EffectiveFrom s) s"
    using u(3) by (auto simp: in_force_def schedule_ok_def split: option.splits)
  then obtain x where x: "ScheduleFor (s_MerchantID s) (s_Currency s) (s_EffectiveFrom s) d' = Inr x"
    using u(2) by (fastforce simp: ScheduleFor_def filter_empty_conv split: option.splits)
  note i = ScheduleFor_Inr [OF x]
  have "\<not> outranks (s_MerchantID s) s x" by (rule i(3) [OF u(2) inf])
  then have "same_start s x" using i(2) by (auto simp: outranks_def in_force_def same_start_def)
  then have "x = s" using u(4) i(1) by blast
  then show ?thesis using x u(1) by simp
qed

theorem Upsert_takes_effect_witness:
  "\<exists>d'. Upsert \<lparr>s_MerchantID = ''m'', s_Currency = ''USD'', s_BasisPoints = 250, s_FixedMinor = 30,
       s_EffectiveFrom = 1, s_EffectiveTo = None\<rparr> empty_db = Inr d' \<and> fees_ok d'"
proof -
  let ?s = "\<lparr>s_MerchantID = ''m'', s_Currency = ''USD'', s_BasisPoints = 250, s_FixedMinor = 30,
       s_EffectiveFrom = 1, s_EffectiveTo = None\<rparr>"
  have "fees_ok empty_db" by (simp add: fees_ok_def empty_db_def)
  moreover obtain d' where "Upsert ?s empty_db = Inr d'"
    by (simp add: Upsert_def empty_db_def closePrevious_def schedule_ok_def valid_currency_def is_upper_def)
  ultimately show ?thesis using Upsert_takes_effect by blast
qed

end
