(* ===== verification/Outbox.thy ===== *)
theory Outbox
  imports Database
begin

text \<open>
  The transactional outbox (internal/outbox): the writer that adds a message in the caller's
  transaction (writer.go) and the publisher that leases due rows, hands them to the broker and
  records the result (publisher.go). The broker is a parameter: for each message it delivers and
  acknowledges, delivers without acknowledging, or drops it. The backoff delay is drawn at
  random in the code and is a parameter here.
\<close>

section \<open>The writer\<close>

record Message =
  msg_EventID :: uuid
  msg_AggregateID :: uuid
  msg_PartitionKey :: string
  msg_Topic :: string
  msg_Payload :: Payload

definition Enqueue :: "uuid \<Rightarrow> time \<Rightarrow> Message \<Rightarrow> db \<Rightarrow> (uuid \<times> db) result" where
  "Enqueue newID now msg d =
     (let ev = (if msg_EventID msg = 0 then newID else msg_EventID msg) in
      if msg_Topic msg = [] then Inl (ErrOther ''outbox message requires a topic'')
      else if msg_PartitionKey msg = [] then Inl (ErrOther ''outbox message requires a partition key'')
      else if list_ex (\<lambda>r. ob_EventID r = ev) (db_outbox d) then Inl (ErrConstraint ''outbox_event_id_key'')
      else Inr (ev, d\<lparr>db_outbox := db_outbox d @ [\<lparr>ob_ID = db_nextid d, ob_EventID = ev,
               ob_AggregateID = msg_AggregateID msg, ob_PartitionKey = msg_PartitionKey msg,
               ob_Topic = msg_Topic msg, ob_Payload = msg_Payload msg, ob_Status = OutboxPending,
               ob_Attempts = 0, ob_AvailableAt = now\<rparr>], db_nextid := Suc (db_nextid d)\<rparr>))"

section \<open>The publisher\<close>

record PublisherConfig =
  BatchSize :: nat
  MaxAttempts :: int
  ClaimLease :: int
  RetryFloor :: int

definition DefaultPublisherConfig :: PublisherConfig where
  "DefaultPublisherConfig = \<lparr>BatchSize = 100, MaxAttempts = 10, ClaimLease = 30 * 1000000000,
     RetryFloor = 50 * 1000000\<rparr>"

definition millis :: "int \<Rightarrow> int" where
  "millis dur = go_quot dur 1000000 * 1000000"

definition due :: "time \<Rightarrow> OutboxRow \<Rightarrow> bool" where
  "due now r \<longleftrightarrow> ob_Status r = OutboxPending \<and> ob_AvailableAt r \<le> now"

definition claim_rows :: "PublisherConfig \<Rightarrow> time \<Rightarrow> db \<Rightarrow> OutboxRow list" where
  "claim_rows cfg now d = take (BatchSize cfg) (filter (due now) (db_outbox d))"

definition Publisher_claim :: "PublisherConfig \<Rightarrow> time \<Rightarrow> OutboxRow list body" where
  "Publisher_claim cfg now _ d =
     (let rows = claim_rows cfg now d in
      (rows, Inr (d\<lparr>db_outbox := tupdate (\<lambda>r. ob_ID r \<in> set (map ob_ID rows))
                 (\<lambda>r. r\<lparr>ob_AvailableAt := now + millis (ClaimLease cfg)\<rparr>) (db_outbox d)\<rparr>)))"

definition markPublished :: "OutboxRow \<Rightarrow> db \<Rightarrow> db" where
  "markPublished rec d =
     d\<lparr>db_outbox := tupdate (\<lambda>r. ob_ID r = ob_ID rec)
        (\<lambda>r. r\<lparr>ob_Status := OutboxPublished, ob_Attempts := ob_Attempts r + 1\<rparr>) (db_outbox d)\<rparr>"

definition markFailed :: "PublisherConfig \<Rightarrow> time \<Rightarrow> int \<Rightarrow> OutboxRow \<Rightarrow> db \<Rightarrow> db" where
  "markFailed cfg now backoff rec d =
     (let attempts = ob_Attempts rec + 1 in
      if attempts \<ge> MaxAttempts cfg then
        d\<lparr>db_outbox := tupdate (\<lambda>r. ob_ID r = ob_ID rec)
           (\<lambda>r. r\<lparr>ob_Status := OutboxFailed, ob_Attempts := attempts\<rparr>) (db_outbox d)\<rparr>
      else
        let delay = (if backoff < RetryFloor cfg then RetryFloor cfg else backoff) in
        d\<lparr>db_outbox := tupdate (\<lambda>r. ob_ID r = ob_ID rec)
           (\<lambda>r. r\<lparr>ob_Attempts := attempts, ob_AvailableAt := now + millis delay\<rparr>) (db_outbox d)\<rparr>)"

datatype publish_result = Acked | DeliveredUnacked | Dropped

text \<open>One element of the script per message: what the broker does, whether the statement that
  records it gets through, the drawn backoff. The log is what the broker holds.\<close>

fun publish_all ::
  "PublisherConfig \<Rightarrow> time \<Rightarrow> (publish_result \<times> bool \<times> int) list \<Rightarrow> OutboxRow list \<Rightarrow> db \<times> uuid list \<Rightarrow>
   nat \<times> db \<times> uuid list" where
  "publish_all cfg now script [] (d, log) = (0, d, log)"
| "publish_all cfg now script (rec # recs) (d, log) =
     (let (res, marked, backoff) = (case script of [] \<Rightarrow> (Acked, True, 0) | x # _ \<Rightarrow> x);
          log' = (if res = Dropped then log else log @ [ob_EventID rec]);
          d' = (if \<not> marked then d
                else if res = Acked then markPublished rec d else markFailed cfg now backoff rec d);
          (k, d'', log'') = publish_all cfg now (tl script) recs (d', log')
      in ((if res = Acked \<and> marked then 1 else 0) + k, d'', log''))"

definition Publisher_Sweep ::
  "PublisherConfig \<Rightarrow> time \<Rightarrow> tx_fault \<Rightarrow> (publish_result \<times> bool \<times> int) list \<Rightarrow> db \<times> uuid list \<Rightarrow>
   nat result \<times> db \<times> uuid list" where
  "Publisher_Sweep cfg now f script st =
     (case st of (d, log) \<Rightarrow>
       (case DB_WithTx f (Publisher_claim cfg now) [] d of
          (recs, Inl e, d1) \<Rightarrow> (Inl e, d1, log)
        | (recs, Inr _, d1) \<Rightarrow>
            if recs = [] then (Inr 0, d1, log)
            else case publish_all cfg now script recs (d1, log) of (k, d2, log2) \<Rightarrow> (Inr k, d2, log2)))"

section \<open>Nothing is lost\<close>

definition outbox_row_ok :: "PublisherConfig \<Rightarrow> uuid list \<Rightarrow> OutboxRow \<Rightarrow> bool" where
  "outbox_row_ok cfg log r \<longleftrightarrow>
     (ob_Status r = OutboxPublished \<longrightarrow> ob_EventID r \<in> set log)
     \<and> (ob_Status r = OutboxFailed \<longrightarrow> MaxAttempts cfg \<le> ob_Attempts r)"

definition outbox_ok :: "PublisherConfig \<Rightarrow> db \<Rightarrow> uuid list \<Rightarrow> bool" where
  "outbox_ok cfg d log \<longleftrightarrow> distinct (map ob_ID (db_outbox d)) \<and> list_all (outbox_row_ok cfg log) (db_outbox d)"

text \<open>The events in the table, whatever their status: the relay never adds, drops or renames one.\<close>

definition outbox_events :: "db \<Rightarrow> (nat \<times> uuid \<times> string \<times> Payload) list" where
  "outbox_events d = map (\<lambda>r. (ob_ID r, ob_EventID r, ob_Topic r, ob_Payload r)) (db_outbox d)"

lemma outbox_events_ids: "map ob_ID (db_outbox d) = map fst (outbox_events d)"
  by (simp add: outbox_events_def)

lemma outbox_events_tupdate:
  assumes "\<And>r. ob_ID (f r) = ob_ID r \<and> ob_EventID (f r) = ob_EventID r \<and> ob_Topic (f r) = ob_Topic r \<and> ob_Payload (f r) = ob_Payload r"
  shows "outbox_events (d\<lparr>db_outbox := tupdate P f (db_outbox d)\<rparr>) = outbox_events d"
  using assms by (simp add: outbox_events_def tupdate_def)

lemma mark_events [simp]:
  "outbox_events (markPublished rec d) = outbox_events d" "outbox_events (markFailed cfg now b rec d) = outbox_events d"
  by (simp_all add: markPublished_def markFailed_def outbox_events_tupdate Let_def)

lemma outbox_ok_tupdate:
  assumes "outbox_ok cfg d log" "\<And>r. ob_ID (f r) = ob_ID r"
    "\<And>r. r \<in> set (db_outbox d) \<Longrightarrow> P r \<Longrightarrow> outbox_row_ok cfg log r \<Longrightarrow> outbox_row_ok cfg log (f r)"
  shows "outbox_ok cfg (d\<lparr>db_outbox := tupdate P f (db_outbox d)\<rparr>) log"
proof -
  have "map ob_ID (tupdate P f (db_outbox d)) = map ob_ID (db_outbox d)"
    using assms(2) by (simp add: tupdate_def)
  then show ?thesis using assms(1,3) by (auto simp: outbox_ok_def list_all_iff set_tupdate)
qed

lemma outbox_ok_log: "outbox_ok cfg d log \<Longrightarrow> outbox_ok cfg d (log @ evs)"
  by (auto simp: outbox_ok_def list_all_iff outbox_row_ok_def)

text \<open>A claimed record is a row of the table as far as identity and event go.\<close>

definition record_of :: "db \<Rightarrow> OutboxRow \<Rightarrow> bool" where
  "record_of d rec \<longleftrightarrow> (ob_ID rec, ob_EventID rec, ob_Topic rec, ob_Payload rec) \<in> set (outbox_events d)"

lemma record_of_unique:
  assumes "outbox_ok cfg d log" "record_of d rec" "r \<in> set (db_outbox d)" "ob_ID r = ob_ID rec"
  shows "ob_EventID r = ob_EventID rec"
proof -
  obtain r' where r': "r' \<in> set (db_outbox d)" "ob_ID r' = ob_ID rec" "ob_EventID r' = ob_EventID rec"
    using assms(2) by (auto simp: record_of_def outbox_events_def)
  have "r = r'" using assms(1,3,4) r'(1,2) by (simp add: outbox_ok_def distinct_map inj_on_def)
  then show ?thesis using r'(3) by simp
qed

lemma mark_ok:
  assumes "outbox_ok cfg d log" "record_of d rec"
  shows "ob_EventID rec \<in> set log \<Longrightarrow> outbox_ok cfg (markPublished rec d) log"
    "\<forall>r \<in> set (db_outbox d). ob_ID r = ob_ID rec \<longrightarrow> ob_Status r = OutboxPending \<Longrightarrow>
      outbox_ok cfg (markFailed cfg now b rec d) log"
proof -
  show "outbox_ok cfg (markPublished rec d) log" if "ob_EventID rec \<in> set log"
    unfolding markPublished_def using assms that record_of_unique [OF assms]
    by (intro outbox_ok_tupdate) (auto simp: outbox_row_ok_def)
  show "outbox_ok cfg (markFailed cfg now b rec d) log"
    if "\<forall>r \<in> set (db_outbox d). ob_ID r = ob_ID rec \<longrightarrow> ob_Status r = OutboxPending"
    unfolding markFailed_def Let_def using assms(1) that
    by (auto intro!: outbox_ok_tupdate simp: outbox_row_ok_def)
qed

definition still_pending :: "db \<Rightarrow> nat list \<Rightarrow> bool" where
  "still_pending d ids \<longleftrightarrow> (\<forall>r \<in> set (db_outbox d). ob_ID r \<in> set ids \<longrightarrow> ob_Status r = OutboxPending)"

lemma mark_still_pending:
  assumes "still_pending d ids" "ob_ID rec \<notin> set ids"
  shows "still_pending (markPublished rec d) ids" "still_pending (markFailed cfg now b rec d) ids"
  using assms by (auto simp: still_pending_def markPublished_def markFailed_def Let_def set_tupdate split: if_splits)

lemma publish_all_ok:
  assumes "outbox_ok cfg d log" "list_all (record_of d) recs" "publish_all cfg now script recs (d, log) = (k, d', log')"
    "distinct (map ob_ID recs)" "still_pending d (map ob_ID recs)"
  shows "outbox_ok cfg d' log' \<and> outbox_events d' = outbox_events d \<and> set log \<subseteq> set log'"
  using assms
proof (induction recs arbitrary: script d log k)
  case (Cons rec recs)
  obtain res marked backoff where s: "(case script of [] \<Rightarrow> (Acked, True, 0) | x # _ \<Rightarrow> x) = (res, marked, backoff)"
    by (metis surj_pair)
  define log1 where "log1 = (if res = Dropped then log else log @ [ob_EventID rec])"
  define d1 where "d1 = (if \<not> marked then d
    else if res = Acked then markPublished rec d else markFailed cfg now backoff rec d)"
  obtain k1 where p: "publish_all cfg now (tl script) recs (d1, log1) = (k1, d', log')"
    using Cons.prems(3) by (auto simp: s log1_def d1_def Let_def split: prod.splits)
  have "outbox_ok cfg d log1" using Cons.prems(1) outbox_ok_log by (simp add: log1_def)
  then have ok1: "outbox_ok cfg d1 log1"
    using mark_ok [of cfg d log1 rec] Cons.prems(2,5) by (auto simp: d1_def log1_def still_pending_def)
  have pend: "still_pending d1 (map ob_ID recs)"
    using Cons.prems(4,5) mark_still_pending [of d "map ob_ID recs" rec]
    by (auto simp: d1_def) (auto simp: still_pending_def)
  have ev: "outbox_events d1 = outbox_events d" by (simp add: d1_def)
  then have "list_all (record_of d1) recs" using Cons.prems(2) by (simp add: record_of_def list_all_iff)
  then show ?case using Cons.IH [OF ok1 _ p] ev pend Cons.prems(4) by (auto simp: log1_def split: if_splits)
qed simp

lemma Publisher_claim_ok:
  assumes "outbox_ok cfg d log" "Publisher_claim cfg now s d = (recs, Inr d1)"
  shows "outbox_ok cfg d1 log" "outbox_events d1 = outbox_events d" "list_all (record_of d1) recs"
    "distinct (map ob_ID recs)" "still_pending d1 (map ob_ID recs)"
proof -
  have d1: "d1 = d\<lparr>db_outbox := tupdate (\<lambda>r. ob_ID r \<in> set (map ob_ID recs))
      (\<lambda>r. r\<lparr>ob_AvailableAt := now + millis (ClaimLease cfg)\<rparr>) (db_outbox d)\<rparr>" and recs: "recs = claim_rows cfg now d"
    using assms(2) by (auto simp: Publisher_claim_def Let_def)
  show "outbox_ok cfg d1 log" unfolding d1 using assms(1) by (intro outbox_ok_tupdate) (auto simp: outbox_row_ok_def)
  show ev: "outbox_events d1 = outbox_events d" unfolding d1 by (rule outbox_events_tupdate) simp
  have "set recs \<subseteq> set (db_outbox d)" unfolding recs claim_rows_def by (auto dest: in_set_takeD)
  then show "list_all (record_of d1) recs" by (auto simp: list_all_iff record_of_def ev) (auto simp: outbox_events_def)
  have dist: "distinct (map ob_ID (db_outbox d))" using assms(1) by (simp add: outbox_ok_def)
  then show "distinct (map ob_ID recs)"
    by (simp add: recs claim_rows_def take_map [symmetric] distinct_map_filter)
  have "ob_Status r = OutboxPending" if r: "r \<in> set (db_outbox d)" "ob_ID r \<in> ob_ID ` set recs" for r
  proof -
    obtain r' where r': "r' \<in> set recs" "ob_ID r' = ob_ID r" using r(2) by auto
    then have "r' \<in> set (db_outbox d)" "ob_Status r' = OutboxPending"
      by (auto simp: recs claim_rows_def due_def dest!: in_set_takeD)
    moreover from this have "r = r'" using dist r(1) r'(2) by (simp add: distinct_map inj_on_def)
    ultimately show ?thesis by simp
  qed
  then show "still_pending d1 (map ob_ID recs)" by (auto simp: still_pending_def d1 set_tupdate)
qed

lemma Publisher_Sweep_ok:
  assumes "outbox_ok cfg d log" "Publisher_Sweep cfg now f script (d, log) = (r, d', log')"
  shows "outbox_ok cfg d' log'" "outbox_events d' = outbox_events d" "set log \<subseteq> set log'"
proof -
  obtain recs rc d1 where t: "DB_WithTx f (Publisher_claim cfg now) [] d = (recs, rc, d1)" by (metis surj_pair)
  have "outbox_ok cfg d1 log \<and> outbox_events d1 = outbox_events d \<and> (rc = Inr () \<longrightarrow> list_all (record_of d1) recs
     \<and> distinct (map ob_ID recs) \<and> still_pending d1 (map ob_ID recs))"
    using t
  proof (cases rule: DB_WithTx_cases)
    case (committed d2)
    then show ?thesis using Publisher_claim_ok [OF assms(1), of now "[]" recs d2] by auto
  qed (use assms(1) in auto)
  then have "outbox_ok cfg d' log' \<and> outbox_events d' = outbox_events d \<and> set log \<subseteq> set log'"
    using assms(2) t publish_all_ok [of cfg d1 log recs now script]
    by (auto simp: Publisher_Sweep_def split: sum.splits if_splits prod.splits)
  then show "outbox_ok cfg d' log'" "outbox_events d' = outbox_events d" "set log \<subseteq> set log'" by blast+
qed

fun run_sweeps ::
  "PublisherConfig \<Rightarrow> (time \<times> tx_fault \<times> (publish_result \<times> bool \<times> int) list) list \<Rightarrow> db \<times> uuid list \<Rightarrow> db \<times> uuid list" where
  "run_sweeps cfg [] st = st"
| "run_sweeps cfg ((now, f, script) # rest) st = run_sweeps cfg rest (snd (Publisher_Sweep cfg now f script st))"

lemma run_sweeps_ok:
  assumes "outbox_ok cfg d log" "run_sweeps cfg sweeps (d, log) = (d', log')"
  shows "outbox_ok cfg d' log' \<and> outbox_events d' = outbox_events d"
  using assms
proof (induction sweeps arbitrary: d log)
  case (Cons sw sweeps)
  obtain now f script where sw: "sw = (now, f, script)" by (cases sw)
  obtain r d1 log1 where s: "Publisher_Sweep cfg now f script (d, log) = (r, d1, log1)"
    by (cases "Publisher_Sweep cfg now f script (d, log)")
  note ok = Publisher_Sweep_ok [OF Cons.prems(1) s]
  show ?case using Cons.IH [OF ok(1)] ok(2) Cons.prems(2) by (simp add: sw s)
qed auto

text \<open>C22: after any number of sweeps, with any faults of the database and any behaviour of the
  broker, the table holds the same events as before; one is marked published only if the broker
  holds it, and parked as failed only after the configured number of attempts; every other one
  is still pending, so it will be tried again.\<close>

theorem outbox_loses_nothing:
  assumes "distinct (map ob_ID (db_outbox d))" "list_all (\<lambda>r. ob_Status r = OutboxPending) (db_outbox d)"
    and "run_sweeps cfg sweeps (d, log) = (d', log')"
  shows "outbox_events d' = outbox_events d
    \<and> list_all (\<lambda>r. ob_Status r = OutboxPending
        \<or> ob_Status r = OutboxPublished \<and> ob_EventID r \<in> set log'
        \<or> ob_Status r = OutboxFailed \<and> MaxAttempts cfg \<le> ob_Attempts r) (db_outbox d')"
proof -
  have "outbox_ok cfg d log" using assms(1,2) by (auto simp: outbox_ok_def list_all_iff outbox_row_ok_def)
  note r = run_sweeps_ok [OF this assms(3)]
  have "ob_Status x = OutboxPending \<or> ob_Status x = OutboxPublished \<and> ob_EventID x \<in> set log'
      \<or> ob_Status x = OutboxFailed \<and> MaxAttempts cfg \<le> ob_Attempts x" if "x \<in> set (db_outbox d')" for x
    using r that by (cases "ob_Status x") (auto simp: outbox_ok_def list_all_iff outbox_row_ok_def)
  then show ?thesis using r by (simp add: list_all_iff)
qed

theorem outbox_loses_nothing_witness:
  "\<exists>d' log'. run_sweeps DefaultPublisherConfig [(5, TxOk, [(DeliveredUnacked, True, 0)])]
      (empty_db\<lparr>db_outbox := [\<lparr>ob_ID = 1, ob_EventID = 7, ob_AggregateID = 3, ob_PartitionKey = ''m'',
         ob_Topic = ''payments.authorize'', ob_Payload = AuthorizeRequested 3 ''m'', ob_Status = OutboxPending,
         ob_Attempts = 0, ob_AvailableAt = 0\<rparr>]\<rparr>, []) = (d', log')
    \<and> outbox_events d' = [(1, 7, ''payments.authorize'', AuthorizeRequested 3 ''m'')]"
proof -
  define d where "d = empty_db\<lparr>db_outbox := [\<lparr>ob_ID = 1, ob_EventID = 7, ob_AggregateID = 3, ob_PartitionKey = ''m'',
         ob_Topic = ''payments.authorize'', ob_Payload = AuthorizeRequested 3 ''m'', ob_Status = OutboxPending,
         ob_Attempts = 0, ob_AvailableAt = 0\<rparr>]\<rparr>"
  obtain d' log' where r: "run_sweeps DefaultPublisherConfig [(5, TxOk, [(DeliveredUnacked, True, 0)])] (d, []) = (d', log')"
    by (metis surj_pair)
  have "outbox_events d' = outbox_events d" using outbox_loses_nothing [OF _ _ r] by (simp add: d_def)
  then show ?thesis using r unfolding d_def [symmetric] by (simp add: outbox_events_def d_def)
qed

text \<open>A lease excludes: what one publisher claimed is not claimed again by another sweep within
  the lease period.\<close>

theorem lease_excludes:
  assumes "Publisher_claim cfg now s d = (recs, Inr d1)" "now' < now + millis (ClaimLease cfg)"
  shows "set (map ob_ID recs) \<inter> set (map ob_ID (claim_rows cfg now' d1)) = {}"
proof -
  have d1: "d1 = d\<lparr>db_outbox := tupdate (\<lambda>r. ob_ID r \<in> set (map ob_ID recs))
      (\<lambda>r. r\<lparr>ob_AvailableAt := now + millis (ClaimLease cfg)\<rparr>) (db_outbox d)\<rparr>"
    using assms(1) by (auto simp: Publisher_claim_def Let_def)
  have "ob_ID r \<notin> set (map ob_ID recs)" if "r \<in> set (db_outbox d1)" "due now' r" for r
    using that assms(2) by (auto simp: d1 set_tupdate due_def split: if_splits)
  moreover have "r \<in> set (db_outbox d1) \<and> due now' r" if "r \<in> set (claim_rows cfg now' d1)" for r
    using that by (auto simp: claim_rows_def dest!: in_set_takeD)
  ultimately have "ob_ID r \<notin> set (map ob_ID recs)" if "r \<in> set (claim_rows cfg now' d1)" for r
    using that by blast
  then have "x \<notin> set (map ob_ID recs)" if "x \<in> ob_ID ` set (claim_rows cfg now' d1)" for x
    using that by (elim imageE) blast
  then show ?thesis unfolding disjoint_iff set_map by blast
qed

theorem lease_excludes_witness:
  "claim_rows DefaultPublisherConfig 6 (projr (snd (Publisher_claim DefaultPublisherConfig 5 [] (empty_db\<lparr>db_outbox :=
      [\<lparr>ob_ID = 1, ob_EventID = 7, ob_AggregateID = 3, ob_PartitionKey = ''m'',
         ob_Topic = ''payments.authorize'', ob_Payload = AuthorizeRequested 3 ''m'', ob_Status = OutboxPending,
         ob_Attempts = 0, ob_AvailableAt = 0\<rparr>]\<rparr>)))) = []"
proof -
  define d where "d = empty_db\<lparr>db_outbox := [\<lparr>ob_ID = 1, ob_EventID = 7, ob_AggregateID = 3, ob_PartitionKey = ''m'',
         ob_Topic = ''payments.authorize'', ob_Payload = AuthorizeRequested 3 ''m'', ob_Status = OutboxPending,
         ob_Attempts = 0, ob_AvailableAt = 0\<rparr>]\<rparr>"
  define cfg where "cfg = DefaultPublisherConfig"
  obtain recs d1 where c: "Publisher_claim cfg 5 [] d = (recs, Inr d1)" by (simp add: Publisher_claim_def Let_def)
  have recs: "recs = db_outbox d"
    using c by (simp add: Publisher_claim_def Let_def claim_rows_def d_def cfg_def DefaultPublisherConfig_def due_def)
  have ids: "map ob_ID (db_outbox d1) = map ob_ID (db_outbox d)" "map ob_ID (db_outbox d) = [1]"
    using c by (auto simp: Publisher_claim_def Let_def tupdate_def) (simp add: d_def)
  have "set (map ob_ID recs) \<inter> set (map ob_ID (claim_rows cfg 6 d1)) = {}"
    by (rule lease_excludes [OF c]) (simp add: cfg_def DefaultPublisherConfig_def millis_def go_quot_def)
  moreover have "set (map ob_ID (claim_rows cfg 6 d1)) \<subseteq> set (map ob_ID (db_outbox d1))"
    by (auto simp: claim_rows_def dest!: in_set_takeD)
  ultimately have "map ob_ID (claim_rows cfg 6 d1) = []" using recs ids
    by (metis inf.absorb_iff2 set_empty)
  then show ?thesis using c unfolding d_def [symmetric] cfg_def [symmetric] by simp
qed

end
