(* ===== verification/PaymentService.thy ===== *)
theory PaymentService
  imports TxStore LedgerStore FeeStore Outbox
begin

text \<open>
  The payment service (internal/service/payment): \<open>Create\<close> and \<open>Get\<close> (service.go), \<open>Authorize\<close> with
  its recovery from ambiguous outcomes (authorize.go), \<open>Capture\<close> with its ledger posting
  (capture.go). The clock, fresh identifiers and the cancellation of the request's context are
  arguments. A Go result \<open>(*Transaction, error)\<close> is a pair of options, because several paths
  return both. In-memory changes of the aggregate survive a failed transaction, as in the code.
\<close>

section \<open>The service (service.go)\<close>

record Service =
  svc_mapping :: Mapping
  svc_providers :: Registry
  svc_topicAuthorize :: string
  svc_inet_ok :: "string \<Rightarrow> bool"
  svc_uuidString :: "uuid \<Rightarrow> string"

type_synonym outcome = "Transaction option \<times> gerror option"

definition shardOf :: "Service \<Rightarrow> string \<Rightarrow> nat result" where
  "shardOf svc merchantID = Shard (svc_mapping svc) (KeyForMerchant merchantID)"

record CreateInput =
  ci_MerchantID :: string
  ci_IdempotencyKey :: string
  ci_Amount :: Money
  ci_Actor :: string
  ci_SourceIP :: string

definition create_body :: "Service \<Rightarrow> uuid \<Rightarrow> time \<Rightarrow> CreateInput \<Rightarrow> Transaction body" where
  "create_body svc eventID now inp t d =
     (t, ebind (Insert now t d) (\<lambda>d1.
         ebind (RecordStateChange (svc_inet_ok svc)
           \<lparr>sc_TransactionID = t_ID t, sc_From = None, sc_To = t_State t, sc_Reason = ''payment created'',
            sc_Actor = ci_Actor inp, sc_SourceIP = ci_SourceIP inp\<rparr> d1) (\<lambda>d2.
         ebind (Enqueue eventID now
           \<lparr>msg_EventID = 0, msg_AggregateID = t_ID t, msg_PartitionKey = t_MerchantID t,
            msg_Topic = svc_topicAuthorize svc, msg_Payload = AuthorizeRequested (t_ID t) (t_MerchantID t)\<rparr> d2)
           (\<lambda>(_, d3). Inr d3))))"

definition Service_Create ::
  "Service \<Rightarrow> uuid \<Rightarrow> uuid \<Rightarrow> time \<Rightarrow> CreateInput \<Rightarrow> world \<Rightarrow> Transaction result \<times> world" where
  "Service_Create svc newID eventID now inp w =
     (case Transaction_New newID now (ci_MerchantID inp) (ci_IdempotencyKey inp) (ci_Amount inp) of
        Inl e \<Rightarrow> (Inl e, w)
      | Inr t \<Rightarrow>
          (case Router_WithTx (svc_mapping svc) (t_ShardKey t) (create_body svc eventID now inp) t w of
             (t', Inl e, w1) \<Rightarrow> (Inl e, w1)
           | (t', Inr _, w1) \<Rightarrow> (Inr t', w1)))"

definition Service_Get :: "Service \<Rightarrow> string \<Rightarrow> uuid \<Rightarrow> world \<Rightarrow> Transaction result \<times> world" where
  "Service_Get svc merchantID i w =
     (case shardOf svc merchantID of
        Inl e \<Rightarrow> (Inl e, w)
      | Inr p \<Rightarrow>
          (case query_at p (TxStore_Get i) w of
             (Inl e, w1) \<Rightarrow> (Inl (if e = ErrTxNotFound then ErrPaymentNotFound else e), w1)
           | (Inr t, w1) \<Rightarrow>
               if t_MerchantID t \<noteq> merchantID then (Inl ErrPaymentNotFound, w1) else (Inr t, w1)))"

section \<open>Authorization (authorize.go)\<close>

definition transition_body :: "Service \<Rightarrow> time \<Rightarrow> State \<Rightarrow> State \<Rightarrow> string \<Rightarrow> string \<Rightarrow> Transaction body" where
  "transition_body svc now from target reason actor =
     body_seq (Update now)
       (\<lambda>t d. (t, RecordStateChange (svc_inet_ok svc)
          \<lparr>sc_TransactionID = t_ID t, sc_From = Some from, sc_To = target, sc_Reason = reason,
           sc_Actor = ''psp:'' @ actor, sc_SourceIP = []\<rparr> d))"

definition transition ::
  "Service \<Rightarrow> time \<Rightarrow> Transaction \<Rightarrow> State \<Rightarrow> string \<Rightarrow> string \<Rightarrow> world \<Rightarrow> Transaction \<times> unit result \<times> world" where
  "transition svc now t target reason actor w =
     (let from = t_State t in
      case TransitionTo now t target of
        Inl e \<Rightarrow> (t, Inl e, w)
      | Inr t1 \<Rightarrow>
          Router_WithTx (svc_mapping svc) (t_ShardKey t1)
            (transition_body svc now from target reason actor) t1 w)"

definition persist :: "Service \<Rightarrow> time \<Rightarrow> Transaction \<Rightarrow> world \<Rightarrow> Transaction \<times> unit result \<times> world" where
  "persist svc now t w = Router_WithTx (svc_mapping svc) (t_ShardKey t) (Update now) t w"

definition finish :: "gerror option \<Rightarrow> Transaction \<times> unit result \<times> world \<Rightarrow> outcome \<times> world" where
  "finish err res =
     (case res of (t, Inl e, w) \<Rightarrow> ((None, Some e), w) | (t, Inr _, w) \<Rightarrow> ((Some t, err), w))"

definition applyProviderStatus ::
  "Service \<Rightarrow> time \<Rightarrow> Transaction \<Rightarrow> string \<Rightarrow> Response \<Rightarrow> string \<Rightarrow> world \<Rightarrow> outcome \<times> world" where
  "applyProviderStatus svc now t0 providerName resp reason w =
     (let t = t0\<lparr>t_PSP := providerName, t_PSPReference := rs_ProviderReference resp\<rparr> in
      finish None
        (case rs_Status resp of
           StatusAuthorized \<Rightarrow> transition svc now t StateAuthorized reason providerName w
         | StatusPending \<Rightarrow> persist svc now t w
         | StatusRequiresAction \<Rightarrow> persist svc now t w
         | StatusFailed \<Rightarrow> transition svc now t StateFailed reason providerName w
         | StatusCaptured \<Rightarrow> transition svc now t StateAuthorized reason providerName w
         | _ \<Rightarrow> persist svc now t w))"

definition call_provider :: "Adapter \<Rightarrow> ProviderCall \<Rightarrow> world \<Rightarrow> Response result \<times> world" where
  "call_provider ad c w = (ad_call ad (w_calls w) c, w\<lparr>w_calls := w_calls w @ [c]\<rparr>)"

definition statusRecheckAttempts :: nat where
  "statusRecheckAttempts = 3"

text \<open>The loop of \<open>resolveAmbiguousOutcome\<close>, \<open>n\<close> attempts from its end; \<open>ctxDone n\<close> tells whether the
  context ends during the wait that follows.\<close>

fun status_loop ::
  "Service \<Rightarrow> time \<Rightarrow> (nat \<Rightarrow> bool) \<Rightarrow> Transaction \<Rightarrow> Adapter \<Rightarrow> string \<Rightarrow> gerror \<Rightarrow> nat \<Rightarrow> world \<Rightarrow> outcome \<times> world" where
  "status_loop svc now ctxDone t ad key authErr 0 w = ((Some t, Some (ErrOutcomeUnresolved authErr)), w)"
| "status_loop svc now ctxDone t ad key authErr (Suc n) w =
     (case call_provider ad (CallGetStatus key (t_ID t)) w of
        (Inl statusErr, w1) \<Rightarrow> ((Some t, Some (ErrOutcomeUnresolved authErr)), w1)
      | (Inr resp, w1) \<Rightarrow>
          if rs_Status resp \<noteq> StatusNotFound
          then applyProviderStatus svc now t (ad_Name ad) resp ''recovered after ambiguous failure'' w1
          else if 0 < n \<and> ctxDone n then ((Some t, Some (ErrOutcomeUnresolved ErrCtxDone)), w1)
          else status_loop svc now ctxDone t ad key authErr n w1)"

definition resolveAmbiguousOutcome ::
  "Service \<Rightarrow> time \<Rightarrow> (nat \<Rightarrow> bool) \<Rightarrow> Transaction \<Rightarrow> Adapter \<Rightarrow> string \<Rightarrow> gerror \<Rightarrow> world \<Rightarrow> outcome \<times> world" where
  "resolveAmbiguousOutcome svc now ctxDone t ad key authErr w =
     status_loop svc now ctxDone t ad key authErr statusRecheckAttempts w"

definition class_string :: "ErrorClass \<Rightarrow> string" where
  "class_string c = (case c of
       ClassDeclined \<Rightarrow> ''declined'' | ClassInsufficientFunds \<Rightarrow> ''insufficient_funds''
     | ClassDoNotHonor \<Rightarrow> ''do_not_honor'' | ClassSuspectedFraud \<Rightarrow> ''suspected_fraud''
     | ClassInvalidInstrument \<Rightarrow> ''invalid_instrument'' | ClassTimeout \<Rightarrow> ''timeout''
     | ClassNetworkError \<Rightarrow> ''network_error'' | ClassUnknown \<Rightarrow> ''unknown''
     | ClassRateLimited \<Rightarrow> ''rate_limited'' | ClassUnavailable \<Rightarrow> ''unavailable''
     | ClassOther s \<Rightarrow> s)"

definition handleAuthorizeError ::
  "Service \<Rightarrow> time \<Rightarrow> (nat \<Rightarrow> bool) \<Rightarrow> Transaction \<Rightarrow> Adapter \<Rightarrow> string \<Rightarrow> gerror \<Rightarrow> world \<Rightarrow> outcome \<times> world" where
  "handleAuthorizeError svc now ctxDone t ad key authErr w =
     (let class = ClassOf authErr in
      if Class_IsTerminal class then
        finish (Some authErr) (transition svc now t StateFailed (class_string class) (ad_Name ad) w)
      else if IsRetryable class then ((Some t, Some authErr), w)
      else resolveAmbiguousOutcome svc now ctxDone t ad key authErr w)"

definition Service_Authorize ::
  "Service \<Rightarrow> time \<Rightarrow> (nat \<Rightarrow> bool) \<Rightarrow> string \<Rightarrow> uuid \<Rightarrow> world \<Rightarrow> outcome \<times> world" where
  "Service_Authorize svc now ctxDone merchantID transactionID w =
     (case shardOf svc merchantID of
        Inl e \<Rightarrow> ((None, Some e), w)
      | Inr p \<Rightarrow>
          (case query_at p (TxStore_Get transactionID) w of
             (Inl e, w1) \<Rightarrow> ((None, Some e), w1)
           | (Inr t, w1) \<Rightarrow>
               if t_MerchantID t \<noteq> merchantID then ((None, Some ErrPaymentNotFound), w1)
               else case Registry_Default (svc_providers svc) of
                 Inl e \<Rightarrow> ((None, Some e), w1)
               | Inr ad \<Rightarrow>
                   (case transition svc now t StateAuthorizing ''sending to provider'' (ad_Name ad) w1 of
                      (t1, Inl e, w2) \<Rightarrow> ((None, Some e), w2)
                    | (t1, Inr _, w2) \<Rightarrow>
                        let key = OperationKey (svc_uuidString svc) (t_ID t1) ''authorize'' in
                        (case call_provider ad (CallAuthorize key (t_ID t1) (t_Amount t1)) w2 of
                           (Inl authErr, w3) \<Rightarrow> handleAuthorizeError svc now ctxDone t1 ad key authErr w3
                         | (Inr resp, w3) \<Rightarrow>
                             applyProviderStatus svc now t1 (ad_Name ad) resp ''provider responded'' w3))))"

section \<open>Capture (capture.go)\<close>

record CaptureInput =
  ca_TransactionID :: uuid
  ca_MerchantID :: string
  ca_Amount :: Money
  ca_Actor :: string
  ca_SourceIP :: string

definition assertCapturable :: "Transaction \<Rightarrow> Money \<Rightarrow> unit result" where
  "assertCapturable t amount =
     ebind (Currency_Validate (m_currency amount)) (\<lambda>_.
     if m_currency amount \<noteq> m_currency (t_Amount t) then Inl ErrCurrencyMismatch
     else if \<not> IsPositive amount then Inl ErrAmountNotPositive
     else if \<not> CanTransitionTo (t_State t) StateCapturing then Inl ErrIllegalTransition
     else ebind (RemainingCapturable t) (\<lambda>remaining.
          ebind (Money_Cmp amount remaining) (\<lambda>cmp.
          if cmp > 0 then Inl ErrExceedsAuthorized else Inr ())))"

definition handleCaptureError ::
  "Service \<Rightarrow> time \<Rightarrow> Transaction \<Rightarrow> Adapter \<Rightarrow> gerror \<Rightarrow> world \<Rightarrow> outcome \<times> world" where
  "handleCaptureError svc now t ad captureErr w =
     (let class = ClassOf captureErr in
      if Class_IsTerminal class then
        finish (Some captureErr) (transition svc now t StateFailed (class_string class) (ad_Name ad) w)
      else if IsRetryable class then
        finish (Some captureErr)
          (transition svc now t StateAuthorized ''capture refused, authorisation retained'' (ad_Name ad) w)
      else ((Some t, Some (ErrOutcomeUnresolved captureErr)), w))"

definition capture_account :: "string \<Rightarrow> string \<Rightarrow> Purpose \<Rightarrow> AccountType \<Rightarrow> currency \<Rightarrow> string \<Rightarrow> Account" where
  "capture_account otype oid purp atype cur sk =
     \<lparr>a_ID = 0, a_Owner = \<lparr>o_Type = otype, o_ID = oid\<rparr>, a_Purpose = purp, a_Type = atype, a_Currency = cur, a_ShardKey = sk\<rparr>"

record captureAccounts =
  acc_clearing :: uuid
  acc_payable :: uuid
  acc_feeRevenue :: uuid

definition ensureCaptureAccounts ::
  "Transaction \<Rightarrow> currency \<Rightarrow> string \<Rightarrow> db \<Rightarrow> (captureAccounts \<times> db) result" where
  "ensureCaptureAccounts t cur providerName d =
     ebind (EnsureAccount (capture_account ''psp'' providerName PurposeClearing AccountTypeAsset cur (t_ShardKey t)) d)
       (\<lambda>(c, d1).
     ebind (EnsureAccount (capture_account ''merchant'' (t_MerchantID t) PurposePayable AccountTypeLiability cur (t_ShardKey t)) d1)
       (\<lambda>(p, d2).
     ebind (EnsureAccount (capture_account ''platform'' ''platform'' PurposeFeeRevenue AccountTypeRevenue cur (t_ShardKey t)) d2)
       (\<lambda>(f, d3).
     Inr (\<lparr>acc_clearing = a_ID c, acc_payable = a_ID p, acc_feeRevenue = a_ID f\<rparr>, d3))))"

definition postCapture :: "uuid \<Rightarrow> time \<Rightarrow> Transaction \<Rightarrow> Money \<Rightarrow> string \<Rightarrow> db \<Rightarrow> db result" where
  "postCapture entryID now t captured providerName d =
     ebind (ScheduleFor (t_MerchantID t) (m_currency captured) now d) (\<lambda>schedule.
     ebind (Calculate schedule captured) (\<lambda>feeAmount.
     ebind (Money_Sub captured feeAmount) (\<lambda>payable.
     ebind (ensureCaptureAccounts t (m_currency captured) providerName d) (\<lambda>(accounts, d1).
     ebind (NewEntry entryID now (Some (t_ID t)) (t_ShardKey t)
         (''capture of '' @ Money_String captured @ '' via '' @ providerName) now
         [mk_posting (acc_clearing accounts) Debit captured,
          mk_posting (acc_payable accounts) Credit payable,
          mk_posting (acc_feeRevenue accounts) Credit feeAmount]) (\<lambda>entry.
     RecordEntry entry d1)))))"

definition capture_body ::
  "Service \<Rightarrow> uuid \<Rightarrow> time \<Rightarrow> State \<Rightarrow> Money \<Rightarrow> CaptureInput \<Rightarrow> string \<Rightarrow> Transaction body" where
  "capture_body svc entryID now from captured inp providerName =
     body_seq (Update now)
     (body_seq (\<lambda>t d. (t, RecordStateChange (svc_inet_ok svc)
         \<lparr>sc_TransactionID = t_ID t, sc_From = Some from, sc_To = t_State t,
          sc_Reason = ''captured '' @ Money_String captured, sc_Actor = ca_Actor inp, sc_SourceIP = ca_SourceIP inp\<rparr> d))
       (\<lambda>t d. (t, postCapture entryID now t captured providerName d)))"

definition recordCapture ::
  "Service \<Rightarrow> uuid \<Rightarrow> time \<Rightarrow> Transaction \<Rightarrow> Money \<Rightarrow> CaptureInput \<Rightarrow> string \<Rightarrow> world \<Rightarrow>
   Transaction \<times> unit result \<times> world" where
  "recordCapture svc entryID now t captured inp providerName w =
     (let from = t_State t in
      case Transaction_Capture now t captured of
        Inl e \<Rightarrow> (t, Inl e, w)
      | Inr t1 \<Rightarrow>
          Router_WithTx (svc_mapping svc) (t_ShardKey t1)
            (capture_body svc entryID now from captured inp providerName) t1 w)"

definition Service_Capture :: "Service \<Rightarrow> uuid \<Rightarrow> time \<Rightarrow> CaptureInput \<Rightarrow> world \<Rightarrow> outcome \<times> world" where
  "Service_Capture svc entryID now inp w =
     (case shardOf svc (ca_MerchantID inp) of
        Inl e \<Rightarrow> ((None, Some e), w)
      | Inr p \<Rightarrow>
          (case query_at p (TxStore_Get (ca_TransactionID inp)) w of
             (Inl e, w1) \<Rightarrow> ((None, Some e), w1)
           | (Inr t, w1) \<Rightarrow>
               if t_MerchantID t \<noteq> ca_MerchantID inp then ((None, Some ErrPaymentNotFound), w1)
               else case assertCapturable t (ca_Amount inp) of
                 Inl e \<Rightarrow> ((None, Some e), w1)
               | Inr _ \<Rightarrow>
                 (case Registry_Default (svc_providers svc) of
                    Inl e \<Rightarrow> ((None, Some e), w1)
                  | Inr ad \<Rightarrow>
                    (case transition svc now t StateCapturing ''sending capture to provider'' (ad_Name ad) w1 of
                       (t1, Inl e, w2) \<Rightarrow> ((None, Some e), w2)
                     | (t1, Inr _, w2) \<Rightarrow>
                         let key = OperationKey (svc_uuidString svc) (t_ID t1) ''capture'' in
                         (case call_provider ad (CallCapture key (t_ID t1) (t_PSPReference t1) (ca_Amount inp)) w2 of
                            (Inl captureErr, w3) \<Rightarrow> handleCaptureError svc now t1 ad captureErr w3
                          | (Inr resp, w3) \<Rightarrow>
                              let captured = (if IsValid (rs_Amount resp) \<and> IsPositive (rs_Amount resp)
                                              then rs_Amount resp else ca_Amount inp)
                              in (case recordCapture svc entryID now t1 captured inp (ad_Name ad) w3 of
                                    (t2, Inl e, w4) \<Rightarrow> ((Some t2, Some e), w4)
                                  | (t2, Inr _, w4) \<Rightarrow> ((Some t2, None), w4)))))))"

end
