(* ===== verification/PaymentSafety.thy ===== *)
theory PaymentSafety
  imports PaymentService
begin

text \<open>
  What the payment service guarantees while other instances of it, workers and operators act on
  the same databases. \<open>shard_inv\<close> is the invariant of one database: rows obey their constraints
  and live on their merchant's shard, the audit trail of every payment is a path of the state
  machine that ends in the stored state, the ledger balances, accounts are unique. \<open>pay_rel\<close> is
  what any well-behaved process does to a database: it keeps the invariant and changes a payment
  only together with its version. The operations of the service are shown to be such processes
  under every fault and every interference by others of the kind; the interface is the
  \<open>environment\<close> locale.
\<close>

section \<open>The shared invariant\<close>

definition shard_inv :: "db \<Rightarrow> bool" where
  "shard_inv d \<longleftrightarrow> payments_ok d \<and> trail_ok d \<and> ledger_ok d \<and> accounts_ok d
     \<and> (\<forall>r \<in> set (db_payments d). t_ShardKey r = KeyForMerchant (t_MerchantID r))"

definition row_evolves :: "Transaction \<Rightarrow> Transaction \<Rightarrow> bool" where
  "row_evolves r r' \<longleftrightarrow> (r' = r \<or> t_Version r < t_Version r')
     \<and> t_ID r' = t_ID r \<and> t_MerchantID r' = t_MerchantID r \<and> t_ShardKey r' = t_ShardKey r \<and> t_Amount r' = t_Amount r"

definition pay_rel :: "db \<Rightarrow> db \<Rightarrow> bool" where
  "pay_rel d d' \<longleftrightarrow> (shard_inv d \<longrightarrow> shard_inv d')
     \<and> (\<forall>i r. payment_row i d = Some r \<longrightarrow> (\<exists>r'. payment_row i d' = Some r' \<and> row_evolves r r'))"

abbreviation pay_env :: "db list \<Rightarrow> db list \<Rightarrow> bool" where
  "pay_env \<equiv> list_all2 pay_rel"

lemma row_evolves_refl [simp]: "row_evolves r r"
  by (simp add: row_evolves_def)

lemma row_evolves_trans: "row_evolves r r' \<Longrightarrow> row_evolves r' r'' \<Longrightarrow> row_evolves r r''"
  by (auto simp: row_evolves_def)

lemma pay_rel_refl [simp]: "pay_rel d d"
  by (auto simp: pay_rel_def)

lemma pay_rel_trans:
  assumes "pay_rel d d'" "pay_rel d' d''"
  shows "pay_rel d d''"
  unfolding pay_rel_def
proof (intro conjI allI impI)
  show "shard_inv d''" if "shard_inv d" using assms that by (simp add: pay_rel_def)
  fix i r assume r: "payment_row i d = Some r"
  then obtain r1 where r1: "payment_row i d' = Some r1" "row_evolves r r1" using assms(1) by (auto simp: pay_rel_def)
  then obtain r2 where "payment_row i d'' = Some r2" "row_evolves r1 r2" using assms(2) by (auto simp: pay_rel_def)
  then show "\<exists>r'. payment_row i d'' = Some r' \<and> row_evolves r r'" using r1(2) row_evolves_trans by blast
qed

interpretation pay: environment pay_env
proof
  show "pay_env dbs dbs" for dbs by (simp add: list_all2_refl)
  show "pay_env dbs dbs' \<Longrightarrow> pay_env dbs' dbs'' \<Longrightarrow> pay_env dbs dbs''" for dbs dbs' dbs''
    using list_all2_trans [of pay_rel pay_rel pay_rel] pay_rel_trans by blast
qed

lemma pay_env_update: "p < length dbs \<Longrightarrow> pay_rel (dbs ! p) d \<Longrightarrow> pay_env dbs (dbs[p := d])"
  by (simp add: list_all2_conv_all_nth nth_list_update)

lemma pay_env_nth: "pay_env dbs dbs' \<Longrightarrow> p < length dbs' \<Longrightarrow> pay_rel (dbs ! p) (dbs' ! p)"
  by (simp add: list_all2_conv_all_nth)

lemma pay_env_length: "pay_env dbs dbs' \<Longrightarrow> length dbs' = length dbs"
  by (simp add: list_all2_lengthD)

text \<open>What a process knows of the payment it holds in memory: the stored row is at its version, in its
  state and with its captured amount, or has moved on. That survives every interference.\<close>

definition tracks :: "db \<Rightarrow> Transaction \<Rightarrow> bool" where
  "tracks d t \<longleftrightarrow> (\<exists>r. payment_row (t_ID t) d = Some r \<and> t_Version t \<le> t_Version r
     \<and> (t_Version r = t_Version t \<longrightarrow> t_State r = t_State t \<and> minor (t_Captured r) = minor (t_Captured t))
     \<and> t_MerchantID r = t_MerchantID t \<and> t_ShardKey r = t_ShardKey t \<and> t_Amount r = t_Amount t)"

lemma tracks_stable: "tracks d t \<Longrightarrow> pay_rel d d' \<Longrightarrow> tracks d' t"
  unfolding tracks_def pay_rel_def row_evolves_def by fastforce

lemma tracks_row: "payment_row i d = Some t \<Longrightarrow> tracks d t"
  using payment_row_Some [of i d t] by (auto simp: tracks_def)

section \<open>Steps that keep it\<close>

lemma shard_inv_frame:
  assumes "shard_inv d" "db_payments d' = db_payments d" "db_changes d' = db_changes d" "ledger_ok d'" "accounts_ok d'"
  shows "shard_inv d'"
  using assms by (simp add: shard_inv_def payments_ok_def trail_ok_def trail_def payment_row_def)

lemma Update_rows:
  assumes "Update now t d = (t', Inr d')" "payment_row i d = Some r"
  shows "\<exists>r'. payment_row i d' = Some r' \<and> row_evolves r r'"
  using payment_row_Update [OF assms(1), of i] assms(2) payment_row_Some [OF assms(2)]
  by (auto simp: row_evolves_def updated_row_def)

lemma Update_keys:
  assumes "Update now t d = (t', Inr d')" "\<forall>r \<in> set (db_payments d). t_ShardKey r = KeyForMerchant (t_MerchantID r)"
  shows "\<forall>r \<in> set (db_payments d'). t_ShardKey r = KeyForMerchant (t_MerchantID r)"
  using assms(2) by (auto simp: Update_Inr(2) [OF assms(1)] set_tupdate updated_row_def)

lemma Update_frame:
  assumes "Update now t d = (t', Inr d')"
  shows "db_entries d' = db_entries d" "db_postings d' = db_postings d" "db_accounts d' = db_accounts d"
    "db_nextid d' = db_nextid d" "db_changes d' = db_changes d"
  by (simp_all add: Update_Inr(2) [OF assms])

text \<open>Writing the row and its audit record together, from the state the row is in.\<close>

lemma update_and_record:
  assumes t: "tracks d t" and u: "Update now t1 d = (t2, Inr d1)"
    and t1: "t_ID t1 = t_ID t" "t_Version t1 = t_Version t"
    and rc: "RecordStateChange inet c d1 = Inr d2"
    and c: "sc_TransactionID c = t_ID t" "sc_From c = Some (t_State t)" "sc_To c = t_State t1"
  shows "shard_inv d \<Longrightarrow> shard_inv d2" "payment_row i d = Some r \<Longrightarrow> \<exists>r'. payment_row i d2 = Some r' \<and> row_evolves r r'"
    "db_entries d2 = db_entries d" "db_postings d2 = db_postings d" "db_accounts d2 = db_accounts d" "db_nextid d2 = db_nextid d"
    "t_MerchantID t1 = t_MerchantID t \<Longrightarrow> t_ShardKey t1 = t_ShardKey t \<Longrightarrow> t_Amount t1 = t_Amount t \<Longrightarrow> tracks d2 t2"
proof -
  have d2: "d2 = d1\<lparr>db_changes := db_changes d1 @ [c]\<rparr>" by (rule RecordStateChange_Inr(1) [OF rc])
  obtain r0 where r0: "payment_row (t_ID t) d = Some r0" "t_Version r0 = t_Version t" using Update_Inr(3) [OF u] t1 by auto
  then have st: "t_State r0 = t_State t" using t by (auto simp: tracks_def)
  have row: "payment_row i d2 = payment_row i d1" for i by (simp add: d2 payment_row_def)
  show "payment_row i d = Some r \<Longrightarrow> \<exists>r'. payment_row i d2 = Some r' \<and> row_evolves r r'"
    using Update_rows [OF u] row by simp
  show "db_entries d2 = db_entries d" "db_postings d2 = db_postings d" "db_accounts d2 = db_accounts d" "db_nextid d2 = db_nextid d"
    by (simp_all add: d2 Update_frame [OF u])
  have tr: "trail_ok d2" if "trail_ok d"
    by (rule trail_ok_transition [OF that u rc]) (use c t1 r0 st in simp_all)
  show "shard_inv d2" if "shard_inv d"
  proof -
    have "payments_ok d1" using that Update_payments_ok [OF _ u] by (simp add: shard_inv_def)
    then have "payments_ok d2" by (simp add: d2 payments_ok_def)
    moreover have "ledger_ok d2" "accounts_ok d2"
      using that by (simp_all add: shard_inv_def d2 ledger_ok_def ledger_total_def accounts_ok_def Update_frame [OF u])
    ultimately show ?thesis
      using that tr Update_keys [OF u] by (simp add: shard_inv_def d2)
  qed
  show "tracks d2 t2" if "t_MerchantID t1 = t_MerchantID t" "t_ShardKey t1 = t_ShardKey t" "t_Amount t1 = t_Amount t"
  proof -
    have "payment_row (t_ID t) d2 = Some (updated_row now t1 r0)"
      using payment_row_Update [OF u, of "t_ID t"] t1(1) r0(1) row by simp
    then show ?thesis using Update_Inr(1) [OF u] t1 r0 t that by (auto simp: tracks_def updated_row_def)
  qed
qed

lemma transition_step:
  assumes "tracks d t" "transition_body svc now (t_State t) (t_State t1) reason actor t1 d = (t2, Inr d2)"
    "t_ID t1 = t_ID t" "t_Version t1 = t_Version t"
    "t_MerchantID t1 = t_MerchantID t" "t_ShardKey t1 = t_ShardKey t" "t_Amount t1 = t_Amount t"
  shows "pay_rel d d2" "tracks d2 t2" "t2 = t1\<lparr>t_Version := t_Version t1 + 1\<rparr>"
proof -
  obtain d1 where u: "Update now t1 d = (t2, Inr d1)"
    and rc: "RecordStateChange (svc_inet_ok svc) \<lparr>sc_TransactionID = t_ID t2, sc_From = Some (t_State t), sc_To = t_State t1,
       sc_Reason = reason, sc_Actor = ''psp:'' @ actor, sc_SourceIP = []\<rparr> d1 = Inr d2"
    using assms(2) by (auto simp: transition_body_def body_seq_Inr)
  show t2: "t2 = t1\<lparr>t_Version := t_Version t1 + 1\<rparr>" by (rule Update_Inr(1) [OF u])
  note s = update_and_record [OF assms(1) u assms(3,4) rc]
  show "pay_rel d d2" unfolding pay_rel_def using s(1,2) t2 assms(3) by simp
  show "tracks d2 t2" using s(7) t2 assms(3,5-7) by simp
qed

lemma persist_step:
  assumes "tracks d t" "Update now t d = (t2, Inr d2)"
  shows "pay_rel d d2" "tracks d2 t2" "t2 = t\<lparr>t_Version := t_Version t + 1\<rparr>"
proof -
  show t2: "t2 = t\<lparr>t_Version := t_Version t + 1\<rparr>" by (rule Update_Inr(1) [OF assms(2)])
  obtain r0 where r0: "payment_row (t_ID t) d = Some r0" "t_Version r0 = t_Version t" using Update_Inr(3) [OF assms(2)] by auto
  then have st: "t_State r0 = t_State t" using assms(1) by (auto simp: tracks_def)
  have "shard_inv d2" if "shard_inv d"
  proof -
    have "payments_ok d2" using that Update_payments_ok [OF _ assms(2)] by (simp add: shard_inv_def)
    moreover have "trail_ok d2" using that trail_ok_same_state [OF _ assms(2)] r0 st by (simp add: shard_inv_def)
    moreover have "ledger_ok d2" "accounts_ok d2"
      using that by (simp_all add: shard_inv_def ledger_ok_def ledger_total_def accounts_ok_def Update_frame [OF assms(2)])
    ultimately show ?thesis using that Update_keys [OF assms(2)] by (simp add: shard_inv_def)
  qed
  then show "pay_rel d d2" unfolding pay_rel_def using Update_rows [OF assms(2)] by blast
  have "payment_row (t_ID t) d2 = Some (updated_row now t r0)"
    using payment_row_Update [OF assms(2), of "t_ID t"] r0(1) by simp
  then show "tracks d2 t2" using t2 r0 assms(1) by (auto simp: tracks_def updated_row_def)
qed

section \<open>The operations\<close>

text \<open>A process holds a payment of database \<open>p\<close> in a world whose other processes behave.\<close>

definition holds :: "Service \<Rightarrow> nat \<Rightarrow> Transaction \<Rightarrow> world \<Rightarrow> bool" where
  "holds svc p t w \<longleftrightarrow> sched_ok pay_env w \<and> Shard (svc_mapping svc) (t_ShardKey t) = Inr p
     \<and> (p < length (w_dbs w) \<longrightarrow> tracks (w_dbs w ! p) t)"

lemma holds_calls: "holds svc p t (w\<lparr>w_calls := c\<rparr>) \<longleftrightarrow> holds svc p t w"
  by (simp add: holds_def sched_ok_def)

lemma holds_psp: "holds svc p (t\<lparr>t_PSP := a, t_PSPReference := b\<rparr>) w \<longleftrightarrow> holds svc p t w"
  by (simp add: holds_def tracks_def)

text \<open>One access by a body whose committed steps are well-behaved.\<close>

lemma access:
  assumes "holds svc p t w" "tx_at p body s w = (s', r, w')"
    and step: "\<forall>d s1 d1. tracks d t \<longrightarrow> body s d = (s1, Inr d1) \<longrightarrow> commit_check d d1 = Inr () \<longrightarrow> pay_rel d d1 \<and> tracks d1 (g s1)"
  shows "pay_env (w_dbs w) (w_dbs w')" "sched_ok pay_env w'" "w_calls w' = w_calls w"
    "r = Inr () \<Longrightarrow> p < length (w_dbs w') \<and> tracks (w_dbs w' ! p) (g s')"
    "r = Inr () \<Longrightarrow> \<exists>dbs d1. pay_env (w_dbs w) dbs \<and> p < length dbs \<and> body s (dbs ! p) = (s', Inr d1)
        \<and> commit_check (dbs ! p) d1 = Inr () \<and> w_dbs w' = dbs[p := d1]"
proof -
  have so: "sched_ok pay_env w" and tr: "p < length (w_dbs w) \<Longrightarrow> tracks (w_dbs w ! p) t"
    using assms(1) by (auto simp: holds_def)
  have tr': "tracks (dbs ! p) t" if "pay_env (w_dbs w) dbs" "p < length dbs" for dbs
    using that tr tracks_stable pay_env_nth pay_env_length by fastforce
  have step': "\<forall>dbs s1 d1. pay_env (w_dbs w) dbs \<longrightarrow> p < length dbs \<longrightarrow> body s (dbs ! p) = (s1, Inr d1)
      \<longrightarrow> commit_check (dbs ! p) d1 = Inr () \<longrightarrow> pay_env dbs (dbs[p := d1])"
    using step tr' pay_env_update by blast
  note t = pay.tx_at_rel [OF so assms(2) step']
  show "pay_env (w_dbs w) (w_dbs w')" "sched_ok pay_env w'" "w_calls w' = w_calls w"
    using t(1,2) tx_at_calls [OF assms(2)] by blast+
  show ex: "r = Inr () \<Longrightarrow> \<exists>dbs d1. pay_env (w_dbs w) dbs \<and> p < length dbs \<and> body s (dbs ! p) = (s', Inr d1)
        \<and> commit_check (dbs ! p) d1 = Inr () \<and> w_dbs w' = dbs[p := d1]" by (rule t(3))
  show "p < length (w_dbs w') \<and> tracks (w_dbs w' ! p) (g s')" if r: "r = Inr ()"
  proof -
    obtain dbs d1 where "pay_env (w_dbs w) dbs" "p < length dbs" "body s (dbs ! p) = (s', Inr d1)"
      "commit_check (dbs ! p) d1 = Inr ()" "w_dbs w' = dbs[p := d1]" using ex [OF r] by blast
    then show ?thesis using step tr' by fastforce
  qed
qed

lemma transition_world:
  assumes "holds svc p t w" "transition svc now t target reason actor w = (t', r, w')"
  shows "pay_env (w_dbs w) (w_dbs w')" "sched_ok pay_env w'" "w_calls w' = w_calls w"
    "r = Inr () \<Longrightarrow> holds svc p t' w' \<and> CanTransitionTo (t_State t) target
       \<and> t' = t\<lparr>t_State := target, t_UpdatedAt := now, t_Version := t_Version t + 1\<rparr>"
proof -
  have "pay_env (w_dbs w) (w_dbs w') \<and> sched_ok pay_env w' \<and> w_calls w' = w_calls w
    \<and> (r = Inr () \<longrightarrow> holds svc p t' w' \<and> CanTransitionTo (t_State t) target
       \<and> t' = t\<lparr>t_State := target, t_UpdatedAt := now, t_Version := t_Version t + 1\<rparr>)"
  proof (cases "TransitionTo now t target")
    case (Inl e)
    then show ?thesis using assms pay.R_refl by (auto simp: transition_def holds_def)
  next
    case (Inr t1)
    then have t1: "t1 = t\<lparr>t_State := target, t_UpdatedAt := now\<rparr>" "CanTransitionTo (t_State t) target"
      by (simp_all add: TransitionTo_Inr)
    have x: "tx_at p (transition_body svc now (t_State t) (t_State t1) reason actor) t1 w = (t', r, w')"
      using assms Inr t1 by (simp add: transition_def Router_WithTx_def holds_def)
    have st: "\<forall>d s1 d1. tracks d t \<longrightarrow> transition_body svc now (t_State t) (t_State t1) reason actor t1 d = (s1, Inr d1)
        \<longrightarrow> commit_check d d1 = Inr () \<longrightarrow> pay_rel d d1 \<and> tracks d1 s1"
      using transition_step [of _ t svc now t1 reason actor] t1(1) by auto
    note a = access [OF assms(1) x, where g = "\<lambda>s. s", OF st]
    have "t' = t1\<lparr>t_Version := t_Version t1 + 1\<rparr>" if "r = Inr ()"
      using a(5) [OF that] Update_Inr(1) [of now t1] by (auto simp: transition_body_def body_seq_Inr)
    then have "t' = t\<lparr>t_State := target, t_UpdatedAt := now, t_Version := t_Version t + 1\<rparr>" if "r = Inr ()"
      using that t1(1) by simp
    then show ?thesis using a(1-4) assms(1) t1(2) by (auto simp: holds_def)
  qed
  then show "pay_env (w_dbs w) (w_dbs w')" "sched_ok pay_env w'" "w_calls w' = w_calls w"
    "r = Inr () \<Longrightarrow> holds svc p t' w' \<and> CanTransitionTo (t_State t) target
       \<and> t' = t\<lparr>t_State := target, t_UpdatedAt := now, t_Version := t_Version t + 1\<rparr>" by blast+
qed

lemma persist_world:
  assumes "holds svc p t w" "persist svc now t w = (t', r, w')"
  shows "pay_env (w_dbs w) (w_dbs w')" "sched_ok pay_env w'" "w_calls w' = w_calls w"
    "r = Inr () \<Longrightarrow> t_State t' = t_State t"
proof -
  have x: "tx_at p (Update now) t w = (t', r, w')"
    using assms by (simp add: persist_def Router_WithTx_def holds_def)
  have st: "\<forall>d s1 d1. tracks d t \<longrightarrow> Update now t d = (s1, Inr d1) \<longrightarrow> commit_check d d1 = Inr () \<longrightarrow> pay_rel d d1 \<and> tracks d1 s1"
    using persist_step by blast
  note a = access [OF assms(1) x, where g = "\<lambda>s. s", OF st]
  show "pay_env (w_dbs w) (w_dbs w')" "sched_ok pay_env w'" "w_calls w' = w_calls w" using a(1-3) .
  show "t_State t' = t_State t" if "r = Inr ()"
    using a(5) [OF that] by (auto dest!: Update_Inr(1))
qed

section \<open>What the provider said\<close>

text \<open>Some answer the provider gave from the \<open>n\<close>-th call on has property \<open>P\<close>.\<close>

definition said :: "Adapter \<Rightarrow> nat \<Rightarrow> ProviderCall list \<Rightarrow> (Response result \<Rightarrow> bool) \<Rightarrow> bool" where
  "said ad n h P \<longleftrightarrow> (\<exists>k. n \<le> k \<and> k < length h \<and> P (ad_call ad (take k h) (h ! k)))"

definition said_failed :: "Response result \<Rightarrow> bool" where
  "said_failed r = (case r of Inl e \<Rightarrow> Class_IsTerminal (ClassOf e) | Inr resp \<Rightarrow> rs_Status resp = StatusFailed)"

definition said_authorized :: "string \<Rightarrow> Response result \<Rightarrow> bool" where
  "said_authorized reference r = (case r of Inl e \<Rightarrow> False | Inr resp \<Rightarrow>
     (rs_Status resp = StatusAuthorized \<or> rs_Status resp = StatusCaptured) \<and> rs_ProviderReference resp = reference)"

lemma said_last: "P (ad_call ad h c) \<Longrightarrow> n \<le> length h \<Longrightarrow> said ad n (h @ [c]) P"
  unfolding said_def by (intro exI [of _ "length h"]) simp

lemma said_earlier: "said ad n h P \<Longrightarrow> m \<le> n \<Longrightarrow> said ad m h P"
  unfolding said_def using le_trans by blast

text \<open>The state a result claims is one the provider vouched for.\<close>

definition vouched :: "Adapter \<Rightarrow> nat \<Rightarrow> world \<Rightarrow> outcome \<Rightarrow> bool" where
  "vouched ad n w out \<longleftrightarrow>
     (case fst out of None \<Rightarrow> True | Some t \<Rightarrow>
        (t_State t = StateAuthorizing \<or> t_State t = StateAuthorized \<or> t_State t = StateFailed)
        \<and> (t_State t = StateFailed \<longrightarrow> said ad n (w_calls w) said_failed)
        \<and> (t_State t = StateAuthorized \<longrightarrow> said ad n (w_calls w) (said_authorized (t_PSPReference t)))
        \<and> (\<forall>e. snd out = Some (ErrOutcomeUnresolved e) \<longrightarrow> t_State t = StateAuthorizing \<or> t_State t = StateFailed))"

lemma finish_world:
  assumes "finish err (t', r, w1) = (out, w')"
  shows "w' = w1" "r = Inr () \<Longrightarrow> out = (Some t', err)" "r \<noteq> Inr () \<Longrightarrow> fst out = None"
  using assms by (auto simp: finish_def split: sum.splits)

lemma applyProviderStatus_world:
  assumes h: "holds svc p t w" and "applyProviderStatus svc now t prov resp reason w = (out, w')"
  shows "pay_env (w_dbs w) (w_dbs w')" "sched_ok pay_env w'" "w_calls w' = w_calls w"
    "fst out = Some t' \<Longrightarrow> snd out = None \<and> t_State t' =
       (if rs_Status resp = StatusAuthorized \<or> rs_Status resp = StatusCaptured then StateAuthorized
        else if rs_Status resp = StatusFailed then StateFailed else t_State t)
       \<and> (rs_Status resp = StatusAuthorized \<or> rs_Status resp = StatusCaptured \<longrightarrow> t_PSPReference t' = rs_ProviderReference resp)"
proof -
  let ?t = "t\<lparr>t_PSP := prov, t_PSPReference := rs_ProviderReference resp\<rparr>"
  have h1: "holds svc p ?t w" using h by (simp add: holds_psp)
  consider (auth) "rs_Status resp = StatusAuthorized \<or> rs_Status resp = StatusCaptured"
    "finish None (transition svc now ?t StateAuthorized reason prov w) = (out, w')"
    | (failed) "rs_Status resp = StatusFailed" "finish None (transition svc now ?t StateFailed reason prov w) = (out, w')"
    | (other) "rs_Status resp \<noteq> StatusAuthorized" "rs_Status resp \<noteq> StatusCaptured" "rs_Status resp \<noteq> StatusFailed"
      "finish None (persist svc now ?t w) = (out, w')"
    using assms(2) by (cases "rs_Status resp") (auto simp: applyProviderStatus_def Let_def)
  then have "pay_env (w_dbs w) (w_dbs w') \<and> sched_ok pay_env w' \<and> w_calls w' = w_calls w
    \<and> (\<forall>t'. fst out = Some t' \<longrightarrow> snd out = None \<and> t_State t' =
       (if rs_Status resp = StatusAuthorized \<or> rs_Status resp = StatusCaptured then StateAuthorized
        else if rs_Status resp = StatusFailed then StateFailed else t_State t)
       \<and> (rs_Status resp = StatusAuthorized \<or> rs_Status resp = StatusCaptured \<longrightarrow> t_PSPReference t' = rs_ProviderReference resp))"
  proof cases
    case auth
    obtain t1 r w1 where x: "transition svc now ?t StateAuthorized reason prov w = (t1, r, w1)" by (metis surj_pair)
    show ?thesis using transition_world [OF h1 x] finish_world [OF auth(2) [unfolded x]] auth(1) by (cases "r = Inr ()") auto
  next
    case failed
    obtain t1 r w1 where x: "transition svc now ?t StateFailed reason prov w = (t1, r, w1)" by (metis surj_pair)
    show ?thesis using transition_world [OF h1 x] finish_world [OF failed(2) [unfolded x]] failed(1) by (cases "r = Inr ()") auto
  next
    case other
    obtain t1 r w1 where x: "persist svc now ?t w = (t1, r, w1)" by (metis surj_pair)
    show ?thesis using persist_world [OF h1 x] finish_world [OF other(4) [unfolded x]] other(1-3) by (cases "r = Inr ()") auto
  qed
  then show "pay_env (w_dbs w) (w_dbs w')" "sched_ok pay_env w'" "w_calls w' = w_calls w"
    "fst out = Some t' \<Longrightarrow> snd out = None \<and> t_State t' =
       (if rs_Status resp = StatusAuthorized \<or> rs_Status resp = StatusCaptured then StateAuthorized
        else if rs_Status resp = StatusFailed then StateFailed else t_State t)
       \<and> (rs_Status resp = StatusAuthorized \<or> rs_Status resp = StatusCaptured \<longrightarrow> t_PSPReference t' = rs_ProviderReference resp)" by blast+
qed

lemma apply_vouched:
  assumes h: "holds svc p t (w\<lparr>w_calls := w_calls w @ [c]\<rparr>)" and a: "ad_call ad (w_calls w) c = Inr resp"
    and "applyProviderStatus svc now t prov resp reason (w\<lparr>w_calls := w_calls w @ [c]\<rparr>) = (out, w')"
    and st: "t_State t = StateAuthorizing" and n: "n \<le> length (w_calls w)"
  shows "pay_env (w_dbs w) (w_dbs w')" "sched_ok pay_env w'" "w_calls w' = w_calls w @ [c]" "vouched ad n w' out"
proof -
  note ap = applyProviderStatus_world [OF h assms(3)]
  show "pay_env (w_dbs w) (w_dbs w')" "sched_ok pay_env w'" "w_calls w' = w_calls w @ [c]" using ap(1-3) by simp_all
  have "said ad n (w_calls w') said_failed" if "rs_Status resp = StatusFailed"
    using that a n ap(3) by (simp add: said_last said_failed_def)
  moreover have "said ad n (w_calls w') (said_authorized (rs_ProviderReference resp))" if "rs_Status resp = StatusAuthorized \<or> rs_Status resp = StatusCaptured"
    using that a n ap(3) by (simp add: said_last said_authorized_def)
  ultimately show "vouched ad n w' out"
    using ap(4) st by (auto simp: vouched_def split: option.splits)
qed

lemma status_loop_world:
  assumes "holds svc p t w" "t_State t = StateAuthorizing" "n \<le> length (w_calls w)"
    "status_loop svc now ctxDone t ad key authErr m w = (out, w')"
  shows "pay_env (w_dbs w) (w_dbs w') \<and> sched_ok pay_env w' \<and> vouched ad n w' out
    \<and> (\<exists>k \<le> m. w_calls w' = w_calls w @ replicate k (CallGetStatus key (t_ID t)))
    \<and> ((\<forall>h. case ad_call ad h (CallGetStatus key (t_ID t)) of Inl _ \<Rightarrow> True | Inr resp \<Rightarrow> rs_Status resp = StatusNotFound) \<longrightarrow>
        (\<exists>e. out = (Some t, Some (ErrOutcomeUnresolved e))))"
  using assms
proof (induction m arbitrary: w)
  case 0
  then show ?case using pay.R_refl by (auto simp: vouched_def holds_def intro: exI [of _ 0])
next
  case (Suc m)
  let ?c = "CallGetStatus key (t_ID t)"
  let ?w1 = "w\<lparr>w_calls := w_calls w @ [?c]\<rparr>"
  have h1: "holds svc p t ?w1" using Suc.prems(1) by (simp add: holds_calls)
  have stop: "pay_env (w_dbs w) (w_dbs ?w1) \<and> sched_ok pay_env ?w1 \<and> vouched ad n ?w1 (Some t, Some (ErrOutcomeUnresolved e))
      \<and> (\<exists>k \<le> Suc m. w_calls ?w1 = w_calls w @ replicate k ?c)" for e
    using h1 pay.R_refl Suc.prems(2) by (auto simp: vouched_def holds_def intro: exI [of _ 1])
  show ?case
  proof (cases "ad_call ad (w_calls w) ?c")
    case (Inl e)
    then show ?thesis using Suc.prems(4) stop by (auto simp: call_provider_def)
  next
    case (Inr resp)
    show ?thesis
    proof (cases "rs_Status resp = StatusNotFound")
      case False
      then have ap: "applyProviderStatus svc now t (ad_Name ad) resp ''recovered after ambiguous failure'' ?w1 = (out, w')"
        using Suc.prems(4) Inr by (simp add: call_provider_def)
      note a = apply_vouched [OF h1 Inr ap Suc.prems(2,3)]
      have "\<exists>k \<le> Suc m. w_calls w' = w_calls w @ replicate k ?c" using a(3) by (intro exI [of _ 1]) simp
      moreover have "\<not> (\<forall>h. case ad_call ad h ?c of Inl _ \<Rightarrow> True | Inr resp \<Rightarrow> rs_Status resp = StatusNotFound)"
        using Inr False by (auto intro!: exI [of _ "w_calls w"])
      ultimately show ?thesis using a(1,2,4) unfolding world.simps by blast
    next
      case True
      show ?thesis
      proof (cases "0 < m \<and> ctxDone m")
        case True
        then show ?thesis using Suc.prems(4) Inr \<open>rs_Status resp = StatusNotFound\<close> stop by (auto simp: call_provider_def)
      next
        case False
        then have l: "status_loop svc now ctxDone t ad key authErr m ?w1 = (out, w')"
          using Suc.prems(4) Inr True by (auto simp: call_provider_def)
        have n1: "n \<le> length (w_calls ?w1)" using Suc.prems(3) by simp
        note ih = Suc.IH [OF h1 Suc.prems(2) n1 l]
        then obtain k where k: "k \<le> m" "w_calls w' = w_calls ?w1 @ replicate k ?c" by blast
        then have "w_calls w' = w_calls w @ replicate (Suc k) ?c" by simp
        then show ?thesis using ih k(1) by (auto intro!: exI [of _ "Suc k"])
      qed
    qed
  qed
qed

lemma handleAuthorizeError_world:
  assumes h: "holds svc p t (w\<lparr>w_calls := w_calls w @ [c]\<rparr>)" and a: "ad_call ad (w_calls w) c = Inl e"
    and st: "t_State t = StateAuthorizing" and n: "n \<le> length (w_calls w)"
    and x: "handleAuthorizeError svc now ctxDone t ad key e (w\<lparr>w_calls := w_calls w @ [c]\<rparr>) = (out, w')"
  shows "pay_env (w_dbs w) (w_dbs w') \<and> sched_ok pay_env w' \<and> vouched ad n w' out
    \<and> (\<exists>k \<le> statusRecheckAttempts. w_calls w' = w_calls w @ c # replicate k (CallGetStatus key (t_ID t)))
    \<and> (\<not> Class_IsTerminal (ClassOf e) \<longrightarrow> \<not> IsRetryable (ClassOf e) \<longrightarrow>
        (\<forall>h. case ad_call ad h (CallGetStatus key (t_ID t)) of Inl _ \<Rightarrow> True | Inr resp \<Rightarrow> rs_Status resp = StatusNotFound) \<longrightarrow>
        (\<exists>e. out = (Some t, Some (ErrOutcomeUnresolved e))))"
proof -
  let ?w1 = "w\<lparr>w_calls := w_calls w @ [c]\<rparr>"
  consider (final) "Class_IsTerminal (ClassOf e)"
    "finish (Some e) (transition svc now t StateFailed (class_string (ClassOf e)) (ad_Name ad) ?w1) = (out, w')"
    | (retry) "\<not> Class_IsTerminal (ClassOf e)" "IsRetryable (ClassOf e)" "out = (Some t, Some e)" "w' = ?w1"
    | (amb) "\<not> Class_IsTerminal (ClassOf e)" "\<not> IsRetryable (ClassOf e)"
      "status_loop svc now ctxDone t ad key e statusRecheckAttempts ?w1 = (out, w')"
    using x by (auto simp: handleAuthorizeError_def resolveAmbiguousOutcome_def Let_def split: if_splits)
  then show ?thesis
  proof cases
    case final
    obtain t1 r w1 where y: "transition svc now t StateFailed (class_string (ClassOf e)) (ad_Name ad) ?w1 = (t1, r, w1)"
      by (metis surj_pair)
    note tw = transition_world [OF h y] and f = finish_world [OF final(2) [unfolded y]]
    have calls: "w_calls w' = w_calls w @ [c]" using tw(3) f(1) by simp
    have "said ad n (w_calls w') said_failed" using a n final(1) calls by (simp add: said_last said_failed_def)
    then have "vouched ad n w' out" using tw(4) f by (cases "r = Inr ()") (auto simp: vouched_def)
    then show ?thesis using tw(1,2) f(1) calls final(1) by (auto intro: exI [of _ 0])
  next
    case retry
    then show ?thesis using h st pay.R_refl by (auto simp: vouched_def holds_def intro: exI [of _ 0])
  next
    case amb
    have "n \<le> length (w_calls ?w1)" using n by simp
    note l = status_loop_world [OF h st this amb(3)]
    then show ?thesis by simp
  qed
qed

lemma Authorize_world:
  assumes so: "sched_ok pay_env w" and inv: "list_all shard_inv (w_dbs w)"
    and x: "Service_Authorize svc now ctxDone merchantID i w = (out, w')"
  shows "pay_env (w_dbs w) (w_dbs w') \<and> sched_ok pay_env w'
    \<and> (w_calls w' \<noteq> w_calls w \<or> fst out \<noteq> None \<longrightarrow>
        (\<exists>ad key amount. Registry_Default (svc_providers svc) = Inr ad
          \<and> key = OperationKey (svc_uuidString svc) i ''authorize''
          \<and> (\<exists>k \<le> statusRecheckAttempts. w_calls w' = w_calls w @ CallAuthorize key i amount # replicate k (CallGetStatus key i))
          \<and> vouched ad (length (w_calls w)) w' out
          \<and> (case ad_call ad (w_calls w) (CallAuthorize key i amount) of Inr _ \<Rightarrow> True | Inl e \<Rightarrow>
             (\<not> Class_IsTerminal (ClassOf e) \<and> \<not> IsRetryable (ClassOf e) \<and>
              (\<forall>h. case ad_call ad h (CallGetStatus key i) of Inl _ \<Rightarrow> True | Inr resp \<Rightarrow> rs_Status resp = StatusNotFound) \<longrightarrow>
              (\<exists>t e. out = (Some t, Some (ErrOutcomeUnresolved e)) \<and> t_State t = StateAuthorizing)))))"
proof (cases "shardOf svc merchantID")
  case (Inl e)
  then show ?thesis using x so pay.R_refl by (auto simp: Service_Authorize_def)
next
  case (Inr p)
  obtain rq w1 where q: "query_at p (TxStore_Get i) w = (rq, w1)" by (metis surj_pair)
  note qr = pay.query_at_rel [OF so q] and qc = query_at_calls [OF q]
  show ?thesis
  proof (cases rq)
    case (Inl e)
    then show ?thesis using x Inr q qr(1,2) qc by (auto simp: Service_Authorize_def)
  next
    case rq: (Inr t)
    have p1: "p < length (w_dbs w1)" "TxStore_Get i (w_dbs w1 ! p) = Inr t" using qr(3) [OF rq] by auto
    have "shard_inv (w_dbs w1 ! p)"
      using pay_env_nth [OF qr(1) p1(1)] pay_env_length [OF qr(1)] inv p1(1) by (auto simp: pay_rel_def list_all_length)
    then have row: "payment_row i (w_dbs w1 ! p) = Some t" and key: "t_ShardKey t = KeyForMerchant (t_MerchantID t)"
      using TxStore_Get_Inr(2) [OF p1(2)] payment_row_Some by (fastforce simp: shard_inv_def)+
    have ti: "t_ID t = i" using payment_row_Some [OF row] by simp
    show ?thesis
    proof (cases "t_MerchantID t = merchantID \<and> is_ok (Registry_Default (svc_providers svc))")
      case False
      then show ?thesis using x Inr q rq qr(1,2) qc by (auto simp: Service_Authorize_def is_ok_def split: sum.splits if_splits)
    next
      case True
      then obtain ad where ad: "Registry_Default (svc_providers svc) = Inr ad" by (auto simp: is_ok_iff)
      have h: "holds svc p t w1"
        using True Inr key qr(2) tracks_row [OF row] by (simp add: holds_def shardOf_def)
      obtain t1 r w2 where tr: "transition svc now t StateAuthorizing ''sending to provider'' (ad_Name ad) w1 = (t1, r, w2)"
        by (metis surj_pair)
      note tw = transition_world [OF h tr]
      have R2: "pay_env (w_dbs w) (w_dbs w2)" using pay.R_trans [OF qr(1) tw(1)] .
      have c2: "w_calls w2 = w_calls w" using tw(3) qc by simp
      show ?thesis
      proof (cases "r = Inr ()")
        case False
        then obtain e where "r = Inl e" by (cases r) auto
        then show ?thesis using x Inr q rq True ad tr R2 tw(2) c2 by (auto simp: Service_Authorize_def)
      next
        case r: True
        have h2: "holds svc p t1 w2" and st: "t_State t1 = StateAuthorizing" and t1i: "t_ID t1 = i"
          using tw(4) [OF r] ti by auto
        define key where "key = OperationKey (svc_uuidString svc) i ''authorize''"
        define c where "c = CallAuthorize key i (t_Amount t1)"
        have h3: "holds svc p t1 (w2\<lparr>w_calls := w_calls w2 @ [c]\<rparr>)" using h2 by (simp add: holds_calls)
        show ?thesis
        proof (cases "ad_call ad (w_calls w2) c")
          case a: (Inl e)
          have "handleAuthorizeError svc now ctxDone t1 ad key e (w2\<lparr>w_calls := w_calls w2 @ [c]\<rparr>) = (out, w')"
            using x Inr q rq True ad tr r a t1i by (simp add: Service_Authorize_def call_provider_def key_def c_def Let_def)
          note l = handleAuthorizeError_world [OF h3 a st, of "length (w_calls w)", OF _ this]
          have "pay_env (w_dbs w) (w_dbs w')" using l pay.R_trans [OF R2] c2 by simp
          then show ?thesis using l ad c2 t1i a st unfolding key_def [symmetric]
            by (intro conjI impI exI [of _ ad] exI [of _ key] exI [of _ "t_Amount t1"]) (auto simp: c_def)
        next
          case a: (Inr resp)
          have "applyProviderStatus svc now t1 (ad_Name ad) resp ''provider responded'' (w2\<lparr>w_calls := w_calls w2 @ [c]\<rparr>) = (out, w')"
            using x Inr q rq True ad tr r a t1i by (simp add: Service_Authorize_def call_provider_def key_def c_def Let_def)
          note l = apply_vouched [OF h3 a this st, of "length (w_calls w)"]
          have "pay_env (w_dbs w) (w_dbs w')" using l(1) pay.R_trans [OF R2] c2 by simp
          then show ?thesis using l(2-4) ad c2 a unfolding key_def [symmetric]
            by (intro conjI impI exI [of _ ad] exI [of _ key] exI [of _ "t_Amount t1"] exI [of _ 0]) (auto simp: c_def)
        qed
      qed
    qed
  qed
qed

section \<open>A concrete payment\<close>

text \<open>One database, one provider, one payment just created; the witnesses run the service on it.\<close>

definition demo_payment :: Transaction where
  "demo_payment = \<lparr>t_ID = 7, t_MerchantID = ''m1'', t_ShardKey = KeyForMerchant ''m1'', t_IdempotencyKey = ''k'',
     t_State = StateCreated, t_Amount = mk_money 1000 ''USD'', t_Captured = mk_money 0 ''USD'', t_Refunded = mk_money 0 ''USD'',
     t_PSP = [], t_PSPReference = [], t_Version = 1, t_LastAppliedEventSeq = 0, t_CreatedAt = 0, t_UpdatedAt = 0\<rparr>"

definition demo_db :: db where
  "demo_db = empty_db\<lparr>db_payments := [demo_payment],
     db_changes := [\<lparr>sc_TransactionID = 7, sc_From = None, sc_To = StateCreated, sc_Reason = ''payment created'',
        sc_Actor = ''api:m1'', sc_SourceIP = []\<rparr>],
     db_fees := [\<lparr>s_MerchantID = ''*'', s_Currency = ''USD'', s_BasisPoints = 290, s_FixedMinor = 30, s_EffectiveFrom = 0, s_EffectiveTo = None\<rparr>]\<rparr>"

definition demo_svc :: "(ProviderCall list \<Rightarrow> ProviderCall \<Rightarrow> Response result) \<Rightarrow> Service" where
  "demo_svc answer = \<lparr>svc_mapping = \<lparr>physical = Suc 0\<rparr>, svc_providers = NewRegistry ''sim'' [\<lparr>ad_Name = ''sim'', ad_call = answer\<rparr>],
     svc_topicAuthorize = ''payments.authorize'', svc_inet_ok = (\<lambda>_. True), svc_uuidString = show_nat\<rparr>"

definition demo_world :: "db \<Rightarrow> world" where
  "demo_world d = \<lparr>w_dbs = [d], w_sched = [], w_calls = []\<rparr>"

lemma usd: "valid_currency ''USD''" by (simp add: valid_currency_def is_upper_def)

lemma demo_inv: "shard_inv demo_db"
proof -
  have "trail_ok demo_db" unfolding trail_ok_def
  proof
    fix i show "trail_path None (trail i demo_db) (map_option t_State (payment_row i demo_db))"
      by (simp add: trail_def demo_db_def payment_row_def demo_payment_def)
  qed
  moreover have "payments_ok demo_db"
    by (simp add: payments_ok_def demo_db_def demo_payment_def txn_inv_def usd known_state_def allStates_def)
  moreover have "ledger_ok demo_db" "accounts_ok demo_db"
    by (simp_all add: demo_db_def empty_db_def ledger_ok_def ledger_total_def accounts_ok_def)
  ultimately show ?thesis by (simp add: shard_inv_def) (simp add: demo_db_def demo_payment_def)
qed

lemma demo_mapping: "NewMapping 1 = Inr \<lparr>physical = 1\<rparr>" by code_simp

lemma demo_shard [simp]: "Shard \<lparr>physical = Suc 0\<rparr> (KeyForMerchant m) = Inr 0"
  using Shard_merchant [OF demo_mapping, of m] by simp

lemma demo_adapter: "Registry_Default (svc_providers (demo_svc answer)) = Inr \<lparr>ad_Name = ''sim'', ad_call = answer\<rparr>"
  by (simp add: demo_svc_def Registry_Default_def Registry_Get_def NewRegistry_def)

lemma demo_get: "query_at 0 (TxStore_Get 7) (demo_world demo_db) = (Inr demo_payment, demo_world demo_db)"
  by (simp add: query_at_def turn_def demo_world_def TxStore_Get_def scanTransaction_def payment_row_def demo_db_def
      demo_payment_def Money_New_def Currency_Validate_eq usd Let_def)

lemma demo_transition:
  "\<exists>t w. transition (demo_svc answer) 5 demo_payment StateAuthorizing ''sending to provider'' ''sim'' (demo_world demo_db) = (t, Inr (), w)
     \<and> w_calls w = []"
  by (simp add: transition_def TransitionTo_def State_Validate_def assert_err_def allStates_def demo_payment_def
      CanTransitionTo_def demo_svc_def Router_WithTx_def tx_at_def turn_def demo_world_def DB_WithTx_def transition_body_def
      body_seq_def Update_def payment_row_def demo_db_def assert_valid_transaction_transition_def db_transitions_def
      payment_checks_def updated_row_def known_state_def usd RecordStateChange_def commit_check_def empty_db_def)
definition demo_timeout :: "ProviderCall list \<Rightarrow> ProviderCall \<Rightarrow> Response result" where
  "demo_timeout h c = Inl (PspError ClassTimeout ''sim'' [])"

lemma demo_authorize:
  "\<exists>t w'. Service_Authorize (demo_svc demo_timeout) 5 (\<lambda>_. False) ''m1'' 7 (demo_world demo_db)
     = ((Some t, Some (ErrOutcomeUnresolved (PspError ClassTimeout ''sim'' []))), w') \<and> length (w_calls w') = 2"
proof -
  obtain t1 w2 where tr: "transition (demo_svc demo_timeout) 5 demo_payment StateAuthorizing ''sending to provider'' ''sim''
      (demo_world demo_db) = (t1, Inr (), w2)" "w_calls w2 = []" using demo_transition by blast
  have "shardOf (demo_svc demo_timeout) ''m1'' = Inr 0" by (simp add: shardOf_def demo_svc_def)
  moreover have "t_MerchantID demo_payment = ''m1''" by (simp add: demo_payment_def)
  ultimately show ?thesis using tr
    by (simp add: Service_Authorize_def demo_get demo_adapter call_provider_def demo_timeout_def handleAuthorizeError_def
        resolveAmbiguousOutcome_def statusRecheckAttempts_def Class_IsTerminal_def IsRetryable_def Let_def
        numeral_3_eq_3)
qed

lemma demo_world_ok: "sched_ok pay_env (demo_world demo_db)" "list_all shard_inv (w_dbs (demo_world demo_db))"
  using demo_inv by (simp_all add: demo_world_def sched_ok_def)

section \<open>Claims on authorization\<close>

lemma shard_invs_env: "pay_env dbs dbs' \<Longrightarrow> list_all shard_inv dbs \<Longrightarrow> list_all shard_inv dbs'"
  by (auto simp: list_all2_conv_all_nth list_all_length pay_rel_def)

text \<open>C2: one authorization asks the provider for one charge. Either the provider is not called, or
  it gets exactly one authorize request, for this payment and under the key derived from it,
  followed by at most three status queries under the same key; whatever it answers, whatever
  faults occur and whatever other processes do.\<close>

theorem Authorize_charges_at_most_once:
  assumes "sched_ok pay_env w" "list_all shard_inv (w_dbs w)"
    and "Service_Authorize svc now ctxDone merchantID i w = (out, w')"
  shows "w_calls w' = w_calls w \<or>
    (\<exists>amount k. k \<le> 3 \<and> (let key = OperationKey (svc_uuidString svc) i ''authorize'' in
       w_calls w' = w_calls w @ CallAuthorize key i amount # replicate k (CallGetStatus key i)))"
  using Authorize_world [OF assms] by (auto simp: statusRecheckAttempts_def Let_def)

theorem Authorize_charges_at_most_once_witness:
  "\<exists>out w' amount k. Service_Authorize (demo_svc demo_timeout) 5 (\<lambda>_. False) ''m1'' 7 (demo_world demo_db) = (out, w')
     \<and> w_calls w' = CallAuthorize (OperationKey show_nat 7 ''authorize'') 7 amount
         # replicate k (CallGetStatus (OperationKey show_nat 7 ''authorize'') 7)"
proof -
  obtain t w' where a: "Service_Authorize (demo_svc demo_timeout) 5 (\<lambda>_. False) ''m1'' 7 (demo_world demo_db)
     = ((Some t, Some (ErrOutcomeUnresolved (PspError ClassTimeout ''sim'' []))), w')" "length (w_calls w') = 2"
    using demo_authorize by blast
  have "w_calls (demo_world demo_db) = []" "svc_uuidString (demo_svc demo_timeout) = show_nat"
    by (simp_all add: demo_world_def demo_svc_def)
  then show ?thesis
    using Authorize_charges_at_most_once [OF demo_world_ok a(1)] a by (auto simp: Let_def)
qed

text \<open>C14: the state an authorization returns is one the provider vouched for: it says failed only
  after the provider declined definitively or reported failure, authorized only after it reported
  authorized or captured, under the reference the payment carries, and otherwise it stays
  authorizing.\<close>

theorem Authorize_never_assumes:
  assumes "sched_ok pay_env w" "list_all shard_inv (w_dbs w)" "Registry_Default (svc_providers svc) = Inr ad"
    and "Service_Authorize svc now ctxDone merchantID i w = ((Some t, err), w')"
  shows "(t_State t = StateAuthorizing \<or> t_State t = StateAuthorized \<or> t_State t = StateFailed)
    \<and> (t_State t = StateFailed \<longrightarrow> said ad (length (w_calls w)) (w_calls w') said_failed)
    \<and> (t_State t = StateAuthorized \<longrightarrow> said ad (length (w_calls w)) (w_calls w') (said_authorized (t_PSPReference t)))"
  using Authorize_world [OF assms(1,2,4)] assms(3) by (auto simp: vouched_def)

theorem Authorize_never_assumes_witness:
  "\<exists>t err w'. Service_Authorize (demo_svc demo_timeout) 5 (\<lambda>_. False) ''m1'' 7 (demo_world demo_db) = ((Some t, err), w')
     \<and> t_State t = StateAuthorizing"
proof -
  obtain t w' where a: "Service_Authorize (demo_svc demo_timeout) 5 (\<lambda>_. False) ''m1'' 7 (demo_world demo_db)
     = ((Some t, Some (ErrOutcomeUnresolved (PspError ClassTimeout ''sim'' []))), w')"
    using demo_authorize by blast
  have "\<not> said \<lparr>ad_Name = ''sim'', ad_call = demo_timeout\<rparr> n h said_failed"
    "\<not> said \<lparr>ad_Name = ''sim'', ad_call = demo_timeout\<rparr> n h (said_authorized x)" for n h x
    by (simp_all add: said_def said_failed_def said_authorized_def demo_timeout_def Class_IsTerminal_def)
  then have "t_State t = StateAuthorizing"
    using Authorize_never_assumes [OF demo_world_ok demo_adapter a] by blast
  then show ?thesis using a by blast
qed

text \<open>When the outcome cannot be established it is left open. If the authorize request fails in a
  way that is neither a definitive decline nor a refusal of service, and every status query
  fails or reports no charge, the result is the unresolved error and the payment is still
  authorizing, never failed.\<close>

theorem Authorize_unresolved_stays_open:
  assumes "sched_ok pay_env w" "list_all shard_inv (w_dbs w)" "Registry_Default (svc_providers svc) = Inr ad"
    and "Service_Authorize svc now ctxDone merchantID i w = (out, w')" "w_calls w' \<noteq> w_calls w"
    and "\<And>h key amount. \<exists>e. ad_call ad h (CallAuthorize key i amount) = Inl e
          \<and> \<not> Class_IsTerminal (ClassOf e) \<and> \<not> IsRetryable (ClassOf e)"
    and "\<And>h key. case ad_call ad h (CallGetStatus key i) of Inl _ \<Rightarrow> True | Inr resp \<Rightarrow> rs_Status resp = StatusNotFound"
  shows "\<exists>t e. out = (Some t, Some (ErrOutcomeUnresolved e)) \<and> t_State t = StateAuthorizing"
proof -
  obtain key amount where k: "case ad_call ad (w_calls w) (CallAuthorize key i amount) of Inr _ \<Rightarrow> True | Inl e \<Rightarrow>
      (\<not> Class_IsTerminal (ClassOf e) \<and> \<not> IsRetryable (ClassOf e) \<and>
       (\<forall>h. case ad_call ad h (CallGetStatus key i) of Inl _ \<Rightarrow> True | Inr resp \<Rightarrow> rs_Status resp = StatusNotFound) \<longrightarrow>
       (\<exists>t e. out = (Some t, Some (ErrOutcomeUnresolved e)) \<and> t_State t = StateAuthorizing))"
    using Authorize_world [OF assms(1,2,4)] assms(3,5) by auto
  obtain e where "ad_call ad (w_calls w) (CallAuthorize key i amount) = Inl e"
    "\<not> Class_IsTerminal (ClassOf e)" "\<not> IsRetryable (ClassOf e)" using assms(6) by blast
  then show ?thesis using k assms(7) by simp
qed

theorem Authorize_unresolved_stays_open_witness:
  "\<exists>t e w'. Service_Authorize (demo_svc demo_timeout) 5 (\<lambda>_. False) ''m1'' 7 (demo_world demo_db)
     = ((Some t, Some (ErrOutcomeUnresolved e)), w') \<and> t_State t = StateAuthorizing"
proof -
  obtain t w' where a: "Service_Authorize (demo_svc demo_timeout) 5 (\<lambda>_. False) ''m1'' 7 (demo_world demo_db)
     = ((Some t, Some (ErrOutcomeUnresolved (PspError ClassTimeout ''sim'' []))), w')" "length (w_calls w') = 2"
    using demo_authorize by blast
  have "\<exists>t' e. (Some t, Some (ErrOutcomeUnresolved (PspError ClassTimeout ''sim'' []))) = (Some t', Some (ErrOutcomeUnresolved e))
      \<and> t_State t' = StateAuthorizing"
    by (rule Authorize_unresolved_stays_open [OF demo_world_ok demo_adapter a(1)])
      (use a(2) in \<open>auto simp: demo_world_def demo_timeout_def Class_IsTerminal_def IsRetryable_def\<close>)
  then show ?thesis using a(1) by blast
qed

text \<open>Authorization is a well-behaved process. Under every fault and interleaving with others of
  the kind it keeps every database's invariant: rows obey their constraints, every payment's
  audit trail is a path of the state machine ending in the stored state, the ledger balances.\<close>

theorem Authorize_keeps_invariants:
  assumes "sched_ok pay_env w" "list_all shard_inv (w_dbs w)"
    and "Service_Authorize svc now ctxDone merchantID i w = (out, w')"
  shows "pay_env (w_dbs w) (w_dbs w') \<and> list_all shard_inv (w_dbs w')"
  using Authorize_world [OF assms] shard_invs_env assms(2) by blast

theorem Authorize_keeps_invariants_witness:
  "\<exists>out w'. Service_Authorize (demo_svc demo_timeout) 5 (\<lambda>_. False) ''m1'' 7 (demo_world demo_db) = (out, w')
     \<and> list_all shard_inv (w_dbs w')"
proof -
  obtain t w' where a: "Service_Authorize (demo_svc demo_timeout) 5 (\<lambda>_. False) ''m1'' 7 (demo_world demo_db)
     = ((Some t, Some (ErrOutcomeUnresolved (PspError ClassTimeout ''sim'' []))), w')"
    using demo_authorize by blast
  then show ?thesis using Authorize_keeps_invariants [OF demo_world_ok a] by blast
qed

end
