(* ===== verification/CaptureSafety.thy ===== *)
theory CaptureSafety
  imports PaymentSafety
begin

text \<open>
  Creation and capture: that the payment, its first audit row and the message that drives it are
  written together; that a capture is validated before the provider hears of it; that a recorded
  capture is the state change, the audit row and a balanced three-leg entry in one transaction;
  and where the code falls short of its own rule that everything checkable is checked first.
\<close>

section \<open>The posting of a capture\<close>

lemma ensureCaptureAccounts_Inr:
  assumes "ensureCaptureAccounts t cur prov d = Inr (acc, d')"
  shows "ledger_extends d d'" "accounts_ok d \<Longrightarrow> accounts_ok d'" "db_payments d' = db_payments d" "db_changes d' = db_changes d"
    "db_entries d' = db_entries d" "db_postings d' = db_postings d" "db_fees d' = db_fees d"
    "\<exists>c p f. c \<in> set (db_accounts d') \<and> p \<in> set (db_accounts d') \<and> f \<in> set (db_accounts d')
      \<and> acc = \<lparr>acc_clearing = a_ID c, acc_payable = a_ID p, acc_feeRevenue = a_ID f\<rparr>
      \<and> natural_key c = (\<lparr>o_Type = ''psp'', o_ID = prov\<rparr>, PurposeClearing, cur)
      \<and> natural_key p = (\<lparr>o_Type = ''merchant'', o_ID = t_MerchantID t\<rparr>, PurposePayable, cur)
      \<and> natural_key f = (\<lparr>o_Type = ''platform'', o_ID = ''platform''\<rparr>, PurposeFeeRevenue, cur)"
proof -
  obtain c d1 p d2 f where
    e1: "EnsureAccount (capture_account ''psp'' prov PurposeClearing AccountTypeAsset cur (t_ShardKey t)) d = Inr (c, d1)"
    and e2: "EnsureAccount (capture_account ''merchant'' (t_MerchantID t) PurposePayable AccountTypeLiability cur (t_ShardKey t)) d1 = Inr (p, d2)"
    and e3: "EnsureAccount (capture_account ''platform'' ''platform'' PurposeFeeRevenue AccountTypeRevenue cur (t_ShardKey t)) d2 = Inr (f, d')"
    and acc: "acc = \<lparr>acc_clearing = a_ID c, acc_payable = a_ID p, acc_feeRevenue = a_ID f\<rparr>"
    using assms by (auto simp: ensureCaptureAccounts_def err_simps)
  show "ledger_extends d d'"
    using EnsureAccount_ledger [OF e1] EnsureAccount_ledger [OF e2] EnsureAccount_ledger [OF e3] ledger_extends_trans by blast
  show "accounts_ok d \<Longrightarrow> accounts_ok d'"
    using EnsureAccount_accounts_ok [OF _ e1] EnsureAccount_accounts_ok [OF _ e2] EnsureAccount_accounts_ok [OF _ e3] by blast
  note f1 = EnsureAccount_frame [OF e1] and f2 = EnsureAccount_frame [OF e2] and f3 = EnsureAccount_frame [OF e3]
  show "db_payments d' = db_payments d" "db_changes d' = db_changes d" "db_entries d' = db_entries d" "db_postings d' = db_postings d"
    "db_fees d' = db_fees d"
    using f1(1-4,7) f2(1-4,7) f3(1-4,7) by simp_all
  have "c \<in> set (db_accounts d')" "p \<in> set (db_accounts d')" "f \<in> set (db_accounts d')"
    using EnsureAccount_Inr(2) [OF e1] EnsureAccount_Inr(2) [OF e2] EnsureAccount_Inr(2) [OF e3] f2(11) f3(11) by auto
  moreover have "natural_key c = (\<lparr>o_Type = ''psp'', o_ID = prov\<rparr>, PurposeClearing, cur)"
    "natural_key p = (\<lparr>o_Type = ''merchant'', o_ID = t_MerchantID t\<rparr>, PurposePayable, cur)"
    "natural_key f = (\<lparr>o_Type = ''platform'', o_ID = ''platform''\<rparr>, PurposeFeeRevenue, cur)"
    using EnsureAccount_Inr(1) [OF e1] EnsureAccount_Inr(1) [OF e2] EnsureAccount_Inr(1) [OF e3]
    by (simp_all add: natural_key_def capture_account_def)
  ultimately show "\<exists>c p f. c \<in> set (db_accounts d') \<and> p \<in> set (db_accounts d') \<and> f \<in> set (db_accounts d')
      \<and> acc = \<lparr>acc_clearing = a_ID c, acc_payable = a_ID p, acc_feeRevenue = a_ID f\<rparr>
      \<and> natural_key c = (\<lparr>o_Type = ''psp'', o_ID = prov\<rparr>, PurposeClearing, cur)
      \<and> natural_key p = (\<lparr>o_Type = ''merchant'', o_ID = t_MerchantID t\<rparr>, PurposePayable, cur)
      \<and> natural_key f = (\<lparr>o_Type = ''platform'', o_ID = ''platform''\<rparr>, PurposeFeeRevenue, cur)"
    using acc by blast
qed

text \<open>What a posted capture adds: one entry with three legs on the clearing, payable and fee accounts,
  the merchant's share and the fee adding up to what was captured.\<close>

definition capture_posted :: "uuid \<Rightarrow> time \<Rightarrow> Transaction \<Rightarrow> Money \<Rightarrow> string \<Rightarrow> db \<Rightarrow> db \<Rightarrow> bool" where
  "capture_posted entryID now t captured prov d d' \<longleftrightarrow>
     (\<exists>s fee payable c p f. ScheduleFor (t_MerchantID t) (m_currency captured) now d' = Inr s \<and> Calculate s captured = Inr fee
        \<and> m_currency payable = m_currency captured \<and> m_currency fee = m_currency captured
        \<and> 0 < minor payable \<and> 0 < minor fee \<and> minor payable + minor fee = minor captured
        \<and> {c, p, f} \<subseteq> set (db_accounts d')
        \<and> natural_key c = (\<lparr>o_Type = ''psp'', o_ID = prov\<rparr>, PurposeClearing, m_currency captured)
        \<and> natural_key p = (\<lparr>o_Type = ''merchant'', o_ID = t_MerchantID t\<rparr>, PurposePayable, m_currency captured)
        \<and> natural_key f = (\<lparr>o_Type = ''platform'', o_ID = ''platform''\<rparr>, PurposeFeeRevenue, m_currency captured)
        \<and> map je_ID (db_entries d') = map je_ID (db_entries d) @ [entryID]
        \<and> db_postings d' = db_postings d @ map (\<lambda>q. \<lparr>pr_EntryID = entryID, pr_Posting = q\<rparr>)
            [mk_posting (a_ID c) Debit captured, mk_posting (a_ID p) Credit payable, mk_posting (a_ID f) Credit fee])"

lemma postCapture_Inr:
  assumes "postCapture entryID now t captured prov d = Inr d'"
  shows "ledger_extends d d'" "accounts_ok d \<Longrightarrow> accounts_ok d'" "db_payments d' = db_payments d" "db_changes d' = db_changes d"
    "capture_posted entryID now t captured prov d d'"
proof -
  obtain s fee payable acc d1 x where
    s: "ScheduleFor (t_MerchantID t) (m_currency captured) now d = Inr s" and fee: "Calculate s captured = Inr fee"
    and pay: "Money_Sub captured fee = Inr payable" and acc: "ensureCaptureAccounts t (m_currency captured) prov d = Inr (acc, d1)"
    and ne: "NewEntry entryID now (Some (t_ID t)) (t_ShardKey t) (''capture of '' @ Money_String captured @ '' via '' @ prov) now
         [mk_posting (acc_clearing acc) Debit captured, mk_posting (acc_payable acc) Credit payable,
          mk_posting (acc_feeRevenue acc) Credit fee] = Inr x"
    and re: "RecordEntry x d1 = Inr d'"
    using assms by (auto simp: postCapture_def err_simps)
  note a = ensureCaptureAccounts_Inr [OF acc] and n = NewEntry_Inr [OF ne] and r = RecordEntry_Inr [OF re]
  show "ledger_extends d d'" using a(1) RecordEntry_ledger [OF re] ledger_extends_trans by blast
  show "accounts_ok d \<Longrightarrow> accounts_ok d'" using a(2) by (simp add: r(1) accounts_ok_def)
  show "db_payments d' = db_payments d" "db_changes d' = db_changes d" using a(3,4) by (simp_all add: r(1))
  obtain c p f where cpf: "c \<in> set (db_accounts d1)" "p \<in> set (db_accounts d1)" "f \<in> set (db_accounts d1)"
    "acc = \<lparr>acc_clearing = a_ID c, acc_payable = a_ID p, acc_feeRevenue = a_ID f\<rparr>"
    "natural_key c = (\<lparr>o_Type = ''psp'', o_ID = prov\<rparr>, PurposeClearing, m_currency captured)"
    "natural_key p = (\<lparr>o_Type = ''merchant'', o_ID = t_MerchantID t\<rparr>, PurposePayable, m_currency captured)"
    "natural_key f = (\<lparr>o_Type = ''platform'', o_ID = ''platform''\<rparr>, PurposeFeeRevenue, m_currency captured)"
    using a(8) by blast
  have s': "ScheduleFor (t_MerchantID t) (m_currency captured) now d' = Inr s"
    using s a(7) by (simp add: ScheduleFor_def r(1))
  have amounts: "0 < minor payable" "0 < minor fee" using n(6) by (auto simp: well_formed_posting_def)
  have fc: "m_currency fee = m_currency captured" by (rule Calculate_Inr(1) [OF fee])
  have "m_currency payable = m_currency captured \<and> minor payable + minor fee = minor captured"
    using pay fc by (auto simp: err_simps)
  then show "capture_posted entryID now t captured prov d d'"
    unfolding capture_posted_def
    using s' fee fc amounts cpf a(5,6) n(1,2)
    by (intro exI [of _ s] exI [of _ fee] exI [of _ payable] exI [of _ c] exI [of _ p] exI [of _ f]) (simp add: r(1))
qed

section \<open>The capture transaction\<close>

text \<open>The whole effect of a recorded capture on a database: the row, the trail and the entry.\<close>

definition capture_recorded :: "uuid \<Rightarrow> time \<Rightarrow> Transaction \<Rightarrow> Money \<Rightarrow> string \<Rightarrow> db \<Rightarrow> db \<Rightarrow> bool" where
  "capture_recorded entryID now t captured prov d d' \<longleftrightarrow>
     (\<exists>r r'. payment_row (t_ID t) d = Some r \<and> t_Version r = t_Version t \<and> minor (t_Captured r) = minor (t_Captured t)
        \<and> payment_row (t_ID t) d' = Some r' \<and> t_State r' = StateCaptured \<and> t_Version r' = t_Version t + 1
        \<and> minor (t_Captured r') = minor (t_Captured t) + minor captured
        \<and> trail (t_ID t) d' = trail (t_ID t) d @ [(Some (t_State t), StateCaptured)])
     \<and> capture_posted entryID now t captured prov d d'"

lemma capture_step:
  assumes tr: "tracks d t" and tc: "Transaction_Capture now t captured = Inr t1"
    and b: "capture_body svc entryID now (t_State t) captured inp prov t1 d = (t2, Inr d3)" and cc: "commit_check d d3 = Inr ()"
  shows "pay_rel d d3" "tracks d3 t2" "t2 = t1\<lparr>t_Version := t_Version t1 + 1\<rparr>" "capture_recorded entryID now t captured prov d d3"
proof -
  obtain d1 d2 where u: "Update now t1 d = (t2, Inr d1)"
    and rc: "RecordStateChange (svc_inet_ok svc) \<lparr>sc_TransactionID = t_ID t2, sc_From = Some (t_State t), sc_To = t_State t2,
       sc_Reason = ''captured '' @ Money_String captured, sc_Actor = ca_Actor inp, sc_SourceIP = ca_SourceIP inp\<rparr> d1 = Inr d2"
    and pc: "postCapture entryID now t2 captured prov d2 = Inr d3"
    using b by (auto simp: capture_body_def body_seq_Inr)
  show t2: "t2 = t1\<lparr>t_Version := t_Version t1 + 1\<rparr>" by (rule Update_Inr(1) [OF u])
  have t1: "t1 = t\<lparr>t_State := StateCaptured, t_UpdatedAt := now,
      t_Captured := mk_money (m_amount (t_Captured t) + m_amount captured) (m_currency (t_Captured t))\<rparr>"
    and add: "in64 (minor (t_Captured t) + minor captured)"
    using tc by (simp_all add: Transaction_Capture_Inr)
  have ids: "t_ID t1 = t_ID t" "t_Version t1 = t_Version t" "t_MerchantID t1 = t_MerchantID t" "t_ShardKey t1 = t_ShardKey t" "t_Amount t1 = t_Amount t"
    by (simp_all add: t1)
  note s = update_and_record [OF tr u ids(1,2) rc] and pp = postCapture_Inr [OF pc]
  have fr: "db_entries d2 = db_entries d" "db_postings d2 = db_postings d" using s(3,4) t2 ids(1) by simp_all
  have tid: "t_ID t2 = t_ID t" "t_MerchantID t2 = t_MerchantID t" using t2 ids by simp_all
  have row: "payment_row i d3 = payment_row i d2" for i using pp(3) by (simp add: payment_row_def)
  have ext: "ledger_extends d d3" using pp(1) fr by (simp add: ledger_extends_def)
  have "shard_inv d3" if i: "shard_inv d"
  proof -
    have "shard_inv d2" using s(1) i t2 ids(1) by simp
    moreover have "ledger_ok d3" using ledger_ok_commit [OF _ ext cc] i by (simp add: shard_inv_def)
    ultimately show ?thesis using shard_inv_frame [OF _ pp(3,4)] pp(2) by (simp add: shard_inv_def)
  qed
  then show "pay_rel d d3" unfolding pay_rel_def using s(2) row t2 ids(1) by simp
  have "tracks d2 t2" using s(7) t2 ids by simp
  then show "tracks d3 t2" using row by (simp add: tracks_def)
  obtain r where r: "payment_row (t_ID t) d = Some r" "t_Version r = t_Version t" using Update_Inr(3) [OF u] ids by auto
  have "payment_row (t_ID t) d3 = Some (updated_row now t1 r)"
    using row payment_row_Update [OF u, of "t_ID t"] r(1) ids(1) RecordStateChange_Inr(1) [OF rc] by (simp add: payment_row_def)
  moreover have "trail (t_ID t) d3 = trail (t_ID t) d @ [(Some (t_State t), StateCaptured)]"
    using pp(4) RecordStateChange_Inr(1) [OF rc] Update_frame(5) [OF u] t2 t1 by (simp add: trail_def)
  moreover have "capture_posted entryID now t captured prov d d3"
    using pp(5) fr tid by (simp add: capture_posted_def)
  moreover have "minor (t_Captured r) = minor (t_Captured t)" using tr r by (auto simp: tracks_def)
  ultimately show "capture_recorded entryID now t captured prov d d3"
    unfolding capture_recorded_def using r t1 add by (auto simp: updated_row_def)
qed

lemma recordCapture_world:
  assumes "holds svc p t w" "recordCapture svc entryID now t captured inp prov w = (t', r, w')"
  shows "pay_env (w_dbs w) (w_dbs w')" "sched_ok pay_env w'" "w_calls w' = w_calls w"
    "r = Inr () \<Longrightarrow> \<exists>dbs d1. pay_env (w_dbs w) dbs \<and> p < length dbs \<and> w_dbs w' = dbs[p := d1]
       \<and> capture_recorded entryID now t captured prov (dbs ! p) d1 \<and> t_State t' = StateCaptured \<and> minor (t_Captured t') = minor (t_Captured t) + minor captured"
proof -
  have "pay_env (w_dbs w) (w_dbs w') \<and> sched_ok pay_env w' \<and> w_calls w' = w_calls w
    \<and> (r = Inr () \<longrightarrow> (\<exists>dbs d1. pay_env (w_dbs w) dbs \<and> p < length dbs \<and> w_dbs w' = dbs[p := d1]
       \<and> capture_recorded entryID now t captured prov (dbs ! p) d1 \<and> t_State t' = StateCaptured \<and> minor (t_Captured t') = minor (t_Captured t) + minor captured))"
  proof (cases "Transaction_Capture now t captured")
    case (Inl e)
    then show ?thesis using assms pay.R_refl by (auto simp: recordCapture_def holds_def)
  next
    case (Inr t1)
    have key: "t_ShardKey t1 = t_ShardKey t" "t_State t1 = StateCaptured"
      "minor (t_Captured t1) = minor (t_Captured t) + minor captured" using Inr by (auto simp: Transaction_Capture_Inr)
    have x: "tx_at p (capture_body svc entryID now (t_State t) captured inp prov) t1 w = (t', r, w')"
      using assms Inr key by (simp add: recordCapture_def Router_WithTx_def holds_def)
    have st: "\<forall>d s1 d1. tracks d t \<longrightarrow> capture_body svc entryID now (t_State t) captured inp prov t1 d = (s1, Inr d1)
        \<longrightarrow> commit_check d d1 = Inr () \<longrightarrow> pay_rel d d1 \<and> tracks d1 s1"
      using capture_step [OF _ Inr] by blast
    note a = access [OF assms(1) x, where g = "\<lambda>s. s", OF st]
    have "\<exists>dbs d1. pay_env (w_dbs w) dbs \<and> p < length dbs \<and> w_dbs w' = dbs[p := d1]
       \<and> capture_recorded entryID now t captured prov (dbs ! p) d1 \<and> t_State t' = StateCaptured \<and> minor (t_Captured t') = minor (t_Captured t) + minor captured" if r: "r = Inr ()"
    proof -
      obtain dbs d1 where d: "pay_env (w_dbs w) dbs" "p < length dbs" "w_dbs w' = dbs[p := d1]"
        and bd: "capture_body svc entryID now (t_State t) captured inp prov t1 (dbs ! p) = (t', Inr d1)"
        and cc: "commit_check (dbs ! p) d1 = Inr ()" using a(5) [OF r] by blast
      have "pay_rel (w_dbs w ! p) (dbs ! p)" using pay_env_nth [OF d(1,2)] .
      then have "tracks (dbs ! p) t"
        using assms(1) d(2) pay_env_length [OF d(1)] tracks_stable by (auto simp: holds_def)
      note c = capture_step [OF this Inr bd cc]
      then show ?thesis using d key(2,3) by auto
    qed
    then show ?thesis using a(1-3) by blast
  qed
  then show "pay_env (w_dbs w) (w_dbs w')" "sched_ok pay_env w'" "w_calls w' = w_calls w"
    "r = Inr () \<Longrightarrow> \<exists>dbs d1. pay_env (w_dbs w) dbs \<and> p < length dbs \<and> w_dbs w' = dbs[p := d1]
       \<and> capture_recorded entryID now t captured prov (dbs ! p) d1 \<and> t_State t' = StateCaptured \<and> minor (t_Captured t') = minor (t_Captured t) + minor captured" by blast+
qed

lemma handleCaptureError_world:
  assumes h: "holds svc p t w" and "handleCaptureError svc now t ad e w = (out, w')"
  shows "pay_env (w_dbs w) (w_dbs w')" "sched_ok pay_env w'" "w_calls w' = w_calls w" "snd out \<noteq> None"
proof -
  have "pay_env (w_dbs w) (w_dbs w') \<and> sched_ok pay_env w' \<and> w_calls w' = w_calls w \<and> snd out \<noteq> None"
  proof (cases "Class_IsTerminal (ClassOf e) \<or> IsRetryable (ClassOf e)")
    case True
    then obtain target reason where f: "finish (Some e) (transition svc now t target reason (ad_Name ad) w) = (out, w')"
      using assms(2) by (auto simp: handleCaptureError_def Let_def split: if_splits)
    obtain t1 r w1 where x: "transition svc now t target reason (ad_Name ad) w = (t1, r, w1)" by (metis surj_pair)
    show ?thesis
      using transition_world(1-3) [OF h x] f x by (auto simp: finish_def split: sum.splits)
  next
    case False
    then show ?thesis using assms pay.R_refl by (auto simp: handleCaptureError_def Let_def holds_def)
  qed
  then show "pay_env (w_dbs w) (w_dbs w')" "sched_ok pay_env w'" "w_calls w' = w_calls w" "snd out \<noteq> None" by blast+
qed

section \<open>The whole capture\<close>

lemma assertCapturable_Inr:
  assumes "assertCapturable t amount = Inr u"
  shows "m_currency amount = m_currency (t_Amount t)" "0 < minor amount" "CanTransitionTo (t_State t) StateCapturing"
    "minor (t_Captured t) + minor amount \<le> minor (t_Amount t)"
  using assms by (auto simp: assertCapturable_def RemainingCapturable_def IsPositive_def err_simps split: if_splits)

lemma assertCapturable_whole:
  assumes "txn_inv t" "CanTransitionTo (t_State t) StateCapturing" "minor (t_Captured t) = 0"
  shows "assertCapturable t (t_Amount t) = Inr ()"
proof -
  have "Money_Sub (t_Amount t) (t_Captured t) = Inr (mk_money (m_amount (t_Amount t)) (m_currency (t_Amount t)))"
    using assms(1,3) by (simp add: Money_Sub_Inr_iff IsValid_iff txn_inv_def)
  moreover have "Money_Cmp (t_Amount t) (mk_money (m_amount (t_Amount t)) (m_currency (t_Amount t))) = Inr 0"
    using assms(1) by (simp add: Money_Cmp_Inr_iff IsValid_iff txn_inv_def)
  ultimately show ?thesis
    using assms(1,2) by (simp add: assertCapturable_def Currency_Validate_eq RemainingCapturable_def IsPositive_def txn_inv_def)
qed

text \<open>A read of a payment through its merchant's shard leaves the process holding it.\<close>

lemma loaded:
  assumes so: "sched_ok pay_env w" and inv: "list_all shard_inv (w_dbs w)"
    and q: "query_at p (TxStore_Get i) w = (Inr t, w1)" and p: "shardOf svc m = Inr p" and m: "t_MerchantID t = m"
  shows "pay_env (w_dbs w) (w_dbs w1)" "holds svc p t w1" "t_ID t = i" "w_calls w1 = w_calls w"
    "p < length (w_dbs w1)" "payment_row i (w_dbs w1 ! p) = Some t" "w_dbs w1 = seen w"
proof -
  show "w_dbs w1 = seen w" by (rule query_at_seen(1) [OF q])
  note qr = pay.query_at_rel [OF so q]
  show R: "pay_env (w_dbs w) (w_dbs w1)" by (rule qr(1))
  show "w_calls w1 = w_calls w" by (rule query_at_calls [OF q])
  have p1: "p < length (w_dbs w1)" "TxStore_Get i (w_dbs w1 ! p) = Inr t" using qr(3) [OF refl] by auto
  then show "p < length (w_dbs w1)" by simp
  have "shard_inv (w_dbs w1 ! p)"
    using pay_env_nth [OF R p1(1)] pay_env_length [OF R] inv p1(1) by (auto simp: pay_rel_def list_all_length)
  then have row: "payment_row i (w_dbs w1 ! p) = Some t" and key: "t_ShardKey t = KeyForMerchant (t_MerchantID t)"
    using TxStore_Get_Inr(2) [OF p1(2)] payment_row_Some by (fastforce simp: shard_inv_def)+
  show "payment_row i (w_dbs w1 ! p) = Some t" by (rule row)
  show "t_ID t = i" using payment_row_Some [OF row] by simp
  show "holds svc p t w1" using p m key qr(2) tracks_row [OF row] by (simp add: holds_def shardOf_def)
qed

text \<open>What a capture that reached the provider has established before, and what it reports after.\<close>

definition asked_capture :: "Service \<Rightarrow> CaptureInput \<Rightarrow> Transaction \<Rightarrow> ProviderCall" where
  "asked_capture svc inp t =
     CallCapture (OperationKey (svc_uuidString svc) (ca_TransactionID inp) ''capture'') (ca_TransactionID inp)
       (t_PSPReference t) (ca_Amount inp)"

definition captured_amount :: "CaptureInput \<Rightarrow> Response \<Rightarrow> Money" where
  "captured_amount inp resp = (if IsValid (rs_Amount resp) \<and> IsPositive (rs_Amount resp) then rs_Amount resp else ca_Amount inp)"

abbreviation capturing :: "time \<Rightarrow> Transaction \<Rightarrow> Transaction" where
  "capturing now t \<equiv> t\<lparr>t_State := StateCapturing, t_UpdatedAt := now, t_Version := t_Version t + 1\<rparr>"

definition capture_done :: "Service \<Rightarrow> uuid \<Rightarrow> time \<Rightarrow> CaptureInput \<Rightarrow> Adapter \<Rightarrow> Transaction \<Rightarrow> world \<Rightarrow> outcome \<Rightarrow> world \<Rightarrow> bool" where
  "capture_done svc entryID now inp ad t w out w' \<longleftrightarrow>
     (case ad_call ad (w_calls w) (asked_capture svc inp t) of
        Inl e \<Rightarrow> snd out \<noteq> None
      | Inr resp \<Rightarrow> snd out = None \<longrightarrow>
          (\<exists>p dbs d1 t2. shardOf svc (ca_MerchantID inp) = Inr p \<and> pay_env (w_dbs w) dbs \<and> p < length dbs \<and> w_dbs w' = dbs[p := d1]
             \<and> capture_recorded entryID now (capturing now t) (captured_amount inp resp) (ad_Name ad) (dbs ! p) d1
             \<and> fst out = Some t2 \<and> t_State t2 = StateCaptured
             \<and> minor (t_Captured t2) = minor (t_Captured t) + minor (captured_amount inp resp)))"

lemma Capture_world:
  assumes so: "sched_ok pay_env w" and inv: "list_all shard_inv (w_dbs w)"
    and x: "Service_Capture svc entryID now inp w = (out, w')"
  shows "pay_env (w_dbs w) (w_dbs w') \<and> sched_ok pay_env w' \<and>
    (w_calls w' = w_calls w \<and> snd out \<noteq> None \<or>
     (\<exists>ad t p. Registry_Default (svc_providers svc) = Inr ad \<and> shardOf svc (ca_MerchantID inp) = Inr p
        \<and> p < length (seen w) \<and> payment_row (ca_TransactionID inp) (seen w ! p) = Some t
        \<and> t_MerchantID t = ca_MerchantID inp \<and> assertCapturable t (ca_Amount inp) = Inr ()
        \<and> w_calls w' = w_calls w @ [asked_capture svc inp t] \<and> capture_done svc entryID now inp ad t w out w'))"
proof (cases "shardOf svc (ca_MerchantID inp)")
  case (Inl e)
  then show ?thesis using x so pay.R_refl by (auto simp: Service_Capture_def)
next
  case (Inr p)
  obtain rq w1 where q: "query_at p (TxStore_Get (ca_TransactionID inp)) w = (rq, w1)" by (metis surj_pair)
  note qr = pay.query_at_rel [OF so q] and qc = query_at_calls [OF q]
  show ?thesis
  proof (cases "\<exists>t ad. rq = Inr t \<and> t_MerchantID t = ca_MerchantID inp \<and> assertCapturable t (ca_Amount inp) = Inr ()
      \<and> Registry_Default (svc_providers svc) = Inr ad")
    case False
    then show ?thesis using x Inr q qr(1,2) qc by (auto simp: Service_Capture_def split: sum.splits if_splits)
  next
    case True
    then obtain t ad where rq: "rq = Inr t" and m: "t_MerchantID t = ca_MerchantID inp"
      and ac: "assertCapturable t (ca_Amount inp) = Inr ()" and ad: "Registry_Default (svc_providers svc) = Inr ad" by blast
    note l = loaded [OF so inv q [unfolded rq] Inr m]
    obtain t1 r w2 where tr: "transition svc now t StateCapturing ''sending capture to provider'' (ad_Name ad) w1 = (t1, r, w2)"
      by (metis surj_pair)
    note tw = transition_world [OF l(2) tr]
    have R2: "pay_env (w_dbs w) (w_dbs w2)" using pay.R_trans [OF l(1) tw(1)] .
    have c2: "w_calls w2 = w_calls w" using tw(3) l(4) by simp
    show ?thesis
    proof (cases "r = Inr ()")
      case False
      then obtain e where "r = Inl e" by (cases r) auto
      then show ?thesis using x Inr q rq m ac ad tr R2 tw(2) c2 by (auto simp: Service_Capture_def)
    next
      case r: True
      have h2: "holds svc p t1 w2" and t1: "t1 = capturing now t" and ids: "t_ID t1 = ca_TransactionID inp"
        "t_PSPReference t1 = t_PSPReference t"
        using tw(4) [OF r] l(3) by auto
      define c where "c = asked_capture svc inp t"
      define w3 where "w3 = w2\<lparr>w_calls := w_calls w2 @ [c]\<rparr>"
      have h3: "holds svc p t1 w3" and w3: "w_dbs w3 = w_dbs w2" "w_calls w3 = w_calls w @ [c]"
        using h2 c2 by (simp_all add: holds_calls w3_def)
      have run: "(case ad_call ad (w_calls w) c of Inl e \<Rightarrow> handleCaptureError svc now t1 ad e w3
          | Inr resp \<Rightarrow> (case recordCapture svc entryID now t1 (captured_amount inp resp) inp (ad_Name ad) w3 of
               (t2, Inl e, w4) \<Rightarrow> ((Some t2, Some e), w4) | (t2, Inr _, w4) \<Rightarrow> ((Some t2, None), w4))) = (out, w')"
        using x Inr q rq m ac ad tr r ids c2
        by (cases "ad_call ad (w_calls w) c")
          (simp_all add: Service_Capture_def call_provider_def c_def asked_capture_def w3_def captured_amount_def Let_def)
      have "pay_env (w_dbs w3) (w_dbs w') \<and> sched_ok pay_env w' \<and> w_calls w' = w_calls w3 \<and> capture_done svc entryID now inp ad t w out w'"
      proof (cases "ad_call ad (w_calls w) c")
        case a: (Inl e)
        then have "handleCaptureError svc now t1 ad e w3 = (out, w')" using run by simp
        then show ?thesis using handleCaptureError_world [OF h3] a by (simp add: capture_done_def c_def)
      next
        case a: (Inr resp)
        obtain t2 r4 w4 where rc: "recordCapture svc entryID now t1 (captured_amount inp resp) inp (ad_Name ad) w3 = (t2, r4, w4)"
          by (metis surj_pair)
        note rw = recordCapture_world [OF h3 rc]
        have o: "w' = w4" "fst out = Some t2" "snd out = None \<longleftrightarrow> r4 = Inr ()"
          using run a rc by (auto split: sum.splits)
        have "capture_done svc entryID now inp ad t w out w'"
          unfolding capture_done_def a [unfolded c_def] sum.case
        proof (intro impI)
          assume "snd out = None"
          then obtain dbs d1 where "pay_env (w_dbs w3) dbs" "p < length dbs" "w_dbs w' = dbs[p := d1]"
            "capture_recorded entryID now t1 (captured_amount inp resp) (ad_Name ad) (dbs ! p) d1" "t_State t2 = StateCaptured"
            "minor (t_Captured t2) = minor (t_Captured t1) + minor (captured_amount inp resp)"
            using rw(4) o by auto
          moreover have "pay_env (w_dbs w) dbs" using pay.R_trans [OF R2] \<open>pay_env (w_dbs w3) dbs\<close> w3 by simp
          ultimately show "\<exists>p dbs d1 t2. shardOf svc (ca_MerchantID inp) = Inr p \<and> pay_env (w_dbs w) dbs \<and> p < length dbs \<and> w_dbs w' = dbs[p := d1]
             \<and> capture_recorded entryID now (capturing now t) (captured_amount inp resp) (ad_Name ad) (dbs ! p) d1
             \<and> fst out = Some t2 \<and> t_State t2 = StateCaptured
             \<and> minor (t_Captured t2) = minor (t_Captured t) + minor (captured_amount inp resp)"
            using Inr o t1 by (intro exI [of _ p] exI [of _ dbs] exI [of _ d1] exI [of _ t2]) simp
        qed
        then show ?thesis using rw(1-3) o by simp
      qed
      then show ?thesis
        using ad Inr l(1,5,6) [unfolded l(7)] m ac w3 pay.R_trans [OF R2] unfolding c_def by auto
    qed
  qed
qed

section \<open>Creation\<close>

definition created_together :: "uuid \<Rightarrow> string \<Rightarrow> Transaction \<Rightarrow> db \<Rightarrow> db \<Rightarrow> bool" where
  "created_together eventID topic t d d' \<longleftrightarrow>
     payment_row (t_ID t) d = None
     \<and> (\<exists>row. payment_row (t_ID t) d' = Some row \<and> t_State row = StateCreated \<and> t_Amount row = t_Amount t \<and> t_MerchantID row = t_MerchantID t)
     \<and> trail (t_ID t) d' = trail (t_ID t) d @ [(None, StateCreated)]
     \<and> (\<exists>m. db_outbox d' = db_outbox d @ [m] \<and> ob_EventID m = eventID \<and> ob_Topic m = topic \<and> ob_Status m = OutboxPending
          \<and> ob_PartitionKey m = t_MerchantID t \<and> ob_Payload m = AuthorizeRequested (t_ID t) (t_MerchantID t))"

lemma create_step:
  assumes n: "Transaction_New newID now m k amount = Inr t" and ev: "eventID \<noteq> 0"
    and b: "create_body svc eventID now inp t d = (t', Inr d3)"
  shows "t' = t" "pay_rel d d3" "created_together eventID (svc_topicAuthorize svc) t d d3"
proof -
  define c where "c = \<lparr>sc_TransactionID = t_ID t, sc_From = None, sc_To = t_State t, sc_Reason = ''payment created'',
      sc_Actor = ci_Actor inp, sc_SourceIP = ci_SourceIP inp\<rparr>"
  define msg where "msg = \<lparr>msg_EventID = 0, msg_AggregateID = t_ID t, msg_PartitionKey = t_MerchantID t,
        msg_Topic = svc_topicAuthorize svc, msg_Payload = AuthorizeRequested (t_ID t) (t_MerchantID t)\<rparr>"
  have t': "t' = t" and bb: "ebind (Insert now t d) (\<lambda>d1. ebind (RecordStateChange (svc_inet_ok svc) c d1) (\<lambda>d2.
      ebind (Enqueue eventID now msg d2) (\<lambda>(_, d3). Inr d3))) = Inr d3"
    using b by (auto simp: create_body_def c_def msg_def)
  obtain d1 where i: "Insert now t d = Inr d1" using bb by (cases "Insert now t d") simp_all
  obtain d2 where rc: "RecordStateChange (svc_inet_ok svc) c d1 = Inr d2"
    using bb i by (cases "RecordStateChange (svc_inet_ok svc) c d1") simp_all
  obtain e where en: "Enqueue eventID now msg d2 = Inr (e, d3)"
    using bb i rc by (cases "Enqueue eventID now msg d2") auto
  show "t' = t" by (rule t')
  define row where "row = t\<lparr>t_Captured := mk_money (m_amount (t_Captured t)) (m_currency (t_Amount t)),
      t_Refunded := mk_money (m_amount (t_Refunded t)) (m_currency (t_Amount t)), t_PSP := [], t_PSPReference := [],
      t_LastAppliedEventSeq := 0, t_CreatedAt := now, t_UpdatedAt := now\<rparr>"
  have row: "d1 = d\<lparr>db_payments := db_payments d @ [row]\<rparr>" "t_ID row = t_ID t" "t_State row = t_State t"
    "t_MerchantID row = t_MerchantID t" and rk: "t_ShardKey row = t_ShardKey t" "t_Amount row = t_Amount t"
    using i unfolding Insert_def Let_def row_def [symmetric] by (simp_all add: row_def split: if_splits)
  have t: "t_State t = StateCreated" "t_ShardKey t = KeyForMerchant (t_MerchantID t)" "t_Version t = 1"
    using n by (auto simp: Transaction_New_def err_simps split: if_splits)
  note d2 = RecordStateChange_Inr(1) [OF rc]
  obtain mrow where mrow: "db_outbox d3 = db_outbox d2 @ [mrow]" "ob_EventID mrow = eventID" "ob_Topic mrow = svc_topicAuthorize svc"
    "ob_Status mrow = OutboxPending" "ob_PartitionKey mrow = t_MerchantID t" "ob_Payload mrow = AuthorizeRequested (t_ID t) (t_MerchantID t)"
    and fr: "db_payments d3 = db_payments d2" "db_changes d3 = db_changes d2" "db_entries d3 = db_entries d2"
      "db_postings d3 = db_postings d2" "db_accounts d3 = db_accounts d2" "db_nextid d2 \<le> db_nextid d3"
    using en ev by (auto simp: Enqueue_def msg_def Let_def split: if_splits)
  have none: "payment_row (t_ID t) d = None" by (rule Insert_Inr(2) [OF i])
  have rows: "payment_row j d3 = (if j = t_ID t then Some row else payment_row j d)" for j
    using row(2) none fr(1) by (auto simp: payment_row_def d2 row(1) tfind_append split: option.splits)
  have "shard_inv d3" if inv: "shard_inv d"
  proof -
    have "payments_ok d1" "trail_ok d2"
      using inv Insert_payments_ok [OF _ i] trail_ok_insert [OF _ i rc] t(1) by (simp_all add: shard_inv_def c_def)
    moreover have "accounts_ok d3" "ledger_ok d3"
      using inv fr by (auto simp: shard_inv_def accounts_ok_def ledger_ok_def ledger_total_def d2 row(1))
    ultimately show ?thesis
      using inv fr t(2) row rk by (auto simp: shard_inv_def payments_ok_def trail_ok_def trail_def payment_row_def d2)
  qed
  then show "pay_rel d d3" using rows none by (auto simp: pay_rel_def)
  show "created_together eventID (svc_topicAuthorize svc) t d d3"
    unfolding created_together_def
    using none rows row t(1) rk mrow fr(2) by (auto simp: trail_def d2 c_def)
qed

lemma Create_world:
  assumes so: "sched_ok pay_env w" and x: "Service_Create svc newID eventID now inp w = (r, w')" and ev: "eventID \<noteq> 0"
  shows "pay_env (w_dbs w) (w_dbs w')" "sched_ok pay_env w'" "w_calls w' = w_calls w"
    "r = Inr t \<Longrightarrow> \<exists>p dbs d1. shardOf svc (ci_MerchantID inp) = Inr p \<and> pay_env (w_dbs w) dbs \<and> p < length dbs \<and> w_dbs w' = dbs[p := d1]
       \<and> created_together eventID (svc_topicAuthorize svc) t (dbs ! p) d1
       \<and> t_ID t = newID \<and> t_MerchantID t = ci_MerchantID inp \<and> t_Amount t = ci_Amount inp"
proof -
  have "pay_env (w_dbs w) (w_dbs w') \<and> sched_ok pay_env w' \<and> w_calls w' = w_calls w \<and> (\<forall>t. r = Inr t \<longrightarrow>
       (\<exists>p dbs d1. shardOf svc (ci_MerchantID inp) = Inr p \<and> pay_env (w_dbs w) dbs \<and> p < length dbs \<and> w_dbs w' = dbs[p := d1]
       \<and> created_together eventID (svc_topicAuthorize svc) t (dbs ! p) d1
       \<and> t_ID t = newID \<and> t_MerchantID t = ci_MerchantID inp \<and> t_Amount t = ci_Amount inp))"
  proof (cases "\<exists>t0 p. Transaction_New newID now (ci_MerchantID inp) (ci_IdempotencyKey inp) (ci_Amount inp) = Inr t0
      \<and> shardOf svc (ci_MerchantID inp) = Inr p")
    case False
    moreover have "t_ShardKey t0 = KeyForMerchant (ci_MerchantID inp)"
      if "Transaction_New newID now (ci_MerchantID inp) (ci_IdempotencyKey inp) (ci_Amount inp) = Inr t0" for t0
      using that by (auto simp: Transaction_New_def err_simps split: if_splits)
    ultimately show ?thesis using x so pay.R_refl
      by (auto simp: Service_Create_def Router_WithTx_def shardOf_def split: sum.splits)
  next
    case True
    then obtain t0 p where n: "Transaction_New newID now (ci_MerchantID inp) (ci_IdempotencyKey inp) (ci_Amount inp) = Inr t0"
      and p: "shardOf svc (ci_MerchantID inp) = Inr p" by blast
    have t0: "t_ShardKey t0 = KeyForMerchant (ci_MerchantID inp)" "t_ID t0 = newID" "t_MerchantID t0 = ci_MerchantID inp" "t_Amount t0 = ci_Amount inp"
      using n by (auto simp: Transaction_New_def err_simps split: if_splits)
    obtain t1 r1 w1 where tx: "tx_at p (create_body svc eventID now inp) t0 w = (t1, r1, w1)" by (metis surj_pair)
    have st: "\<forall>dbs s1 d1. pay_env (w_dbs w) dbs \<longrightarrow> p < length dbs \<longrightarrow> create_body svc eventID now inp t0 (dbs ! p) = (s1, Inr d1)
      \<longrightarrow> commit_check (dbs ! p) d1 = Inr () \<longrightarrow> pay_env dbs (dbs[p := d1])"
      using create_step(2) [OF n ev] pay_env_update by blast
    note a = pay.tx_at_rel [OF so tx st]
    have o: "w' = w1" "\<And>t. r = Inr t \<Longrightarrow> r1 = Inr () \<and> t = t1"
      using x n p t0 tx by (auto simp: Service_Create_def Router_WithTx_def shardOf_def split: sum.splits)
    have "\<exists>p dbs d1. shardOf svc (ci_MerchantID inp) = Inr p \<and> pay_env (w_dbs w) dbs \<and> p < length dbs \<and> w_dbs w' = dbs[p := d1]
       \<and> created_together eventID (svc_topicAuthorize svc) t (dbs ! p) d1
       \<and> t_ID t = newID \<and> t_MerchantID t = ci_MerchantID inp \<and> t_Amount t = ci_Amount inp" if r: "r = Inr t" for t
    proof -
      obtain dbs d1 where d: "pay_env (w_dbs w) dbs" "p < length dbs" "create_body svc eventID now inp t0 (dbs ! p) = (t1, Inr d1)"
        "w_dbs w1 = dbs[p := d1]" using a(3) o(2) [OF r] by blast
      then show ?thesis using create_step(1,3) [OF n ev d(3)] o(1) o(2) [OF r] p t0 by auto
    qed
    then show ?thesis using a(1,2) tx_at_calls [OF tx] o(1) by simp
  qed
  then show "pay_env (w_dbs w) (w_dbs w')" "sched_ok pay_env w'" "w_calls w' = w_calls w"
    "r = Inr t \<Longrightarrow> \<exists>p dbs d1. shardOf svc (ci_MerchantID inp) = Inr p \<and> pay_env (w_dbs w) dbs \<and> p < length dbs \<and> w_dbs w' = dbs[p := d1]
       \<and> created_together eventID (svc_topicAuthorize svc) t (dbs ! p) d1
       \<and> t_ID t = newID \<and> t_MerchantID t = ci_MerchantID inp \<and> t_Amount t = ci_Amount inp" by blast+
qed

section \<open>A concrete authorized payment\<close>

definition demo_auth_db :: "currency \<Rightarrow> db" where
  "demo_auth_db cur = empty_db\<lparr>db_payments := [demo_payment\<lparr>t_State := StateAuthorized, t_Version := 3, t_PSP := ''sim'', t_PSPReference := ''ch_1'',
       t_Amount := mk_money 1000 cur, t_Captured := mk_money 0 cur, t_Refunded := mk_money 0 cur\<rparr>],
     db_changes := map (\<lambda>(f, t). \<lparr>sc_TransactionID = 7, sc_From = f, sc_To = t, sc_Reason = [], sc_Actor = ''api:m1'', sc_SourceIP = []\<rparr>)
        [(None, StateCreated), (Some StateCreated, StateAuthorizing), (Some StateAuthorizing, StateAuthorized)],
     db_fees := [\<lparr>s_MerchantID = ''*'', s_Currency = ''USD'', s_BasisPoints = 290, s_FixedMinor = 30, s_EffectiveFrom = 0, s_EffectiveTo = None\<rparr>,
       \<lparr>s_MerchantID = ''*'', s_Currency = ''JPY'', s_BasisPoints = 360, s_FixedMinor = 0, s_EffectiveFrom = 0, s_EffectiveTo = None\<rparr>],
     db_nextid := 100\<rparr>"

definition demo_captures :: "ProviderCall list \<Rightarrow> ProviderCall \<Rightarrow> Response result" where
  "demo_captures h c = (case c of CallCapture k i ref amt \<Rightarrow>
       Inr \<lparr>rs_Status = StatusCaptured, rs_ProviderReference = ref, rs_Amount = amt\<rparr>
     | _ \<Rightarrow> Inl (PspError ClassTimeout ''sim'' []))"

definition demo_capture :: "Money \<Rightarrow> CaptureInput" where
  "demo_capture amt = \<lparr>ca_TransactionID = 7, ca_MerchantID = ''m1'', ca_Amount = amt, ca_Actor = ''api:m1'', ca_SourceIP = []\<rparr>"

abbreviation demo_run :: "int64 \<Rightarrow> currency \<Rightarrow> outcome \<times> world" where
  "demo_run amt cur \<equiv> Service_Capture (demo_svc demo_captures) 55 5 (demo_capture (mk_money amt cur)) (demo_world (demo_auth_db cur))"

lemma demo_auth_inv: "valid_currency cur \<Longrightarrow> shard_inv (demo_auth_db cur)"
proof -
  assume v: "valid_currency cur"
  have "trail_ok (demo_auth_db cur)" unfolding trail_ok_def
  proof
    fix i show "trail_path None (trail i (demo_auth_db cur)) (map_option t_State (payment_row i (demo_auth_db cur)))"
      by (simp add: trail_def demo_auth_db_def payment_row_def demo_payment_def CanTransitionTo_def)
  qed
  moreover have "payments_ok (demo_auth_db cur)"
    using v by (simp add: payments_ok_def demo_auth_db_def demo_payment_def txn_inv_def known_state_def allStates_def)
  moreover have "ledger_ok (demo_auth_db cur)" "accounts_ok (demo_auth_db cur)"
    by (simp_all add: demo_auth_db_def empty_db_def ledger_ok_def ledger_total_def accounts_ok_def)
  ultimately show ?thesis by (simp add: shard_inv_def) (simp add: demo_auth_db_def demo_payment_def)
qed

lemma demo_auth_ok: "sched_ok pay_env (demo_world (demo_auth_db ''USD''))" "list_all shard_inv (w_dbs (demo_world (demo_auth_db ''USD'')))"
  using demo_auth_inv [OF usd] by (simp_all add: demo_world_def sched_ok_def)

lemma demo_capture_ok: "snd (fst (demo_run 1000 ''USD'')) = None" "length (w_calls (snd (demo_run 1000 ''USD''))) = 1"
  by code_simp+

section \<open>Claims on creation and capture\<close>

text \<open>C9: a capture is validated before the provider hears of it. Either the provider is not called
  and the caller gets an error, or it is called exactly once, for the requested amount, under the
  key of this payment, and the stored payment read before belonged to the caller, allowed a
  capture, and had at least that much of the authorization left in the same currency. The row meant
  is the one in the merchant's database at the moment the run first reads it.\<close>

theorem Capture_validates_first:
  assumes "sched_ok pay_env w" "list_all shard_inv (w_dbs w)" "Service_Capture svc entryID now inp w = (out, w')"
  shows "w_calls w' = w_calls w \<and> snd out \<noteq> None \<or>
    (\<exists>t p. shardOf svc (ca_MerchantID inp) = Inr p \<and> payment_row (ca_TransactionID inp) (seen w ! p) = Some t
       \<and> t_MerchantID t = ca_MerchantID inp \<and> CanTransitionTo (t_State t) StateCapturing
       \<and> m_currency (ca_Amount inp) = m_currency (t_Amount t) \<and> 0 < minor (ca_Amount inp)
       \<and> minor (t_Captured t) + minor (ca_Amount inp) \<le> minor (t_Amount t)
       \<and> w_calls w' = w_calls w @ [CallCapture (OperationKey (svc_uuidString svc) (ca_TransactionID inp) ''capture'')
            (ca_TransactionID inp) (t_PSPReference t) (ca_Amount inp)])"
  using Capture_world [OF assms] assertCapturable_Inr unfolding asked_capture_def by blast

theorem Capture_validates_first_witness:
  "\<exists>ref. w_calls (snd (demo_run 1000 ''USD'')) = [CallCapture (OperationKey show_nat 7 ''capture'') 7 ref (mk_money 1000 ''USD'')]"
proof -
  obtain out w' where r: "demo_run 1000 ''USD'' = (out, w')" by (cases "demo_run 1000 ''USD''")
  have "snd out = None" using demo_capture_ok(1) r by simp
  then show ?thesis
    using Capture_validates_first [OF demo_auth_ok r] r by (auto simp: demo_world_def demo_capture_def demo_svc_def)
qed

text \<open>C5: a capture reported as done is booked. The payment that was read at the start of the run is
  stored as captured at its end, two versions on, with exactly the amount the provider confirmed added
  to what it had captured before, and so is the payment that is returned. The last database
  transaction made that change, appended the audit row from capturing to captured, and posted one
  entry that debits the provider's clearing account by the confirmed amount and credits the merchant's
  payable and the platform's fee with a positive split of it, the fee being that of the schedule in force.\<close>

theorem Capture_success_is_booked:
  assumes "sched_ok pay_env w" "list_all shard_inv (w_dbs w)" "Service_Capture svc entryID now inp w = ((ot, None), w')"
  shows "\<exists>ad t resp p r t2. Registry_Default (svc_providers svc) = Inr ad \<and> shardOf svc (ca_MerchantID inp) = Inr p
    \<and> payment_row (ca_TransactionID inp) (seen w ! p) = Some t \<and> t_MerchantID t = ca_MerchantID inp
    \<and> w_calls w' = w_calls w @ [asked_capture svc inp t]
    \<and> ad_call ad (w_calls w) (asked_capture svc inp t) = Inr resp
    \<and> payment_row (ca_TransactionID inp) (w_dbs w' ! p) = Some r
    \<and> t_State r = StateCaptured \<and> t_Version r = t_Version t + 2
    \<and> minor (t_Captured r) = minor (t_Captured t) + minor (captured_amount inp resp)
    \<and> ot = Some t2 \<and> t_State t2 = StateCaptured \<and> minor (t_Captured t2) = minor (t_Captured r)
    \<and> (\<exists>dbs. pay_env (w_dbs w) dbs \<and> p < length dbs \<and> w_dbs w' = dbs[p := w_dbs w' ! p]
        \<and> capture_recorded entryID now (capturing now t) (captured_amount inp resp) (ad_Name ad) (dbs ! p) (w_dbs w' ! p))"
proof -
  obtain ad t p where a: "Registry_Default (svc_providers svc) = Inr ad" "shardOf svc (ca_MerchantID inp) = Inr p"
    "payment_row (ca_TransactionID inp) (seen w ! p) = Some t" "t_MerchantID t = ca_MerchantID inp"
    "w_calls w' = w_calls w @ [asked_capture svc inp t]" and cd: "capture_done svc entryID now inp ad t w (ot, None) w'"
    using Capture_world [OF assms] by auto
  obtain resp where r: "ad_call ad (w_calls w) (asked_capture svc inp t) = Inr resp"
    using cd by (cases "ad_call ad (w_calls w) (asked_capture svc inp t)") (auto simp: capture_done_def)
  obtain dbs d1 t2 where b: "pay_env (w_dbs w) dbs" "p < length dbs" "w_dbs w' = dbs[p := d1]"
    "capture_recorded entryID now (capturing now t) (captured_amount inp resp) (ad_Name ad) (dbs ! p) d1"
    "ot = Some t2" "t_State t2 = StateCaptured" "minor (t_Captured t2) = minor (t_Captured t) + minor (captured_amount inp resp)"
    using cd a(2) unfolding capture_done_def by (auto simp: r)
  have d1: "w_dbs w' ! p = d1" using b(2,3) by simp
  have "t_ID t = ca_TransactionID inp" using payment_row_Some [OF a(3)] by simp
  then obtain row where "payment_row (ca_TransactionID inp) d1 = Some row" "t_State row = StateCaptured" "t_Version row = t_Version t + 2"
    "minor (t_Captured row) = minor (t_Captured t) + minor (captured_amount inp resp)"
    using b(4) by (auto simp: capture_recorded_def)
  then show ?thesis using a r b unfolding d1
    by (intro exI [of _ ad] exI [of _ t] exI [of _ resp] exI [of _ p] exI [of _ row] exI [of _ t2]) auto
qed

theorem Capture_success_is_booked_witness:
  "\<exists>t2 d1 entry. fst (demo_run 1000 ''USD'') = (Some t2, None) \<and> t_State t2 = StateCaptured \<and> w_dbs (snd (demo_run 1000 ''USD'')) = [d1]
     \<and> db_entries d1 = [entry] \<and> length (db_postings d1) = 3"
proof -
  obtain ot w' where r: "demo_run 1000 ''USD'' = ((ot, None), w')"
    using demo_capture_ok(1) by (cases "demo_run 1000 ''USD''") (metis fst_conv prod.collapse)
  obtain t2 where "ot = Some t2" "t_State t2 = StateCaptured"
    using Capture_success_is_booked [OF demo_auth_ok r] by blast
  moreover have "(case w_dbs (snd (demo_run 1000 ''USD'')) of [d] \<Rightarrow>
      (case db_entries d of [e] \<Rightarrow> length (db_postings d) = 3 | _ \<Rightarrow> False) | _ \<Rightarrow> False)"
    by code_simp
  ultimately show ?thesis using r by (auto split: list.splits)
qed

text \<open>C12: a capture keeps every database's invariant under every fault and interleaving: constraints,
  audit trails that are paths of the state machine, unique accounts, and a balanced ledger.\<close>

theorem Capture_keeps_invariants:
  assumes "sched_ok pay_env w" "list_all shard_inv (w_dbs w)" "Service_Capture svc entryID now inp w = (out, w')"
  shows "pay_env (w_dbs w) (w_dbs w') \<and> list_all shard_inv (w_dbs w')"
  using Capture_world [OF assms] shard_invs_env assms(2) by blast

theorem Capture_keeps_invariants_witness:
  "list_all shard_inv (w_dbs (snd (demo_run 1000 ''USD'')))"
proof -
  obtain out w' where r: "demo_run 1000 ''USD'' = (out, w')" by (cases "demo_run 1000 ''USD''")
  then show ?thesis using Capture_keeps_invariants [OF demo_auth_ok r] by simp
qed

text \<open>A created payment, its first audit row and the message that asks for its authorization are
  written together on the merchant's shard, whatever else happens, and no invariant is broken.\<close>

theorem Create_writes_together:
  assumes "sched_ok pay_env w" "list_all shard_inv (w_dbs w)" "eventID \<noteq> 0"
    and "Service_Create svc newID eventID now inp w = (r, w')"
  shows "pay_env (w_dbs w) (w_dbs w') \<and> list_all shard_inv (w_dbs w') \<and>
    (\<forall>t. r = Inr t \<longrightarrow> (\<exists>p dbs d1. shardOf svc (ci_MerchantID inp) = Inr p \<and> pay_env (w_dbs w) dbs \<and> p < length dbs
       \<and> w_dbs w' = dbs[p := d1] \<and> created_together eventID (svc_topicAuthorize svc) t (dbs ! p) d1
       \<and> t_ID t = newID \<and> t_MerchantID t = ci_MerchantID inp \<and> t_Amount t = ci_Amount inp))"
  using Create_world [OF assms(1,4,3)] shard_invs_env assms(2) by blast

theorem Create_writes_together_witness:
  "\<exists>t w' p dbs d1. Service_Create (demo_svc demo_timeout) 8 9 5 \<lparr>ci_MerchantID = ''m1'', ci_IdempotencyKey = ''k2'',
       ci_Amount = mk_money 500 ''USD'', ci_Actor = ''api:m1'', ci_SourceIP = []\<rparr> (demo_world demo_db) = (Inr t, w')
     \<and> t_ID t = 8 \<and> w_dbs w' = dbs[p := d1] \<and> p < length dbs
     \<and> created_together 9 (svc_topicAuthorize (demo_svc demo_timeout)) t (dbs ! p) d1 \<and> list_all shard_inv (w_dbs w')"
proof -
  let ?inp = "\<lparr>ci_MerchantID = ''m1'', ci_IdempotencyKey = ''k2'', ci_Amount = mk_money 500 ''USD'', ci_Actor = ''api:m1'', ci_SourceIP = []\<rparr>"
  let ?run = "Service_Create (demo_svc demo_timeout) 8 9 5 ?inp (demo_world demo_db)"
  have "is_ok (fst ?run)" by code_simp
  then obtain t w' where r: "?run = (Inr t, w')" by (cases ?run) (auto simp: is_ok_iff)
  have "(9::nat) \<noteq> 0" by simp
  note c = Create_writes_together [OF demo_world_ok this r]
  then obtain p dbs d1 where "w_dbs w' = dbs[p := d1]" "p < length dbs" "t_ID t = 8"
    "created_together 9 (svc_topicAuthorize (demo_svc demo_timeout)) t (dbs ! p) d1" by auto
  then show ?thesis using r c by blast
qed

section \<open>A capture without faults or interference\<close>

text \<open>The part of a run up to the booking succeeds whenever its checks do: the payment is stored as
  capturing and the provider has been asked. What remains is the booking transaction.\<close>

lemma transition_quiet:
  assumes q: "w_sched w = []" "p < length (w_dbs w)" and sh: "Shard (svc_mapping svc) (t_ShardKey t) = Inr p"
    and inv: "shard_inv (w_dbs w ! p)" and row: "payment_row (t_ID t) (w_dbs w ! p) = Some t"
    and can: "CanTransitionTo (t_State t) target" "known_state target"
  shows "\<exists>d2. transition svc now t target reason actor w
        = (t\<lparr>t_State := target, t_UpdatedAt := now, t_Version := t_Version t + 1\<rparr>, Inr (), w\<lparr>w_dbs := (w_dbs w)[p := d2]\<rparr>)
    \<and> payment_row (t_ID t) d2 = Some (t\<lparr>t_State := target, t_UpdatedAt := now, t_Version := t_Version t + 1\<rparr>)
    \<and> db_fees d2 = db_fees (w_dbs w ! p) \<and> db_postings d2 = db_postings (w_dbs w ! p)"
proof -
  define t1 where "t1 = t\<lparr>t_State := target, t_UpdatedAt := now\<rparr>"
  let ?d = "w_dbs w ! p" and ?t2 = "t\<lparr>t_State := target, t_UpdatedAt := now, t_Version := t_Version t + 1\<rparr>"
  have "t \<in> set (db_payments ?d)" using payment_row_Some [OF row] by simp
  then have ti: "txn_inv t" "known_state (t_State t)" using inv by (auto simp: shard_inv_def payments_ok_def)
  have t1: "TransitionTo now t target = Inr t1" using can known_state_iff by (simp add: TransitionTo_Inr t1_def)
  have upd: "updated_row now t1 t = ?t2" using ti(1) by (simp add: updated_row_def t1_def txn_inv_def)
  have checks: "payment_checks ?t2" using ti can(2) by (simp add: payment_checks_def txn_inv_def)
  have acc: "is_ok (assert_valid_transaction_transition (t_State t) (t_State t1))"
    using db_accepts_iff can(1) t1_def by simp
  define d1 where "d1 = ?d\<lparr>db_payments := tupdate (\<lambda>x. t_ID x = t_ID t1) (updated_row now t1) (db_payments ?d)\<rparr>"
  have u: "Update now t1 ?d = (?t2, Inr d1)"
    using row acc checks upd unfolding Update_def d1_def by (simp add: t1_def)
  have r1: "payment_row (t_ID t) d1 = Some ?t2" using payment_row_Update [OF u, of "t_ID t"] row upd by (simp add: t1_def)
  define d2 where "d2 = d1\<lparr>db_changes := db_changes d1 @ [\<lparr>sc_TransactionID = t_ID ?t2, sc_From = Some (t_State t), sc_To = target,
      sc_Reason = reason, sc_Actor = ''psp:'' @ actor, sc_SourceIP = []\<rparr>]\<rparr>"
  have b: "transition_body svc now (t_State t) target reason actor t1 ?d = (?t2, Inr d2)"
    using r1 ti(2) can(2) by (simp add: transition_body_def body_seq_def u RecordStateChange_def d2_def)
  have "db_entries d2 = db_entries ?d" by (simp add: d2_def d1_def)
  from tx_at_quiet [where body = "transition_body svc now (t_State t) target reason actor", OF q b this]
  have "transition svc now t target reason actor w = (?t2, Inr (), w\<lparr>w_dbs := (w_dbs w)[p := d2]\<rparr>)"
    using sh t1 by (simp add: transition_def Let_def Router_WithTx_def t1_def)
  moreover have "payment_row (t_ID t) d2 = Some ?t2" using r1 by (simp add: d2_def payment_row_def)
  ultimately show ?thesis by (intro exI [of _ d2]) (simp add: d2_def d1_def)
qed

lemma Capture_up_to_booking:
  assumes q: "w_sched w = []" "list_all shard_inv (w_dbs w)" and sh: "shardOf svc (ca_MerchantID inp) = Inr p" "p < length (w_dbs w)"
    and row: "payment_row (ca_TransactionID inp) (w_dbs w ! p) = Some t" "t_MerchantID t = ca_MerchantID inp"
    and ok: "assertCapturable t (ca_Amount inp) = Inr ()" "Registry_Default (svc_providers svc) = Inr ad"
      "ad_call ad (w_calls w) (asked_capture svc inp t) = Inr resp"
  obtains d2 w3 where "payment_row (ca_TransactionID inp) d2 = Some (capturing now t)"
    "db_fees d2 = db_fees (w_dbs w ! p)" "db_postings d2 = db_postings (w_dbs w ! p)"
    "w3 = w\<lparr>w_dbs := (w_dbs w)[p := d2], w_calls := w_calls w @ [asked_capture svc inp t]\<rparr>"
    "Service_Capture svc entryID now inp w =
       (case recordCapture svc entryID now (capturing now t) (captured_amount inp resp) inp (ad_Name ad) w3 of
          (t2, Inl e, w4) \<Rightarrow> ((Some t2, Some e), w4) | (t2, Inr _, w4) \<Rightarrow> ((Some t2, None), w4))"
proof -
  have so: "sched_ok pay_env w" using q(1) by (simp add: sched_ok_def)
  have inv: "shard_inv (w_dbs w ! p)" using q(2) sh(2) by (simp add: list_all_length)
  have tid: "t_ID t = ca_TransactionID inp" "t \<in> set (db_payments (w_dbs w ! p))" using payment_row_Some [OF row(1)] by simp_all
  have ti: "txn_inv t" "t_ShardKey t = KeyForMerchant (t_MerchantID t)" using inv tid(2) by (auto simp: shard_inv_def payments_ok_def)
  have "TxStore_Get (ca_TransactionID inp) (w_dbs w ! p) = Inr t"
    using TxStore_Get_row [OF _ row(1)] inv by (simp add: shard_inv_def)
  then have get: "query_at p (TxStore_Get (ca_TransactionID inp)) w = (Inr t, w)"
    using q(1) sh(2) by (simp add: query_at_def turn_def)
  have "Shard (svc_mapping svc) (t_ShardKey t) = Inr p" using sh(1) row(2) ti(2) by (simp add: shardOf_def)
  moreover have "known_state StateCapturing" by (simp add: known_state_iff)
  ultimately obtain d2 where d2: "transition svc now t StateCapturing ''sending capture to provider'' (ad_Name ad) w
      = (capturing now t, Inr (), w\<lparr>w_dbs := (w_dbs w)[p := d2]\<rparr>)"
    "payment_row (ca_TransactionID inp) d2 = Some (capturing now t)"
    "db_fees d2 = db_fees (w_dbs w ! p)" "db_postings d2 = db_postings (w_dbs w ! p)"
    using transition_quiet [OF q(1) sh(2) _ inv _ assertCapturable_Inr(3) [OF ok(1)]] row(1) tid(1) by metis
  define w3 where "w3 = w\<lparr>w_dbs := (w_dbs w)[p := d2], w_calls := w_calls w @ [asked_capture svc inp t]\<rparr>"
  have "Service_Capture svc entryID now inp w =
       (case recordCapture svc entryID now (capturing now t) (captured_amount inp resp) inp (ad_Name ad) w3 of
          (t2, Inl e, w4) \<Rightarrow> ((Some t2, Some e), w4) | (t2, Inr _, w4) \<Rightarrow> ((Some t2, None), w4))"
    using sh(1) row(2) ok tid(1) get d2(1)
    by (simp add: Service_Capture_def Let_def call_provider_def asked_capture_def captured_amount_def w3_def)
  then show ?thesis using that [OF d2(2-4) w3_def] by blast
qed

text \<open>A refused booking leaves no trace in the database.\<close>

lemma recordCapture_refused:
  assumes "w_sched w = []" "\<And>t1 d. Transaction_Capture now t captured = Inr t1 \<Longrightarrow> d = w_dbs w ! p \<Longrightarrow>
      \<exists>t2 e. capture_body svc entryID now (t_State t) captured inp prov t1 d = (t2, Inl e)"
    and "Shard (svc_mapping svc) (t_ShardKey t) = Inr p" "p < length (w_dbs w)"
  shows "\<exists>t2 e. recordCapture svc entryID now t captured inp prov w = (t2, Inl e, w)"
proof (cases "Transaction_Capture now t captured")
  case (Inl e)
  then show ?thesis by (simp add: recordCapture_def)
next
  case (Inr t1)
  obtain t2 e where b: "capture_body svc entryID now (t_State t) captured inp prov t1 (w_dbs w ! p) = (t2, Inl e)"
    using assms(2) [OF Inr refl] by blast
  have "t_ShardKey t1 = t_ShardKey t" using Inr by (auto simp: Transaction_Capture_Inr)
  then show ?thesis
    using Inr b assms(1,3,4) by (simp add: recordCapture_def Let_def Router_WithTx_def tx_at_def turn_def DB_WithTx_def)
qed

lemma zero_leg_refused:
  assumes "ScheduleFor (t_MerchantID t) (m_currency captured) now d = Inr s" "Calculate s captured = Inr fee" "minor fee = 0"
  shows "\<exists>e. postCapture entryID now t captured prov d = Inl e"
proof (rule ccontr)
  assume "\<not> ?thesis"
  then obtain d' where p: "postCapture entryID now t captured prov d = Inr d'"
    by (cases "postCapture entryID now t captured prov d") auto
  obtain s' fee' payable acc d1 x where f: "ScheduleFor (t_MerchantID t) (m_currency captured) now d = Inr s'" "Calculate s' captured = Inr fee'"
    and "Money_Sub captured fee' = Inr payable" "ensureCaptureAccounts t (m_currency captured) prov d = Inr (acc, d1)"
    and n: "NewEntry entryID now (Some (t_ID t)) (t_ShardKey t) (''capture of '' @ Money_String captured @ '' via '' @ prov) now
         [mk_posting (acc_clearing acc) Debit captured, mk_posting (acc_payable acc) Credit payable,
          mk_posting (acc_feeRevenue acc) Credit fee'] = Inr x"
    using p by (auto simp: postCapture_def err_simps)
  have "fee' = fee" using f assms(1,2) by simp
  then show False using NewEntry_Inr(6) [OF n] assms(3) by (simp add: well_formed_posting_def)
qed

lemma zero_leg_body:
  assumes "ScheduleFor (t_MerchantID t) (m_currency captured) now d = Inr s" "Calculate s captured = Inr fee" "minor fee = 0"
  shows "\<exists>t2 e. capture_body svc entryID now from captured inp prov t d = (t2, Inl e)"
proof (rule ccontr)
  assume "\<not> ?thesis"
  then obtain t2 d3 where b: "capture_body svc entryID now from captured inp prov t d = (t2, Inr d3)"
    by (cases "capture_body svc entryID now from captured inp prov t d") (metis sum.exhaust)
  then obtain d1 d2 c where u: "Update now t d = (t2, Inr d1)" and rc: "RecordStateChange (svc_inet_ok svc) c d1 = Inr d2"
    and pc: "postCapture entryID now t2 captured prov d2 = Inr d3"
    by (auto simp: capture_body_def body_seq_Inr)
  have "db_fees d2 = db_fees d" using RecordStateChange_Inr(1) [OF rc] Update_Inr(2) [OF u] by simp
  moreover have "t_MerchantID t2 = t_MerchantID t" using Update_Inr(1) [OF u] by simp
  ultimately have "ScheduleFor (t_MerchantID t2) (m_currency captured) now d2 = Inr s" using assms(1) by (simp add: ScheduleFor_def)
  from zero_leg_refused [OF this assms(2,3), of entryID prov] pc show False by simp
qed

text \<open>C37: a capture whose fee rounds to zero is never booked, although the provider has been told to
  capture. Take any payment that passes every check of a capture, a provider that confirms it, and a
  schedule in force whose fee on the confirmed amount is zero. Even with no fault and no interference the
  run asks the provider, then fails in the booking, where a zero leg is not a posting: the caller gets
  an error, the stored payment is left capturing with nothing added, and nothing is posted.\<close>

theorem zero_fee_capture_never_books:
  assumes "w_sched w = []" "list_all shard_inv (w_dbs w)" "shardOf svc (ca_MerchantID inp) = Inr p" "p < length (w_dbs w)"
    and "payment_row (ca_TransactionID inp) (w_dbs w ! p) = Some t" "t_MerchantID t = ca_MerchantID inp"
    and "assertCapturable t (ca_Amount inp) = Inr ()" "Registry_Default (svc_providers svc) = Inr ad"
      "ad_call ad (w_calls w) (asked_capture svc inp t) = Inr resp"
    and "ScheduleFor (ca_MerchantID inp) (m_currency (captured_amount inp resp)) now (w_dbs w ! p) = Inr s"
      "Calculate s (captured_amount inp resp) = Inr fee" "minor fee = 0"
  shows "case Service_Capture svc entryID now inp w of ((_, err), w') \<Rightarrow> err \<noteq> None
    \<and> w_calls w' = w_calls w @ [asked_capture svc inp t]
    \<and> payment_row (ca_TransactionID inp) (w_dbs w' ! p) = Some (capturing now t)
    \<and> db_postings (w_dbs w' ! p) = db_postings (w_dbs w ! p)"
proof -
  obtain d2 w3 where d2: "payment_row (ca_TransactionID inp) d2 = Some (capturing now t)"
    "db_fees d2 = db_fees (w_dbs w ! p)" "db_postings d2 = db_postings (w_dbs w ! p)"
    and w3: "w3 = w\<lparr>w_dbs := (w_dbs w)[p := d2], w_calls := w_calls w @ [asked_capture svc inp t]\<rparr>"
    and run: "Service_Capture svc entryID now inp w =
       (case recordCapture svc entryID now (capturing now t) (captured_amount inp resp) inp (ad_Name ad) w3 of
          (t2, Inl e, w4) \<Rightarrow> ((Some t2, Some e), w4) | (t2, Inr _, w4) \<Rightarrow> ((Some t2, None), w4))"
    by (rule Capture_up_to_booking [OF assms(1-9)]) blast
  have at: "w_dbs w3 ! p = d2" "p < length (w_dbs w3)" "w_sched w3 = []" using assms(1,4) by (simp_all add: w3)
  have "shard_inv (w_dbs w ! p)" using assms(2,4) by (simp add: list_all_length)
  then have "t_ShardKey (capturing now t) = KeyForMerchant (ca_MerchantID inp)"
    using payment_row_Some [OF assms(5)] assms(6) by (auto simp: shard_inv_def)
  then have sh: "Shard (svc_mapping svc) (t_ShardKey (capturing now t)) = Inr p" using assms(3) by (simp add: shardOf_def)
  have "\<exists>t2 e. capture_body svc entryID now (t_State (capturing now t)) (captured_amount inp resp) inp (ad_Name ad) t1 d = (t2, Inl e)"
    if "Transaction_Capture now (capturing now t) (captured_amount inp resp) = Inr t1" "d = w_dbs w3 ! p" for t1 d
  proof (rule zero_leg_body [OF _ assms(11,12)])
    have "t_MerchantID t1 = ca_MerchantID inp" using that(1) assms(6) by (auto simp: Transaction_Capture_Inr)
    then show "ScheduleFor (t_MerchantID t1) (m_currency (captured_amount inp resp)) now d = Inr s"
      using assms(10) d2(2) that(2) at(1) by (simp add: ScheduleFor_def)
  qed
  from recordCapture_refused [OF at(3) this sh at(2)]
  obtain t2 e where "recordCapture svc entryID now (capturing now t) (captured_amount inp resp) inp (ad_Name ad) w3 = (t2, Inl e, w3)"
    by blast
  then show ?thesis using run d2 at(1) by (simp add: w3 assms(4))
qed

text \<open>With the schedule that is seeded for yen (360 basis points, nothing fixed) these are the captures
  of at most 13 yen.\<close>

lemma yen_fee_is_zero:
  assumes "s_Currency s = ''JPY''" "s_BasisPoints s = 360" "s_FixedMinor s = 0" "m_currency a = ''JPY''" "0 < minor a" "minor a \<le> 13"
  shows "\<exists>fee. Calculate s a = Inr fee \<and> minor fee = 0"
proof -
  have "list_all (\<lambda>k. Calculate \<lparr>s_MerchantID = [], s_Currency = ''JPY'', s_BasisPoints = 360, s_FixedMinor = 0, s_EffectiveFrom = 0, s_EffectiveTo = None\<rparr>
      (mk_money (word_of_int k) ''JPY'') = Inr (mk_money 0 ''JPY'')) [1..13]" by code_simp
  moreover have "a = mk_money (word_of_int (minor a)) ''JPY''" using assms(4) by (cases a) simp
  moreover have "minor a \<in> set [1..13]" using assms(5,6) by simp
  ultimately have "Calculate \<lparr>s_MerchantID = [], s_Currency = ''JPY'', s_BasisPoints = 360, s_FixedMinor = 0, s_EffectiveFrom = 0, s_EffectiveTo = None\<rparr> a
      = Inr (mk_money 0 ''JPY'')" unfolding list_all_iff by metis
  moreover have "Calculate s a = Calculate \<lparr>s_MerchantID = [], s_Currency = ''JPY'', s_BasisPoints = 360, s_FixedMinor = 0, s_EffectiveFrom = 0, s_EffectiveTo = None\<rparr> a"
    unfolding Calculate_def by (simp add: assms(1-3))
  ultimately have "Calculate s a = Inr (mk_money 0 ''JPY'')" by simp
  then show ?thesis by simp
qed

theorem zero_fee_capture_never_books_witness:
  "case demo_run 13 ''JPY'' of ((_, err), w') \<Rightarrow> err \<noteq> None \<and> length (w_calls w') = 1
     \<and> map_option t_State (payment_row 7 (w_dbs w' ! 0)) = Some StateCapturing \<and> db_postings (w_dbs w' ! 0) = []"
proof -
  define t where "t = hd (db_payments (demo_auth_db ''JPY''))"
  define ad where "ad = \<lparr>ad_Name = ''sim'', ad_call = demo_captures\<rparr>"
  define s where "s = \<lparr>s_MerchantID = ''*'', s_Currency = ''JPY'', s_BasisPoints = 360, s_FixedMinor = 0, s_EffectiveFrom = 0, s_EffectiveTo = None\<rparr>"
  define inp where "inp = demo_capture (mk_money 13 ''JPY'')"
  define resp where "resp = \<lparr>rs_Status = StatusCaptured, rs_ProviderReference = ''ch_1'', rs_Amount = mk_money 13 ''JPY''\<rparr>"
  let ?w = "demo_world (demo_auth_db ''JPY'')" and ?svc = "demo_svc demo_captures"
  have w: "w_sched ?w = []" "w_dbs ?w = [demo_auth_db ''JPY'']" "w_calls ?w = []" by (simp_all add: demo_world_def)
  have "shard_inv (demo_auth_db ''JPY'')" by (rule demo_auth_inv) code_simp
  then have inv: "list_all shard_inv (w_dbs ?w)" by (simp add: w)
  have inp: "ca_MerchantID inp = ''m1''" "ca_TransactionID inp = 7" "ca_Amount inp = mk_money 13 ''JPY''" by (simp_all add: inp_def demo_capture_def)
  have sh: "shardOf ?svc (ca_MerchantID inp) = Inr 0" "0 < length (w_dbs ?w)" unfolding inp w by code_simp+
  have row: "payment_row (ca_TransactionID inp) (w_dbs ?w ! 0) = Some t" "t_MerchantID t = ca_MerchantID inp"
    unfolding inp w t_def by code_simp+
  have ac: "assertCapturable t (ca_Amount inp) = Inr ()" unfolding t_def inp by code_simp
  have reg: "Registry_Default (svc_providers ?svc) = Inr ad" using demo_adapter by (simp add: ad_def)
  have resp: "ad_call ad (w_calls ?w) (asked_capture ?svc inp t) = Inr resp"
    by (simp add: ad_def demo_captures_def asked_capture_def inp resp_def t_def demo_auth_db_def)
  have amt: "captured_amount inp resp = mk_money 13 ''JPY''" unfolding inp_def resp_def by code_simp
  have fee: "ScheduleFor (ca_MerchantID inp) (m_currency (captured_amount inp resp)) 5 (w_dbs ?w ! 0) = Inr s"
    "Calculate s (captured_amount inp resp) = Inr (mk_money 0 ''JPY'')" "minor (mk_money 0 ''JPY'') = 0"
    unfolding inp w amt s_def by code_simp+
  note z = zero_fee_capture_never_books [OF w(1) inv sh row ac reg resp fee, of 55]
  have "db_postings (demo_auth_db ''JPY'') = []" by code_simp
  then show ?thesis using z by (auto simp: w inp(2) [unfolded inp_def] inp_def split: prod.splits)
qed

end
