(* ===== verification/Tcc.thy ===== *)
theory Tcc
  imports LedgerStore
begin

text \<open>
  Cross-shard transfers by try-confirm-cancel (internal/tcc): the coordinator's store (store.go),
  one side of a transfer on its own database (participant.go), the coordinator (coordinator.go) and
  the sweeper that finishes what a dead coordinator left (sweeper.go). A statement on the pool is
  an access of its own; a \<open>WithTx\<close> is one access. The texts of logged errors are not modelled;
  \<open>last_error\<close> keeps the error itself.
\<close>

section \<open>Transfers (transfer.go)\<close>

definition PastCommitPoint :: "TccState \<Rightarrow> bool" where
  "PastCommitPoint s \<longleftrightarrow> s = StateConfirming \<or> s = StateConfirmed"

definition CrossShard :: "Transfer \<Rightarrow> bool" where
  "CrossShard x \<longleftrightarrow> x_SourceShardKey x \<noteq> x_DestShardKey x"

definition side_merchant :: "Transfer \<Rightarrow> Role \<Rightarrow> string" where
  "side_merchant x role = (case role of RoleSource \<Rightarrow> x_SourceMerchant x | RoleDestination \<Rightarrow> x_DestMerchant x)"

definition side_key :: "Transfer \<Rightarrow> Role \<Rightarrow> string" where
  "side_key x role = (case role of RoleSource \<Rightarrow> x_SourceShardKey x | RoleDestination \<Rightarrow> x_DestShardKey x)"

section \<open>The coordinator's store (store.go)\<close>

definition scanTransfer :: "Transfer option \<Rightarrow> Transfer result" where
  "scanTransfer row =
     (case row of
        None \<Rightarrow> Inl ErrNoRows
      | Some x \<Rightarrow> ebind (Money_New (m_amount (x_Amount x)) (m_currency (x_Amount x))) (\<lambda>amount. Inr (x\<lparr>x_Amount := amount\<rparr>)))"

definition not_found :: "Transfer result \<Rightarrow> Transfer result" where
  "not_found r = (case r of Inl e \<Rightarrow> Inl (if e = ErrNoRows then ErrTransferNotFound else e) | Inr x \<Rightarrow> Inr x)"

definition transfer_row :: "uuid \<Rightarrow> db \<Rightarrow> Transfer option" where
  "transfer_row i d = tfind (\<lambda>x. x_ID x = i) (db_transfers d)"

definition Tcc_Get :: "uuid \<Rightarrow> db \<Rightarrow> Transfer result" where
  "Tcc_Get i d = not_found (scanTransfer (transfer_row i d))"

definition GetByIdempotencyKey :: "string \<Rightarrow> db \<Rightarrow> Transfer result" where
  "GetByIdempotencyKey key d = not_found (scanTransfer (tfind (\<lambda>x. x_IdempotencyKey x = key) (db_transfers d)))"

text \<open>The insert of \<open>Create\<close>; \<open>None\<close> when the idempotency key was there already.\<close>

definition insert_transfer :: "time \<Rightarrow> Transfer \<Rightarrow> Transfer option body" where
  "insert_transfer now x s d =
     (let row = x\<lparr>x_State := StateTrying, x_Attempts := 0, x_LastError := None, x_CreatedAt := now, x_ResolvedAt := None\<rparr> in
      if list_ex (\<lambda>y. x_IdempotencyKey y = x_IdempotencyKey x) (db_transfers d) then (None, Inr d)
      else if list_ex (\<lambda>y. x_ID y = x_ID x) (db_transfers d) then (s, Inl (ErrConstraint ''tcc_transfers_pkey''))
      else if \<not> 0 < minor (x_Amount x) then (s, Inl (ErrConstraint ''amount_minor''))
      else if \<not> valid_currency (m_currency (x_Amount x)) then (s, Inl (ErrConstraint ''currency_code''))
      else if x_SourceMerchant x = x_DestMerchant x then (s, Inl (ErrConstraint ''tcc_transfers_distinct_parties''))
      else (Some row, Inr (d\<lparr>db_transfers := db_transfers d @ [row]\<rparr>)))"

definition Tcc_Create :: "time \<Rightarrow> Transfer \<Rightarrow> world \<Rightarrow> Transfer result \<times> world" where
  "Tcc_Create now x w =
     (case tx_at Global (insert_transfer now x) None w of
        (s, Inl e, w1) \<Rightarrow> (Inl e, w1)
      | (s, Inr _, w1) \<Rightarrow>
          (case scanTransfer s of
             Inr created \<Rightarrow> (Inr created, w1)
           | Inl e \<Rightarrow> if e = ErrNoRows then query_at Global (GetByIdempotencyKey (x_IdempotencyKey x)) w1 else (Inl e, w1)))"

definition Advance :: "time \<Rightarrow> uuid \<Rightarrow> TccState \<Rightarrow> TccState \<Rightarrow> bool body" where
  "Advance now i from to moved d =
     (list_ex (\<lambda>x. x_ID x = i \<and> x_State x = from) (db_transfers d),
      Inr (d\<lparr>db_transfers := tupdate (\<lambda>x. x_ID x = i \<and> x_State x = from)
        (\<lambda>x. x\<lparr>x_State := to, x_ResolvedAt := (if to = StateConfirmed \<or> to = StateTccCancelled then Some now else x_ResolvedAt x)\<rparr>)
        (db_transfers d)\<rparr>))"

definition RecordAttempt :: "uuid \<Rightarrow> gerror \<Rightarrow> db \<Rightarrow> db" where
  "RecordAttempt i cause d =
     d\<lparr>db_transfers := tupdate (\<lambda>x. x_ID x = i) (\<lambda>x. x\<lparr>x_Attempts := x_Attempts x + 1, x_LastError := Some cause\<rparr>) (db_transfers d)\<rparr>"

definition open_state :: "TccState \<Rightarrow> bool" where
  "open_state s \<longleftrightarrow> s = StateTrying \<or> s = StateConfirming \<or> s = StateCancelling"

fun scan_all :: "Transfer list \<Rightarrow> Transfer list result" where
  "scan_all [] = Inr []"
| "scan_all (x # xs) = ebind (scanTransfer (Some x)) (\<lambda>y. ebind (scan_all xs) (\<lambda>ys. Inr (y # ys)))"

definition Unresolved :: "time \<Rightarrow> nat \<Rightarrow> db \<Rightarrow> Transfer list result" where
  "Unresolved now limit d =
     scan_all (take limit (sort_key x_TimeoutAt (filter (\<lambda>x. open_state (x_State x) \<and> x_TimeoutAt x \<le> now) (db_transfers d))))"

text \<open>The interval is rendered in whole milliseconds.\<close>

definition ExtendDeadline :: "time \<Rightarrow> uuid \<Rightarrow> int \<Rightarrow> db \<Rightarrow> db" where
  "ExtendDeadline now i dur d =
     d\<lparr>db_transfers := tupdate (\<lambda>x. x_ID x = i) (\<lambda>x. x\<lparr>x_TimeoutAt := now + go_quot dur 1000000 * 1000000\<rparr>) (db_transfers d)\<rparr>"

section \<open>One side of a transfer (participant.go)\<close>

definition scanReservation :: "Reservation option \<Rightarrow> Reservation result" where
  "scanReservation row =
     (case row of
        None \<Rightarrow> Inl ErrNoRows
      | Some r \<Rightarrow> ebind (Money_New (m_amount (rv_Amount r)) (m_currency (rv_Amount r))) (\<lambda>amount. Inr (r\<lparr>rv_Amount := amount\<rparr>)))"

definition reservation_row :: "uuid \<Rightarrow> Role \<Rightarrow> db \<Rightarrow> Reservation option" where
  "reservation_row i role d = tfind (\<lambda>r. rv_TransferID r = i \<and> rv_Role r = role) (db_reservations d)"

definition reservation :: "uuid \<Rightarrow> Role \<Rightarrow> db \<Rightarrow> Reservation result" where
  "reservation i role d = scanReservation (reservation_row i role d)"

text \<open>The two subqueries of the available balance: what the ledger owes the merchant, and what
  outstanding holds have taken of it.\<close>

definition payable_net :: "string \<Rightarrow> currency \<Rightarrow> db \<Rightarrow> int" where
  "payable_net merchant cur d =
     (\<Sum>p \<leftarrow> map pr_Posting (db_postings d).
        if list_ex (\<lambda>a. a_ID a = p_AccountID p \<and> a_Owner a = \<lparr>o_Type = ''merchant'', o_ID = merchant\<rparr>
             \<and> a_Purpose a = PurposePayable \<and> a_Currency a = cur) (db_accounts d)
        then (if p_Direction p = Credit then minor (p_Amount p) else - minor (p_Amount p)) else 0)"

definition source_holds :: "string \<Rightarrow> currency \<Rightarrow> db \<Rightarrow> int" where
  "source_holds merchant cur d =
     (\<Sum>r \<leftarrow> filter (\<lambda>r. rv_MerchantID r = merchant \<and> m_currency (rv_Amount r) = cur \<and> rv_Role r = RoleSource
        \<and> rv_State r = ReservationReserved) (db_reservations d). minor (rv_Amount r))"

definition assertFundsAvailable :: "string \<Rightarrow> Money \<Rightarrow> db \<Rightarrow> unit result" where
  "assertFundsAvailable merchant amount d =
     (let available = payable_net merchant (m_currency amount) d - source_holds merchant (m_currency amount) d in
      if \<not> in64 available then Inl (ErrInfra ''available balance'')
      else assert_err (minor amount \<le> available) ErrInsufficientBalance)"

definition Try :: "Transfer \<Rightarrow> Role \<Rightarrow> db \<Rightarrow> (Reservation \<times> db) result" where
  "Try x role d =
     (case reservation (x_ID x) role d of
        Inr existing \<Rightarrow> Inr (existing, d)
      | Inl e \<Rightarrow>
          if e \<noteq> ErrNoRows then Inl e
          else ebind (if role = RoleSource then assertFundsAvailable (side_merchant x role) (x_Amount x) d else Inr ()) (\<lambda>_.
            let r = \<lparr>rv_ID = db_nextid d, rv_TransferID = x_ID x, rv_Role = role, rv_MerchantID = side_merchant x role,
                     rv_ShardKey = side_key x role, rv_Amount = x_Amount x, rv_State = ReservationReserved,
                     rv_EntryID = None, rv_ExpiresAt = x_TimeoutAt x\<rparr>
            in if reservation_row (x_ID x) role d \<noteq> None then ebind (reservation (x_ID x) role d) (\<lambda>won. Inr (won, d))
               else if \<not> 0 < minor (x_Amount x) then Inl (ErrConstraint ''amount_minor'')
               else if \<not> valid_currency (m_currency (x_Amount x)) then Inl (ErrConstraint ''currency_code'')
               else Inr (r, d\<lparr>db_reservations := db_reservations d @ [r], db_nextid := Suc (db_nextid d)\<rparr>)))"

definition half_account :: "string \<Rightarrow> string \<Rightarrow> Purpose \<Rightarrow> currency \<Rightarrow> string \<Rightarrow> Account" where
  "half_account otype oid purp cur sk =
     \<lparr>a_ID = 0, a_Owner = \<lparr>o_Type = otype, o_ID = oid\<rparr>, a_Purpose = purp, a_Type = AccountTypeLiability, a_Currency = cur, a_ShardKey = sk\<rparr>"

definition role_string :: "Role \<Rightarrow> string" where
  "role_string role = (case role of RoleSource \<Rightarrow> ''source'' | RoleDestination \<Rightarrow> ''destination'')"

text \<open>The entry's identifier is drawn from the database's supply; \<open>idString\<close> renders a UUID.\<close>

definition postHalf ::
  "(uuid \<Rightarrow> string) \<Rightarrow> time \<Rightarrow> Transfer \<Rightarrow> Role \<Rightarrow> Reservation \<Rightarrow> db \<Rightarrow> (uuid \<times> db) result" where
  "postHalf idString now x role res d =
     (let cur = m_currency (x_Amount x) in
      ebind (EnsureAccount (half_account ''merchant'' (rv_MerchantID res) PurposePayable cur (rv_ShardKey res)) d) (\<lambda>(payable, d1).
      ebind (EnsureAccount (half_account ''platform'' ''platform'' PurposeTransferSuspense cur (rv_ShardKey res)) d1) (\<lambda>(suspense, d2).
      let (debit, credit) = (case role of RoleSource \<Rightarrow> (a_ID payable, a_ID suspense) | RoleDestination \<Rightarrow> (a_ID suspense, a_ID payable));
          entryID = db_nextid d2
      in ebind (NewEntry entryID now None (rv_ShardKey res) (''cross-shard transfer '' @ idString (x_ID x) @ '' ('' @ role_string role @ '')'') now
           [mk_posting debit Debit (x_Amount x), mk_posting credit Credit (x_Amount x)]) (\<lambda>entry.
         ebind (RecordEntry entry (d2\<lparr>db_nextid := Suc entryID\<rparr>)) (\<lambda>d3. Inr (entryID, d3))))))"

definition Confirm :: "(uuid \<Rightarrow> string) \<Rightarrow> time \<Rightarrow> Transfer \<Rightarrow> Role \<Rightarrow> db \<Rightarrow> (uuid \<times> db) result" where
  "Confirm idString now x role d =
     ebind (reservation (x_ID x) role d) (\<lambda>res.
     case rv_State res of
       ReservationConfirmed \<Rightarrow>
         (case rv_EntryID res of Some e \<Rightarrow> Inr (e, d) | None \<Rightarrow> Inl (GoPanic ''nil pointer dereference''))
     | ReservationCancelled \<Rightarrow> Inl (ErrOther ''side was already cancelled'')
     | ReservationReserved \<Rightarrow>
         ebind (postHalf idString now x role res d) (\<lambda>(entryID, d1).
         if \<not> list_ex (\<lambda>r. rv_ID r = rv_ID res \<and> rv_State r = ReservationReserved) (db_reservations d1)
         then Inl (ErrOther ''hold changed underneath'')
         else Inr (entryID, d1\<lparr>db_reservations := tupdate (\<lambda>r. rv_ID r = rv_ID res \<and> rv_State r = ReservationReserved)
                (\<lambda>r. r\<lparr>rv_State := ReservationConfirmed, rv_EntryID := Some entryID\<rparr>) (db_reservations d1)\<rparr>)))"

definition Cancel :: "uuid \<Rightarrow> Role \<Rightarrow> db \<Rightarrow> db result" where
  "Cancel i role d =
     (case reservation i role d of
        Inl e \<Rightarrow> if e = ErrNoRows then Inr d else Inl e
      | Inr res \<Rightarrow>
          (case rv_State res of
             ReservationCancelled \<Rightarrow> Inr d
           | ReservationConfirmed \<Rightarrow> Inl ErrAlreadyResolved
           | ReservationReserved \<Rightarrow>
               Inr (d\<lparr>db_reservations := tupdate (\<lambda>r. rv_ID r = rv_ID res \<and> rv_State r = ReservationReserved)
                  (\<lambda>r. r\<lparr>rv_State := ReservationCancelled\<rparr>) (db_reservations d)\<rparr>)))"

definition OutstandingHolds :: "db \<Rightarrow> int64 result" where
  "OutstandingHolds d =
     (let s = (\<Sum>r \<leftarrow> filter (\<lambda>r. rv_State r = ReservationReserved) (db_reservations d). minor (rv_Amount r)) in
      if in64 s then Inr (word_of_int s) else Inl (ErrInfra ''sum outstanding holds''))"

section \<open>The coordinator (coordinator.go)\<close>

record TccConfig =
  HoldTTL :: int
  ConfirmGrace :: int

definition DefaultTccConfig :: TccConfig where
  "DefaultTccConfig = \<lparr>HoldTTL = 30 * 1000000000, ConfirmGrace = 30 * 1000000000\<rparr>"

record Coordinator =
  co_mapping :: Mapping
  co_cfg :: TccConfig
  co_idString :: "uuid \<Rightarrow> string"

record TransferInput =
  ti_SourceMerchant :: string
  ti_DestMerchant :: string
  ti_Amount :: Money
  ti_IdempotencyKey :: string

type_synonym tcc_outcome = "Transfer option \<times> gerror option"

definition try_body :: "Transfer \<Rightarrow> Role \<Rightarrow> unit body" where
  "try_body x role s d = (s, ebind (Try x role d) (\<lambda>(_, d'). Inr d'))"

definition confirm_body :: "Coordinator \<Rightarrow> time \<Rightarrow> Transfer \<Rightarrow> Role \<Rightarrow> unit body" where
  "confirm_body co now x role s d = (s, ebind (Confirm (co_idString co) now x role d) (\<lambda>(_, d'). Inr d'))"

definition cancel_body :: "uuid \<Rightarrow> Role \<Rightarrow> unit body" where
  "cancel_body i role s d = (s, Cancel i role d)"

definition attempt_body :: "uuid \<Rightarrow> gerror \<Rightarrow> unit body" where
  "attempt_body i cause s d = (s, Inr (RecordAttempt i cause d))"

definition sides :: "Role list" where
  "sides = [RoleSource, RoleDestination]"

text \<open>The loops over the two sides.\<close>

fun try_loop :: "Coordinator \<Rightarrow> Transfer \<Rightarrow> Role list \<Rightarrow> world \<Rightarrow> unit result \<times> world" where
  "try_loop co x [] w = (Inr (), w)"
| "try_loop co x (role # roles) w =
     (case Router_WithTx (co_mapping co) (side_key x role) (try_body x role) () w of
        (_, Inl e, w1) \<Rightarrow> (Inl e, snd (snd (tx_at Global (attempt_body (x_ID x) e) () w1)))
      | (_, Inr _, w1) \<Rightarrow> try_loop co x roles w1)"

definition coord_try :: "Coordinator \<Rightarrow> Transfer \<Rightarrow> world \<Rightarrow> unit result \<times> world" where
  "coord_try co x w = try_loop co x sides w"

fun confirm_loop :: "Coordinator \<Rightarrow> time \<Rightarrow> Transfer \<Rightarrow> Role list \<Rightarrow> world \<Rightarrow> unit result \<times> world" where
  "confirm_loop co now x [] w = (Inr (), w)"
| "confirm_loop co now x (role # roles) w =
     (case Router_WithTx (co_mapping co) (side_key x role) (confirm_body co now x role) () w of
        (_, Inl e, w1) \<Rightarrow> (Inl e, snd (snd (tx_at Global (attempt_body (x_ID x) e) () w1)))
      | (_, Inr _, w1) \<Rightarrow> confirm_loop co now x roles w1)"

definition coord_confirm :: "Coordinator \<Rightarrow> time \<Rightarrow> Transfer \<Rightarrow> world \<Rightarrow> tcc_outcome \<times> world" where
  "coord_confirm co now x w =
     (case confirm_loop co now x sides w of
        (Inl e, w1) \<Rightarrow> ((Some x, Some e), w1)
      | (Inr _, w1) \<Rightarrow>
          (case tx_at Global (Advance now (x_ID x) StateConfirming StateConfirmed) False w1 of
             (_, Inl e, w2) \<Rightarrow> ((Some x, Some e), w2)
           | (_, Inr _, w2) \<Rightarrow> ((Some (x\<lparr>x_State := StateConfirmed\<rparr>), None), w2)))"

fun cancel_loop :: "Coordinator \<Rightarrow> Transfer \<Rightarrow> Role list \<Rightarrow> world \<Rightarrow> unit result \<times> world" where
  "cancel_loop co x [] w = (Inr (), w)"
| "cancel_loop co x (role # roles) w =
     (case Router_WithTx (co_mapping co) (side_key x role) (cancel_body (x_ID x) role) () w of
        (_, Inl e, w1) \<Rightarrow> (Inl e, w1)
      | (_, Inr _, w1) \<Rightarrow> cancel_loop co x roles w1)"

definition reload :: "uuid \<Rightarrow> world \<Rightarrow> Transfer result \<times> world" where
  "reload i w = query_at Global (Tcc_Get i) w"

text \<open>The rest of \<open>cancel\<close> once the record says cancelling: release both sides, close.\<close>

definition release :: "Coordinator \<Rightarrow> time \<Rightarrow> Transfer \<Rightarrow> world \<Rightarrow> Transfer \<times> unit result \<times> world" where
  "release co now x w =
     (case cancel_loop co x sides w of
        (Inl e, w1) \<Rightarrow> (x, Inl e, w1)
      | (Inr _, w1) \<Rightarrow>
          (case tx_at Global (Advance now (x_ID x) StateCancelling StateTccCancelled) False w1 of
             (_, Inl e, w2) \<Rightarrow> (x, Inl e, w2)
           | (_, Inr _, w2) \<Rightarrow> (x\<lparr>x_State := StateTccCancelled\<rparr>, Inr (), w2)))"

definition coord_cancel :: "Coordinator \<Rightarrow> time \<Rightarrow> Transfer \<Rightarrow> world \<Rightarrow> Transfer \<times> unit result \<times> world" where
  "coord_cancel co now x w =
     (if x_State x = StateTrying then
        (case tx_at Global (Advance now (x_ID x) StateTrying StateCancelling) False w of
           (_, Inl e, w1) \<Rightarrow> (x, Inl e, w1)
         | (moved, Inr _, w1) \<Rightarrow>
             if moved then release co now (x\<lparr>x_State := StateCancelling\<rparr>) w1
             else (case reload (x_ID x) w1 of
                     (Inl e, w2) \<Rightarrow> (x, Inl e, w2)
                   | (Inr current, w2) \<Rightarrow>
                       if PastCommitPoint (x_State current) then (x, Inl ErrAlreadyResolved, w2)
                       else release co now (x\<lparr>x_State := StateCancelling\<rparr>) w2))
      else release co now x w)"

definition Resume :: "Coordinator \<Rightarrow> time \<Rightarrow> Transfer \<Rightarrow> world \<Rightarrow> tcc_outcome \<times> world" where
  "Resume co now x w =
     (case x_State x of
        StateTrying \<Rightarrow>
          (case coord_try co x w of
             (Inl e, w1) \<Rightarrow> (case coord_cancel co now x w1 of (x', _, w2) \<Rightarrow> ((Some x', Some e), w2))
           | (Inr _, w1) \<Rightarrow>
               (case tx_at Global (Advance now (x_ID x) StateTrying StateConfirming) False w1 of
                  (_, Inl e, w2) \<Rightarrow> ((Some x, Some e), w2)
                | (moved, Inr _, w2) \<Rightarrow>
                    if moved then coord_confirm co now (x\<lparr>x_State := StateConfirming\<rparr>) w2
                    else (case reload (x_ID x) w2 of
                            (Inl e, w3) \<Rightarrow> ((None, Some e), w3)
                          | (Inr current, w3) \<Rightarrow> ((Some current, None), w3))))
      | StateConfirming \<Rightarrow> coord_confirm co now x w
      | StateCancelling \<Rightarrow>
          (case coord_cancel co now x w of
             (x', Inl e, w1) \<Rightarrow> ((Some x', Some e), w1)
           | (x', Inr _, w1) \<Rightarrow> ((Some x', None), w1))
      | _ \<Rightarrow> ((Some x, None), w))"

definition Coordinator_Transfer :: "Coordinator \<Rightarrow> uuid \<Rightarrow> time \<Rightarrow> TransferInput \<Rightarrow> world \<Rightarrow> tcc_outcome \<times> world" where
  "Coordinator_Transfer co newID now inp w =
     (if ti_SourceMerchant inp = ti_DestMerchant inp then ((None, Some ErrSameMerchant), w)
      else case Currency_Validate (m_currency (ti_Amount inp)) of
        Inl e \<Rightarrow> ((None, Some e), w)
      | Inr _ \<Rightarrow>
          if \<not> IsPositive (ti_Amount inp) then ((None, Some (ErrOther ''transfer amount must be positive'')), w)
          else
            let x = \<lparr>x_ID = newID, x_State = StateTrying, x_SourceMerchant = ti_SourceMerchant inp,
                     x_SourceShardKey = KeyForMerchant (ti_SourceMerchant inp), x_DestMerchant = ti_DestMerchant inp,
                     x_DestShardKey = KeyForMerchant (ti_DestMerchant inp), x_Amount = ti_Amount inp,
                     x_IdempotencyKey = ti_IdempotencyKey inp, x_TimeoutAt = now + HoldTTL (co_cfg co),
                     x_Attempts = 0, x_LastError = None, x_CreatedAt = now, x_ResolvedAt = None\<rparr>
            in (case Tcc_Create now x w of
                  (Inl e, w1) \<Rightarrow> ((None, Some e), w1)
                | (Inr created, w1) \<Rightarrow> Resume co now created w1))"

section \<open>The sweeper (sweeper.go)\<close>

fun extend_all :: "time \<Rightarrow> int \<Rightarrow> Transfer list \<Rightarrow> db \<Rightarrow> db" where
  "extend_all now dur [] d = d"
| "extend_all now dur (x # xs) d = extend_all now dur xs (ExtendDeadline now (x_ID x) dur d)"

definition sweep_claim_body :: "Coordinator \<Rightarrow> time \<Rightarrow> nat \<Rightarrow> Transfer list body" where
  "sweep_claim_body co now batchSize claimed d =
     (case Unresolved now batchSize d of
        Inl e \<Rightarrow> (claimed, Inl e)
      | Inr overdue \<Rightarrow> (overdue, Inr (extend_all now (ConfirmGrace (co_cfg co)) overdue d)))"

definition Sweeper_resolve :: "Coordinator \<Rightarrow> time \<Rightarrow> Transfer \<Rightarrow> world \<Rightarrow> unit result \<times> world" where
  "Sweeper_resolve co now x w =
     (if PastCommitPoint (x_State x) then
        (case Resume co now x w of ((_, err), w1) \<Rightarrow> ((case err of Some e \<Rightarrow> Inl e | None \<Rightarrow> Inr ()), w1))
      else if x_State x = StateTrying \<or> x_State x = StateCancelling then
        (case coord_cancel co now x w of (_, r, w1) \<Rightarrow> (r, w1))
      else (Inr (), w))"

fun resolve_all :: "Coordinator \<Rightarrow> time \<Rightarrow> Transfer list \<Rightarrow> world \<Rightarrow> nat \<times> world" where
  "resolve_all co now [] w = (0, w)"
| "resolve_all co now (x # xs) w =
     (case Sweeper_resolve co now x w of (r, w1) \<Rightarrow>
       (case resolve_all co now xs w1 of (n, w2) \<Rightarrow> ((if is_ok r then Suc n else n), w2)))"

definition Sweeper_Sweep :: "Coordinator \<Rightarrow> time \<Rightarrow> nat \<Rightarrow> world \<Rightarrow> nat result \<times> world" where
  "Sweeper_Sweep co now batchSize w =
     (case tx_at Global (sweep_claim_body co now batchSize) [] w of
        (_, Inl e, w1) \<Rightarrow> (Inl e, w1)
      | (claimed, Inr _, w1) \<Rightarrow> (case resolve_all co now claimed w1 of (n, w2) \<Rightarrow> (Inr n, w2)))"

end
