(* ===== verification/TccSide.thy ===== *)
theory TccSide
  imports Tcc
begin

text \<open>
  One database under the protocol of Tcc: what its ledger and its holds owe each other.
  \<open>side_ok\<close> says that holds are identified by transfer and role, that no merchant's holds exceed
  what the ledger owes it, that every confirmed hold has a journal entry of its own with the two legs
  of its half, and that the suspense account stands at exactly what the confirmed sides moved through
  it. Every participant operation that commits keeps it.
\<close>

section \<open>Account totals\<close>

definition account_net :: "Owner \<times> Purpose \<times> currency \<Rightarrow> db \<Rightarrow> int" where
  "account_net k d =
     (\<Sum>p \<leftarrow> map pr_Posting (db_postings d).
        if list_ex (\<lambda>a. a_ID a = p_AccountID p \<and> natural_key a = k) (db_accounts d)
        then (if p_Direction p = Credit then minor (p_Amount p) else - minor (p_Amount p)) else 0)"

abbreviation payable_key :: "string \<Rightarrow> currency \<Rightarrow> Owner \<times> Purpose \<times> currency" where
  "payable_key m cur \<equiv> (\<lparr>o_Type = ''merchant'', o_ID = m\<rparr>, PurposePayable, cur)"

abbreviation suspense_key :: "currency \<Rightarrow> Owner \<times> Purpose \<times> currency" where
  "suspense_key cur \<equiv> (\<lparr>o_Type = ''platform'', o_ID = ''platform''\<rparr>, PurposeTransferSuspense, cur)"

lemma payable_net_account: "payable_net m cur d = account_net (payable_key m cur) d"
  by (simp add: payable_net_def account_net_def natural_key_def)

definition postings_fk :: "db \<Rightarrow> bool" where
  "postings_fk d \<longleftrightarrow> (\<forall>p \<in> set (db_postings d). \<exists>a \<in> set (db_accounts d). a_ID a = p_AccountID (pr_Posting p))"

lemma account_net_cong:
  assumes "db_postings d' = db_postings d" "db_accounts d' = db_accounts d"
  shows "account_net k d' = account_net k d"
  using assms by (simp add: account_net_def)

lemma account_net_EnsureAccount:
  assumes "accounts_ok d" "postings_fk d" "EnsureAccount acct d = Inr (a, d')"
  shows "account_net k d' = account_net k d" "postings_fk d'"
proof -
  note e = EnsureAccount_Inr(3) [OF assms(3)]
  show "postings_fk d'" using e assms(2) by (auto simp: postings_fk_def)
  show "account_net k d' = account_net k d"
  proof (cases "d' = d")
    case False
    then have d': "d' = d\<lparr>db_accounts := db_accounts d @ [a], db_nextid := Suc (db_nextid d)\<rparr>" "a_ID a = db_nextid d"
      using e by auto
    have "p_AccountID p \<noteq> a_ID a" if "p \<in> set (map pr_Posting (db_postings d))" for p
      using that assms(1,2) d'(2) by (fastforce simp: postings_fk_def accounts_ok_def)
    then have "list_ex (\<lambda>b. a_ID b = p_AccountID p \<and> natural_key b = k) (db_accounts d') =
        list_ex (\<lambda>b. a_ID b = p_AccountID p \<and> natural_key b = k) (db_accounts d)" if "p \<in> set (map pr_Posting (db_postings d))" for p
      using that unfolding d'(1) by fastforce
    then show ?thesis unfolding account_net_def by (intro arg_cong [where f = sum_list] map_cong) (simp_all add: d'(1))
  qed simp
qed

lemma account_net_post:
  assumes "accounts_ok d" "a \<in> set (db_accounts d)" "b \<in> set (db_accounts d)"
    and "db_accounts d' = db_accounts d"
    and "db_postings d' = db_postings d @ map (\<lambda>p. \<lparr>pr_EntryID = e, pr_Posting = p\<rparr>) [mk_posting (a_ID a) Debit amt, mk_posting (a_ID b) Credit amt]"
  shows "account_net k d' = account_net k d - (if natural_key a = k then minor amt else 0) + (if natural_key b = k then minor amt else 0)"
proof -
  have "list_ex (\<lambda>c. a_ID c = a_ID y \<and> natural_key c = k) (db_accounts d) \<longleftrightarrow> natural_key y = k"
    if "y \<in> set (db_accounts d)" for y
    using that accounts_ok_unique(1) [OF assms(1) _ that] by (auto simp: list_ex_iff)
  then show ?thesis using assms(2-5) by (simp add: account_net_def)
qed

section \<open>The invariant of one database\<close>

definition available :: "string \<Rightarrow> currency \<Rightarrow> db \<Rightarrow> int" where
  "available m cur d = payable_net m cur d - source_holds m cur d"

definition through_suspense :: "currency \<Rightarrow> Reservation \<Rightarrow> int" where
  "through_suspense cur r =
     (if rv_State r = ReservationConfirmed \<and> m_currency (rv_Amount r) = cur
      then (case rv_Role r of RoleSource \<Rightarrow> minor (rv_Amount r) | RoleDestination \<Rightarrow> - minor (rv_Amount r)) else 0)"

definition holds_ok :: "db \<Rightarrow> bool" where
  "holds_ok d \<longleftrightarrow> distinct (map rv_ID (db_reservations d)) \<and> (\<forall>r \<in> set (db_reservations d). rv_ID r < db_nextid d)
     \<and> distinct (map (\<lambda>r. (rv_TransferID r, rv_Role r)) (db_reservations d))
     \<and> (\<forall>r \<in> set (db_reservations d). 0 < minor (rv_Amount r) \<and> valid_currency (m_currency (rv_Amount r))
          \<and> (rv_State r = ReservationConfirmed \<longleftrightarrow> rv_EntryID r \<noteq> None))"

text \<open>What a confirmed hold stands for: an entry of its own in the ledger of its database, whose two
  legs move its amount between the merchant's payable account and the suspense account.\<close>

definition half_legs :: "Role \<Rightarrow> Account \<Rightarrow> Account \<Rightarrow> Money \<Rightarrow> Posting list" where
  "half_legs role payable suspense amt =
     (case role of RoleSource \<Rightarrow> [mk_posting (a_ID payable) Debit amt, mk_posting (a_ID suspense) Credit amt]
                 | RoleDestination \<Rightarrow> [mk_posting (a_ID suspense) Debit amt, mk_posting (a_ID payable) Credit amt])"

definition half_in_ledger :: "Role \<Rightarrow> string \<Rightarrow> Money \<Rightarrow> uuid \<Rightarrow> db \<Rightarrow> bool" where
  "half_in_ledger role merchant amt e d \<longleftrightarrow> e \<in> je_ID ` set (db_entries d)
     \<and> (\<exists>a \<in> set (db_accounts d). \<exists>b \<in> set (db_accounts d). natural_key a = payable_key merchant (m_currency amt)
          \<and> natural_key b = suspense_key (m_currency amt) \<and> entry_postings d e = half_legs role a b amt)"

definition holds_booked :: "db \<Rightarrow> bool" where
  "holds_booked d \<longleftrightarrow>
     (\<forall>r \<in> set (db_reservations d). \<forall>e. rv_EntryID r = Some e \<longrightarrow> half_in_ledger (rv_Role r) (rv_MerchantID r) (rv_Amount r) e d)
     \<and> (\<forall>r \<in> set (db_reservations d). \<forall>r' \<in> set (db_reservations d). rv_EntryID r \<noteq> None \<longrightarrow> rv_EntryID r = rv_EntryID r' \<longrightarrow> r = r')"

definition side_ok :: "db \<Rightarrow> bool" where
  "side_ok d \<longleftrightarrow> ledger_ok d \<and> accounts_ok d \<and> postings_fk d \<and> holds_ok d \<and> holds_booked d
     \<and> (\<forall>m cur. 0 \<le> available m cur d)
     \<and> (\<forall>cur. account_net (suspense_key cur) d = (\<Sum>r \<leftarrow> db_reservations d. through_suspense cur r))"

lemma reservation_row_Some:
  assumes "reservation_row i role d = Some r"
  shows "r \<in> set (db_reservations d)" "rv_TransferID r = i" "rv_Role r = role"
  using assms by (auto simp: reservation_row_def dest: tfind_SomeD)

lemma reservation_Inr:
  assumes "reservation i role d = Inr r"
  shows "reservation_row i role d = Some r"
  using assms by (auto simp: reservation_def scanReservation_def err_simps Money_New_def split: option.splits)

lemma reservation_holds_ok:
  assumes "holds_ok d"
  shows "reservation i role d = (case reservation_row i role d of None \<Rightarrow> Inl ErrNoRows | Some r \<Rightarrow> Inr r)"
proof (cases "reservation_row i role d")
  case (Some r)
  then have "valid_currency (m_currency (rv_Amount r))" using assms reservation_row_Some(1) by (auto simp: holds_ok_def)
  then show ?thesis by (simp add: Some reservation_def scanReservation_def Money_New_def Currency_Validate_eq)
qed (simp add: reservation_def scanReservation_def)

lemma reservation_row_unique:
  assumes "holds_ok d" "r \<in> set (db_reservations d)"
  shows "reservation_row (rv_TransferID r) (rv_Role r) d = Some r"
proof -
  obtain r' where r': "reservation_row (rv_TransferID r) (rv_Role r) d = Some r'"
    using assms(2) tfind_Some_iff_exists [of "\<lambda>x. rv_TransferID x = rv_TransferID r \<and> rv_Role x = rv_Role r" "db_reservations d"]
    by (auto simp: reservation_row_def)
  have "inj_on (\<lambda>r. (rv_TransferID r, rv_Role r)) (set (db_reservations d))" using assms(1) by (auto simp: holds_ok_def distinct_map)
  then have "r' = r" using reservation_row_Some [OF r'] assms(2) by (auto dest: inj_onD)
  then show ?thesis using r' by simp
qed

section \<open>Changing one hold\<close>

text \<open>The guarded update of one reservation by its identifier, as \<open>Confirm\<close> and \<open>Cancel\<close> write it.\<close>

definition set_hold :: "Reservation \<Rightarrow> ReservationState \<Rightarrow> uuid option \<Rightarrow> db \<Rightarrow> db" where
  "set_hold res st e d = d\<lparr>db_reservations := tupdate (\<lambda>r. rv_ID r = rv_ID res \<and> rv_State r = ReservationReserved)
     (\<lambda>r. r\<lparr>rv_State := st, rv_EntryID := e\<rparr>) (db_reservations d)\<rparr>"

lemma set_hold_list:
  assumes "holds_ok d" "res \<in> set (db_reservations d)" "rv_State res = ReservationReserved"
  obtains xs ys where "db_reservations d = xs @ res # ys" "db_reservations (set_hold res st e d) = xs @ res\<lparr>rv_State := st, rv_EntryID := e\<rparr> # ys"
proof -
  obtain xs ys where l: "db_reservations d = xs @ res # ys" using assms(2) by (meson split_list)
  have "rv_ID res \<notin> rv_ID ` set xs" "rv_ID res \<notin> rv_ID ` set ys" using assms(1) l by (auto simp: holds_ok_def)
  then have "tupdate (\<lambda>r. rv_ID r = rv_ID res \<and> rv_State r = ReservationReserved) f zs = zs" if "zs \<in> {xs, ys}" for f zs
    using that by (intro tupdate_id) (metis imageI insertE singletonD)
  then have "db_reservations (set_hold res st e d) = xs @ res\<lparr>rv_State := st, rv_EntryID := e\<rparr> # ys"
    using assms(3) by (simp add: set_hold_def l)
  then show ?thesis using that l by blast
qed

lemma set_hold_ok:
  assumes "holds_ok d" "res \<in> set (db_reservations d)" "rv_State res = ReservationReserved" "(st = ReservationConfirmed) = (e \<noteq> None)"
  shows "holds_ok (set_hold res st e d)"
    "source_holds m cur (set_hold res st e d) = source_holds m cur d
       - (if rv_MerchantID res = m \<and> m_currency (rv_Amount res) = cur \<and> rv_Role res = RoleSource \<and> st \<noteq> ReservationReserved
          then minor (rv_Amount res) else 0)"
    "(\<Sum>r \<leftarrow> db_reservations (set_hold res st e d). through_suspense cur r) =
       (\<Sum>r \<leftarrow> db_reservations d. through_suspense cur r) + through_suspense cur (res\<lparr>rv_State := st\<rparr>)"
    "reservation_row i role (set_hold res st e d) =
       (if i = rv_TransferID res \<and> role = rv_Role res then Some (res\<lparr>rv_State := st, rv_EntryID := e\<rparr>) else reservation_row i role d)"
proof -
  obtain xs ys where l: "db_reservations d = xs @ res # ys" "db_reservations (set_hold res st e d) = xs @ res\<lparr>rv_State := st, rv_EntryID := e\<rparr> # ys"
    using set_hold_list [OF assms(1-3)] by blast
  have nx: "db_nextid (set_hold res st e d) = db_nextid d" by (simp add: set_hold_def)
  show ok: "holds_ok (set_hold res st e d)" using assms(1,4) unfolding holds_ok_def l nx by auto
  show "source_holds m cur (set_hold res st e d) = source_holds m cur d
       - (if rv_MerchantID res = m \<and> m_currency (rv_Amount res) = cur \<and> rv_Role res = RoleSource \<and> st \<noteq> ReservationReserved
          then minor (rv_Amount res) else 0)"
    unfolding source_holds_def l using assms(3) by simp
  show "(\<Sum>r \<leftarrow> db_reservations (set_hold res st e d). through_suspense cur r) =
       (\<Sum>r \<leftarrow> db_reservations d. through_suspense cur r) + through_suspense cur (res\<lparr>rv_State := st\<rparr>)"
    unfolding l using assms(3) by (cases "rv_Role res") (simp_all add: through_suspense_def)
  have k: "(rv_TransferID r, rv_Role r) \<noteq> (rv_TransferID res, rv_Role res)" if "r \<in> set xs" for r
  proof -
    have "distinct (map (\<lambda>r. (rv_TransferID r, rv_Role r)) (xs @ res # ys))" using assms(1) unfolding holds_ok_def l by blast
    then show ?thesis using that by (auto simp: image_iff)
  qed
  show "reservation_row i role (set_hold res st e d) =
       (if i = rv_TransferID res \<and> role = rv_Role res then Some (res\<lparr>rv_State := st, rv_EntryID := e\<rparr>) else reservation_row i role d)"
  proof (cases "i = rv_TransferID res \<and> role = rv_Role res")
    case True
    then have "tfind (\<lambda>r. rv_TransferID r = i \<and> rv_Role r = role) xs = None" using k by (auto simp: tfind_None_iff)
    then show ?thesis using True by (simp add: reservation_row_def l tfind_append)
  next
    case False
    then show ?thesis by (auto simp: reservation_row_def l tfind_append split: option.splits)
  qed
qed

section \<open>The participant keeps the invariant\<close>

lemma half_in_ledger_extends:
  assumes "half_in_ledger role m amt e d" "ledger_extends d d'" "set (db_accounts d) \<subseteq> set (db_accounts d')"
  shows "half_in_ledger role m amt e d'"
proof -
  obtain es ps where x: "db_entries d' = db_entries d @ es" "db_postings d' = db_postings d @ ps"
    "\<forall>p \<in> set ps. pr_EntryID p \<in> je_ID ` set es" "je_ID ` set es \<inter> je_ID ` set (db_entries d) = {}"
    using assms(2) by (auto simp: ledger_extends_def)
  have "e \<in> je_ID ` set (db_entries d)" using assms(1) by (simp add: half_in_ledger_def)
  then have "filter (\<lambda>p. pr_EntryID p = e) ps = []" using x(3,4) unfolding filter_empty_conv by blast
  then have "entry_postings d' e = entry_postings d e" by (simp add: entry_postings_def x(2))
  then show ?thesis using assms(1,3) x(1) unfolding half_in_ledger_def by auto
qed

lemma holds_booked_frame:
  assumes "holds_booked d" "ledger_extends d d'" "set (db_accounts d) \<subseteq> set (db_accounts d')"
    "\<And>r. r \<in> set (db_reservations d') \<Longrightarrow> rv_EntryID r \<noteq> None \<Longrightarrow> r \<in> set (db_reservations d)"
  shows "holds_booked d'"
proof -
  have "half_in_ledger (rv_Role r) (rv_MerchantID r) (rv_Amount r) e d'" if "r \<in> set (db_reservations d')" "rv_EntryID r = Some e" for r e
    using assms(1) assms(4) [OF that(1)] that(2) half_in_ledger_extends [OF _ assms(2,3)] by (auto simp: holds_booked_def)
  moreover have "r = r'" if "r \<in> set (db_reservations d')" "r' \<in> set (db_reservations d')" "rv_EntryID r \<noteq> None" "rv_EntryID r = rv_EntryID r'" for r r'
    using assms(1) assms(4) [OF that(1,3)] assms(4) [OF that(2)] that(3,4) unfolding holds_booked_def by metis
  ultimately show ?thesis unfolding holds_booked_def by blast
qed

lemma side_ok_frame:
  assumes "side_ok d" "db_postings d' = db_postings d" "db_entries d' = db_entries d" "db_accounts d' = db_accounts d"
    "db_nextid d \<le> db_nextid d'" "holds_ok d'"
    "\<And>m cur. source_holds m cur d' \<le> available m cur d + source_holds m cur d"
    "\<And>cur. (\<Sum>r \<leftarrow> db_reservations d'. through_suspense cur r) = (\<Sum>r \<leftarrow> db_reservations d. through_suspense cur r)"
    "\<And>r. r \<in> set (db_reservations d') \<Longrightarrow> rv_EntryID r \<noteq> None \<Longrightarrow> r \<in> set (db_reservations d)"
  shows "side_ok d'"
proof -
  have n: "account_net k d' = account_net k d" for k using account_net_cong [OF assms(2,4)] .
  have "ledger_ok d'" "accounts_ok d'" "postings_fk d'"
    using assms(1,5) by (auto simp: side_ok_def ledger_ok_def ledger_total_def accounts_ok_def postings_fk_def assms(2-4))
  moreover have "0 \<le> available m cur d'" for m cur
    using assms(7) [of m cur] by (simp add: available_def payable_net_account n)
  moreover have "holds_booked d'"
    using holds_booked_frame [OF _ ledger_extends_same [OF assms(3,2)] _ assms(9)] assms(1,4) by (simp add: side_ok_def)
  ultimately show ?thesis using assms(1,6,8) by (simp add: side_ok_def n)
qed

lemma side_ok_transfers: "side_ok (d\<lparr>db_transfers := xs\<rparr>) \<longleftrightarrow> side_ok d"
  by (simp add: side_ok_def ledger_ok_def ledger_total_def accounts_ok_def postings_fk_def holds_ok_def available_def payable_net_def
      source_holds_def account_net_def holds_booked_def half_in_ledger_def entry_postings_def)

lemma Try_cases:
  assumes "Try x role d = Inr (r, d')" "holds_ok d"
  obtains (existing) "reservation_row (x_ID x) role d = Some r" "d' = d"
  | (taken) "reservation_row (x_ID x) role d = None"
    "role = RoleSource \<Longrightarrow> minor (x_Amount x) \<le> available (side_merchant x role) (m_currency (x_Amount x)) d"
    "0 < minor (x_Amount x)" "valid_currency (m_currency (x_Amount x))"
    "r = \<lparr>rv_ID = db_nextid d, rv_TransferID = x_ID x, rv_Role = role, rv_MerchantID = side_merchant x role,
          rv_ShardKey = side_key x role, rv_Amount = x_Amount x, rv_State = ReservationReserved,
          rv_EntryID = None, rv_ExpiresAt = x_TimeoutAt x\<rparr>"
    "d' = d\<lparr>db_reservations := db_reservations d @ [r], db_nextid := Suc (db_nextid d)\<rparr>"
proof (cases "reservation_row (x_ID x) role d")
  case None
  define r0 where "r0 = \<lparr>rv_ID = db_nextid d, rv_TransferID = x_ID x, rv_Role = role, rv_MerchantID = side_merchant x role,
          rv_ShardKey = side_key x role, rv_Amount = x_Amount x, rv_State = ReservationReserved,
          rv_EntryID = None, rv_ExpiresAt = x_TimeoutAt x\<rparr>"
  have t: "Try x role d = ebind (if role = RoleSource then assertFundsAvailable (side_merchant x role) (x_Amount x) d else Inr ()) (\<lambda>_.
      if \<not> 0 < minor (x_Amount x) then Inl (ErrConstraint ''amount_minor'')
      else if \<not> valid_currency (m_currency (x_Amount x)) then Inl (ErrConstraint ''currency_code'')
      else Inr (r0, d\<lparr>db_reservations := db_reservations d @ [r0], db_nextid := Suc (db_nextid d)\<rparr>))"
    unfolding Try_def reservation_holds_ok [OF assms(2)] None r0_def Let_def by simp
  have f: "role = RoleSource \<Longrightarrow> assertFundsAvailable (side_merchant x role) (x_Amount x) d = Inr ()"
    and g: "0 < minor (x_Amount x)" "valid_currency (m_currency (x_Amount x))" "r = r0"
      "d' = d\<lparr>db_reservations := db_reservations d @ [r0], db_nextid := Suc (db_nextid d)\<rparr>"
    using assms(1) unfolding t by (auto simp: ebind_Inr_iff split: if_splits)
  show ?thesis
    by (rule taken) (use None f g in \<open>auto simp: assertFundsAvailable_def available_def r0_def Let_def err_simps split: if_splits\<close>)
next
  case (Some r')
  then have "Try x role d = Inr (r', d)" unfolding Try_def reservation_holds_ok [OF assms(2)] by simp
  then show ?thesis using assms(1) Some by (intro existing) simp_all
qed

lemma Try_side_ok:
  assumes "side_ok d" "Try x role d = Inr (r, d')"
  shows "side_ok d'"
proof -
  have h: "holds_ok d" using assms(1) by (simp add: side_ok_def)
  from assms(2) h show ?thesis
  proof (cases rule: Try_cases)
    case taken
    have new: "(x_ID x, role) \<notin> (\<lambda>r. (rv_TransferID r, rv_Role r)) ` set (db_reservations d)"
      using taken(1) by (auto simp: reservation_row_def tfind_None_iff)
    have "db_nextid d \<notin> rv_ID ` set (db_reservations d)" using h by (auto simp: holds_ok_def)
    then have "holds_ok d'" using h taken(3-6) new by (auto simp: holds_ok_def less_Suc_eq)
    moreover have "source_holds m cur d' \<le> available m cur d + source_holds m cur d" for m cur
    proof -
      have "source_holds m cur d' = source_holds m cur d + (if side_merchant x role = m \<and> m_currency (x_Amount x) = cur \<and> role = RoleSource
          then minor (x_Amount x) else 0)"
        by (cases role) (simp_all add: source_holds_def taken(5,6))
      moreover have "0 \<le> available m cur d" using assms(1) by (simp add: side_ok_def)
      ultimately show ?thesis using taken(2) by auto
    qed
    moreover have "(\<Sum>r \<leftarrow> db_reservations d'. through_suspense cur r) = (\<Sum>r \<leftarrow> db_reservations d. through_suspense cur r)" for cur
      by (simp add: taken(5,6) through_suspense_def)
    moreover have "r0 \<in> set (db_reservations d)" if "r0 \<in> set (db_reservations d')" "rv_EntryID r0 \<noteq> None" for r0
      using that by (auto simp: taken(5,6))
    ultimately show ?thesis using assms(1) taken(6) by (intro side_ok_frame [OF assms(1)]) simp_all
  qed (use assms(1) in simp)
qed

lemma Cancel_cases:
  assumes "Cancel i role d = Inr d'" "holds_ok d"
  obtains (none) "reservation_row i role d = None" "d' = d"
  | (again) r where "reservation_row i role d = Some r" "rv_State r = ReservationCancelled" "d' = d"
  | (released) r where "reservation_row i role d = Some r" "rv_State r = ReservationReserved" "d' = set_hold r ReservationCancelled None d"
proof (cases "reservation_row i role d")
  case None
  then have "Cancel i role d = Inr d" unfolding Cancel_def reservation_holds_ok [OF assms(2)] by simp
  then show ?thesis using assms(1) None by (intro none) simp_all
next
  case (Some r)
  note m = reservation_row_Some(1) [OF Some]
  show ?thesis
  proof (cases "rv_State r")
    case ReservationReserved
    have u: "y = r" if "y \<in> set (db_reservations d)" "rv_ID y = rv_ID r" for y
      using that m assms(2) by (auto simp: holds_ok_def distinct_map dest: inj_onD)
    have "rv_State r = ReservationConfirmed \<longleftrightarrow> rv_EntryID r \<noteq> None" using assms(2) m unfolding holds_ok_def by blast
    then have "rv_EntryID r = None" using ReservationReserved by simp
    then have tu: "tupdate (\<lambda>y. rv_ID y = rv_ID r \<and> rv_State y = ReservationReserved) (\<lambda>y. y\<lparr>rv_State := ReservationCancelled\<rparr>) (db_reservations d)
      = tupdate (\<lambda>y. rv_ID y = rv_ID r \<and> rv_State y = ReservationReserved)
          (\<lambda>y. y\<lparr>rv_State := ReservationCancelled, rv_EntryID := None\<rparr>) (db_reservations d)"
      unfolding tupdate_def by (intro map_cong refl) (metis u Reservation.surjective Reservation.update_convs(7) Reservation.update_convs(8))
    have "d' = set_hold r ReservationCancelled None d"
      using assms(1) Some ReservationReserved unfolding Cancel_def reservation_holds_ok [OF assms(2)] set_hold_def tu [symmetric] by simp
    then show ?thesis using released Some ReservationReserved by blast
  next
    case ReservationConfirmed
    then show ?thesis using assms(1) Some unfolding Cancel_def reservation_holds_ok [OF assms(2)] by simp
  next
    case ReservationCancelled
    then have "Cancel i role d = Inr d" using Some unfolding Cancel_def reservation_holds_ok [OF assms(2)] by simp
    then show ?thesis using assms(1) Some ReservationCancelled by (intro again) simp_all
  qed
qed

lemma Cancel_side_ok:
  assumes "side_ok d" "Cancel i role d = Inr d'"
  shows "side_ok d'"
proof -
  have h: "holds_ok d" using assms(1) by (simp add: side_ok_def)
  from assms(2) h show ?thesis
  proof (cases rule: Cancel_cases)
    case (released r)
    note s = set_hold_ok [OF h reservation_row_Some(1) [OF released(1)] released(2), of ReservationCancelled None, simplified]
    have pos: "0 < minor (rv_Amount r)" using h reservation_row_Some(1) [OF released(1)] by (simp add: holds_ok_def)
    have "source_holds m cur d' \<le> available m cur d + source_holds m cur d" for m cur
    proof -
      have "0 \<le> available m cur d" using assms(1) by (simp add: side_ok_def)
      then show ?thesis using pos unfolding released(3) s(2) by simp
    qed
    moreover have "(\<Sum>r \<leftarrow> db_reservations d'. through_suspense cur r) = (\<Sum>r \<leftarrow> db_reservations d. through_suspense cur r)" for cur
      unfolding released(3) s(3) by (simp add: through_suspense_def [of cur "r\<lparr>rv_State := ReservationCancelled\<rparr>"])
    moreover have "q \<in> set (db_reservations d)" if "q \<in> set (db_reservations d')" "rv_EntryID q \<noteq> None" for q
      using that by (auto simp: released(3) set_hold_def set_tupdate split: if_splits)
    ultimately show ?thesis
      using s(1) by (intro side_ok_frame [OF assms(1)]) (simp_all add: released(3) set_hold_def)
  qed (use assms(1) in simp_all)
qed

text \<open>What a confirmation does: nothing the second time; the first time it posts the side's half
  under a fresh entry and closes the hold.\<close>

lemma postHalf_Inr:
  assumes "postHalf idS now x role res d = Inr (e, d')" "accounts_ok d" "postings_fk d" "ledger_ok d"
  shows "ledger_extends d d'" "accounts_ok d'" "postings_fk d'" "db_reservations d' = db_reservations d" "db_transfers d' = db_transfers d"
    "db_nextid d \<le> db_nextid d'" "half_in_ledger role (rv_MerchantID res) (x_Amount x) e d'"
    "account_net k d' = account_net k d
       + (if k = payable_key (rv_MerchantID res) (m_currency (x_Amount x)) then (case role of RoleSource \<Rightarrow> - minor (x_Amount x) | RoleDestination \<Rightarrow> minor (x_Amount x)) else 0)
       + (if k = suspense_key (m_currency (x_Amount x)) then (case role of RoleSource \<Rightarrow> minor (x_Amount x) | RoleDestination \<Rightarrow> - minor (x_Amount x)) else 0)"
    "e \<notin> je_ID ` set (db_entries d)" "set (db_accounts d) \<subseteq> set (db_accounts d')"
proof -
  define cur where "cur = m_currency (x_Amount x)"
  define A where "A = half_account ''merchant'' (rv_MerchantID res) PurposePayable cur (rv_ShardKey res)"
  define B where "B = half_account ''platform'' ''platform'' PurposeTransferSuspense cur (rv_ShardKey res)"
  define ds where "ds = ''cross-shard transfer '' @ idS (x_ID x) @ '' ('' @ role_string role @ '')''"
  obtain a d1 where ea: "EnsureAccount A d = Inr (a, d1)"
    using assms(1) by (cases "EnsureAccount A d") (auto simp: postHalf_def cur_def A_def Let_def)
  obtain b d2 where eb: "EnsureAccount B d1 = Inr (b, d2)"
    using assms(1) ea by (cases "EnsureAccount B d1") (auto simp: postHalf_def cur_def A_def B_def Let_def)
  define ps where "ps = (case role of RoleSource \<Rightarrow> [mk_posting (a_ID a) Debit (x_Amount x), mk_posting (a_ID b) Credit (x_Amount x)]
      | RoleDestination \<Rightarrow> [mk_posting (a_ID b) Debit (x_Amount x), mk_posting (a_ID a) Credit (x_Amount x)])"
  have post: "ebind (NewEntry (db_nextid d2) now None (rv_ShardKey res) ds now ps) (\<lambda>entry.
      ebind (RecordEntry entry (d2\<lparr>db_nextid := Suc (db_nextid d2)\<rparr>)) (\<lambda>d3. Inr (db_nextid d2, d3))) = Inr (e, d')"
    using assms(1) ea eb unfolding postHalf_def A_def B_def cur_def ps_def ds_def by (cases role) (simp_all add: Let_def)
  then obtain en where ne: "NewEntry (db_nextid d2) now None (rv_ShardKey res) ds now ps = Inr en"
    and re: "RecordEntry en (d2\<lparr>db_nextid := Suc (db_nextid d2)\<rparr>) = Inr d'" and e: "e = db_nextid d2"
    by (auto simp: ebind_Inr_iff)
  note ra = EnsureAccount_Inr [OF ea] and rb = EnsureAccount_Inr [OF eb] and r = RecordEntry_Inr [OF re] and n = NewEntry_Inr [OF ne]
  note fa = EnsureAccount_frame [OF ea] and fb = EnsureAccount_frame [OF eb]
  have ok1: "accounts_ok d1" by (rule EnsureAccount_accounts_ok [OF assms(2) ea])
  have ok2: "accounts_ok d2" by (rule EnsureAccount_accounts_ok [OF ok1 eb])
  note na = account_net_EnsureAccount [OF assms(2,3) ea]
  note nb = account_net_EnsureAccount [OF ok1 na(2) eb]
  have keys: "natural_key a = payable_key (rv_MerchantID res) cur" "natural_key b = suspense_key cur"
    using ra(1) rb(1) by (simp_all add: A_def B_def half_account_def natural_key_def)
  have mem: "a \<in> set (db_accounts d2)" "b \<in> set (db_accounts d2)" using ra(2) rb(2) fb(11) by auto
  have acc: "db_accounts d' = db_accounts d2" "db_nextid d' = Suc (db_nextid d2)" using r(1) by simp_all
  have pst: "db_postings d' = db_postings d2 @ map (\<lambda>p. \<lparr>pr_EntryID = e, pr_Posting = p\<rparr>) ps" using r(1) n(1,2) e by simp
  show "ledger_extends d d'"
  proof -
    have "ledger_extends d d2" using EnsureAccount_ledger [OF ea] EnsureAccount_ledger [OF eb] ledger_extends_trans by blast
    moreover have "ledger_extends d2 d'" using RecordEntry_ledger [OF re] by (simp add: ledger_extends_def)
    ultimately show ?thesis by (rule ledger_extends_trans)
  qed
  show "accounts_ok d'" using ok2 acc by (simp add: accounts_ok_def less_SucI)
  show "postings_fk d'" using nb(2) acc(1) mem unfolding postings_fk_def pst by (cases role) (auto simp: ps_def)
  show "db_reservations d' = db_reservations d" "db_transfers d' = db_transfers d" using r(1) fa fb by simp_all
  show "db_nextid d \<le> db_nextid d'" using ra(3) rb(3) acc(2) by auto
  show new: "e \<notin> je_ID ` set (db_entries d)" using r(2) n(2) e fa(3) fb(3) by simp
  show "set (db_accounts d) \<subseteq> set (db_accounts d')" using fa(11) fb(11) acc(1) by auto
  show "half_in_ledger role (rv_MerchantID res) (x_Amount x) e d'"
  proof -
    have "pr_EntryID q \<noteq> e" if "q \<in> set (db_postings d)" for q
      using that new assms(4) by (auto simp: ledger_ok_def)
    then have "filter (\<lambda>q. pr_EntryID q = e) (db_postings d) = []" by (simp add: filter_empty_conv)
    then have "entry_postings d' e = ps" unfolding entry_postings_def pst using fa(4) fb(4) by (simp add: o_def filter_map)
    moreover have "ps = half_legs role a b (x_Amount x)" by (simp add: ps_def half_legs_def)
    moreover have "e \<in> je_ID ` set (db_entries d')" using r(1) n(2) e by simp
    ultimately show ?thesis unfolding half_in_ledger_def using mem acc(1) keys cur_def by metis
  qed
  show "account_net k d' = account_net k d
       + (if k = payable_key (rv_MerchantID res) (m_currency (x_Amount x)) then (case role of RoleSource \<Rightarrow> - minor (x_Amount x) | RoleDestination \<Rightarrow> minor (x_Amount x)) else 0)
       + (if k = suspense_key (m_currency (x_Amount x)) then (case role of RoleSource \<Rightarrow> minor (x_Amount x) | RoleDestination \<Rightarrow> - minor (x_Amount x)) else 0)"
  proof (cases role)
    case RoleSource
    then show ?thesis
      using account_net_post [OF ok2 mem acc(1), of e "x_Amount x" k] pst na(1) [of k] nb(1) [of k] keys
      by (auto simp: ps_def cur_def)
  next
    case RoleDestination
    then show ?thesis
      using account_net_post [OF ok2 mem(2,1) acc(1), of e "x_Amount x" k] pst na(1) [of k] nb(1) [of k] keys
      by (auto simp: ps_def cur_def)
  qed
qed

lemma Confirm_cases:
  assumes "Confirm idS now x role d = Inr (e, d')" "holds_ok d"
  obtains (again) r where "reservation_row (x_ID x) role d = Some r" "rv_State r = ReservationConfirmed" "rv_EntryID r = Some e" "d' = d"
  | (posted) r d1 where "reservation_row (x_ID x) role d = Some r" "rv_State r = ReservationReserved"
      "postHalf idS now x role r d = Inr (e, d1)" "d' = set_hold r ReservationConfirmed (Some e) d1"
proof (cases "reservation_row (x_ID x) role d")
  case None
  then show ?thesis using assms(1) unfolding Confirm_def reservation_holds_ok [OF assms(2)] by simp
next
  case (Some r)
  show ?thesis
  proof (cases "rv_State r")
    case ReservationReserved
    then obtain d1 where "postHalf idS now x role r d = Inr (e, d1)" "d' = set_hold r ReservationConfirmed (Some e) d1"
      using assms(1) Some unfolding Confirm_def reservation_holds_ok [OF assms(2)] set_hold_def
      by (auto simp: ebind_Inr_iff split: if_splits)
    then show ?thesis using posted Some ReservationReserved by blast
  next
    case ReservationConfirmed
    then have "rv_EntryID r = Some e" "d' = d"
      using assms(1) Some unfolding Confirm_def reservation_holds_ok [OF assms(2)] by (auto split: option.splits)
    then show ?thesis using again Some ReservationConfirmed by blast
  next
    case ReservationCancelled
    then show ?thesis using assms(1) Some unfolding Confirm_def reservation_holds_ok [OF assms(2)] by simp
  qed
qed

lemma confirmed_hold_booked:
  assumes ok: "holds_booked d" "ledger_extends d d'" "set (db_accounts d) \<subseteq> set (db_accounts d')"
    and rows: "\<And>q. q \<in> set (db_reservations d') \<Longrightarrow> q = r \<or> q \<in> set (db_reservations d)"
    and r: "rv_EntryID r = Some e" "e \<notin> je_ID ` set (db_entries d)" "half_in_ledger (rv_Role r) (rv_MerchantID r) (rv_Amount r) e d'"
  shows "holds_booked d'"
proof -
  have old: "half_in_ledger (rv_Role q) (rv_MerchantID q) (rv_Amount q) k d" if "q \<in> set (db_reservations d)" "rv_EntryID q = Some k" for q k
    using ok(1) that by (auto simp: holds_booked_def)
  then have new: "rv_EntryID q \<noteq> Some e" if "q \<in> set (db_reservations d)" for q
    using that r(2) by (auto simp: half_in_ledger_def)
  have "half_in_ledger (rv_Role q) (rv_MerchantID q) (rv_Amount q) k d'" if "q \<in> set (db_reservations d')" "rv_EntryID q = Some k" for q k
    using rows [OF that(1)] that(2) r(1,3) half_in_ledger_extends [OF old ok(2,3)] by auto
  moreover have "q = q'" if "q \<in> set (db_reservations d')" "q' \<in> set (db_reservations d')" "rv_EntryID q \<noteq> None" "rv_EntryID q = rv_EntryID q'" for q q'
    using rows [OF that(1)] rows [OF that(2)] that(3,4) new r(1) ok(1) unfolding holds_booked_def by metis
  ultimately show ?thesis unfolding holds_booked_def by blast
qed

lemma Confirm_side_ok:
  assumes ok: "side_ok d" and c: "Confirm idS now x role d = Inr (e, d')" and cc: "commit_check d d' = Inr ()"
    and match: "\<And>r. reservation_row (x_ID x) role d = Some r \<Longrightarrow> rv_Amount r = x_Amount x"
  shows "side_ok d'"
proof -
  have h: "holds_ok d" using ok by (simp add: side_ok_def)
  from c h show ?thesis
  proof (cases rule: Confirm_cases)
    case (posted r d1)
    have fk: "accounts_ok d" "postings_fk d" "ledger_ok d" using ok by (simp_all add: side_ok_def)
    note p = postHalf_Inr [OF posted(3) fk]
    have h1: "holds_ok d1" using h p(4,6) by (auto simp: holds_ok_def)
    have mem: "r \<in> set (db_reservations d1)" using reservation_row_Some(1) [OF posted(1)] p(4) by simp
    have role: "rv_Role r = role" by (rule reservation_row_Some(3) [OF posted(1)])
    have amt: "rv_Amount r = x_Amount x" by (rule match [OF posted(1)])
    have pos: "0 < minor (x_Amount x)" using h1 mem amt by (auto simp: holds_ok_def)
    note s = set_hold_ok [OF h1 mem posted(2), of ReservationConfirmed "Some e", simplified]
    have fr: "db_entries d' = db_entries d1" "db_postings d' = db_postings d1" "db_accounts d' = db_accounts d1" "db_nextid d' = db_nextid d1"
      by (simp_all add: posted(4) set_hold_def)
    have net: "account_net k d' = account_net k d1" for k by (rule account_net_cong [OF fr(2,3)])
    have ext: "ledger_extends d d'" using p(1) fr by (simp add: ledger_extends_def)
    then have "ledger_ok d'" using ledger_ok_commit [OF _ _ cc] ok by (simp add: side_ok_def)
    moreover have "holds_booked d'"
    proof (rule confirmed_hold_booked [OF _ ext, where r = "r\<lparr>rv_State := ReservationConfirmed, rv_EntryID := Some e\<rparr>" and e = e])
      show "holds_booked d" using ok by (simp add: side_ok_def)
      show "set (db_accounts d) \<subseteq> set (db_accounts d')" using p(10) fr(3) by simp
      have "e \<in> je_ID ` set (db_entries d')" "entry_postings d' e = entry_postings d1 e"
        using p(7) fr(1,2) by (simp_all add: half_in_ledger_def entry_postings_def)
      then show "half_in_ledger (rv_Role (r\<lparr>rv_State := ReservationConfirmed, rv_EntryID := Some e\<rparr>))
          (rv_MerchantID (r\<lparr>rv_State := ReservationConfirmed, rv_EntryID := Some e\<rparr>))
          (rv_Amount (r\<lparr>rv_State := ReservationConfirmed, rv_EntryID := Some e\<rparr>)) e d'"
        using p(7) fr(3) role amt by (simp add: half_in_ledger_def)
      obtain xs ys where "db_reservations d1 = xs @ r # ys"
        "db_reservations d' = xs @ r\<lparr>rv_State := ReservationConfirmed, rv_EntryID := Some e\<rparr> # ys"
        using set_hold_list [OF h1 mem posted(2)] posted(4) by metis
      then show "q = r\<lparr>rv_State := ReservationConfirmed, rv_EntryID := Some e\<rparr> \<or> q \<in> set (db_reservations d)"
        if "q \<in> set (db_reservations d')" for q using that p(4) by auto
    qed (use p(9) in simp_all)
    moreover have "accounts_ok d'" "postings_fk d'" using p(2,3) fr by (simp_all add: accounts_ok_def postings_fk_def)
    moreover have "holds_ok d'" using s(1) posted(4) by simp
    moreover have "0 \<le> available m cur d'" for m cur
    proof -
      have "source_holds m cur d1 = source_holds m cur d" by (simp add: source_holds_def p(4))
      moreover have "0 \<le> available m cur d" using ok by (simp add: side_ok_def)
      moreover have "source_holds m cur d' = source_holds m cur d1 -
          (if rv_MerchantID r = m \<and> m_currency (rv_Amount r) = cur \<and> rv_Role r = RoleSource then minor (rv_Amount r) else 0)"
        using s(2) [of m cur] posted(4) by simp
      ultimately show ?thesis
        using pos role amt net [of "payable_key m cur"] p(8) [of "payable_key m cur"]
        by (cases role) (auto simp: available_def payable_net_account)
    qed
    moreover have "account_net (suspense_key cur) d' = (\<Sum>r \<leftarrow> db_reservations d'. through_suspense cur r)" for cur
    proof -
      have "account_net (suspense_key cur) d = (\<Sum>r \<leftarrow> db_reservations d. through_suspense cur r)" using ok by (simp add: side_ok_def)
      moreover have "through_suspense cur (r\<lparr>rv_State := ReservationConfirmed\<rparr>) =
          (if cur = m_currency (x_Amount x) then (case role of RoleSource \<Rightarrow> minor (x_Amount x) | RoleDestination \<Rightarrow> - minor (x_Amount x)) else 0)"
        using role amt by (cases role) (auto simp: through_suspense_def)
      ultimately show ?thesis using net [of "suspense_key cur"] p(8) [of "suspense_key cur"] s(3) [of cur] p(4) posted(4) by simp
    qed
    ultimately show ?thesis by (simp add: side_ok_def)
  qed (use ok in simp)
qed

end
