(* ===== verification/TccProtocol.thy ===== *)
theory TccProtocol
  imports TccSide
begin

text \<open>
  The transfer protocol as an abstract machine, and the databases as a state of it. \<open>tcc_step\<close>
  is what may happen to one transfer: its record and the two holds, each in its own database.
  \<open>view\<close> reads that state off the databases. \<open>tcc_rel\<close> is what a process that follows the protocol
  does to all databases: it keeps the invariant and moves every transfer along \<open>tcc_step\<close>. It is
  an environment in the sense of Database, so the coordinator and the sweeper can be checked
  against any number of others.
\<close>

section \<open>The protocol\<close>

record view =
  v_state :: TccState
  v_hold :: "Role \<Rightarrow> ReservationState option"

definition Abandoned :: "TccState \<Rightarrow> bool" where
  "Abandoned s \<longleftrightarrow> s = StateCancelling \<or> s = StateTccCancelled"

inductive tcc_step :: "view \<Rightarrow> view \<Rightarrow> bool" where
  reserve: "v_hold v role = None \<Longrightarrow> tcc_step v (v\<lparr>v_hold := (v_hold v)(role := Some ReservationReserved)\<rparr>)"
| commit: "v_state v = StateTrying \<Longrightarrow> \<forall>role. v_hold v role = Some ReservationReserved \<Longrightarrow> tcc_step v (v\<lparr>v_state := StateConfirming\<rparr>)"
| post: "PastCommitPoint (v_state v) \<Longrightarrow> v_hold v role = Some ReservationReserved \<Longrightarrow>
    tcc_step v (v\<lparr>v_hold := (v_hold v)(role := Some ReservationConfirmed)\<rparr>)"
| close: "v_state v = StateConfirming \<Longrightarrow> \<forall>role. v_hold v role = Some ReservationConfirmed \<Longrightarrow> tcc_step v (v\<lparr>v_state := StateConfirmed\<rparr>)"
| abandon: "v_state v = StateTrying \<Longrightarrow> tcc_step v (v\<lparr>v_state := StateCancelling\<rparr>)"
| free: "Abandoned (v_state v) \<Longrightarrow> v_hold v role = Some ReservationReserved \<Longrightarrow>
    tcc_step v (v\<lparr>v_hold := (v_hold v)(role := Some ReservationCancelled)\<rparr>)"
| abort: "v_state v = StateCancelling \<Longrightarrow> tcc_step v (v\<lparr>v_state := StateTccCancelled\<rparr>)"

inductive_cases tcc_stepE: "tcc_step v v'"

definition fresh_view :: view where
  "fresh_view = \<lparr>v_state = StateTrying, v_hold = (\<lambda>_. None)\<rparr>"

abbreviation reachable :: "view \<Rightarrow> bool" where
  "reachable v \<equiv> tcc_step\<^sup>*\<^sup>* fresh_view v"

definition view_ok :: "view \<Rightarrow> bool" where
  "view_ok v \<longleftrightarrow>
     (v_state v = StateTrying \<longrightarrow> (\<forall>role. v_hold v role = None \<or> v_hold v role = Some ReservationReserved))
     \<and> (v_state v = StateConfirming \<longrightarrow> (\<forall>role. v_hold v role = Some ReservationReserved \<or> v_hold v role = Some ReservationConfirmed))
     \<and> (v_state v = StateConfirmed \<longrightarrow> (\<forall>role. v_hold v role = Some ReservationConfirmed))
     \<and> (Abandoned (v_state v) \<longrightarrow> (\<forall>role. v_hold v role \<noteq> Some ReservationConfirmed))"

lemma view_ok_step: "tcc_step v v' \<Longrightarrow> view_ok v \<Longrightarrow> view_ok v'"
proof (induction rule: tcc_step.induct)
  case (abandon v)
  then have "v_hold v role = None \<or> v_hold v role = Some ReservationReserved" for role by (simp add: view_ok_def)
  then have "v_hold v role \<noteq> Some ReservationConfirmed" for role by (metis ReservationState.distinct(1) option.distinct(1) option.inject)
  then show ?case by (simp add: view_ok_def)
qed (auto simp: view_ok_def PastCommitPoint_def Abandoned_def)

lemma reachable_ok: "reachable v \<Longrightarrow> view_ok v"
proof (induction rule: rtranclp_induct)
  case base
  show ?case by (simp add: view_ok_def fresh_view_def)
qed (rule view_ok_step)

lemma view_ok_unposted:
  assumes "view_ok v" "v_state v = StateTrying \<or> Abandoned (v_state v)"
  shows "v_hold v role \<noteq> Some ReservationConfirmed"
proof (cases "v_state v = StateTrying")
  case True
  then have "v_hold v role = None \<or> v_hold v role = Some ReservationReserved" using assms(1) by (simp add: view_ok_def)
  then show ?thesis by (elim disjE) simp_all
qed (use assms in \<open>simp add: view_ok_def\<close>)

text \<open>What no later step undoes.\<close>

lemma tcc_steps_stable:
  assumes "tcc_step\<^sup>*\<^sup>* v v'"
  shows "(PastCommitPoint (v_state v) \<longrightarrow> PastCommitPoint (v_state v'))
    \<and> (Abandoned (v_state v) \<longrightarrow> Abandoned (v_state v'))
    \<and> (v_hold v role \<noteq> None \<longrightarrow> v_hold v' role \<noteq> None)
    \<and> (v_hold v role = Some ReservationConfirmed \<longrightarrow> v_hold v' role = Some ReservationConfirmed)
    \<and> (v_hold v role = Some ReservationCancelled \<longrightarrow> v_hold v' role = Some ReservationCancelled)
    \<and> (v_state v = StateConfirmed \<longrightarrow> v_state v' = StateConfirmed)
    \<and> (v_state v = StateTccCancelled \<longrightarrow> v_state v' = StateTccCancelled)"
  using assms
proof (induction rule: rtranclp_induct)
  case (step y z)
  have "(PastCommitPoint (v_state y) \<longrightarrow> PastCommitPoint (v_state z))
    \<and> (Abandoned (v_state y) \<longrightarrow> Abandoned (v_state z))
    \<and> (v_hold y role \<noteq> None \<longrightarrow> v_hold z role \<noteq> None)
    \<and> (v_hold y role = Some ReservationConfirmed \<longrightarrow> v_hold z role = Some ReservationConfirmed)
    \<and> (v_hold y role = Some ReservationCancelled \<longrightarrow> v_hold z role = Some ReservationCancelled)
    \<and> (v_state y = StateConfirmed \<longrightarrow> v_state z = StateConfirmed)
    \<and> (v_state y = StateTccCancelled \<longrightarrow> v_state z = StateTccCancelled)"
    using step.hyps(2) by (induction rule: tcc_step.induct) (simp_all add: PastCommitPoint_def Abandoned_def)
  then show ?case using step.IH by blast
qed simp

section \<open>Reading it off the databases\<close>

definition good_mapping :: "Mapping \<Rightarrow> bool" where
  "good_mapping mp \<longleftrightarrow> (\<exists>n. NewMapping n = Inr mp)"

definition side_db :: "Mapping \<Rightarrow> Transfer \<Rightarrow> Role \<Rightarrow> nat" where
  "side_db mp x role = home mp (side_merchant x role)"

definition hold_of :: "Mapping \<Rightarrow> db list \<Rightarrow> Transfer \<Rightarrow> Role \<Rightarrow> ReservationState option" where
  "hold_of mp dbs x role = map_option rv_State (reservation_row (x_ID x) role (dbs ! side_db mp x role))"

definition tview :: "Mapping \<Rightarrow> db list \<Rightarrow> Transfer \<Rightarrow> view" where
  "tview mp dbs x = \<lparr>v_state = x_State x, v_hold = hold_of mp dbs x\<rparr>"

definition wf_transfer :: "Transfer \<Rightarrow> bool" where
  "wf_transfer x \<longleftrightarrow> x_SourceMerchant x \<noteq> x_DestMerchant x
     \<and> x_SourceShardKey x = KeyForMerchant (x_SourceMerchant x) \<and> x_DestShardKey x = KeyForMerchant (x_DestMerchant x)
     \<and> 0 < minor (x_Amount x) \<and> valid_currency (m_currency (x_Amount x))"

definition same_id :: "Transfer \<Rightarrow> Transfer \<Rightarrow> bool" where
  "same_id x y \<longleftrightarrow> x_ID y = x_ID x \<and> x_SourceMerchant y = x_SourceMerchant x \<and> x_DestMerchant y = x_DestMerchant x
     \<and> x_SourceShardKey y = x_SourceShardKey x \<and> x_DestShardKey y = x_DestShardKey x
     \<and> x_Amount y = x_Amount x \<and> x_IdempotencyKey y = x_IdempotencyKey x"

abbreviation transfers :: "db list \<Rightarrow> Transfer list" where
  "transfers dbs \<equiv> db_transfers (dbs ! Global)"

definition hold_matches :: "Mapping \<Rightarrow> nat \<Rightarrow> Reservation \<Rightarrow> Transfer \<Rightarrow> bool" where
  "hold_matches mp p r x \<longleftrightarrow> rv_TransferID r = x_ID x \<and> rv_Amount r = x_Amount x
     \<and> rv_MerchantID r = side_merchant x (rv_Role r) \<and> p = side_db mp x (rv_Role r)"

definition tcc_inv :: "Mapping \<Rightarrow> db list \<Rightarrow> bool" where
  "tcc_inv mp dbs \<longleftrightarrow> length dbs = physical mp
     \<and> distinct (map x_ID (transfers dbs)) \<and> distinct (map x_IdempotencyKey (transfers dbs))
     \<and> (\<forall>x \<in> set (transfers dbs). wf_transfer x \<and> reachable (tview mp dbs x))
     \<and> (\<forall>p < length dbs. side_ok (dbs ! p)
          \<and> (\<forall>r \<in> set (db_reservations (dbs ! p)). \<exists>x \<in> set (transfers dbs). hold_matches mp p r x))"

definition tcc_rel :: "Mapping \<Rightarrow> db list \<Rightarrow> db list \<Rightarrow> bool" where
  "tcc_rel mp dbs dbs' \<longleftrightarrow> length dbs' = length dbs \<and> (tcc_inv mp dbs \<longrightarrow> tcc_inv mp dbs'
     \<and> (\<forall>x \<in> set (transfers dbs). \<exists>x' \<in> set (transfers dbs'). same_id x x' \<and> tcc_step\<^sup>*\<^sup>* (tview mp dbs x) (tview mp dbs' x')))"

lemma tcc_invD:
  assumes "tcc_inv mp dbs"
  shows "length dbs = physical mp" "distinct (map x_ID (transfers dbs))" "distinct (map x_IdempotencyKey (transfers dbs))"
    "x \<in> set (transfers dbs) \<Longrightarrow> wf_transfer x" "x \<in> set (transfers dbs) \<Longrightarrow> reachable (tview mp dbs x)"
    "p < length dbs \<Longrightarrow> side_ok (dbs ! p)" "p < length dbs \<Longrightarrow> holds_ok (dbs ! p)"
    "p < length dbs \<Longrightarrow> r \<in> set (db_reservations (dbs ! p)) \<Longrightarrow> \<exists>x \<in> set (transfers dbs). hold_matches mp p r x"
  using assms unfolding tcc_inv_def side_ok_def by blast+

lemma transfer_unique:
  assumes "tcc_inv mp dbs" "x \<in> set (transfers dbs)" "y \<in> set (transfers dbs)" "x_ID x = x_ID y"
  shows "x = y"
  using tcc_invD(2) [OF assms(1)] assms(2-4) by (auto simp: distinct_map dest: inj_onD)

lemma same_id_refl [simp]: "same_id x x" by (simp add: same_id_def)

lemma same_id_trans: "same_id x y \<Longrightarrow> same_id y z \<Longrightarrow> same_id x z" by (simp add: same_id_def)

lemma same_id_sides:
  assumes "same_id x y"
  shows "side_merchant y role = side_merchant x role" "side_key y role = side_key x role" "side_db mp y role = side_db mp x role"
    "hold_of mp dbs y role = hold_of mp dbs x role" "wf_transfer y = wf_transfer x" "x_ID y = x_ID x" "x_Amount y = x_Amount x"
    "hold_matches mp p r y = hold_matches mp p r x"
  using assms
  by (auto simp: same_id_def side_merchant_def side_key_def side_db_def hold_of_def wf_transfer_def hold_matches_def split: Role.splits)

lemma side_key_wf: "wf_transfer x \<Longrightarrow> side_key x role = KeyForMerchant (side_merchant x role)"
  by (cases role) (simp_all add: wf_transfer_def side_key_def side_merchant_def)

lemma side_db_less: "good_mapping mp \<Longrightarrow> side_db mp x role < physical mp"
  by (auto simp: good_mapping_def side_db_def Shard_merchant(2))

lemma Router_side:
  assumes "good_mapping mp" "wf_transfer x"
  shows "Router_WithTx mp (side_key x role) body s w = tx_at (side_db mp x role) body s w"
  using assms by (auto simp: good_mapping_def side_db_def side_key_wf Router_WithTx_merchant)

lemma physical_pos: "good_mapping mp \<Longrightarrow> 0 < physical mp"
  using side_db_less by (metis gr0I not_less0)

lemma tcc_rel_trans:
  assumes "tcc_rel mp a b" "tcc_rel mp b c"
  shows "tcc_rel mp a c"
  unfolding tcc_rel_def
proof (intro conjI impI)
  show "length c = length a" using assms by (simp add: tcc_rel_def)
  assume i: "tcc_inv mp a"
  then have ib: "tcc_inv mp b" using assms(1) by (simp add: tcc_rel_def)
  then show "tcc_inv mp c" using assms(2) by (simp add: tcc_rel_def)
  show "\<forall>x \<in> set (transfers a). \<exists>x' \<in> set (transfers c). same_id x x' \<and> tcc_step\<^sup>*\<^sup>* (tview mp a x) (tview mp c x')"
  proof
    fix x assume "x \<in> set (transfers a)"
    then obtain y where y: "y \<in> set (transfers b)" "same_id x y" "tcc_step\<^sup>*\<^sup>* (tview mp a x) (tview mp b y)"
      using assms(1) i by (auto simp: tcc_rel_def)
    then obtain z where "z \<in> set (transfers c)" "same_id y z" "tcc_step\<^sup>*\<^sup>* (tview mp b y) (tview mp c z)"
      using assms(2) ib by (auto simp: tcc_rel_def)
    then show "\<exists>x' \<in> set (transfers c). same_id x x' \<and> tcc_step\<^sup>*\<^sup>* (tview mp a x) (tview mp c x')"
      using y same_id_trans rtranclp_trans by metis
  qed
qed

interpretation tcc: environment "tcc_rel mp" for mp
proof
  show "tcc_rel mp dbs dbs" for dbs unfolding tcc_rel_def by (blast intro: same_id_refl)
  show "tcc_rel mp dbs dbs' \<Longrightarrow> tcc_rel mp dbs' dbs'' \<Longrightarrow> tcc_rel mp dbs dbs''" for dbs dbs' dbs''
    by (rule tcc_rel_trans)
qed

section \<open>Steps of the coordinator's record\<close>

lemma transfers_change:
  assumes m: "good_mapping mp" and inv: "tcc_inv mp dbs"
    and f: "\<forall>x \<in> set (transfers dbs). same_id x (f x) \<and> tcc_step\<^sup>*\<^sup>* (tview mp dbs x) ((tview mp dbs x)\<lparr>v_state := x_State (f x)\<rparr>)"
  shows "tcc_rel mp dbs (dbs[Global := (dbs ! Global)\<lparr>db_transfers := map f (transfers dbs)\<rparr>])" (is "tcc_rel mp dbs ?dbs")
proof -
  have len: "0 < length dbs" using inv physical_pos [OF m] by (simp add: tcc_inv_def)
  have ts: "transfers ?dbs = map f (transfers dbs)" using len by (simp add: Global_def)
  have res: "db_reservations (?dbs ! p) = db_reservations (dbs ! p)" for p
    using len by (cases "p = 0") (simp_all add: Global_def)
  have row: "reservation_row i role (?dbs ! p) = reservation_row i role (dbs ! p)" for i role p by (simp add: reservation_row_def res)
  have ids: "x_ID (f x) = x_ID x" "x_IdempotencyKey (f x) = x_IdempotencyKey x" if "x \<in> set (transfers dbs)" for x
    using f that by (auto simp: same_id_def)
  have v: "tview mp ?dbs (f x) = (tview mp dbs x)\<lparr>v_state := x_State (f x)\<rparr>" if "x \<in> set (transfers dbs)" for x
  proof -
    have "hold_of mp ?dbs (f x) = hold_of mp dbs x"
      using f that same_id_sides(3,6) by (intro ext) (fastforce simp: hold_of_def row)
    then show ?thesis by (simp add: tview_def)
  qed
  have mp: "map x_ID (transfers ?dbs) = map x_ID (transfers dbs)"
    "map x_IdempotencyKey (transfers ?dbs) = map x_IdempotencyKey (transfers dbs)" using ids by (simp_all add: ts)
  have so: "side_ok (?dbs ! p) = side_ok (dbs ! p)" for p
    using len by (cases "p = 0") (simp_all add: side_ok_transfers Global_def)
  have "tcc_inv mp ?dbs"
    unfolding tcc_inv_def
  proof (intro conjI)
    show "\<forall>x \<in> set (transfers ?dbs). wf_transfer x \<and> reachable (tview mp ?dbs x)"
    proof
      fix y assume "y \<in> set (transfers ?dbs)"
      then obtain x where x: "x \<in> set (transfers dbs)" "y = f x" unfolding ts by auto
      have "reachable (tview mp dbs x)" "wf_transfer x" using inv x(1) by (auto simp: tcc_inv_def)
      then show "wf_transfer y \<and> reachable (tview mp ?dbs y)"
        using f x same_id_sides(5) v [OF x(1)] by (metis rtranclp_trans)
    qed
    show "\<forall>p < length ?dbs. side_ok (?dbs ! p) \<and> (\<forall>r \<in> set (db_reservations (?dbs ! p)). \<exists>x \<in> set (transfers ?dbs). hold_matches mp p r x)"
    proof (intro allI impI conjI ballI)
      fix p assume p: "p < length ?dbs"
      then show "side_ok (?dbs ! p)" using inv so by (simp add: tcc_inv_def)
      fix r assume "r \<in> set (db_reservations (?dbs ! p))"
      then obtain x where x: "x \<in> set (transfers dbs)" "hold_matches mp p r x" 
        using tcc_invD(8) [OF inv, of p r] p res by auto
      then have "hold_matches mp p r (f x)" using f same_id_sides(8) by blast
      then show "\<exists>x \<in> set (transfers ?dbs). hold_matches mp p r x" using x(1) unfolding ts by auto
    qed
  qed (use inv mp in \<open>simp_all add: tcc_inv_def\<close>)
  moreover have "\<exists>x' \<in> set (transfers ?dbs). same_id x x' \<and> tcc_step\<^sup>*\<^sup>* (tview mp dbs x) (tview mp ?dbs x')"
    if "x \<in> set (transfers dbs)" for x
    using f that v [OF that] unfolding ts by (intro bexI [of _ "f x"]) auto
  ultimately show ?thesis by (simp add: tcc_rel_def)
qed

lemma transfers_append:
  assumes m: "good_mapping mp" and inv: "tcc_inv mp dbs" and x: "wf_transfer x" "x_State x = StateTrying"
    and new: "x_ID x \<notin> x_ID ` set (transfers dbs)" "x_IdempotencyKey x \<notin> x_IdempotencyKey ` set (transfers dbs)"
  shows "tcc_rel mp dbs (dbs[Global := (dbs ! Global)\<lparr>db_transfers := transfers dbs @ [x]\<rparr>])" (is "tcc_rel mp dbs ?dbs")
proof -
  have len: "0 < length dbs" using tcc_invD(1) [OF inv] physical_pos [OF m] by simp
  have ts: "transfers ?dbs = transfers dbs @ [x]" using len by (simp add: Global_def)
  have res: "db_reservations (?dbs ! p) = db_reservations (dbs ! p)" for p
    using len by (cases "p = 0") (simp_all add: Global_def)
  have so: "side_ok (?dbs ! p) = side_ok (dbs ! p)" for p
    using len by (cases "p = 0") (simp_all add: side_ok_transfers Global_def)
  have v: "tview mp ?dbs y = tview mp dbs y" for y by (simp add: tview_def hold_of_def reservation_row_def res fun_eq_iff)
  have "hold_of mp dbs x role = None" for role
  proof (rule ccontr)
    assume "hold_of mp dbs x role \<noteq> None"
    then obtain r where r: "reservation_row (x_ID x) role (dbs ! side_db mp x role) = Some r" by (auto simp: hold_of_def)
    have "side_db mp x role < length dbs" using side_db_less [OF m] tcc_invD(1) [OF inv] by simp
    then obtain y where "y \<in> set (transfers dbs)" "x_ID y = x_ID x"
      using tcc_invD(8) [OF inv] reservation_row_Some [OF r] by (metis hold_matches_def)
    then show False using new(1) by (metis imageI)
  qed
  then have fresh: "tview mp ?dbs x = fresh_view" unfolding v by (simp add: tview_def fresh_view_def x(2) fun_eq_iff)
  have "tcc_inv mp ?dbs"
    unfolding tcc_inv_def
  proof (intro conjI)
    show "\<forall>y \<in> set (transfers ?dbs). wf_transfer y \<and> reachable (tview mp ?dbs y)"
      using tcc_invD(4,5) [OF inv] x(1) fresh v unfolding ts by auto
    show "\<forall>p < length ?dbs. side_ok (?dbs ! p) \<and> (\<forall>r \<in> set (db_reservations (?dbs ! p)). \<exists>x \<in> set (transfers ?dbs). hold_matches mp p r x)"
      using tcc_invD(6,8) [OF inv] unfolding ts so res by fastforce
    show "distinct (map x_ID (transfers ?dbs))" "distinct (map x_IdempotencyKey (transfers ?dbs))"
      using tcc_invD(2,3) [OF inv] new unfolding ts by auto
  qed (use tcc_invD(1) [OF inv] in simp)
  moreover have "\<exists>x' \<in> set (transfers ?dbs). same_id y x' \<and> tcc_step\<^sup>*\<^sup>* (tview mp dbs y) (tview mp ?dbs x')"
    if "y \<in> set (transfers dbs)" for y
    using that v unfolding ts by (intro bexI [of _ y]) auto
  ultimately show ?thesis by (simp add: tcc_rel_def)
qed

section \<open>Steps of a hold\<close>

lemma hold_change:
  assumes m: "good_mapping mp" and inv: "tcc_inv mp dbs" and x: "x \<in> set (transfers dbs)" and p: "p = side_db mp x role"
    and ok: "side_ok d'" and ts: "db_transfers d' = db_transfers (dbs ! p)"
    and other: "\<And>i r. (i, r) \<noteq> (x_ID x, role) \<Longrightarrow> reservation_row i r d' = reservation_row i r (dbs ! p)"
    and rows: "\<And>r. r \<in> set (db_reservations d') \<Longrightarrow>
      (\<exists>r0 \<in> set (db_reservations (dbs ! p)). rv_TransferID r = rv_TransferID r0 \<and> rv_Role r = rv_Role r0
         \<and> rv_Amount r = rv_Amount r0 \<and> rv_MerchantID r = rv_MerchantID r0)
      \<or> rv_TransferID r = x_ID x \<and> rv_Role r = role \<and> rv_Amount r = x_Amount x \<and> rv_MerchantID r = side_merchant x role"
    and step: "tcc_step\<^sup>*\<^sup>* (tview mp dbs x)
      ((tview mp dbs x)\<lparr>v_hold := (hold_of mp dbs x)(role := map_option rv_State (reservation_row (x_ID x) role d'))\<rparr>)"
  shows "tcc_rel mp dbs (dbs[p := d'])"
proof -
  let ?dbs = "dbs[p := d']"
  have pl: "p < length dbs" using side_db_less [OF m] tcc_invD(1) [OF inv] p by simp
  have tr: "transfers ?dbs = transfers dbs" using ts pl by (simp add: nth_list_update Global_def)
  have row: "reservation_row i r (?dbs ! q) = (if q = p then reservation_row i r d' else reservation_row i r (dbs ! q))" for i r q
    using pl by simp
  have vx: "tview mp ?dbs x = (tview mp dbs x)\<lparr>v_hold := (hold_of mp dbs x)(role := map_option rv_State (reservation_row (x_ID x) role d'))\<rparr>"
  proof -
    have "hold_of mp ?dbs x r = ((hold_of mp dbs x)(role := map_option rv_State (reservation_row (x_ID x) role d'))) r" for r
      unfolding hold_of_def row using other [of "x_ID x" r] p by auto
    then show ?thesis by (simp add: tview_def fun_eq_iff)
  qed
  have vy: "tview mp ?dbs y = tview mp dbs y" if "y \<in> set (transfers dbs)" "y \<noteq> x" for y
  proof -
    have "x_ID y \<noteq> x_ID x" using transfer_unique [OF inv that(1) x] that(2) by blast
    then have "hold_of mp ?dbs y r = hold_of mp dbs y r" for r using other [of "x_ID y" r] by (simp add: hold_of_def row)
    then show ?thesis by (simp add: tview_def fun_eq_iff)
  qed
  have st: "tcc_step\<^sup>*\<^sup>* (tview mp dbs y) (tview mp ?dbs y)" if "y \<in> set (transfers dbs)" for y
    using that step vx vy [OF that] by (cases "y = x") auto
  have "tcc_inv mp ?dbs"
    unfolding tcc_inv_def tr
  proof (intro conjI)
    show "\<forall>y \<in> set (transfers dbs). wf_transfer y \<and> reachable (tview mp ?dbs y)"
      using tcc_invD(4,5) [OF inv] st by (meson rtranclp_trans)
    show "\<forall>q < length ?dbs. side_ok (?dbs ! q) \<and> (\<forall>r \<in> set (db_reservations (?dbs ! q)). \<exists>x \<in> set (transfers dbs). hold_matches mp q r x)"
    proof (intro allI impI conjI ballI)
      fix q assume q: "q < length ?dbs"
      show "side_ok (?dbs ! q)" using ok tcc_invD(6) [OF inv] q pl by (cases "q = p") simp_all
      fix r assume r: "r \<in> set (db_reservations (?dbs ! q))"
      show "\<exists>x \<in> set (transfers dbs). hold_matches mp q r x"
      proof (cases "q = p")
        case True
        then have "r \<in> set (db_reservations d')" using r pl by simp
        then show ?thesis
          using rows tcc_invD(8) [OF inv pl] x p True unfolding hold_matches_def by (metis (no_types, lifting))
      next
        case False
        then show ?thesis using r q tcc_invD(8) [OF inv] by simp
      qed
    qed
  qed (use tcc_invD(1-3) [OF inv] in simp_all)
  then show ?thesis using st unfolding tcc_rel_def tr by (metis length_list_update same_id_refl)
qed

end
