(* ===== verification/TccSafety.thy ===== *)
theory TccSafety
  imports TccProtocol CompareAndSet
begin

text \<open>
  The coordinator and the sweeper follow the protocol. Each of their accesses is a protocol step
  whatever else happened since the last one; so is every whole run, under every fault, while any
  number of other coordinators and sweepers act. What the protocol guarantees then holds of the
  databases at every moment: both halves of a transfer are posted or neither stays posted alone,
  holds never exceed what is owed, suspense nets to zero once nothing is in flight.
\<close>

section \<open>What a process knows\<close>

definition knows :: "Mapping \<Rightarrow> Transfer \<Rightarrow> db list \<Rightarrow> bool" where
  "knows mp x dbs \<longleftrightarrow> (\<exists>y \<in> set (transfers dbs). same_id x y
     \<and> (PastCommitPoint (x_State x) \<longrightarrow> PastCommitPoint (x_State y)) \<and> (Abandoned (x_State x) \<longrightarrow> Abandoned (x_State y))
     \<and> (x_State x = StateConfirmed \<longrightarrow> x_State y = StateConfirmed))"

lemma knows_stable:
  assumes "tcc_inv mp dbs" "tcc_rel mp dbs dbs'" "knows mp x dbs"
  shows "knows mp x dbs'" "hold_of mp dbs x role \<noteq> None \<Longrightarrow> hold_of mp dbs' x role \<noteq> None"
    "hold_of mp dbs x role = Some ReservationConfirmed \<Longrightarrow> hold_of mp dbs' x role = Some ReservationConfirmed"
proof -
  obtain y where y: "y \<in> set (transfers dbs)" "same_id x y" "PastCommitPoint (x_State x) \<longrightarrow> PastCommitPoint (x_State y)"
    "Abandoned (x_State x) \<longrightarrow> Abandoned (x_State y)" "x_State x = StateConfirmed \<longrightarrow> x_State y = StateConfirmed"
    using assms(3) by (auto simp: knows_def)
  then obtain z where z: "z \<in> set (transfers dbs')" "same_id y z" "tcc_step\<^sup>*\<^sup>* (tview mp dbs y) (tview mp dbs' z)"
    using assms(1,2) by (auto simp: tcc_rel_def)
  note s = tcc_steps_stable [OF z(3), of role]
  have h: "v_hold (tview mp dbs y) role = hold_of mp dbs x role" "v_hold (tview mp dbs' z) role = hold_of mp dbs' x role"
    using same_id_sides(4) [OF y(2)] same_id_sides(4) [OF z(2)] by (simp_all add: tview_def)
  have st: "v_state (tview mp dbs y) = x_State y" "v_state (tview mp dbs' z) = x_State z" by (simp_all add: tview_def)
  show "knows mp x dbs'" unfolding knows_def using y z(1) same_id_trans [OF y(2) z(2)] s st by auto
  show "hold_of mp dbs x role \<noteq> None \<Longrightarrow> hold_of mp dbs' x role \<noteq> None"
    "hold_of mp dbs x role = Some ReservationConfirmed \<Longrightarrow> hold_of mp dbs' x role = Some ReservationConfirmed"
    using s h by auto
qed

lemma knows_wf: "tcc_inv mp dbs \<Longrightarrow> knows mp x dbs \<Longrightarrow> wf_transfer x"
  using tcc_invD(4) same_id_sides(5) unfolding knows_def by blast

definition proc :: "Mapping \<Rightarrow> Transfer \<Rightarrow> world \<Rightarrow> bool" where
  "proc mp x w \<longleftrightarrow> sched_ok (tcc_rel mp) w \<and> tcc_inv mp (w_dbs w) \<and> knows mp x (w_dbs w)"

lemma tcc_access:
  assumes "proc mp x w" "tx_at p body s w = (s', r, w')"
    and step: "\<forall>dbs s1 d1. tcc_inv mp dbs \<longrightarrow> tcc_rel mp (w_dbs w) dbs \<longrightarrow> knows mp x dbs \<longrightarrow> p < length dbs \<longrightarrow> body s (dbs ! p) = (s1, Inr d1)
      \<longrightarrow> commit_check (dbs ! p) d1 = Inr () \<longrightarrow> tcc_rel mp dbs (dbs[p := d1])"
  shows "tcc_rel mp (w_dbs w) (w_dbs w')" "proc mp x w'"
    "r = Inr () \<Longrightarrow> \<exists>dbs d1. tcc_inv mp dbs \<and> tcc_rel mp (w_dbs w) dbs \<and> knows mp x dbs \<and> p < length dbs \<and> body s (dbs ! p) = (s', Inr d1)
       \<and> commit_check (dbs ! p) d1 = Inr () \<and> w_dbs w' = dbs[p := d1]"
proof -
  have i: "tcc_inv mp (w_dbs w)" and so: "sched_ok (tcc_rel mp) w" and k: "knows mp x (w_dbs w)" using assms(1) by (auto simp: proc_def)
  have later: "tcc_inv mp dbs \<and> knows mp x dbs" if "tcc_rel mp (w_dbs w) dbs" for dbs
    using that i knows_stable(1) [OF i that k] by (simp add: tcc_rel_def)
  have step': "\<forall>dbs s1 d1. tcc_rel mp (w_dbs w) dbs \<longrightarrow> p < length dbs \<longrightarrow> body s (dbs ! p) = (s1, Inr d1)
      \<longrightarrow> commit_check (dbs ! p) d1 = Inr () \<longrightarrow> tcc_rel mp dbs (dbs[p := d1])"
    using step later by blast
  note t = tcc.tx_at_rel [OF so assms(2) step']
  show "tcc_rel mp (w_dbs w) (w_dbs w')" by (rule t(1))
  then show "proc mp x w'" using later t(2) by (simp add: proc_def)
  show "r = Inr () \<Longrightarrow> \<exists>dbs d1. tcc_inv mp dbs \<and> tcc_rel mp (w_dbs w) dbs \<and> knows mp x dbs \<and> p < length dbs \<and> body s (dbs ! p) = (s', Inr d1)
       \<and> commit_check (dbs ! p) d1 = Inr () \<and> w_dbs w' = dbs[p := d1]"
    using t(3) later by blast
qed

section \<open>Steps of one side\<close>

lemma row_matches:
  assumes "good_mapping mp" "tcc_inv mp dbs" "y \<in> set (transfers dbs)" "reservation_row (x_ID y) role (dbs ! side_db mp y role) = Some r"
  shows "rv_Amount r = x_Amount y" "rv_MerchantID r = side_merchant y role"
proof -
  have pl: "side_db mp y role < length dbs" using side_db_less [OF assms(1)] tcc_invD(1) [OF assms(2)] by simp
  note rr = reservation_row_Some [OF assms(4)]
  obtain z where z: "z \<in> set (transfers dbs)" "hold_matches mp (side_db mp y role) r z" using tcc_invD(8) [OF assms(2) pl rr(1)] by blast
  have "z = y" using transfer_unique [OF assms(2) z(1) assms(3)] z(2) rr(2) by (simp add: hold_matches_def)
  then show "rv_Amount r = x_Amount y" "rv_MerchantID r = side_merchant y role" using z(2) rr(3) by (simp_all add: hold_matches_def)
qed

lemma try_step:
  assumes m: "good_mapping mp" and inv: "tcc_inv mp dbs" and k: "knows mp x dbs"
    and t: "Try x role (dbs ! side_db mp x role) = Inr (r, d')"
  shows "tcc_rel mp dbs (dbs[side_db mp x role := d'])" "reservation_row (x_ID x) role d' \<noteq> None"
proof -
  obtain y where y: "y \<in> set (transfers dbs)" "same_id x y" using k by (auto simp: knows_def)
  let ?p = "side_db mp x role"
  have pl: "?p < length dbs" using side_db_less [OF m] tcc_invD(1) [OF inv] by simp
  have h: "holds_ok (dbs ! ?p)" and ok: "side_ok (dbs ! ?p)" using tcc_invD(6,7) [OF inv pl] by auto
  note ids = same_id_sides [OF y(2)]
  have "tcc_rel mp dbs (dbs[?p := d']) \<and> reservation_row (x_ID x) role d' \<noteq> None"
    using t h
  proof (cases rule: Try_cases)
    case existing
    then show ?thesis using tcc.R_refl by simp
  next
    case taken
    have none: "hold_of mp dbs y role = None" using taken(1) ids(4) by (simp add: hold_of_def)
    have rr: "reservation_row i q d' = (if (i, q) = (x_ID x, role) then Some r else reservation_row i q (dbs ! ?p))" for i q
      using taken(1) by (auto simp: reservation_row_def taken(5,6) tfind_append split: option.splits)
    have "tcc_rel mp dbs (dbs[?p := d'])"
    proof (rule hold_change [OF m inv y(1)])
      show "?p = side_db mp y role" using ids(3) by simp
      show "side_ok d'" by (rule Try_side_ok [OF ok t])
      show "db_transfers d' = db_transfers (dbs ! ?p)" using taken(6) by simp
      show "(i, q) \<noteq> (x_ID y, role) \<Longrightarrow> reservation_row i q d' = reservation_row i q (dbs ! ?p)" for i q using rr ids(6) by auto
      show "(\<exists>r0 \<in> set (db_reservations (dbs ! ?p)). rv_TransferID q = rv_TransferID r0 \<and> rv_Role q = rv_Role r0
         \<and> rv_Amount q = rv_Amount r0 \<and> rv_MerchantID q = rv_MerchantID r0)
        \<or> rv_TransferID q = x_ID y \<and> rv_Role q = role \<and> rv_Amount q = x_Amount y \<and> rv_MerchantID q = side_merchant y role"
        if "q \<in> set (db_reservations d')" for q
        using that taken(5,6) ids by auto
      have eq: "map_option rv_State (reservation_row (x_ID y) role d') = Some ReservationReserved" using rr ids(6) taken(5) by simp
      show "tcc_step\<^sup>*\<^sup>* (tview mp dbs y)
        ((tview mp dbs y)\<lparr>v_hold := (hold_of mp dbs y)(role := map_option rv_State (reservation_row (x_ID y) role d'))\<rparr>)"
        unfolding eq using tcc_step.reserve [of "tview mp dbs y" role] none by (simp add: tview_def r_into_rtranclp)
    qed
    then show ?thesis using rr by simp
  qed
  then show "tcc_rel mp dbs (dbs[?p := d'])" "reservation_row (x_ID x) role d' \<noteq> None" by blast+
qed

text \<open>Confirming and cancelling both close an open hold; what differs is the record they need.\<close>

lemma set_hold_step:
  assumes m: "good_mapping mp" and inv: "tcc_inv mp dbs" and y: "y \<in> set (transfers dbs)" and p: "p = side_db mp y role"
    and row: "reservation_row (x_ID y) role (dbs ! p) = Some r" "rv_State r = ReservationReserved"
    and d1: "db_reservations d1 = db_reservations (dbs ! p)" "db_transfers d1 = db_transfers (dbs ! p)" "holds_ok d1"
    and ok: "side_ok (set_hold r st e d1)" "(st = ReservationConfirmed) = (e \<noteq> None)"
    and st: "st = ReservationConfirmed \<and> PastCommitPoint (x_State y) \<or> st = ReservationCancelled \<and> Abandoned (x_State y)"
  shows "tcc_rel mp dbs (dbs[p := set_hold r st e d1])"
proof (rule hold_change [OF m inv y p ok(1)])
  have mem: "r \<in> set (db_reservations d1)" using reservation_row_Some(1) [OF row(1)] d1(1) by simp
  note s = set_hold_ok(4) [OF d1(3) mem row(2) ok(2)] and rs = reservation_row_Some [OF row(1)]
  have r1: "reservation_row i q d1 = reservation_row i q (dbs ! p)" for i q by (simp add: reservation_row_def d1(1))
  show "db_transfers (set_hold r st e d1) = db_transfers (dbs ! p)" by (simp add: set_hold_def d1(2))
  show "(i, q) \<noteq> (x_ID y, role) \<Longrightarrow> reservation_row i q (set_hold r st e d1) = reservation_row i q (dbs ! p)" for i q
    using s r1 rs by auto
  show "(\<exists>r0 \<in> set (db_reservations (dbs ! p)). rv_TransferID q = rv_TransferID r0 \<and> rv_Role q = rv_Role r0
         \<and> rv_Amount q = rv_Amount r0 \<and> rv_MerchantID q = rv_MerchantID r0)
        \<or> rv_TransferID q = x_ID y \<and> rv_Role q = role \<and> rv_Amount q = x_Amount y \<and> rv_MerchantID q = side_merchant y role"
    if q: "q \<in> set (db_reservations (set_hold r st e d1))" for q
  proof -
    obtain q0 where "q0 \<in> set (db_reservations d1)" "q = (if rv_ID q0 = rv_ID r \<and> rv_State q0 = ReservationReserved
        then q0\<lparr>rv_State := st, rv_EntryID := e\<rparr> else q0)" using q by (auto simp: set_hold_def set_tupdate)
    then show ?thesis unfolding d1(1) by (intro disjI1 bexI [of _ q0]) auto
  qed
  have eq: "map_option rv_State (reservation_row (x_ID y) role (set_hold r st e d1)) = Some st" using s rs by simp
  have "v_hold (tview mp dbs y) role = Some ReservationReserved" using row p by (simp add: tview_def hold_of_def)
  then show "tcc_step\<^sup>*\<^sup>* (tview mp dbs y)
    ((tview mp dbs y)\<lparr>v_hold := (hold_of mp dbs y)(role := map_option rv_State (reservation_row (x_ID y) role (set_hold r st e d1)))\<rparr>)"
    unfolding eq using st tcc_step.post [of "tview mp dbs y" role] tcc_step.free [of "tview mp dbs y" role]
    by (auto simp: tview_def intro: r_into_rtranclp)
qed

lemma confirm_step:
  assumes m: "good_mapping mp" and inv: "tcc_inv mp dbs" and k: "knows mp x dbs" and past: "PastCommitPoint (x_State x)"
    and c: "Confirm idS now x role (dbs ! side_db mp x role) = Inr (e, d')"
    and cc: "commit_check (dbs ! side_db mp x role) d' = Inr ()"
  shows "tcc_rel mp dbs (dbs[side_db mp x role := d'])" "map_option rv_State (reservation_row (x_ID x) role d') = Some ReservationConfirmed"
proof -
  obtain y where y: "y \<in> set (transfers dbs)" "same_id x y" "PastCommitPoint (x_State y)" using k past by (auto simp: knows_def)
  let ?p = "side_db mp x role"
  have pl: "?p < length dbs" using side_db_less [OF m] tcc_invD(1) [OF inv] by simp
  have h: "holds_ok (dbs ! ?p)" and ok: "side_ok (dbs ! ?p)" using tcc_invD(6,7) [OF inv pl] by auto
  note ids = same_id_sides [OF y(2)]
  have "rv_Amount r = x_Amount x" if "reservation_row (x_ID x) role (dbs ! ?p) = Some r" for r
    using row_matches(1) [OF m inv y(1), of role r] that ids by simp
  note ok' = Confirm_side_ok [OF ok c cc this]
  have "tcc_rel mp dbs (dbs[?p := d']) \<and> map_option rv_State (reservation_row (x_ID x) role d') = Some ReservationConfirmed"
    using c h
  proof (cases rule: Confirm_cases)
    case (again r)
    then show ?thesis using tcc.R_refl by simp
  next
    case (posted r d1)
    have fk: "accounts_ok (dbs ! ?p)" "postings_fk (dbs ! ?p)" "ledger_ok (dbs ! ?p)" using ok by (simp_all add: side_ok_def)
    note q = postHalf_Inr [OF posted(3) fk]
    have h1: "holds_ok d1" using h q(4,6) by (auto simp: holds_ok_def)
    have mem: "r \<in> set (db_reservations d1)" using reservation_row_Some(1) [OF posted(1)] q(4) by simp
    have "tcc_rel mp dbs (dbs[?p := set_hold r ReservationConfirmed (Some e) d1])"
      using set_hold_step [OF m inv y(1), of ?p role r d1 ReservationConfirmed "Some e"] posted ids q(4,5) h1 ok' y(3) by simp
    moreover have "reservation_row (x_ID x) role d' = Some (r\<lparr>rv_State := ReservationConfirmed, rv_EntryID := Some e\<rparr>)"
      using set_hold_ok(4) [OF h1 mem posted(2), of ReservationConfirmed "Some e"] reservation_row_Some [OF posted(1)] posted(4) by simp
    ultimately show ?thesis using posted(4) by simp
  qed
  then show "tcc_rel mp dbs (dbs[?p := d'])" "map_option rv_State (reservation_row (x_ID x) role d') = Some ReservationConfirmed" by blast+
qed

lemma cancel_step:
  assumes m: "good_mapping mp" and inv: "tcc_inv mp dbs" and k: "knows mp x dbs" and ab: "Abandoned (x_State x)"
    and c: "Cancel (x_ID x) role (dbs ! side_db mp x role) = Inr d'"
  shows "tcc_rel mp dbs (dbs[side_db mp x role := d'])" "reservation_row (x_ID x) role d' = None
     \<or> map_option rv_State (reservation_row (x_ID x) role d') = Some ReservationCancelled"
proof -
  obtain y where y: "y \<in> set (transfers dbs)" "same_id x y" "Abandoned (x_State y)" using k ab by (auto simp: knows_def)
  let ?p = "side_db mp x role"
  have pl: "?p < length dbs" using side_db_less [OF m] tcc_invD(1) [OF inv] by simp
  have h: "holds_ok (dbs ! ?p)" and ok: "side_ok (dbs ! ?p)" using tcc_invD(6,7) [OF inv pl] by auto
  note ids = same_id_sides [OF y(2)] and ok' = Cancel_side_ok [OF ok c]
  have "tcc_rel mp dbs (dbs[?p := d']) \<and> (reservation_row (x_ID x) role d' = None
     \<or> map_option rv_State (reservation_row (x_ID x) role d') = Some ReservationCancelled)"
    using c h
  proof (cases rule: Cancel_cases)
    case (released r)
    have mem: "r \<in> set (db_reservations (dbs ! ?p))" by (rule reservation_row_Some(1) [OF released(1)])
    have "tcc_rel mp dbs (dbs[?p := set_hold r ReservationCancelled None (dbs ! ?p)])"
      using set_hold_step [OF m inv y(1), of ?p role r "dbs ! ?p" ReservationCancelled None] released ids h ok' y(3) by simp
    moreover have "reservation_row (x_ID x) role d' = Some (r\<lparr>rv_State := ReservationCancelled, rv_EntryID := None\<rparr>)"
      using set_hold_ok(4) [OF h mem released(2), of ReservationCancelled None] reservation_row_Some [OF released(1)] released(3) by simp
    ultimately show ?thesis using released(3) by simp
  qed (use tcc.R_refl in simp_all)
  then show "tcc_rel mp dbs (dbs[?p := d'])" "reservation_row (x_ID x) role d' = None
     \<or> map_option rv_State (reservation_row (x_ID x) role d') = Some ReservationCancelled" by blast+
qed

section \<open>Accesses\<close>

lemma side_row: "p < length dbs \<Longrightarrow> p = side_db mp x role \<Longrightarrow> hold_of mp (dbs[p := d]) x role = map_option rv_State (reservation_row (x_ID x) role d)"
  by (simp add: hold_of_def)

lemma try_access:
  assumes m: "good_mapping mp" and pr: "proc mp x w"
    and t: "Router_WithTx mp (side_key x role) (try_body x role) () w = (u, r, w')"
  shows "tcc_rel mp (w_dbs w) (w_dbs w')" "proc mp x w'" "r = Inr () \<Longrightarrow> hold_of mp (w_dbs w') x role \<noteq> None"
proof -
  have wf: "wf_transfer x" using pr knows_wf by (auto simp: proc_def)
  have t': "tx_at (side_db mp x role) (try_body x role) () w = (u, r, w')" using t unfolding Router_side [OF m wf] .
  have st: "\<forall>dbs s1 d1. tcc_inv mp dbs \<longrightarrow> tcc_rel mp (w_dbs w) dbs \<longrightarrow> knows mp x dbs \<longrightarrow> side_db mp x role < length dbs
      \<longrightarrow> try_body x role () (dbs ! side_db mp x role) = (s1, Inr d1) \<longrightarrow> commit_check (dbs ! side_db mp x role) d1 = Inr ()
      \<longrightarrow> tcc_rel mp dbs (dbs[side_db mp x role := d1])"
    using try_step(1) [OF m] by (auto simp: try_body_def err_simps)
  note a = tcc_access [OF pr t' st]
  show "tcc_rel mp (w_dbs w) (w_dbs w')" "proc mp x w'" by (rule a(1), rule a(2))
  assume "r = Inr ()"
  then obtain dbs d1 q where d: "tcc_inv mp dbs" "knows mp x dbs" "side_db mp x role < length dbs"
    "Try x role (dbs ! side_db mp x role) = Inr (q, d1)" "w_dbs w' = dbs[side_db mp x role := d1]"
    using a(3) by (auto simp: try_body_def err_simps)
  show "hold_of mp (w_dbs w') x role \<noteq> None" using try_step(2) [OF m d(1,2,4)] side_row [OF d(3) refl] d(5) by simp
qed

lemma confirm_access:
  assumes m: "good_mapping mp" and pr: "proc mp x w" and past: "PastCommitPoint (x_State x)"
    and t: "Router_WithTx mp (side_key x role) (confirm_body co now x role) () w = (u, r, w')"
  shows "tcc_rel mp (w_dbs w) (w_dbs w')" "proc mp x w'" "r = Inr () \<Longrightarrow> hold_of mp (w_dbs w') x role = Some ReservationConfirmed"
proof -
  have wf: "wf_transfer x" using pr knows_wf by (auto simp: proc_def)
  have t': "tx_at (side_db mp x role) (confirm_body co now x role) () w = (u, r, w')" using t unfolding Router_side [OF m wf] .
  have st: "\<forall>dbs s1 d1. tcc_inv mp dbs \<longrightarrow> tcc_rel mp (w_dbs w) dbs \<longrightarrow> knows mp x dbs \<longrightarrow> side_db mp x role < length dbs
      \<longrightarrow> confirm_body co now x role () (dbs ! side_db mp x role) = (s1, Inr d1) \<longrightarrow> commit_check (dbs ! side_db mp x role) d1 = Inr ()
      \<longrightarrow> tcc_rel mp dbs (dbs[side_db mp x role := d1])"
    using confirm_step(1) [OF m _ _ past] by (auto simp: confirm_body_def err_simps)
  note a = tcc_access [OF pr t' st]
  show "tcc_rel mp (w_dbs w) (w_dbs w')" "proc mp x w'" by (rule a(1), rule a(2))
  assume "r = Inr ()"
  then obtain dbs d1 e where d: "tcc_inv mp dbs" "knows mp x dbs" "side_db mp x role < length dbs"
    "Confirm (co_idString co) now x role (dbs ! side_db mp x role) = Inr (e, d1)"
    "commit_check (dbs ! side_db mp x role) d1 = Inr ()" "w_dbs w' = dbs[side_db mp x role := d1]"
    using a(3) by (auto simp: confirm_body_def err_simps)
  show "hold_of mp (w_dbs w') x role = Some ReservationConfirmed"
    using confirm_step(2) [OF m d(1,2) past d(4,5)] side_row [OF d(3) refl] d(6) by simp
qed

lemma cancel_access:
  assumes m: "good_mapping mp" and pr: "proc mp x w" and ab: "Abandoned (x_State x)"
    and t: "Router_WithTx mp (side_key x role) (cancel_body (x_ID x) role) () w = (u, r, w')"
  shows "tcc_rel mp (w_dbs w) (w_dbs w')" "proc mp x w'"
proof -
  have wf: "wf_transfer x" using pr knows_wf by (auto simp: proc_def)
  have t': "tx_at (side_db mp x role) (cancel_body (x_ID x) role) () w = (u, r, w')" using t unfolding Router_side [OF m wf] .
  have st: "\<forall>dbs s1 d1. tcc_inv mp dbs \<longrightarrow> tcc_rel mp (w_dbs w) dbs \<longrightarrow> knows mp x dbs \<longrightarrow> side_db mp x role < length dbs
      \<longrightarrow> cancel_body (x_ID x) role () (dbs ! side_db mp x role) = (s1, Inr d1) \<longrightarrow> commit_check (dbs ! side_db mp x role) d1 = Inr ()
      \<longrightarrow> tcc_rel mp dbs (dbs[side_db mp x role := d1])"
    using cancel_step(1) [OF m _ _ ab] by (auto simp: cancel_body_def)
  show "tcc_rel mp (w_dbs w) (w_dbs w')" "proc mp x w'" using tcc_access [OF pr t' st] by blast+
qed

text \<open>Bookkeeping on the record: attempts and deadlines.\<close>

lemma bookkeeping_step:
  assumes m: "good_mapping mp" and inv: "tcc_inv mp dbs"
    and f: "\<And>x. same_id x (f x) \<and> x_State (f x) = x_State x"
  shows "tcc_rel mp dbs (dbs[Global := (dbs ! Global)\<lparr>db_transfers := tupdate P f (transfers dbs)\<rparr>])"
proof -
  have "(tview mp dbs x)\<lparr>v_state := x_State (if P x then f x else x)\<rparr> = tview mp dbs x" for x using f by (simp add: tview_def)
  then have "\<forall>x \<in> set (transfers dbs). same_id x (if P x then f x else x)
      \<and> tcc_step\<^sup>*\<^sup>* (tview mp dbs x) ((tview mp dbs x)\<lparr>v_state := x_State (if P x then f x else x)\<rparr>)" using f by auto
  from transfers_change [OF m inv this] show ?thesis by (simp add: tupdate_def)
qed

lemma attempt_access:
  assumes m: "good_mapping mp" and pr: "proc mp x w"
    and w': "w' = snd (snd (tx_at Global (attempt_body i e) () w))"
  shows "tcc_rel mp (w_dbs w) (w_dbs w')" "proc mp x w'"
proof -
  obtain u r where t: "tx_at Global (attempt_body i e) () w = (u, r, w')" unfolding w' by (metis surj_pair snd_conv)
  have st: "\<forall>dbs s1 d1. tcc_inv mp dbs \<longrightarrow> tcc_rel mp (w_dbs w) dbs \<longrightarrow> knows mp x dbs \<longrightarrow> Global < length dbs
      \<longrightarrow> attempt_body i e () (dbs ! Global) = (s1, Inr d1) \<longrightarrow> commit_check (dbs ! Global) d1 = Inr () \<longrightarrow> tcc_rel mp dbs (dbs[Global := d1])"
    using bookkeeping_step [OF m] by (auto simp: attempt_body_def RecordAttempt_def same_id_def)
  show "tcc_rel mp (w_dbs w) (w_dbs w')" "proc mp x w'" using tcc_access [OF pr t st] by blast+
qed

text \<open>The guarded moves of the record.\<close>

lemma advance_step:
  assumes m: "good_mapping mp" and inv: "tcc_inv mp dbs" and k: "knows mp x dbs"
    and a: "Advance now (x_ID x) from to s (dbs ! Global) = (moved, Inr d')"
    and st: "\<forall>y \<in> set (transfers dbs). same_id x y \<longrightarrow> x_State y = from \<longrightarrow> tcc_step (tview mp dbs y) ((tview mp dbs y)\<lparr>v_state := to\<rparr>)"
  shows "tcc_rel mp dbs (dbs[Global := d'])"
    "moved \<Longrightarrow> \<exists>y \<in> set (transfers (dbs[Global := d'])). same_id x y \<and> x_State y = to"
    "\<not> moved \<Longrightarrow> \<exists>y \<in> set (transfers (dbs[Global := d'])). same_id x y \<and> x_State y \<noteq> from"
proof -
  have len: "0 < length dbs" using tcc_invD(1) [OF inv] physical_pos [OF m] by simp
  define P where "P = (\<lambda>y::Transfer. x_ID y = x_ID x \<and> x_State y = from)"
  define f where "f = (\<lambda>y::Transfer. y\<lparr>x_State := to, x_ResolvedAt := (if to = StateConfirmed \<or> to = StateTccCancelled then Some now else x_ResolvedAt y)\<rparr>)"
  define g where "g = (\<lambda>y. if P y then f y else y)"
  have d': "d' = (dbs ! Global)\<lparr>db_transfers := map g (transfers dbs)\<rparr>" and mv: "moved = list_ex P (transfers dbs)"
    using a by (auto simp: Advance_def tupdate_def P_def f_def g_def)
  obtain y where y: "y \<in> set (transfers dbs)" "same_id x y" using k by (auto simp: knows_def)
  have gid: "same_id z (g z)" for z by (simp add: g_def f_def same_id_def)
  have uniq: "z = y" if "z \<in> set (transfers dbs)" "x_ID z = x_ID x" for z
    using transfer_unique [OF inv that(1) y(1)] that(2) y(2) by (simp add: same_id_def)
  have "tcc_step\<^sup>*\<^sup>* (tview mp dbs z) ((tview mp dbs z)\<lparr>v_state := x_State (g z)\<rparr>)" if z: "z \<in> set (transfers dbs)" for z
  proof (cases "P z")
    case True
    then have "z = y" using uniq [OF z] by (simp add: P_def)
    then show ?thesis using st y True by (auto simp: g_def f_def P_def)
  next
    case False
    then show ?thesis by (simp add: g_def tview_def)
  qed
  then show "tcc_rel mp dbs (dbs[Global := d'])" unfolding d' using transfers_change [OF m inv, of g] gid by blast
  have ts: "transfers (dbs[Global := d']) = map g (transfers dbs)" using len by (simp add: d' Global_def)
  have xy: "same_id x (g y)" using same_id_trans [OF y(2) gid] .
  show "\<exists>y \<in> set (transfers (dbs[Global := d'])). same_id x y \<and> x_State y = to" if mvd: moved
  proof -
    obtain z where z: "z \<in> set (transfers dbs)" "P z" using mvd mv by (auto simp: list_ex_iff)
    then have "z = y" using uniq by (simp add: P_def)
    then show ?thesis using z xy unfolding ts by (intro bexI [of _ "g y"]) (auto simp: g_def f_def)
  qed
  show "\<exists>y \<in> set (transfers (dbs[Global := d'])). same_id x y \<and> x_State y \<noteq> from" if "\<not> moved"
  proof -
    have "\<not> P y" using that mv y(1) by (auto simp: list_ex_iff)
    then have "g y = y" "x_State y \<noteq> from" using y(2) by (auto simp: g_def P_def same_id_def)
    then show ?thesis using y unfolding ts by (intro bexI [of _ y]) (auto simp: image_iff intro: bexI [of _ y])
  qed
qed

lemma advance_access:
  assumes m: "good_mapping mp" and pr: "proc mp x w"
    and t: "tx_at Global (Advance now (x_ID x) from to) s w = (moved, r, w')"
    and st: "\<forall>dbs y. tcc_inv mp dbs \<longrightarrow> tcc_rel mp (w_dbs w) dbs \<longrightarrow> y \<in> set (transfers dbs) \<longrightarrow> same_id x y \<longrightarrow> x_State y = from
      \<longrightarrow> tcc_step (tview mp dbs y) ((tview mp dbs y)\<lparr>v_state := to\<rparr>)"
  shows "tcc_rel mp (w_dbs w) (w_dbs w')" "proc mp x w'" "r = Inr () \<Longrightarrow> moved \<Longrightarrow> proc mp (x\<lparr>x_State := to\<rparr>) w'"
    "r = Inr () \<Longrightarrow> \<not> moved \<Longrightarrow> \<exists>y \<in> set (transfers (w_dbs w')). same_id x y \<and> x_State y \<noteq> from"
proof -
  have step: "\<forall>dbs s1 d1. tcc_inv mp dbs \<longrightarrow> tcc_rel mp (w_dbs w) dbs \<longrightarrow> knows mp x dbs \<longrightarrow> Global < length dbs
      \<longrightarrow> Advance now (x_ID x) from to s (dbs ! Global) = (s1, Inr d1) \<longrightarrow> commit_check (dbs ! Global) d1 = Inr () \<longrightarrow> tcc_rel mp dbs (dbs[Global := d1])"
    using advance_step(1) [OF m] st by blast
  note a = tcc_access [OF pr t step]
  show "tcc_rel mp (w_dbs w) (w_dbs w')" "proc mp x w'" by (rule a(1), rule a(2))
  show "proc mp (x\<lparr>x_State := to\<rparr>) w'" if r: "r = Inr ()" and mv: moved
  proof -
    obtain dbs d1 where d: "tcc_inv mp dbs" "tcc_rel mp (w_dbs w) dbs" "knows mp x dbs"
      "Advance now (x_ID x) from to s (dbs ! Global) = (moved, Inr d1)" "w_dbs w' = dbs[Global := d1]" using a(3) [OF r] by blast
    have "\<exists>y \<in> set (transfers (w_dbs w')). same_id x y \<and> x_State y = to"
      using advance_step(2) [OF m d(1,3,4)] st d mv by metis
    then have "knows mp (x\<lparr>x_State := to\<rparr>) (w_dbs w')" by (auto simp: knows_def same_id_def)
    then show ?thesis using a(2) by (simp add: proc_def)
  qed
  show "\<exists>y \<in> set (transfers (w_dbs w')). same_id x y \<and> x_State y \<noteq> from" if r: "r = Inr ()" and mv: "\<not> moved"
  proof -
    obtain dbs d1 where d: "tcc_inv mp dbs" "tcc_rel mp (w_dbs w) dbs" "knows mp x dbs"
      "Advance now (x_ID x) from to s (dbs ! Global) = (moved, Inr d1)" "w_dbs w' = dbs[Global := d1]" using a(3) [OF r] by blast
    then show ?thesis using advance_step(3) [OF m d(1,3,4)] st mv by metis
  qed
qed

section \<open>Whole runs\<close>

lemma tcc_rel_inv: "tcc_rel mp dbs dbs' \<Longrightarrow> tcc_inv mp dbs \<Longrightarrow> tcc_inv mp dbs'"
  by (simp add: tcc_rel_def)

lemma knows_member: "y \<in> set (transfers dbs) \<Longrightarrow> knows mp y dbs"
  unfolding knows_def by (intro bexI [of _ y]) simp_all

lemma proc_later:
  assumes "proc mp x w" "tcc_rel mp (w_dbs w) (w_dbs w')" "sched_ok (tcc_rel mp) w'"
  shows "proc mp x w'"
  using assms knows_stable(1) [of mp "w_dbs w" "w_dbs w'" x] by (auto simp: proc_def tcc_rel_def)

lemma hold_later:
  assumes "proc mp x w" "tcc_rel mp (w_dbs w) dbs"
  shows "hold_of mp (w_dbs w) x role \<noteq> None \<Longrightarrow> hold_of mp dbs x role \<noteq> None"
    "hold_of mp (w_dbs w) x role = Some ReservationConfirmed \<Longrightarrow> hold_of mp dbs x role = Some ReservationConfirmed"
  using assms knows_stable(2,3) [of mp "w_dbs w" dbs x role] by (auto simp: proc_def)

lemma try_loop_run:
  assumes m: "good_mapping (co_mapping co)" and "proc (co_mapping co) x w" "try_loop co x roles w = (r, w')"
  shows "tcc_rel (co_mapping co) (w_dbs w) (w_dbs w') \<and> proc (co_mapping co) x w'
    \<and> (r = Inr () \<longrightarrow> (\<forall>role \<in> set roles. hold_of (co_mapping co) (w_dbs w') x role \<noteq> None))"
  using assms(2,3)
proof (induction roles arbitrary: w)
  case Nil
  then show ?case using tcc.R_refl by auto
next
  case (Cons role roles)
  obtain u r1 w1 where t: "Router_WithTx (co_mapping co) (side_key x role) (try_body x role) () w = (u, r1, w1)" by (metis surj_pair)
  note a = try_access [OF m Cons.prems(1) t]
  show ?case
  proof (cases r1)
    case (Inl e)
    then have "r = Inl e" "w' = snd (snd (tx_at Global (attempt_body (x_ID x) e) () w1))" using Cons.prems(2) t by auto
    then show ?thesis using attempt_access [OF m a(2), of w' "x_ID x" e] tcc.R_trans [OF a(1)] by simp
  next
    case (Inr v)
    then have l: "try_loop co x roles w1 = (r, w')" using Cons.prems(2) t by simp
    note ih = Cons.IH [OF a(2) l]
    have "hold_of (co_mapping co) (w_dbs w') x role \<noteq> None" using hold_later(1) [OF a(2)] ih a(3) Inr by simp
    then show ?thesis using ih tcc.R_trans [OF a(1)] by simp
  qed
qed

lemma confirm_loop_run:
  assumes m: "good_mapping (co_mapping co)" and past: "PastCommitPoint (x_State x)"
    and "proc (co_mapping co) x w" "confirm_loop co now x roles w = (r, w')"
  shows "tcc_rel (co_mapping co) (w_dbs w) (w_dbs w') \<and> proc (co_mapping co) x w'
    \<and> (r = Inr () \<longrightarrow> (\<forall>role \<in> set roles. hold_of (co_mapping co) (w_dbs w') x role = Some ReservationConfirmed))"
  using assms(3,4)
proof (induction roles arbitrary: w)
  case Nil
  then show ?case using tcc.R_refl by auto
next
  case (Cons role roles)
  obtain u r1 w1 where t: "Router_WithTx (co_mapping co) (side_key x role) (confirm_body co now x role) () w = (u, r1, w1)" by (metis surj_pair)
  note a = confirm_access [OF m Cons.prems(1) past t]
  show ?case
  proof (cases r1)
    case (Inl e)
    then have "r = Inl e" "w' = snd (snd (tx_at Global (attempt_body (x_ID x) e) () w1))" using Cons.prems(2) t by auto
    then show ?thesis using attempt_access [OF m a(2), of w' "x_ID x" e] tcc.R_trans [OF a(1)] by simp
  next
    case (Inr v)
    then have l: "confirm_loop co now x roles w1 = (r, w')" using Cons.prems(2) t by simp
    note ih = Cons.IH [OF a(2) l]
    have "hold_of (co_mapping co) (w_dbs w') x role = Some ReservationConfirmed" using hold_later(2) [OF a(2)] ih a(3) Inr by simp
    then show ?thesis using ih tcc.R_trans [OF a(1)] by simp
  qed
qed

lemma cancel_loop_run:
  assumes m: "good_mapping (co_mapping co)" and ab: "Abandoned (x_State x)"
    and "proc (co_mapping co) x w" "cancel_loop co x roles w = (r, w')"
  shows "tcc_rel (co_mapping co) (w_dbs w) (w_dbs w') \<and> proc (co_mapping co) x w'"
  using assms(3,4)
proof (induction roles arbitrary: w)
  case Nil
  then show ?case using tcc.R_refl by auto
next
  case (Cons role roles)
  obtain u r1 w1 where t: "Router_WithTx (co_mapping co) (side_key x role) (cancel_body (x_ID x) role) () w = (u, r1, w1)" by (metis surj_pair)
  note a = cancel_access [OF m Cons.prems(1) ab t]
  show ?case
  proof (cases r1)
    case (Inl e)
    then show ?thesis using a Cons.prems(2) t by auto
  next
    case (Inr v)
    then have "cancel_loop co x roles w1 = (r, w')" using Cons.prems(2) t by simp
    then show ?thesis using Cons.IH [OF a(2)] tcc.R_trans [OF a(1)] by blast
  qed
qed

lemma role_cases: "role \<in> set sides"
  by (cases role) (simp_all add: sides_def)

lemma confirmed_holds:
  assumes "proc mp x w" "x_State x = StateConfirmed"
  shows "hold_of mp (w_dbs w) x role = Some ReservationConfirmed"
proof -
  obtain y where y: "y \<in> set (transfers (w_dbs w))" "same_id x y" "x_State y = StateConfirmed" using assms by (auto simp: proc_def knows_def)
  have "view_ok (tview mp (w_dbs w) y)" using reachable_ok tcc_invD(5) y(1) assms(1) by (auto simp: proc_def)
  then show ?thesis using y same_id_sides(4) [OF y(2)] by (simp add: view_ok_def tview_def)
qed

lemma confirm_run:
  assumes m: "good_mapping (co_mapping co)" and past: "PastCommitPoint (x_State x)" and pr: "proc (co_mapping co) x w"
    and c: "coord_confirm co now x w = (out, w')"
  shows "tcc_rel (co_mapping co) (w_dbs w) (w_dbs w') \<and> proc (co_mapping co) x w'
    \<and> (snd out = None \<longrightarrow> (\<forall>role. hold_of (co_mapping co) (w_dbs w') x role = Some ReservationConfirmed))
    \<and> (\<exists>z. fst out = Some z \<and> same_id x z)"
proof -
  obtain r1 w1 where l: "confirm_loop co now x sides w = (r1, w1)" by (metis surj_pair)
  note a = confirm_loop_run [OF m past pr l]
  show ?thesis
  proof (cases r1)
    case (Inl e)
    then show ?thesis using a c l by (auto simp: coord_confirm_def)
  next
    case (Inr v)
    then have both: "hold_of (co_mapping co) (w_dbs w1) x role = Some ReservationConfirmed" for role using a role_cases by simp
    obtain mv r2 w2 where t: "tx_at Global (Advance now (x_ID x) StateConfirming StateConfirmed) False w1 = (mv, r2, w2)" by (metis surj_pair)
    have st: "\<forall>dbs y. tcc_inv (co_mapping co) dbs \<longrightarrow> tcc_rel (co_mapping co) (w_dbs w1) dbs \<longrightarrow> y \<in> set (transfers dbs) \<longrightarrow> same_id x y \<longrightarrow> x_State y = StateConfirming
      \<longrightarrow> tcc_step (tview (co_mapping co) dbs y) ((tview (co_mapping co) dbs y)\<lparr>v_state := StateConfirmed\<rparr>)"
      using hold_later(2) [OF conjunct1 [OF conjunct2 [OF a]]] both same_id_sides(4)
      by (intro allI impI tcc_step.close) (simp_all add: tview_def)
    note b = advance_access [OF m conjunct1 [OF conjunct2 [OF a]] t st]
    have h: "hold_of (co_mapping co) (w_dbs w2) x role = Some ReservationConfirmed" for role
      using hold_later(2) [OF conjunct1 [OF conjunct2 [OF a]] b(1) both] .
    have o: "w' = w2" "\<exists>z. fst out = Some z \<and> same_id x z"
      using c l Inr t by (auto simp: coord_confirm_def same_id_def split: sum.splits)
    then show ?thesis using a b(1,2) h tcc.R_trans by blast
  qed
qed

lemma release_run:
  assumes m: "good_mapping (co_mapping co)" and ab: "Abandoned (x_State x)" and pr: "proc (co_mapping co) x w"
    and c: "release co now x w = (x', r, w')"
  shows "tcc_rel (co_mapping co) (w_dbs w) (w_dbs w') \<and> proc (co_mapping co) x w' \<and> same_id x x' \<and> x_State x' \<noteq> StateConfirmed"
proof -
  obtain r1 w1 where l: "cancel_loop co x sides w = (r1, w1)" by (metis surj_pair)
  note a = cancel_loop_run [OF m ab pr l]
  have ns: "x_State x \<noteq> StateConfirmed" using ab by (auto simp: Abandoned_def)
  show ?thesis
  proof (cases r1)
    case (Inl e)
    then show ?thesis using a c l ns by (auto simp: release_def)
  next
    case (Inr v)
    obtain mv r2 w2 where t: "tx_at Global (Advance now (x_ID x) StateCancelling StateTccCancelled) False w1 = (mv, r2, w2)" by (metis surj_pair)
    have st: "\<forall>dbs y. tcc_inv (co_mapping co) dbs \<longrightarrow> tcc_rel (co_mapping co) (w_dbs w1) dbs \<longrightarrow> y \<in> set (transfers dbs) \<longrightarrow> same_id x y \<longrightarrow> x_State y = StateCancelling
      \<longrightarrow> tcc_step (tview (co_mapping co) dbs y) ((tview (co_mapping co) dbs y)\<lparr>v_state := StateTccCancelled\<rparr>)"
      by (intro allI impI tcc_step.abort) (simp add: tview_def)
    note b = advance_access [OF m conjunct2 [OF a] t st]
    have o: "w' = w2" "same_id x x'" "x_State x' \<noteq> StateConfirmed"
      using c l Inr t ns by (auto simp: release_def same_id_def split: sum.splits)
    then show ?thesis using a b(1,2) tcc.R_trans by blast
  qed
qed

lemma reload_run:
  assumes "sched_ok (tcc_rel mp) w" "tcc_inv mp (w_dbs w)" "query_at Global q w = (r, w')"
    and q: "\<And>d y. q d = Inr y \<Longrightarrow> y \<in> set (db_transfers d)"
  shows "tcc_rel mp (w_dbs w) (w_dbs w')" "sched_ok (tcc_rel mp) w'" "r = Inr y \<Longrightarrow> y \<in> set (transfers (w_dbs w')) \<and> proc mp y w'"
proof -
  note a = tcc.query_at_rel [OF assms(1,3)]
  show "tcc_rel mp (w_dbs w) (w_dbs w')" "sched_ok (tcc_rel mp) w'" by (rule a(1), rule a(2))
  assume "r = Inr y"
  then have y: "y \<in> set (transfers (w_dbs w'))" using a(3) q by blast
  then show "y \<in> set (transfers (w_dbs w')) \<and> proc mp y w'" using a(1,2) assms(2) knows_member by (auto simp: proc_def tcc_rel_def)
qed

lemma scanTransfer_Inr: "scanTransfer r = Inr y \<Longrightarrow> r = Some y"
  by (auto simp: scanTransfer_def err_simps Money_New_def split: option.splits)

lemma Tcc_Get_Inr: "Tcc_Get i d = Inr y \<Longrightarrow> y \<in> set (db_transfers d) \<and> x_ID y = i"
  by (auto simp: Tcc_Get_def not_found_def transfer_row_def split: sum.splits dest!: scanTransfer_Inr tfind_SomeD)

lemma GetByIdempotencyKey_Inr: "GetByIdempotencyKey k d = Inr y \<Longrightarrow> y \<in> set (db_transfers d) \<and> x_IdempotencyKey y = k"
  by (auto simp: GetByIdempotencyKey_def not_found_def split: sum.splits dest!: scanTransfer_Inr tfind_SomeD)

lemma cancel_run:
  assumes m: "good_mapping (co_mapping co)" and st0: "x_State x = StateTrying \<or> x_State x = StateCancelling" and pr: "proc (co_mapping co) x w"
    and c: "coord_cancel co now x w = (x', r, w')"
  shows "tcc_rel (co_mapping co) (w_dbs w) (w_dbs w') \<and> proc (co_mapping co) x w' \<and> same_id x x' \<and> x_State x' \<noteq> StateConfirmed"
proof (cases "x_State x = StateTrying")
  case False
  then show ?thesis using release_run [OF m _ pr] c st0 by (simp add: coord_cancel_def Abandoned_def)
next
  case True
  let ?x = "x\<lparr>x_State := StateCancelling\<rparr>"
  have sx: "same_id x ?x" "Abandoned (x_State ?x)" by (simp_all add: same_id_def Abandoned_def)
  obtain mv r1 w1 where t: "tx_at Global (Advance now (x_ID x) StateTrying StateCancelling) False w = (mv, r1, w1)" by (metis surj_pair)
  have st: "\<forall>dbs y. tcc_inv (co_mapping co) dbs \<longrightarrow> tcc_rel (co_mapping co) (w_dbs w) dbs \<longrightarrow> y \<in> set (transfers dbs) \<longrightarrow> same_id x y \<longrightarrow> x_State y = StateTrying
      \<longrightarrow> tcc_step (tview (co_mapping co) dbs y) ((tview (co_mapping co) dbs y)\<lparr>v_state := StateCancelling\<rparr>)"
    by (intro allI impI tcc_step.abandon) (simp add: tview_def)
  note a = advance_access [OF m pr t st]
  have fin: ?thesis if rel: "release co now ?x w2 = (x', r, w')" and p2: "proc (co_mapping co) ?x w2" and R2: "tcc_rel (co_mapping co) (w_dbs w) (w_dbs w2)" for w2
  proof -
    note z = release_run [OF m sx(2) p2 rel]
    have R: "tcc_rel (co_mapping co) (w_dbs w) (w_dbs w')" using tcc.R_trans [OF R2] z by blast
    then have "proc (co_mapping co) x w'" using proc_later [OF pr R] z by (simp add: proc_def)
    then show ?thesis using R z same_id_trans [OF sx(1)] by blast
  qed
  consider (err) e where "r1 = Inl e" | (moved) "r1 = Inr ()" mv | (lost) "r1 = Inr ()" "\<not> mv" by (cases r1) auto
  then show ?thesis
  proof cases
    case err
    then show ?thesis using c t True a(1,2) by (auto simp: coord_cancel_def)
  next
    case moved
    then show ?thesis using fin [of w1] c t True a(1,3) by (simp add: coord_cancel_def)
  next
    case lost
    obtain y where y: "y \<in> set (transfers (w_dbs w1))" "same_id x y" "x_State y \<noteq> StateTrying" using a(4) [OF lost] by blast
    have p1: "sched_ok (tcc_rel (co_mapping co)) w1" "tcc_inv (co_mapping co) (w_dbs w1)" using a(2) by (auto simp: proc_def)
    obtain q w2 where rl: "reload (x_ID x) w1 = (q, w2)" by (metis surj_pair)
    note b = reload_run [OF p1 rl [unfolded reload_def]]
    have R2: "tcc_rel (co_mapping co) (w_dbs w) (w_dbs w2)" using tcc.R_trans [OF a(1) b(1)] Tcc_Get_Inr by blast
    have px: "proc (co_mapping co) x w2" using proc_later [OF pr R2] b(2) Tcc_Get_Inr by blast
    show ?thesis
    proof (cases "\<exists>cur. q = Inr cur \<and> \<not> PastCommitPoint (x_State cur)")
      case False
      then have "w' = w2 \<and> x' = x" using c t True lost rl by (auto simp: coord_cancel_def split: sum.splits if_splits)
      then show ?thesis using R2 px True by simp
    next
      case cur: True
      then obtain cur where cur: "q = Inr cur" "\<not> PastCommitPoint (x_State cur)" by blast
      have cm: "cur \<in> set (transfers (w_dbs w2))" "x_ID cur = x_ID x"
        using b(3) [of cur] cur(1) Tcc_Get_Inr tcc.query_at_rel(3) [OF p1(1) rl [unfolded reload_def]] by blast+
      obtain z where z: "z \<in> set (transfers (w_dbs w2))" "same_id y z"
        "tcc_step\<^sup>*\<^sup>* (tview (co_mapping co) (w_dbs w1) y) (tview (co_mapping co) (w_dbs w2) z)"
        using b(1) p1(2) y(1) Tcc_Get_Inr unfolding tcc_rel_def by blast
      have inv2: "tcc_inv (co_mapping co) (w_dbs w2)" using px by (simp add: proc_def)
      have xz: "same_id x z" using same_id_trans [OF y(2) z(2)] .
      have "cur = z" using transfer_unique [OF inv2 cm(1) z(1)] cm(2) xz by (simp add: same_id_def)
      then have "Abandoned (x_State z)"
        using tcc_steps_stable [OF z(3)] cur(2) y(3) by (cases "x_State y") (auto simp: tview_def PastCommitPoint_def Abandoned_def)
      then have "knows (co_mapping co) ?x (w_dbs w2)"
        unfolding knows_def using z(1) xz by (intro bexI [of _ z]) (auto simp: same_id_def PastCommitPoint_def)
      then have "proc (co_mapping co) ?x w2" using px by (simp add: proc_def)
      moreover have "release co now ?x w2 = (x', r, w')" using c t True lost rl cur by (simp add: coord_cancel_def)
      ultimately show ?thesis using fin R2 by blast
    qed
  qed
qed

text \<open>What every run leaves behind: the relation, a well-behaved world, and a true report.\<close>

definition honest :: "Mapping \<Rightarrow> world \<Rightarrow> tcc_outcome \<Rightarrow> world \<Rightarrow> bool" where
  "honest mp w out w' \<longleftrightarrow> tcc_rel mp (w_dbs w) (w_dbs w') \<and> sched_ok (tcc_rel mp) w' \<and> tcc_inv mp (w_dbs w')
     \<and> (\<forall>z. out = (Some z, None) \<longrightarrow> x_State z = StateConfirmed \<longrightarrow> (\<forall>role. hold_of mp (w_dbs w') z role = Some ReservationConfirmed))"

lemma honest_quiet:
  assumes "proc mp x w'" "tcc_rel mp (w_dbs w) (w_dbs w')" "\<forall>z. out = (Some z, None) \<longrightarrow> x_State z = StateConfirmed \<longrightarrow>
    (\<forall>role. hold_of mp (w_dbs w') z role = Some ReservationConfirmed)"
  shows "honest mp w out w'"
  using assms by (simp add: honest_def proc_def)

lemma commit_enabled:
  assumes inv: "tcc_inv mp dbs" and y: "y \<in> set (transfers dbs)" "x_State y = StateTrying" and h: "\<And>role. hold_of mp dbs y role \<noteq> None"
  shows "tcc_step (tview mp dbs y) ((tview mp dbs y)\<lparr>v_state := StateConfirming\<rparr>)"
proof (rule tcc_step.commit)
  have "view_ok (tview mp dbs y)" using reachable_ok tcc_invD(5) [OF inv y(1)] by blast
  then show "\<forall>role. v_hold (tview mp dbs y) role = Some ReservationReserved" using h y(2) by (auto simp: view_ok_def tview_def)
qed (simp add: tview_def y(2))

lemma Resume_run:
  assumes m: "good_mapping (co_mapping co)" and pr: "proc (co_mapping co) x w" and c: "Resume co now x w = (out, w')"
  shows "honest (co_mapping co) w out w'"
proof (cases "x_State x")
  case StateTrying
  obtain r1 w1 where l: "try_loop co x sides w = (r1, w1)" by (metis surj_pair)
  note a = try_loop_run [OF m pr l]
  show ?thesis
  proof (cases r1)
    case (Inl e)
    obtain x' r2 w2 where k: "coord_cancel co now x w1 = (x', r2, w2)" by (metis surj_pair)
    have "proc (co_mapping co) x w1" using a by blast
    note b = cancel_run [OF m disjI1 [OF StateTrying] this k]
    have "out = (Some x', Some e)" "w' = w2" using c StateTrying l Inl k by (auto simp: Resume_def coord_try_def)
    then show ?thesis using a b by (intro honest_quiet [of _ x]) (auto intro: tcc.R_trans)
  next
    case (Inr v)
    have p1: "proc (co_mapping co) x w1" and R1: "tcc_rel (co_mapping co) (w_dbs w) (w_dbs w1)"
      and both: "hold_of (co_mapping co) (w_dbs w1) x role \<noteq> None" for role using a Inr role_cases by simp_all
    obtain mv r2 w2 where t: "tx_at Global (Advance now (x_ID x) StateTrying StateConfirming) False w1 = (mv, r2, w2)" by (metis surj_pair)
    have st: "\<forall>dbs y. tcc_inv (co_mapping co) dbs \<longrightarrow> tcc_rel (co_mapping co) (w_dbs w1) dbs \<longrightarrow> y \<in> set (transfers dbs) \<longrightarrow> same_id x y \<longrightarrow> x_State y = StateTrying
      \<longrightarrow> tcc_step (tview (co_mapping co) dbs y) ((tview (co_mapping co) dbs y)\<lparr>v_state := StateConfirming\<rparr>)"
      using hold_later(1) [OF p1 _ both] same_id_sides(4) by (intro allI impI commit_enabled) simp_all
    note b = advance_access [OF m p1 t st]
    have R2: "tcc_rel (co_mapping co) (w_dbs w) (w_dbs w2)" using tcc.R_trans [OF R1 b(1)] .
    consider (err) e where "r2 = Inl e" | (moved) "r2 = Inr ()" mv | (lost) "r2 = Inr ()" "\<not> mv" by (cases r2) auto
    then show ?thesis
    proof cases
      case err
      then have "out = (Some x, Some e)" "w' = w2" using c StateTrying l Inr t by (auto simp: Resume_def coord_try_def)
      then show ?thesis using b(2) R2 by (intro honest_quiet [of _ x]) auto
    next
      case moved
      let ?x = "x\<lparr>x_State := StateConfirming\<rparr>"
      have k: "coord_confirm co now ?x w2 = (out, w')" using c StateTrying l Inr t moved by (simp add: Resume_def coord_try_def)
      have "PastCommitPoint (x_State ?x)" by (simp add: PastCommitPoint_def)
      note z = confirm_run [OF m this b(3) [OF moved] k]
      then obtain q where q: "fst out = Some q" "same_id ?x q" by blast
      show ?thesis
        using z q tcc.R_trans [OF R2] same_id_sides(4) [OF q(2)] by (intro honest_quiet [of _ ?x]) auto
    next
      case lost
      have p2: "sched_ok (tcc_rel (co_mapping co)) w2" "tcc_inv (co_mapping co) (w_dbs w2)" using b(2) by (auto simp: proc_def)
      obtain q w3 where rl: "reload (x_ID x) w2 = (q, w3)" by (metis surj_pair)
      note d = reload_run [OF p2 rl [unfolded reload_def]]
      have R3: "tcc_rel (co_mapping co) (w_dbs w) (w_dbs w3)" using tcc.R_trans [OF R2 d(1)] Tcc_Get_Inr by blast
      have px: "proc (co_mapping co) x w3" using proc_later [OF pr R3] d(2) Tcc_Get_Inr by blast
      have o: "w' = w3" "\<And>z. out = (Some z, None) \<Longrightarrow> q = Inr z"
        using c StateTrying l Inr t lost rl by (auto simp: Resume_def coord_try_def split: sum.splits)
      have "proc (co_mapping co) z w3" if "out = (Some z, None)" for z using d(3) o(2) [OF that] Tcc_Get_Inr by blast
      then show ?thesis using px R3 o(1) confirmed_holds by (intro honest_quiet [of _ x]) blast+
    qed
  qed
next
  case StateConfirming
  then have k: "coord_confirm co now x w = (out, w')" and p: "PastCommitPoint (x_State x)" using c by (simp_all add: Resume_def PastCommitPoint_def)
  note z = confirm_run [OF m p pr k]
  then obtain q where q: "fst out = Some q" "same_id x q" by blast
  then show ?thesis using z same_id_sides(4) [OF q(2)] by (intro honest_quiet [of _ x]) auto
next
  case StateCancelling
  obtain x' r1 w1 where k: "coord_cancel co now x w = (x', r1, w1)" by (metis surj_pair)
  note b = cancel_run [OF m disjI2 [OF StateCancelling] pr k]
  have "fst out = Some x'" "w' = w1" using c StateCancelling k by (auto simp: Resume_def split: sum.splits)
  then show ?thesis using b by (intro honest_quiet [of _ x]) auto
next
  case StateConfirmed
  then have "out = (Some x, None)" "w' = w" using c by (simp_all add: Resume_def)
  then show ?thesis using confirmed_holds [OF pr StateConfirmed] pr tcc.R_refl by (intro honest_quiet [of _ x]) auto
next
  case StateTccCancelled
  then have "out = (Some x, None)" "w' = w" using c by (simp_all add: Resume_def)
  then show ?thesis using pr tcc.R_refl StateTccCancelled by (intro honest_quiet [of _ x]) auto
qed

lemma Create_run:
  assumes m: "good_mapping mp" and so: "sched_ok (tcc_rel mp) w" and inv: "tcc_inv mp (w_dbs w)" and wf: "wf_transfer x"
    and c: "Tcc_Create now x w = (r, w')"
  shows "tcc_rel mp (w_dbs w) (w_dbs w')" "sched_ok (tcc_rel mp) w'" "r = Inr y \<Longrightarrow> proc mp y w'"
proof -
  obtain s r1 w1 where t: "tx_at Global (insert_transfer now x) None w = (s, r1, w1)" by (metis surj_pair)
  have ins: "tcc_rel mp dbs (dbs[Global := d1]) \<and> (s1 = None \<or> (\<exists>y. s1 = Some y \<and> y \<in> set (db_transfers d1)))"
    if i: "tcc_inv mp dbs" and b: "insert_transfer now x None (dbs ! Global) = (s1, Inr d1)" for dbs s1 d1
  proof -
    define row where "row = x\<lparr>x_State := StateTrying, x_Attempts := 0, x_LastError := None, x_CreatedAt := now, x_ResolvedAt := None\<rparr>"
    have rw: "wf_transfer row" "x_State row = StateTrying" "x_ID row = x_ID x" "x_IdempotencyKey row = x_IdempotencyKey x"
      using wf by (simp_all add: row_def wf_transfer_def)
    consider "s1 = None" "d1 = dbs ! Global"
      | "s1 = Some row" "d1 = (dbs ! Global)\<lparr>db_transfers := transfers dbs @ [row]\<rparr>" "\<forall>y \<in> set (transfers dbs). x_ID y \<noteq> x_ID x"
        "\<forall>y \<in> set (transfers dbs). x_IdempotencyKey y \<noteq> x_IdempotencyKey x"
      using b unfolding insert_transfer_def row_def by (auto simp: Let_def list_ex_iff split: if_splits)
    then show ?thesis
    proof cases
      case 1
      then show ?thesis using tcc.R_refl by simp
    next
      case 2
      have "x_ID row \<notin> x_ID ` set (transfers dbs)" "x_IdempotencyKey row \<notin> x_IdempotencyKey ` set (transfers dbs)"
        using 2(3,4) rw(3,4) by (metis imageE)+
      then show ?thesis using transfers_append [OF m i rw(1,2)] 2 by simp
    qed
  qed
  have st: "\<forall>dbs s1 d1. tcc_rel mp (w_dbs w) dbs \<longrightarrow> Global < length dbs \<longrightarrow> insert_transfer now x None (dbs ! Global) = (s1, Inr d1)
      \<longrightarrow> commit_check (dbs ! Global) d1 = Inr () \<longrightarrow> tcc_rel mp dbs (dbs[Global := d1])"
    using ins tcc_rel_inv [OF _ inv] by blast
  note a = tcc.tx_at_rel [OF so t st]
  have i1: "tcc_inv mp (w_dbs w1)" using a(1) inv by (simp add: tcc_rel_def)
  have new: "s = None \<or> (\<exists>y. s = Some y \<and> y \<in> set (transfers (w_dbs w1)))" if ok: "r1 = Inr ()"
  proof -
    obtain dbs d1 where d: "tcc_rel mp (w_dbs w) dbs" "Global < length dbs" "insert_transfer now x None (dbs ! Global) = (s, Inr d1)"
      "w_dbs w1 = dbs[Global := d1]" using a(3) [OF ok] by blast
    then show ?thesis using ins [of dbs s d1] tcc_rel_inv [OF d(1) inv] by simp
  qed
  have "tcc_rel mp (w_dbs w) (w_dbs w') \<and> sched_ok (tcc_rel mp) w' \<and> (\<forall>y. r = Inr y \<longrightarrow> proc mp y w')"
  proof (cases "r1 = Inr () \<and> s = None")
    case True
    then have q: "query_at Global (GetByIdempotencyKey (x_IdempotencyKey x)) w1 = (r, w')"
      using c t by (simp add: Tcc_Create_def scanTransfer_def)
    note b = reload_run [OF a(2) i1 q]
    show ?thesis using b GetByIdempotencyKey_Inr tcc.R_trans [OF a(1)] by blast
  next
    case False
    have o: "w' = w1 \<and> (\<forall>y. r = Inr y \<longrightarrow> r1 = Inr () \<and> s = Some y)"
    proof (cases "r1 = Inr ()")
      case True
      then obtain y0 where s: "s = Some y0" using False by (cases s) auto
      have "scanTransfer s \<noteq> Inl ErrNoRows" unfolding s by (auto simp: scanTransfer_def err_simps Money_New_def Currency_Validate_eq split: if_splits)
      then show ?thesis using c t True scanTransfer_Inr [of s] by (auto simp: Tcc_Create_def split: sum.splits)
    next
      case False
      then obtain e where "r1 = Inl e" by (cases r1) auto
      then show ?thesis using c t by (auto simp: Tcc_Create_def)
    qed
    have "proc mp y w1" if y: "r = Inr y" for y
    proof -
      have "y \<in> set (transfers (w_dbs w1))" using new o y by auto
      then show ?thesis using a(2) i1 knows_member by (simp add: proc_def)
    qed
    then show ?thesis using a(1,2) o by blast
  qed
  then show "tcc_rel mp (w_dbs w) (w_dbs w')" "sched_ok (tcc_rel mp) w'" "r = Inr y \<Longrightarrow> proc mp y w'" by blast+
qed

lemma Transfer_run:
  assumes m: "good_mapping (co_mapping co)" and so: "sched_ok (tcc_rel (co_mapping co)) w" and inv: "tcc_inv (co_mapping co) (w_dbs w)"
    and c: "Coordinator_Transfer co newID now inp w = (out, w')"
  shows "honest (co_mapping co) w out w'"
proof (cases "ti_SourceMerchant inp \<noteq> ti_DestMerchant inp \<and> is_ok (Currency_Validate (m_currency (ti_Amount inp))) \<and> IsPositive (ti_Amount inp)")
  case False
  then have "w' = w" "fst out = None" using c by (auto simp: Coordinator_Transfer_def is_ok_def split: if_splits sum.splits)
  then show ?thesis using so inv tcc.R_refl by (auto simp: honest_def)
next
  case True
  define x where "x = \<lparr>x_ID = newID, x_State = StateTrying, x_SourceMerchant = ti_SourceMerchant inp,
      x_SourceShardKey = KeyForMerchant (ti_SourceMerchant inp), x_DestMerchant = ti_DestMerchant inp,
      x_DestShardKey = KeyForMerchant (ti_DestMerchant inp), x_Amount = ti_Amount inp,
      x_IdempotencyKey = ti_IdempotencyKey inp, x_TimeoutAt = now + HoldTTL (co_cfg co),
      x_Attempts = 0, x_LastError = None, x_CreatedAt = now, x_ResolvedAt = None\<rparr>"
  have wf: "wf_transfer x" using True by (auto simp: x_def wf_transfer_def is_ok_iff Currency_Validate_eq IsPositive_def split: if_splits)
  obtain r1 w1 where cr: "Tcc_Create now x w = (r1, w1)" by (metis surj_pair)
  note a = Create_run [OF m so inv wf cr]
  have run: "(case r1 of Inl e \<Rightarrow> ((None, Some e), w1) | Inr created \<Rightarrow> Resume co now created w1) = (out, w')"
    using c True cr unfolding Coordinator_Transfer_def x_def [symmetric] Let_def by (auto simp: is_ok_iff split: sum.splits)
  show ?thesis
  proof (cases r1)
    case (Inl e)
    then have "w' = w1" "fst out = None" using run by auto
    then show ?thesis using a(1,2) tcc_rel_inv [OF a(1) inv] by (auto simp: honest_def)
  next
    case (Inr y)
    then have "Resume co now y w1 = (out, w')" using run by simp
    then have "honest (co_mapping co) w1 out w'" using Resume_run [OF m a(3) [OF Inr]] by blast
    then show ?thesis using tcc.R_trans [OF a(1)] by (simp add: honest_def)
  qed
qed

lemma scan_all_Inr: "scan_all xs = Inr ys \<Longrightarrow> ys = xs"
  by (induction xs arbitrary: ys) (auto simp: err_simps dest!: scanTransfer_Inr)

lemma extend_all_step:
  assumes m: "good_mapping mp"
  shows "tcc_inv mp dbs \<Longrightarrow> tcc_rel mp dbs (dbs[Global := extend_all now dur xs (dbs ! Global)])"
proof (induction xs arbitrary: dbs)
  case Nil
  then show ?case using tcc.R_refl by simp
next
  case (Cons x xs)
  have len: "Global < length dbs" using tcc_invD(1) [OF Cons.prems] physical_pos [OF m] by (simp add: Global_def)
  define d1 where "d1 = ExtendDeadline now (x_ID x) dur (dbs ! Global)"
  have 1: "tcc_rel mp dbs (dbs[Global := d1])"
    using bookkeeping_step [OF m Cons.prems, of "\<lambda>y. y\<lparr>x_TimeoutAt := now + go_quot dur 1000000 * 1000000\<rparr>"]
    by (simp add: d1_def ExtendDeadline_def same_id_def)
  have "tcc_rel mp (dbs[Global := d1]) ((dbs[Global := d1])[Global := extend_all now dur xs d1])"
    using Cons.IH [OF tcc_rel_inv [OF 1 Cons.prems]] len by simp
  then show ?case using tcc.R_trans [OF 1] by (simp add: d1_def)
qed

lemma resolve_run:
  assumes m: "good_mapping (co_mapping co)" and pr: "proc (co_mapping co) x w" and c: "Sweeper_resolve co now x w = (r, w')"
  shows "tcc_rel (co_mapping co) (w_dbs w) (w_dbs w') \<and> sched_ok (tcc_rel (co_mapping co)) w'"
proof -
  consider (past) "PastCommitPoint (x_State x)" | (pending) "x_State x = StateTrying \<or> x_State x = StateCancelling" | (finished) "x_State x = StateTccCancelled"
    by (cases "x_State x") (auto simp: PastCommitPoint_def)
  then show ?thesis
  proof cases
    case past
    obtain out w1 where "Resume co now x w = (out, w1)" by (metis surj_pair)
    then show ?thesis using Resume_run [OF m pr] c past by (auto simp: Sweeper_resolve_def honest_def split: prod.splits)
  next
    case pending
    obtain x' r1 w1 where "coord_cancel co now x w = (x', r1, w1)" by (metis surj_pair)
    moreover have "\<not> PastCommitPoint (x_State x)" using pending by (auto simp: PastCommitPoint_def)
    ultimately show ?thesis using cancel_run [OF m pending pr] c pending by (auto simp: Sweeper_resolve_def proc_def)
  next
    case finished
    then show ?thesis using c pr tcc.R_refl by (auto simp: Sweeper_resolve_def PastCommitPoint_def proc_def)
  qed
qed

lemma resolve_all_run:
  assumes m: "good_mapping (co_mapping co)"
  shows "sched_ok (tcc_rel (co_mapping co)) w \<Longrightarrow> tcc_inv (co_mapping co) (w_dbs w) \<Longrightarrow> \<forall>x \<in> set xs. knows (co_mapping co) x (w_dbs w) \<Longrightarrow>
    resolve_all co now xs w = (n, w') \<Longrightarrow> tcc_rel (co_mapping co) (w_dbs w) (w_dbs w') \<and> sched_ok (tcc_rel (co_mapping co)) w'"
proof (induction xs arbitrary: w n)
  case Nil
  then show ?case using tcc.R_refl by simp
next
  case (Cons x xs)
  obtain r1 w1 where r: "Sweeper_resolve co now x w = (r1, w1)" by (metis surj_pair)
  obtain n2 w2 where l: "resolve_all co now xs w1 = (n2, w2)" by (metis surj_pair)
  have a: "tcc_rel (co_mapping co) (w_dbs w) (w_dbs w1)" "sched_ok (tcc_rel (co_mapping co)) w1"
    using resolve_run [OF m _ r] Cons.prems(1-3) by (simp_all add: proc_def)
  have "\<forall>y \<in> set xs. knows (co_mapping co) y (w_dbs w1)" using knows_stable(1) [OF Cons.prems(2) a(1)] Cons.prems(3) by simp
  moreover have "w' = w2" using Cons.prems(4) r l by (auto split: if_splits)
  ultimately have "tcc_rel (co_mapping co) (w_dbs w1) (w_dbs w') \<and> sched_ok (tcc_rel (co_mapping co)) w'"
    using Cons.IH [OF a(2) tcc_rel_inv [OF a(1) Cons.prems(2)]] l by blast
  then show ?case using tcc.R_trans [OF a(1)] by blast
qed

lemma Sweep_run:
  assumes m: "good_mapping (co_mapping co)" and so: "sched_ok (tcc_rel (co_mapping co)) w" and inv: "tcc_inv (co_mapping co) (w_dbs w)"
    and c: "Sweeper_Sweep co now batchSize w = (r, w')"
  shows "tcc_rel (co_mapping co) (w_dbs w) (w_dbs w') \<and> tcc_inv (co_mapping co) (w_dbs w') \<and> sched_ok (tcc_rel (co_mapping co)) w'"
proof -
  obtain claimed r1 w1 where t: "tx_at Global (sweep_claim_body co now batchSize) [] w = (claimed, r1, w1)" by (metis surj_pair)
  have body: "d1 = extend_all now (ConfirmGrace (co_cfg co)) s1 d \<and> set s1 \<subseteq> set (db_transfers d)"
    if b: "sweep_claim_body co now batchSize s d = (s1, Inr d1)" for s s1 d d1
  proof -
    obtain xs where u: "Unresolved now batchSize d = Inr xs" "s1 = xs" "d1 = extend_all now (ConfirmGrace (co_cfg co)) xs d"
      using b by (auto simp: sweep_claim_body_def split: sum.splits)
    have "set xs \<subseteq> set (db_transfers d)"
      using scan_all_Inr [OF u(1) [unfolded Unresolved_def]] by (auto dest!: in_set_takeD)
    then show ?thesis using u by simp
  qed
  have st: "\<forall>dbs s1 d1. tcc_rel (co_mapping co) (w_dbs w) dbs \<longrightarrow> Global < length dbs \<longrightarrow> sweep_claim_body co now batchSize [] (dbs ! Global) = (s1, Inr d1)
      \<longrightarrow> commit_check (dbs ! Global) d1 = Inr () \<longrightarrow> tcc_rel (co_mapping co) dbs (dbs[Global := d1])"
    using body extend_all_step [OF m] tcc_rel_inv [OF _ inv] by blast
  note a = tcc.tx_at_rel [OF so t st]
  have "tcc_rel (co_mapping co) (w_dbs w) (w_dbs w') \<and> sched_ok (tcc_rel (co_mapping co)) w'"
  proof (cases r1)
    case (Inl e)
    then show ?thesis using a(1,2) c t by (auto simp: Sweeper_Sweep_def)
  next
    case (Inr v)
    then obtain dbs d1 where d: "tcc_rel (co_mapping co) (w_dbs w) dbs" "sweep_claim_body co now batchSize [] (dbs ! Global) = (claimed, Inr d1)"
      "w_dbs w1 = dbs[Global := d1]" using a(3) by auto
    have i: "tcc_inv (co_mapping co) dbs" by (rule tcc_rel_inv [OF d(1) inv])
    have "tcc_rel (co_mapping co) dbs (w_dbs w1)" using extend_all_step [OF m i] body [OF d(2)] d(3) by metis
    then have k: "\<forall>x \<in> set claimed. knows (co_mapping co) x (w_dbs w1)"
      using knows_stable(1) [OF i] knows_member body [OF d(2)] by blast
    obtain n w2 where "resolve_all co now claimed w1 = (n, w2)" by (metis surj_pair)
    then show ?thesis
      using resolve_all_run [OF m a(2) tcc_rel_inv [OF a(1) inv] k] tcc.R_trans [OF a(1)] c t Inr by (auto simp: Sweeper_Sweep_def)
  qed
  then show ?thesis using tcc_rel_inv [OF _ inv] by blast
qed

end
