(* ===== verification/TccClaims.thy ===== *)
theory TccClaims
  imports TccSafety StateMachine
begin

text \<open>
  The properties of cross-shard transfers, over the runs of TccSafety: the coordinator and the
  sweeper refine the protocol; both halves are in the ledgers or neither stands alone; holds are
  covered; suspense nets to zero; one mover per state.
\<close>

section \<open>Suspense across databases\<close>

definition side_suspense :: "Mapping \<Rightarrow> db list \<Rightarrow> currency \<Rightarrow> Transfer \<Rightarrow> Role \<Rightarrow> int" where
  "side_suspense mp dbs cur x role =
     (case reservation_row (x_ID x) role (dbs ! side_db mp x role) of None \<Rightarrow> 0 | Some r \<Rightarrow> through_suspense cur r)"

abbreviation roles :: "Role set" where
  "roles \<equiv> {RoleSource, RoleDestination}"

lemma all_roles: "role \<in> roles" by (cases role) simp_all

lemma suspense_of_db:
  assumes m: "good_mapping mp" and inv: "tcc_inv mp dbs" and p: "p < length dbs"
  shows "account_net (suspense_key cur) (dbs ! p) =
    (\<Sum>(x, role) \<in> set (transfers dbs) \<times> roles. if side_db mp x role = p then side_suspense mp dbs cur x role else 0)"
proof -
  let ?d = "dbs ! p"
  let ?S = "{(x, role) \<in> set (transfers dbs) \<times> roles. side_db mp x role = p \<and> reservation_row (x_ID x) role ?d \<noteq> None}"
  define h where "h = (\<lambda>(x :: Transfer, role). the (reservation_row (x_ID x) role ?d))"
  have ok: "holds_ok ?d" by (rule tcc_invD(7) [OF inv p])
  have dist: "distinct (db_reservations ?d)" using ok unfolding holds_ok_def by (meson distinct_map)
  have row: "h (x, role) \<in> set (db_reservations ?d) \<and> rv_TransferID (h (x, role)) = x_ID x \<and> rv_Role (h (x, role)) = role"
    if "(x, role) \<in> ?S" for x role
    using that reservation_row_Some [of "x_ID x" role ?d] by (auto simp: h_def)
  have inj: "inj_on h ?S"
  proof (rule inj_onI)
    fix a b assume a: "a \<in> ?S" and b: "b \<in> ?S" and e: "h a = h b"
    obtain x role y q where ab: "a = (x, role)" "b = (y, q)" by (cases a, cases b)
    have "x_ID x = x_ID y" "role = q" using row [of x role] row [of y q] a b e unfolding ab by simp_all
    then show "a = b" using transfer_unique [OF inv, of x y] a b ab by auto
  qed
  have img: "h ` ?S = set (db_reservations ?d)"
  proof
    show "h ` ?S \<subseteq> set (db_reservations ?d)" using row by auto
    show "set (db_reservations ?d) \<subseteq> h ` ?S"
    proof
      fix r assume r: "r \<in> set (db_reservations ?d)"
      then obtain x where x: "x \<in> set (transfers dbs)" "hold_matches mp p r x" using tcc_invD(8) [OF inv p] by blast
      have "reservation_row (x_ID x) (rv_Role r) ?d = Some r" using reservation_row_unique [OF ok r] x(2) by (simp add: hold_matches_def)
      then have "(x, rv_Role r) \<in> ?S" and "r = h (x, rv_Role r)" using x all_roles [of "rv_Role r"] by (simp_all add: hold_matches_def h_def)
      then show "r \<in> h ` ?S" by (rule rev_image_eqI)
    qed
  qed
  have "account_net (suspense_key cur) ?d = (\<Sum>r \<leftarrow> db_reservations ?d. through_suspense cur r)"
    using tcc_invD(6) [OF inv p] by (simp add: side_ok_def)
  also have "\<dots> = (\<Sum>r \<in> set (db_reservations ?d). through_suspense cur r)" using dist by (simp add: sum_list_distinct_conv_sum_set)
  also have "\<dots> = (\<Sum>a \<in> ?S. through_suspense cur (h a))" using sum.reindex [OF inj, of "through_suspense cur"] img by (simp add: o_def)
  also have "\<dots> = (\<Sum>a \<in> ?S. case a of (x, role) \<Rightarrow> if side_db mp x role = p then side_suspense mp dbs cur x role else 0)"
    by (intro sum.cong) (auto simp: h_def side_suspense_def)
  also have "\<dots> = (\<Sum>a \<in> set (transfers dbs) \<times> roles. case a of (x, role) \<Rightarrow> if side_db mp x role = p then side_suspense mp dbs cur x role else 0)"
    by (intro sum.mono_neutral_left) (auto simp: side_suspense_def split: option.splits if_splits)
  finally show ?thesis .
qed

lemma suspense_total:
  assumes m: "good_mapping mp" and inv: "tcc_inv mp dbs"
  shows "(\<Sum>p < length dbs. account_net (suspense_key cur) (dbs ! p)) =
    (\<Sum>x \<in> set (transfers dbs). side_suspense mp dbs cur x RoleSource + side_suspense mp dbs cur x RoleDestination)"
proof -
  have lt: "side_db mp x role < length dbs" for x role using side_db_less [OF m] tcc_invD(1) [OF inv] by simp
  have "(\<Sum>p < length dbs. account_net (suspense_key cur) (dbs ! p)) =
      (\<Sum>p < length dbs. \<Sum>(x, role) \<in> set (transfers dbs) \<times> roles. if side_db mp x role = p then side_suspense mp dbs cur x role else 0)"
    using suspense_of_db [OF m inv] by (intro sum.cong) auto
  also have "\<dots> = (\<Sum>(x, role) \<in> set (transfers dbs) \<times> roles. \<Sum>p < length dbs. if side_db mp x role = p then side_suspense mp dbs cur x role else 0)"
    by (subst sum.swap) (simp add: case_prod_unfold)
  also have "\<dots> = (\<Sum>(x, role) \<in> set (transfers dbs) \<times> roles. side_suspense mp dbs cur x role)"
    using lt by (intro sum.cong) auto
  also have "\<dots> = (\<Sum>x \<in> set (transfers dbs). \<Sum>role \<in> roles. side_suspense mp dbs cur x role)"
    by (rule sum.cartesian_product [symmetric])
  finally show ?thesis by simp
qed

lemma settled_side:
  assumes m: "good_mapping mp" and inv: "tcc_inv mp dbs" and x: "x \<in> set (transfers dbs)" "x_State x \<noteq> StateConfirming"
  shows "side_suspense mp dbs cur x RoleSource + side_suspense mp dbs cur x RoleDestination = 0"
proof -
  have v: "view_ok (tview mp dbs x)" using reachable_ok tcc_invD(5) [OF inv x(1)] by blast
  show ?thesis
  proof (cases "x_State x = StateConfirmed")
    case True
    then have "hold_of mp dbs x role = Some ReservationConfirmed" for role using v by (simp add: view_ok_def tview_def)
    then have h: "map_option rv_State (reservation_row (x_ID x) role (dbs ! side_db mp x role)) = Some ReservationConfirmed" for role
      by (simp add: hold_of_def)
    obtain rs where rs: "reservation_row (x_ID x) RoleSource (dbs ! side_db mp x RoleSource) = Some rs" "rv_State rs = ReservationConfirmed"
      using h [of RoleSource] by auto
    obtain rd where rd: "reservation_row (x_ID x) RoleDestination (dbs ! side_db mp x RoleDestination) = Some rd" "rv_State rd = ReservationConfirmed"
      using h [of RoleDestination] by auto
    note r = rs rd
    have "rv_Amount rs = x_Amount x" "rv_Amount rd = x_Amount x" using row_matches(1) [OF m inv x(1)] r by blast+
    then show ?thesis using r reservation_row_Some(3) [OF r(1)] reservation_row_Some(3) [OF r(3)]
      by (simp add: side_suspense_def through_suspense_def)
  next
    case False
    then have "x_State x = StateTrying \<or> Abandoned (x_State x)" using x(2) by (cases "x_State x") (simp_all add: Abandoned_def)
    then have "hold_of mp dbs x role \<noteq> Some ReservationConfirmed" for role
      using view_ok_unposted [OF v, of role] by (simp add: tview_def)
    then have "side_suspense mp dbs cur x role = 0" for role
      by (auto simp: side_suspense_def through_suspense_def hold_of_def split: option.splits)
    then show ?thesis by simp
  qed
qed

section \<open>One mover per state\<close>

definition tcc_edge :: "TccState \<Rightarrow> TccState \<Rightarrow> bool" where
  "tcc_edge s t \<longleftrightarrow> (s, t) \<in> {(StateTrying, StateConfirming), (StateTrying, StateCancelling), (StateConfirming, StateConfirmed),
     (StateCancelling, StateTccCancelled)}"

text \<open>The states the sweeper looks for are exactly those that still have a move.\<close>

interpretation tcc_states: state_machine tcc_edge "\<lambda>s t. s = t \<or> tcc_edge s t" "\<lambda>s. \<not> open_state s"
proof
  show "(\<not> open_state s) = (\<forall>t. \<not> tcc_edge s t)" for s by (cases s) (auto simp: open_state_def tcc_edge_def)
qed simp

definition tcc_rank :: "TccState \<Rightarrow> int" where
  "tcc_rank s = (case s of StateTrying \<Rightarrow> 0 | StateConfirming \<Rightarrow> 1 | StateCancelling \<Rightarrow> 1 | _ \<Rightarrow> 2)"

definition tcc_state_of :: "db \<Rightarrow> uuid \<Rightarrow> TccState option" where
  "tcc_state_of d i = map_option x_State (transfer_row i d)"

text \<open>A move out of a state; transfer identifiers are the primary key.\<close>

definition transfer_ids :: "db \<Rightarrow> bool" where
  "transfer_ids d \<longleftrightarrow> distinct (map x_ID (db_transfers d))"

definition move :: "time \<Rightarrow> uuid \<Rightarrow> TccState \<Rightarrow> TccState \<Rightarrow> db \<Rightarrow> db option" where
  "move now i from to d =
     (if \<not> transfer_ids d \<or> \<not> tcc_edge from to then None
      else case Advance now i from to False d of (True, Inr d') \<Rightarrow> Some d' | _ \<Rightarrow> None)"

lemma move_Some:
  assumes "move now i from to d = Some d'"
  shows "tcc_state_of d i = Some from" "tcc_state_of d' i = Some to" "transfer_ids d'" "tcc_edge from to"
    "k \<noteq> i \<Longrightarrow> tcc_state_of d' k = tcc_state_of d k"
proof -
  define f where "f = (\<lambda>x::Transfer. x\<lparr>x_State := to, x_ResolvedAt := (if to = StateConfirmed \<or> to = StateTccCancelled then Some now else x_ResolvedAt x)\<rparr>)"
  have ids: "transfer_ids d" and e: "tcc_edge from to" and ex: "list_ex (\<lambda>x. x_ID x = i \<and> x_State x = from) (db_transfers d)"
    and d': "d' = d\<lparr>db_transfers := tupdate (\<lambda>x. x_ID x = i \<and> x_State x = from) f (db_transfers d)\<rparr>"
    using assms by (auto simp: move_def Advance_def f_def split: if_splits bool.splits)
  obtain x where x: "x \<in> set (db_transfers d)" "x_ID x = i" "x_State x = from" using ex by (auto simp: list_ex_iff)
  obtain y where y: "transfer_row i d = Some y"
    using x tfind_Some_iff_exists [of "\<lambda>x. x_ID x = i" "db_transfers d"] by (auto simp: transfer_row_def)
  have "inj_on x_ID (set (db_transfers d))" using ids by (simp add: transfer_ids_def distinct_map)
  then have yx: "y = x" using tfind_SomeD [OF y [unfolded transfer_row_def]] x by (auto dest: inj_onD)
  show "tcc_state_of d i = Some from" using y yx x by (simp add: tcc_state_of_def)
  have rows: "transfer_row k d' = map_option (\<lambda>r. if x_ID r = i \<and> x_State r = from then f r else r) (transfer_row k d)" for k
    unfolding transfer_row_def d' using tfind_tupdate [of "\<lambda>x. x_ID x = i \<and> x_State x = from" "\<lambda>x. x_ID x = k" f "db_transfers d"] by (simp add: f_def)
  show "tcc_state_of d' i = Some to" using rows [of i] y yx x by (simp add: tcc_state_of_def f_def)
  have "map x_ID (db_transfers d') = map x_ID (db_transfers d)" by (simp add: d' tupdate_def f_def)
  then show "transfer_ids d'" using ids by (simp add: transfer_ids_def)
  show "tcc_edge from to" by (rule e)
  show "tcc_state_of d' k = tcc_state_of d k" if "k \<noteq> i"
  proof (cases "transfer_row k d")
    case (Some z)
    then have "x_ID z = k" unfolding transfer_row_def by (auto dest: tfind_SomeD)
    then show ?thesis using rows [of k] Some that by (simp add: tcc_state_of_def)
  qed (use rows [of k] in \<open>simp add: tcc_state_of_def\<close>)
qed

lemma tcc_edge_rank: "tcc_edge s t \<Longrightarrow> tcc_rank s < tcc_rank t"
  by (auto simp: tcc_edge_def tcc_rank_def)

interpretation transfer_moves: cas_store tcc_state_of "move now" tcc_rank transfer_ids for now
proof
  fix k tok v st st' assume m: "move now k tok v st = Some st'"
  show "tcc_state_of st k = Some tok" "transfer_ids st'" by (rule move_Some(1) [OF m], rule move_Some(3) [OF m])
  show "case tcc_state_of st' k of None \<Rightarrow> True | Some tok' \<Rightarrow> tcc_rank tok < tcc_rank tok'"
    using move_Some(2,4) [OF m] tcc_edge_rank by simp
  show "k' \<noteq> k \<Longrightarrow> tcc_state_of st' k' = tcc_state_of st k'" for k' by (rule move_Some(5) [OF m])
qed

section \<open>Posted halves\<close>

text \<open>A side of a transfer is posted when its hold names a journal entry in the ledger of its database
  whose legs move the transfer's amount between the merchant's payable and the suspense account.\<close>

definition half_posted :: "Mapping \<Rightarrow> db list \<Rightarrow> Transfer \<Rightarrow> Role \<Rightarrow> bool" where
  "half_posted mp dbs x role \<longleftrightarrow>
     (\<exists>r e. reservation_row (x_ID x) role (dbs ! side_db mp x role) = Some r \<and> rv_EntryID r = Some e
        \<and> half_in_ledger role (side_merchant x role) (x_Amount x) e (dbs ! side_db mp x role))"

definition all_or_nothing :: "Mapping \<Rightarrow> db list \<Rightarrow> Transfer \<Rightarrow> bool" where
  "all_or_nothing mp dbs x \<longleftrightarrow>
     (\<forall>role. half_posted mp dbs x role \<longleftrightarrow> hold_of mp dbs x role = Some ReservationConfirmed)
     \<and> (\<forall>role role'. \<not> (half_posted mp dbs x role \<and> hold_of mp dbs x role' = Some ReservationCancelled))
     \<and> (x_State x = StateConfirmed \<longrightarrow> (\<forall>role. half_posted mp dbs x role))
     \<and> (PastCommitPoint (x_State x) \<longrightarrow> (\<forall>role. half_posted mp dbs x role \<or> hold_of mp dbs x role = Some ReservationReserved))
     \<and> (\<not> PastCommitPoint (x_State x) \<longrightarrow> (\<forall>role. \<not> half_posted mp dbs x role))"

lemma half_posted_iff:
  assumes "good_mapping mp" "tcc_inv mp dbs" "x \<in> set (transfers dbs)"
  shows "half_posted mp dbs x role \<longleftrightarrow> hold_of mp dbs x role = Some ReservationConfirmed"
proof (cases "reservation_row (x_ID x) role (dbs ! side_db mp x role)")
  case (Some r)
  let ?d = "dbs ! side_db mp x role"
  have "side_db mp x role < length dbs" using side_db_less [OF assms(1)] tcc_invD(1) [OF assms(2)] by simp
  then have ok: "holds_booked ?d" "holds_ok ?d" using tcc_invD(6) [OF assms(2)] by (auto simp: side_ok_def)
  note r = reservation_row_Some [OF Some] and q = row_matches [OF assms Some]
  have "rv_State r = ReservationConfirmed \<longleftrightarrow> rv_EntryID r \<noteq> None" using ok(2) r(1) unfolding holds_ok_def by blast
  moreover have "half_in_ledger role (side_merchant x role) (x_Amount x) e ?d" if "rv_EntryID r = Some e" for e
    using ok(1) r(1,3) q that unfolding holds_booked_def by metis
  ultimately show ?thesis using Some by (auto simp: half_posted_def hold_of_def)
qed (simp add: half_posted_def hold_of_def)

lemma same_id_posted: "same_id x y \<Longrightarrow> half_posted mp dbs y role = half_posted mp dbs x role"
  using same_id_sides [of x y] by (simp add: half_posted_def)

lemma inv_all_or_nothing:
  assumes "good_mapping mp" "tcc_inv mp dbs" "x \<in> set (transfers dbs)"
  shows "all_or_nothing mp dbs x"
proof -
  have v: "view_ok (tview mp dbs x)" using reachable_ok tcc_invD(5) [OF assms(2,3)] by blast
  have past: "hold_of mp dbs x q \<in> {Some ReservationReserved, Some ReservationConfirmed}" if "PastCommitPoint (x_State x)" for q
    using v that by (auto simp: view_ok_def tview_def PastCommitPoint_def)
  have none: "hold_of mp dbs x q \<noteq> Some ReservationConfirmed" if "\<not> PastCommitPoint (x_State x)" for q
    using view_ok_unposted [OF v, of q] that by (cases "x_State x") (auto simp: tview_def PastCommitPoint_def Abandoned_def)
  have conf: "hold_of mp dbs x q = Some ReservationConfirmed" if "x_State x = StateConfirmed" for q
    using v that by (simp add: view_ok_def tview_def)
  have "\<not> (hold_of mp dbs x q = Some ReservationConfirmed \<and> hold_of mp dbs x q' = Some ReservationCancelled)" for q q'
    using past [of q'] none [of q] by (cases "PastCommitPoint (x_State x)") auto
  then show ?thesis unfolding all_or_nothing_def half_posted_iff [OF assms] using past none conf by blast
qed

section \<open>A concrete deployment\<close>

text \<open>Two databases. Merchant m1 lives on the second and is owed five dollars, m2 lives on the first.\<close>

definition demo_funded :: db where
  "demo_funded = empty_db\<lparr>
     db_accounts := [\<lparr>a_ID = 1, a_Owner = \<lparr>o_Type = ''psp'', o_ID = ''sim''\<rparr>, a_Purpose = PurposeClearing, a_Type = AccountTypeAsset, a_Currency = ''USD'', a_ShardKey = []\<rparr>,
        \<lparr>a_ID = 2, a_Owner = \<lparr>o_Type = ''merchant'', o_ID = ''m1''\<rparr>, a_Purpose = PurposePayable, a_Type = AccountTypeLiability, a_Currency = ''USD'', a_ShardKey = []\<rparr>],
     db_entries := [\<lparr>je_ID = 3, je_TransactionID = None, je_ShardKey = [], je_Description = [], je_OccurredAt = 0\<rparr>],
     db_postings := [\<lparr>pr_EntryID = 3, pr_Posting = mk_posting 1 Debit (mk_money 500 ''USD'')\<rparr>, \<lparr>pr_EntryID = 3, pr_Posting = mk_posting 2 Credit (mk_money 500 ''USD'')\<rparr>],
     db_nextid := 10\<rparr>"

definition demo_co :: Coordinator where
  "demo_co = \<lparr>co_mapping = \<lparr>physical = 2\<rparr>, co_cfg = DefaultTccConfig, co_idString = show_nat\<rparr>"

definition demo_input :: "int64 \<Rightarrow> TransferInput" where
  "demo_input amt = \<lparr>ti_SourceMerchant = ''m1'', ti_DestMerchant = ''m2'', ti_Amount = mk_money amt ''USD'', ti_IdempotencyKey = ''k''\<rparr>"

definition demo_cluster :: "(tx_fault \<times> (db list \<Rightarrow> db list)) list \<Rightarrow> world" where
  "demo_cluster sched = \<lparr>w_dbs = [empty_db, demo_funded], w_sched = sched, w_calls = []\<rparr>"

abbreviation demo_transfer :: "int64 \<Rightarrow> tcc_outcome \<times> world" where
  "demo_transfer amt \<equiv> Coordinator_Transfer demo_co 77 5 (demo_input amt) (demo_cluster [])"

lemma demo_good: "good_mapping (co_mapping demo_co)"
proof -
  have "NewMapping 2 = Inr \<lparr>physical = 2\<rparr>" by code_simp
  then show ?thesis by (auto simp: good_mapping_def demo_co_def)
qed

lemma side_ok_empty: "side_ok empty_db"
  by (simp add: side_ok_def empty_db_def ledger_ok_def ledger_total_def accounts_ok_def postings_fk_def holds_ok_def available_def
      payable_net_def source_holds_def account_net_def holds_booked_def)

lemma side_ok_funded: "side_ok demo_funded"
proof -
  have "ledger_ok demo_funded" by (simp add: ledger_ok_def ledger_total_def demo_funded_def posting_row_ok_def posting_delta_def)
  moreover have "accounts_ok demo_funded" by (simp add: accounts_ok_def demo_funded_def natural_key_def)
  moreover have "postings_fk demo_funded" "holds_ok demo_funded" "holds_booked demo_funded"
    by (simp_all add: postings_fk_def holds_ok_def holds_booked_def demo_funded_def empty_db_def)
  moreover have "0 \<le> available m cur demo_funded" for m cur
    by (simp add: available_def payable_net_def source_holds_def demo_funded_def empty_db_def)
  moreover have "account_net (suspense_key cur) demo_funded = 0" for cur
    by (simp add: account_net_def demo_funded_def natural_key_def)
  ultimately show ?thesis by (simp add: side_ok_def) (simp add: demo_funded_def empty_db_def)
qed

lemma demo_cluster_ok: "tcc_inv (co_mapping demo_co) (w_dbs (demo_cluster sched))"
proof -
  have "side_ok ([empty_db, demo_funded] ! p) \<and> db_reservations ([empty_db, demo_funded] ! p) = []" if "p < Suc (Suc 0)" for p
    using that side_ok_empty side_ok_funded by (cases p) (auto simp: demo_funded_def empty_db_def less_Suc_eq)
  then show ?thesis by (simp add: tcc_inv_def demo_cluster_def demo_co_def Global_def empty_db_def)
qed

lemma demo_cluster_quiet: "sched_ok (tcc_rel mp) (demo_cluster [])"
  by (simp add: sched_ok_def demo_cluster_def)

lemma demo_transfer_confirmed:
  "(case fst (demo_transfer 200) of (Some x, None) \<Rightarrow> x_State x = StateConfirmed | _ \<Rightarrow> False)"
  "map x_State (transfers (w_dbs (snd (demo_transfer 200)))) = [StateConfirmed]"
  by code_simp+

section \<open>Claims\<close>

text \<open>C1: every run of the coordinator and every sweep is a run of the transfer protocol. Under any
  faults, and while others that follow the protocol act between its accesses, it keeps the
  invariant of the databases and moves every transfer only along protocol steps.\<close>

theorem coordinator_refines_protocol:
  assumes "good_mapping (co_mapping co)" "sched_ok (tcc_rel (co_mapping co)) w" "tcc_inv (co_mapping co) (w_dbs w)"
  shows "tcc_rel (co_mapping co) (w_dbs w) (w_dbs (snd (Coordinator_Transfer co newID now inp w)))
    \<and> tcc_inv (co_mapping co) (w_dbs (snd (Coordinator_Transfer co newID now inp w)))
    \<and> tcc_rel (co_mapping co) (w_dbs w) (w_dbs (snd (Sweeper_Sweep co now batchSize w)))
    \<and> tcc_inv (co_mapping co) (w_dbs (snd (Sweeper_Sweep co now batchSize w)))"
  using Transfer_run [OF assms prod.collapse [symmetric]] Sweep_run [OF assms prod.collapse [symmetric]]
  by (simp add: honest_def)

theorem coordinator_refines_protocol_witness:
  "tcc_inv (co_mapping demo_co) (w_dbs (snd (demo_transfer 200))) \<and> map x_State (transfers (w_dbs (snd (demo_transfer 200)))) = [StateConfirmed]"
  using coordinator_refines_protocol [OF demo_good demo_cluster_quiet demo_cluster_ok, of 77 5 "demo_input 200"] demo_transfer_confirmed(2)
  by blast

text \<open>C6: a transfer is all or nothing. After any run of \<open>Transfer\<close>, of \<open>Resume\<close> on a recorded transfer
  or of the sweeper, under any faults, and in every state that processes following the protocol
  reach from there, for every recorded transfer: a confirmed hold and a posted half are the same
  thing; no half is posted while the other side is released; a confirmed transfer has both halves
  in the ledgers and stays so; past the commit point each side is posted or still held, so that it
  can be; a transfer that is cancelling or cancelled has no half posted and never will. On every
  database the suspense account stands at exactly the halves posted there.\<close>

theorem transfer_all_or_nothing:
  assumes m: "good_mapping (co_mapping co)" and so: "sched_ok (tcc_rel (co_mapping co)) w" and inv: "tcc_inv (co_mapping co) (w_dbs w)"
    and run: "w' = snd (Coordinator_Transfer co newID now inp w) \<or> x0 \<in> set (transfers (w_dbs w)) \<and> w' = snd (Resume co now x0 w)
      \<or> w' = snd (Sweeper_Sweep co now batchSize w)"
    and x: "x \<in> set (transfers (w_dbs w'))" and later: "tcc_rel (co_mapping co) (w_dbs w') dbs"
  shows "(\<exists>y \<in> set (transfers dbs). same_id x y \<and> all_or_nothing (co_mapping co) dbs y
       \<and> (x_State x = StateConfirmed \<longrightarrow> x_State y = StateConfirmed) \<and> (Abandoned (x_State x) \<longrightarrow> Abandoned (x_State y))
       \<and> (\<forall>role. half_posted (co_mapping co) (w_dbs w') x role \<longrightarrow> half_posted (co_mapping co) dbs y role))
    \<and> (\<forall>p < length dbs. \<forall>cur. account_net (suspense_key cur) (dbs ! p) = (\<Sum>r \<leftarrow> db_reservations (dbs ! p). through_suspense cur r))"
proof -
  have pr: "proc (co_mapping co) x0 w" if "x0 \<in> set (transfers (w_dbs w))" using so inv knows_member [OF that] by (simp add: proc_def)
  have inv': "tcc_inv (co_mapping co) (w_dbs w')"
    using run Transfer_run [OF m so inv prod.collapse [symmetric]] Resume_run [OF m pr prod.collapse [symmetric]]
      Sweep_run [OF m so inv prod.collapse [symmetric]] by (auto simp: honest_def)
  have i: "tcc_inv (co_mapping co) dbs" by (rule tcc_rel_inv [OF later inv'])
  obtain y where y: "y \<in> set (transfers dbs)" "same_id x y" "tcc_step\<^sup>*\<^sup>* (tview (co_mapping co) (w_dbs w') x) (tview (co_mapping co) dbs y)"
    using later inv' x by (auto simp: tcc_rel_def)
  have "half_posted (co_mapping co) dbs y role" if "half_posted (co_mapping co) (w_dbs w') x role" for role
    using that tcc_steps_stable [OF y(3), of role] half_posted_iff [OF m inv' x, of role] half_posted_iff [OF m i y(1), of role]
    by (simp add: tview_def)
  moreover have "account_net (suspense_key cur) (dbs ! p) = (\<Sum>r \<leftarrow> db_reservations (dbs ! p). through_suspense cur r)" if "p < length dbs" for p cur
    using tcc_invD(6) [OF i that] by (simp add: side_ok_def)
  moreover have "x_State x = StateConfirmed \<longrightarrow> x_State y = StateConfirmed" "Abandoned (x_State x) \<longrightarrow> Abandoned (x_State y)"
    using tcc_steps_stable [OF y(3)] by (simp_all add: tview_def)
  ultimately show ?thesis using y(1,2) inv_all_or_nothing [OF m i y(1)] by blast
qed

theorem transfer_all_or_nothing_witness:
  "\<exists>x y. x \<in> set (transfers (w_dbs (snd (demo_transfer 200)))) \<and> y \<in> set (transfers (w_dbs (snd (demo_transfer 200)))) \<and> same_id x y
     \<and> half_posted (co_mapping demo_co) (w_dbs (snd (demo_transfer 200))) y RoleSource
     \<and> half_posted (co_mapping demo_co) (w_dbs (snd (demo_transfer 200))) y RoleDestination"
proof -
  let ?w = "snd (demo_transfer 200)"
  obtain x where x: "transfers (w_dbs ?w) = [x]" "x_State x = StateConfirmed" using demo_transfer_confirmed(2) by auto
  have xm: "x \<in> set (transfers (w_dbs ?w))" using x(1) by simp
  obtain y where y: "y \<in> set (transfers (w_dbs ?w))" "same_id x y" "all_or_nothing (co_mapping demo_co) (w_dbs ?w) y" "x_State y = StateConfirmed"
    using transfer_all_or_nothing [OF demo_good demo_cluster_quiet demo_cluster_ok _ xm tcc.R_refl, of 77 5 "demo_input 200"] x(2) by blast
  then have "half_posted (co_mapping demo_co) (w_dbs ?w) y role" for role unfolding all_or_nothing_def by blast
  then show ?thesis using y(1,2) xm by blast
qed

text \<open>A transfer reported as confirmed has been posted on both sides by the time it is reported.\<close>

theorem confirmed_report_is_true:
  assumes "good_mapping (co_mapping co)" "sched_ok (tcc_rel (co_mapping co)) w" "tcc_inv (co_mapping co) (w_dbs w)"
    and "Coordinator_Transfer co newID now inp w = ((Some z, None), w')" "x_State z = StateConfirmed"
  shows "hold_of (co_mapping co) (w_dbs w') z RoleSource = Some ReservationConfirmed
    \<and> hold_of (co_mapping co) (w_dbs w') z RoleDestination = Some ReservationConfirmed"
  using Transfer_run [OF assms(1-4)] assms(5) by (simp add: honest_def)

theorem confirmed_report_is_true_witness:
  "\<exists>z w'. demo_transfer 200 = ((Some z, None), w') \<and> hold_of (co_mapping demo_co) (w_dbs w') z RoleSource = Some ReservationConfirmed"
proof -
  obtain z w' where r: "demo_transfer 200 = ((Some z, None), w')" and st: "x_State z = StateConfirmed"
    using demo_transfer_confirmed(1) by (cases "demo_transfer 200") (auto split: option.splits)
  show ?thesis using confirmed_report_is_true [OF demo_good demo_cluster_quiet demo_cluster_ok r st] r by blast
qed

text \<open>C13: no merchant's funds are promised twice. After any run, on every database, the holds taken
  against a merchant in a currency are at most what the ledger owes it there.\<close>

theorem holds_never_exceed_balance:
  assumes "good_mapping (co_mapping co)" "sched_ok (tcc_rel (co_mapping co)) w" "tcc_inv (co_mapping co) (w_dbs w)"
    and "Coordinator_Transfer co newID now inp w = (out, w')" "p < length (w_dbs w')"
  shows "source_holds m cur (w_dbs w' ! p) \<le> payable_net m cur (w_dbs w' ! p)"
proof -
  have "tcc_inv (co_mapping co) (w_dbs w')" using Transfer_run [OF assms(1-4)] by (simp add: honest_def)
  then have "side_ok (w_dbs w' ! p)" using tcc_invD(6) assms(5) by blast
  then have "0 \<le> available m cur (w_dbs w' ! p)" by (simp add: side_ok_def)
  then show ?thesis by (simp add: available_def)
qed

theorem holds_never_exceed_balance_witness:
  "source_holds ''m1'' ''USD'' (w_dbs (snd (demo_transfer 600)) ! 1) \<le> payable_net ''m1'' ''USD'' (w_dbs (snd (demo_transfer 600)) ! 1)
   \<and> snd (fst (demo_transfer 600)) = Some ErrInsufficientBalance"
proof -
  have "1 < length (w_dbs (snd (demo_transfer 600)))" by code_simp
  moreover have "snd (fst (demo_transfer 600)) = Some ErrInsufficientBalance" by code_simp
  ultimately show ?thesis
    using holds_never_exceed_balance [OF demo_good demo_cluster_quiet demo_cluster_ok prod.collapse [symmetric], of 1 77 5 "demo_input 600"] by blast
qed

text \<open>Once no transfer is between its two confirmations, the suspense positions of all databases
  add up to zero in every currency: what left one merchant has reached the other.\<close>

theorem suspense_nets_to_zero:
  assumes "good_mapping (co_mapping co)" "sched_ok (tcc_rel (co_mapping co)) w" "tcc_inv (co_mapping co) (w_dbs w)"
    and "Coordinator_Transfer co newID now inp w = (out, w')" "\<forall>x \<in> set (transfers (w_dbs w')). x_State x \<noteq> StateConfirming"
  shows "(\<Sum>p < length (w_dbs w'). account_net (suspense_key cur) (w_dbs w' ! p)) = 0"
proof -
  have "tcc_inv (co_mapping co) (w_dbs w')" using Transfer_run [OF assms(1-4)] by (simp add: honest_def)
  then show ?thesis using suspense_total [OF assms(1)] settled_side [OF assms(1)] assms(5) by (simp add: sum.neutral)
qed

theorem suspense_nets_to_zero_witness:
  "(\<Sum>p < length (w_dbs (snd (demo_transfer 200))). account_net (suspense_key ''USD'') (w_dbs (snd (demo_transfer 200)) ! p)) = 0
   \<and> account_net (suspense_key ''USD'') (w_dbs (snd (demo_transfer 200)) ! 1) = 200"
proof -
  have "\<forall>x \<in> set (transfers (w_dbs (snd (demo_transfer 200)))). x_State x \<noteq> StateConfirming" by code_simp
  moreover have "account_net (suspense_key ''USD'') (w_dbs (snd (demo_transfer 200)) ! 1) = 200" by code_simp
  ultimately show ?thesis
    using suspense_nets_to_zero [OF demo_good demo_cluster_quiet demo_cluster_ok prod.collapse [symmetric], of 77 5 "demo_input 200"] by blast
qed

text \<open>Of all the processes that decide to move a transfer out of one state, to commit it or to
  cancel it, at most one succeeds, in whatever order they write.\<close>

theorem one_move_per_state:
  "transfer_ids d \<longrightarrow> wins i from ws (fst (run_writes (move now) ws d)) \<le> 1"
  using transfer_moves.one_winner by blast

theorem one_move_per_state_witness:
  "\<exists>d. transfer_ids d \<and> wins (77::nat) StateTrying [(77, StateTrying, StateCancelling), (77, StateTrying, StateConfirming)]
     (fst (run_writes (move 9) [(77, StateTrying, StateCancelling), (77, StateTrying, StateConfirming)] d)) = 1"
proof -
  define d where "d = empty_db\<lparr>db_transfers := [\<lparr>x_ID = 77, x_State = StateTrying, x_SourceMerchant = ''m1'', x_SourceShardKey = ''s40'',
    x_DestMerchant = ''m2'', x_DestShardKey = ''s01'', x_Amount = mk_money 200 ''USD'', x_IdempotencyKey = ''k'', x_TimeoutAt = 9, x_Attempts = 0,
    x_LastError = None, x_CreatedAt = 0, x_ResolvedAt = None\<rparr>]\<rparr>"
  let ?ws = "[(77::nat, StateTrying, StateCancelling), (77, StateTrying, StateConfirming)]"
  have ids: "transfer_ids d" unfolding d_def by code_simp
  have "wins 77 StateTrying ?ws (fst (run_writes (move 9) ?ws d)) \<ge> 1" unfolding d_def by code_simp
  moreover have "wins 77 StateTrying ?ws (fst (run_writes (move 9) ?ws d)) \<le> 1" using one_move_per_state [of d 77 StateTrying ?ws 9] ids by blast
  ultimately show ?thesis using ids by (intro exI [of _ d]) simp
qed

end
