(* ===== verification/TccProgress.thy ===== *)
theory TccProgress
  imports TccClaims
begin

text \<open>
  Progress of transfers when nothing fails: past the commit point the resumed transfer completes,
  before it the cancelled one releases every hold. The same code serves the coordinator and the
  sweeper.
\<close>

section \<open>Posting succeeds\<close>

definition ids_fresh :: "db \<Rightarrow> bool" where
  "ids_fresh d \<longleftrightarrow> (\<forall>e \<in> set (db_entries d). je_ID e < db_nextid d)"

lemma half_account_ok:
  assumes "valid_currency cur"
  shows "\<exists>a d1. EnsureAccount (half_account ot oi pu cur sk) d = Inr (a, d1)"
  using assms by (auto simp: EnsureAccount_def half_account_def AccountType_Validate_def Currency_Validate_eq Let_def split: option.splits)

lemma insert_posting_ok:
  assumes "posting_row_ok p" "a \<in> set (db_accounts d)" "a_ID a = p_AccountID p" "a_Currency a = m_currency (p_Amount p)"
    "e \<in> je_ID ` set (db_entries d)"
  shows "insert_posting e p d = Inr (d\<lparr>db_postings := db_postings d @ [\<lparr>pr_EntryID = e, pr_Posting = p\<rparr>]\<rparr>)"
  using assms by (auto simp: insert_posting_def posting_row_ok_def list_ex_iff)

lemma two_legs_ok:
  assumes "0 < minor amt" "valid_currency (m_currency amt)"
  shows "\<exists>en. NewEntry i now None sk ds now [mk_posting a Debit amt, mk_posting b Credit amt] = Inr en"
proof -
  have "in64 (minor amt)" by (simp add: in64_sint)
  then have "is_ok (NewEntry i now None sk ds now [mk_posting a Debit amt, mk_posting b Credit amt])"
    using assms unfolding NewEntry_ok_iff
    by (simp add: well_formed_posting_def postings_balanced_def posting_delta_def in64_def)
  then show ?thesis by (simp add: is_ok_iff)
qed

lemma RecordEntry_ok:
  assumes e: "e_ID en \<notin> je_ID ` set (db_entries d)" "e_Postings en = [mk_posting (a_ID a) Debit amt, mk_posting (a_ID b) Credit amt]"
    and ab: "a \<in> set (db_accounts d)" "b \<in> set (db_accounts d)" "a_Currency a = m_currency amt" "a_Currency b = m_currency amt" "0 < minor amt"
  shows "\<exists>d'. RecordEntry en d = Inr d'"
proof -
  define d1 where "d1 = d\<lparr>db_entries := db_entries d @ [\<lparr>je_ID = e_ID en, je_TransactionID = e_TransactionID en,
             je_ShardKey = e_ShardKey en, je_Description = e_Description en, je_OccurredAt = e_OccurredAt en\<rparr>]\<rparr>"
  define d2 where "d2 = d1\<lparr>db_postings := db_postings d1 @ [\<lparr>pr_EntryID = e_ID en, pr_Posting = mk_posting (a_ID a) Debit amt\<rparr>]\<rparr>"
  have 1: "insert_posting (e_ID en) (mk_posting (a_ID a) Debit amt) d1 = Inr d2"
    unfolding d2_def by (rule insert_posting_ok [of _ a]) (use ab in \<open>auto simp: d1_def posting_row_ok_def\<close>)
  have 2: "insert_posting (e_ID en) (mk_posting (a_ID b) Credit amt) d2
      = Inr (d2\<lparr>db_postings := db_postings d2 @ [\<lparr>pr_EntryID = e_ID en, pr_Posting = mk_posting (a_ID b) Credit amt\<rparr>]\<rparr>)"
    by (rule insert_posting_ok [of _ b]) (use ab in \<open>auto simp: d1_def d2_def posting_row_ok_def\<close>)
  have "\<not> list_ex (\<lambda>r. je_ID r = e_ID en) (db_entries d)" using e(1) unfolding list_ex_iff by (metis imageI)
  then show ?thesis unfolding RecordEntry_def d1_def [symmetric] using e(2) 1 2 by simp
qed

lemma EnsureAccount_fresh:
  "EnsureAccount acct d = Inr (a, d1) \<Longrightarrow> ids_fresh d \<Longrightarrow> ids_fresh d1"
  using EnsureAccount_Inr(3) [of acct d a d1] by (auto simp: ids_fresh_def less_SucI)

lemma postHalf_ok:
  assumes ok: "side_ok d" "ids_fresh d" and x: "0 < minor (x_Amount x)" "valid_currency (m_currency (x_Amount x))"
  shows "\<exists>e d'. postHalf idS now x role r d = Inr (e, d') \<and> ids_fresh d' \<and> commit_check d d' = Inr ()"
proof -
  define cur where "cur = m_currency (x_Amount x)"
  define A where "A = half_account ''merchant'' (rv_MerchantID r) PurposePayable cur (rv_ShardKey r)"
  define B where "B = half_account ''platform'' ''platform'' PurposeTransferSuspense cur (rv_ShardKey r)"
  define ds where "ds = ''cross-shard transfer '' @ idS (x_ID x) @ '' ('' @ role_string role @ '')''"
  have v: "valid_currency cur" using x(2) by (simp add: cur_def)
  obtain a d1 where ea: "EnsureAccount A d = Inr (a, d1)" using half_account_ok [OF v] unfolding A_def by blast
  obtain b d2 where eb: "EnsureAccount B d1 = Inr (b, d2)" using half_account_ok [OF v] unfolding B_def by blast
  note ra = EnsureAccount_Inr [OF ea] and rb = EnsureAccount_Inr [OF eb] and fa = EnsureAccount_frame [OF ea] and fb = EnsureAccount_frame [OF eb]
  have fr: "ids_fresh d2" using EnsureAccount_fresh ea eb ok(2) by blast
  define D C where "D = (case role of RoleSource \<Rightarrow> a | RoleDestination \<Rightarrow> b)" and "C = (case role of RoleSource \<Rightarrow> b | RoleDestination \<Rightarrow> a)"
  have mem: "D \<in> set (db_accounts d2)" "C \<in> set (db_accounts d2)" using ra(2) rb(2) fb(11) by (auto simp: D_def C_def split: Role.splits)
  have cu: "a_Currency D = cur" "a_Currency C = cur"
    using ra(1) rb(1) by (auto simp: A_def B_def D_def C_def half_account_def natural_key_def split: Role.splits)
  let ?ps = "[mk_posting (a_ID D) Debit (x_Amount x), mk_posting (a_ID C) Credit (x_Amount x)]"
  obtain en where ne: "NewEntry (db_nextid d2) now None (rv_ShardKey r) ds now ?ps = Inr en" using two_legs_ok [OF x] by blast
  note n = NewEntry_Inr [OF ne]
  have new: "db_nextid d2 \<notin> je_ID ` set (db_entries d2)" using fr by (auto simp: ids_fresh_def)
  obtain d3 where re: "RecordEntry en (d2\<lparr>db_nextid := Suc (db_nextid d2)\<rparr>) = Inr d3"
    using RecordEntry_ok [of en "d2\<lparr>db_nextid := Suc (db_nextid d2)\<rparr>" D "x_Amount x" C] n(1,2) new mem cu x(1) by (auto simp: cur_def)
  note d3 = RecordEntry_Inr(1) [OF re]
  have post: "postHalf idS now x role r d = Inr (db_nextid d2, d3)"
    using ea eb ne re unfolding postHalf_def A_def B_def cur_def ds_def D_def C_def by (cases role) (simp_all add: Let_def)
  have "ids_fresh d3" using fr unfolding d3 by (auto simp: ids_fresh_def n(2) less_SucI)
  moreover have "commit_check d d3 = Inr ()"
  proof -
    have ents: "drop (length (db_entries d)) (db_entries d3) = [\<lparr>je_ID = db_nextid d2, je_TransactionID = e_TransactionID en,
             je_ShardKey = e_ShardKey en, je_Description = e_Description en, je_OccurredAt = e_OccurredAt en\<rparr>]"
      using fa(3) fb(3) n(2) unfolding d3 by simp
    have "pr_EntryID q \<noteq> db_nextid d2" if "q \<in> set (db_postings d2)" for q
    proof -
      have "pr_EntryID q \<in> je_ID ` set (db_entries d2)" using that ok(1) fa(3,4) fb(3,4) by (auto simp: side_ok_def ledger_ok_def)
      then show ?thesis using new by auto
    qed
    then have "filter (\<lambda>q. pr_EntryID q = db_nextid d2) (db_postings d2) = []" by (simp add: filter_empty_conv)
    then have "entry_postings d3 (db_nextid d2) = ?ps" unfolding entry_postings_def d3 by (simp add: n(1,2))
    then show ?thesis using n(7) by (simp add: commit_check_def ents assert_journal_entry_balances_def postings_balanced_def assert_err_def Let_def)
  qed
  ultimately show ?thesis using post by blast
qed

lemma Confirm_ok:
  assumes ok: "side_ok d" "ids_fresh d" and x: "0 < minor (x_Amount x)" "valid_currency (m_currency (x_Amount x))"
    and r: "reservation_row (x_ID x) role d = Some r" "rv_State r \<noteq> ReservationCancelled"
  shows "\<exists>e d'. Confirm idS now x role d = Inr (e, d') \<and> ids_fresh d' \<and> commit_check d d' = Inr ()"
proof -
  have h: "holds_ok d" using ok(1) by (simp add: side_ok_def)
  have m: "r \<in> set (db_reservations d)" by (rule reservation_row_Some(1) [OF r(1)])
  show ?thesis
  proof (cases "rv_State r")
    case ReservationConfirmed
    moreover have "rv_State r = ReservationConfirmed \<longleftrightarrow> rv_EntryID r \<noteq> None" using h m unfolding holds_ok_def by blast
    ultimately obtain e where "rv_EntryID r = Some e" by blast
    then have "Confirm idS now x role d = Inr (e, d)" using r ReservationConfirmed unfolding Confirm_def reservation_holds_ok [OF h] by simp
    then show ?thesis using ok(2) by (simp add: commit_check_def assert_err_def)
  next
    case ReservationReserved
    obtain e d1 where p: "postHalf idS now x role r d = Inr (e, d1)" "ids_fresh d1" "commit_check d d1 = Inr ()" using postHalf_ok [OF ok x] by blast
    have fk: "accounts_ok d" "postings_fk d" "ledger_ok d" using ok(1) by (simp_all add: side_ok_def)
    have "db_reservations d1 = db_reservations d" by (rule postHalf_Inr(4) [OF p(1) fk])
    then have "list_ex (\<lambda>q. rv_ID q = rv_ID r \<and> rv_State q = ReservationReserved) (db_reservations d1)"
      using m ReservationReserved by (auto simp: list_ex_iff)
    then have "Confirm idS now x role d = Inr (e, set_hold r ReservationConfirmed (Some e) d1)"
      using r ReservationReserved p(1) unfolding Confirm_def reservation_holds_ok [OF h] set_hold_def by simp
    moreover have "ids_fresh (set_hold r ReservationConfirmed (Some e) d1)" using p(2) by (simp add: ids_fresh_def set_hold_def)
    moreover have "commit_check d (set_hold r ReservationConfirmed (Some e) d1) = Inr ()"
    proof -
      have "assert_journal_entry_balances (set_hold r ReservationConfirmed (Some e) d1) = assert_journal_entry_balances d1"
        by (rule ext) (simp add: assert_journal_entry_balances_def entry_postings_def set_hold_def)
      then show ?thesis using p(3) by (simp add: commit_check_def set_hold_def)
    qed
    ultimately show ?thesis by blast
  qed (use r in simp)
qed

section \<open>Quiet runs\<close>

definition quiet :: "world \<Rightarrow> bool" where
  "quiet w \<longleftrightarrow> w_sched w = [] \<and> (\<forall>d \<in> set (w_dbs w). ids_fresh d)"

lemma quiet_tx:
  assumes "quiet w" "p < length (w_dbs w)" "body s (w_dbs w ! p) = (s', Inr d')" "commit_check (w_dbs w ! p) d' = Inr ()" "ids_fresh d'"
  shows "tx_at p body s w = (s', Inr (), w\<lparr>w_dbs := (w_dbs w)[p := d']\<rparr>)" "quiet (w\<lparr>w_dbs := (w_dbs w)[p := d']\<rparr>)"
proof -
  show "tx_at p body s w = (s', Inr (), w\<lparr>w_dbs := (w_dbs w)[p := d']\<rparr>)"
    using assms by (simp add: quiet_def tx_at_def turn_def DB_WithTx_def)
  show "quiet (w\<lparr>w_dbs := (w_dbs w)[p := d']\<rparr>)" using assms(1,5) set_update_subset_insert [of "w_dbs w" p d'] by (auto simp: quiet_def)
qed

lemma quiet_advance:
  assumes "quiet w" "0 < length (w_dbs w)"
  shows "\<exists>mv w'. tx_at Global (Advance now i from to) s w = (mv, Inr (), w') \<and> quiet w'"
proof -
  obtain mv d' where a: "Advance now i from to s (w_dbs w ! 0) = (mv, Inr d')" by (simp add: Advance_def)
  then have e: "db_entries d' = db_entries (w_dbs w ! 0)" "db_nextid d' = db_nextid (w_dbs w ! 0)" by (auto simp: Advance_def)
  have "ids_fresh d'" using assms e by (auto simp: quiet_def ids_fresh_def)
  moreover have "commit_check (w_dbs w ! 0) d' = Inr ()" using e by (simp add: commit_check_def assert_err_def)
  ultimately show ?thesis using quiet_tx [OF assms(1,2), of "Advance now i from to" s mv d'] a by (auto simp: Global_def)
qed

lemma quiet_confirm_loop:
  assumes m: "good_mapping (co_mapping co)" and past: "PastCommitPoint (x_State x)"
    and "proc (co_mapping co) x w" "quiet w"
  shows "\<exists>w'. confirm_loop co now x rs w = (Inr (), w') \<and> quiet w'"
  using assms(3,4)
proof (induction rs arbitrary: w)
  case (Cons role rs)
  let ?p = "side_db (co_mapping co) x role"
  have inv: "tcc_inv (co_mapping co) (w_dbs w)" and wf: "wf_transfer x" using Cons.prems(1) knows_wf by (auto simp: proc_def)
  obtain y where y: "y \<in> set (transfers (w_dbs w))" "same_id x y" "PastCommitPoint (x_State y)"
    using Cons.prems(1) past by (auto simp: proc_def knows_def)
  have pl: "?p < length (w_dbs w)" using side_db_less [OF m] tcc_invD(1) [OF inv] by simp
  have "view_ok (tview (co_mapping co) (w_dbs w) y)" using reachable_ok tcc_invD(5) [OF inv y(1)] by blast
  then have "hold_of (co_mapping co) (w_dbs w) x role \<in> {Some ReservationReserved, Some ReservationConfirmed}"
    using y(3) same_id_sides(4) [OF y(2)] by (auto simp: view_ok_def tview_def PastCommitPoint_def)
  then obtain r where r: "reservation_row (x_ID x) role (w_dbs w ! ?p) = Some r" "rv_State r \<noteq> ReservationCancelled"
    by (auto simp: hold_of_def)
  have f: "ids_fresh (w_dbs w ! ?p)" using Cons.prems(2) pl by (simp add: quiet_def)
  obtain e d' where c: "Confirm (co_idString co) now x role (w_dbs w ! ?p) = Inr (e, d')" "ids_fresh d'" "commit_check (w_dbs w ! ?p) d' = Inr ()"
    using Confirm_ok [OF tcc_invD(6) [OF inv pl] f _ _ r] wf unfolding wf_transfer_def by blast
  have b: "confirm_body co now x role () (w_dbs w ! ?p) = ((), Inr d')" by (simp add: confirm_body_def c(1))
  note q = quiet_tx [where body = "confirm_body co now x role" and s = "()" and p = ?p, OF Cons.prems(2) pl b c(3,2)]
  have t: "Router_WithTx (co_mapping co) (side_key x role) (confirm_body co now x role) () w = ((), Inr (), w\<lparr>w_dbs := (w_dbs w)[?p := d']\<rparr>)"
    using q(1) unfolding Router_side [OF m wf] .
  have "proc (co_mapping co) x (w\<lparr>w_dbs := (w_dbs w)[?p := d']\<rparr>)" by (rule confirm_access(2) [OF m Cons.prems(1) past t])
  then obtain w' where "confirm_loop co now x rs (w\<lparr>w_dbs := (w_dbs w)[?p := d']\<rparr>) = (Inr (), w')" "quiet w'" using Cons.IH q(2) by blast
  then show ?case using t by simp
qed simp

text \<open>C11: past the commit point a transfer completes. Resuming it when nothing fails and nobody
  interferes returns no error, leaves the record confirmed, and both halves in the ledgers of their
  databases, each as a journal entry that moves the amount between the merchant's payable and the
  suspense account, whatever the dead coordinator had or had not posted before.\<close>

theorem committed_transfer_completes:
  assumes m: "good_mapping (co_mapping co)" and inv: "tcc_inv (co_mapping co) (w_dbs w)" and q: "quiet w"
    and x: "x \<in> set (transfers (w_dbs w))" "x_State x = StateConfirming"
  shows "\<exists>z w' y. Resume co now x w = ((Some z, None), w') \<and> x_State z = StateConfirmed
    \<and> y \<in> set (transfers (w_dbs w')) \<and> same_id x y \<and> x_State y = StateConfirmed
    \<and> (\<forall>role. hold_of (co_mapping co) (w_dbs w') x role = Some ReservationConfirmed \<and> half_posted (co_mapping co) (w_dbs w') x role)"
proof -
  have past: "PastCommitPoint (x_State x)" by (simp add: x(2) PastCommitPoint_def)
  have pr: "proc (co_mapping co) x w" using inv q knows_member [OF x(1)] by (simp add: proc_def sched_ok_def quiet_def)
  obtain w1 where l: "confirm_loop co now x sides w = (Inr (), w1)" "quiet w1" using quiet_confirm_loop [OF m past pr q] by blast
  note a = confirm_loop_run [OF m past pr l(1)]
  have inv1: "tcc_inv (co_mapping co) (w_dbs w1)" using a by (simp add: proc_def)
  have "0 < length (w_dbs w1)" using tcc_invD(1) [OF inv1] physical_pos [OF m] by simp
  then obtain mv w2 where t: "tx_at Global (Advance now (x_ID x) StateConfirming StateConfirmed) False w1 = (mv, Inr (), w2)"
    using quiet_advance [OF l(2)] by blast
  have c: "Resume co now x w = ((Some (x\<lparr>x_State := StateConfirmed\<rparr>), None), w2)" using l t x(2) by (simp add: Resume_def coord_confirm_def)
  have cc: "coord_confirm co now x w = ((Some (x\<lparr>x_State := StateConfirmed\<rparr>), None), w2)" using l t by (simp add: coord_confirm_def)
  note z = confirm_run [OF m past pr cc]
  have h: "\<forall>role. hold_of (co_mapping co) (w_dbs w2) x role = Some ReservationConfirmed" using z by simp
  have p1: "proc (co_mapping co) x w1" using a by blast
  have both: "hold_of (co_mapping co) (w_dbs w1) x role = Some ReservationConfirmed" for role using a role_cases by simp
  have st: "\<forall>dbs y. tcc_inv (co_mapping co) dbs \<longrightarrow> tcc_rel (co_mapping co) (w_dbs w1) dbs \<longrightarrow> y \<in> set (transfers dbs) \<longrightarrow> same_id x y \<longrightarrow> x_State y = StateConfirming
      \<longrightarrow> tcc_step (tview (co_mapping co) dbs y) ((tview (co_mapping co) dbs y)\<lparr>v_state := StateConfirmed\<rparr>)"
    using hold_later(2) [OF p1 _ both] same_id_sides(4) by (intro allI impI tcc_step.close) (simp_all add: tview_def)
  note b = advance_access [OF m p1 t st]
  have "\<exists>y \<in> set (transfers (w_dbs w2)). same_id x y \<and> x_State y = StateConfirmed"
  proof (cases mv)
    case True
    then show ?thesis using b(3) by (auto simp: proc_def knows_def same_id_def)
  next
    case False
    obtain y where y: "y \<in> set (transfers (w_dbs w2))" "same_id x y" "x_State y \<noteq> StateConfirming" using b(4) False by blast
    obtain y' where y': "y' \<in> set (transfers (w_dbs w2))" "same_id x y'" "PastCommitPoint (x_State y')" using b(2) past by (auto simp: proc_def knows_def)
    have "y' = y" using transfer_unique [of "co_mapping co" "w_dbs w2" y' y] y y' b(2) by (simp add: proc_def same_id_def)
    then show ?thesis using y y' by (auto simp: PastCommitPoint_def)
  qed
  then obtain y where y: "y \<in> set (transfers (w_dbs w2))" "same_id x y" "x_State y = StateConfirmed" by blast
  have "tcc_inv (co_mapping co) (w_dbs w2)" using b(2) by (simp add: proc_def)
  then have "half_posted (co_mapping co) (w_dbs w2) x role" for role
    using half_posted_iff [OF m _ y(1), of role] h same_id_sides(4) [OF y(2)] same_id_posted [OF y(2)] by simp
  then show ?thesis using c h y by auto
qed

text \<open>A coordinator whose first confirmation fails leaves the transfer committed and unposted.\<close>

definition demo_crashed :: world where
  "demo_crashed = snd (Coordinator_Transfer demo_co 77 5 (demo_input 200)
     (demo_cluster [(TxOk, \<lambda>d. d), (TxOk, \<lambda>d. d), (TxOk, \<lambda>d. d), (TxOk, \<lambda>d. d), (TxBeginFails, \<lambda>d. d)]))"

theorem committed_transfer_completes_witness:
  "\<exists>x z w'. x \<in> set (transfers (w_dbs demo_crashed)) \<and> Resume demo_co 9 x demo_crashed = ((Some z, None), w')
     \<and> hold_of (co_mapping demo_co) (w_dbs demo_crashed) x RoleSource = Some ReservationReserved
     \<and> half_posted (co_mapping demo_co) (w_dbs w') x RoleSource \<and> half_posted (co_mapping demo_co) (w_dbs w') x RoleDestination"
proof -
  have so: "sched_ok (tcc_rel mp) (demo_cluster [(TxOk, \<lambda>d. d), (TxOk, \<lambda>d. d), (TxOk, \<lambda>d. d), (TxOk, \<lambda>d. d), (TxBeginFails, \<lambda>d. d)])" for mp
    using tcc.R_refl by (simp add: sched_ok_def demo_cluster_def)
  have inv: "tcc_inv (co_mapping demo_co) (w_dbs demo_crashed)"
    unfolding demo_crashed_def using Transfer_run [OF demo_good so demo_cluster_ok prod.collapse [symmetric]] by (simp add: honest_def)
  have "w_sched demo_crashed = []" by code_simp
  moreover have "list_all (\<lambda>d. list_all (\<lambda>e. je_ID e < db_nextid d) (db_entries d)) (w_dbs demo_crashed)" by code_simp
  ultimately have q: "quiet demo_crashed" by (simp add: quiet_def ids_fresh_def list_all_iff)
  have "map x_State (transfers (w_dbs demo_crashed)) = [StateConfirming]" by code_simp
  then obtain x where x: "transfers (w_dbs demo_crashed) = [x]" "x_State x = StateConfirming" by auto
  then have xm: "x \<in> set (transfers (w_dbs demo_crashed))" by simp
  have "hold_of (co_mapping demo_co) (w_dbs demo_crashed) (hd (transfers (w_dbs demo_crashed))) RoleSource = Some ReservationReserved" by code_simp
  then show ?thesis using committed_transfer_completes [OF demo_good inv q xm x(2), of 9] x(1) xm by auto
qed

end
