(* ===== verification/TccStranded.thy ===== *)
theory TccStranded
  imports TccProgress
begin

text \<open>
  The one gap of the transfer protocol. A hold that is taken after the sweeper has cancelled its
  transfer is out of everybody's reach: the sweeper looks only at open transfers, and a repeated
  request is answered from the cancelled record. \<open>stranded\<close> describes such a hold; every access of
  a sweep and of a transfer request leaves it where it is.
\<close>

section \<open>A hold nobody looks at\<close>

definition record_of :: "uuid \<Rightarrow> db \<Rightarrow> Transfer list" where
  "record_of i d = filter (\<lambda>x. x_ID x = i) (db_transfers d)"

definition given_up :: "uuid \<Rightarrow> db \<Rightarrow> bool" where
  "given_up i d \<longleftrightarrow> record_of i d \<noteq> [] \<and> (\<forall>x \<in> set (record_of i d). x_State x = StateTccCancelled)"

definition hold_rows :: "db \<Rightarrow> bool" where
  "hold_rows d \<longleftrightarrow> distinct (map rv_ID (db_reservations d))
     \<and> (\<forall>q \<in> set (db_reservations d). rv_ID q < db_nextid d \<and> 0 < minor (rv_Amount q))"

definition stranded :: "nat \<Rightarrow> Reservation \<Rightarrow> db list \<Rightarrow> bool" where
  "stranded p r dbs \<longleftrightarrow> Global < length dbs \<and> p < length dbs \<and> hold_rows (dbs ! p) \<and> r \<in> set (db_reservations (dbs ! p))
     \<and> rv_State r = ReservationReserved \<and> given_up (rv_TransferID r) (dbs ! Global)"

text \<open>What is asked of everybody else: a stranded hold stays stranded.\<close>

definition strands :: "nat \<Rightarrow> Reservation \<Rightarrow> db list \<Rightarrow> db list \<Rightarrow> bool" where
  "strands p r dbs dbs' \<longleftrightarrow> (stranded p r dbs \<longrightarrow> stranded p r dbs')"

interpretation strand: environment "strands p r" for p r
  by unfold_locales (auto simp: strands_def)

definition safe :: "nat \<Rightarrow> Reservation \<Rightarrow> world \<Rightarrow> bool" where
  "safe p r w \<longleftrightarrow> sched_ok (strands p r) w \<and> stranded p r (w_dbs w)"

section \<open>Accesses of other transfers\<close>

definition leaves :: "Reservation \<Rightarrow> db \<Rightarrow> db \<Rightarrow> bool" where
  "leaves r d d' \<longleftrightarrow>
     (given_up (rv_TransferID r) d \<longrightarrow> given_up (rv_TransferID r) d')
     \<and> (hold_rows d \<and> r \<in> set (db_reservations d) \<longrightarrow> hold_rows d' \<and> r \<in> set (db_reservations d'))"

lemma leaves_strands:
  assumes "leaves r (dbs ! q) d" "q < length dbs"
  shows "strands p r dbs (dbs[q := d])"
  unfolding strands_def
proof
  assume s: "stranded p r dbs"
  then have "given_up (rv_TransferID r) (dbs[q := d] ! Global)"
    using assms by (cases "q = Global") (auto simp: stranded_def leaves_def)
  moreover have "hold_rows (dbs[q := d] ! p) \<and> r \<in> set (db_reservations (dbs[q := d] ! p))"
    using s assms by (cases "q = p") (auto simp: stranded_def leaves_def)
  ultimately show "stranded p r (dbs[q := d])" using s by (simp add: stranded_def)
qed

lemma safe_tx:
  assumes "safe p r w" "tx_at q body s w = (s', e, w')" "\<And>d s1 d1. body s d = (s1, Inr d1) \<Longrightarrow> leaves r d d1"
  shows "safe p r w'"
    "e = Inr () \<Longrightarrow> \<exists>dbs d1. stranded p r dbs \<and> q < length dbs \<and> body s (dbs ! q) = (s', Inr d1)"
proof -
  have so: "sched_ok (strands p r) w" and s: "stranded p r (w_dbs w)" using assms(1) by (simp_all add: safe_def)
  have step: "\<forall>dbs s1 d1. strands p r (w_dbs w) dbs \<longrightarrow> q < length dbs \<longrightarrow> body s (dbs ! q) = (s1, Inr d1)
      \<longrightarrow> commit_check (dbs ! q) d1 = Inr () \<longrightarrow> strands p r dbs (dbs[q := d1])"
    using assms(3) leaves_strands by blast
  note t = strand.tx_at_rel [OF so assms(2) step]
  show "safe p r w'" using t(1,2) s by (simp add: safe_def strands_def)
  show "e = Inr () \<Longrightarrow> \<exists>dbs d1. stranded p r dbs \<and> q < length dbs \<and> body s (dbs ! q) = (s', Inr d1)"
    using t(3) s unfolding strands_def by blast
qed

lemma safe_query:
  assumes "safe p r w" "query_at q f w = (res, w')"
  shows "safe p r w'" "res = Inr y \<Longrightarrow> f (w_dbs w' ! q) = Inr y"
  using strand.query_at_rel [of p r w q f res w'] assms by (auto simp: safe_def strands_def)

lemma safe_router:
  assumes "safe p r w" "Router_WithTx mp key body s w = (s', e, w')" "\<And>d s1 d1. body s d = (s1, Inr d1) \<Longrightarrow> leaves r d d1"
  shows "safe p r w'"
  using assms safe_tx(1) [OF assms(1) _ assms(3)] by (auto simp: Router_WithTx_def split: sum.splits)

lemma record_of_tupdate:
  assumes "\<And>x. P x \<Longrightarrow> x_ID x \<noteq> i" "\<And>x. x_ID (f x) = x_ID x"
  shows "filter (\<lambda>x. x_ID x = i) (tupdate P f xs) = filter (\<lambda>x. x_ID x = i) xs"
  using assms by (induction xs) auto

lemma leaves_transfers:
  assumes "\<And>x. P x \<Longrightarrow> x_ID x \<noteq> rv_TransferID r" "\<And>x. x_ID (f x) = x_ID x"
  shows "leaves r d (d\<lparr>db_transfers := tupdate P f (db_transfers d)\<rparr>)"
  using record_of_tupdate [OF assms] by (simp add: leaves_def given_up_def record_of_def hold_rows_def)

lemma leaves_refl [simp]: "leaves r d d" by (simp add: leaves_def)

lemma Advance_leaves: "i \<noteq> rv_TransferID r \<Longrightarrow> Advance now i from to s d = (s1, Inr d1) \<Longrightarrow> leaves r d d1"
  by (auto simp: Advance_def intro!: leaves_transfers)

lemma attempt_leaves: "i \<noteq> rv_TransferID r \<Longrightarrow> attempt_body i e s d = (s1, Inr d1) \<Longrightarrow> leaves r d d1"
  by (auto simp: attempt_body_def RecordAttempt_def intro!: leaves_transfers)

lemma ExtendDeadline_leaves: "i \<noteq> rv_TransferID r \<Longrightarrow> leaves r d (ExtendDeadline now i dur d)"
  by (auto simp: ExtendDeadline_def intro!: leaves_transfers)

text \<open>Changing another reservation, found by its transfer and role.\<close>

lemma tupdate_other:
  assumes "hold_rows d" "r \<in> set (db_reservations d)" "q \<in> set (db_reservations d)" "q \<noteq> r"
    and f: "\<And>z. rv_ID (f z) = rv_ID z" "\<And>z. rv_Amount (f z) = rv_Amount z"
  shows "r \<in> set (tupdate (\<lambda>z. rv_ID z = rv_ID q \<and> P z) f (db_reservations d))"
    "distinct (map rv_ID (tupdate (\<lambda>z. rv_ID z = rv_ID q \<and> P z) f (db_reservations d)))"
    "z \<in> set (tupdate (\<lambda>z. rv_ID z = rv_ID q \<and> P z) f (db_reservations d)) \<Longrightarrow> rv_ID z < db_nextid d \<and> 0 < minor (rv_Amount z)"
proof -
  have "rv_ID r \<noteq> rv_ID q" using assms(1-4) by (auto simp: hold_rows_def distinct_map dest: inj_onD)
  then show "r \<in> set (tupdate (\<lambda>z. rv_ID z = rv_ID q \<and> P z) f (db_reservations d))"
    using assms(2) unfolding set_tupdate by (intro rev_image_eqI [of r]) auto
  have "map rv_ID (tupdate (\<lambda>z. rv_ID z = rv_ID q \<and> P z) f (db_reservations d)) = map rv_ID (db_reservations d)"
    using f(1) by (simp add: tupdate_def)
  then show "distinct (map rv_ID (tupdate (\<lambda>z. rv_ID z = rv_ID q \<and> P z) f (db_reservations d)))"
    using assms(1) by (simp add: hold_rows_def)
  show "z \<in> set (tupdate (\<lambda>z. rv_ID z = rv_ID q \<and> P z) f (db_reservations d)) \<Longrightarrow> rv_ID z < db_nextid d \<and> 0 < minor (rv_Amount z)"
    using assms(1) f by (auto simp: set_tupdate hold_rows_def split: if_splits)
qed

lemma Cancel_leaves:
  assumes "i \<noteq> rv_TransferID r" "Cancel i role d = Inr d1"
  shows "leaves r d d1"
proof (cases "reservation i role d")
  case (Inr q)
  note q = reservation_row_Some [OF reservation_Inr [OF Inr]]
  consider "d1 = d" | "d1 = d\<lparr>db_reservations := tupdate (\<lambda>z. rv_ID z = rv_ID q \<and> rv_State z = ReservationReserved)
      (\<lambda>z. z\<lparr>rv_State := ReservationCancelled\<rparr>) (db_reservations d)\<rparr>"
    using assms(2) Inr by (auto simp: Cancel_def split: ReservationState.splits)
  then show ?thesis
  proof cases
    case 2
    have "q \<noteq> r" using q(2) assms(1) by auto
    then show ?thesis
      using tupdate_other [where d = d and r = r and q = q and f = "\<lambda>z. z\<lparr>rv_State := ReservationCancelled\<rparr>" and P = "\<lambda>z. rv_State z = ReservationReserved"] q(1)
      unfolding 2 leaves_def by (simp add: given_up_def record_of_def hold_rows_def [of "d\<lparr>db_reservations := _\<rparr>"])
  qed simp
qed (use assms(2) in \<open>auto simp: Cancel_def split: if_splits\<close>)

lemma postHalf_frame:
  assumes "postHalf idS now x role res d = Inr (e, d')"
  shows "db_reservations d' = db_reservations d" "db_transfers d' = db_transfers d" "db_nextid d \<le> db_nextid d'"
proof -
  obtain A B a b d1 d2 en where *: "EnsureAccount A d = Inr (a, d1)" "EnsureAccount B d1 = Inr (b, d2)"
    "RecordEntry en (d2\<lparr>db_nextid := Suc (db_nextid d2)\<rparr>) = Inr d'"
    using assms unfolding postHalf_def Let_def by (cases role) (auto simp: ebind_Inr_iff)
  note f = EnsureAccount_frame [OF *(1)] EnsureAccount_frame [OF *(2)] RecordEntry_Inr(1) [OF *(3)]
  show "db_reservations d' = db_reservations d" "db_transfers d' = db_transfers d" using f by simp_all
  show "db_nextid d \<le> db_nextid d'" using EnsureAccount_Inr(3) [OF *(1)] EnsureAccount_Inr(3) [OF *(2)] f(23) by auto
qed

lemma Confirm_leaves:
  assumes "x_ID x \<noteq> rv_TransferID r" "Confirm idS now x role d = Inr (e, d1)"
  shows "leaves r d d1"
proof -
  obtain q where Q: "reservation (x_ID x) role d = Inr q" using assms(2) by (auto simp: Confirm_def ebind_Inr_iff)
  note q = reservation_row_Some [OF reservation_Inr [OF Q]]
  have qr: "q \<noteq> r" using q(2) assms(1) by auto
  consider "d1 = d" | d2 where "postHalf idS now x role q d = Inr (e, d2)"
      "d1 = d2\<lparr>db_reservations := tupdate (\<lambda>z. rv_ID z = rv_ID q \<and> rv_State z = ReservationReserved)
        (\<lambda>z. z\<lparr>rv_State := ReservationConfirmed, rv_EntryID := Some e\<rparr>) (db_reservations d2)\<rparr>"
    using assms(2) Q by (auto simp: Confirm_def ebind_Inr_iff split: ReservationState.splits option.splits if_splits)
  then show ?thesis
  proof cases
    case 2
    note f = postHalf_frame [OF 2(1)]
    have h: "hold_rows d2" if "hold_rows d" using that f(1,3) by (auto simp: hold_rows_def)
    show ?thesis
      using tupdate_other [where d = d2 and r = r and q = q and f = "\<lambda>z. z\<lparr>rv_State := ReservationConfirmed, rv_EntryID := Some e\<rparr>" and P = "\<lambda>z. rv_State z = ReservationReserved"]
        q(1) qr h f(1)
      unfolding 2(2) leaves_def by (simp add: given_up_def record_of_def f(2) hold_rows_def [of "d2\<lparr>db_reservations := _\<rparr>"])
  qed simp
qed

lemma Try_leaves:
  assumes "Try x role d = Inr (q, d1)"
  shows "leaves r d d1"
proof -
  consider "d1 = d" | q where "d1 = d\<lparr>db_reservations := db_reservations d @ [q], db_nextid := Suc (db_nextid d)\<rparr>" "rv_ID q = db_nextid d" "0 < minor (rv_Amount q)"
    using assms by (auto simp: Try_def ebind_Inr_iff Let_def split: sum.splits if_splits)
  then show ?thesis
  proof cases
    case 2
    then show ?thesis by (auto simp: leaves_def given_up_def record_of_def hold_rows_def less_SucI)
  qed simp
qed

section \<open>Runs for other transfers\<close>

lemma try_loop_safe:
  assumes "safe p r w" "x_ID x \<noteq> rv_TransferID r" "try_loop co x rs w = (e, w')"
  shows "safe p r w'"
  using assms(1,3)
proof (induction rs arbitrary: w)
  case (Cons role rs)
  obtain s e1 w1 where t: "Router_WithTx (co_mapping co) (side_key x role) (try_body x role) () w = (s, e1, w1)" by (metis surj_pair)
  have s1: "safe p r w1" by (rule safe_router [OF Cons.prems(1) t]) (auto simp: try_body_def ebind_Inr_iff intro: Try_leaves)
  show ?case
  proof (cases e1)
    case (Inl err)
    obtain s2 e2 w2 where a: "tx_at Global (attempt_body (x_ID x) err) () w1 = (s2, e2, w2)" by (metis surj_pair)
    have "safe p r w2" by (rule safe_tx(1) [OF s1 a]) (rule attempt_leaves [OF assms(2)])
    then show ?thesis using Cons.prems(2) t Inl a by simp
  qed (use Cons.prems(2) t s1 Cons.IH [OF s1] in simp)
qed simp

lemma confirm_loop_safe:
  assumes "safe p r w" "x_ID x \<noteq> rv_TransferID r" "confirm_loop co now x rs w = (e, w')"
  shows "safe p r w'"
  using assms(1,3)
proof (induction rs arbitrary: w)
  case (Cons role rs)
  obtain s e1 w1 where t: "Router_WithTx (co_mapping co) (side_key x role) (confirm_body co now x role) () w = (s, e1, w1)" by (metis surj_pair)
  have s1: "safe p r w1"
    by (rule safe_router [OF Cons.prems(1) t]) (auto simp: confirm_body_def ebind_Inr_iff intro: Confirm_leaves [OF assms(2)])
  show ?case
  proof (cases e1)
    case (Inl err)
    obtain s2 e2 w2 where a: "tx_at Global (attempt_body (x_ID x) err) () w1 = (s2, e2, w2)" by (metis surj_pair)
    have "safe p r w2" by (rule safe_tx(1) [OF s1 a]) (rule attempt_leaves [OF assms(2)])
    then show ?thesis using Cons.prems(2) t Inl a by simp
  qed (use Cons.prems(2) t s1 Cons.IH [OF s1] in simp)
qed simp

lemma cancel_loop_safe:
  assumes "safe p r w" "x_ID x \<noteq> rv_TransferID r" "cancel_loop co x rs w = (e, w')"
  shows "safe p r w'"
  using assms(1,3)
proof (induction rs arbitrary: w)
  case (Cons role rs)
  obtain s e1 w1 where t: "Router_WithTx (co_mapping co) (side_key x role) (cancel_body (x_ID x) role) () w = (s, e1, w1)" by (metis surj_pair)
  have s1: "safe p r w1" by (rule safe_router [OF Cons.prems(1) t]) (auto simp: cancel_body_def intro: Cancel_leaves [OF assms(2)])
  then show ?case using Cons.prems(2) t Cons.IH [OF s1] by (cases e1) simp_all
qed simp

lemma advance_safe:
  assumes "safe p r w" "i \<noteq> rv_TransferID r" "tx_at Global (Advance now i from to) s w = (mv, e, w')"
  shows "safe p r w'"
  by (rule safe_tx(1) [OF assms(1,3)]) (rule Advance_leaves [OF assms(2)])

lemma coord_confirm_safe:
  assumes "safe p r w" "x_ID x \<noteq> rv_TransferID r" "coord_confirm co now x w = (out, w')"
  shows "safe p r w'"
proof -
  obtain e w1 where l: "confirm_loop co now x sides w = (e, w1)" by (metis surj_pair)
  obtain mv e2 w2 where t: "tx_at Global (Advance now (x_ID x) StateConfirming StateConfirmed) False w1 = (mv, e2, w2)" by (metis surj_pair)
  note s1 = confirm_loop_safe [OF assms(1,2) l]
  show ?thesis using assms(3) l t s1 advance_safe [OF s1 assms(2) t] by (auto simp: coord_confirm_def split: sum.splits)
qed

lemma release_safe:
  assumes "safe p r w" "x_ID x \<noteq> rv_TransferID r" "release co now x w = (x', e', w')"
  shows "safe p r w'"
proof -
  obtain e w1 where l: "cancel_loop co x sides w = (e, w1)" by (metis surj_pair)
  obtain mv e2 w2 where t: "tx_at Global (Advance now (x_ID x) StateCancelling StateTccCancelled) False w1 = (mv, e2, w2)" by (metis surj_pair)
  note s1 = cancel_loop_safe [OF assms(1,2) l]
  show ?thesis using assms(3) l t s1 advance_safe [OF s1 assms(2) t] by (auto simp: release_def split: sum.splits)
qed

lemma reload_safe: "safe p r w \<Longrightarrow> reload i w = (res, w') \<Longrightarrow> safe p r w'"
  unfolding reload_def by (rule safe_query(1))

lemma coord_cancel_safe:
  assumes "safe p r w" "x_ID x \<noteq> rv_TransferID r" "coord_cancel co now x w = (x', e', w')"
  shows "safe p r w'"
proof (cases "x_State x = StateTrying")
  case True
  obtain mv e1 w1 where t: "tx_at Global (Advance now (x_ID x) StateTrying StateCancelling) False w = (mv, e1, w1)" by (metis surj_pair)
  obtain cur w2 where q: "reload (x_ID x) w1 = (cur, w2)" by (metis surj_pair)
  have s1: "safe p r w1" by (rule advance_safe [OF assms(1,2) t])
  have s2: "safe p r w2" by (rule reload_safe [OF s1 q])
  have c: "w' = w1 \<or> w' = w2 \<or> release co now (x\<lparr>x_State := StateCancelling\<rparr>) w1 = (x', e', w')
      \<or> release co now (x\<lparr>x_State := StateCancelling\<rparr>) w2 = (x', e', w')"
    using assms(3) True t q by (auto simp: coord_cancel_def split: sum.splits if_splits)
  have "x_ID (x\<lparr>x_State := StateCancelling\<rparr>) \<noteq> rv_TransferID r" using assms(2) by simp
  then show ?thesis using c s1 s2 release_safe by blast
qed (use assms release_safe in \<open>auto simp: coord_cancel_def\<close>)

lemma Resume_safe:
  assumes "safe p r w" "x_ID x \<noteq> rv_TransferID r" "Resume co now x w = (out, w')"
  shows "safe p r w'"
proof (cases "x_State x")
  case StateTrying
  obtain e1 w1 where l: "coord_try co x w = (e1, w1)" by (metis surj_pair)
  obtain x2 e2 w2 where k: "coord_cancel co now x w1 = (x2, e2, w2)" by (metis surj_pair)
  obtain mv e3 w3 where t: "tx_at Global (Advance now (x_ID x) StateTrying StateConfirming) False w1 = (mv, e3, w3)" by (metis surj_pair)
  obtain cur w4 where q: "reload (x_ID x) w3 = (cur, w4)" by (metis surj_pair)
  obtain out5 w5 where f: "coord_confirm co now (x\<lparr>x_State := StateConfirming\<rparr>) w3 = (out5, w5)" by (metis surj_pair)
  have s1: "safe p r w1" by (rule try_loop_safe [OF assms(1,2) l [unfolded coord_try_def]])
  have s3: "safe p r w3" by (rule advance_safe [OF s1 assms(2) t])
  have "safe p r w2" "safe p r w4" by (rule coord_cancel_safe [OF s1 assms(2) k], rule reload_safe [OF s3 q])
  moreover have "safe p r w5" by (rule coord_confirm_safe [OF s3 _ f]) (use assms(2) in simp)
  moreover have "w' \<in> {w2, w3, w4, w5}"
    using assms(3) StateTrying l k t q f by (auto simp: Resume_def split: sum.splits if_splits)
  ultimately show ?thesis using s3 by auto
next
  case StateCancelling
  obtain x2 e2 w2 where k: "coord_cancel co now x w = (x2, e2, w2)" by (metis surj_pair)
  then have "w' = w2" using assms(3) StateCancelling by (auto simp: Resume_def split: sum.splits)
  then show ?thesis using coord_cancel_safe [OF assms(1,2) k] by simp
next
  case StateConfirming
  then show ?thesis using assms coord_confirm_safe by (auto simp: Resume_def)
qed (use assms in \<open>auto simp: Resume_def\<close>)

section \<open>Sweeps and requests\<close>

lemma stranded_record:
  "stranded p r dbs \<Longrightarrow> x \<in> set (db_transfers (dbs ! Global)) \<Longrightarrow> x_ID x = rv_TransferID r \<Longrightarrow> x_State x = StateTccCancelled"
  by (auto simp: stranded_def given_up_def record_of_def)

lemma extend_all_leaves: "\<forall>x \<in> set xs. x_ID x \<noteq> rv_TransferID r \<Longrightarrow> leaves r d (extend_all now dur xs d)"
proof (induction xs arbitrary: d)
  case (Cons x xs)
  have "leaves r d (ExtendDeadline now (x_ID x) dur d)" using Cons.prems by (intro ExtendDeadline_leaves) simp
  moreover have "leaves r (ExtendDeadline now (x_ID x) dur d) (extend_all now dur xs (ExtendDeadline now (x_ID x) dur d))"
    using Cons by simp
  ultimately show ?case by (auto simp: leaves_def)
qed simp

lemma Unresolved_open: "Unresolved now n d = Inr xs \<Longrightarrow> x \<in> set xs \<Longrightarrow> x \<in> set (db_transfers d) \<and> open_state (x_State x)"
  unfolding Unresolved_def by (drule scan_all_Inr) (auto dest!: in_set_takeD)

lemma resolve_all_safe:
  assumes "safe p r w" "\<forall>x \<in> set xs. x_ID x \<noteq> rv_TransferID r" "resolve_all co now xs w = (n, w')"
  shows "safe p r w'"
  using assms
proof (induction xs arbitrary: w n)
  case (Cons x xs)
  obtain e w1 where s: "Sweeper_resolve co now x w = (e, w1)" by (metis surj_pair)
  obtain m w2 where l: "resolve_all co now xs w1 = (m, w2)" by (metis surj_pair)
  have i: "x_ID x \<noteq> rv_TransferID r" using Cons.prems(2) by simp
  have "safe p r w1"
    using s Resume_safe [OF Cons.prems(1) i] coord_cancel_safe [OF Cons.prems(1) i] Cons.prems(1)
    by (auto simp: Sweeper_resolve_def split: if_splits prod.splits)
  then have "safe p r w2" using Cons.IH l Cons.prems(2,3) s by auto
  then show ?case using Cons.prems(3) s l by auto
qed simp

lemma extend_all_reservations:
  "db_reservations (extend_all now dur xs d) = db_reservations d \<and> db_nextid (extend_all now dur xs d) = db_nextid d"
  by (induction xs arbitrary: d) (simp_all add: ExtendDeadline_def)

lemma Sweep_safe:
  assumes "safe p r w" "Sweeper_Sweep co now n w = (res, w')"
  shows "safe p r w'"
proof -
  obtain xs e w1 where t: "tx_at Global (sweep_claim_body co now n) [] w = (xs, e, w1)" by (metis surj_pair)
  have lv: "leaves r d d1" if b: "sweep_claim_body co now n [] d = (ys, Inr d1)" for d ys d1
  proof -
    have u: "Unresolved now n d = Inr ys" "d1 = extend_all now (ConfirmGrace (co_cfg co)) ys d"
      using b by (auto simp: sweep_claim_body_def split: sum.splits)
    show ?thesis
    proof (cases "given_up (rv_TransferID r) d")
      case True
      have "\<forall>x \<in> set ys. x_ID x \<noteq> rv_TransferID r"
        using Unresolved_open [OF u(1)] True by (fastforce simp: given_up_def record_of_def open_state_def)
      then show ?thesis using extend_all_leaves u(2) by blast
    next
      case False
      then show ?thesis by (simp add: leaves_def u(2) hold_rows_def extend_all_reservations)
    qed
  qed
  have s1: "safe p r w1" by (rule safe_tx(1) [OF assms(1) t]) (rule lv)
  show ?thesis
  proof (cases e)
    case (Inr v)
    then obtain dbs d1 where d: "stranded p r dbs" "sweep_claim_body co now n [] (dbs ! Global) = (xs, Inr d1)"
      using safe_tx(2) [OF assms(1) t] lv by auto
    have "Unresolved now n (dbs ! Global) = Inr xs" using d(2) by (auto simp: sweep_claim_body_def split: sum.splits)
    then have "\<forall>x \<in> set xs. x_ID x \<noteq> rv_TransferID r"
      using Unresolved_open stranded_record [OF d(1)] by (fastforce simp: open_state_def)
    moreover obtain m w2 where "resolve_all co now xs w1 = (m, w2)" by (metis surj_pair)
    ultimately show ?thesis using resolve_all_safe [OF s1] assms(2) t Inr by (auto simp: Sweeper_Sweep_def)
  qed (use assms(2) t s1 in \<open>auto simp: Sweeper_Sweep_def\<close>)
qed

lemma insert_leaves:
  assumes "insert_transfer now x s d = (s1, Inr d1)"
  shows "leaves r d d1" "given_up i d \<Longrightarrow> s1 = Some y \<Longrightarrow> x_ID y \<noteq> i"
  using assms by (auto simp: insert_transfer_def Let_def leaves_def given_up_def record_of_def hold_rows_def list_ex_iff filter_empty_conv split: if_splits)

lemma Create_safe:
  assumes "safe p r w" "Tcc_Create now x w = (res, w')"
  shows "safe p r w'" "res = Inr y \<Longrightarrow> x_ID y \<noteq> rv_TransferID r \<or> x_State y = StateTccCancelled"
proof -
  obtain s e w1 where t: "tx_at Global (insert_transfer now x) None w = (s, e, w1)" by (metis surj_pair)
  have s1: "safe p r w1" by (rule safe_tx(1) [OF assms(1) t]) (rule insert_leaves(1))
  obtain res2 w2 where q: "query_at Global (GetByIdempotencyKey (x_IdempotencyKey x)) w1 = (res2, w2)" by (metis surj_pair)
  note s2 = safe_query [OF s1 q]
  consider (made) "w' = w1" "\<And>y. res = Inr y \<Longrightarrow> e = Inr () \<and> s = Some y" | (found) "w' = w2" "res = res2"
    using assms(2) t q by (auto simp: Tcc_Create_def dest: scanTransfer_Inr split: sum.splits if_splits)
  then have "safe p r w' \<and> (\<forall>y. res = Inr y \<longrightarrow> x_ID y \<noteq> rv_TransferID r \<or> x_State y = StateTccCancelled)"
  proof cases
    case made
    have "x_ID y \<noteq> rv_TransferID r" if y: "res = Inr y" for y
    proof -
      obtain dbs d1 where "stranded p r dbs" "insert_transfer now x None (dbs ! Global) = (Some y, Inr d1)"
        using safe_tx(2) [OF assms(1) t] insert_leaves(1) made(2) [OF y] by blast
      then show ?thesis using insert_leaves(2) by (auto simp: stranded_def)
    qed
    then show ?thesis using made(1) s1 by blast
  next
    case found
    have "x_State y = StateTccCancelled" if "res = Inr y" "x_ID y = rv_TransferID r" for y
      using s2 found that GetByIdempotencyKey_Inr stranded_record [of p r "w_dbs w2" y] by (auto simp: safe_def)
    then show ?thesis using found s2(1) by blast
  qed
  then show "safe p r w'" "res = Inr y \<Longrightarrow> x_ID y \<noteq> rv_TransferID r \<or> x_State y = StateTccCancelled" by blast+
qed

lemma Transfer_safe:
  assumes "safe p r w" "Coordinator_Transfer co newID now inp w = (out, w')"
  shows "safe p r w'"
proof (cases "w' = w")
  case False
  obtain x res w1 where c: "Tcc_Create now x w = (res, w1)" "(case res of Inl e \<Rightarrow> ((None, Some e), w1) | Inr y \<Rightarrow> Resume co now y w1) = (out, w')"
    using assms(2) False by (auto simp: Coordinator_Transfer_def Let_def split: if_splits sum.splits prod.splits)
  note s1 = Create_safe [OF assms(1) c(1)]
  show ?thesis
  proof (cases res)
    case (Inr y)
    then have c2: "Resume co now y w1 = (out, w')" using c(2) by simp
    then have "w' = w1" if "x_State y = StateTccCancelled" using that by (simp add: Resume_def)
    then show ?thesis using s1(2) [OF Inr] Resume_safe [OF s1(1) _ c2] s1(1) by blast
  qed (use c(2) s1(1) in simp)
qed (use assms(1) in simp)

section \<open>Whatever is called afterwards\<close>

datatype tcc_call = SweepCall time nat | TransferCall uuid time TransferInput

fun run_calls :: "Coordinator \<Rightarrow> tcc_call list \<Rightarrow> world \<Rightarrow> world" where
  "run_calls co [] w = w"
| "run_calls co (SweepCall now n # cs) w = run_calls co cs (snd (Sweeper_Sweep co now n w))"
| "run_calls co (TransferCall newID now inp # cs) w = run_calls co cs (snd (Coordinator_Transfer co newID now inp w))"

lemma run_calls_safe: "safe p r w \<Longrightarrow> safe p r (run_calls co cs w)"
proof (induction co cs w rule: run_calls.induct)
  case (2 co now n cs w)
  then show ?case using Sweep_safe [OF _ prod.collapse [symmetric]] by simp
next
  case (3 co newID now inp cs w)
  then show ?case using Transfer_safe [OF _ prod.collapse [symmetric]] by simp
qed simp

lemma hold_is_counted:
  assumes "hold_rows d" "r \<in> set (db_reservations d)" "rv_State r = ReservationReserved" "rv_Role r = RoleSource"
  shows "minor (rv_Amount r) \<le> source_holds (rv_MerchantID r) (m_currency (rv_Amount r)) d"
proof -
  define qs where "qs = filter (\<lambda>q. rv_MerchantID q = rv_MerchantID r \<and> m_currency (rv_Amount q) = m_currency (rv_Amount r) \<and> rv_Role q = RoleSource
        \<and> rv_State q = ReservationReserved) (db_reservations d)"
  have "r \<in> set qs" "\<forall>q \<in> set qs. 0 \<le> minor (rv_Amount q)"
    using assms by (auto simp: qs_def hold_rows_def less_imp_le)
  then have "minor (rv_Amount r) \<le> (\<Sum>q \<leftarrow> qs. minor (rv_Amount q))" by (intro member_le_sum_list) auto
  then show ?thesis by (simp add: source_holds_def qs_def)
qed

text \<open>A coordinator that is overtaken by the sweeper, between its record and its first hold.\<close>

definition demo_sweep :: "db list \<Rightarrow> db list" where
  "demo_sweep dbs = w_dbs (snd (Sweeper_Sweep demo_co 40000000000 10 \<lparr>w_dbs = dbs, w_sched = [], w_calls = []\<rparr>))"

definition demo_late :: "tcc_outcome \<times> world" where
  "demo_late = Coordinator_Transfer demo_co 77 5 (demo_input 200) (demo_cluster [(TxOk, \<lambda>d. d), (TxOk, demo_sweep)])"

text \<open>C39: an open hold on a cancelled transfer is never released. Whatever sweeps run and whatever
  transfers are requested afterwards, in any number and order, with any identifiers, keys and
  clocks, under any faults, and while others act that leave it alone (as these runs do themselves),
  the hold stays open, its transfer stays cancelled, and, when it is the source's hold, the
  merchant's available balance stays short of what the ledger owes it by at least the amount. A
  coordinator overtaken by the sweeper leaves such a hold and reports no error, as the example
  shows. The other way out, a run that still has the transfer in memory as open, is excluded.\<close>

theorem late_hold_is_stranded:
  assumes "stranded p r (w_dbs w)" "sched_ok (strands p r) w"
  shows "r \<in> set (db_reservations (w_dbs (run_calls co cs w) ! p)) \<and> rv_State r = ReservationReserved
    \<and> (\<exists>x \<in> set (transfers (w_dbs (run_calls co cs w))). x_ID x = rv_TransferID r)
    \<and> (\<forall>x \<in> set (transfers (w_dbs (run_calls co cs w))). x_ID x = rv_TransferID r \<longrightarrow> x_State x = StateTccCancelled)
    \<and> (rv_Role r = RoleSource \<longrightarrow> available (rv_MerchantID r) (m_currency (rv_Amount r)) (w_dbs (run_calls co cs w) ! p) + minor (rv_Amount r)
         \<le> payable_net (rv_MerchantID r) (m_currency (rv_Amount r)) (w_dbs (run_calls co cs w) ! p))"
proof -
  have "safe p r (run_calls co cs w)" using assms by (intro run_calls_safe) (simp add: safe_def)
  then have s: "stranded p r (w_dbs (run_calls co cs w))" by (simp add: safe_def)
  then have "\<exists>x \<in> set (transfers (w_dbs (run_calls co cs w))). x_ID x = rv_TransferID r"
    by (auto simp: stranded_def given_up_def record_of_def filter_empty_conv)
  then show ?thesis using s stranded_record [OF s] hold_is_counted [of "w_dbs (run_calls co cs w) ! p" r]
    by (auto simp: stranded_def available_def)
qed

theorem late_hold_is_stranded_witness:
  "snd (fst demo_late) = None \<and> map_option x_State (fst (fst demo_late)) = Some StateTccCancelled
   \<and> (\<forall>cs. available ''m1'' ''USD'' (w_dbs (run_calls demo_co cs (snd demo_late)) ! 1) + 200
        \<le> payable_net ''m1'' ''USD'' (w_dbs (run_calls demo_co cs (snd demo_late)) ! 1))"
proof -
  define r where "r = hd (db_reservations (w_dbs (snd demo_late) ! 1))"
  have st: "stranded 1 r (w_dbs (snd demo_late))" unfolding r_def by code_simp
  have "w_sched (snd demo_late) = []" by code_simp
  then have so: "sched_ok (strands 1 r) (snd demo_late)" by (simp add: sched_ok_def)
  have r: "rv_Role r = RoleSource" "rv_MerchantID r = ''m1''" "m_currency (rv_Amount r) = ''USD''" "minor (rv_Amount r) = 200"
    unfolding r_def by code_simp+
  have o: "snd (fst demo_late) = None" "map_option x_State (fst (fst demo_late)) = Some StateTccCancelled" by code_simp+
  show ?thesis using late_hold_is_stranded [OF st so, of demo_co] r o by simp
qed

end
