(* ===== verification/Messaging.thy ===== *)
theory Messaging
  imports Outbox Sharding
begin

text \<open>
  Kafka as the code uses it (internal/messaging): the topics and the retry ladder (topics.go), the record a
  producer builds (producer.go) and the message a consumer reads back from it (consumer.go), and the loop over
  one partition with its due times and commits. Headers are key/value strings; the headers a tracing
  propagator injects are a parameter. What the broker does with a produced record is scripted as in the outbox.
\<close>

section \<open>Topics (topics.go)\<close>

record RetryTier =
  rt_Topic :: string
  rt_Delay :: int

definition RetryTiers :: "RetryTier list" where
  "RetryTiers =
     [\<lparr>rt_Topic = ''payment.retry.5s'', rt_Delay = 5 * 1000000000\<rparr>,
      \<lparr>rt_Topic = ''payment.retry.30s'', rt_Delay = 30 * 1000000000\<rparr>,
      \<lparr>rt_Topic = ''payment.retry.5m'', rt_Delay = 5 * 60 * 1000000000\<rparr>,
      \<lparr>rt_Topic = ''payment.retry.30m'', rt_Delay = 30 * 60 * 1000000000\<rparr>]"

record Topics =
  tp_Authorize :: string
  tp_Webhook :: string
  tp_DLQ :: string
  tp_Retry :: "RetryTier list"

definition DefaultTopics :: Topics where
  "DefaultTopics = \<lparr>tp_Authorize = ''payment.authorize'', tp_Webhook = ''webhook.received'', tp_DLQ = ''payment.dlq'',
     tp_Retry = RetryTiers\<rparr>"

definition PrefixedTopics :: "string \<Rightarrow> int \<Rightarrow> Topics" where
  "PrefixedTopics prefix retryDelay =
     \<lparr>tp_Authorize = prefix @ ''payment.authorize'', tp_Webhook = prefix @ ''webhook.received'', tp_DLQ = prefix @ ''payment.dlq'',
      tp_Retry = map (\<lambda>tier. \<lparr>rt_Topic = prefix @ rt_Topic tier,
                              rt_Delay = (if retryDelay > 0 then retryDelay else rt_Delay tier)\<rparr>) RetryTiers\<rparr>"

definition Topics_All :: "Topics \<Rightarrow> string list" where
  "Topics_All t = [tp_Authorize t, tp_Webhook t, tp_DLQ t] @ map rt_Topic (tp_Retry t)"

definition Consumed :: "Topics \<Rightarrow> string list" where
  "Consumed t = [tp_Authorize t, tp_Webhook t] @ map rt_Topic (tp_Retry t)"

definition TierForAttempt :: "Topics \<Rightarrow> int \<Rightarrow> RetryTier option" where
  "TierForAttempt t attempt =
     (let idx = (if attempt - 1 < 0 then 0 else attempt - 1) in
      if idx \<ge> int (length (tp_Retry t)) then None else Some (tp_Retry t ! nat idx))"

definition MaxRetryAttempts :: "Topics \<Rightarrow> int" where
  "MaxRetryAttempts t = int (length (tp_Retry t))"

definition DelayFor :: "Topics \<Rightarrow> string \<Rightarrow> int option" where
  "DelayFor t topic = map_option rt_Delay (find (\<lambda>tier. rt_Topic tier = topic) (tp_Retry t))"

section \<open>Messages (producer.go, consumer.go)\<close>

record KMessage =
  km_Topic :: string
  km_PartitionKey :: string
  km_EventID :: string
  km_Attempt :: int
  km_Payload :: Payload
  km_OriginTopic :: string
  km_Timestamp :: time

definition Origin :: "KMessage \<Rightarrow> string" where
  "Origin m = (if km_OriginTopic m \<noteq> [] then km_OriginTopic m else km_Topic m)"

text \<open>The zero \<open>time.Time\<close> is \<open>None\<close>: due at once.\<close>

definition DueAt :: "Topics \<Rightarrow> KMessage \<Rightarrow> time option" where
  "DueAt t msg =
     (case DelayFor t (km_Topic msg) of
        None \<Rightarrow> None
      | Some delay \<Rightarrow> if delay = 0 then None else Some (km_Timestamp msg + delay))"

record KRecord =
  kr_Topic :: string
  kr_Key :: string
  kr_Value :: Payload
  kr_Headers :: "(string \<times> string) list"
  kr_Timestamp :: time

definition HeaderEventID :: string where "HeaderEventID = ''event-id''"
definition HeaderAttempt :: string where "HeaderAttempt = ''retry-attempt''"
definition HeaderOriginTopic :: string where "HeaderOriginTopic = ''origin-topic''"

definition PublishWithHeaders ::
  "(string \<times> string) list \<Rightarrow> time \<Rightarrow> string \<Rightarrow> string \<Rightarrow> string \<Rightarrow> Payload \<Rightarrow> (string \<times> string) list \<Rightarrow> KRecord" where
  "PublishWithHeaders trace now topic partitionKey eventID payload extra =
     \<lparr>kr_Topic = topic, kr_Key = partitionKey, kr_Value = payload,
      kr_Headers = (HeaderEventID, eventID) # extra @ trace, kr_Timestamp = now\<rparr>"

definition read_header :: "string \<times> string \<Rightarrow> KMessage \<Rightarrow> KMessage" where
  "read_header h msg =
     (if fst h = HeaderEventID then msg\<lparr>km_EventID := snd h\<rparr>
      else if fst h = HeaderAttempt then
        (case ParseInt64 (snd h) of None \<Rightarrow> msg | Some n \<Rightarrow> msg\<lparr>km_Attempt := n\<rparr>)
      else if fst h = HeaderOriginTopic then msg\<lparr>km_OriginTopic := snd h\<rparr>
      else msg)"

definition toMessage :: "KRecord \<Rightarrow> KMessage" where
  "toMessage r = fold read_header (kr_Headers r)
     \<lparr>km_Topic = kr_Topic r, km_PartitionKey = kr_Key r, km_EventID = [], km_Attempt = 0, km_Payload = kr_Value r,
      km_OriginTopic = [], km_Timestamp = kr_Timestamp r\<rparr>"

section \<open>The consumer loop (consumer.go)\<close>

text \<open>The consumer's view of one partition: the offset the group has committed, and, when the head is not yet
  due, the time until which the partition is paused. The handler works on a state of its own.\<close>

record partition =
  pt_Committed :: nat
  pt_Paused :: "time option"

definition deferUntilDue :: "(KMessage \<Rightarrow> time option) \<Rightarrow> time \<Rightarrow> KMessage \<Rightarrow> partition \<Rightarrow> bool \<times> partition" where
  "deferUntilDue dueAt now msg pt =
     (case dueAt msg of
        None \<Rightarrow> (False, pt)
      | Some t \<Rightarrow> if \<not> now < t then (False, pt) else (True, pt\<lparr>pt_Paused := Some t\<rparr>))"

definition resumeDuePartitions :: "time \<Rightarrow> partition \<Rightarrow> partition" where
  "resumeDuePartitions now pt =
     (case pt_Paused pt of
        None \<Rightarrow> pt
      | Some t \<Rightarrow> if now < t then pt else pt\<lparr>pt_Paused := None\<rparr>)"

text \<open>One fetch: the records from offset \<open>off\<close> on, for each whether its commit gets through. The handler's
  error is logged and the record is committed all the same.\<close>

fun handlePartition ::
  "(KMessage \<Rightarrow> time option) \<Rightarrow> (KMessage \<Rightarrow> 's \<Rightarrow> unit result \<times> 's) \<Rightarrow> nat \<Rightarrow> (time \<times> KRecord \<times> bool) list \<Rightarrow> partition \<Rightarrow> 's \<Rightarrow> partition \<times> 's" where
  "handlePartition dueAt handler off [] pt s = (pt, s)"
| "handlePartition dueAt handler off ((now, r, commitOK) # rs) pt s =
     (case deferUntilDue dueAt now (toMessage r) pt of
        (True, pt1) \<Rightarrow> (pt1, s)
      | (False, pt1) \<Rightarrow>
          (case handler (toMessage r) s of
             (_, s1) \<Rightarrow> handlePartition dueAt handler (Suc off) rs
               (if commitOK then pt1\<lparr>pt_Committed := Suc off\<rparr> else pt1) s1))"

section \<open>Headers survive the broker\<close>

definition own_header :: "string \<Rightarrow> bool" where
  "own_header k \<longleftrightarrow> k = HeaderEventID \<or> k = HeaderAttempt \<or> k = HeaderOriginTopic"

lemma foreign_headers:
  "\<forall>h \<in> set hs. \<not> own_header (fst h) \<Longrightarrow> fold read_header hs msg = msg"
  by (induction hs) (auto simp: own_header_def read_header_def)

lemmas header_names = HeaderEventID_def HeaderAttempt_def HeaderOriginTopic_def

lemma toMessage_published:
  assumes "in64 n" "\<forall>h \<in> set (trace @ extra). \<not> own_header (fst h)"
  shows "toMessage (PublishWithHeaders trace now topic key ev payload (extra @ [(HeaderAttempt, show_int n), (HeaderOriginTopic, origin)]))
    = \<lparr>km_Topic = topic, km_PartitionKey = key, km_EventID = ev, km_Attempt = n, km_Payload = payload,
       km_OriginTopic = origin, km_Timestamp = now\<rparr>"
proof -
  have t: "\<forall>h \<in> set trace. \<not> own_header (fst h)" "\<forall>h \<in> set extra. \<not> own_header (fst h)" using assms(2) by auto
  show ?thesis
    by (simp add: toMessage_def PublishWithHeaders_def foreign_headers [OF t(1)] foreign_headers [OF t(2)])
      (simp add: read_header_def header_names ParseInt64_show_int assms(1))
qed

section \<open>Reading a partition in order\<close>

text \<open>What the loop has committed when nothing fails to commit: exactly the records before the first that is not due.\<close>

lemma handlePartition_prefix:
  assumes "handlePartition dueAt handler off rs pt s = (pt', s')" "\<forall>(_, _, ok) \<in> set rs. ok" "pt_Committed pt = off"
  obtains k where "k \<le> length rs" "pt_Committed pt' = off + k"
    "\<forall>j < k. case rs ! j of (now, r, _) \<Rightarrow> \<not> fst (deferUntilDue dueAt now (toMessage r) pt)"
    "k < length rs \<Longrightarrow> (case rs ! k of (now, r, _) \<Rightarrow> fst (deferUntilDue dueAt now (toMessage r) pt)) \<and> pt_Paused pt' \<noteq> None"
  using assms
proof (induction rs arbitrary: off pt s thesis)
  case Nil
  then show ?case by simp
next
  case (Cons x rs)
  obtain now r ok where x: "x = (now, r, ok)" by (cases x)
  have ok: "ok" using Cons.prems(3) x by simp
  have due: "fst (deferUntilDue dueAt n m p1) = fst (deferUntilDue dueAt n m p2)" for n m p1 p2
    by (simp add: deferUntilDue_def split: option.splits)
  show ?case
  proof (cases "deferUntilDue dueAt now (toMessage r) pt")
    case (Pair d pt1)
    show ?thesis
    proof (cases d)
      case True
      then have "pt' = pt1" using Cons.prems(2) Pair by (simp add: x)
      moreover have "pt_Committed pt1 = off" "pt_Paused pt1 \<noteq> None"
        using Pair True Cons.prems(4) by (auto simp: deferUntilDue_def split: option.splits if_splits)
      ultimately show ?thesis using Cons.prems(1) [of 0] Pair True by (simp add: x)
    next
      case False
      obtain res s1 where h: "handler (toMessage r) s = (res, s1)" by (cases "handler (toMessage r) s")
      have rest: "handlePartition dueAt handler (Suc off) rs (pt1\<lparr>pt_Committed := Suc off\<rparr>) s1 = (pt', s')"
        using Cons.prems(2) Pair False h ok by (simp add: x)
      obtain k where k: "k \<le> length rs" "pt_Committed pt' = Suc off + k"
        "\<forall>j < k. case rs ! j of (now, r, _) \<Rightarrow> \<not> fst (deferUntilDue dueAt now (toMessage r) (pt1\<lparr>pt_Committed := Suc off\<rparr>))"
        "k < length rs \<Longrightarrow> (case rs ! k of (now, r, _) \<Rightarrow> fst (deferUntilDue dueAt now (toMessage r) (pt1\<lparr>pt_Committed := Suc off\<rparr>))) \<and> pt_Paused pt' \<noteq> None"
        using Cons.IH [OF _ rest] Cons.prems(3) by auto
      have fj: "case (x # rs) ! j of (now, r, _) \<Rightarrow> \<not> fst (deferUntilDue dueAt now (toMessage r) pt)" if "j < Suc k" for j
      proof (cases j)
        case 0
        then show ?thesis using Pair False by (simp add: x)
      next
        case (Suc i)
        then show ?thesis using k(3) that due by (fastforce split: prod.splits)
      qed
      have last: "Suc k < length (x # rs) \<Longrightarrow>
          (case (x # rs) ! Suc k of (now, r, _) \<Rightarrow> fst (deferUntilDue dueAt now (toMessage r) pt)) \<and> pt_Paused pt' \<noteq> None"
        using k(4) due by (fastforce split: prod.splits)
      show ?thesis by (rule Cons.prems(1) [of "Suc k"]) (use k(1,2) fj last in auto)
    qed
  qed
qed

end
