(* ===== verification/Webhook.thy ===== *)
theory Webhook
  imports PaymentSafety
begin

text \<open>
  Provider callbacks (internal/webhook): the raw event log with its deduplication constraint
  (store.go, migration 8), the ingestor that verifies, stores and enqueues a delivery in one
  transaction (ingest.go), the processor that decides under the provider's own ordering token and
  applies the decision to a payment (processor.go), the replay that asks the same question of the
  whole log without writing (replay.go), and the simulator's signature scheme
  (providers/simulator.go). A verifier is an interface of the code and a record of functions here.
  HMAC-SHA256, the JSON decoder, the name-based UUID and the database's collation are parameters.
\<close>

section \<open>Events and verifiers (event.go)\<close>

record Event =
  ev_ProviderEventID :: string
  ev_Reference :: string
  ev_Sequence :: int
  ev_OccurredAt :: time
  ev_Status :: Status
  ev_RawStatus :: string

type_synonym Headers = "string \<Rightarrow> string"

record Verifier =
  vf_Name :: string
  vf_Verify :: "Headers \<Rightarrow> string \<Rightarrow> time \<Rightarrow> unit result"
  vf_Parse :: "string \<Rightarrow> Event result"
  vf_SignatureHeader :: string

text \<open>The registry is a map filled in order: of two verifiers with one name the later stays.\<close>

definition WebhookRegistry_New :: "Verifier list \<Rightarrow> string \<rightharpoonup> Verifier" where
  "WebhookRegistry_New vs = foldl (\<lambda>m v. m(vf_Name v \<mapsto> v)) Map.empty vs"

definition WebhookRegistry_Get :: "(string \<rightharpoonup> Verifier) \<Rightarrow> string \<Rightarrow> Verifier result" where
  "WebhookRegistry_Get r name = (case r name of None \<Rightarrow> Inl ErrUnknownProvider | Some v \<Rightarrow> Inr v)"

section \<open>The raw event log (store.go)\<close>

definition Normalized :: "RawEvent \<Rightarrow> Verifier \<Rightarrow> Event result" where
  "Normalized e v = vf_Parse v (re_Payload e)"

text \<open>\<open>ON CONFLICT DO NOTHING\<close>: the second component tells whether the row is new.\<close>

definition Webhook_Insert :: "time \<Rightarrow> RawEvent \<Rightarrow> db \<Rightarrow> nat \<times> bool \<times> db" where
  "Webhook_Insert now e d =
     (if list_ex (\<lambda>x. re_Provider x = re_Provider e \<and> re_ProviderEventID x = re_ProviderEventID e) (db_webhooks d)
      then (0, False, d)
      else (db_nextid d, True,
            d\<lparr>db_webhooks := db_webhooks d @ [e\<lparr>re_ID := db_nextid d, re_TransactionID := 0,
                re_Status := OutcomeReceived, re_Note := [], re_ReceivedAt := now\<rparr>],
              db_nextid := Suc (db_nextid d)\<rparr>))"

definition event_row :: "nat \<Rightarrow> db \<Rightarrow> RawEvent option" where
  "event_row i d = tfind (\<lambda>e. re_ID e = i) (db_webhooks d)"

definition scanRawEvent :: "RawEvent option \<Rightarrow> RawEvent result" where
  "scanRawEvent row = (case row of None \<Rightarrow> Inl ErrEventNotFound | Some e \<Rightarrow> Inr e)"

definition Webhook_Get :: "nat \<Rightarrow> db \<Rightarrow> RawEvent result" where
  "Webhook_Get i d = scanRawEvent (event_row i d)"

definition GetForUpdate :: "nat \<Rightarrow> db \<Rightarrow> RawEvent result" where
  "GetForUpdate i d = scanRawEvent (event_row i d)"

definition Webhook_Resolve :: "nat \<Rightarrow> WebhookOutcome \<Rightarrow> uuid \<Rightarrow> string \<Rightarrow> db \<Rightarrow> db result" where
  "Webhook_Resolve i outcome transactionID note d =
     (if event_row i d \<noteq> None \<and> transactionID \<noteq> 0 \<and> payment_row transactionID d = None
      then Inl (ErrConstraint ''webhook_events_raw_transaction_id_fkey'')
      else Inr (d\<lparr>db_webhooks := tupdate (\<lambda>e. re_ID e = i)
             (\<lambda>e. e\<lparr>re_Status := outcome, re_Note := note,
                    re_TransactionID := (if transactionID = 0 then re_TransactionID e else transactionID)\<rparr>)
             (db_webhooks d)\<rparr>))"

text \<open>\<open>ORDER BY reference, sequence, id\<close>; how the database compares two references is its collation.\<close>

definition replay_le :: "(string \<Rightarrow> string \<Rightarrow> bool) \<Rightarrow> RawEvent \<Rightarrow> RawEvent \<Rightarrow> bool" where
  "replay_le collate a b =
     (if re_Reference a \<noteq> re_Reference b then collate (re_Reference a) (re_Reference b)
      else if re_Sequence a \<noteq> re_Sequence b then re_Sequence a < re_Sequence b
      else re_ID a \<le> re_ID b)"

fun insert_by :: "('a \<Rightarrow> 'a \<Rightarrow> bool) \<Rightarrow> 'a \<Rightarrow> 'a list \<Rightarrow> 'a list" where
  "insert_by le x [] = [x]"
| "insert_by le x (y # ys) = (if le x y then x # y # ys else y # insert_by le x ys)"

definition ListForReplay :: "(string \<Rightarrow> string \<Rightarrow> bool) \<Rightarrow> db \<Rightarrow> RawEvent list result" where
  "ListForReplay collate d = Inr (foldr (insert_by (replay_le collate)) (db_webhooks d) [])"

definition statusImpliesNoChange :: "Status \<Rightarrow> bool" where
  "statusImpliesNoChange s \<longleftrightarrow> s = StatusPending \<or> s = StatusRequiresAction"

section \<open>Ingestion (ingest.go)\<close>

record Ingestor =
  ig_registry :: "string \<rightharpoonup> Verifier"
  ig_sha1 :: "string \<Rightarrow> uuid"
  ig_topicWebhook :: string

record IngestResult =
  ir_RawEventID :: nat
  ir_Duplicate :: bool

definition eventUUID :: "(string \<Rightarrow> uuid) \<Rightarrow> string \<Rightarrow> string \<Rightarrow> uuid" where
  "eventUUID sha1 provider providerEventID = sha1 (provider @ '':'' @ providerEventID)"

definition ingest_body ::
  "Ingestor \<Rightarrow> uuid \<Rightarrow> time \<Rightarrow> string \<Rightarrow> Event \<Rightarrow> RawEvent \<Rightarrow> IngestResult body" where
  "ingest_body ig newID now provider event raw res d =
     (case Webhook_Insert now raw d of (i, inserted, d1) \<Rightarrow>
        if \<not> inserted then (res\<lparr>ir_Duplicate := True\<rparr>, Inr d1)
        else (res\<lparr>ir_RawEventID := i\<rparr>,
              ebind (Enqueue newID now
                \<lparr>msg_EventID = eventUUID (ig_sha1 ig) provider (ev_ProviderEventID event),
                 msg_AggregateID = eventUUID (ig_sha1 ig) provider (ev_ProviderEventID event),
                 msg_PartitionKey = ev_Reference event, msg_Topic = ig_topicWebhook ig,
                 msg_Payload = WebhookReceived i provider (ev_Reference event)\<rparr> d1) (\<lambda>(_, d2). Inr d2)))"

definition Ingest ::
  "Ingestor \<Rightarrow> uuid \<Rightarrow> time \<Rightarrow> string \<Rightarrow> Headers \<Rightarrow> string \<Rightarrow> world \<Rightarrow> IngestResult result \<times> world" where
  "Ingest ig newID now provider hdr bdy w =
     (case ebind (WebhookRegistry_Get (ig_registry ig) provider) (\<lambda>verifier.
           ebind (vf_Verify verifier hdr bdy now) (\<lambda>_.
           ebind (vf_Parse verifier bdy) (\<lambda>event. Inr (verifier, event)))) of
        Inl e \<Rightarrow> (Inl e, w)
      | Inr (verifier, event) \<Rightarrow>
          let raw = \<lparr>re_ID = 0, re_Provider = provider, re_ProviderEventID = ev_ProviderEventID event,
                     re_Payload = bdy, re_Signature = hdr (vf_SignatureHeader verifier),
                     re_Sequence = ev_Sequence event, re_OccurredAt = ev_OccurredAt event,
                     re_Reference = ev_Reference event, re_TransactionID = 0, re_Status = OutcomeReceived,
                     re_Note = [], re_ReceivedAt = 0\<rparr>
          in (case tx_at Global (ingest_body ig newID now provider event raw)
                    \<lparr>ir_RawEventID = 0, ir_Duplicate = False\<rparr> w of
                (_, Inl e, w1) \<Rightarrow> (Inl e, w1)
              | (res, Inr _, w1) \<Rightarrow> (Inr res, w1)))"

section \<open>Processing (processor.go)\<close>

record Processor =
  pc_registry :: "string \<rightharpoonup> Verifier"
  pc_collate :: "string \<Rightarrow> string \<Rightarrow> bool"

record decision =
  de_outcome :: WebhookOutcome
  de_target :: State
  de_note :: string
  de_transaction :: Transaction

fun stateFor :: "Status \<Rightarrow> State option" where
  "stateFor StatusAuthorized = Some StateAuthorized"
| "stateFor StatusFailed = Some StateFailed"
| "stateFor StatusVoided = Some StateCancelled"
| "stateFor _ = None"

fun state_string :: "State \<Rightarrow> string" where
  "state_string StateCreated = ''created''"
| "state_string StateAuthorizing = ''authorizing''"
| "state_string StateAuthorized = ''authorized''"
| "state_string StateCapturing = ''capturing''"
| "state_string StateCaptured = ''captured''"
| "state_string StateSettled = ''settled''"
| "state_string StateFailed = ''failed''"
| "state_string StateCancelled = ''cancelled''"
| "state_string StateRefunded = ''refunded''"
| "state_string StatePartiallyRefunded = ''partially_refunded''"
| "state_string StateExpired = ''expired''"
| "state_string (StateOther s) = s"

definition evaluate :: "Processor \<Rightarrow> RawEvent \<Rightarrow> db \<Rightarrow> decision result" where
  "evaluate p raw d =
     ebind (WebhookRegistry_Get (pc_registry p) (re_Provider raw)) (\<lambda>verifier.
     ebind (Normalized raw verifier) (\<lambda>event.
     case GetByProviderReferenceForUpdate (re_Reference raw) d of
       Inl e \<Rightarrow> Inl (if e = ErrTxNotFound then ErrNotCorrelated else e)
     | Inr t \<Rightarrow>
         if re_Sequence raw \<le> t_LastAppliedEventSeq t then
           Inr \<lparr>de_outcome = OutcomeSuperseded, de_target = StateOther [],
                de_note = ''sequence '' @ show_int (re_Sequence raw) @ '' not newer than applied ''
                  @ show_int (t_LastAppliedEventSeq t), de_transaction = t\<rparr>
         else if statusImpliesNoChange (ev_Status event) then
           Inr \<lparr>de_outcome = OutcomeIgnored, de_target = StateOther [],
                de_note = ''status '' @ ev_RawStatus event @ '' implies no state change'', de_transaction = t\<rparr>
         else (case stateFor (ev_Status event) of
             None \<Rightarrow> Inr \<lparr>de_outcome = OutcomeIgnored, de_target = StateOther [],
                de_note = ''no transition defined for status '' @ ev_RawStatus event, de_transaction = t\<rparr>
           | Some target \<Rightarrow>
               if t_State t = target then
                 Inr \<lparr>de_outcome = OutcomeIgnored, de_target = StateOther [],
                      de_note = ''already '' @ state_string target @ ''; event confirms rather than changes'',
                      de_transaction = t\<rparr>
               else if \<not> CanTransitionTo (t_State t) target then
                 Inr \<lparr>de_outcome = OutcomeRejected, de_target = StateOther [],
                      de_note = ''illegal transition '' @ state_string (t_State t) @ '' -> '' @ state_string target,
                      de_transaction = t\<rparr>
               else Inr \<lparr>de_outcome = OutcomeApplied, de_target = target, de_note = [], de_transaction = t\<rparr>)))"

definition commit_decision :: "time \<Rightarrow> RawEvent \<Rightarrow> decision \<Rightarrow> db \<Rightarrow> db result" where
  "commit_decision now raw dec d =
     (let t = de_transaction dec in
      if de_outcome dec \<noteq> OutcomeApplied then
        ebind (if de_outcome dec = OutcomeIgnored
               then snd (Update now (t\<lparr>t_LastAppliedEventSeq := re_Sequence raw\<rparr>) d) else Inr d) (\<lambda>d1.
        Webhook_Resolve (re_ID raw) (de_outcome dec) (t_ID t) (de_note dec) d1)
      else
        ebind (TransitionTo now t (de_target dec)) (\<lambda>t1.
        ebind (snd (Update now (t1\<lparr>t_LastAppliedEventSeq := re_Sequence raw\<rparr>) d)) (\<lambda>d1.
        ebind (RecordStateChange (\<lambda>_. False)
          \<lparr>sc_TransactionID = t_ID t1, sc_From = Some (t_State t), sc_To = de_target dec,
           sc_Reason = ''provider webhook: '' @ re_ProviderEventID raw,
           sc_Actor = ''webhook:'' @ re_Provider raw, sc_SourceIP = []\<rparr> d1) (\<lambda>d2.
        Webhook_Resolve (re_ID raw) OutcomeApplied (t_ID t1) [] d2))))"

definition process_body :: "Processor \<Rightarrow> time \<Rightarrow> nat \<Rightarrow> WebhookOutcome option body" where
  "process_body p now rawEventID out d =
     (case GetForUpdate rawEventID d of
        Inl e \<Rightarrow> (out, Inl e)
      | Inr raw \<Rightarrow>
          if re_Status raw \<noteq> OutcomeReceived then (Some (re_Status raw), Inr d)
          else (case evaluate p raw d of
                  Inl e \<Rightarrow> (out, Inl e)
                | Inr dec \<Rightarrow> (Some (de_outcome dec), commit_decision now raw dec d)))"

definition Process :: "Processor \<Rightarrow> time \<Rightarrow> nat \<Rightarrow> world \<Rightarrow> WebhookOutcome option result \<times> world" where
  "Process p now rawEventID w =
     (case tx_at Global (process_body p now rawEventID) None w of
        (_, Inl e, w1) \<Rightarrow> (Inl e, w1)
      | (out, Inr _, w1) \<Rightarrow> (Inr out, w1))"

definition unmatched_body :: "nat \<Rightarrow> string \<Rightarrow> unit body" where
  "unmatched_body rawEventID note s d = (s, Webhook_Resolve rawEventID OutcomeUnmatched 0 note d)"

definition MarkUnmatched :: "nat \<Rightarrow> string \<Rightarrow> world \<Rightarrow> unit result \<times> world" where
  "MarkUnmatched rawEventID note w =
     (case tx_at Global (unmatched_body rawEventID note) () w of (_, r, w1) \<Rightarrow> (r, w1))"

section \<open>Replay (replay.go)\<close>

record ReplayEntry =
  rp_RawEventID :: nat
  rp_ProviderEventID :: string
  rp_Reference :: string
  rp_Sequence :: int
  rp_RecordedOutcome :: WebhookOutcome
  rp_ReplayOutcome :: WebhookOutcome
  rp_Note :: string

definition Changed :: "ReplayEntry \<Rightarrow> bool" where
  "Changed e \<longleftrightarrow> rp_ReplayOutcome e = OutcomeApplied"

record ReplayReport =
  rr_Entries :: "ReplayEntry list"
  rr_Changed :: nat

definition replay_entry :: "RawEvent \<Rightarrow> WebhookOutcome \<Rightarrow> string \<Rightarrow> ReplayEntry" where
  "replay_entry raw outcome note =
     \<lparr>rp_RawEventID = re_ID raw, rp_ProviderEventID = re_ProviderEventID raw, rp_Reference = re_Reference raw,
      rp_Sequence = re_Sequence raw, rp_RecordedOutcome = re_Status raw, rp_ReplayOutcome = outcome, rp_Note = note\<rparr>"

fun replay_loop :: "Processor \<Rightarrow> RawEvent list \<Rightarrow> ReplayReport \<Rightarrow> db \<Rightarrow> ReplayReport \<times> gerror" where
  "replay_loop p [] rep d = (rep, ErrOther ''replay complete, rolling back'')"
| "replay_loop p (raw # raws) rep d =
     (let add = (\<lambda>e. rep\<lparr>rr_Entries := rr_Entries rep @ [e],
                       rr_Changed := (if Changed e then rr_Changed rep + 1 else rr_Changed rep)\<rparr>) in
      case evaluate p raw d of
        Inl e \<Rightarrow> if e = ErrNotCorrelated
                 then replay_loop p raws (add (replay_entry raw OutcomeUnmatched ''no transaction matches the reference'')) d
                 else (rep, e)
      | Inr dec \<Rightarrow> replay_loop p raws (add (replay_entry raw (de_outcome dec) (de_note dec))) d)"

definition replay_body :: "Processor \<Rightarrow> RawEvent list \<Rightarrow> ReplayReport body" where
  "replay_body p raws rep d = (case replay_loop p raws rep d of (rep', e) \<Rightarrow> (rep', Inl e))"

definition Replay :: "Processor \<Rightarrow> world \<Rightarrow> ReplayReport result \<times> world" where
  "Replay p w =
     (case query_at Global (ListForReplay (pc_collate p)) w of
        (Inl e, w1) \<Rightarrow> (Inl e, w1)
      | (Inr events, w1) \<Rightarrow>
          (case tx_at Global (replay_body p events) \<lparr>rr_Entries = [], rr_Changed = 0\<rparr> w1 of
             (rep, Inl e, w2) \<Rightarrow> if e = ErrOther ''replay complete, rolling back'' then (Inr rep, w2) else (Inl e, w2)
           | (rep, Inr _, w2) \<Rightarrow> (Inr rep, w2)))"

section \<open>The simulator's scheme (providers/simulator.go)\<close>

record Simulator =
  sim_name :: string
  sim_secret :: string
  sim_tolerance :: int64

definition DefaultTolerance :: int64 where
  "DefaultTolerance = 300000000000"

definition NewSimulator :: "string \<Rightarrow> string \<Rightarrow> Simulator" where
  "NewSimulator name secret = \<lparr>sim_name = name, sim_secret = secret, sim_tolerance = DefaultTolerance\<rparr>"

definition headerTimestamp :: string where
  "headerTimestamp = ''X-Sim-Timestamp''"

definition headerSignature :: string where
  "headerSignature = ''X-Sim-Signature''"

text \<open>\<open>time.Unix\<close>, whose internal seconds count from year 1 and wrap;
  \<open>Time.Sub\<close>, which saturates at the ends of \<open>Duration\<close>.\<close>

definition time_Unix :: "int \<Rightarrow> time" where
  "time_Unix seconds = (wrap64 (seconds + 62135596800) - 62135596800) * 1000000000"

definition time_Sub :: "time \<Rightarrow> time \<Rightarrow> int64" where
  "time_Sub t u = (if in64 (t - u) then word_of_int (t - u) else if t < u then MinInt64 else word_of_int (2 ^ 63 - 1))"

definition Simulator_Verify :: "(string \<Rightarrow> string \<Rightarrow> string) \<Rightarrow> Simulator \<Rightarrow> Headers \<Rightarrow> string \<Rightarrow> time \<Rightarrow> unit result" where
  "Simulator_Verify hmac s hdr bdy now =
     (let rawTS = hdr headerTimestamp; signature = hdr headerSignature in
      if rawTS = [] \<or> signature = [] then Inl ErrInvalidSignature
      else (case ParseInt64 rawTS of
          None \<Rightarrow> Inl ErrInvalidSignature
        | Some seconds \<Rightarrow>
            let skew0 = time_Sub now (time_Unix seconds);
                skew = (if sint skew0 < 0 then - skew0 else skew0)
            in if sint skew > sint (sim_tolerance s) then Inl ErrTimestampOutsideWindow
               else if hmac (sim_secret s) (rawTS @ ''.'' @ bdy) \<noteq> signature then Inl ErrInvalidSignature
               else Inr ()))"

record simulatorEvent =
  se_ID :: string
  se_Type :: string
  se_Reference :: string
  se_Status :: string
  se_CreatedAt :: time
  se_Sequence :: int

definition mapSimulatorStatus :: "string \<Rightarrow> Status" where
  "mapSimulatorStatus raw =
     (if raw = ''AUTH_OK'' then StatusAuthorized
      else if raw = ''CAPTURED'' then StatusCaptured
      else if raw = ''REFUNDED'' then StatusRefunded
      else if raw = ''VOIDED'' then StatusVoided
      else if raw = ''FAILED'' then StatusFailed
      else if raw = ''ACTION_REQUIRED'' then StatusRequiresAction
      else StatusPending)"

definition Simulator_Parse :: "(string \<Rightarrow> simulatorEvent option) \<Rightarrow> string \<Rightarrow> Event result" where
  "Simulator_Parse unmarshal bdy =
     (case unmarshal bdy of
        None \<Rightarrow> Inl ErrMalformedPayload
      | Some raw \<Rightarrow>
          if se_ID raw = [] \<or> se_Reference raw = [] then Inl ErrMalformedPayload
          else Inr \<lparr>ev_ProviderEventID = se_ID raw, ev_Reference = se_Reference raw, ev_Sequence = se_Sequence raw,
                    ev_OccurredAt = se_CreatedAt raw, ev_Status = mapSimulatorStatus (se_Status raw),
                    ev_RawStatus = se_Status raw\<rparr>)"

definition Simulator_Verifier ::
  "(string \<Rightarrow> string \<Rightarrow> string) \<Rightarrow> (string \<Rightarrow> simulatorEvent option) \<Rightarrow> Simulator \<Rightarrow> Verifier" where
  "Simulator_Verifier hmac unmarshal s =
     \<lparr>vf_Name = sim_name s, vf_Verify = Simulator_Verify hmac s, vf_Parse = Simulator_Parse unmarshal,
      vf_SignatureHeader = headerSignature\<rparr>"

end
