(* ===== verification/WebhookSafety.thy ===== *)
theory WebhookSafety
  imports Webhook
begin

text \<open>
  What the processing of provider callbacks guarantees: it is a well-behaved process of the payment
  databases, an event is decided once and by its own sequence number, deliveries in any order apply
  strictly increasing sequence numbers to a payment, ingestion stores and enqueues together and once,
  and replaying the log writes nothing. Also what it does not guarantee: an event that is refused
  because it overtook another is lost for good, and only payments of physical database 0 are found.
\<close>

section \<open>The decision\<close>

definition newer :: "RawEvent \<Rightarrow> Transaction \<Rightarrow> bool" where
  "newer raw t \<longleftrightarrow> t_LastAppliedEventSeq t < re_Sequence raw"

lemma evaluate_Inr:
  assumes "evaluate p raw d = Inr dec"
  shows "GetByProviderReferenceForUpdate (re_Reference raw) d = Inr (de_transaction dec)"
    "de_outcome dec \<noteq> OutcomeReceived" "de_outcome dec \<noteq> OutcomeUnmatched"
    "de_outcome dec = OutcomeSuperseded \<longleftrightarrow> \<not> newer raw (de_transaction dec)"
    "de_outcome dec = OutcomeApplied \<Longrightarrow> CanTransitionTo (t_State (de_transaction dec)) (de_target dec)
       \<and> t_State (de_transaction dec) \<noteq> de_target dec
       \<and> (\<exists>v ev. pc_registry p (re_Provider raw) = Some v \<and> vf_Parse v (re_Payload raw) = Inr ev \<and> stateFor (ev_Status ev) = Some (de_target dec))"
proof -
  obtain v ev where v: "pc_registry p (re_Provider raw) = Some v" "vf_Parse v (re_Payload raw) = Inr ev"
    using assms by (auto simp: evaluate_def ebind_Inr_iff WebhookRegistry_Get_def Normalized_def split: option.splits)
  obtain t where t: "GetByProviderReferenceForUpdate (re_Reference raw) d = Inr t"
    using assms v by (cases "GetByProviderReferenceForUpdate (re_Reference raw) d")
      (simp_all add: evaluate_def WebhookRegistry_Get_def Normalized_def)
  note e = assms [unfolded evaluate_def WebhookRegistry_Get_def Normalized_def v t sum.case option.case ebind.simps]
  have "de_transaction dec = t \<and> de_outcome dec \<noteq> OutcomeReceived \<and> de_outcome dec \<noteq> OutcomeUnmatched
    \<and> (de_outcome dec = OutcomeSuperseded \<longleftrightarrow> \<not> newer raw t)
    \<and> (de_outcome dec = OutcomeApplied \<longrightarrow> CanTransitionTo (t_State t) (de_target dec) \<and> t_State t \<noteq> de_target dec
        \<and> stateFor (ev_Status ev) = Some (de_target dec))"
  proof (cases "newer raw t \<and> \<not> statusImpliesNoChange (ev_Status ev)")
    case False
    then show ?thesis using e by (auto simp: newer_def split: if_splits)
  next
    case True
    then show ?thesis using e by (cases "stateFor (ev_Status ev)") (auto simp: newer_def split: if_splits)
  qed
  then show "GetByProviderReferenceForUpdate (re_Reference raw) d = Inr (de_transaction dec)"
    "de_outcome dec \<noteq> OutcomeReceived" "de_outcome dec \<noteq> OutcomeUnmatched"
    "de_outcome dec = OutcomeSuperseded \<longleftrightarrow> \<not> newer raw (de_transaction dec)"
    "de_outcome dec = OutcomeApplied \<Longrightarrow> CanTransitionTo (t_State (de_transaction dec)) (de_target dec)
       \<and> t_State (de_transaction dec) \<noteq> de_target dec
       \<and> (\<exists>v ev. pc_registry p (re_Provider raw) = Some v \<and> vf_Parse v (re_Payload raw) = Inr ev \<and> stateFor (ev_Status ev) = Some (de_target dec))"
    using t v by blast+
qed

lemma by_reference:
  assumes "GetByProviderReferenceForUpdate reference d = Inr t" "payments_ok d"
  shows "payment_row (t_ID t) d = Some t" "t_PSPReference t = reference" "reference \<noteq> []"
    "tfind (\<lambda>r. t_PSPReference r \<noteq> [] \<and> t_PSPReference r = reference) (db_payments d) = Some t"
proof -
  obtain r where f: "tfind (\<lambda>r. t_PSPReference r \<noteq> [] \<and> t_PSPReference r = reference) (db_payments d) = Some r"
    using assms(1) by (auto simp: GetByProviderReferenceForUpdate_def scanTransaction_def split: option.splits)
  note r = tfind_SomeD [OF f]
  have "txn_inv r" using r assms(2) by (auto simp: payments_ok_def)
  then have "m_currency (t_Captured r) = m_currency (t_Amount r)" "m_currency (t_Refunded r) = m_currency (t_Amount r)"
    by (auto simp: txn_inv_def)
  then have t: "t = r" using assms(1) f
    by (auto simp: GetByProviderReferenceForUpdate_def scanTransaction_def Let_def err_simps)
  then show "tfind (\<lambda>r. t_PSPReference r \<noteq> [] \<and> t_PSPReference r = reference) (db_payments d) = Some t" using f by simp
  show "t_PSPReference t = reference" "reference \<noteq> []" using t r by auto
  obtain x where x: "payment_row (t_ID t) d = Some x"
    using r t tfind_Some_iff_exists [of "\<lambda>x. t_ID x = t_ID t" "db_payments d"] unfolding payment_row_def by blast
  have "x = t" using payment_row_Some [OF x] r t assms(2) inj_onD [of t_ID "set (db_payments d)" x t]
    by (simp add: payments_ok_def distinct_map)
  then show "payment_row (t_ID t) d = Some t" using x by simp
qed

section \<open>Writing it\<close>

text \<open>What one decided event does to a database that satisfies the invariant: the whole effect, by outcome.\<close>

definition payment_effect :: "Processor \<Rightarrow> RawEvent \<Rightarrow> Transaction \<Rightarrow> WebhookOutcome \<Rightarrow> db \<Rightarrow> db \<Rightarrow> bool" where
  "payment_effect p raw t out d d' \<longleftrightarrow>
     (case out of
        OutcomeApplied \<Rightarrow> \<exists>target t'. CanTransitionTo (t_State t) target \<and> target \<noteq> t_State t
          \<and> (\<exists>v ev. pc_registry p (re_Provider raw) = Some v \<and> vf_Parse v (re_Payload raw) = Inr ev \<and> stateFor (ev_Status ev) = Some target)
          \<and> payment_row (t_ID t) d' = Some t' \<and> t_State t' = target \<and> t_LastAppliedEventSeq t' = re_Sequence raw
          \<and> t_Amount t' = t_Amount t \<and> t_Captured t' = t_Captured t \<and> t_Refunded t' = t_Refunded t
          \<and> trail (t_ID t) d' = trail (t_ID t) d @ [(Some (t_State t), target)]
      | OutcomeIgnored \<Rightarrow> db_changes d' = db_changes d \<and> (\<exists>at. payment_row (t_ID t) d'
          = Some (t\<lparr>t_LastAppliedEventSeq := re_Sequence raw, t_Version := t_Version t + 1, t_UpdatedAt := at\<rparr>))
      | OutcomeSuperseded \<Rightarrow> db_payments d' = db_payments d \<and> db_changes d' = db_changes d
      | OutcomeRejected \<Rightarrow> db_payments d' = db_payments d \<and> db_changes d' = db_changes d
      | _ \<Rightarrow> False)"

definition decided :: "Processor \<Rightarrow> RawEvent \<Rightarrow> WebhookOutcome \<Rightarrow> db \<Rightarrow> db \<Rightarrow> bool" where
  "decided p raw out d d' \<longleftrightarrow>
     (\<exists>t. tfind (\<lambda>r. t_PSPReference r \<noteq> [] \<and> t_PSPReference r = re_Reference raw) (db_payments d) = Some t
        \<and> payment_row (t_ID t) d = Some t \<and> t_PSPReference t = re_Reference raw
        \<and> event_row (re_ID raw) d' = Some (raw\<lparr>re_Status := out, re_Note := re_Note (the (event_row (re_ID raw) d')),
             re_TransactionID := (if t_ID t = 0 then re_TransactionID raw else t_ID t)\<rparr>)
        \<and> (out = OutcomeSuperseded \<longleftrightarrow> \<not> newer raw t)
        \<and> (\<forall>j. j \<noteq> t_ID t \<longrightarrow> payment_row j d' = payment_row j d \<and> trail j d' = trail j d)
        \<and> payment_effect p raw t out d d')"

lemma Webhook_Resolve_Inr:
  assumes "Webhook_Resolve i out tx note d = Inr d'"
  shows "db_payments d' = db_payments d" "db_changes d' = db_changes d" "db_entries d' = db_entries d"
    "db_postings d' = db_postings d" "db_accounts d' = db_accounts d" "db_nextid d' = db_nextid d"
    "payment_row j d' = payment_row j d" "trail j d' = trail j d"
    "event_row j d' = (if j = i then map_option (\<lambda>e. e\<lparr>re_Status := out, re_Note := note,
        re_TransactionID := (if tx = 0 then re_TransactionID e else tx)\<rparr>) (event_row j d) else event_row j d)"
proof -
  have d': "d' = d\<lparr>db_webhooks := tupdate (\<lambda>e. re_ID e = i) (\<lambda>e. e\<lparr>re_Status := out, re_Note := note,
        re_TransactionID := (if tx = 0 then re_TransactionID e else tx)\<rparr>) (db_webhooks d)\<rparr>"
    using assms by (auto simp: Webhook_Resolve_def split: if_splits)
  show "db_payments d' = db_payments d" "db_changes d' = db_changes d" "db_entries d' = db_entries d"
    "db_postings d' = db_postings d" "db_accounts d' = db_accounts d" "db_nextid d' = db_nextid d"
    "payment_row j d' = payment_row j d" "trail j d' = trail j d"
    by (simp_all add: d' payment_row_def trail_def)
  show "event_row j d' = (if j = i then map_option (\<lambda>e. e\<lparr>re_Status := out, re_Note := note,
        re_TransactionID := (if tx = 0 then re_TransactionID e else tx)\<rparr>) (event_row j d) else event_row j d)"
    by (auto simp: d' event_row_def tfind_tupdate map_option_case split: option.splits dest!: tfind_SomeD)
qed

lemma resolve_rel:
  assumes "Webhook_Resolve i out tx note d = Inr d'" "pay_rel d0 d"
  shows "pay_rel d0 d'"
proof -
  note r = Webhook_Resolve_Inr [OF assms(1)]
  have "shard_inv d'" if "shard_inv d"
    by (rule shard_inv_frame [OF that])
      (use that r in \<open>simp_all add: shard_inv_def ledger_ok_def ledger_total_def accounts_ok_def\<close>)
  then show ?thesis using assms(2) r(7) by (simp add: pay_rel_def)
qed

lemma snd_Inr: "snd (Update now t d) = Inr d' \<Longrightarrow> \<exists>t'. Update now t d = (t', Inr d')"
  by (cases "Update now t d") simp

text \<open>The transaction read from the database, with the new high-water mark: what the two branches write.\<close>

lemma applied_step:
  assumes u: "Update now (t\<lparr>t_State := target, t_UpdatedAt := now, t_LastAppliedEventSeq := q\<rparr>) d = (t2, Inr d1)"
    and rc: "RecordStateChange inet \<lparr>sc_TransactionID = t_ID t, sc_From = Some (t_State t), sc_To = target,
       sc_Reason = reason, sc_Actor = actor, sc_SourceIP = []\<rparr> d1 = Inr d2"
    and row: "shard_inv d \<Longrightarrow> payment_row (t_ID t) d = Some t"
  shows "pay_rel d d2"
    "payment_row (t_ID t) d = Some t \<Longrightarrow> t_LastAppliedEventSeq t < q \<Longrightarrow> txn_inv t \<Longrightarrow>
       (\<exists>t'. payment_row (t_ID t) d2 = Some t' \<and> t_State t' = target \<and> t_LastAppliedEventSeq t' = q
          \<and> t_Amount t' = t_Amount t \<and> t_Captured t' = t_Captured t \<and> t_Refunded t' = t_Refunded t)
       \<and> trail (t_ID t) d2 = trail (t_ID t) d @ [(Some (t_State t), target)]"
    "db_webhooks d2 = db_webhooks d"
    "j \<noteq> t_ID t \<Longrightarrow> payment_row j d2 = payment_row j d \<and> trail j d2 = trail j d"
proof -
  note d2 = RecordStateChange_Inr(1) [OF rc]
  have rows: "payment_row i d2 = payment_row i d1" for i by (simp add: d2 payment_row_def)
  have "shard_inv d2" if "shard_inv d"
    by (rule update_and_record(1) [OF tracks_row [OF row [OF that]] u _ _ rc _ _ _ that]) simp_all
  then show "pay_rel d d2" unfolding pay_rel_def using Update_rows [OF u] rows by simp
  show "db_webhooks d2 = db_webhooks d" by (simp add: d2 Update_Inr(2) [OF u])
  show "j \<noteq> t_ID t \<Longrightarrow> payment_row j d2 = payment_row j d \<and> trail j d2 = trail j d"
    using payment_row_Update [OF u, of j] rows by (simp add: trail_def d2 Update_Inr(2) [OF u])
  assume *: "payment_row (t_ID t) d = Some t" "t_LastAppliedEventSeq t < q" "txn_inv t"
  have "payment_row (t_ID t) d2 = Some (updated_row now (t\<lparr>t_State := target, t_UpdatedAt := now, t_LastAppliedEventSeq := q\<rparr>) t)"
    using payment_row_Update [OF u, of "t_ID t"] *(1) rows by simp
  moreover have "m_currency (t_Captured t) = m_currency (t_Amount t)" "m_currency (t_Refunded t) = m_currency (t_Amount t)"
    using *(3) by (auto simp: txn_inv_def)
  moreover have "trail (t_ID t) d2 = trail (t_ID t) d @ [(Some (t_State t), target)]"
    by (simp add: trail_def d2 Update_Inr(2) [OF u])
  ultimately show "(\<exists>t'. payment_row (t_ID t) d2 = Some t' \<and> t_State t' = target \<and> t_LastAppliedEventSeq t' = q
          \<and> t_Amount t' = t_Amount t \<and> t_Captured t' = t_Captured t \<and> t_Refunded t' = t_Refunded t)
       \<and> trail (t_ID t) d2 = trail (t_ID t) d @ [(Some (t_State t), target)]"
    using *(2) by (auto simp: updated_row_def)
qed

lemma ignored_step:
  assumes u: "Update now (t\<lparr>t_LastAppliedEventSeq := q\<rparr>) d = (t2, Inr d1)"
    and row: "shard_inv d \<Longrightarrow> payment_row (t_ID t) d = Some t"
  shows "pay_rel d d1"
    "payment_row (t_ID t) d = Some t \<Longrightarrow> t_LastAppliedEventSeq t < q \<Longrightarrow> txn_inv t \<Longrightarrow>
       \<exists>at. payment_row (t_ID t) d1 = Some (t\<lparr>t_LastAppliedEventSeq := q, t_Version := t_Version t + 1, t_UpdatedAt := at\<rparr>)"
    "db_webhooks d1 = db_webhooks d" "db_changes d1 = db_changes d"
    "j \<noteq> t_ID t \<Longrightarrow> payment_row j d1 = payment_row j d \<and> trail j d1 = trail j d"
proof -
  have "shard_inv d1" if "shard_inv d"
  proof -
    have "tracks d (t\<lparr>t_LastAppliedEventSeq := q\<rparr>)" using tracks_row [OF row [OF that]] by (simp add: tracks_def)
    from persist_step(1) [OF this u] that show ?thesis by (simp add: pay_rel_def)
  qed
  then show "pay_rel d d1" unfolding pay_rel_def using Update_rows [OF u] by blast
  show "db_webhooks d1 = db_webhooks d" "db_changes d1 = db_changes d" by (simp_all add: Update_Inr(2) [OF u])
  show "j \<noteq> t_ID t \<Longrightarrow> payment_row j d1 = payment_row j d \<and> trail j d1 = trail j d"
    using payment_row_Update [OF u, of j] by (simp add: trail_def Update_Inr(2) [OF u])
  assume *: "payment_row (t_ID t) d = Some t" "t_LastAppliedEventSeq t < q" "txn_inv t"
  then show "\<exists>at. payment_row (t_ID t) d1 = Some (t\<lparr>t_LastAppliedEventSeq := q, t_Version := t_Version t + 1, t_UpdatedAt := at\<rparr>)"
    using payment_row_Update [OF u, of "t_ID t"] by (intro exI [of _ now]) (simp add: updated_row_def txn_inv_def)
qed

lemma commit_decision_step:
  assumes ev: "evaluate p raw d = Inr dec" and c: "commit_decision now raw dec d = Inr d'"
  shows "pay_rel d d'"
    "shard_inv d \<Longrightarrow> event_row (re_ID raw) d = Some raw \<Longrightarrow> decided p raw (de_outcome dec) d d'"
proof -
  let ?t = "de_transaction dec" and ?q = "re_Sequence raw"
  note e = evaluate_Inr [OF ev]
  have row: "payment_row (t_ID ?t) d = Some ?t" if "shard_inv d"
    using that by_reference(1) [OF e(1)] by (simp add: shard_inv_def)
  have inv: "t_PSPReference ?t = re_Reference raw" "txn_inv ?t"
    "tfind (\<lambda>r. t_PSPReference r \<noteq> [] \<and> t_PSPReference r = re_Reference raw) (db_payments d) = Some ?t" if "shard_inv d"
    using that by_reference(2,4) [OF e(1)] payment_row_Some [OF row [OF that]] by (auto simp: shard_inv_def payments_ok_def)
  have "pay_rel d d' \<and> (shard_inv d \<longrightarrow> event_row (re_ID raw) d = Some raw \<longrightarrow> decided p raw (de_outcome dec) d d')"
  proof (cases "de_outcome dec")
    case OutcomeApplied
    then obtain t1 d1 d2 where t1: "TransitionTo now ?t (de_target dec) = Inr t1"
      and u': "snd (Update now (t1\<lparr>t_LastAppliedEventSeq := ?q\<rparr>) d) = Inr d1"
      and rc': "RecordStateChange (\<lambda>_. False)
          \<lparr>sc_TransactionID = t_ID t1, sc_From = Some (t_State ?t), sc_To = de_target dec,
           sc_Reason = ''provider webhook: '' @ re_ProviderEventID raw,
           sc_Actor = ''webhook:'' @ re_Provider raw, sc_SourceIP = []\<rparr> d1 = Inr d2"
      and rs': "Webhook_Resolve (re_ID raw) OutcomeApplied (t_ID t1) [] d2 = Inr d'"
      using c by (auto simp: commit_decision_def Let_def ebind_Inr_iff)
    have t1': "t1 = ?t\<lparr>t_State := de_target dec, t_UpdatedAt := now\<rparr>" using t1 by (simp add: TransitionTo_Inr)
    obtain t2 where u: "Update now (?t\<lparr>t_State := de_target dec, t_UpdatedAt := now, t_LastAppliedEventSeq := ?q\<rparr>) d = (t2, Inr d1)"
      using snd_Inr [OF u'] by (auto simp: t1')
    have rc: "RecordStateChange (\<lambda>_. False)
          \<lparr>sc_TransactionID = t_ID ?t, sc_From = Some (t_State ?t), sc_To = de_target dec,
           sc_Reason = ''provider webhook: '' @ re_ProviderEventID raw,
           sc_Actor = ''webhook:'' @ re_Provider raw, sc_SourceIP = []\<rparr> d1 = Inr d2" using rc' by (simp add: t1')
    have rs: "Webhook_Resolve (re_ID raw) OutcomeApplied (t_ID ?t) [] d2 = Inr d'" using rs' by (simp add: t1')
    note a = applied_step [OF u rc row]
    note f = Webhook_Resolve_Inr [OF rs]
    have "decided p raw OutcomeApplied d d'" if "shard_inv d" "event_row (re_ID raw) d = Some raw"
    proof -
      have "event_row (re_ID raw) d2 = Some raw" using that(2) a(3) by (simp add: event_row_def)
      then have er: "event_row (re_ID raw) d' = Some (raw\<lparr>re_Status := OutcomeApplied, re_Note := [],
          re_TransactionID := (if t_ID ?t = 0 then re_TransactionID raw else t_ID ?t)\<rparr>)" using f(9) by simp
      have nw: "t_LastAppliedEventSeq ?t < ?q" using e(4) OutcomeApplied by (simp add: newer_def)
      note b = a(2) [OF that(1) row [OF that(1)] nw inv(2) [OF that(1)]]
      show ?thesis unfolding decided_def payment_effect_def
        using that(1) er b e(4,5) OutcomeApplied row [OF that(1)] inv(1,3) [OF that(1)] f(7,8) a(4) [OF that(1)]
        by (intro exI [of _ ?t]) auto
    qed
    then show ?thesis using resolve_rel [OF rs a(1)] OutcomeApplied by auto
  next
    case OutcomeIgnored
    then obtain d1 where u': "snd (Update now (?t\<lparr>t_LastAppliedEventSeq := ?q\<rparr>) d) = Inr d1"
      and rs: "Webhook_Resolve (re_ID raw) OutcomeIgnored (t_ID ?t) (de_note dec) d1 = Inr d'"
      using c by (auto simp: commit_decision_def Let_def ebind_Inr_iff)
    obtain t2 where u: "Update now (?t\<lparr>t_LastAppliedEventSeq := ?q\<rparr>) d = (t2, Inr d1)" using snd_Inr [OF u'] by blast
    note a = ignored_step [OF u row]
    note f = Webhook_Resolve_Inr [OF rs]
    have "decided p raw OutcomeIgnored d d'" if "shard_inv d" "event_row (re_ID raw) d = Some raw"
    proof -
      have er: "event_row (re_ID raw) d1 = Some raw" using that a(3) by (simp add: event_row_def)
      have nw: "t_LastAppliedEventSeq ?t < ?q" using e(4) OutcomeIgnored by (simp add: newer_def)
      note b = a(2) [OF that(1) row [OF that(1)] nw inv(2) [OF that(1)]]
      show ?thesis unfolding decided_def payment_effect_def
        using er b e(4) OutcomeIgnored row [OF that(1)] inv(1,3) [OF that(1)] f(2,7,8,9) a(4,5) that(1)
        by (intro exI [of _ ?t]) auto
    qed
    then show ?thesis using resolve_rel [OF rs a(1)] OutcomeIgnored by auto
  next
    case OutcomeSuperseded
    then have rs: "Webhook_Resolve (re_ID raw) OutcomeSuperseded (t_ID ?t) (de_note dec) d = Inr d'"
      using c by (simp add: commit_decision_def Let_def)
    note f = Webhook_Resolve_Inr [OF rs]
    have "decided p raw OutcomeSuperseded d d'" if "shard_inv d" "event_row (re_ID raw) d = Some raw"
      unfolding decided_def payment_effect_def using that e(4) OutcomeSuperseded row inv(1,3) f(1,2,7,8,9) by (intro exI [of _ ?t]) auto
    then show ?thesis using resolve_rel [OF rs pay_rel_refl] OutcomeSuperseded by simp
  next
    case OutcomeRejected
    then have rs: "Webhook_Resolve (re_ID raw) OutcomeRejected (t_ID ?t) (de_note dec) d = Inr d'"
      using c by (simp add: commit_decision_def Let_def)
    note f = Webhook_Resolve_Inr [OF rs]
    have "decided p raw OutcomeRejected d d'" if "shard_inv d" "event_row (re_ID raw) d = Some raw"
      unfolding decided_def payment_effect_def using that e(4) OutcomeRejected row inv(1,3) f(1,2,7,8,9) by (intro exI [of _ ?t]) auto
    then show ?thesis using resolve_rel [OF rs pay_rel_refl] OutcomeRejected by simp
  qed (use e in simp_all)
  then show "pay_rel d d'" "shard_inv d \<Longrightarrow> event_row (re_ID raw) d = Some raw \<Longrightarrow> decided p raw (de_outcome dec) d d'" by blast+
qed

section \<open>One delivery\<close>

lemma process_body_Inr:
  assumes "process_body p now i out d = (o', Inr d')"
  obtains raw where "event_row i d = Some raw" "re_ID raw = i" "re_Status raw \<noteq> OutcomeReceived" "o' = Some (re_Status raw)" "d' = d"
  | raw dec where "event_row i d = Some raw" "re_ID raw = i" "re_Status raw = OutcomeReceived" "o' = Some (de_outcome dec)"
      "evaluate p raw d = Inr dec" "commit_decision now raw dec d = Inr d'"
proof -
  obtain raw where raw: "event_row i d = Some raw"
    using assms by (auto simp: process_body_def GetForUpdate_def scanRawEvent_def split: option.splits)
  then have ri: "re_ID raw = i" by (auto simp: event_row_def dest: tfind_SomeD)
  show thesis
  proof (cases "re_Status raw = OutcomeReceived")
    case True
    then have "(case evaluate p raw d of Inl e \<Rightarrow> (out, Inl e) | Inr dec \<Rightarrow> (Some (de_outcome dec), commit_decision now raw dec d)) = (o', Inr d')"
      using assms raw by (simp add: process_body_def GetForUpdate_def scanRawEvent_def)
    then show thesis using that(2) [OF raw ri True] by (cases "evaluate p raw d") auto
  next
    case False
    then show thesis using that(1) [OF raw ri False] assms raw by (simp add: process_body_def GetForUpdate_def scanRawEvent_def)
  qed
qed

lemma process_rel:
  assumes "process_body p now i out d = (o', Inr d')"
  shows "pay_rel d d'"
  using assms by (cases rule: process_body_Inr) (auto intro: commit_decision_step(1))

lemma process_effect:
  assumes "process_body p now i out d = (o', Inr d')" "shard_inv d"
  shows "\<exists>raw. event_row i d = Some raw \<and>
     (if re_Status raw = OutcomeReceived then \<exists>x. o' = Some x \<and> decided p raw x d d' else o' = Some (re_Status raw) \<and> d' = d)"
  using assms(1)
proof (cases rule: process_body_Inr)
  case (2 raw dec)
  then show ?thesis using commit_decision_step(2) [OF 2(5,6) assms(2)] by simp
qed simp

lemma Process_world:
  assumes "sched_ok pay_env w" "Process p now i w = (r, w')"
  shows "pay_env (w_dbs w) (w_dbs w')" "sched_ok pay_env w'"
    "r = Inr out \<Longrightarrow> \<exists>d1. pay_env (w_dbs w) (seen w) \<and> 0 < length (seen w)
       \<and> process_body p now i None (seen w ! 0) = (out, Inr d1) \<and> w_dbs w' = (seen w)[0 := d1]"
proof -
  obtain o1 r1 where x: "tx_at Global (process_body p now i) None w = (o1, r1, w')"
    and r: "r = (case r1 of Inl e \<Rightarrow> Inl e | Inr _ \<Rightarrow> Inr o1)"
    using assms(2) by (auto simp: Process_def split: prod.splits sum.splits)
  have step: "\<forall>dbs s1 d1. pay_env (w_dbs w) dbs \<longrightarrow> Global < length dbs \<longrightarrow> process_body p now i None (dbs ! Global) = (s1, Inr d1)
      \<longrightarrow> commit_check (dbs ! Global) d1 = Inr () \<longrightarrow> pay_env dbs (dbs[Global := d1])"
    using pay_env_update process_rel by blast
  note t = pay.tx_at_rel [OF assms(1) x step]
  show "pay_env (w_dbs w) (w_dbs w')" "sched_ok pay_env w'" using t(1,2) .
  show "\<exists>d1. pay_env (w_dbs w) (seen w) \<and> 0 < length (seen w)
       \<and> process_body p now i None (seen w ! 0) = (out, Inr d1) \<and> w_dbs w' = (seen w)[0 := d1]" if "r = Inr out"
  proof -
    have "r1 = Inr ()" "o1 = out" using that r by (auto split: sum.splits)
    then show ?thesis using tx_at_seen [of Global] x pay.seen_rel [OF assms(1)] by (metis Global_def)
  qed
qed

section \<open>Deliveries in any order\<close>

text \<open>A schedule of deliveries on one database: before each, other processes may act; the transaction may
  fail in any way. The log collects, for one payment, the sequence numbers of the events that moved it.\<close>

definition moved :: "uuid \<Rightarrow> nat \<Rightarrow> db \<Rightarrow> db \<Rightarrow> int list" where
  "moved i k d d' = (if trail i d' = trail i d then [] else [re_Sequence (the (event_row k d))])"

type_synonym delivery = "(db \<Rightarrow> db) \<times> time \<times> nat \<times> tx_fault"

fun deliveries :: "Processor \<Rightarrow> uuid \<Rightarrow> delivery list \<Rightarrow> db \<Rightarrow> int list \<times> db" where
  "deliveries p i [] d = ([], d)"
| "deliveries p i ((env, now, k, f) # ds) d =
     (let d0 = env d; d1 = snd (snd (DB_WithTx f (process_body p now k) None d0)) in
      case deliveries p i ds d1 of (qs, d') \<Rightarrow> (moved i k d0 d1 @ qs, d'))"

definition marks_grow :: "db \<Rightarrow> db \<Rightarrow> bool" where
  "marks_grow d d' \<longleftrightarrow> (\<forall>i t. payment_row i d = Some t \<longrightarrow>
     (\<exists>t'. payment_row i d' = Some t' \<and> t_LastAppliedEventSeq t \<le> t_LastAppliedEventSeq t'))"

definition above_mark :: "uuid \<Rightarrow> db \<Rightarrow> int \<Rightarrow> bool" where
  "above_mark i d q \<longleftrightarrow> (\<exists>t. payment_row i d = Some t \<and> t_LastAppliedEventSeq t < q)"

definition at_mark :: "uuid \<Rightarrow> db \<Rightarrow> int \<Rightarrow> bool" where
  "at_mark i d q \<longleftrightarrow> (\<exists>t. payment_row i d = Some t \<and> t_LastAppliedEventSeq t = q)"

lemma marks_grow_refl [simp]: "marks_grow d d"
  by (auto simp: marks_grow_def)

lemma marks_grow_trans: "marks_grow d d' \<Longrightarrow> marks_grow d' d'' \<Longrightarrow> marks_grow d d''"
  unfolding marks_grow_def using order_trans by blast

lemma decided_marks:
  assumes "decided p raw x d d'"
  shows "marks_grow d d'" "trail i d' \<noteq> trail i d \<Longrightarrow> above_mark i d (re_Sequence raw) \<and> at_mark i d' (re_Sequence raw)"
proof -
  obtain t where t: "payment_row (t_ID t) d = Some t" "x = OutcomeSuperseded \<longleftrightarrow> \<not> newer raw t"
    "\<forall>j. j \<noteq> t_ID t \<longrightarrow> payment_row j d' = payment_row j d \<and> trail j d' = trail j d"
    and e: "payment_effect p raw t x d d'" using assms unfolding decided_def by blast
  have c: "(x = OutcomeApplied \<or> x = OutcomeIgnored \<and> trail (t_ID t) d' = trail (t_ID t) d)
        \<and> (\<exists>t'. payment_row (t_ID t) d' = Some t' \<and> t_LastAppliedEventSeq t' = re_Sequence raw)
      \<or> payment_row (t_ID t) d' = Some t \<and> trail (t_ID t) d' = trail (t_ID t) d"
    using e t(1) by (cases x) (auto simp: payment_effect_def payment_row_def trail_def)
  have "\<exists>t'. payment_row j d' = Some t' \<and> t_LastAppliedEventSeq r \<le> t_LastAppliedEventSeq t'" if "payment_row j d = Some r" for j r
  proof (cases "j = t_ID t")
    case True
    then show ?thesis using that t c by (auto simp: newer_def)
  qed (use that t in auto)
  then show "marks_grow d d'" by (auto simp: marks_grow_def)
  assume m: "trail i d' \<noteq> trail i d"
  then have "i = t_ID t" using t(3) by metis
  then show "above_mark i d (re_Sequence raw) \<and> at_mark i d' (re_Sequence raw)"
    using m t c by (auto simp: above_mark_def at_mark_def newer_def)
qed

lemma delivery_marks:
  assumes "shard_inv d" "d' = snd (snd (DB_WithTx f (process_body p now k) None d))"
  shows "shard_inv d'" "marks_grow d d'" "\<forall>q \<in> set (moved i k d d'). above_mark i d q \<and> at_mark i d' q" "length (moved i k d d') \<le> 1"
proof -
  obtain s' r where D: "DB_WithTx f (process_body p now k) None d = (s', r, d')"
    using assms(2) by (cases "DB_WithTx f (process_body p now k) None d") auto
  show "length (moved i k d d') \<le> 1" by (simp add: moved_def)
  from D have "shard_inv d' \<and> marks_grow d d' \<and> (\<forall>q \<in> set (moved i k d d'). above_mark i d q \<and> at_mark i d' q)"
  proof (cases rule: DB_WithTx_cases)
    case noop
    then show ?thesis using assms(1) by (simp add: moved_def)
  next
    case (committed d1)
    then have b: "process_body p now k None d = (s', Inr d')" by simp
    obtain raw where raw: "event_row k d = Some raw" "re_Status raw = OutcomeReceived \<Longrightarrow> \<exists>x. decided p raw x d d'"
      "re_Status raw \<noteq> OutcomeReceived \<Longrightarrow> d' = d"
      using process_effect [OF b assms(1)] by (auto split: if_splits)
    have "shard_inv d'" using process_rel [OF b] assms(1) by (simp add: pay_rel_def)
    then show ?thesis
      using raw decided_marks [of p raw _ d d'] by (cases "re_Status raw = OutcomeReceived") (auto simp: moved_def)
  qed
  then show "shard_inv d'" "marks_grow d d'" "\<forall>q \<in> set (moved i k d d'). above_mark i d q \<and> at_mark i d' q" by blast+
qed

lemma above_mark_grow: "marks_grow d d' \<Longrightarrow> above_mark i d' q \<Longrightarrow> payment_row i d \<noteq> None \<Longrightarrow> above_mark i d q"
  by (fastforce simp: marks_grow_def above_mark_def)

lemma at_mark_less: "at_mark i d q \<Longrightarrow> above_mark i d q' \<Longrightarrow> q < q'"
  by (auto simp: at_mark_def above_mark_def)

definition benign :: "db \<Rightarrow> db \<Rightarrow> bool" where
  "benign d d' \<longleftrightarrow> (shard_inv d \<longrightarrow> shard_inv d') \<and> marks_grow d d'"

lemma deliveries_above:
  assumes "shard_inv d" "\<forall>(env, _) \<in> set ds. \<forall>d. benign d (env d)" "deliveries p i ds d = (qs, d')"
  shows "sorted_wrt (<) qs \<and> shard_inv d' \<and> (payment_row i d \<noteq> None \<longrightarrow> (\<forall>q \<in> set qs. above_mark i d q))"
  using assms
proof (induction ds arbitrary: d qs)
  case (Cons x ds)
  obtain env now k f where x: "x = (env, now, k, f)" by (cases x)
  define d1 where "d1 = snd (snd (DB_WithTx f (process_body p now k) None (env d)))"
  obtain qs1 where rest: "deliveries p i ds d1 = (qs1, d')" and qs: "qs = moved i k (env d) d1 @ qs1"
    using Cons.prems(3) by (auto simp: x d1_def Let_def split: prod.splits)
  have env: "shard_inv (env d)" "marks_grow d (env d)" using Cons.prems(1,2) by (auto simp: x benign_def)
  note m = delivery_marks [OF env(1) d1_def]
  have IH: "sorted_wrt (<) qs1" "shard_inv d'" "payment_row i d1 \<noteq> None \<Longrightarrow> \<forall>q \<in> set qs1. above_mark i d1 q"
    using Cons.IH [OF m(1) _ rest] Cons.prems(2) by auto
  have g: "marks_grow d d1" using marks_grow_trans env(2) m(2) by blast
  have some: "payment_row i d1 \<noteq> None" if "payment_row i d \<noteq> None" using g that by (fastforce simp: marks_grow_def)
  have "sorted_wrt (<) qs"
  proof (cases "moved i k (env d) d1")
    case (Cons q l)
    then have l: "moved i k (env d) d1 = [q]" using m(4) [of i] by simp
    then have a: "at_mark i d1 q" using m(3) [of i] by simp
    then have "payment_row i d1 \<noteq> None" by (auto simp: at_mark_def)
    then show ?thesis using IH(1,3) at_mark_less [OF a] by (simp add: qs l)
  qed (simp add: qs IH)
  moreover have "\<forall>q \<in> set qs. above_mark i d q" if "payment_row i d \<noteq> None"
    using that IH(3) some m(3) [of i] above_mark_grow [OF g] above_mark_grow [OF env(2)] by (auto simp: qs)
  ultimately show ?case using IH(2) by blast
qed simp

section \<open>The log agrees with the payments\<close>

abbreviation has_reference :: "string \<Rightarrow> Transaction \<Rightarrow> bool" where
  "has_reference reference r \<equiv> t_PSPReference r \<noteq> [] \<and> t_PSPReference r = reference"

definition stale :: "db \<Rightarrow> RawEvent \<Rightarrow> bool" where
  "stale d e \<longleftrightarrow> (\<exists>t. tfind (has_reference (re_Reference e)) (db_payments d) = Some t \<and> \<not> newer e t)"

definition absorbed :: "WebhookOutcome \<Rightarrow> bool" where
  "absorbed x \<longleftrightarrow> x = OutcomeApplied \<or> x = OutcomeIgnored \<or> x = OutcomeSuperseded"

definition log_ok :: "db \<Rightarrow> bool" where
  "log_ok d \<longleftrightarrow> distinct (map re_ID (db_webhooks d)) \<and> (\<forall>e \<in> set (db_webhooks d). absorbed (re_Status e) \<longrightarrow> stale d e)"

lemma tfind_tupdate_in:
  "(\<And>r. r \<in> set rows \<Longrightarrow> P r \<Longrightarrow> Q (f r) \<longleftrightarrow> Q r) \<Longrightarrow>
    tfind Q (tupdate P f rows) = map_option (\<lambda>r. if P r then f r else r) (tfind Q rows)"
  by (induction rows) auto

text \<open>What a committed decision does to the two tables.\<close>

lemma commit_tables:
  assumes "evaluate p raw d = Inr dec" "commit_decision now raw dec d = Inr d'"
  shows "\<exists>note tx. db_webhooks d' = tupdate (\<lambda>e. re_ID e = re_ID raw)
      (\<lambda>e. e\<lparr>re_Status := de_outcome dec, re_Note := note, re_TransactionID := (if tx = 0 then re_TransactionID e else tx)\<rparr>) (db_webhooks d)"
    "(de_outcome dec = OutcomeApplied \<or> de_outcome dec = OutcomeIgnored) \<and>
       (\<exists>t1. t_ID t1 = t_ID (de_transaction dec) \<and> t_PSPReference t1 = t_PSPReference (de_transaction dec)
          \<and> t_LastAppliedEventSeq t1 = re_Sequence raw
          \<and> db_payments d' = tupdate (\<lambda>x. t_ID x = t_ID t1) (updated_row now t1) (db_payments d))
     \<or> de_outcome dec \<noteq> OutcomeApplied \<and> de_outcome dec \<noteq> OutcomeIgnored \<and> db_payments d' = db_payments d"
proof -
  let ?t = "de_transaction dec"
  have res: "db_payments d2 = db_payments d1 \<and> db_webhooks d2 = tupdate (\<lambda>e. re_ID e = i)
      (\<lambda>e. e\<lparr>re_Status := x, re_Note := nt, re_TransactionID := (if tx = 0 then re_TransactionID e else tx)\<rparr>) (db_webhooks d1)"
    if "Webhook_Resolve i x tx nt d1 = Inr d2" for i x tx nt d1 d2
    using that by (auto simp: Webhook_Resolve_def split: if_splits)
  have upd: "db_webhooks d1 = db_webhooks d \<and> db_payments d1 = tupdate (\<lambda>x. t_ID x = t_ID t1) (updated_row now t1) (db_payments d)"
    if "snd (Update now t1 d) = Inr d1" for t1 d1
    using snd_Inr [OF that] by (auto dest!: Update_Inr(2))
  have "(\<exists>note tx. db_webhooks d' = tupdate (\<lambda>e. re_ID e = re_ID raw)
      (\<lambda>e. e\<lparr>re_Status := de_outcome dec, re_Note := note, re_TransactionID := (if tx = 0 then re_TransactionID e else tx)\<rparr>) (db_webhooks d))
    \<and> ((de_outcome dec = OutcomeApplied \<or> de_outcome dec = OutcomeIgnored) \<and>
       (\<exists>t1. t_ID t1 = t_ID ?t \<and> t_PSPReference t1 = t_PSPReference ?t \<and> t_LastAppliedEventSeq t1 = re_Sequence raw
          \<and> db_payments d' = tupdate (\<lambda>x. t_ID x = t_ID t1) (updated_row now t1) (db_payments d))
     \<or> de_outcome dec \<noteq> OutcomeApplied \<and> de_outcome dec \<noteq> OutcomeIgnored \<and> db_payments d' = db_payments d)"
  proof (cases "de_outcome dec = OutcomeApplied")
    case True
    obtain t1 d1 c d2 nt where t1: "TransitionTo now ?t (de_target dec) = Inr t1"
      and u: "snd (Update now (t1\<lparr>t_LastAppliedEventSeq := re_Sequence raw\<rparr>) d) = Inr d1"
      and rc: "RecordStateChange (\<lambda>_. False) c d1 = Inr d2"
      and rs: "Webhook_Resolve (re_ID raw) OutcomeApplied (t_ID t1) nt d2 = Inr d'"
      using assms(2) True by (auto simp: commit_decision_def Let_def ebind_Inr_iff)
    have "t_ID t1 = t_ID ?t" "t_PSPReference t1 = t_PSPReference ?t" using t1 by (auto simp: TransitionTo_Inr)
    moreover have "db_webhooks d2 = db_webhooks d1" "db_payments d2 = db_payments d1"
      by (simp_all add: RecordStateChange_Inr(1) [OF rc])
    ultimately show ?thesis using res [OF rs] upd [OF u] True
      by (intro conjI exI [of _ nt] exI [of _ "t_ID t1"] disjI1 exI [of _ "t1\<lparr>t_LastAppliedEventSeq := re_Sequence raw\<rparr>"]) simp_all
  next
    case False
    then obtain d1 where u: "(if de_outcome dec = OutcomeIgnored then snd (Update now (?t\<lparr>t_LastAppliedEventSeq := re_Sequence raw\<rparr>) d) else Inr d) = Inr d1"
      and rs: "Webhook_Resolve (re_ID raw) (de_outcome dec) (t_ID ?t) (de_note dec) d1 = Inr d'"
      using assms(2) by (auto simp: commit_decision_def Let_def ebind_Inr_iff)
    show ?thesis
    proof (cases "de_outcome dec = OutcomeIgnored")
      case True
      then have "snd (Update now (?t\<lparr>t_LastAppliedEventSeq := re_Sequence raw\<rparr>) d) = Inr d1" using u by simp
      note u1 = upd [OF this]
      have "\<exists>t1. t_ID t1 = t_ID ?t \<and> t_PSPReference t1 = t_PSPReference ?t \<and> t_LastAppliedEventSeq t1 = re_Sequence raw
          \<and> db_payments d' = tupdate (\<lambda>x. t_ID x = t_ID t1) (updated_row now t1) (db_payments d)"
        by (rule exI [of _ "?t\<lparr>t_LastAppliedEventSeq := re_Sequence raw\<rparr>"]) (use res [OF rs] u1 in simp)
      then have pays: "(de_outcome dec = OutcomeApplied \<or> de_outcome dec = OutcomeIgnored) \<and>
         (\<exists>t1. t_ID t1 = t_ID ?t \<and> t_PSPReference t1 = t_PSPReference ?t \<and> t_LastAppliedEventSeq t1 = re_Sequence raw
          \<and> db_payments d' = tupdate (\<lambda>x. t_ID x = t_ID t1) (updated_row now t1) (db_payments d))" using True by blast
      have "\<exists>nt tx. db_webhooks d' = tupdate (\<lambda>e. re_ID e = re_ID raw)
          (\<lambda>e. e\<lparr>re_Status := de_outcome dec, re_Note := nt, re_TransactionID := (if tx = 0 then re_TransactionID e else tx)\<rparr>) (db_webhooks d)"
        by (intro exI [of _ "de_note dec"] exI [of _ "t_ID ?t"]) (use res [OF rs] u1 in simp)
      then show ?thesis using pays by simp
    next
      case ni: False
      then have "d1 = d" using u by simp
      then show ?thesis using res [OF rs] False ni
        by (intro conjI exI [of _ "de_note dec"] exI [of _ "t_ID ?t"] disjI2) simp_all
    qed
  qed
  then show "\<exists>note tx. db_webhooks d' = tupdate (\<lambda>e. re_ID e = re_ID raw)
      (\<lambda>e. e\<lparr>re_Status := de_outcome dec, re_Note := note, re_TransactionID := (if tx = 0 then re_TransactionID e else tx)\<rparr>) (db_webhooks d)"
    "(de_outcome dec = OutcomeApplied \<or> de_outcome dec = OutcomeIgnored) \<and>
       (\<exists>t1. t_ID t1 = t_ID ?t \<and> t_PSPReference t1 = t_PSPReference ?t \<and> t_LastAppliedEventSeq t1 = re_Sequence raw
          \<and> db_payments d' = tupdate (\<lambda>x. t_ID x = t_ID t1) (updated_row now t1) (db_payments d))
     \<or> de_outcome dec \<noteq> OutcomeApplied \<and> de_outcome dec \<noteq> OutcomeIgnored \<and> db_payments d' = db_payments d" by blast+
qed

lemma process_log_ok:
  assumes "process_body p now i out d = (o', Inr d')" "shard_inv d" "log_ok d"
  shows "log_ok d'"
  using assms(1)
proof (cases rule: process_body_Inr)
  case (2 raw dec)
  let ?t = "de_transaction dec"
  have pok: "payments_ok d" using assms(2) by (simp add: shard_inv_def)
  note e = evaluate_Inr [OF 2(5)] and ct = commit_tables [OF 2(5,6)]
  note br = by_reference [OF e(1) pok]
  have raw: "raw \<in> set (db_webhooks d)" using 2(1) by (auto simp: event_row_def dest: tfind_SomeD)
  have uniq: "x = raw" if "x \<in> set (db_webhooks d)" "re_ID x = re_ID raw" for x
    using that raw assms(3) inj_onD [of re_ID "set (db_webhooks d)" x raw] by (simp add: log_ok_def distinct_map)
  have refs: "t_PSPReference x = t_PSPReference ?t" if "x \<in> set (db_payments d)" "t_ID x = t_ID ?t" for x
    using that payment_row_Some [OF br(1)] pok inj_onD [of t_ID "set (db_payments d)" x ?t]
    by (simp add: payments_ok_def distinct_map)
  have grow: "\<exists>t'. tfind (has_reference reference) (db_payments d') = Some t' \<and> t_LastAppliedEventSeq t0 \<le> t_LastAppliedEventSeq t'
      \<and> (t0 = ?t \<longrightarrow> (de_outcome dec = OutcomeApplied \<or> de_outcome dec = OutcomeIgnored) \<longrightarrow> re_Sequence raw \<le> t_LastAppliedEventSeq t')"
    if t0: "tfind (has_reference reference) (db_payments d) = Some t0" for reference t0
  proof (cases "de_outcome dec = OutcomeApplied \<or> de_outcome dec = OutcomeIgnored")
    case True
    then obtain t1 where t1: "t_ID t1 = t_ID ?t" "t_PSPReference t1 = t_PSPReference ?t" "t_LastAppliedEventSeq t1 = re_Sequence raw"
      "db_payments d' = tupdate (\<lambda>x. t_ID x = t_ID t1) (updated_row now t1) (db_payments d)"
      using ct(2) by blast
    have "tfind (has_reference reference) (db_payments d') = map_option (\<lambda>r. if t_ID r = t_ID t1 then updated_row now t1 r else r) (Some t0)"
      unfolding t1(4) t0 [symmetric] by (rule tfind_tupdate_in) (use refs t1 in \<open>auto simp: updated_row_def\<close>)
    then show ?thesis using t1 by (auto simp: updated_row_def)
  qed (use t0 ct(2) in auto)
  obtain nt tx where wh: "db_webhooks d' = tupdate (\<lambda>e. re_ID e = re_ID raw)
      (\<lambda>e. e\<lparr>re_Status := de_outcome dec, re_Note := nt, re_TransactionID := (if tx = 0 then re_TransactionID e else tx)\<rparr>) (db_webhooks d)"
    using ct(1) by blast
  have rawstale: "\<exists>t'. tfind (has_reference (re_Reference raw)) (db_payments d') = Some t' \<and> re_Sequence raw \<le> t_LastAppliedEventSeq t'"
    if "absorbed (de_outcome dec)"
    using grow [OF br(4)] that e(4) by (auto simp: absorbed_def newer_def)
  show ?thesis unfolding log_ok_def
  proof (intro conjI ballI impI)
    have "map re_ID (db_webhooks d') = map re_ID (db_webhooks d)" by (simp add: wh tupdate_def)
    then show "distinct (map re_ID (db_webhooks d'))" using assms(3) by (simp add: log_ok_def)
    fix e' assume e': "e' \<in> set (db_webhooks d')" "absorbed (re_Status e')"
    then obtain e0 where e0: "e0 \<in> set (db_webhooks d)" "e' = (if re_ID e0 = re_ID raw
        then e0\<lparr>re_Status := de_outcome dec, re_Note := nt, re_TransactionID := (if tx = 0 then re_TransactionID e0 else tx)\<rparr> else e0)"
      by (auto simp: wh set_tupdate)
    show "stale d' e'"
    proof (cases "re_ID e0 = re_ID raw")
      case True
      then have "e0 = raw" using uniq e0 by blast
      then show ?thesis using rawstale e' e0(2) by (auto simp: stale_def newer_def)
    next
      case False
      then have "stale d e'" using e' e0 assms(3) by (auto simp: log_ok_def)
      then show ?thesis using grow by (fastforce simp: stale_def newer_def)
    qed
  qed
qed (use assms(3) in simp)

end
