(* ===== verification/WebhookClaims.thy ===== *)
theory WebhookClaims
  imports WebhookSafety
begin

text \<open>
  The claims on provider callbacks: decision by sequence number, order of application, replay, ingestion,
  the signature scheme, and the two behaviours the documentation does not promise.
\<close>

section \<open>Replay\<close>

lemma set_insert_by [simp]: "set (insert_by le x ys) = insert x (set ys)"
  by (induction ys) auto

lemma length_insert_by [simp]: "length (insert_by le x ys) = Suc (length ys)"
  by (induction ys) auto

lemma ListForReplay_all:
  "ListForReplay collate d = Inr es \<Longrightarrow> set es = set (db_webhooks d) \<and> length es = length (db_webhooks d)"
proof -
  assume "ListForReplay collate d = Inr es"
  moreover have "set (foldr (insert_by le) xs []) = set xs \<and> length (foldr (insert_by le) xs []) = length xs" for le and xs :: "RawEvent list"
    by (induction xs) auto
  ultimately show ?thesis by (auto simp: ListForReplay_def)
qed

lemma evaluate_stale:
  assumes "stale d e" "evaluate p e d = Inr dec" "payments_ok d"
  shows "de_outcome dec = OutcomeSuperseded"
proof -
  note v = evaluate_Inr [OF assms(2)]
  have "\<not> newer e (de_transaction dec)" using by_reference(4) [OF v(1) assms(3)] assms(1) by (auto simp: stale_def)
  then show ?thesis using v(4) by simp
qed

text \<open>No verifier answers a payload with one of this package's own control errors.\<close>

definition honest_parsers :: "Processor \<Rightarrow> bool" where
  "honest_parsers p \<longleftrightarrow> (\<forall>n v b. pc_registry p n = Some v \<longrightarrow> vf_Parse v b \<noteq> Inl ErrNotCorrelated
     \<and> vf_Parse v b \<noteq> Inl (ErrOther ''replay complete, rolling back''))"

lemma evaluate_stale_found:
  assumes "stale d e" "payments_ok d" "honest_parsers p"
  shows "evaluate p e d \<noteq> Inl ErrNotCorrelated"
proof -
  obtain t where t: "tfind (has_reference (re_Reference e)) (db_payments d) = Some t" using assms(1) by (auto simp: stale_def)
  then have "txn_inv t" using assms(2) tfind_SomeD [OF t] by (auto simp: payments_ok_def)
  then have "valid_currency (m_currency (t_Amount t))" by (simp add: txn_inv_def)
  then obtain t' where "GetByProviderReferenceForUpdate (re_Reference e) d = Inr t'"
    using t by (auto simp: GetByProviderReferenceForUpdate_def scanTransaction_def Money_New_def Currency_Validate_eq Let_def)
  then show ?thesis using assms(3)
    by (auto simp: evaluate_def ebind_Inl_iff WebhookRegistry_Get_def Normalized_def honest_parsers_def split: option.splits if_splits)
qed

lemma replay_loop_entries:
  assumes "replay_loop p es rep d = (rep', x)" "x = ErrOther ''replay complete, rolling back''"
    and "\<And>raw. evaluate p raw d \<noteq> Inl x"
  shows "\<exists>new. rr_Entries rep' = rr_Entries rep @ new \<and> list_all2 (\<lambda>raw e.
      rp_RawEventID e = re_ID raw \<and> rp_RecordedOutcome e = re_Status raw
      \<and> (case evaluate p raw d of Inr dec \<Rightarrow> rp_ReplayOutcome e = de_outcome dec
         | Inl err \<Rightarrow> err = ErrNotCorrelated \<and> rp_ReplayOutcome e = OutcomeUnmatched)) es new
      \<and> rr_Changed rep' = rr_Changed rep + length (filter Changed new)"
  using assms(1)
proof (induction es arbitrary: rep)
  case (Cons raw es)
  define add where "add = (\<lambda>e. rep\<lparr>rr_Entries := rr_Entries rep @ [e],
      rr_Changed := (if Changed e then rr_Changed rep + 1 else rr_Changed rep)\<rparr>)"
  obtain e where e: "replay_loop p es (add e) d = (rep', x)" "rp_RawEventID e = re_ID raw" "rp_RecordedOutcome e = re_Status raw"
    "case evaluate p raw d of Inr dec \<Rightarrow> rp_ReplayOutcome e = de_outcome dec
       | Inl err \<Rightarrow> err = ErrNotCorrelated \<and> rp_ReplayOutcome e = OutcomeUnmatched"
  proof (cases "evaluate p raw d")
    case (Inl err)
    then have "err = ErrNotCorrelated" using Cons.prems assms(3) [of raw] by (auto simp: Let_def split: if_splits)
    then show thesis using that [of "replay_entry raw OutcomeUnmatched ''no transaction matches the reference''"] Inl Cons.prems
      by (simp add: add_def replay_entry_def Let_def)
  next
    case (Inr dec)
    then show thesis using that [of "replay_entry raw (de_outcome dec) (de_note dec)"] Cons.prems
      by (simp add: add_def replay_entry_def Let_def)
  qed
  from Cons.IH [OF e(1)] obtain new where n: "rr_Entries rep' = rr_Entries (add e) @ new"
    "list_all2 (\<lambda>raw e. rp_RawEventID e = re_ID raw \<and> rp_RecordedOutcome e = re_Status raw
      \<and> (case evaluate p raw d of Inr dec \<Rightarrow> rp_ReplayOutcome e = de_outcome dec
         | Inl err \<Rightarrow> err = ErrNotCorrelated \<and> rp_ReplayOutcome e = OutcomeUnmatched)) es new"
    "rr_Changed rep' = rr_Changed (add e) + length (filter Changed new)" by blast
  show ?case by (rule exI [of _ "e # new"]) (use n e(2-4) in \<open>simp add: add_def\<close>)
qed simp

lemma evaluate_not_sentinel:
  "honest_parsers p \<Longrightarrow> evaluate p raw d \<noteq> Inl (ErrOther ''replay complete, rolling back'')"
  by (auto simp: evaluate_def ebind_Inl_iff WebhookRegistry_Get_def Normalized_def honest_parsers_def
      GetByProviderReferenceForUpdate_def scanTransaction_def Money_New_def Currency_Validate_eq Let_def
      split: option.splits if_splits sum.splits)

lemma Replay_quiet:
  assumes "w_sched w = []" "w_dbs w = d # rest" "Replay p w = (r, w')" "honest_parsers p" "payments_ok d" "log_ok d"
  shows "w' = w" "r = Inr rep \<Longrightarrow> length (rr_Entries rep) = length (db_webhooks d)
      \<and> rr_Changed rep = length (filter Changed (rr_Entries rep))"
    "r = Inr rep \<Longrightarrow> e \<in> set (rr_Entries rep) \<Longrightarrow> absorbed (rp_RecordedOutcome e) \<Longrightarrow> rp_ReplayOutcome e = OutcomeSuperseded"
proof -
  obtain es where es: "ListForReplay (pc_collate p) d = Inr es" by (simp add: ListForReplay_def)
  obtain rep0 x where l: "replay_loop p es \<lparr>rr_Entries = [], rr_Changed = 0\<rparr> d = (rep0, x)" by (metis surj_pair)
  have q: "query_at Global (ListForReplay (pc_collate p)) w = (Inr es, w)"
    using assms(1,2) es by (simp add: query_at_def turn_def Global_def)
  have "tx_at Global (replay_body p es) \<lparr>rr_Entries = [], rr_Changed = 0\<rparr> w = (rep0, Inl x, w)"
    using assms(1,2) l by (simp add: tx_at_def turn_def Global_def DB_WithTx_def replay_body_def)
  then have R: "Replay p w = (if x = ErrOther ''replay complete, rolling back'' then (Inr rep0, w) else (Inl x, w))"
    by (simp add: Replay_def q)
  then show "w' = w" using assms(3) by (simp split: if_splits)
  assume "r = Inr rep"
  then have x: "x = ErrOther ''replay complete, rolling back''" and rep: "rep = rep0"
    using R assms(3) by (auto split: if_splits)
  have ns: "\<And>raw. evaluate p raw d \<noteq> Inl x" unfolding x by (rule evaluate_not_sentinel [OF assms(4)])
  obtain new where n: "rr_Entries rep = new" "list_all2 (\<lambda>raw e. rp_RawEventID e = re_ID raw \<and> rp_RecordedOutcome e = re_Status raw
      \<and> (case evaluate p raw d of Inr dec \<Rightarrow> rp_ReplayOutcome e = de_outcome dec
         | Inl err \<Rightarrow> err = ErrNotCorrelated \<and> rp_ReplayOutcome e = OutcomeUnmatched)) es new"
    "rr_Changed rep = length (filter Changed new)"
    using replay_loop_entries [OF l x ns] rep by auto
  note all = ListForReplay_all [OF es]
  show "length (rr_Entries rep) = length (db_webhooks d) \<and> rr_Changed rep = length (filter Changed (rr_Entries rep))"
    using n all list_all2_lengthD [OF n(2)] by simp
  assume e: "e \<in> set (rr_Entries rep)" "absorbed (rp_RecordedOutcome e)"
  then obtain raw where raw: "raw \<in> set es" "rp_RecordedOutcome e = re_Status raw"
    "case evaluate p raw d of Inr dec \<Rightarrow> rp_ReplayOutcome e = de_outcome dec
         | Inl err \<Rightarrow> err = ErrNotCorrelated \<and> rp_ReplayOutcome e = OutcomeUnmatched"
  proof -
    obtain j where j: "j < length new" "e = new ! j" using e(1) n(1) by (auto simp: in_set_conv_nth)
    have "j < length es" using j list_all2_lengthD [OF n(2)] by simp
    then have "es ! j \<in> set es" by simp
    with list_all2_nthD2 [OF n(2) j(1)] show thesis using that [of "es ! j"] unfolding j(2) by blast
  qed
  have st: "stale d raw" using raw(1,2) e(2) all assms(6) by (simp add: log_ok_def)
  show "rp_ReplayOutcome e = OutcomeSuperseded"
    using raw(3) evaluate_stale [OF st _ assms(5)] evaluate_stale_found [OF st assms(5,4)] by (auto split: sum.splits)
qed

lemma deliveries_log_ok:
  assumes "shard_inv d" "log_ok d" "\<forall>(env, _) \<in> set ds. \<forall>d. shard_inv d \<longrightarrow> log_ok d \<longrightarrow> shard_inv (env d) \<and> log_ok (env d)"
    "deliveries p i ds d = (qs, d')"
  shows "shard_inv d' \<and> log_ok d'"
  using assms
proof (induction ds arbitrary: d qs)
  case (Cons x ds)
  obtain env now k f where x: "x = (env, now, k, f)" by (cases x)
  define d1 where "d1 = snd (snd (DB_WithTx f (process_body p now k) None (env d)))"
  obtain qs1 where rest: "deliveries p i ds d1 = (qs1, d')"
    using Cons.prems(4) by (auto simp: x d1_def Let_def split: prod.splits)
  have env: "shard_inv (env d)" "log_ok (env d)" using Cons.prems(1-3) by (auto simp: x)
  obtain s' r where D: "DB_WithTx f (process_body p now k) None (env d) = (s', r, d1)"
    unfolding d1_def by (cases "DB_WithTx f (process_body p now k) None (env d)") auto
  from D have "log_ok d1"
    by (cases rule: DB_WithTx_cases) (use env process_log_ok in auto)
  then show ?case using Cons.IH [OF _ _ _ rest] delivery_marks(1) [OF env(1) d1_def] Cons.prems(3) by auto
qed simp

section \<open>Ingestion\<close>

text \<open>What an accepted delivery does to the log's database: nothing when it is a repeat, otherwise the row and the
  message that refers to it.\<close>

definition known_event :: "string \<Rightarrow> string \<Rightarrow> db \<Rightarrow> bool" where
  "known_event provider i d \<longleftrightarrow> (\<exists>e \<in> set (db_webhooks d). re_Provider e = provider \<and> re_ProviderEventID e = i)"

definition ingested :: "Ingestor \<Rightarrow> string \<Rightarrow> Event \<Rightarrow> string \<Rightarrow> IngestResult \<Rightarrow> db \<Rightarrow> db \<Rightarrow> bool" where
  "ingested ig provider ev bdy res d d' \<longleftrightarrow>
     (if known_event provider (ev_ProviderEventID ev) d then ir_Duplicate res \<and> d' = d
      else \<not> ir_Duplicate res
        \<and> (\<exists>e. db_webhooks d' = db_webhooks d @ [e] \<and> re_ID e = ir_RawEventID res \<and> re_Provider e = provider
             \<and> re_ProviderEventID e = ev_ProviderEventID ev \<and> re_Payload e = bdy \<and> re_Sequence e = ev_Sequence ev
             \<and> re_Reference e = ev_Reference ev \<and> re_Status e = OutcomeReceived)
        \<and> (\<exists>m. db_outbox d' = db_outbox d @ [m] \<and> ob_Status m = OutboxPending \<and> ob_Topic m = ig_topicWebhook ig
             \<and> ob_PartitionKey m = ev_Reference ev \<and> ob_Payload m = WebhookReceived (ir_RawEventID res) provider (ev_Reference ev))
        \<and> db_payments d' = db_payments d)"

lemma ingest_body_Inr:
  assumes "ingest_body ig newID now provider ev raw \<lparr>ir_RawEventID = 0, ir_Duplicate = False\<rparr> d = (res, Inr d')"
    and raw: "re_Provider raw = provider" "re_ProviderEventID raw = ev_ProviderEventID ev" "re_Payload raw = bdy"
      "re_Sequence raw = ev_Sequence ev" "re_Reference raw = ev_Reference ev"
  shows "ingested ig provider ev bdy res d d'" "pay_rel d d'"
proof -
  have k: "list_ex (\<lambda>x. re_Provider x = re_Provider raw \<and> re_ProviderEventID x = re_ProviderEventID raw) (db_webhooks d)
      = known_event provider (ev_ProviderEventID ev) d"
    by (auto simp: known_event_def list_ex_iff raw)
  show "ingested ig provider ev bdy res d d'"
    using assms(1) unfolding ingest_body_def Webhook_Insert_def k ingested_def Let_def
    by (auto simp: Enqueue_def Let_def ebind_Inr_iff raw split: if_splits)
  have same: "db_payments d' = db_payments d" "db_changes d' = db_changes d" "db_entries d' = db_entries d"
    "db_postings d' = db_postings d" "db_accounts d' = db_accounts d"
    using assms(1) unfolding ingest_body_def Webhook_Insert_def k Let_def
    by (auto simp: Enqueue_def Let_def ebind_Inr_iff raw split: if_splits)
  have nx: "db_nextid d \<le> db_nextid d'"
    using assms(1) unfolding ingest_body_def Webhook_Insert_def k Let_def
    by (auto simp: Enqueue_def Let_def ebind_Inr_iff raw split: if_splits)
  have "shard_inv d'" if "shard_inv d"
    by (rule shard_inv_frame [OF that])
      (use that same nx in \<open>auto simp: shard_inv_def ledger_ok_def ledger_total_def accounts_ok_def\<close>)
  then show "pay_rel d d'" using same by (auto simp: pay_rel_def payment_row_def)
qed

lemma Ingest_world:
  assumes "sched_ok pay_env w" "WebhookRegistry_Get (ig_registry ig) provider = Inr v" "vf_Verify v hdr bdy now = Inr ()"
    "vf_Parse v bdy = Inr ev" "Ingest ig newID now provider hdr bdy w = (r, w')"
  shows "pay_env (w_dbs w) (w_dbs w')"
    "r = Inr res \<Longrightarrow> \<exists>dbs d1. pay_env (w_dbs w) dbs \<and> 0 < length dbs \<and> ingested ig provider ev bdy res (dbs ! 0) d1 \<and> w_dbs w' = dbs[0 := d1]"
proof -
  define raw where "raw = \<lparr>re_ID = 0, re_Provider = provider, re_ProviderEventID = ev_ProviderEventID ev,
       re_Payload = bdy, re_Signature = hdr (vf_SignatureHeader v),
       re_Sequence = ev_Sequence ev, re_OccurredAt = ev_OccurredAt ev,
       re_Reference = ev_Reference ev, re_TransactionID = 0, re_Status = OutcomeReceived, re_Note = [], re_ReceivedAt = 0\<rparr>"
  obtain s' r1 where x: "tx_at Global (ingest_body ig newID now provider ev raw) \<lparr>ir_RawEventID = 0, ir_Duplicate = False\<rparr> w = (s', r1, w')"
    and r: "r = (case r1 of Inl e \<Rightarrow> Inl e | Inr _ \<Rightarrow> Inr s')"
    using assms(2-5) by (auto simp: Ingest_def raw_def Let_def split: prod.splits sum.splits)
  note b = ingest_body_Inr [of ig newID now provider ev raw]
  have step: "\<forall>dbs s1 d1. pay_env (w_dbs w) dbs \<longrightarrow> Global < length dbs
      \<longrightarrow> ingest_body ig newID now provider ev raw \<lparr>ir_RawEventID = 0, ir_Duplicate = False\<rparr> (dbs ! Global) = (s1, Inr d1)
      \<longrightarrow> commit_check (dbs ! Global) d1 = Inr () \<longrightarrow> pay_env dbs (dbs[Global := d1])"
    using pay_env_update b(2) [of _ _ _ bdy] by (simp add: raw_def)
  note t = pay.tx_at_rel [OF assms(1) x step]
  show "pay_env (w_dbs w) (w_dbs w')" by (rule t(1))
  assume "r = Inr res"
  then have "r1 = Inr ()" "s' = res" using r by (auto split: sum.splits)
  then show "\<exists>dbs d1. pay_env (w_dbs w) dbs \<and> 0 < length dbs \<and> ingested ig provider ev bdy res (dbs ! 0) d1 \<and> w_dbs w' = dbs[0 := d1]"
    using t(3) b(1) [of _ _ _ bdy] by (fastforce simp: Global_def raw_def)
qed

lemma Ingest_repeat:
  assumes "WebhookRegistry_Get (ig_registry ig) provider = Inr v" "vf_Verify v hdr bdy now = Inr ()" "vf_Parse v bdy = Inr ev"
    "w_sched w = []" "w_dbs w = d # rest" "known_event provider (ev_ProviderEventID ev) d"
  shows "Ingest ig newID now provider hdr bdy w = (Inr \<lparr>ir_RawEventID = 0, ir_Duplicate = True\<rparr>, w)"
proof -
  have k: "list_ex (\<lambda>x. re_Provider x = provider \<and> re_ProviderEventID x = ev_ProviderEventID ev) (db_webhooks d)"
    using assms(6) by (auto simp: known_event_def list_ex_iff)
  show ?thesis
    by (simp add: Ingest_def assms(1-5) Let_def tx_at_def turn_def Global_def DB_WithTx_def ingest_body_def Webhook_Insert_def k
        commit_check_def assert_err_def)
qed

section \<open>A concrete log\<close>

text \<open>A payment waiting for its outcome and the two callbacks its provider sent; the body of a delivery is just the
  provider's word for the status.\<close>

definition demo_unmarshal :: "string \<Rightarrow> simulatorEvent option" where
  "demo_unmarshal b = (if b = [] then None else Some \<lparr>se_ID = b, se_Type = ''charge.updated'', se_Reference = ''ch_1'', se_Status = b,
     se_CreatedAt = 0, se_Sequence = (if b = ''AUTH_OK'' then 1 else 2)\<rparr>)"

definition demo_verifier :: Verifier where
  "demo_verifier = Simulator_Verifier (\<lambda>secret msg. secret @ msg) demo_unmarshal (NewSimulator ''sim'' ''k'')"

definition demo_processor :: Processor where
  "demo_processor = \<lparr>pc_registry = [''sim'' \<mapsto> demo_verifier], pc_collate = (\<lambda>_ _. True)\<rparr>"

definition demo_event :: "nat \<Rightarrow> string \<Rightarrow> RawEvent" where
  "demo_event i b = \<lparr>re_ID = i, re_Provider = ''sim'', re_ProviderEventID = b, re_Payload = b, re_Signature = ''x'',
     re_Sequence = (if b = ''AUTH_OK'' then 1 else 2), re_OccurredAt = 0, re_Reference = ''ch_1'', re_TransactionID = 0,
     re_Status = OutcomeReceived, re_Note = [], re_ReceivedAt = 0\<rparr>"

definition demo_log_db :: db where
  "demo_log_db = demo_db\<lparr>db_payments := [demo_payment\<lparr>t_State := StateAuthorizing, t_Version := 2, t_PSP := ''sim'', t_PSPReference := ''ch_1''\<rparr>],
     db_changes := map (\<lambda>(f, t). \<lparr>sc_TransactionID = 7, sc_From = f, sc_To = t, sc_Reason = [], sc_Actor = ''api:m1'', sc_SourceIP = []\<rparr>)
        [(None, StateCreated), (Some StateCreated, StateAuthorizing)],
     db_webhooks := [demo_event 1 ''VOIDED'', demo_event 2 ''AUTH_OK''], db_nextid := 100\<rparr>"

lemma demo_log_inv: "shard_inv demo_log_db"
proof -
  have "trail_ok demo_log_db" unfolding trail_ok_def
  proof
    fix i show "trail_path None (trail i demo_log_db) (map_option t_State (payment_row i demo_log_db))"
      by (simp add: trail_def demo_log_db_def payment_row_def demo_payment_def CanTransitionTo_def)
  qed
  moreover have "payments_ok demo_log_db"
    by (simp add: payments_ok_def demo_log_db_def demo_payment_def txn_inv_def usd known_state_def allStates_def)
  moreover have "ledger_ok demo_log_db" "accounts_ok demo_log_db"
    by (simp_all add: demo_log_db_def demo_db_def empty_db_def ledger_ok_def ledger_total_def accounts_ok_def)
  ultimately show ?thesis by (simp add: shard_inv_def) (simp add: demo_log_db_def demo_payment_def)
qed

lemma demo_log_ok: "log_ok demo_log_db"
  by (simp add: log_ok_def demo_log_db_def demo_event_def absorbed_def)

lemma demo_honest: "honest_parsers demo_processor"
  by (auto simp: honest_parsers_def demo_processor_def demo_verifier_def Simulator_Verifier_def Simulator_Parse_def
      split: option.splits if_splits)

lemma demo_log_world: "sched_ok pay_env (demo_world demo_log_db)" "list_all shard_inv (w_dbs (demo_world demo_log_db))"
  using demo_log_inv by (simp_all add: demo_world_def sched_ok_def)

section \<open>Claims\<close>

text \<open>C25: a callback is decided once, by its own sequence number, and written as a whole. Under every fault and
  interleaving the databases keep their invariant. If processing reports an outcome, consider the event and the payment as they were
  stored when its transaction began. Either the event had been
  decided before and nothing was written, or it had not and the transaction recorded the outcome on the event and did exactly what it says
  to the payment that carries its reference:
  superseded if and only if the sequence is not above the payment's mark; applied moves the payment to the state its status stands for, along an edge of the
  state machine, raises the mark to the sequence, leaves all amounts alone and extends the audit trail by that move;
  ignored changes nothing but the mark, the version and the time of the row; rejected and superseded leave every payment as it was. No other payment
  and no other database changes.\<close>

theorem Process_decides_once:
  assumes "sched_ok pay_env w" "list_all shard_inv (w_dbs w)" "Process p now i w = (r, w')"
  shows "list_all shard_inv (w_dbs w') \<and>
    (\<forall>out. r = Inr out \<longrightarrow> (\<exists>raw d'. w_dbs w' = (seen w)[0 := d'] \<and> event_row i (seen w ! 0) = Some raw \<and>
       (if re_Status raw = OutcomeReceived then \<exists>x. out = Some x \<and> decided p raw x (seen w ! 0) d'
        else out = Some (re_Status raw) \<and> d' = seen w ! 0)))"
proof (intro conjI allI impI)
  note P = Process_world [OF assms(1,3)]
  show "list_all shard_inv (w_dbs w')" using shard_invs_env [OF P(1) assms(2)] .
  fix out assume "r = Inr out"
  from P(3) [OF this] obtain d1 where d: "pay_env (w_dbs w) (seen w)" "0 < length (seen w)"
    "process_body p now i None (seen w ! 0) = (out, Inr d1)" "w_dbs w' = (seen w)[0 := d1]" by blast
  have "shard_inv (seen w ! 0)" using shard_invs_env [OF d(1) assms(2)] d(2) by (simp add: list_all_length)
  from process_effect [OF d(3) this] d(4)
  show "\<exists>raw d'. w_dbs w' = (seen w)[0 := d'] \<and> event_row i (seen w ! 0) = Some raw \<and>
       (if re_Status raw = OutcomeReceived then \<exists>x. out = Some x \<and> decided p raw x (seen w ! 0) d'
        else out = Some (re_Status raw) \<and> d' = seen w ! 0)" by blast
qed

theorem Process_decides_once_witness:
  "fst (Process demo_processor 9 2 (demo_world demo_log_db)) = Inr (Some OutcomeApplied)
   \<and> decided demo_processor (demo_event 2 ''AUTH_OK'') OutcomeApplied demo_log_db (w_dbs (snd (Process demo_processor 9 2 (demo_world demo_log_db))) ! 0)"
proof -
  have r: "fst (Process demo_processor 9 2 (demo_world demo_log_db)) = Inr (Some OutcomeApplied)" by code_simp
  then have e: "Process demo_processor 9 2 (demo_world demo_log_db)
      = (Inr (Some OutcomeApplied), snd (Process demo_processor 9 2 (demo_world demo_log_db)))" by (metis prod.collapse)
  have seen: "seen (demo_world demo_log_db) = [demo_log_db]" by (simp add: seen_def turn_def demo_world_def)
  have "event_row 2 demo_log_db = Some (demo_event 2 ''AUTH_OK'')" "re_Status (demo_event 2 ''AUTH_OK'') = OutcomeReceived"
    by (simp_all add: event_row_def demo_log_db_def demo_event_def)
  then show ?thesis using Process_decides_once [OF demo_log_world e] r by (auto simp: seen)
qed

text \<open>C26: callbacks may arrive in any order, any number of times, with any faults, and with other processes acting in
  between: the events that move a payment do so with strictly increasing sequence numbers. A stale event never moves a
  payment back and no event moves one twice.\<close>

theorem callbacks_apply_in_order:
  assumes "shard_inv d" "\<forall>(env, _) \<in> set ds. \<forall>d. benign d (env d)" "deliveries p i ds d = (qs, d')"
  shows "sorted_wrt (<) qs \<and> shard_inv d'"
  using deliveries_above [OF assms] by blast

theorem callbacks_apply_in_order_witness:
  "let ds = [(id, 1, 2, TxCommitFails), (id, 2, 2, TxOk), (id, 3, 2, TxOk), (id, 4, 1, TxOk)] in
   fst (deliveries demo_processor 7 ds demo_log_db) = [1, 2] \<and> sorted_wrt (<) (fst (deliveries demo_processor 7 ds demo_log_db))"
proof -
  define ds :: "delivery list" where "ds = [(id, 1, 2, TxCommitFails), (id, 2, 2, TxOk), (id, 3, 2, TxOk), (id, 4, 1, TxOk)]"
  have "\<forall>(env, _) \<in> set ds. \<forall>d. benign d (env d)" by (simp add: ds_def benign_def)
  then have "sorted_wrt (<) (fst (deliveries demo_processor 7 ds demo_log_db))"
    using callbacks_apply_in_order [OF demo_log_inv, of ds demo_processor 7] by (metis prod.collapse)
  moreover have "fst (deliveries demo_processor 7 ds demo_log_db) = [1, 2]" unfolding ds_def by code_simp
  ultimately show ?thesis by (simp add: ds_def Let_def)
qed

text \<open>Replaying the log writes nothing, reports every stored event once and counts the changes it reports. After any
  deliveries, an event that was applied, ignored or superseded would be superseded if it came again.\<close>

theorem Replay_absorbs_decided:
  assumes "shard_inv d" "log_ok d" "\<forall>(env, _) \<in> set ds. \<forall>d. shard_inv d \<longrightarrow> log_ok d \<longrightarrow> shard_inv (env d) \<and> log_ok (env d)"
    "deliveries p i ds d = (qs, d')" "honest_parsers p" "w_sched w = []" "w_dbs w = d' # rest" "Replay p w = (r, w')"
  shows "w' = w \<and> (\<forall>rep. r = Inr rep \<longrightarrow> length (rr_Entries rep) = length (db_webhooks d')
      \<and> rr_Changed rep = length (filter Changed (rr_Entries rep))
      \<and> (\<forall>e \<in> set (rr_Entries rep). absorbed (rp_RecordedOutcome e) \<longrightarrow> rp_ReplayOutcome e = OutcomeSuperseded))"
proof -
  have "shard_inv d'" "log_ok d'" using deliveries_log_ok [OF assms(1-4)] by simp_all
  then have pok: "payments_ok d'" "log_ok d'" by (simp_all add: shard_inv_def)
  note R = Replay_quiet [OF assms(6-8,5) pok]
  show ?thesis using R by blast
qed

theorem Replay_absorbs_decided_witness:
  "let d' = snd (deliveries demo_processor 7 [(id, 2, 2, TxOk), (id, 3, 1, TxOk)] demo_log_db);
       (r, w') = Replay demo_processor (demo_world d') in
   w' = demo_world d' \<and> (\<forall>rep. r = Inr rep \<longrightarrow> length (rr_Entries rep) = 2
      \<and> (\<forall>e \<in> set (rr_Entries rep). absorbed (rp_RecordedOutcome e) \<longrightarrow> rp_ReplayOutcome e = OutcomeSuperseded)) \<and> is_ok r"
proof -
  define ds :: "delivery list" where "ds = [(id, 2, 2, TxOk), (id, 3, 1, TxOk)]"
  define d' where "d' = snd (deliveries demo_processor 7 ds demo_log_db)"
  obtain r w' where R: "Replay demo_processor (demo_world d') = (r, w')" by (metis surj_pair)
  have env: "\<forall>(env, _) \<in> set ds. \<forall>d. shard_inv d \<longrightarrow> log_ok d \<longrightarrow> shard_inv (env d) \<and> log_ok (env d)" by (simp add: ds_def)
  have dl: "deliveries demo_processor 7 ds demo_log_db = (fst (deliveries demo_processor 7 ds demo_log_db), d')"
    by (simp add: d'_def)
  have "length (db_webhooks d') = 2" unfolding d'_def ds_def by code_simp
  moreover have "is_ok (fst (Replay demo_processor (demo_world d')))" unfolding d'_def ds_def by code_simp
  moreover have "w_sched (demo_world d') = []" "w_dbs (demo_world d') = d' # []" by (simp_all add: demo_world_def)
  ultimately show ?thesis
    using Replay_absorbs_decided [OF demo_log_inv demo_log_ok env dl demo_honest, of "demo_world d'" "[]" r w'] R
    by (simp add: d'_def ds_def Let_def)
qed

text \<open>A delivery that authenticates is stored and queued together, once. Whatever else happens, an accepted delivery has
  either found its provider's event already in the log and written nothing, or appended the raw row, byte for byte, and
  the pending message that points to it, and touched no payment; a delivery that is not authenticated or not readable
  writes nothing; and once the event is in the log, sending it again is answered as a duplicate and writes nothing.\<close>

theorem Ingest_stores_once:
  assumes "sched_ok pay_env w" "list_all shard_inv (w_dbs w)" "Ingest ig newID now provider hdr bdy w = (r, w')"
  shows "list_all shard_inv (w_dbs w')
    \<and> (\<forall>v. WebhookRegistry_Get (ig_registry ig) provider = Inr v \<longrightarrow>
        (\<not> is_ok (vf_Verify v hdr bdy now) \<or> \<not> is_ok (vf_Parse v bdy) \<longrightarrow> \<not> is_ok r \<and> w' = w)
      \<and> (\<forall>ev. vf_Verify v hdr bdy now = Inr () \<longrightarrow> vf_Parse v bdy = Inr ev \<longrightarrow>
          (\<forall>res. r = Inr res \<longrightarrow> (\<exists>d. pay_rel (w_dbs w ! 0) d \<and> ingested ig provider ev bdy res d (w_dbs w' ! 0)))
        \<and> (\<forall>id2 w2 d2 rest. w_sched w2 = [] \<longrightarrow> w_dbs w2 = d2 # rest \<longrightarrow> known_event provider (ev_ProviderEventID ev) d2 \<longrightarrow>
             Ingest ig id2 now provider hdr bdy w2 = (Inr \<lparr>ir_RawEventID = 0, ir_Duplicate = True\<rparr>, w2))))
    \<and> (\<not> is_ok (WebhookRegistry_Get (ig_registry ig) provider) \<longrightarrow> \<not> is_ok r \<and> w' = w)"
proof (cases "WebhookRegistry_Get (ig_registry ig) provider")
  case (Inl e)
  then have "r = Inl e" "w' = w" using assms(3) by (auto simp: Ingest_def)
  then show ?thesis using assms(2) Inl by simp
next
  case (Inr v)
  show ?thesis
  proof (cases "vf_Verify v hdr bdy now = Inr () \<and> is_ok (vf_Parse v bdy)")
    case True
    then obtain ev where ev: "vf_Verify v hdr bdy now = Inr ()" "vf_Parse v bdy = Inr ev" by (auto simp: is_ok_iff)
    note W = Ingest_world [OF assms(1) Inr ev assms(3)]
    have "\<exists>d. pay_rel (w_dbs w ! 0) d \<and> ingested ig provider ev bdy res d (w_dbs w' ! 0)" if "r = Inr res" for res
      using W(2) [OF that] pay_env_nth [of "w_dbs w"] by fastforce
    moreover have "\<forall>id2 w2 d2 rest. w_sched w2 = [] \<longrightarrow> w_dbs w2 = d2 # rest \<longrightarrow> known_event provider (ev_ProviderEventID ev) d2 \<longrightarrow>
        Ingest ig id2 now provider hdr bdy w2 = (Inr \<lparr>ir_RawEventID = 0, ir_Duplicate = True\<rparr>, w2)"
      by (intro allI impI) (rule Ingest_repeat [OF Inr ev])
    ultimately show ?thesis using shard_invs_env [OF W(1) assms(2)] Inr ev by (auto simp del: split_paired_All)
  next
    case False
    then have "\<not> is_ok r \<and> w' = w"
      using assms(3) Inr by (cases "vf_Verify v hdr bdy now"; cases "vf_Parse v bdy") (auto simp: Ingest_def)
    then show ?thesis using assms(2) Inr False by auto
  qed
qed

definition demo_ingestor :: Ingestor where
  "demo_ingestor = \<lparr>ig_registry = [''sim'' \<mapsto> demo_verifier], ig_sha1 = (\<lambda>s. length s + 500), ig_topicWebhook = ''webhook.received''\<rparr>"

definition demo_headers :: Headers where
  "demo_headers k = (if k = headerTimestamp then ''100'' else if k = headerSignature then ''k100.FAILED'' else [])"

theorem Ingest_stores_once_witness:
  "let (r, w') = Ingest demo_ingestor 900 0 ''sim'' demo_headers ''FAILED'' (demo_world demo_log_db) in
   r = Inr \<lparr>ir_RawEventID = 100, ir_Duplicate = False\<rparr>
   \<and> (\<exists>ev d. vf_Parse demo_verifier ''FAILED'' = Inr ev
        \<and> ingested demo_ingestor ''sim'' ev ''FAILED'' \<lparr>ir_RawEventID = 100, ir_Duplicate = False\<rparr> d (w_dbs w' ! 0))"
proof -
  obtain r w' where I: "Ingest demo_ingestor 900 0 ''sim'' demo_headers ''FAILED'' (demo_world demo_log_db) = (r, w')" by (metis surj_pair)
  have "fst (Ingest demo_ingestor 900 0 ''sim'' demo_headers ''FAILED'' (demo_world demo_log_db)) = Inr \<lparr>ir_RawEventID = 100, ir_Duplicate = False\<rparr>"
    by code_simp
  then have r: "r = Inr \<lparr>ir_RawEventID = 100, ir_Duplicate = False\<rparr>" using I by simp
  have v: "WebhookRegistry_Get (ig_registry demo_ingestor) ''sim'' = Inr demo_verifier"
    by (simp add: WebhookRegistry_Get_def demo_ingestor_def)
  have "vf_Verify demo_verifier demo_headers ''FAILED'' 0 = Inr ()" by code_simp
  moreover have "is_ok (vf_Parse demo_verifier ''FAILED'')" by code_simp
  then obtain ev where "vf_Parse demo_verifier ''FAILED'' = Inr ev" by (auto simp: is_ok_iff)
  ultimately show ?thesis using Ingest_stores_once [OF demo_log_world I] v r I by auto
qed

text \<open>Callbacks reach only the payments of physical database 0. Processing looks the reference up in the database that
  holds the log; an event whose payment lives on any other database is never correlated, whatever the event says: every
  attempt ends in the error that sends it to a retry tier and at last to the dead letter queue.\<close>

theorem callbacks_reach_one_database:
  assumes "w_sched w = []" "w_dbs w = d # rest" "event_row i d = Some raw" "re_Status raw = OutcomeReceived"
    "pc_registry p (re_Provider raw) = Some v" "vf_Parse v (re_Payload raw) = Inr ev"
    "\<forall>t \<in> set (db_payments d). t_PSPReference t \<noteq> re_Reference raw"
  shows "Process p now i w = (Inl ErrNotCorrelated, w)"
proof -
  have "tfind (has_reference (re_Reference raw)) (db_payments d) = None"
    using assms(7) by (auto simp: tfind_None_iff)
  then have "evaluate p raw d = Inl ErrNotCorrelated"
    using assms(5,6) by (simp add: evaluate_def WebhookRegistry_Get_def Normalized_def GetByProviderReferenceForUpdate_def scanTransaction_def)
  then have "process_body p now i None d = (None, Inl ErrNotCorrelated)"
    using assms(3,4) by (simp add: process_body_def GetForUpdate_def scanRawEvent_def)
  then show ?thesis using assms(1,2) by (simp add: Process_def tx_at_def turn_def Global_def DB_WithTx_def)
qed

theorem callbacks_reach_one_database_witness:
  "let payment = demo_payment\<lparr>t_MerchantID := ''m1'', t_ShardKey := KeyForMerchant ''m1'', t_State := StateAuthorizing, t_PSPReference := ''ch_1''\<rparr>;
       w = \<lparr>w_dbs = [empty_db\<lparr>db_webhooks := [demo_event 2 ''AUTH_OK'']\<rparr>, empty_db\<lparr>db_payments := [payment]\<rparr>], w_sched = [], w_calls = []\<rparr>
   in home \<lparr>physical = 2\<rparr> ''m1'' = 1 \<and> Process demo_processor 9 2 w = (Inl ErrNotCorrelated, w)"
proof -
  have "home \<lparr>physical = 2\<rparr> ''m1'' = 1" by code_simp
  moreover have "Process demo_processor 9 2 \<lparr>w_dbs = [empty_db\<lparr>db_webhooks := [demo_event 2 ''AUTH_OK'']\<rparr>, empty_db\<lparr>db_payments := [pay]\<rparr>],
      w_sched = [], w_calls = []\<rparr> = (Inl ErrNotCorrelated, \<lparr>w_dbs = [empty_db\<lparr>db_webhooks := [demo_event 2 ''AUTH_OK'']\<rparr>, empty_db\<lparr>db_payments := [pay]\<rparr>],
      w_sched = [], w_calls = []\<rparr>)" for pay
    by (rule callbacks_reach_one_database [of _ "empty_db\<lparr>db_webhooks := [demo_event 2 ''AUTH_OK'']\<rparr>" _ 2 "demo_event 2 ''AUTH_OK''" _ demo_verifier])
      (simp_all add: event_row_def demo_event_def demo_processor_def demo_verifier_def Simulator_Verifier_def Simulator_Parse_def
        demo_unmarshal_def empty_db_def)
  ultimately show ?thesis by (simp add: Let_def)
qed

text \<open>Order matters after all when an event overtakes the one it depends on. The provider authorizes a charge (sequence 1)
  and voids it (sequence 2). Delivered in order the payment ends cancelled. Delivered in the other order the void is
  rejected, because an authorizing payment cannot be cancelled, and that is final: the payment ends authorized although
  the charge is void, and a replay of the log reports that the void would now be applied.\<close>

theorem overtaking_event_is_lost:
  "let in_order = snd (deliveries demo_processor 7 [(id, 1, 2, TxOk), (id, 2, 1, TxOk)] demo_log_db);
       overtaken = snd (deliveries demo_processor 7 [(id, 1, 1, TxOk), (id, 2, 2, TxOk), (id, 3, 1, TxOk)] demo_log_db)
   in map_option t_State (payment_row 7 in_order) = Some StateCancelled
    \<and> map_option t_State (payment_row 7 overtaken) = Some StateAuthorized
    \<and> map_option re_Status (event_row 1 overtaken) = Some OutcomeRejected
    \<and> (case fst (Replay demo_processor (demo_world overtaken)) of Inr rep \<Rightarrow> rr_Changed rep = 1 | Inl _ \<Rightarrow> False)"
  by code_simp

section \<open>The signature scheme\<close>

text \<open>The simulator's verifier accepts a delivery exactly when both headers are present, the timestamp is a 64-bit decimal,
  the signature is the MAC of timestamp and body under the shared secret, and the clock skew is at most the tolerance; that
  is, for every timestamp within the range of a duration (about 292 years) of the clock.\<close>

theorem Simulator_Verify_exact:
  assumes "sim_tolerance s = DefaultTolerance"
    and "\<forall>k. ParseInt64 (hdr headerTimestamp) = Some k \<longrightarrow> in64 (k + 62135596800) \<and> \<bar>now - k * 1000000000\<bar> < 2 ^ 63"
  shows "Simulator_Verify hmac s hdr bdy now = Inr () \<longleftrightarrow>
    hdr headerTimestamp \<noteq> [] \<and> hdr headerSignature \<noteq> []
    \<and> (\<exists>k. ParseInt64 (hdr headerTimestamp) = Some k \<and> \<bar>now - k * 1000000000\<bar> \<le> 300 * 1000000000)
    \<and> hdr headerSignature = hmac (sim_secret s) (hdr headerTimestamp @ ''.'' @ bdy)"
proof (cases "ParseInt64 (hdr headerTimestamp)")
  case None
  then show ?thesis by (simp add: Simulator_Verify_def Let_def)
next
  case (Some k)
  let ?d = "now - k * 1000000000"
  have k: "in64 (k + 62135596800)" "\<bar>?d\<bar> < 2 ^ 63" using assms(2) Some by auto
  then have u: "time_Unix k = k * 1000000000" by (simp add: time_Unix_def)
  have d: "in64 ?d" "in64 (- ?d)" using k(2) by (auto simp: in64_def)
  have s0: "sint (time_Sub now (time_Unix k)) = ?d" 
    unfolding time_Sub_def u if_P [OF d(1)] by (rule sint_word_of_int_in64 [OF d(1)])
  have "sint (if sint (time_Sub now (time_Unix k)) < 0 then - time_Sub now (time_Unix k) else time_Sub now (time_Unix k)) = \<bar>?d\<bar>"
    using s0 d by (simp add: abs_if)
  moreover have "sint DefaultTolerance = 300 * 1000000000" by (simp add: DefaultTolerance_def)
  ultimately show ?thesis using Some assms(1) by (auto simp: Simulator_Verify_def Let_def)
qed

theorem Simulator_Verify_exact_witness:
  "Simulator_Verify (\<lambda>s m. s @ m) (NewSimulator ''sim'' ''k'') demo_headers ''FAILED'' 0 = Inr ()"
proof -
  have p: "ParseInt64 (demo_headers headerTimestamp) = Some 100" by code_simp
  have "demo_headers headerTimestamp = ''100''" "demo_headers headerSignature = ''k100.FAILED''"
    by (simp_all add: demo_headers_def headerTimestamp_def headerSignature_def)
  then show ?thesis
    using Simulator_Verify_exact [of "NewSimulator ''sim'' ''k''" demo_headers 0 "\<lambda>s m. s @ m" "''FAILED''"] p
    by (simp add: NewSimulator_def in64_def)
qed

text \<open>The window has no far end. The difference of two times saturates, the smallest duration negated is itself, and a
  negative skew is below every tolerance: a signed timestamp 300 years ahead passes a check that refuses one six minutes
  ahead.\<close>

theorem Simulator_Verify_far_future:
  "let hdr = (\<lambda>ts k. if k = headerTimestamp then ts else if k = headerSignature then ''k'' @ ts @ ''.x'' else []);
       check = (\<lambda>ts. Simulator_Verify (\<lambda>s m. s @ m) (NewSimulator ''sim'' ''k'') (hdr ts) ''x'' 0)
   in check ''360'' = Inl ErrTimestampOutsideWindow \<and> check ''9460800000'' = Inr ()"
proof -
  have p: "ParseInt64 ''360'' = Some 360" "ParseInt64 ''9460800000'' = Some 9460800000"
    by (simp_all add: ParseInt64_def atoi_def parse_nat_def digit_val_def in64_def)
  have near: "time_Sub 0 (time_Unix 360) = word_of_int (- 360000000000)" by (simp add: time_Unix_def time_Sub_def in64_def)
  have far: "time_Sub 0 (time_Unix 9460800000) = MinInt64" by (simp add: time_Unix_def time_Sub_def in64_def)
  have neg: "- MinInt64 = MinInt64" by (simp add: MinInt64_def)
  show ?thesis unfolding Let_def Simulator_Verify_def
    by (simp add: headerTimestamp_def headerSignature_def p near far neg NewSimulator_def DefaultTolerance_def)
qed

end
