(* ===== verification/Worker.thy ===== *)
theory Worker
  imports Messaging WebhookClaims Resilience CaptureSafety
begin

text \<open>
  The worker (internal/worker): deduplication (dedup.go), the retry ladder and the dead letter queue every handler
  shares (dispatch.go), the router by origin topic, and the two handlers, for authorization work
  (authorize_handler.go) and for accepted callbacks (webhook_handler.go). A worker's state is the world of databases
  and provider calls, what the broker holds of its produced records with a script of what it does with the next ones,
  and the circuit breaker of the default provider. \<open>uuid.Parse\<close>, the text of errors and the decoding of a body
  that the code itself did not write are parameters.
\<close>

section \<open>Deduplication (dedup.go)\<close>

definition AlreadyHandled :: "string \<Rightarrow> uuid \<Rightarrow> db \<Rightarrow> bool result" where
  "AlreadyHandled grp eventID d = Inr (list_ex (\<lambda>x. x = (eventID, grp)) (db_processed d))"

definition MarkHandled :: "string \<Rightarrow> uuid \<Rightarrow> unit body" where
  "MarkHandled grp eventID s d =
     (s, Inr (if list_ex (\<lambda>x. x = (eventID, grp)) (db_processed d) then d
              else d\<lparr>db_processed := db_processed d @ [(eventID, grp)]\<rparr>))"

section \<open>The dispatcher (dispatch.go)\<close>

record wstate =
  ws_world :: world
  ws_log :: "KRecord list"
  ws_pub :: "publish_result list"
  ws_breaker :: "CircuitBreaker option"

record dispatcher =
  dp_topics :: Topics
  dp_group :: string
  dp_parseUUID :: "string \<Rightarrow> uuid option"
  dp_errText :: "gerror \<Rightarrow> string"
  dp_trace :: "(string \<times> string) list"

definition produce :: "KRecord \<Rightarrow> wstate \<Rightarrow> unit result \<times> wstate" where
  "produce r st =
     (case ws_pub st of
        [] \<Rightarrow> (Inr (), st\<lparr>ws_log := ws_log st @ [r]\<rparr>)
      | Acked # ps \<Rightarrow> (Inr (), st\<lparr>ws_log := ws_log st @ [r], ws_pub := ps\<rparr>)
      | DeliveredUnacked # ps \<Rightarrow> (Inl (ErrInfra ''publish''), st\<lparr>ws_log := ws_log st @ [r], ws_pub := ps\<rparr>)
      | Dropped # ps \<Rightarrow> (Inl (ErrInfra ''publish''), st\<lparr>ws_pub := ps\<rparr>))"

definition sendToDLQ :: "dispatcher \<Rightarrow> time \<Rightarrow> KMessage \<Rightarrow> string \<Rightarrow> wstate \<Rightarrow> unit result \<times> wstate" where
  "sendToDLQ dp now msg reason st =
     produce (PublishWithHeaders (dp_trace dp) now (tp_DLQ (dp_topics dp)) (km_PartitionKey msg) (km_EventID msg) (km_Payload msg)
       ([(''dlq-reason'', reason), (''dlq-origin-topic'', km_Topic msg)]
        @ [(HeaderAttempt, show_int (km_Attempt msg)), (HeaderOriginTopic, Origin msg)])) st"

definition scheduleRetry :: "dispatcher \<Rightarrow> time \<Rightarrow> KMessage \<Rightarrow> RetryDecision \<Rightarrow> gerror \<Rightarrow> wstate \<Rightarrow> unit result \<times> wstate" where
  "scheduleRetry dp now msg dec cause st =
     (let nextAttempt = wrap64 (km_Attempt msg + 1);
          maxAttempts = (if rd_MaxAttempts dec \<le> 0 then MaxRetryAttempts (dp_topics dp) else int (rd_MaxAttempts dec)) in
      if nextAttempt > maxAttempts
      then sendToDLQ dp now msg (''exhausted '' @ show_int maxAttempts @ '' attempts: '' @ dp_errText dp cause) st
      else let tierIndex = (if rd_LongBackoff dec \<and> nextAttempt < 3 then 3 else nextAttempt) in
        case TierForAttempt (dp_topics dp) tierIndex of
          None \<Rightarrow> sendToDLQ dp now msg (''no retry tier for attempt '' @ show_int tierIndex @ '': '' @ dp_errText dp cause) st
        | Some tier \<Rightarrow>
            produce (PublishWithHeaders (dp_trace dp) now (rt_Topic tier) (km_PartitionKey msg) (km_EventID msg) (km_Payload msg)
              [(HeaderAttempt, show_int nextAttempt), (HeaderOriginTopic, Origin msg)]) st)"

definition markHandled :: "dispatcher \<Rightarrow> uuid \<Rightarrow> wstate \<Rightarrow> unit result \<times> wstate" where
  "markHandled dp eventID st =
     (case tx_at Global (MarkHandled (dp_group dp) eventID) () (ws_world st) of (_, r, w) \<Rightarrow> (r, st\<lparr>ws_world := w\<rparr>))"

text \<open>\<open>Inr (Some id)\<close> tells the handler to proceed, \<open>Inr None\<close> that there is nothing left to do.\<close>

definition dispatch_begin :: "dispatcher \<Rightarrow> time \<Rightarrow> KMessage \<Rightarrow> wstate \<Rightarrow> uuid option result \<times> wstate" where
  "dispatch_begin dp now msg st =
     (case dp_parseUUID dp (km_EventID msg) of
        None \<Rightarrow> (case sendToDLQ dp now msg ''unparseable event id'' st of
                   (Inl e, st1) \<Rightarrow> (Inl e, st1) | (Inr _, st1) \<Rightarrow> (Inr None, st1))
      | Some eventID \<Rightarrow>
          (case query_at Global (AlreadyHandled (dp_group dp) eventID) (ws_world st) of
             (Inl e, w) \<Rightarrow> (Inl e, st\<lparr>ws_world := w\<rparr>)
           | (Inr handled, w) \<Rightarrow> (Inr (if handled then None else Some eventID), st\<lparr>ws_world := w\<rparr>)))"

type_synonym handler = "KMessage \<Rightarrow> wstate \<Rightarrow> unit result \<times> wstate"

definition Router_Handle :: "dispatcher \<Rightarrow> time \<Rightarrow> (string \<rightharpoonup> handler) \<Rightarrow> handler" where
  "Router_Handle dp now handlers msg st =
     (case handlers (Origin msg) of
        None \<Rightarrow> sendToDLQ dp now msg (''no handler registered for origin topic '' @ Origin msg) st
      | Some h \<Rightarrow> h msg st)"

section \<open>Authorization work (authorize_handler.go)\<close>

text \<open>Decoding JSON into a struct ignores unknown fields and leaves missing ones at zero, so the body of another kind
  of message decodes to an empty request.\<close>

fun decodeAuthorize :: "(string \<Rightarrow> (uuid \<times> string) option) \<Rightarrow> Payload \<Rightarrow> (uuid \<times> string) option" where
  "decodeAuthorize raw (AuthorizeRequested i m) = Some (i, m)"
| "decodeAuthorize raw (WebhookReceived _ _ _) = Some (0, [])"
| "decodeAuthorize raw (RawPayload b) = raw b"

record AuthorizeHandler =
  ah_dispatcher :: dispatcher
  ah_service :: Service
  ah_decode :: "string \<Rightarrow> (uuid \<times> string) option"

definition plain_retry :: RetryDecision where
  "plain_retry = no_decision\<lparr>rd_Retry := True\<rparr>"

definition with_breaker :: "(CircuitBreaker \<Rightarrow> CircuitBreaker) \<Rightarrow> wstate \<Rightarrow> wstate" where
  "with_breaker f st = st\<lparr>ws_breaker := map_option f (ws_breaker st)\<rparr>"

definition publishBreakerState :: "time \<Rightarrow> wstate \<Rightarrow> wstate" where
  "publishBreakerState now st = with_breaker (\<lambda>b. snd (Breaker_State now b)) st"

definition handleProviderError :: "AuthorizeHandler \<Rightarrow> time \<Rightarrow> KMessage \<Rightarrow> uuid \<Rightarrow> gerror \<Rightarrow> wstate \<Rightarrow> unit result \<times> wstate" where
  "handleProviderError h now msg eventID authErr st =
     (let class = ClassOf authErr; dec = RetryPolicyFor class;
          st1 = with_breaker (if Class_IsTerminal class then Success else Failure now) st in
      if \<not> rd_Retry dec then markHandled (ah_dispatcher h) eventID st1
      else scheduleRetry (ah_dispatcher h) now msg dec authErr st1)"

definition authorize_call :: "AuthorizeHandler \<Rightarrow> time \<Rightarrow> (nat \<Rightarrow> bool) \<Rightarrow> KMessage \<Rightarrow> uuid \<Rightarrow> uuid \<times> string \<Rightarrow> wstate \<Rightarrow> unit result \<times> wstate" where
  "authorize_call h now ctxDone msg eventID payload st =
     (case Service_Authorize (ah_service h) now ctxDone (snd payload) (fst payload) (ws_world st) of
        ((_, None), w) \<Rightarrow> markHandled (ah_dispatcher h) eventID (with_breaker Success (st\<lparr>ws_world := w\<rparr>))
      | ((None, Some authErr), w) \<Rightarrow> scheduleRetry (ah_dispatcher h) now msg plain_retry authErr (st\<lparr>ws_world := w\<rparr>)
      | ((Some _, Some authErr), w) \<Rightarrow> handleProviderError h now msg eventID authErr (st\<lparr>ws_world := w\<rparr>))"

definition authorize :: "AuthorizeHandler \<Rightarrow> time \<Rightarrow> (nat \<Rightarrow> bool) \<Rightarrow> KMessage \<Rightarrow> uuid \<Rightarrow> uuid \<times> string \<Rightarrow> wstate \<Rightarrow> unit result \<times> wstate" where
  "authorize h now ctxDone msg eventID payload st =
     (let (allowed, st1) = (case ws_breaker st of
            None \<Rightarrow> (True, st)
          | Some b \<Rightarrow> (fst (Allow now b), st\<lparr>ws_breaker := Some (snd (Allow now b))\<rparr>));
          (r, st2) = (if \<not> allowed
            then scheduleRetry (ah_dispatcher h) now msg (plain_retry\<lparr>rd_LongBackoff := True\<rparr>) ErrCircuitOpen st1
            else authorize_call h now ctxDone msg eventID payload st1)
      in (r, publishBreakerState now st2))"

definition AuthorizeHandler_Handle :: "AuthorizeHandler \<Rightarrow> time \<Rightarrow> (nat \<Rightarrow> bool) \<Rightarrow> handler" where
  "AuthorizeHandler_Handle h now ctxDone msg st =
     (case dispatch_begin (ah_dispatcher h) now msg st of
        (Inl e, st1) \<Rightarrow> (Inl e, st1)
      | (Inr None, st1) \<Rightarrow> (Inr (), st1)
      | (Inr (Some eventID), st1) \<Rightarrow>
          (case decodeAuthorize (ah_decode h) (km_Payload msg) of
             None \<Rightarrow> sendToDLQ (ah_dispatcher h) now msg ''undecodable payload'' st1
           | Some payload \<Rightarrow> authorize h now ctxDone msg eventID payload st1))"

section \<open>Callbacks (webhook_handler.go)\<close>

fun decodeReceived :: "(string \<Rightarrow> (nat \<times> string \<times> string) option) \<Rightarrow> Payload \<Rightarrow> (nat \<times> string \<times> string) option" where
  "decodeReceived raw (WebhookReceived i p r) = Some (i, p, r)"
| "decodeReceived raw (AuthorizeRequested _ _) = Some (0, [], [])"
| "decodeReceived raw (RawPayload b) = raw b"

record WebhookHandler =
  wh_dispatcher :: dispatcher
  wh_processor :: Processor
  wh_decode :: "string \<Rightarrow> (nat \<times> string \<times> string) option"

definition awaitCorrelation :: "WebhookHandler \<Rightarrow> time \<Rightarrow> KMessage \<Rightarrow> nat \<times> string \<times> string \<Rightarrow> gerror \<Rightarrow> wstate \<Rightarrow> unit result \<times> wstate" where
  "awaitCorrelation h now msg payload cause st =
     (if km_Attempt msg < MaxRetryAttempts (dp_topics (wh_dispatcher h))
      then scheduleRetry (wh_dispatcher h) now msg plain_retry cause st
      else let note = ''no transaction for reference '' @ snd (snd payload) in
        case MarkUnmatched (fst payload) note (ws_world st) of
          (Inl e, w) \<Rightarrow> (Inl e, st\<lparr>ws_world := w\<rparr>)
        | (Inr _, w) \<Rightarrow> sendToDLQ (wh_dispatcher h) now msg note (st\<lparr>ws_world := w\<rparr>))"

definition WebhookHandler_Handle :: "WebhookHandler \<Rightarrow> time \<Rightarrow> handler" where
  "WebhookHandler_Handle h now msg st =
     (case dispatch_begin (wh_dispatcher h) now msg st of
        (Inl e, st1) \<Rightarrow> (Inl e, st1)
      | (Inr None, st1) \<Rightarrow> (Inr (), st1)
      | (Inr (Some eventID), st1) \<Rightarrow>
          (case decodeReceived (wh_decode h) (km_Payload msg) of
             None \<Rightarrow> sendToDLQ (wh_dispatcher h) now msg ''undecodable payload'' st1
           | Some payload \<Rightarrow>
               (case Process (wh_processor h) now (fst payload) (ws_world st1) of
                  (Inr _, w) \<Rightarrow> markHandled (wh_dispatcher h) eventID (st1\<lparr>ws_world := w\<rparr>)
                | (Inl e, w) \<Rightarrow>
                    if e = ErrNotCorrelated then awaitCorrelation h now msg payload e (st1\<lparr>ws_world := w\<rparr>)
                    else scheduleRetry (wh_dispatcher h) now msg plain_retry e (st1\<lparr>ws_world := w\<rparr>))))"

end
