(* ===== verification/WorkerClaims.thy ===== *)
theory WorkerClaims
  imports Worker
begin

text \<open>
  What the worker guarantees of a message: handled without error it is settled, that is recorded as processed or
  carried on by exactly one record the broker holds, with its identity, body, origin and attempt count intact; the
  ladder is finite; a processed event is skipped. And what the consumer makes of it: it commits a message whose
  handler failed, so that a failed lookup loses it.
\<close>

section \<open>Records that carry a message on\<close>

definition sane :: "dispatcher \<Rightarrow> KMessage \<Rightarrow> bool" where
  "sane dp msg \<longleftrightarrow> km_Topic msg \<noteq> [] \<and> 0 \<le> km_Attempt msg \<and> km_Attempt msg < 2 ^ 62
     \<and> (\<forall>h \<in> set (dp_trace dp). \<not> own_header (fst h)) \<and> length (tp_Retry (dp_topics dp)) < 2 ^ 62"

text \<open>What the next consumer reads of the message: the same work, on a tier one attempt further or parked.\<close>

definition same_work :: "KMessage \<Rightarrow> KMessage \<Rightarrow> bool" where
  "same_work msg m \<longleftrightarrow> km_EventID m = km_EventID msg \<and> km_PartitionKey m = km_PartitionKey msg
     \<and> km_Payload m = km_Payload msg \<and> Origin m = Origin msg"

definition on_tier :: "Topics \<Rightarrow> KMessage \<Rightarrow> KMessage \<Rightarrow> bool" where
  "on_tier t msg m \<longleftrightarrow> same_work msg m \<and> km_Topic m \<in> set (map rt_Topic (tp_Retry t))
     \<and> km_Attempt m = km_Attempt msg + 1 \<and> km_Attempt m \<le> MaxRetryAttempts t"

definition in_dlq :: "Topics \<Rightarrow> KMessage \<Rightarrow> KMessage \<Rightarrow> bool" where
  "in_dlq t msg m \<longleftrightarrow> same_work msg m \<and> km_Topic m = tp_DLQ t \<and> km_Attempt m = km_Attempt msg"

definition carried :: "dispatcher \<Rightarrow> KMessage \<Rightarrow> KRecord \<Rightarrow> bool" where
  "carried dp msg r \<longleftrightarrow> on_tier (dp_topics dp) msg (toMessage r) \<or> in_dlq (dp_topics dp) msg (toMessage r)"

lemma Origin_nonempty: "km_Topic msg \<noteq> [] \<Longrightarrow> Origin msg \<noteq> []"
  by (simp add: Origin_def)

lemma sendToDLQ_record:
  assumes "sane dp msg"
  obtains r where "sendToDLQ dp now msg reason st = produce r st" "in_dlq (dp_topics dp) msg (toMessage r)"
proof -
  let ?extra = "[(''dlq-reason'', reason), (''dlq-origin-topic'', km_Topic msg)]"
  let ?r = "PublishWithHeaders (dp_trace dp) now (tp_DLQ (dp_topics dp)) (km_PartitionKey msg) (km_EventID msg) (km_Payload msg)
       (?extra @ [(HeaderAttempt, show_int (km_Attempt msg)), (HeaderOriginTopic, Origin msg)])"
  have "in64 (km_Attempt msg)" using assms by (auto simp: sane_def in64_def)
  moreover have "\<forall>h \<in> set (dp_trace dp @ ?extra). \<not> own_header (fst h)"
    using assms by (auto simp: sane_def own_header_def header_names)
  ultimately have "toMessage ?r = \<lparr>km_Topic = tp_DLQ (dp_topics dp), km_PartitionKey = km_PartitionKey msg, km_EventID = km_EventID msg,
      km_Attempt = km_Attempt msg, km_Payload = km_Payload msg, km_OriginTopic = Origin msg, km_Timestamp = now\<rparr>"
    by (rule toMessage_published)
  then have "in_dlq (dp_topics dp) msg (toMessage ?r)"
    using assms Origin_nonempty by (simp add: in_dlq_def same_work_def sane_def Origin_def [of "\<lparr>km_Topic = _, km_PartitionKey = _, km_EventID = _, km_Attempt = _, km_Payload = _, km_OriginTopic = _, km_Timestamp = _\<rparr>"])
  then show thesis using that [of ?r] by (simp add: sendToDLQ_def)
qed

lemma scheduleRetry_record:
  assumes "sane dp msg"
  obtains r where "scheduleRetry dp now msg dec cause st = produce r st" "carried dp msg r"
    "rd_LongBackoff dec \<Longrightarrow> on_tier (dp_topics dp) msg (toMessage r) \<Longrightarrow>
       \<exists>k \<ge> 2. k < length (tp_Retry (dp_topics dp)) \<and> km_Topic (toMessage r) = rt_Topic (tp_Retry (dp_topics dp) ! k)"
proof -
  note result = that
  let ?t = "dp_topics dp" and ?next = "km_Attempt msg + 1"
  let ?max = "if rd_MaxAttempts dec \<le> 0 then MaxRetryAttempts ?t else int (rd_MaxAttempts dec)"
  let ?tier = "if rd_LongBackoff dec \<and> ?next < 3 then 3 else ?next"
  have a: "0 \<le> km_Attempt msg" "in64 ?next" using assms by (auto simp: sane_def in64_def)
  have dlq: thesis if d: "scheduleRetry dp now msg dec cause st = sendToDLQ dp now msg reason st" for reason
  proof -
    obtain r where r: "sendToDLQ dp now msg reason st = produce r st" "in_dlq ?t msg (toMessage r)" using sendToDLQ_record [OF assms] .
    have "\<not> on_tier ?t msg (toMessage r)" using r(2) by (simp add: on_tier_def in_dlq_def)
    then show thesis using result [of r] d r by (simp add: carried_def)
  qed
  have w: "wrap64 ?next = ?next" using a(2) by simp
  note u = scheduleRetry_def [of dp now msg dec cause st, unfolded Let_def w]
  show thesis
  proof (cases "?next > ?max \<or> TierForAttempt ?t ?tier = None")
    case True
    then show thesis using dlq u by (auto split: if_splits)
  next
    case False
    then obtain tier where tier: "TierForAttempt ?t ?tier = Some tier" by auto
    let ?r = "PublishWithHeaders (dp_trace dp) now (rt_Topic tier) (km_PartitionKey msg) (km_EventID msg) (km_Payload msg)
        ([] @ [(HeaderAttempt, show_int ?next), (HeaderOriginTopic, Origin msg)])"
    have s: "scheduleRetry dp now msg dec cause st = produce ?r st" using u False tier by (auto split: if_splits)
    have k: "?tier - 1 < MaxRetryAttempts ?t" "tier = tp_Retry ?t ! nat (?tier - 1)" "1 \<le> ?tier" "?next \<le> ?tier"
      using tier a(1) by (auto simp: TierForAttempt_def MaxRetryAttempts_def Let_def split: if_splits)
    then have mem: "nat (?tier - 1) < length (tp_Retry ?t)" by (simp add: MaxRetryAttempts_def nat_less_iff)
    have m: "toMessage ?r = \<lparr>km_Topic = rt_Topic tier, km_PartitionKey = km_PartitionKey msg, km_EventID = km_EventID msg,
        km_Attempt = ?next, km_Payload = km_Payload msg, km_OriginTopic = Origin msg, km_Timestamp = now\<rparr>"
      by (rule toMessage_published [OF a(2)]) (use assms in \<open>simp add: sane_def\<close>)
    have "on_tier ?t msg (toMessage ?r)"
      using m k mem assms Origin_nonempty [of msg] by (auto simp: on_tier_def same_work_def sane_def Origin_def [of "\<lparr>km_Topic = _, km_PartitionKey = _, km_EventID = _, km_Attempt = _, km_Payload = _, km_OriginTopic = _, km_Timestamp = _\<rparr>"])
    moreover have "\<exists>k \<ge> 2. k < length (tp_Retry ?t) \<and> km_Topic (toMessage ?r) = rt_Topic (tp_Retry ?t ! k)" if "rd_LongBackoff dec"
      using that m k(2) mem by (intro exI [of _ "nat (?tier - 1)"]) auto
    ultimately show thesis using result [of ?r] s by (simp add: carried_def)
  qed
qed

section \<open>The contract of a handler\<close>

definition processed :: "dispatcher \<Rightarrow> KMessage \<Rightarrow> wstate \<Rightarrow> bool" where
  "processed dp msg st \<longleftrightarrow> (\<exists>eventID. dp_parseUUID dp (km_EventID msg) = Some eventID \<and> w_dbs (ws_world st) \<noteq> []
     \<and> (eventID, dp_group dp) \<in> set (db_processed (w_dbs (ws_world st) ! 0)))"

definition settled :: "dispatcher \<Rightarrow> KMessage \<Rightarrow> wstate \<Rightarrow> wstate \<Rightarrow> bool" where
  "settled dp msg st st' \<longleftrightarrow> (\<exists>r. ws_log st' = ws_log st @ [r] \<and> carried dp msg r) \<or> ws_log st' = ws_log st \<and> processed dp msg st'"

lemma produce_Inr: "produce r st = (Inr (), st') \<Longrightarrow> ws_log st' = ws_log st @ [r]"
  by (auto simp: produce_def split: list.splits publish_result.splits)

lemma dlq_settles:
  assumes "sane dp msg" "sendToDLQ dp now msg reason st1 = (Inr (), st')" "ws_log st1 = ws_log st"
  shows "settled dp msg st st'"
proof -
  obtain r where "sendToDLQ dp now msg reason st1 = produce r st1" "in_dlq (dp_topics dp) msg (toMessage r)"
    using sendToDLQ_record [OF assms(1)] .
  then show ?thesis using assms(2,3) produce_Inr by (auto simp: settled_def carried_def)
qed

locale handler_set =
  fixes dp :: dispatcher and handlers :: "string \<rightharpoonup> handler"
  assumes settles: "handlers topic = Some h \<Longrightarrow> sane dp msg \<Longrightarrow> h msg st = (Inr (), st') \<Longrightarrow> settled dp msg st st'"
begin

lemma routed_settles:
  assumes "sane dp msg" "Router_Handle dp now handlers msg st = (Inr (), st')"
  shows "settled dp msg st st'"
proof (cases "handlers (Origin msg)")
  case None
  then show ?thesis using assms(2) dlq_settles [OF assms(1)] by (simp add: Router_Handle_def)
next
  case (Some h)
  then show ?thesis using settles [OF Some assms(1)] assms(2) by (simp add: Router_Handle_def)
qed

end

lemma retry_settles:
  assumes "sane dp msg" "scheduleRetry dp now msg dec cause st1 = (Inr (), st')" "ws_log st1 = ws_log st"
  shows "settled dp msg st st'"
proof -
  obtain r where "scheduleRetry dp now msg dec cause st1 = produce r st1" "carried dp msg r" using scheduleRetry_record [OF assms(1)] .
  then show ?thesis using assms(2,3) produce_Inr by (auto simp: settled_def)
qed

lemma mark_settles:
  assumes "markHandled dp eventID st1 = (Inr (), st')" "ws_log st1 = ws_log st" "dp_parseUUID dp (km_EventID msg) = Some eventID"
  shows "settled dp msg st st'"
proof -
  obtain s w where x: "tx_at Global (MarkHandled (dp_group dp) eventID) () (ws_world st1) = (s, Inr (), w)" and st': "st' = st1\<lparr>ws_world := w\<rparr>"
    using assms(1) by (auto simp: markHandled_def split: prod.splits)
  from x obtain f and w1 :: world where a: "(w_dbs w = w_dbs w1 \<and> \<not> is_ok (Inr () :: unit result)) \<or> (\<exists>d1. Global < length (w_dbs w1)
       \<and> MarkHandled (dp_group dp) eventID () (w_dbs w1 ! Global) = (s, Inr d1)
       \<and> commit_check (w_dbs w1 ! Global) d1 = Inr () \<and> w_dbs w = (w_dbs w1)[Global := d1])"
    by (rule tx_at_atomic) blast
  then obtain d1 where d: "0 < length (w_dbs w1)" "MarkHandled (dp_group dp) eventID () (w_dbs w1 ! 0) = (s, Inr d1)"
    "w_dbs w = (w_dbs w1)[0 := d1]" by (auto simp: Global_def)
  then have "w_dbs w \<noteq> []" "(eventID, dp_group dp) \<in> set (db_processed (w_dbs w ! 0))"
    by (auto simp: MarkHandled_def list_ex_iff split: if_splits)
  then show ?thesis using assms(2,3) by (simp add: settled_def processed_def st')
qed

lemma begin_cases:
  assumes "sane dp msg" "dispatch_begin dp now msg st = (r, st1)"
  shows "r = Inr None \<Longrightarrow> settled dp msg st st1"
    "r = Inr (Some eventID) \<Longrightarrow> ws_log st1 = ws_log st \<and> dp_parseUUID dp (km_EventID msg) = Some eventID"
proof -
  have "(r = Inr None \<longrightarrow> settled dp msg st st1)
    \<and> (\<forall>eventID. r = Inr (Some eventID) \<longrightarrow> ws_log st1 = ws_log st \<and> dp_parseUUID dp (km_EventID msg) = Some eventID)"
  proof (cases "dp_parseUUID dp (km_EventID msg)")
    case None
    then show ?thesis using assms(2) dlq_settles [OF assms(1)]
      by (auto simp: dispatch_begin_def split: prod.splits sum.splits)
  next
    case (Some i)
    obtain q w where q: "query_at Global (AlreadyHandled (dp_group dp) i) (ws_world st) = (q, w)" by (metis surj_pair)
    have "w_dbs w \<noteq> [] \<and> (i, dp_group dp) \<in> set (db_processed (w_dbs w ! 0))" if "q = Inr True"
      using q that by (auto simp: query_at_def AlreadyHandled_def Global_def list_ex_iff split: prod.splits if_splits)
    then show ?thesis using assms(2) Some q
      by (cases q) (auto simp: dispatch_begin_def settled_def processed_def split: if_splits)
  qed
  then show "r = Inr None \<Longrightarrow> settled dp msg st st1"
    "r = Inr (Some eventID) \<Longrightarrow> ws_log st1 = ws_log st \<and> dp_parseUUID dp (km_EventID msg) = Some eventID" by blast+
qed

lemma log_with_breaker [simp]: "ws_log (with_breaker f st) = ws_log st" "ws_world (with_breaker f st) = ws_world st"
  by (simp_all add: with_breaker_def)

lemma settled_breaker [simp]: "settled dp msg st (with_breaker f st') = settled dp msg st st'"
  by (simp add: settled_def processed_def)

lemma authorize_call_settles:
  assumes "sane (ah_dispatcher h) msg" "authorize_call h now ctxDone msg eventID payload st1 = (Inr (), st')"
    "ws_log st1 = ws_log st" "dp_parseUUID (ah_dispatcher h) (km_EventID msg) = Some eventID"
  shows "settled (ah_dispatcher h) msg st st'"
proof -
  obtain t e w where a: "Service_Authorize (ah_service h) now ctxDone (snd payload) (fst payload) (ws_world st1) = ((t, e), w)"
    by (metis surj_pair)
  show ?thesis
  proof (cases e)
    case None
    then have "markHandled (ah_dispatcher h) eventID (with_breaker Success (st1\<lparr>ws_world := w\<rparr>)) = (Inr (), st')"
      using assms(2) a by (cases t) (simp_all add: authorize_call_def)
    then show ?thesis using mark_settles [OF _ _ assms(4)] assms(3) by simp
  next
    case (Some err)
    show ?thesis
    proof (cases t)
      case None
      then show ?thesis using assms a Some retry_settles [OF assms(1)] by (simp add: authorize_call_def)
    next
      case t: (Some tx)
      then have "handleProviderError h now msg eventID err (st1\<lparr>ws_world := w\<rparr>) = (Inr (), st')"
        using assms(2) a Some by (simp add: authorize_call_def)
      then show ?thesis
        using mark_settles [OF _ _ assms(4)] retry_settles [OF assms(1)] assms(3)
        by (auto simp: handleProviderError_def Let_def split: if_splits)
    qed
  qed
qed

lemma authorize_settles:
  assumes "sane (ah_dispatcher h) msg" "AuthorizeHandler_Handle h now ctxDone msg st = (Inr (), st')"
  shows "settled (ah_dispatcher h) msg st st'"
proof -
  let ?dp = "ah_dispatcher h"
  obtain r st1 where b: "dispatch_begin ?dp now msg st = (r, st1)" by (metis surj_pair)
  note bc = begin_cases [OF assms(1) b]
  consider (skip) "r = Inr None" "st1 = st'" | (go) eventID where "r = Inr (Some eventID)"
    using assms(2) b by (auto simp: AuthorizeHandler_Handle_def split: sum.splits option.splits)
  then show ?thesis
  proof cases
    case skip
    then show ?thesis using bc(1) by simp
  next
    case go
    note g = bc(2) [OF go]
    show ?thesis
    proof (cases "decodeAuthorize (ah_decode h) (km_Payload msg)")
      case None
      then show ?thesis using assms b go dlq_settles [OF assms(1)] g by (simp add: AuthorizeHandler_Handle_def)
    next
      case (Some payload)
      then have a: "authorize h now ctxDone msg eventID payload st1 = (Inr (), st')"
        using assms(2) b go by (simp add: AuthorizeHandler_Handle_def)
      define st2 where "st2 = (case ws_breaker st1 of None \<Rightarrow> st1 | Some b \<Rightarrow> st1\<lparr>ws_breaker := Some (snd (Allow now b))\<rparr>)"
      have l: "ws_log st2 = ws_log st" using g by (simp add: st2_def split: option.splits)
      obtain st3 where st3: "st' = publishBreakerState now st3"
        "scheduleRetry ?dp now msg (plain_retry\<lparr>rd_LongBackoff := True\<rparr>) ErrCircuitOpen st2 = (Inr (), st3)
         \<or> authorize_call h now ctxDone msg eventID payload st2 = (Inr (), st3)"
        using a by (auto simp: authorize_def st2_def Let_def split: prod.splits option.splits if_splits)
      then have "settled ?dp msg st st3"
        using retry_settles [OF assms(1) _ l] authorize_call_settles [OF assms(1) _ l] g by blast
      then show ?thesis by (simp add: st3(1) publishBreakerState_def)
    qed
  qed
qed

lemma webhook_settles:
  assumes "sane (wh_dispatcher h) msg" "WebhookHandler_Handle h now msg st = (Inr (), st')"
  shows "settled (wh_dispatcher h) msg st st'"
proof -
  let ?dp = "wh_dispatcher h"
  obtain r st1 where b: "dispatch_begin ?dp now msg st = (r, st1)" by (metis surj_pair)
  note bc = begin_cases [OF assms(1) b]
  consider (skip) "r = Inr None" "st1 = st'" | (go) eventID where "r = Inr (Some eventID)"
    using assms(2) b by (auto simp: WebhookHandler_Handle_def split: sum.splits option.splits)
  then show ?thesis
  proof cases
    case skip
    then show ?thesis using bc(1) by simp
  next
    case go
    note g = bc(2) [OF go]
    show ?thesis
    proof (cases "decodeReceived (wh_decode h) (km_Payload msg)")
      case None
      then show ?thesis using assms b go dlq_settles [OF assms(1)] g by (simp add: WebhookHandler_Handle_def)
    next
      case (Some payload)
      obtain q w where q: "Process (wh_processor h) now (fst payload) (ws_world st1) = (q, w)" by (metis surj_pair)
      have rest: "(case (q, w) of (Inr _, w) \<Rightarrow> markHandled ?dp eventID (st1\<lparr>ws_world := w\<rparr>)
          | (Inl e, w) \<Rightarrow> if e = ErrNotCorrelated then awaitCorrelation h now msg payload e (st1\<lparr>ws_world := w\<rparr>)
              else scheduleRetry ?dp now msg plain_retry e (st1\<lparr>ws_world := w\<rparr>)) = (Inr (), st')"
        using assms(2) b go Some q by (simp add: WebhookHandler_Handle_def)
      have wait: "settled ?dp msg st st'" if "awaitCorrelation h now msg payload e (st1\<lparr>ws_world := w\<rparr>) = (Inr (), st')" for e
        using that retry_settles [OF assms(1)] dlq_settles [OF assms(1)] g
        by (auto simp: awaitCorrelation_def Let_def split: if_splits prod.splits sum.splits)
      show ?thesis
        using rest wait retry_settles [OF assms(1)] mark_settles g by (cases q) (auto split: if_splits)
    qed
  qed
qed

section \<open>The worker's routes\<close>

text \<open>The two registrations of cmd/worker/main.go, over one dispatcher.\<close>

definition worker_routes ::
  "dispatcher \<Rightarrow> Service \<Rightarrow> (string \<Rightarrow> (uuid \<times> string) option) \<Rightarrow> Processor \<Rightarrow> (string \<Rightarrow> (nat \<times> string \<times> string) option)
    \<Rightarrow> time \<Rightarrow> (nat \<Rightarrow> bool) \<Rightarrow> string \<rightharpoonup> handler" where
  "worker_routes dp svc decA proc decW now ctxDone =
     [tp_Authorize (dp_topics dp) \<mapsto> AuthorizeHandler_Handle \<lparr>ah_dispatcher = dp, ah_service = svc, ah_decode = decA\<rparr> now ctxDone,
      tp_Webhook (dp_topics dp) \<mapsto> WebhookHandler_Handle \<lparr>wh_dispatcher = dp, wh_processor = proc, wh_decode = decW\<rparr> now]"

interpretation worker: handler_set dp "worker_routes dp svc decA proc decW now ctxDone"
  for dp svc decA proc decW now ctxDone
proof
  fix topic h msg st st'
  assume h: "worker_routes dp svc decA proc decW now ctxDone topic = Some h" and s: "sane dp msg" and r: "h msg st = (Inr (), st')"
  from h consider "h = WebhookHandler_Handle \<lparr>wh_dispatcher = dp, wh_processor = proc, wh_decode = decW\<rparr> now"
    | "h = AuthorizeHandler_Handle \<lparr>ah_dispatcher = dp, ah_service = svc, ah_decode = decA\<rparr> now ctxDone"
    by (auto simp: worker_routes_def split: if_splits)
  then show "settled dp msg st st'"
  proof cases
    case 1
    then show ?thesis using webhook_settles [of "\<lparr>wh_dispatcher = dp, wh_processor = proc, wh_decode = decW\<rparr>"] s r by simp
  next
    case 2
    then show ?thesis using authorize_settles [of "\<lparr>ah_dispatcher = dp, ah_service = svc, ah_decode = decA\<rparr>"] s r by simp
  qed
qed

section \<open>The ladder\<close>

text \<open>One hop: an acknowledged retry that lands on a tier, and what the consumer of the tier will read.\<close>

definition hop :: "dispatcher \<Rightarrow> KMessage \<Rightarrow> KMessage \<Rightarrow> bool" where
  "hop dp m m' \<longleftrightarrow> (\<exists>now dec cause st st' r. scheduleRetry dp now m dec cause st = (Inr (), st')
     \<and> ws_log st' = ws_log st @ [r] \<and> m' = toMessage r \<and> km_Topic m' \<noteq> tp_DLQ (dp_topics dp))"

lemma hop_on_tier:
  assumes "sane dp m" "hop dp m m'"
  shows "on_tier (dp_topics dp) m m'"
proof -
  obtain now dec cause st st' r where h: "scheduleRetry dp now m dec cause st = (Inr (), st')"
    "ws_log st' = ws_log st @ [r]" "m' = toMessage r" "km_Topic m' \<noteq> tp_DLQ (dp_topics dp)"
    using assms(2) by (auto simp: hop_def)
  obtain r' where r': "scheduleRetry dp now m dec cause st = produce r' st" "carried dp m r'" using scheduleRetry_record [OF assms(1)] .
  then have "r' = r" using h(1,2) produce_Inr by simp
  then show ?thesis using r'(2) h(3,4) by (simp add: carried_def in_dlq_def)
qed

lemma hops:
  assumes "sane dp m" "\<forall>tier \<in> set (tp_Retry (dp_topics dp)). rt_Topic tier \<noteq> []" "(hop dp ^^ k) m m'"
  shows "same_work m m' \<and> km_Attempt m' = km_Attempt m + int k \<and> sane dp m'
    \<and> (0 < k \<longrightarrow> km_Attempt m' \<le> MaxRetryAttempts (dp_topics dp))"
  using assms(3)
proof (induction k arbitrary: m')
  case 0
  then show ?case using assms(1) by (simp add: same_work_def)
next
  case (Suc k)
  then obtain m1 where m1: "(hop dp ^^ k) m m1" "hop dp m1 m'" by auto
  note IH = Suc.IH [OF m1(1)]
  then have t: "on_tier (dp_topics dp) m1 m'" using hop_on_tier m1(2) by blast
  then have "km_Topic m' \<noteq> []" using assms(2) by (auto simp: on_tier_def)
  then show ?case using IH t by (auto simp: on_tier_def same_work_def sane_def MaxRetryAttempts_def)
qed

section \<open>A concrete worker\<close>

definition demo_dispatcher :: dispatcher where
  "demo_dispatcher = \<lparr>dp_topics = DefaultTopics, dp_group = ''workers'', dp_parseUUID = (\<lambda>s. if s = ''e1'' then Some 50 else None),
     dp_errText = (\<lambda>_. ''error''), dp_trace = []\<rparr>"

definition demo_message :: KMessage where
  "demo_message = \<lparr>km_Topic = ''payment.authorize'', km_PartitionKey = ''m1'', km_EventID = ''e1'', km_Attempt = 0,
     km_Payload = AuthorizeRequested 7 ''m1'', km_OriginTopic = [], km_Timestamp = 0\<rparr>"

definition demo_worker :: "(tx_fault \<times> (db list \<Rightarrow> db list)) list \<Rightarrow> CircuitBreaker option \<Rightarrow> wstate" where
  "demo_worker sched b = \<lparr>ws_world = \<lparr>w_dbs = [demo_db], w_sched = sched, w_calls = []\<rparr>, ws_log = [], ws_pub = [], ws_breaker = b\<rparr>"

abbreviation demo_handle :: "time \<Rightarrow> KMessage \<Rightarrow> wstate \<Rightarrow> unit result \<times> wstate" where
  "demo_handle now \<equiv> Router_Handle demo_dispatcher now
     (worker_routes demo_dispatcher (demo_svc demo_timeout) (\<lambda>_. None) demo_processor (\<lambda>_. None) now (\<lambda>_. False))"

lemma demo_sane: "sane demo_dispatcher demo_message"
  by (simp add: sane_def demo_dispatcher_def demo_message_def DefaultTopics_def RetryTiers_def)

section \<open>Claims\<close>

text \<open>C27: a message whose handler reports no error is settled. Whatever the databases, the provider and the broker did,
  and whether it was authorization work, a callback or work nobody owns: either exactly one new record was produced and it
  reads back as the same work, on a retry tier with the next attempt number or in the dead letter queue; or none was and
  the event is recorded as processed.\<close>

theorem worker_settles_messages:
  assumes "sane dp msg" "Router_Handle dp now (worker_routes dp svc decA proc decW now ctxDone) msg st = (Inr (), st')"
  shows "settled dp msg st st'"
  using assms by (rule worker.routed_settles)

theorem worker_settles_messages_witness:
  "let (r, st') = demo_handle 5 demo_message (demo_worker [] None) in
   r = Inr () \<and> map kr_Topic (ws_log st') = [''payment.retry.5s''] \<and> settled demo_dispatcher demo_message (demo_worker [] None) st'"
proof -
  obtain r st' where h: "demo_handle 5 demo_message (demo_worker [] None) = (r, st')" by (metis surj_pair)
  have "fst (demo_handle 5 demo_message (demo_worker [] None)) = Inr ()" by code_simp
  moreover have "map kr_Topic (ws_log (snd (demo_handle 5 demo_message (demo_worker [] None)))) = [''payment.retry.5s'']" by code_simp
  ultimately show ?thesis using worker_settles_messages [OF demo_sane, of 5] h by simp
qed

text \<open>C35: the ladder is finite. However a message keeps failing and whatever the policy says each time, it can be deferred
  at most as many times as there are tiers, each time as the same work with an attempt count one higher; after that the
  only place left is the dead letter queue.\<close>

theorem retry_ladder_finite:
  assumes "sane dp m" "km_Attempt m = 0" "\<forall>tier \<in> set (tp_Retry (dp_topics dp)). rt_Topic tier \<noteq> []" "(hop dp ^^ k) m m'"
  shows "k \<le> length (tp_Retry (dp_topics dp)) \<and> same_work m m' \<and> km_Attempt m' = int k"
  using hops [OF assms(1,3,4)] assms(2) by (cases k) (auto simp: MaxRetryAttempts_def)

theorem retry_ladder_finite_witness:
  "\<exists>m'. (hop demo_dispatcher ^^ 1) demo_message m' \<and> km_Attempt m' = 1"
proof -
  let ?s = "scheduleRetry demo_dispatcher 5 demo_message plain_retry ErrCircuitOpen (demo_worker [] None)"
  let ?r = "last (ws_log (snd ?s))"
  have "fst ?s = Inr ()" by code_simp
  then have s: "?s = (Inr (), snd ?s)" by (metis prod.collapse)
  have "length (ws_log (snd ?s)) = 1" by code_simp
  then have l: "ws_log (snd ?s) = ws_log (demo_worker [] None) @ [?r]" by (cases "ws_log (snd ?s)") (simp_all add: demo_worker_def)
  have "km_Topic (toMessage ?r) = ''payment.retry.5s''" by code_simp
  then have "hop demo_dispatcher demo_message (toMessage ?r)"
    unfolding hop_def using s l by (intro exI [of _ 5] exI [of _ plain_retry] exI) (auto simp: demo_dispatcher_def DefaultTopics_def)
  then have h: "(hop demo_dispatcher ^^ 1) demo_message (toMessage ?r)" by auto
  show ?thesis
    using retry_ladder_finite [OF demo_sane _ _ h] h by (auto simp: demo_message_def demo_dispatcher_def DefaultTopics_def RetryTiers_def)
qed

text \<open>A processed event is skipped. Delivered again it changes nothing: no provider is called, nothing is produced and
  nothing is written.\<close>

theorem processed_event_is_skipped:
  assumes "processed dp msg st" "w_sched (ws_world st) = []" "Origin msg = tp_Authorize (dp_topics dp) \<or> Origin msg = tp_Webhook (dp_topics dp)"
  shows "Router_Handle dp now (worker_routes dp svc decA proc decW now ctxDone) msg st = (Inr (), st)"
proof -
  obtain i where i: "dp_parseUUID dp (km_EventID msg) = Some i" "w_dbs (ws_world st) \<noteq> []"
    "(i, dp_group dp) \<in> set (db_processed (w_dbs (ws_world st) ! 0))" using assms(1) by (auto simp: processed_def)
  have "query_at Global (AlreadyHandled (dp_group dp) i) (ws_world st) = (Inr True, ws_world st)"
    using i assms(2) by (simp add: query_at_def turn_def Global_def AlreadyHandled_def list_ex_iff)
  then have "dispatch_begin dp now msg st = (Inr None, st)" using i(1) by (simp add: dispatch_begin_def)
  then show ?thesis using assms(3)
    by (auto simp: Router_Handle_def worker_routes_def AuthorizeHandler_Handle_def WebhookHandler_Handle_def)
qed

theorem processed_event_is_skipped_witness:
  "let st = (demo_worker [] None)\<lparr>ws_world := demo_world (demo_db\<lparr>db_processed := [(50, ''workers'')]\<rparr>)\<rparr>
   in demo_handle 5 demo_message st = (Inr (), st)"
  unfolding Let_def
  by (rule processed_event_is_skipped)
    (simp_all add: processed_def demo_dispatcher_def demo_message_def demo_world_def Origin_def DefaultTopics_def)

text \<open>A failed lookup loses the message. When the query that asks whether an event was processed fails, the handler
  returns the error without having routed the message anywhere, and the consumer commits its offset all the same: nothing is
  produced, nothing is marked, no provider is called, and the message is never delivered again.\<close>

theorem failed_lookup_loses_message:
  assumes "dp_parseUUID dp (km_EventID (toMessage r)) = Some i" "turn (ws_world st) = (f, w1)" "f \<noteq> TxOk" "w_dbs w1 \<noteq> []"
    "Origin (toMessage r) = tp_Authorize (dp_topics dp) \<or> Origin (toMessage r) = tp_Webhook (dp_topics dp)"
    "DueAt (dp_topics dp) (toMessage r) = None"
  shows "handlePartition (DueAt (dp_topics dp)) (Router_Handle dp now (worker_routes dp svc decA proc decW now ctxDone)) off [(now, r, True)] pt st
    = (pt\<lparr>pt_Committed := Suc off\<rparr>, st\<lparr>ws_world := w1\<rparr>)"
proof -
  define e where "e = ErrInfra ''query''"
  have "query_at Global (AlreadyHandled (dp_group dp) i) (ws_world st) = (Inl e, w1)"
    using assms(2-4) by (simp add: query_at_def Global_def e_def)
  then have "dispatch_begin dp now (toMessage r) st = (Inl e, st\<lparr>ws_world := w1\<rparr>)" using assms(1) by (simp add: dispatch_begin_def)
  then have "Router_Handle dp now (worker_routes dp svc decA proc decW now ctxDone) (toMessage r) st = (Inl e, st\<lparr>ws_world := w1\<rparr>)"
    using assms(5) by (auto simp: Router_Handle_def worker_routes_def AuthorizeHandler_Handle_def WebhookHandler_Handle_def)
  then show ?thesis using assms(6) by (simp add: deferUntilDue_def)
qed

theorem failed_lookup_loses_message_witness:
  "let r = PublishWithHeaders [] 0 ''payment.authorize'' ''m1'' ''e1'' (AuthorizeRequested 7 ''m1'') [] in
   handlePartition (DueAt DefaultTopics) (demo_handle 5) 3 [(5, r, True)] \<lparr>pt_Committed = 3, pt_Paused = None\<rparr> (demo_worker [(TxBeginFails, id)] None)
     = (\<lparr>pt_Committed = 4, pt_Paused = None\<rparr>, demo_worker [] None)"
proof -
  let ?r = "PublishWithHeaders [] 0 ''payment.authorize'' ''m1'' ''e1'' (AuthorizeRequested 7 ''m1'') []"
  have m: "toMessage ?r = demo_message"
    by (simp add: toMessage_def PublishWithHeaders_def read_header_def header_names demo_message_def)
  have t: "turn (ws_world (demo_worker [(TxBeginFails, id)] None)) = (TxBeginFails, ws_world (demo_worker [] None))"
    by (simp add: turn_def demo_worker_def)
  have dp: "dp_topics demo_dispatcher = DefaultTopics" by (simp add: demo_dispatcher_def)
  show ?thesis unfolding Let_def
    using failed_lookup_loses_message [of demo_dispatcher ?r 50 "demo_worker [(TxBeginFails, id)] None" TxBeginFails "ws_world (demo_worker [] None)"
        5 "demo_svc demo_timeout" "\<lambda>_. None" demo_processor "\<lambda>_. None" "\<lambda>_. False" 3 "\<lparr>pt_Committed = 3, pt_Paused = None\<rparr>"] t
    by (simp add: m dp demo_message_def Origin_def DefaultTopics_def demo_dispatcher_def DueAt_def DelayFor_def RetryTiers_def demo_worker_def)
qed

text \<open>Probe slots leak. A half-open breaker counts the probe it admits; when the authorization then fails before it
  reaches the provider, the handler reports neither success nor failure and the slot stays taken. Two such failures in a
  row exhaust the configured probes, and no clock brings them back: from then on the breaker refuses every call forever,
  although the provider was never asked.\<close>

theorem probe_slots_leak:
  "let opened = openCircuit 0 (NewCircuitBreaker DefaultCircuitConfig);
       st = demo_worker [(TxOk, id), (TxBeginFails, id), (TxOk, id), (TxBeginFails, id)] (Some opened);
       st1 = snd (demo_handle 20000000000 demo_message st);
       st2 = snd (demo_handle 21000000000 demo_message st1)
   in w_calls (ws_world st2) = []
      \<and> (\<exists>b. ws_breaker st2 = Some b \<and> (\<forall>now. \<not> fst (Allow now b) \<and> snd (Allow now b) = b))"
proof -
  let ?opened = "openCircuit 0 (NewCircuitBreaker DefaultCircuitConfig)"
  let ?st = "demo_worker [(TxOk, id), (TxBeginFails, id), (TxOk, id), (TxBeginFails, id)] (Some ?opened)"
  let ?st2 = "snd (demo_handle 21000000000 demo_message (snd (demo_handle 20000000000 demo_message ?st)))"
  have b: "ws_breaker ?st2 = Some \<lparr>cb_cfg = DefaultCircuitConfig, cb_state = StateHalfOpen, cb_consecutiveFails = 0, cb_openedAt = 0,
      cb_halfOpenInFlight = 2, cb_halfOpenSuccess = 0\<rparr>" by code_simp
  have "w_calls (ws_world ?st2) = []" by code_simp
  then show ?thesis using b by (simp add: Let_def Allow_def refresh_def DefaultCircuitConfig_def)
qed

end
