(* ===== verification/SettlementClaims.thy ===== *)
theory SettlementClaims
  imports Settlement
begin

text \<open>
  What the pure part of reconciliation guarantees: parsed files are well formed and parsing never
  panics, matching loses and invents nothing, and a matched pair is classified by exactly one reason, or
  by none when its figures agree.
\<close>

section \<open>Parsing\<close>

definition row_typed :: "Row \<Rightarrow> bool" where
  "row_typed r \<longleftrightarrow>
     ro_ProviderReference r \<noteq> []
     \<and> valid_currency (m_currency (ro_Gross r))
     \<and> m_currency (ro_Fee r) = m_currency (ro_Gross r) \<and> m_currency (ro_Net r) = m_currency (ro_Gross r)
     \<and> (ro_SettlementCurrency r = [] \<and> ro_SettlementRateNano r = 0 \<and> ro_Settled r = no_money
        \<or> valid_currency (ro_SettlementCurrency r) \<and> 0 < sint (ro_SettlementRateNano r)
          \<and> m_currency (ro_Settled r) = ro_SettlementCurrency r)"

lemma parse_amount_Inr: "parse_amount cur raw = Inr m \<Longrightarrow> m_currency m = cur \<and> valid_currency cur"
  by (auto simp: parse_amount_def err_simps split: option.splits sum.splits)

lemma parse_amount_Inl: "parse_amount cur raw = Inl e \<Longrightarrow> e = ErrMalformedFile"
  by (auto simp: parse_amount_def split: option.splits sum.splits)

lemma ParseInt64_in64: "ParseInt64 s = Some k \<Longrightarrow> in64 k"
  by (auto simp: ParseInt64_def split: option.splits if_splits)

lemma sint_in64: "in64 k \<Longrightarrow> sint (word_of_int k :: int64) = k"
  by simp

definition plain_row :: "Row \<Rightarrow> bool" where
  "plain_row r \<longleftrightarrow> ro_SettlementCurrency r = [] \<and> ro_SettlementRateNano r = 0 \<and> ro_Settled r = no_money"

lemma parse_fx_Inr:
  assumes "parse_fx rec row = Inr r" "plain_row row"
  shows "r = row \<or> (\<exists>cur rate m. r = row\<lparr>ro_Settled := m, ro_SettlementCurrency := cur, ro_SettlementRateNano := rate\<rparr>
    \<and> valid_currency cur \<and> 0 < sint rate \<and> m_currency m = cur)"
proof (cases "TrimSpace (rec ! 6) \<noteq> [] \<and> TrimSpace (rec ! 7) \<noteq> [] \<and> TrimSpace (rec ! 8) \<noteq> []")
  case True
  then obtain rate m where "ParseInt64 (TrimSpace (rec ! 7)) = Some rate" "0 < rate" "parse_amount (TrimSpace (rec ! 6)) (TrimSpace (rec ! 8)) = Inr m"
    "r = row\<lparr>ro_Settled := m, ro_SettlementCurrency := TrimSpace (rec ! 6), ro_SettlementRateNano := word_of_int rate\<rparr>"
    using assms(1) by (auto simp: parse_fx_def Let_def err_simps split: option.splits if_splits)
  then show ?thesis using parse_amount_Inr ParseInt64_in64
    by (intro disjI2 exI [of _ "TrimSpace (rec ! 6)"] exI [of _ "word_of_int rate"] exI [of _ m]) auto
next
  case False
  then show ?thesis using assms(1) by (auto simp: parse_fx_def Let_def split: if_splits)
qed

lemma parse_fx_Inl: "parse_fx rec row = Inl e \<Longrightarrow> e = ErrMalformedFile"
  by (auto simp: parse_fx_def Let_def err_simps split: option.splits if_splits dest: parse_amount_Inl)

lemma parseRow_Inr:
  assumes "parseRow co rec line = Inr r"
  shows "row_typed r" "ro_LineNumber r = line"
proof -
  let ?cur = "TrimSpace (rec ! 4)"
  obtain gross fee net settledAt where p: "parse_amount ?cur (rec ! 1) = Inr gross" "parse_amount ?cur (rec ! 2) = Inr fee"
    "parse_amount ?cur (rec ! 3) = Inr net" "TrimSpace (rec ! 0) \<noteq> []"
    and f: "parse_fx rec \<lparr>ro_ID = 0, ro_FileID = 0, ro_LineNumber = line, ro_ProviderReference = TrimSpace (rec ! 0),
       ro_Gross = gross, ro_Fee = fee, ro_Net = net, ro_SettlementCurrency = [], ro_SettlementRateNano = 0,
       ro_Settled = no_money, ro_SettledAt = settledAt, ro_Raw = Join rec '',''\<rparr> = Inr r"
    using assms by (auto simp: parseRow_def Let_def err_simps split: if_splits option.splits)
  note m = parse_amount_Inr [OF p(1)] parse_amount_Inr [OF p(2)] parse_amount_Inr [OF p(3)]
  show "row_typed r" "ro_LineNumber r = line"
    using parse_fx_Inr [OF f] m p(4) by (auto simp: plain_row_def row_typed_def)
qed

lemma parseRow_Inl: "parseRow co rec line = Inl e \<Longrightarrow> length rec = simulatorColumns \<Longrightarrow> e = ErrMalformedFile"
  by (auto simp: parseRow_def Let_def err_simps split: if_splits option.splits dest: parse_amount_Inl parse_fx_Inl)

lemma parse_rows_Inr:
  assumes "parse_rows co i recs = Inr rows"
  shows "\<forall>r \<in> set rows. row_typed r \<and> int i < ro_LineNumber r \<and> ro_LineNumber r \<le> int i + int (length recs)"
    "sorted_wrt (\<lambda>r s. ro_LineNumber r < ro_LineNumber s) rows"
proof -
  have "(\<forall>r \<in> set rows. row_typed r \<and> int i < ro_LineNumber r \<and> ro_LineNumber r \<le> int i + int (length recs))
      \<and> sorted_wrt (\<lambda>r s. ro_LineNumber r < ro_LineNumber s) rows"
    using assms
  proof (induction co i recs arbitrary: rows rule: parse_rows.induct)
    case (2 co i rec recs)
    show ?case
    proof (cases "i = 0 \<and> rec \<noteq> [] \<and> EqualFold (TrimSpace (hd rec)) ''reference''")
      case True
      then show ?thesis using 2(1) [OF True, of rows] 2(3) by fastforce
    next
      case False
      then obtain r rs where "parseRow co rec (int i + 1) = Inr r" "parse_rows co (Suc i) recs = Inr rs" "rows = r # rs"
        using 2(3) by (auto simp: err_simps simp del: One_nat_def split: if_splits)
      then show ?thesis using 2(2) [OF False, of rs] parseRow_Inr [of co rec "int i + 1" r] by fastforce
    qed
  qed simp
  then show "\<forall>r \<in> set rows. row_typed r \<and> int i < ro_LineNumber r \<and> ro_LineNumber r \<le> int i + int (length recs)"
    "sorted_wrt (\<lambda>r s. ro_LineNumber r < ro_LineNumber s) rows" by simp_all
qed

lemma parse_rows_Inl:
  "parse_rows co i recs = Inl e \<Longrightarrow> \<forall>rec \<in> set recs. length rec = simulatorColumns \<Longrightarrow> e = ErrMalformedFile"
  by (induction co i recs rule: parse_rows.induct) (auto simp: err_simps split: if_splits dest: parseRow_Inl)

lemma windowFor_covers:
  assumes "windowFor now rows = (start, end')"
  shows "start < end'" "r \<in> set rows \<Longrightarrow> start \<le> ro_SettledAt r \<and> ro_SettledAt r < end'"
proof -
  define step where "step = (\<lambda>(row :: Row) (s, e). (if ro_SettledAt row < s then ro_SettledAt row else s,
      if ro_SettledAt row > e then ro_SettledAt row else (e :: time)))"
  have inv: "fold step rs (s, e) = (s', e') \<Longrightarrow> s' \<le> s \<and> e \<le> e' \<and> (\<forall>r \<in> set rs. s' \<le> ro_SettledAt r \<and> ro_SettledAt r \<le> e')" for rs s e s' e'
  proof (induction rs arbitrary: s e)
    case (Cons r rs)
    obtain s1 e1 where 1: "step r (s, e) = (s1, e1)" "s1 \<le> s" "e \<le> e1" "s1 \<le> ro_SettledAt r" "ro_SettledAt r \<le> e1" by (auto simp: step_def)
    then show ?case using Cons.IH [of s1 e1] Cons.prems by auto
  qed simp
  have *: "start < end' \<and> (\<forall>r \<in> set rows. start \<le> ro_SettledAt r \<and> ro_SettledAt r < end')"
  proof (cases rows)
    case Nil
    then show ?thesis using assms by (auto simp: windowFor_def second_def)
  next
    case (Cons r0 rs)
    obtain s e where f: "fold step rs (ro_SettledAt r0, ro_SettledAt r0) = (s, e)" by fastforce
    then have "start = s" "end' = e + second" using assms Cons by (auto simp: windowFor_def step_def)
    then show ?thesis using inv [OF f] Cons by (fastforce simp: second_def)
  qed
  then show "start < end'" "r \<in> set rows \<Longrightarrow> start \<le> ro_SettledAt r \<and> ro_SettledAt r < end'" by auto
qed

section \<open>Matching\<close>

fun firsts :: "string list \<Rightarrow> Row list \<Rightarrow> Row list" where
  "firsts seen [] = []"
| "firsts seen (r # rs) =
     (if ro_ProviderReference r \<in> set seen then firsts seen rs else r # firsts (ro_ProviderReference r # seen) rs)"

fun repeats :: "string list \<Rightarrow> Row list \<Rightarrow> Row list" where
  "repeats seen [] = []"
| "repeats seen (r # rs) =
     (if ro_ProviderReference r \<in> set seen then r # repeats seen rs else repeats (ro_ProviderReference r # seen) rs)"

definition has_record :: "(string \<rightharpoonup> LedgerRecord) \<Rightarrow> Row \<Rightarrow> bool" where
  "has_record byRef r \<longleftrightarrow> byRef (ro_ProviderReference r) \<noteq> None"

definition pair_up :: "(string \<rightharpoonup> LedgerRecord) \<Rightarrow> Row list \<Rightarrow> (Row \<times> LedgerRecord) list" where
  "pair_up byRef rs = map (\<lambda>r. (r, the (byRef (ro_ProviderReference r)))) (filter (has_record byRef) rs)"

lemma match_loop_eq:
  "match_loop byRef rows seen mrefs res = (mrefs', res') \<Longrightarrow>
     set mrefs' = set mrefs \<union> ro_ProviderReference ` set (filter (has_record byRef) (firsts seen rows))
     \<and> res' = res\<lparr>mr_Matched := mr_Matched res @ pair_up byRef (firsts seen rows),
         mr_UnmatchedRows := mr_UnmatchedRows res @ filter (Not \<circ> has_record byRef) (firsts seen rows),
         mr_DuplicateRows := mr_DuplicateRows res @ repeats seen rows\<rparr>"
proof (induction byRef rows seen mrefs res rule: match_loop.induct)
  case (2 byRef row rows seen mrefs res)
  consider "ro_ProviderReference row \<in> set seen" | "ro_ProviderReference row \<notin> set seen" "byRef (ro_ProviderReference row) = None"
    | rcd where "ro_ProviderReference row \<notin> set seen" "byRef (ro_ProviderReference row) = Some rcd" by fastforce
  then show ?case
    using 2 by cases (auto simp: Let_def has_record_def pair_up_def)
qed (simp add: pair_up_def)

lemma firsts_repeats: "mset rows = mset (firsts seen rows) + mset (repeats seen rows)"
  by (induction seen rows rule: firsts.induct) auto

lemma firsts_refs:
  "distinct (map ro_ProviderReference (firsts seen rows))
   \<and> set (map ro_ProviderReference (firsts seen rows)) = set (map ro_ProviderReference rows) - set seen"
  by (induction seen rows rule: firsts.induct) auto

lemma Match_eq:
  "Match rows records =
     \<lparr>mr_Matched = pair_up (by_reference records) (firsts [] rows),
      mr_UnmatchedRows = filter (Not \<circ> has_record (by_reference records)) (firsts [] rows),
      mr_UnmatchedRecords = filter (\<lambda>r. lr_ProviderReference r = []
         \<or> lr_ProviderReference r \<notin> ro_ProviderReference ` set (filter (has_record (by_reference records)) (firsts [] rows))) records,
      mr_DuplicateRows = repeats [] rows\<rparr>"
proof -
  let ?r0 = "\<lparr>mr_Matched = [], mr_UnmatchedRows = [], mr_UnmatchedRecords = [], mr_DuplicateRows = []\<rparr>"
  obtain mrefs res where l: "match_loop (by_reference records) rows [] [] ?r0 = (mrefs, res)" by fastforce
  show ?thesis using match_loop_eq [OF l] by (auto simp: Match_def l)
qed

lemma by_reference_eq:
  "by_reference records ref = (if ref = [] then None else find (\<lambda>r. lr_ProviderReference r = ref) (rev records))"
proof (induction records rule: rev_induct)
  case (snoc r rs)
  then show ?case by (auto simp: by_reference_def)
qed (simp add: by_reference_def)

lemma by_reference_Some:
  "by_reference records ref = Some r \<Longrightarrow> r \<in> set records \<and> lr_ProviderReference r = ref \<and> ref \<noteq> []"
  by (auto simp: by_reference_eq find_Some_iff split: if_splits) (metis length_rev nth_mem set_rev)

lemma by_reference_None: "by_reference records ref = None \<longleftrightarrow> ref = [] \<or> (\<forall>r \<in> set records. lr_ProviderReference r \<noteq> ref)"
  by (auto simp: by_reference_eq find_None_iff)

definition distinct_refs :: "LedgerRecord list \<Rightarrow> bool" where
  "distinct_refs records \<longleftrightarrow> distinct (filter (\<lambda>s. s \<noteq> []) (map lr_ProviderReference records))"

lemma distinct_refs_unique:
  assumes "distinct_refs records" "r \<in> set records" "s \<in> set records" "lr_ProviderReference r = lr_ProviderReference s" "lr_ProviderReference r \<noteq> []"
  shows "r = s"
  using assms unfolding distinct_refs_def
proof (induction records)
  case (Cons a as)
  have tl: "distinct (filter (\<lambda>s. s \<noteq> []) (map lr_ProviderReference as))" using Cons.prems(1) by (auto split: if_splits)
  have "lr_ProviderReference a \<noteq> [] \<Longrightarrow> x \<in> set as \<Longrightarrow> lr_ProviderReference x \<noteq> lr_ProviderReference a" for x
    using Cons.prems(1) by (auto simp: image_iff)
  then show ?case using Cons.IH [OF tl] Cons.prems(2-5) by (metis set_ConsD)
qed simp

lemma filter_unique: "distinct xs \<Longrightarrow> x \<in> set xs \<Longrightarrow> (\<forall>y \<in> set xs. P y \<longleftrightarrow> y = x) \<Longrightarrow> filter P xs = [x]"
proof (induction xs)
  case (Cons a xs)
  show ?case
  proof (cases "a = x")
    case True
    then have "filter P xs = []" using Cons.prems by (auto simp: filter_empty_conv)
    then show ?thesis using True Cons.prems by simp
  next
    case False
    then show ?thesis using Cons by auto
  qed
qed simp

text \<open>With distinct references, the records that got a row are exactly those in the pairs.\<close>

lemma matched_records:
  assumes "distinct_refs records"
  shows "mset (map snd (pair_up (by_reference records) (firsts [] rows)))
    = mset (filter (\<lambda>r. lr_ProviderReference r \<noteq> [] \<and> lr_ProviderReference r \<in> set (map ro_ProviderReference rows)) records)"
proof -
  let ?by = "by_reference records" and ?refs = "set (map ro_ProviderReference rows)"
  let ?hit = "\<lambda>r. lr_ProviderReference r \<noteq> [] \<and> lr_ProviderReference r \<in> ?refs"
  let ?f = "filter (has_record ?by) (firsts [] rows)"
  let ?ps = "map snd (pair_up ?by (firsts [] rows))"
  have ps: "?ps = map (\<lambda>r. the (?by (ro_ProviderReference r))) ?f" by (simp add: pair_up_def)
  have inj: "lr_ProviderReference (the (?by (ro_ProviderReference r))) = ro_ProviderReference r" if "r \<in> set ?f" for r
    using that by_reference_Some by (fastforce simp: has_record_def)
  have "distinct (map ro_ProviderReference ?f)" using firsts_refs [of "[]" rows] distinct_map_filter by blast
  moreover have "map lr_ProviderReference ?ps = map ro_ProviderReference ?f" unfolding ps using inj by simp
  ultimately have d1: "distinct (map lr_ProviderReference ?ps)" by simp
  have d2: "distinct (map lr_ProviderReference (filter ?hit records))"
  proof -
    have "map lr_ProviderReference (filter ?hit records)
        = filter (\<lambda>s. s \<in> ?refs) (filter (\<lambda>s. s \<noteq> []) (map lr_ProviderReference records))"
      by (simp only: filter_map filter_filter comp_def)
    then show ?thesis using assms unfolding distinct_refs_def by (metis distinct_filter)
  qed
  have "x \<in> set ?ps \<longleftrightarrow> x \<in> set (filter ?hit records)" for x
  proof
    assume "x \<in> set ?ps"
    then obtain r where r: "r \<in> set (firsts [] rows)" "?by (ro_ProviderReference r) = Some x" by (auto simp: ps has_record_def)
    moreover have "ro_ProviderReference r \<in> ?refs" using firsts_refs [of "[]" rows] r(1) by auto
    ultimately show "x \<in> set (filter ?hit records)" using by_reference_Some [OF r(2)] by auto
  next
    assume x: "x \<in> set (filter ?hit records)"
    then have "lr_ProviderReference x \<in> set (map ro_ProviderReference (firsts [] rows))" using firsts_refs [of "[]" rows] by auto
    then obtain r where r: "r \<in> set (firsts [] rows)" "ro_ProviderReference r = lr_ProviderReference x" by auto
    then obtain y where y: "?by (ro_ProviderReference r) = Some y" using x by_reference_None [of records "ro_ProviderReference r"] by fastforce
    then have "y = x" using by_reference_Some [OF y] distinct_refs_unique [OF assms] x r(2) by auto
    then show "x \<in> set ?ps" using r(1) y unfolding ps by (force simp: has_record_def)
  qed
  then have "set ?ps = set (filter ?hit records)" by blast
  moreover have "distinct ?ps" "distinct (filter ?hit records)"
    using distinct_map [THEN iffD1, OF d1] distinct_map [THEN iffD1, OF d2] by blast+
  ultimately show ?thesis using set_eq_iff_mset_eq_distinct by blast
qed

text \<open>C23: matching loses nothing and invents nothing, provided the ledger records carry different references (a record without one
  apart). Every settlement row is matched, unmatched or a duplicate, and every
  ledger record is matched or unmatched, with nothing counted twice; a pair shares its nonempty reference, and no
  reference is matched twice; a row is called unmatched only when no record has its reference, a record only when no row
  has it (or when it has none); a duplicate repeats the reference of a row that was matched or unmatched.\<close>

theorem Match_partitions:
  assumes "distinct_refs records"
  shows "let m = Match rows records in
    mset rows = mset (map fst (mr_Matched m)) + mset (mr_UnmatchedRows m) + mset (mr_DuplicateRows m)
    \<and> mset records = mset (map snd (mr_Matched m)) + mset (mr_UnmatchedRecords m)
    \<and> (\<forall>(row, rcd) \<in> set (mr_Matched m). ro_ProviderReference row = lr_ProviderReference rcd \<and> lr_ProviderReference rcd \<noteq> [])
    \<and> distinct (map ro_ProviderReference (map fst (mr_Matched m) @ mr_UnmatchedRows m))
    \<and> (\<forall>row \<in> set (mr_UnmatchedRows m). ro_ProviderReference row = [] \<or> ro_ProviderReference row \<notin> lr_ProviderReference ` set records)
    \<and> (\<forall>rcd \<in> set (mr_UnmatchedRecords m). lr_ProviderReference rcd = [] \<or> lr_ProviderReference rcd \<notin> ro_ProviderReference ` set rows)
    \<and> (\<forall>row \<in> set (mr_DuplicateRows m). ro_ProviderReference row \<in> ro_ProviderReference ` set (map fst (mr_Matched m) @ mr_UnmatchedRows m))"
proof -
  let ?by = "by_reference records" and ?f = "firsts [] rows"
  let ?hit = "\<lambda>r. lr_ProviderReference r \<noteq> [] \<and> lr_ProviderReference r \<in> set (map ro_ProviderReference rows)"
  have fst_eq: "map fst (pair_up ?by ?f) = filter (has_record ?by) ?f" by (simp add: pair_up_def comp_def)
  have refs: "ro_ProviderReference ` set ?f = ro_ProviderReference ` set rows" using firsts_refs [of "[]" rows] by simp
  have unm: "(lr_ProviderReference r = [] \<or> lr_ProviderReference r \<notin> ro_ProviderReference ` set (filter (has_record ?by) ?f)) \<longleftrightarrow> \<not> ?hit r"
    if "r \<in> set records" for r
  proof -
    have "?by (lr_ProviderReference r) \<noteq> None" if "lr_ProviderReference r \<noteq> []" using that \<open>r \<in> set records\<close> by (auto simp: by_reference_None)
    then have "lr_ProviderReference r \<noteq> [] \<Longrightarrow> lr_ProviderReference r \<in> ro_ProviderReference ` set (filter (has_record ?by) ?f)
        \<longleftrightarrow> lr_ProviderReference r \<in> ro_ProviderReference ` set ?f"
      unfolding image_iff set_filter has_record_def by (metis (mono_tags, lifting) mem_Collect_eq)
    then show ?thesis using refs by auto
  qed
  have ur: "mr_UnmatchedRecords (Match rows records) = filter (\<lambda>r. \<not> ?hit r) records" using unm by (simp only: Match_eq MatchResult.simps cong: filter_cong)
  have "mset records = mset (filter ?hit records) + mset (filter (\<lambda>r. \<not> ?hit r) records)"
    by (simp only: mset_filter multiset_partition [symmetric])
  then have "mset records = mset (map snd (mr_Matched (Match rows records))) + mset (mr_UnmatchedRecords (Match rows records))"
    using matched_records [OF assms, of rows] by (simp only: ur) (simp add: Match_eq)
  moreover have "mset rows = mset (filter (has_record ?by) ?f) + mset (filter (Not \<circ> has_record ?by) ?f) + mset (repeats [] rows)"
    using firsts_repeats [of rows "[]"] multiset_partition [of "mset ?f" "has_record ?by"] by (simp add: comp_def)
  moreover have "distinct (map ro_ProviderReference (filter (has_record ?by) ?f @ filter (Not \<circ> has_record ?by) ?f))"
  proof -
    have "distinct (map ro_ProviderReference ?f)" using firsts_refs [of "[]" rows] by blast
    moreover have "mset (map ro_ProviderReference (filter (has_record ?by) ?f @ filter (Not \<circ> has_record ?by) ?f)) = mset (map ro_ProviderReference ?f)"
      using multiset_partition [of "mset ?f" "has_record ?by"] by (simp add: comp_def image_mset_union [symmetric] del: image_mset_union)
    ultimately show ?thesis by (metis mset_eq_imp_distinct_iff)
  qed
  moreover have "\<forall>row \<in> set (repeats [] rows). ro_ProviderReference row \<in> ro_ProviderReference ` set ?f"
    unfolding refs using firsts_repeats [of rows "[]"] by (metis imageI set_mset_mset set_mset_union UnCI)
  moreover have "set (filter (has_record ?by) ?f @ filter (Not \<circ> has_record ?by) ?f) = set ?f" by auto
  moreover have "\<forall>(row, rcd) \<in> set (pair_up ?by ?f). ro_ProviderReference row = lr_ProviderReference rcd \<and> lr_ProviderReference rcd \<noteq> []"
    using by_reference_Some by (fastforce simp: pair_up_def has_record_def)
  moreover have "\<forall>row \<in> set (filter (Not \<circ> has_record ?by) ?f). ro_ProviderReference row = [] \<or> ro_ProviderReference row \<notin> lr_ProviderReference ` set records"
    by (auto simp: has_record_def by_reference_None)
  moreover have "\<forall>rcd \<in> set (mr_UnmatchedRecords (Match rows records)). lr_ProviderReference rcd = [] \<or> lr_ProviderReference rcd \<notin> ro_ProviderReference ` set rows"
    by (auto simp: ur)
  ultimately show ?thesis unfolding Let_def
    by (simp only: Match_eq MatchResult.simps fst_eq)
qed

definition demo_codec :: codec where
  "demo_codec = \<lparr>co_parseTime = (\<lambda>s. map_option (\<lambda>k. k * second) (atoi s)), co_formatTime = (\<lambda>t. show_int (t div second)),
     co_sha256 = id, co_uuidString = show_nat\<rparr>"

definition demo_record :: "uuid \<Rightarrow> string \<Rightarrow> LedgerRecord" where
  "demo_record i ref = \<lparr>lr_TransactionID = i, lr_MerchantID = ''m1'', lr_ProviderReference = ref,
     lr_Captured = mk_money 1000 ''EUR'', lr_Fee = mk_money 59 ''EUR'', lr_CapturedAt = 100 * second\<rparr>"

definition demo_row :: "int \<Rightarrow> string \<Rightarrow> Row" where
  "demo_row line ref = \<lparr>ro_ID = 0, ro_FileID = 0, ro_LineNumber = line, ro_ProviderReference = ref,
     ro_Gross = mk_money 1000 ''EUR'', ro_Fee = mk_money 59 ''EUR'', ro_Net = mk_money 941 ''EUR'',
     ro_SettlementCurrency = [], ro_SettlementRateNano = 0, ro_Settled = no_money, ro_SettledAt = 100 * second, ro_Raw = []\<rparr>"

theorem Match_partitions_witness:
  "let rows = [demo_row 2 ''ch_1'', demo_row 3 ''ch_9'', demo_row 4 ''ch_1'']; records = [demo_record 7 ''ch_1'', demo_record 8 ''ch_2''];
       m = Match rows records
   in mr_Matched m = [(demo_row 2 ''ch_1'', demo_record 7 ''ch_1'')] \<and> mr_UnmatchedRecords m = [demo_record 8 ''ch_2'']
      \<and> mset rows = mset (map fst (mr_Matched m)) + mset (mr_UnmatchedRows m) + mset (mr_DuplicateRows m)"
proof -
  let ?rows = "[demo_row 2 ''ch_1'', demo_row 3 ''ch_9'', demo_row 4 ''ch_1'']"
  let ?records = "[demo_record 7 ''ch_1'', demo_record 8 ''ch_2'']"
  have "distinct_refs ?records" by (simp add: distinct_refs_def demo_record_def)
  note part = Match_partitions [OF this, of ?rows]
  have "Match ?rows ?records = \<lparr>mr_Matched = [(demo_row 2 ''ch_1'', demo_record 7 ''ch_1'')], mr_UnmatchedRows = [demo_row 3 ''ch_9''],
      mr_UnmatchedRecords = [demo_record 8 ''ch_2''], mr_DuplicateRows = [demo_row 4 ''ch_1'']\<rparr>"
    by (simp add: Match_def by_reference_def demo_row_def demo_record_def Let_def)
  then show ?thesis using part unfolding Let_def by simp
qed

text \<open>C28: a settlement file that parses is well formed, and parsing never panics. Every row has a reference, three amounts in
  one valid currency and either no conversion or a complete one (valid currency, positive rate, amount in that currency);
  lines are numbered upwards within the file, the row count is right, the window is not empty and every row settles inside
  it. On any input at all the only failure is \<open>ErrMalformedFile\<close>.\<close>

theorem Parse_well_typed:
  "case Parse co now name input of
     Inl e \<Rightarrow> e = ErrMalformedFile
   | Inr file \<Rightarrow> list_all row_typed (f_Rows file) \<and> f_Provider file = name \<and> f_ContentSHA256 file = co_sha256 co input
       \<and> f_RowCount file = int (length (f_Rows file)) \<and> f_PeriodStart file < f_PeriodEnd file
       \<and> list_all (\<lambda>r. Covers file (ro_SettledAt r)) (f_Rows file)
       \<and> sorted_wrt (<) (map ro_LineNumber (f_Rows file))"
proof (cases "Parse co now name input")
  case (Inl e)
  then show ?thesis
    using ReadAll_fields [of simulatorColumns input] parse_rows_Inl [of co 0]
    by (auto simp: Parse_def err_simps split: option.splits if_splits prod.splits)
next
  case (Inr f)
  then obtain recs rows where r0: "ReadAll simulatorColumns input = Some recs" "parse_rows co 0 recs = Inr rows"
    by (auto simp: Parse_def ebind_Inr_iff split: option.splits if_splits)
  obtain start end' where "windowFor now rows = (start, end')" by fastforce
  then have r: "ReadAll simulatorColumns input = Some recs" "parse_rows co 0 recs = Inr rows" "f_Rows f = rows"
    "windowFor now rows = (f_PeriodStart f, f_PeriodEnd f)" "f_RowCount f = int (length rows)" "f_Provider f = name"
    "f_ContentSHA256 f = co_sha256 co input"
    using Inr r0 by (auto simp: Parse_def split: if_splits)
  note w = windowFor_covers [OF r(4)] and p = parse_rows_Inr [OF r(2)]
  have "list_all (\<lambda>r. Covers f (ro_SettledAt r)) rows" using w(2) by (fastforce simp: list_all_iff Covers_def)
  then show ?thesis using Inr w(1) p r(3,5-7) by (simp add: list_all_iff sorted_wrt_map)
qed

section \<open>Classification\<close>

lemma sint_absMinor: "minor m \<noteq> - (2 ^ 63) \<Longrightarrow> sint (absMinor m) = \<bar>minor m\<bar>"
proof -
  assume a: "minor m \<noteq> - (2 ^ 63)"
  then have "in64 (- minor m)" using in64_sint [of "m_amount m"] by (auto simp: in64_def)
  moreover have "- m_amount m = word_of_int (- minor m)" by simp
  ultimately show ?thesis by (auto simp: absMinor_def)
qed

lemma MulRatio_range:
  assumes "MulRatio m num den = Inr r"
  shows "is_half_even (minor m * sint num) (sint den) (minor r)" "\<bar>minor r\<bar> < 2 ^ 63"
proof -
  obtain w where w: "DivRoundHalfEven (minor m * sint num) (sint den) = Inr w" "r = mk_money w (m_currency m)"
    using assms by (auto simp: MulRatio_def err_simps split: if_splits)
  note d = DivRoundHalfEven_Inr [OF w(1)]
  show "is_half_even (minor m * sint num) (sint den) (minor r)" using d w(2) by simp
  have "\<bar>sint w\<bar> < 2 ^ 63" using w(1) unfolding DivRoundHalfEven_eq [OF d] by (rule contrapos_pp) simp
  then show "\<bar>minor r\<bar> < 2 ^ 63" using w(2) by simp
qed

lemma Money_Sub_zero: "Money_Sub m other = Inr d \<Longrightarrow> IsZero d \<longleftrightarrow> minor m = minor other"
  by (auto simp: err_simps IsZero_def)

lemma Money_Sub_minor: "Money_Sub m other = Inr d \<Longrightarrow> minor d = minor m - minor other"
  by (auto simp: err_simps)

lemma pair_break_simps [simp]:
  "bk_Category (pair_break c row rcd e a d t) = c" "bk_MatchKey (pair_break c row rcd e a d t) = ro_ProviderReference row"
  "bk_TransactionID (pair_break c row rcd e a d t) = Some (lr_TransactionID rcd)" "bk_Delta (pair_break c row rcd e a d t) = d"
  "bk_Expected (pair_break c row rcd e a d t) = e" "bk_Actual (pair_break c row rcd e a d t) = a"
  by (simp_all add: pair_break_def)

definition plain_reason :: "Row \<Rightarrow> LedgerRecord \<Rightarrow> Category option" where
  "plain_reason row rcd =
     (if minor (ro_Gross row) \<noteq> minor (lr_Captured rcd) then Some AmountMismatch
      else if minor (ro_Net row) \<noteq> minor (lr_Captured rcd) - minor (lr_Fee rcd) then Some FeeMismatch
      else None)"

definition converted_reason :: "Tolerances \<Rightarrow> Row \<Rightarrow> int \<Rightarrow> int \<Rightarrow> int \<Rightarrow> Category option" where
  "converted_reason tol row implied tolerance locked =
     (if \<bar>minor (ro_Settled row) - implied\<bar> > \<bar>tolerance\<bar> then Some AmountMismatch
      else if minor (ro_Settled row) \<noteq> locked then Some FXDrift
      else None)"

lemma classifyConverted_reason:
  assumes "classifyConverted tol row rcd lock = Inr b" "0 \<le> minor (ro_Settled row)"
  obtains implied tolerance locked where
    "is_half_even (minor (lr_Captured rcd) * sint (ro_SettlementRateNano row) * 10 ^ Exponent (ro_SettlementCurrency row))
       (1000000000 * 10 ^ Exponent (m_currency (lr_Captured rcd))) implied"
    "is_half_even (implied * sint (to_FXDriftBps tol)) 10000 tolerance"
    "is_half_even (minor (lr_Captured rcd) * sint (r_Nano (l_Rate lock)) * 10 ^ Exponent (r_Quote (l_Rate lock)))
       (1000000000 * 10 ^ Exponent (r_Base (l_Rate lock))) locked"
    "map_option bk_Category b = converted_reason tol row implied tolerance locked"
    "\<forall>x. b = Some x \<longrightarrow> (\<exists>d. bk_Delta x = Some d \<and> bk_MatchKey x = ro_ProviderReference row \<and> bk_TransactionID x = Some (lr_TransactionID rcd)
       \<and> minor d = minor (ro_Settled row) - (if bk_Category x = FXDrift then locked else implied))"
proof -
  let ?cap = "lr_Captured rcd" and ?st = "ro_Settled row"
  obtain rate implied residual tolerance where
    s: "NewRate (m_currency ?cap) (ro_SettlementCurrency row) (ro_SettlementRateNano row) ''settlement'' (ro_SettledAt row) = Inr rate"
      "Rate_Convert rate ?cap = Inr implied" "Money_Sub ?st implied = Inr residual" "MulRatio implied (to_FXDriftBps tol) 10000 = Inr tolerance"
    and rest: "(if sint (absMinor residual) > sint (absMinor tolerance)
     then Inr (Some (pair_break AmountMismatch row rcd (Some implied) (Some ?st) (Some residual)
       (''settled '' @ Money_String ?st @ '', but rate '' @ show_int (sint (ro_SettlementRateNano row))
         @ '' nano on '' @ Money_String ?cap @ '' implies '' @ Money_String implied)))
     else ebind (Rate_Convert (l_Rate lock) ?cap) (\<lambda>atLocked.
       ebind (Money_Sub ?st atLocked) (\<lambda>drift.
       if IsZero drift then Inr None
       else Inr (Some (pair_break FXDrift row rcd (Some atLocked) (Some ?st) (Some drift)
         (''settled at '' @ show_int (sint (ro_SettlementRateNano row)) @ '' nano against locked ''
           @ show_int (sint (r_Nano (l_Rate lock))) @ '' nano'')))))) = Inr b"
    using assms(1) unfolding classifyConverted_def by (auto simp: ebind_Inr_iff)
  have rate: "r_Base rate = m_currency ?cap" "r_Quote rate = ro_SettlementCurrency row" "r_Nano rate = ro_SettlementRateNano row"
    using s(1) by (auto simp: err_simps)
  note i = Rate_Convert_Inr [OF s(2), unfolded rate] and t = MulRatio_range [OF s(4)] and r = Money_Sub_minor [OF s(3)]
  have "minor residual \<noteq> - (2 ^ 63)" using r assms(2) in64_sint [of "m_amount implied"] by (auto simp: in64_def)
  then have cmp: "sint (absMinor residual) > sint (absMinor tolerance) \<longleftrightarrow> \<bar>minor ?st - minor implied\<bar> > \<bar>minor tolerance\<bar>"
    using t(2) r by (subst (1 2) sint_absMinor) auto
  have half: "is_half_even (minor implied * sint (to_FXDriftBps tol)) 10000 (minor tolerance)" using t(1) by simp
  show ?thesis
  proof (cases "\<bar>minor ?st - minor implied\<bar> > \<bar>minor tolerance\<bar>")
    case True
    obtain locked where l: "is_half_even (minor ?cap * sint (r_Nano (l_Rate lock)) * 10 ^ Exponent (r_Quote (l_Rate lock)))
       (1000000000 * 10 ^ Exponent (r_Base (l_Rate lock))) locked"
      using is_half_even_exists [of "1000000000 * 10 ^ Exponent (r_Base (l_Rate lock))"] by auto
    show ?thesis
      using that [OF i(5) half l] rest cmp True r by (auto simp: converted_reason_def)
  next
    case False
    then obtain atLocked drift where l: "Rate_Convert (l_Rate lock) ?cap = Inr atLocked" "Money_Sub ?st atLocked = Inr drift"
      and b: "map_option bk_Category b = (if IsZero drift then None else Some FXDrift)"
        "\<forall>x. b = Some x \<longrightarrow> bk_Delta x = Some drift \<and> bk_MatchKey x = ro_ProviderReference row \<and> bk_TransactionID x = Some (lr_TransactionID rcd)"
      using rest cmp by (auto simp: ebind_Inr_iff split: if_splits)
    show ?thesis
      using that [OF i(5) half Rate_Convert_Inr(5) [OF l(1)]] False b Money_Sub_zero [OF l(2)] Money_Sub_minor [OF l(2)]
      by (auto simp: converted_reason_def split: if_splits)
  qed
qed

lemma ClassifyPair_plain:
  assumes "m_currency (ro_Gross row) = m_currency (lr_Captured rcd)" "\<not> (HasFX row \<and> lock \<noteq> None)" "ClassifyPair tol row rcd lock = Inr b"
  shows "map_option bk_Category b = plain_reason row rcd"
    "\<forall>x. b = Some x \<longrightarrow> (\<exists>d. bk_Delta x = Some d \<and> bk_MatchKey x = ro_ProviderReference row \<and> bk_TransactionID x = Some (lr_TransactionID rcd)
       \<and> minor d = (if bk_Category x = FeeMismatch then minor (ro_Net row) - (minor (lr_Captured rcd) - minor (lr_Fee rcd))
           else minor (ro_Gross row) - minor (lr_Captured rcd)))"
proof -
  obtain gd where g: "Money_Sub (ro_Gross row) (lr_Captured rcd) = Inr gd"
    using assms by (auto simp: ClassifyPair_def ebind_Inr_iff)
  note gz = Money_Sub_zero [OF g] and gm = Money_Sub_minor [OF g]
  have *: "map_option bk_Category b = plain_reason row rcd \<and> (\<forall>x. b = Some x \<longrightarrow> (\<exists>d. bk_Delta x = Some d
      \<and> bk_MatchKey x = ro_ProviderReference row \<and> bk_TransactionID x = Some (lr_TransactionID rcd)
      \<and> minor d = (if bk_Category x = FeeMismatch then minor (ro_Net row) - (minor (lr_Captured rcd) - minor (lr_Fee rcd))
           else minor (ro_Gross row) - minor (lr_Captured rcd))))"
  proof (cases "IsZero gd")
    case True
    then obtain en nd where n: "Money_Sub (lr_Captured rcd) (lr_Fee rcd) = Inr en" "Money_Sub (ro_Net row) en = Inr nd"
      using assms g by (auto simp: ClassifyPair_def ebind_Inr_iff LedgerRecord_Net_def split: if_splits)
    show ?thesis
      using assms g True n gz Money_Sub_zero [OF n(2)] Money_Sub_minor [OF n(1)] Money_Sub_minor [OF n(2)]
      by (auto simp: ClassifyPair_def LedgerRecord_Net_def plain_reason_def split: if_splits)
  next
    case False
    then show ?thesis using assms g gz gm by (auto simp: ClassifyPair_def plain_reason_def split: if_splits)
  qed
  then show "map_option bk_Category b = plain_reason row rcd" by blast
  show "\<forall>x. b = Some x \<longrightarrow> (\<exists>d. bk_Delta x = Some d \<and> bk_MatchKey x = ro_ProviderReference row \<and> bk_TransactionID x = Some (lr_TransactionID rcd)
       \<and> minor d = (if bk_Category x = FeeMismatch then minor (ro_Net row) - (minor (lr_Captured rcd) - minor (lr_Fee rcd))
           else minor (ro_Gross row) - minor (lr_Captured rcd)))" using * by blast
qed

text \<open>C24: a matched pair whose settled amount is not negative is classified for exactly one reason, the first that applies, and not at all when its figures agree.
  In different currencies it is a currency mismatch. A payment that was not converted, or has no lock, is an amount
  mismatch when the gross differs from what was captured, else a fee mismatch when the net differs from captured less fee.
  A converted payment is an amount mismatch when what was settled is further from the provider's own rate than the
  tolerance (as the comment on \<open>classifyConverted\<close> has it; the comment on the field \<open>FXDriftBps\<close> measures the tolerance from the
  locked rate instead), else drift when it differs from the locked rate; the two conversions and the tolerance are exact fractions
  rounded half to even. Apart from a currency mismatch the break carries the exact difference.\<close>

theorem ClassifyPair_decides:
  assumes "ClassifyPair tol row rcd lock = Inr b" "0 \<le> minor (ro_Settled row)"
  shows "if m_currency (ro_Gross row) \<noteq> m_currency (lr_Captured rcd) then map_option bk_Category b = Some CurrencyMismatch
    else if HasFX row \<and> lock \<noteq> None then
      (\<exists>implied tolerance locked.
         is_half_even (minor (lr_Captured rcd) * sint (ro_SettlementRateNano row) * 10 ^ Exponent (ro_SettlementCurrency row))
           (1000000000 * 10 ^ Exponent (m_currency (lr_Captured rcd))) implied
       \<and> is_half_even (implied * sint (to_FXDriftBps tol)) 10000 tolerance
       \<and> is_half_even (minor (lr_Captured rcd) * sint (r_Nano (l_Rate (the lock))) * 10 ^ Exponent (r_Quote (l_Rate (the lock))))
           (1000000000 * 10 ^ Exponent (r_Base (l_Rate (the lock)))) locked
       \<and> map_option bk_Category b = converted_reason tol row implied tolerance locked
       \<and> (\<forall>x. b = Some x \<longrightarrow> (\<exists>d. bk_Delta x = Some d
            \<and> minor d = minor (ro_Settled row) - (if bk_Category x = FXDrift then locked else implied))))
    else map_option bk_Category b = plain_reason row rcd
       \<and> (\<forall>x. b = Some x \<longrightarrow> (\<exists>d. bk_Delta x = Some d
            \<and> minor d = (if bk_Category x = FeeMismatch then minor (ro_Net row) - (minor (lr_Captured rcd) - minor (lr_Fee rcd))
                else minor (ro_Gross row) - minor (lr_Captured rcd))))"
proof -
  consider "m_currency (ro_Gross row) \<noteq> m_currency (lr_Captured rcd)"
    | "m_currency (ro_Gross row) = m_currency (lr_Captured rcd)" "HasFX row \<and> lock \<noteq> None"
    | "m_currency (ro_Gross row) = m_currency (lr_Captured rcd)" "\<not> (HasFX row \<and> lock \<noteq> None)" by blast
  then show ?thesis
  proof cases
    case 1
    then show ?thesis using assms(1) by (auto simp: ClassifyPair_def)
  next
    case 2
    then have "classifyConverted tol row rcd (the lock) = Inr b" using assms(1) by (simp add: ClassifyPair_def)
    from classifyConverted_reason [OF this assms(2)] obtain implied tolerance locked where
      "is_half_even (minor (lr_Captured rcd) * sint (ro_SettlementRateNano row) * 10 ^ Exponent (ro_SettlementCurrency row))
         (1000000000 * 10 ^ Exponent (m_currency (lr_Captured rcd))) implied"
      "is_half_even (implied * sint (to_FXDriftBps tol)) 10000 tolerance"
      "is_half_even (minor (lr_Captured rcd) * sint (r_Nano (l_Rate (the lock))) * 10 ^ Exponent (r_Quote (l_Rate (the lock))))
         (1000000000 * 10 ^ Exponent (r_Base (l_Rate (the lock)))) locked"
      "map_option bk_Category b = converted_reason tol row implied tolerance locked"
      "\<forall>x. b = Some x \<longrightarrow> (\<exists>d. bk_Delta x = Some d
         \<and> minor d = minor (ro_Settled row) - (if bk_Category x = FXDrift then locked else implied))" by metis
    then show ?thesis using 2 by (simp only: simp_thms if_True if_False) blast
  next
    case 3
    then show ?thesis using ClassifyPair_plain [OF 3 assms(1)] by auto
  qed
qed

definition demo_lock :: Lock where
  "demo_lock = \<lparr>l_ID = 1, l_TransactionID = 7,
     l_Rate = \<lparr>r_Base = ''EUR'', r_Quote = ''USD'', r_Nano = 1085000000, r_Source = ''sim'', r_AsOf = 0\<rparr>,
     l_LockedAt = 0, l_ExpiresAt = 900\<rparr>"

definition demo_converted :: "int64 \<Rightarrow> Row" where
  "demo_converted gross = (demo_row 2 ''ch_1'')\<lparr>ro_Gross := mk_money gross ''EUR'', ro_SettlementCurrency := ''USD'',
     ro_SettlementRateNano := 1085000000, ro_Settled := mk_money 1085 ''USD''\<rparr>"

theorem ClassifyPair_decides_witness:
  "\<exists>b. ClassifyPair DefaultTolerances (demo_row 2 ''ch_1''\<lparr>ro_Net := mk_money 900 ''EUR''\<rparr>) (demo_record 7 ''ch_1'') None = Inr (Some b)
     \<and> bk_Category b = FeeMismatch \<and> (\<exists>d. bk_Delta b = Some d \<and> minor d = 900 - (1000 - 59))"
proof -
  let ?row = "demo_row 2 ''ch_1''\<lparr>ro_Net := mk_money 900 ''EUR''\<rparr>"
  have "is_ok (ClassifyPair DefaultTolerances ?row (demo_record 7 ''ch_1'') None)" by code_simp
  then obtain b where b: "ClassifyPair DefaultTolerances ?row (demo_record 7 ''ch_1'') None = Inr b" by (auto simp: is_ok_iff)
  show ?thesis using ClassifyPair_decides [OF b] b
    by (auto simp: demo_row_def demo_record_def no_money_def HasFX_def plain_reason_def)
qed

text \<open>The gross of a converted payment is never checked. When a rate lock exists, a provider that converted at exactly the
  locked rate is found to agree whatever gross, fee and net it states, so a wrong gross or a wrong fee raises no break.\<close>

theorem converted_gross_unchecked:
  assumes "HasFX row" "m_currency gross = m_currency (ro_Gross row)"
  shows "ClassifyPair tol (row\<lparr>ro_Gross := gross, ro_Fee := fee, ro_Net := net\<rparr>) rcd (Some lock) = ClassifyPair tol row rcd (Some lock)"
proof -
  let ?row = "row\<lparr>ro_Gross := gross, ro_Fee := fee, ro_Net := net\<rparr>"
  have "classifyConverted tol ?row rcd lock = classifyConverted tol row rcd lock"
    by (simp add: classifyConverted_def pair_break_def cong: if_cong)
  moreover have "HasFX ?row" using assms by (simp add: HasFX_def)
  ultimately show ?thesis using assms by (simp add: ClassifyPair_def pair_break_def)
qed

theorem converted_gross_unchecked_witness:
  "ClassifyPair DefaultTolerances (demo_converted 999999) (demo_record 7 ''ch_1'') (Some demo_lock) = Inr None"
proof -
  have "ClassifyPair DefaultTolerances (demo_converted 1000) (demo_record 7 ''ch_1'') (Some demo_lock) = Inr None" by code_simp
  moreover have "HasFX (demo_converted 1000)" by code_simp
  ultimately show ?thesis
    using converted_gross_unchecked [of "demo_converted 1000" "mk_money 999999 ''EUR''" DefaultTolerances "mk_money 941 ''EUR''" "mk_money 59 ''EUR''"]
    by (simp add: demo_converted_def demo_row_def)
qed

end
