(* ===== verification/FxStore.thy ===== *)
theory FxStore
  imports Database
begin

text \<open>
  Exchange rates and rate locks in the database (internal/store/fx/repository.go), with the constraints of
  migration 7. Rates are kept as windows of validity; a lock is written once per transaction and never
  changed. The lemmas show that the windows of one pair and source never overlap, so that a point in
  time has one rate per source, and that the lock read back is the one that was promised.
\<close>

section \<open>Operations\<close>

definition same_feed :: "RateRow \<Rightarrow> RateRow \<Rightarrow> bool" where
  "same_feed r s \<longleftrightarrow> fr_Base r = fr_Base s \<and> fr_Quote r = fr_Quote s \<and> fr_Source r = fr_Source s"

definition rate_row :: "Rate \<Rightarrow> RateRow" where
  "rate_row rate = \<lparr>fr_Base = r_Base rate, fr_Quote = r_Quote rate, fr_Nano = r_Nano rate, fr_Source = r_Source rate,
     fr_ValidFrom = r_AsOf rate, fr_ValidTo = None\<rparr>"

definition close_previous :: "RateRow \<Rightarrow> RateRow list \<Rightarrow> RateRow list" where
  "close_previous new rows =
     tupdate (\<lambda>r. same_feed r new \<and> fr_ValidTo r = None \<and> fr_ValidFrom r < fr_ValidFrom new)
       (\<lambda>r. r\<lparr>fr_ValidTo := Some (fr_ValidFrom new)\<rparr>) rows"

definition RecordRate :: "Rate \<Rightarrow> db \<Rightarrow> db result" where
  "RecordRate rate d =
     (let new = rate_row rate; rows = close_previous new (db_rates d) in
      if \<not> valid_currency (r_Base rate) \<or> \<not> valid_currency (r_Quote rate) then Inl (ErrConstraint ''currency_code'')
      else if \<not> sint (r_Nano rate) > 0 then Inl (ErrConstraint ''rate_nano'')
      else if r_Base rate = r_Quote rate then Inl (ErrConstraint ''fx_rates_distinct_pair'')
      else if list_ex (\<lambda>r. same_feed r new \<and> fr_ValidTo r = None) rows then Inl (ErrConstraint ''fx_rates_current_idx'')
      else Inr (d\<lparr>db_rates := rows @ [new]\<rparr>))"

definition rate_in_force :: "currency \<Rightarrow> currency \<Rightarrow> time \<Rightarrow> RateRow \<Rightarrow> bool" where
  "rate_in_force base quote at r \<longleftrightarrow> fr_Base r = base \<and> fr_Quote r = quote \<and> fr_ValidFrom r \<le> at
     \<and> (case fr_ValidTo r of None \<Rightarrow> True | Some t \<Rightarrow> t > at)"

text \<open>\<open>ORDER BY valid_from DESC LIMIT 1\<close>; the order of rows with the same start is the database's choice,
  here the older row.\<close>

fun newest :: "RateRow list \<Rightarrow> RateRow option" where
  "newest [] = None"
| "newest (r # rs) =
     (case newest rs of None \<Rightarrow> Some r | Some s \<Rightarrow> if fr_ValidFrom s > fr_ValidFrom r then Some s else Some r)"

definition RateAt :: "currency \<Rightarrow> currency \<Rightarrow> time \<Rightarrow> db \<Rightarrow> Rate result" where
  "RateAt base quote at d =
     (case newest (filter (rate_in_force base quote at) (db_rates d)) of
        None \<Rightarrow> Inl ErrRateNotFound
      | Some r \<Rightarrow> NewRate base quote (fr_Nano r) (fr_Source r) (fr_ValidFrom r))"

definition SaveLock :: "Lock \<Rightarrow> db \<Rightarrow> db result" where
  "SaveLock lock d =
     (let rate = l_Rate lock in
      if list_ex (\<lambda>l. l_ID l = l_ID lock) (db_locks d) then Inl (ErrConstraint ''fx_rate_locks_pkey'')
      else if list_ex (\<lambda>l. l_TransactionID l = l_TransactionID lock) (db_locks d)
      then Inl (ErrConstraint ''fx_rate_locks_one_per_transaction'')
      else if \<not> list_ex (\<lambda>t. t_ID t = l_TransactionID lock) (db_payments d) then Inl (ErrConstraint ''transaction_id'')
      else if \<not> valid_currency (r_Base rate) \<or> \<not> valid_currency (r_Quote rate) then Inl (ErrConstraint ''currency_code'')
      else if \<not> sint (r_Nano rate) > 0 then Inl (ErrConstraint ''rate_nano'')
      else if r_Base rate = r_Quote rate then Inl (ErrConstraint ''fx_rate_locks_distinct_pair'')
      else if \<not> l_ExpiresAt lock > l_LockedAt lock then Inl (ErrConstraint ''fx_rate_locks_expiry_after_lock'')
      else Inr (d\<lparr>db_locks := db_locks d @ [lock]\<rparr>))"

definition GetLock :: "uuid \<Rightarrow> db \<Rightarrow> Lock result" where
  "GetLock transactionID d =
     (case tfind (\<lambda>l. l_TransactionID l = transactionID) (db_locks d) of
        None \<Rightarrow> Inl ErrLockNotFound
      | Some l \<Rightarrow>
          ebind (NewRate (r_Base (l_Rate l)) (r_Quote (l_Rate l)) (r_Nano (l_Rate l)) (r_Source (l_Rate l)) (l_LockedAt l)) (\<lambda>rate.
          Inr \<lparr>l_ID = l_ID l, l_TransactionID = transactionID, l_Rate = rate, l_LockedAt = l_LockedAt l, l_ExpiresAt = l_ExpiresAt l\<rparr>))"

section \<open>Windows do not overlap\<close>

definition window_ends_by :: "RateRow \<Rightarrow> RateRow \<Rightarrow> bool" where
  "window_ends_by r s \<longleftrightarrow> (\<exists>t. fr_ValidTo r = Some t \<and> t \<le> fr_ValidFrom s)"

definition rate_row_ok :: "RateRow \<Rightarrow> bool" where
  "rate_row_ok r \<longleftrightarrow> valid_currency (fr_Base r) \<and> valid_currency (fr_Quote r) \<and> fr_Base r \<noteq> fr_Quote r \<and> 0 < sint (fr_Nano r)
     \<and> (case fr_ValidTo r of None \<Rightarrow> True | Some t \<Rightarrow> fr_ValidFrom r < t)"

definition rates_ok :: "db \<Rightarrow> bool" where
  "rates_ok d \<longleftrightarrow> list_all rate_row_ok (db_rates d)
     \<and> sorted_wrt (\<lambda>r s. same_feed r s \<longrightarrow> window_ends_by r s) (db_rates d)
     \<and> (\<forall>r \<in> set (db_rates d). \<exists>s \<in> set (db_rates d). same_feed r s \<and> fr_ValidTo s = None)"

lemma same_feed_updates [simp]:
  "same_feed (r\<lparr>fr_ValidTo := t\<rparr>) s = same_feed r s" "same_feed r (s\<lparr>fr_ValidTo := t\<rparr>) = same_feed r s"
  by (simp_all add: same_feed_def)

lemma RecordRate_Inr:
  assumes "RecordRate rate d = Inr d'"
  shows "d' = d\<lparr>db_rates := close_previous (rate_row rate) (db_rates d) @ [rate_row rate]\<rparr>" "rate_row_ok (rate_row rate)"
    "\<forall>r \<in> set (close_previous (rate_row rate) (db_rates d)). same_feed r (rate_row rate) \<longrightarrow> fr_ValidTo r \<noteq> None"
  using assms by (auto simp: RecordRate_def Let_def rate_row_ok_def rate_row_def list_ex_iff split: if_splits)

lemma same_feed_equiv: "same_feed r s \<Longrightarrow> same_feed s r" "same_feed r s \<Longrightarrow> same_feed s u \<Longrightarrow> same_feed r u" "same_feed r r"
  by (simp_all add: same_feed_def)

lemma sorted_wrt_two:
  assumes "sorted_wrt R xs" "x \<in> set xs" "y \<in> set xs" "x \<noteq> y"
  shows "R x y \<or> R y x"
  using assms by (induction xs) auto

text \<open>A window that is already closed ends before the open one of its feed starts.\<close>

lemma closed_before_open:
  assumes "rates_ok d" "x \<in> set (db_rates d)" "z \<in> set (db_rates d)" "same_feed x z" "fr_ValidTo z = None" "fr_ValidTo x = Some t"
  shows "t \<le> fr_ValidFrom z"
proof -
  have "x \<noteq> z" using assms(5,6) by auto
  then have "(same_feed x z \<longrightarrow> window_ends_by x z) \<or> (same_feed z x \<longrightarrow> window_ends_by z x)"
    using sorted_wrt_two [of "\<lambda>r s. same_feed r s \<longrightarrow> window_ends_by r s" "db_rates d" x z] assms(1-3) by (auto simp: rates_ok_def)
  then show ?thesis using assms(4-6) same_feed_equiv(1) by (auto simp: window_ends_by_def)
qed

lemma RecordRate_keeps:
  assumes "rates_ok d" "RecordRate rate d = Inr d'"
  shows "rates_ok d'"
proof -
  let ?new = "rate_row rate"
  define cl where "cl = (\<lambda>r. if same_feed r ?new \<and> fr_ValidTo r = None \<and> fr_ValidFrom r < fr_ValidFrom ?new
      then r\<lparr>fr_ValidTo := Some (fr_ValidFrom ?new)\<rparr> else r)"
  note r = RecordRate_Inr [OF assms(2)]
  have d': "db_rates d' = map cl (db_rates d) @ [?new]" using r(1) by (simp add: close_previous_def tupdate_def cl_def)
  have cl: "same_feed (cl x) y = same_feed x y" "same_feed y (cl x) = same_feed y x" "fr_ValidFrom (cl x) = fr_ValidFrom x"
    "fr_ValidTo x = Some t \<Longrightarrow> cl x = x" for x y t by (auto simp: cl_def)
  have row: "rate_row_ok (cl x)" if "x \<in> set (db_rates d)" for x
    using assms(1) that by (auto simp: rates_ok_def list_all_iff rate_row_ok_def cl_def)
  have "(same_feed x y \<longrightarrow> window_ends_by x y) \<Longrightarrow> (same_feed (cl x) (cl y) \<longrightarrow> window_ends_by (cl x) (cl y))" for x y
    using cl by (auto simp: window_ends_by_def)
  then have pair: "sorted_wrt (\<lambda>r s. same_feed r s \<longrightarrow> window_ends_by r s) (map cl (db_rates d))"
    unfolding sorted_wrt_map by (rule sorted_wrt_mono_rel) (use assms(1) in \<open>auto simp: rates_ok_def\<close>)
  have closes: "\<not> (same_feed x ?new \<and> fr_ValidTo (cl x) = None)" if "x \<in> set (db_rates d)" for x
  proof -
    have "cl x \<in> set (close_previous ?new (db_rates d))" using that by (simp add: close_previous_def tupdate_def cl_def)
    then show ?thesis using r(3) cl(1) [of x ?new] by blast
  qed
  have last: "window_ends_by (cl x) ?new" if x: "x \<in> set (db_rates d)" "same_feed (cl x) ?new" for x
  proof -
    obtain z where z: "z \<in> set (db_rates d)" "same_feed x z" "fr_ValidTo z = None" using assms(1) x(1) by (auto simp: rates_ok_def)
    then have "same_feed z ?new" using x(2) cl(1) same_feed_equiv by metis
    then have lt: "fr_ValidFrom z < fr_ValidFrom ?new" using closes [OF z(1)] z(3) by (auto simp: cl_def split: if_splits)
    show ?thesis
    proof (cases "fr_ValidTo x")
      case None
      then show ?thesis using closes [OF x(1)] x(2) cl(1) by (auto simp: cl_def window_ends_by_def split: if_splits)
    next
      case (Some t)
      then show ?thesis using closed_before_open [OF assms(1) x(1) z] lt cl(4) by (auto simp: window_ends_by_def)
    qed
  qed
  have "\<exists>s \<in> set (db_rates d'). same_feed y s \<and> fr_ValidTo s = None" if y: "y \<in> set (db_rates d')" for y
  proof (cases "same_feed y ?new")
    case True
    then show ?thesis by (auto simp: d' rate_row_def)
  next
    case False
    then obtain x where x: "x \<in> set (db_rates d)" "y = cl x" using y d' same_feed_equiv(3) by auto
    obtain z where z: "z \<in> set (db_rates d)" "same_feed x z" "fr_ValidTo z = None" using assms(1) x(1) by (auto simp: rates_ok_def)
    then have "\<not> same_feed z ?new" using False x(2) cl(1) same_feed_equiv by metis
    then have "cl z = z" by (simp add: cl_def)
    then show ?thesis using z x(2) cl(1) by (force simp: d')
  qed
  then show ?thesis using row pair last r(2) by (auto simp: rates_ok_def d' list_all_iff sorted_wrt_append)
qed

lemma newest_None: "newest rs = None \<longleftrightarrow> rs = []"
  by (cases rs) (auto split: option.splits)

lemma newest_Some: "newest rs = Some r \<Longrightarrow> r \<in> set rs \<and> (\<forall>s \<in> set rs. fr_ValidFrom s \<le> fr_ValidFrom r)"
  by (induction rs arbitrary: r) (auto simp: newest_None split: option.splits if_splits)

text \<open>C36: point-in-time lookup is unambiguous within a source. Recording rates keeps the windows of every pair and source
  disjoint with the newest one open, so at any instant at most one row of a source is in force; the lookup answers with a
  valid rate that is in force exactly when there is one.\<close>

theorem rates_unambiguous:
  assumes "rates_ok d" "RecordRate rate d = Inr d'"
  shows "rates_ok d'
    \<and> (\<forall>r \<in> set (db_rates d'). \<forall>s \<in> set (db_rates d'). rate_in_force base quote at r \<and> rate_in_force base quote at s
         \<and> fr_Source r = fr_Source s \<longrightarrow> r = s)
    \<and> (case RateAt base quote at d' of
         Inr x \<Rightarrow> \<exists>r \<in> set (db_rates d'). rate_in_force base quote at r
           \<and> x = \<lparr>r_Base = base, r_Quote = quote, r_Nano = fr_Nano r, r_Source = fr_Source r, r_AsOf = fr_ValidFrom r\<rparr>
       | Inl e \<Rightarrow> e = ErrRateNotFound \<and> \<not> (\<exists>r \<in> set (db_rates d'). rate_in_force base quote at r))"
proof -
  note ok = RecordRate_keeps [OF assms]
  have "r = s" if "r \<in> set (db_rates d')" "s \<in> set (db_rates d')" "rate_in_force base quote at r" "rate_in_force base quote at s"
    "fr_Source r = fr_Source s" for r s
    using sorted_wrt_two [of "\<lambda>r s. same_feed r s \<longrightarrow> window_ends_by r s" "db_rates d'" r s] ok that
    by (fastforce simp: rates_ok_def rate_in_force_def same_feed_def window_ends_by_def)
  moreover have "case RateAt base quote at d' of
         Inr x \<Rightarrow> \<exists>r \<in> set (db_rates d'). rate_in_force base quote at r
           \<and> x = \<lparr>r_Base = base, r_Quote = quote, r_Nano = fr_Nano r, r_Source = fr_Source r, r_AsOf = fr_ValidFrom r\<rparr>
       | Inl e \<Rightarrow> e = ErrRateNotFound \<and> \<not> (\<exists>r \<in> set (db_rates d'). rate_in_force base quote at r)"
  proof (cases "newest (filter (rate_in_force base quote at) (db_rates d'))")
    case None
    then show ?thesis by (auto simp: RateAt_def newest_None filter_empty_conv)
  next
    case (Some r)
    then have r: "r \<in> set (db_rates d')" "rate_in_force base quote at r" using newest_Some [OF Some] by auto
    then have "rate_row_ok r" using ok by (simp add: rates_ok_def list_all_iff)
    then have "RateAt base quote at d' = Inr \<lparr>r_Base = base, r_Quote = quote, r_Nano = fr_Nano r, r_Source = fr_Source r, r_AsOf = fr_ValidFrom r\<rparr>"
      using Some r(2) by (auto simp: RateAt_def NewRate_Inr rate_row_ok_def rate_in_force_def)
    then show ?thesis using r by auto
  qed
  ultimately show ?thesis using ok by blast
qed

definition demo_rate :: "int64 \<Rightarrow> time \<Rightarrow> Rate" where
  "demo_rate nano at = \<lparr>r_Base = ''EUR'', r_Quote = ''USD'', r_Nano = nano, r_Source = ''sim'', r_AsOf = at\<rparr>"

theorem rates_unambiguous_witness:
  "\<exists>d d'. RecordRate (demo_rate 1085000000 10) empty_db = Inr d \<and> RecordRate (demo_rate 1090000000 20) d = Inr d'
     \<and> RateAt ''EUR'' ''USD'' 15 d' = Inr (demo_rate 1085000000 10) \<and> rates_ok d'"
proof -
  let ?d = "empty_db\<lparr>db_rates := [rate_row (demo_rate 1085000000 10)]\<rparr>"
  let ?d' = "empty_db\<lparr>db_rates := [(rate_row (demo_rate 1085000000 10))\<lparr>fr_ValidTo := Some 20\<rparr>, rate_row (demo_rate 1090000000 20)]\<rparr>"
  have v: "valid_currency ''EUR''" "valid_currency ''USD''" by code_simp+
  have 1: "RecordRate (demo_rate 1085000000 10) empty_db = Inr ?d"
    by (simp add: RecordRate_def empty_db_def close_previous_def demo_rate_def v)
  have 2: "RecordRate (demo_rate 1090000000 20) ?d = Inr ?d'"
    by (simp add: RecordRate_def close_previous_def demo_rate_def v rate_row_def same_feed_def)
  have ok: "rates_ok empty_db" by (simp add: rates_ok_def empty_db_def)
  have 3: "RateAt ''EUR'' ''USD'' 15 ?d' = Inr (demo_rate 1085000000 10)"
    by (simp add: RateAt_def rate_in_force_def demo_rate_def rate_row_def NewRate_def Currency_Validate_eq v)
  note r = rates_unambiguous [OF ok 1, of "''EUR''" "''USD''" 15]
  show ?thesis using rates_unambiguous [OF conjunct1 [OF r] 2] 1 2 3 by blast
qed

section \<open>A lock is kept\<close>

definition locks_ok :: "db \<Rightarrow> bool" where
  "locks_ok d \<longleftrightarrow> distinct (map l_TransactionID (db_locks d)) \<and> distinct (map l_ID (db_locks d))"

lemma SaveLock_Inr:
  assumes "SaveLock lock d = Inr d'"
  shows "d' = d\<lparr>db_locks := db_locks d @ [lock]\<rparr>" "\<forall>l \<in> set (db_locks d). l_TransactionID l \<noteq> l_TransactionID lock \<and> l_ID l \<noteq> l_ID lock"
    "valid_currency (r_Base (l_Rate lock))" "valid_currency (r_Quote (l_Rate lock))" "0 < sint (r_Nano (l_Rate lock))"
    "r_Base (l_Rate lock) \<noteq> r_Quote (l_Rate lock)"
  using assms by (auto simp: SaveLock_def Let_def list_ex_iff split: if_splits)

text \<open>The rate that was promised is the rate that is found. A saved lock is read back with its rate and its window, every
  lock saved before is read as before, and the transaction can never be given a second lock.\<close>

theorem locked_rate_is_kept:
  assumes "SaveLock lock d = Inr d'"
  shows "GetLock (l_TransactionID lock) d' = Inr (lock\<lparr>l_Rate := (l_Rate lock)\<lparr>r_AsOf := l_LockedAt lock\<rparr>\<rparr>)
    \<and> (\<forall>tx. tx \<noteq> l_TransactionID lock \<longrightarrow> GetLock tx d' = GetLock tx d)
    \<and> (\<forall>other. l_TransactionID other = l_TransactionID lock \<longrightarrow> \<not> is_ok (SaveLock other d'))
    \<and> (locks_ok d \<longrightarrow> locks_ok d')"
proof -
  note s = SaveLock_Inr [OF assms]
  have f: "tfind (\<lambda>l. l_TransactionID l = tx) (db_locks d @ [lock])
      = (if tx = l_TransactionID lock then Some lock else tfind (\<lambda>l. l_TransactionID l = tx) (db_locks d))" for tx
  proof (cases "tx = l_TransactionID lock")
    case True
    then have "tfind (\<lambda>l. l_TransactionID l = tx) (db_locks d) = None" using s(2) by (auto simp: tfind_None_iff)
    then show ?thesis using True by (simp add: tfind_append)
  qed (auto simp: tfind_append split: option.splits)
  have g: "GetLock (l_TransactionID lock) d' = Inr (lock\<lparr>l_Rate := (l_Rate lock)\<lparr>r_AsOf := l_LockedAt lock\<rparr>\<rparr>)"
    using s by (simp add: GetLock_def f NewRate_def Currency_Validate_eq)
  have "\<not> is_ok (SaveLock other d')" if "l_TransactionID other = l_TransactionID lock" for other
    using that s(1) by (simp add: SaveLock_def Let_def)
  moreover have "locks_ok d \<longrightarrow> locks_ok d'" using s(1,2) by (auto simp: locks_ok_def)
  ultimately show ?thesis using g by (simp add: GetLock_def s(1) f)
qed

definition demo_promise :: Lock where
  "demo_promise = \<lparr>l_ID = 1, l_TransactionID = 7, l_Rate = demo_rate 1085000000 10, l_LockedAt = 12, l_ExpiresAt = 900\<rparr>"

definition demo_locked_db :: db where
  "demo_locked_db = empty_db\<lparr>db_payments := [\<lparr>t_ID = 7, t_MerchantID = ''m1'', t_ShardKey = KeyForMerchant ''m1'',
     t_IdempotencyKey = ''k1'', t_State = StateAuthorized, t_Amount = mk_money 1000 ''EUR'', t_Captured = mk_money 0 ''EUR'',
     t_Refunded = mk_money 0 ''EUR'', t_PSP = ''sim'', t_PSPReference = ''ch_1'', t_Version = 1, t_LastAppliedEventSeq = 0,
     t_CreatedAt = 0, t_UpdatedAt = 0\<rparr>]\<rparr>"

theorem locked_rate_is_kept_witness:
  "\<exists>d'. SaveLock demo_promise demo_locked_db = Inr d' \<and> GetLock 7 d' = Inr (demo_promise\<lparr>l_Rate := demo_rate 1085000000 12\<rparr>)
     \<and> \<not> is_ok (SaveLock (demo_promise\<lparr>l_ID := 2\<rparr>) d')"
proof -
  have v: "valid_currency ''EUR''" "valid_currency ''USD''" by code_simp+
  have s: "SaveLock demo_promise demo_locked_db = Inr (demo_locked_db\<lparr>db_locks := [demo_promise]\<rparr>)"
    by (simp add: SaveLock_def demo_promise_def demo_locked_db_def demo_rate_def empty_db_def v)
  show ?thesis using locked_rate_is_kept [OF s] s by (simp add: demo_promise_def demo_rate_def)
qed

end
