(* ===== verification/Recon.thy ===== *)
theory Recon
  imports FxStore LedgerStore
begin

text \<open>
  Reconciliation against the database (internal/recon: store.go, ledger_reader.go, adjuster.go,
  service.go), with the constraints of migrations 9 and 10. A settlement file is stored once by the hash
  of its bytes; a run reads the file, the captures the ledger recorded around its window and the rate
  locks, classifies the differences outside any transaction, and in one transaction records the breaks
  that are new, closes those that are explained and posts the entry a rate movement implies.
\<close>

section \<open>Files and rows (store.go)\<close>

text \<open>A \<open>timestamptz\<close> holds microseconds: the driver writes a time without what is below.\<close>

definition timestamptz :: "time \<Rightarrow> time" where
  "timestamptz t = t div 1000 * 1000"

definition nullif :: "'a \<Rightarrow> 'a \<Rightarrow> 'a option" where
  "nullif x y = (if x = y then None else Some x)"

definition settledMinorOrSentinel :: "Row \<Rightarrow> int64" where
  "settledMinorOrSentinel row = (if \<not> HasFX row then - 1 else m_amount (ro_Settled row))"

definition stored_row :: "nat \<Rightarrow> uuid \<Rightarrow> Row \<Rightarrow> SettlementRow" where
  "stored_row i fileID row =
     \<lparr>sr_ID = i, sr_FileID = fileID, sr_LineNumber = ro_LineNumber row, sr_ProviderReference = ro_ProviderReference row,
      sr_GrossMinor = m_amount (ro_Gross row), sr_FeeMinor = m_amount (ro_Fee row), sr_NetMinor = m_amount (ro_Net row),
      sr_Currency = m_currency (ro_Gross row), sr_SettlementCurrency = nullif (ro_SettlementCurrency row) [],
      sr_SettlementRateNano = nullif (ro_SettlementRateNano row) 0, sr_SettledMinor = nullif (settledMinorOrSentinel row) (- 1),
      sr_SettledAt = timestamptz (ro_SettledAt row), sr_Raw = ro_Raw row\<rparr>"

definition settlement_row_checks :: "SettlementRow \<Rightarrow> bool" where
  "settlement_row_checks r \<longleftrightarrow> valid_currency (sr_Currency r)
     \<and> (case sr_SettlementCurrency r of None \<Rightarrow> True | Some c \<Rightarrow> valid_currency c)
     \<and> (case sr_SettlementRateNano r of None \<Rightarrow> True | Some n \<Rightarrow> sint n > 0)
     \<and> (sr_SettlementCurrency r = None \<and> sr_SettlementRateNano r = None \<and> sr_SettledMinor r = None
        \<or> sr_SettlementCurrency r \<noteq> None \<and> sr_SettlementRateNano r \<noteq> None \<and> sr_SettledMinor r \<noteq> None)"

definition insert_settlement_row :: "uuid \<Rightarrow> Row \<Rightarrow> db \<Rightarrow> (Row \<times> db) result" where
  "insert_settlement_row fileID row d =
     (let i = db_nextid d; r = stored_row i fileID row in
      if \<not> settlement_row_checks r then Inl (ErrConstraint ''settlement_rows'')
      else if list_ex (\<lambda>x. sr_FileID x = fileID \<and> sr_LineNumber x = ro_LineNumber row) (db_rows d)
      then Inl (ErrConstraint ''settlement_rows_line_unique'')
      else Inr (row\<lparr>ro_ID := i, ro_FileID := fileID\<rparr>, d\<lparr>db_rows := db_rows d @ [r], db_nextid := Suc i\<rparr>))"

fun insert_settlement_rows :: "uuid \<Rightarrow> Row list \<Rightarrow> db \<Rightarrow> (Row list \<times> db) result" where
  "insert_settlement_rows fileID [] d = Inr ([], d)"
| "insert_settlement_rows fileID (row # rows) d =
     ebind (insert_settlement_row fileID row d) (\<lambda>(row', d1).
     ebind (insert_settlement_rows fileID rows d1) (\<lambda>(rows', d2). Inr (row' # rows', d2)))"

definition InsertFile :: "time \<Rightarrow> File \<Rightarrow> db \<Rightarrow> (bool \<times> File \<times> db) result" where
  "InsertFile now f d =
     (if \<not> f_RowCount f \<ge> 0 then Inl (ErrConstraint ''row_count'')
      else if \<not> timestamptz (f_PeriodEnd f) > timestamptz (f_PeriodStart f) then Inl (ErrConstraint ''settlement_files_period'')
      else case tfind (\<lambda>x. f_Provider x = f_Provider f \<and> f_ContentSHA256 x = f_ContentSHA256 f) (db_files d) of
        Some x \<Rightarrow>
          Inr (False, f\<lparr>f_ID := f_ID x, f_PeriodStart := f_PeriodStart x, f_PeriodEnd := f_PeriodEnd x,
            f_RowCount := f_RowCount x, f_IngestedAt := f_IngestedAt x\<rparr>, d)
      | None \<Rightarrow>
          let i = db_nextid d; f1 = f\<lparr>f_ID := i, f_IngestedAt := timestamptz now\<rparr>;
              stored = f1\<lparr>f_PeriodStart := timestamptz (f_PeriodStart f), f_PeriodEnd := timestamptz (f_PeriodEnd f), f_Rows := []\<rparr> in
          ebind (insert_settlement_rows i (f_Rows f) (d\<lparr>db_files := db_files d @ [stored], db_nextid := Suc i\<rparr>))
            (\<lambda>(rows, d1). Inr (True, f1\<lparr>f_Rows := rows\<rparr>, d1)))"

definition scan_row :: "uuid \<Rightarrow> SettlementRow \<Rightarrow> Row result" where
  "scan_row fileID r =
     (let cur = sr_Currency r; settleCurrency = (case sr_SettlementCurrency r of None \<Rightarrow> [] | Some c \<Rightarrow> c) in
      ebind (Money_New (sr_GrossMinor r) cur) (\<lambda>gross.
      ebind (Money_New (sr_FeeMinor r) cur) (\<lambda>fee.
      ebind (Money_New (sr_NetMinor r) cur) (\<lambda>net.
      let row = \<lparr>ro_ID = sr_ID r, ro_FileID = fileID, ro_LineNumber = sr_LineNumber r,
            ro_ProviderReference = sr_ProviderReference r, ro_Gross = gross, ro_Fee = fee, ro_Net = net,
            ro_SettlementCurrency = [],
            ro_SettlementRateNano = (case sr_SettlementRateNano r of None \<Rightarrow> 0 | Some n \<Rightarrow> n), ro_Settled = no_money,
            ro_SettledAt = sr_SettledAt r, ro_Raw = sr_Raw r\<rparr>
      in if settleCurrency \<noteq> [] then
           ebind (Money_New (case sr_SettledMinor r of None \<Rightarrow> 0 | Some s \<Rightarrow> s) settleCurrency) (\<lambda>settled.
           Inr (row\<lparr>ro_SettlementCurrency := settleCurrency, ro_Settled := settled\<rparr>))
         else Inr row))))"

definition loadRows :: "uuid \<Rightarrow> db \<Rightarrow> Row list result" where
  "loadRows fileID d =
     collect_results (scan_row fileID) (sort_key sr_LineNumber (filter (\<lambda>r. sr_FileID r = fileID) (db_rows d)))"

definition load_header :: "uuid \<Rightarrow> db \<Rightarrow> File result" where
  "load_header fileID d = (case tfind (\<lambda>f. f_ID f = fileID) (db_files d) of None \<Rightarrow> Inl ErrFileNotFound | Some f \<Rightarrow> Inr f)"

text \<open>\<open>LoadFile\<close> is two queries on the pool.\<close>

definition LoadFile :: "nat \<Rightarrow> uuid \<Rightarrow> world \<Rightarrow> File result \<times> world" where
  "LoadFile p fileID w =
     (case query_at p (load_header fileID) w of
        (Inl e, w1) \<Rightarrow> (Inl e, w1)
      | (Inr f, w1) \<Rightarrow>
          (case query_at p (loadRows fileID) w1 of
             (Inl e, w2) \<Rightarrow> (Inl e, w2)
           | (Inr rows, w2) \<Rightarrow> (Inr (f\<lparr>f_Rows := rows\<rparr>), w2)))"

section \<open>Runs and breaks (store.go)\<close>

definition StartRun :: "uuid \<Rightarrow> string \<Rightarrow> db \<Rightarrow> (uuid \<times> db) result" where
  "StartRun fileID actor d =
     (let i = db_nextid d in
      if \<not> list_ex (\<lambda>f. f_ID f = fileID) (db_files d) then Inl (ErrConstraint ''recon_runs_file_id'')
      else Inr (i, d\<lparr>db_runs := db_runs d @ [\<lparr>rr_ID = i, rr_FileID = fileID, rr_Actor = actor, rr_Matched = 0, rr_Breaks = 0,
        rr_FinishedAt = None\<rparr>], db_nextid := Suc i\<rparr>))"

definition FinishRun :: "time \<Rightarrow> uuid \<Rightarrow> int \<Rightarrow> int \<Rightarrow> db \<Rightarrow> db" where
  "FinishRun now runID matched breakCount d =
     d\<lparr>db_runs := tupdate (\<lambda>r. rr_ID r = runID)
       (\<lambda>r. r\<lparr>rr_Matched := matched, rr_Breaks := breakCount, rr_FinishedAt := Some now\<rparr>) (db_runs d)\<rparr>"

definition minorOrNil :: "Money option \<Rightarrow> int64 option" where
  "minorOrNil m = map_option m_amount m"

definition currencyOf :: "Break \<Rightarrow> currency" where
  "currencyOf b =
     (case bk_Expected b of Some m \<Rightarrow> m_currency m | None \<Rightarrow>
      (case bk_Actual b of Some m \<Rightarrow> m_currency m | None \<Rightarrow>
       (case bk_Delta b of Some m \<Rightarrow> m_currency m | None \<Rightarrow> [])))"

definition break_row :: "uuid \<Rightarrow> uuid \<Rightarrow> uuid \<Rightarrow> Break \<Rightarrow> BreakRow" where
  "break_row i runID fileID b =
     \<lparr>br_ID = i, br_RunID = runID, br_FileID = fileID, br_Category = bk_Category b, br_MatchKey = bk_MatchKey b,
      br_TransactionID = bk_TransactionID b, br_SettlementRowID = bk_SettlementRowID b,
      br_ExpectedMinor = minorOrNil (bk_Expected b), br_ActualMinor = minorOrNil (bk_Actual b),
      br_DeltaMinor = minorOrNil (bk_Delta b), br_Currency = nullif (currencyOf b) [], br_Detail = bk_Detail b,
      br_Status = StatusOpen, br_Note = None, br_ResolvedBy = None, br_ResolvedAt = None, br_AdjustmentEntryID = None\<rparr>"

definition identity :: "BreakRow \<Rightarrow> uuid \<times> Category \<times> string" where
  "identity r = (br_FileID r, br_Category r, br_MatchKey r)"

definition SaveBreak :: "uuid \<Rightarrow> uuid \<Rightarrow> Break \<Rightarrow> db \<Rightarrow> (bool \<times> db) result" where
  "SaveBreak runID fileID b d =
     (if bk_Category b \<notin> set All_categories then Inl (ErrConstraint ''recon_break_category'')
      else if currencyOf b \<noteq> [] \<and> \<not> valid_currency (currencyOf b) then Inl (ErrConstraint ''currency_code'')
      else if list_ex (\<lambda>r. identity r = (fileID, bk_Category b, bk_MatchKey b)) (db_breaks d) then Inr (False, d)
      else if \<not> list_ex (\<lambda>r. rr_ID r = runID) (db_runs d) \<or> \<not> list_ex (\<lambda>f. f_ID f = fileID) (db_files d)
        \<or> (case bk_TransactionID b of None \<Rightarrow> False | Some t \<Rightarrow> \<not> list_ex (\<lambda>x. t_ID x = t) (db_payments d))
        \<or> (case bk_SettlementRowID b of None \<Rightarrow> False | Some i \<Rightarrow> \<not> list_ex (\<lambda>x. sr_ID x = i) (db_rows d))
      then Inl (ErrConstraint ''recon_breaks_fkey'')
      else Inr (True, d\<lparr>db_breaks := db_breaks d @ [break_row (db_nextid d) runID fileID b], db_nextid := Suc (db_nextid d)\<rparr>))"

definition BreakID :: "uuid \<Rightarrow> Category \<Rightarrow> string \<Rightarrow> db \<Rightarrow> uuid result" where
  "BreakID fileID category matchKey d =
     (case tfind (\<lambda>r. identity r = (fileID, category, matchKey)) (db_breaks d) of None \<Rightarrow> Inl ErrNoRows | Some r \<Rightarrow> Inr (br_ID r))"

definition ShardKeyFor :: "uuid \<Rightarrow> db \<Rightarrow> string result" where
  "ShardKeyFor transactionID d =
     (case tfind (\<lambda>t. t_ID t = transactionID) (db_payments d) of None \<Rightarrow> Inl ErrNoRows | Some t \<Rightarrow> Inr (t_ShardKey t))"

definition zero_time :: time where
  "zero_time = - 62135596800 * second"

definition is_open :: "BreakRow \<Rightarrow> bool" where
  "is_open r \<longleftrightarrow> br_Status r = StatusOpen \<or> br_Status r = StatusInvestigating"

definition ResolveTx :: "time \<Rightarrow> uuid \<Rightarrow> Resolution \<Rightarrow> uuid option \<Rightarrow> db \<Rightarrow> db result" where
  "ResolveTx now breakID res adjustment d =
     ebind (Resolution_Validate res) (\<lambda>_.
     let at = (if rsl_At res = zero_time then now else rsl_At res); P = (\<lambda>r. br_ID r = breakID \<and> is_open r) in
     if \<not> list_ex P (db_breaks d) then Inl (ErrOther ''break is not open'')
     else if (case adjustment of None \<Rightarrow> False | Some e \<Rightarrow> \<not> list_ex (\<lambda>x. je_ID x = e) (db_entries d))
     then Inl (ErrConstraint ''adjustment_entry_id'')
     else Inr (d\<lparr>db_breaks := tupdate P (\<lambda>r. r\<lparr>br_Status := rsl_Status res, br_Note := nullif (rsl_Note res) [],
         br_ResolvedBy := nullif (rsl_Actor res) [], br_ResolvedAt := Some at,
         br_AdjustmentEntryID := (case adjustment of None \<Rightarrow> br_AdjustmentEntryID r | Some e \<Rightarrow> Some e)\<rparr>) (db_breaks d)\<rparr>))"

definition Break_Resolve :: "time \<Rightarrow> uuid \<Rightarrow> Resolution \<Rightarrow> uuid option \<Rightarrow> db \<Rightarrow> db result" where
  "Break_Resolve now breakID res adjustment d = ResolveTx now breakID res adjustment d"

section \<open>What the books say (ledger\_reader.go)\<close>

definition joined_account :: "db \<Rightarrow> Posting \<Rightarrow> (Account \<Rightarrow> bool) \<Rightarrow> bool" where
  "joined_account d p P \<longleftrightarrow> list_ex (\<lambda>a. a_ID a = p_AccountID p \<and> P a) (db_accounts d)"

definition is_clearing :: "string \<Rightarrow> db \<Rightarrow> Posting \<Rightarrow> bool" where
  "is_clearing provider d p \<longleftrightarrow> p_Direction p = Debit
     \<and> joined_account d p (\<lambda>a. a_Purpose a = PurposeClearing \<and> a_Owner a = \<lparr>o_Type = ''psp'', o_ID = provider\<rparr>)"

text \<open>The left join with the credit legs, after the \<open>WHERE\<close> clause: one row without a fee when the entry has no
  credit leg, else one per credit leg on a fee account.\<close>

definition fee_legs :: "db \<Rightarrow> Posting list \<Rightarrow> Posting option list" where
  "fee_legs d ps =
     (let credits = filter (\<lambda>p. p_Direction p = Credit) ps in
      if credits = [] then [None]
      else map Some (filter (\<lambda>p. joined_account d p (\<lambda>a. a_Purpose a = PurposeFeeRevenue)) credits))"

type_synonym capture_key = "uuid \<times> string \<times> string \<times> time \<times> currency"

definition entry_captures :: "string \<Rightarrow> db \<Rightarrow> JournalRow \<Rightarrow> Transaction \<Rightarrow> (capture_key \<times> int \<times> int) list" where
  "entry_captures provider d e t =
     (let ps = entry_postings d (je_ID e) in
      concat (map (\<lambda>c. map (\<lambda>f. ((t_ID t, t_MerchantID t, t_PSPReference t, je_OccurredAt e, m_currency (p_Amount c)),
            minor (p_Amount c), case f of None \<Rightarrow> 0 | Some p \<Rightarrow> minor (p_Amount p))) (fee_legs d ps))
        (filter (is_clearing provider d) ps)))"

definition capture_rows :: "string \<Rightarrow> time \<Rightarrow> time \<Rightarrow> db \<Rightarrow> (capture_key \<times> int \<times> int) list" where
  "capture_rows provider start end' d =
     concat (map (\<lambda>e. concat (map (entry_captures provider d e)
         (filter (\<lambda>t. je_TransactionID e = Some (t_ID t)) (db_payments d))))
       (filter (\<lambda>e. je_OccurredAt e \<ge> start \<and> je_OccurredAt e < end') (db_entries d)))"

definition capture_record :: "(capture_key \<times> int \<times> int) list \<Rightarrow> capture_key \<Rightarrow> LedgerRecord result" where
  "capture_record rows k =
     (let mine = map snd (filter (\<lambda>r. fst r = k) rows); gross = sum_list (map fst mine); fee = sum_list (map snd mine) in
      case k of (tx, merchant, ref, at, cur) \<Rightarrow>
      if \<not> in64 gross \<or> \<not> in64 fee then Inl (ErrInfra ''scan captured payment'')
      else ebind (Money_New (word_of_int gross) cur) (\<lambda>captured.
           ebind (Money_New (word_of_int fee) cur) (\<lambda>feeSum.
           Inr \<lparr>lr_TransactionID = tx, lr_MerchantID = merchant, lr_ProviderReference = ref, lr_Captured = captured,
             lr_Fee = feeSum, lr_CapturedAt = at\<rparr>)))"

definition window :: time where
  "window = 48 * 3600 * second"

definition CapturedInWindow :: "string \<Rightarrow> time \<Rightarrow> time \<Rightarrow> db \<Rightarrow> LedgerRecord list result" where
  "CapturedInWindow provider start end' d =
     (let rows = capture_rows provider (start - window) (end' + window) d in
      collect_results (capture_record rows) (sort_key (\<lambda>(_, _, _, at, _). at) (remdups (map fst rows))))"

section \<open>The entry a rate movement implies (adjuster.go)\<close>

definition drift_account :: "string \<Rightarrow> string \<Rightarrow> Purpose \<Rightarrow> AccountType \<Rightarrow> currency \<Rightarrow> string \<Rightarrow> Account" where
  "drift_account otype oid purp atype cur sk =
     \<lparr>a_ID = 0, a_Owner = \<lparr>o_Type = otype, o_ID = oid\<rparr>, a_Purpose = purp, a_Type = atype, a_Currency = cur, a_ShardKey = sk\<rparr>"

definition PostFXDrift :: "time \<Rightarrow> Break \<Rightarrow> uuid \<Rightarrow> string \<Rightarrow> string \<Rightarrow> db \<Rightarrow> (uuid \<times> db) result" where
  "PostFXDrift now b transactionID shardKey providerName d =
     (case bk_Delta b of
        None \<Rightarrow> Inl (ErrOther ''fx drift break has no delta to post'')
      | Some delta \<Rightarrow>
          if IsZero delta then Inl (ErrOther ''fx drift break has no delta to post'')
          else
            let cur = m_currency delta in
            ebind (EnsureAccount (drift_account ''psp'' providerName PurposeClearing AccountTypeAsset cur shardKey) d) (\<lambda>(clearing, d1).
            ebind (EnsureAccount (drift_account ''platform'' ''platform'' PurposeFXGainLoss AccountTypeRevenue cur shardKey) d1) (\<lambda>(gainLoss, d2).
            ebind (if \<not> IsPositive delta then Money_Neg delta else Inr delta) (\<lambda>amount.
            let (debit, credit) = (if \<not> IsPositive delta then (a_ID gainLoss, a_ID clearing) else (a_ID clearing, a_ID gainLoss));
                entryID = db_nextid d2
            in ebind (NewEntry entryID now (Some transactionID) shardKey (''fx drift on settlement: '' @ bk_Detail b) now
                 [mk_posting debit Debit amount, mk_posting credit Credit amount]) (\<lambda>entry.
               ebind (RecordEntry entry (d2\<lparr>db_nextid := Suc entryID\<rparr>)) (\<lambda>d3. Inr (entryID, d3)))))))"

section \<open>The service (service.go)\<close>

record ReconService =
  rc_db :: nat
  rc_parsers :: "(string \<times> (time \<Rightarrow> string \<Rightarrow> File result)) list"
  rc_tolerances :: Tolerances
  rc_codec :: codec

definition NewReconRegistry :: "codec \<Rightarrow> string list \<Rightarrow> (string \<times> (time \<Rightarrow> string \<Rightarrow> File result)) list" where
  "NewReconRegistry co names = map (\<lambda>n. (n, \<lambda>now. Parse co now n)) names"

definition ReconRegistry_Get :: "(string \<times> (time \<Rightarrow> string \<Rightarrow> File result)) list \<Rightarrow> string \<Rightarrow> (time \<Rightarrow> string \<Rightarrow> File result) result" where
  "ReconRegistry_Get parsers provider = (case map_of (rev parsers) provider of None \<Rightarrow> Inl ErrNoParser | Some p \<Rightarrow> Inr p)"

definition ingest_body :: "time \<Rightarrow> (bool \<times> File) body" where
  "ingest_body now = (\<lambda>(_, f) d. case InsertFile now f d of
      Inl e \<Rightarrow> ((False, f), Inl e)
    | Inr (inserted, f', d') \<Rightarrow> ((inserted, f'), Inr d'))"

definition Recon_Ingest :: "ReconService \<Rightarrow> time \<Rightarrow> string \<Rightarrow> string \<Rightarrow> string \<Rightarrow> world \<Rightarrow> (File \<times> bool) result \<times> world" where
  "Recon_Ingest svc now provider filename input w =
     (case ebind (ReconRegistry_Get (rc_parsers svc) provider) (\<lambda>parse. parse now input) of
        Inl e \<Rightarrow> (Inl e, w)
      | Inr f \<Rightarrow>
          (case tx_at (rc_db svc) (ingest_body now) (False, f\<lparr>f_Filename := filename\<rparr>) w of
             (_, Inl e, w1) \<Rightarrow> (Inl e, w1)
           | ((inserted, f'), Inr _, w1) \<Rightarrow> (Inr (f', inserted), w1)))"

text \<open>The maps of a report are lists of their entries; \<open>m[k] += n\<close> adds to one or appends it.\<close>

fun bump :: "'k \<Rightarrow> 'v :: plus \<Rightarrow> ('k \<times> 'v) list \<Rightarrow> ('k \<times> 'v) list" where
  "bump k n [] = [(k, n)]"
| "bump k n ((k', v) # xs) = (if k' = k then (k', v + n) # xs else (k', v) # bump k n xs)"

record Report =
  rp_RunID :: uuid
  rp_FileID :: uuid
  rp_Matched :: int
  rp_ByCategory :: "(Category \<times> int) list"
  rp_NewBreaks :: int
  rp_AutoResolved :: int
  rp_Exposure :: "(currency \<times> int64) list"

definition Report_Total :: "Report \<Rightarrow> int" where
  "Report_Total r = sum_list (map snd (rp_ByCategory r))"

definition lockFor :: "nat \<Rightarrow> Row \<Rightarrow> LedgerRecord \<Rightarrow> world \<Rightarrow> Lock option result \<times> world" where
  "lockFor p row rcd w =
     (if \<not> HasFX row then (Inr None, w)
      else case query_at p (GetLock (lr_TransactionID rcd)) w of
        (Inl e, w1) \<Rightarrow> (if e = ErrLockNotFound then (Inr None, w1) else (Inl e, w1))
      | (Inr l, w1) \<Rightarrow> (Inr (Some l), w1))"

fun classify_pairs :: "nat \<Rightarrow> Tolerances \<Rightarrow> (Row \<times> LedgerRecord) list \<Rightarrow> world \<Rightarrow> Break list result \<times> world" where
  "classify_pairs p tol [] w = (Inr [], w)"
| "classify_pairs p tol ((row, rcd) # pairs) w =
     (case lockFor p row rcd w of
        (Inl e, w1) \<Rightarrow> (Inl e, w1)
      | (Inr lock, w1) \<Rightarrow>
          (case ClassifyPair tol row rcd lock of
             Inl e \<Rightarrow> (Inl e, w1)
           | Inr b \<Rightarrow>
               (case classify_pairs p tol pairs w1 of
                  (Inl e, w2) \<Rightarrow> (Inl e, w2)
                | (Inr bs, w2) \<Rightarrow> (Inr ((case b of None \<Rightarrow> [] | Some x \<Rightarrow> [x]) @ bs), w2))))"

definition unpaired_breaks :: "codec \<Rightarrow> File \<Rightarrow> MatchResult \<Rightarrow> Break list" where
  "unpaired_breaks co f m =
     map ClassifyDuplicate (mr_DuplicateRows m) @ map ClassifyUnmatchedRow (mr_UnmatchedRows m)
     @ map (\<lambda>r. ClassifyUnmatchedRecord co r f) (mr_UnmatchedRecords m)"

definition classifyAll :: "ReconService \<Rightarrow> File \<Rightarrow> MatchResult \<Rightarrow> world \<Rightarrow> Break list result \<times> world" where
  "classifyAll svc f m w =
     (case classify_pairs (rc_db svc) (rc_tolerances svc) (mr_Matched m) w of
        (Inl e, w1) \<Rightarrow> (Inl e, w1)
      | (Inr found, w1) \<Rightarrow> (Inr (found @ unpaired_breaks (rc_codec svc) f m), w1))"

definition reconciler :: string where
  "reconciler = ''system:reconciler''"

definition autoResolve :: "time \<Rightarrow> File \<Rightarrow> Break \<Rightarrow> db \<Rightarrow> (bool \<times> db) result" where
  "autoResolve now f b d =
     (if \<not> AutoResolvable (bk_Category b) then Inr (False, d)
      else
        ebind (BreakID (f_ID f) (bk_Category b) (bk_MatchKey b) d) (\<lambda>breakID.
        ebind
          (if bk_Category b = FXDrift then
             (case bk_TransactionID b of
                None \<Rightarrow> Inl (ErrOther ''fx drift break has no transaction'')
              | Some tx \<Rightarrow>
                  ebind (ShardKeyFor tx d) (\<lambda>shardKey.
                  ebind (PostFXDrift now b tx shardKey (f_Provider f) d) (\<lambda>(entryID, d1).
                  Inr (Some entryID, ''rate movement accounted to fx gain/loss ('' @ Money_String (the (bk_Delta b)) @ '')'', d1))))
           else Inr (None, ''settles in an adjacent window; no movement to account for'', d))
          (\<lambda>(adjustment, reason, d1).
        ebind (ResolveTx now breakID \<lparr>rsl_Status = StatusResolved, rsl_Actor = reconciler, rsl_Note = reason, rsl_At = now\<rparr> adjustment d1)
          (\<lambda>d2. Inr (True, d2)))))"

fun reconcile_loop :: "time \<Rightarrow> File \<Rightarrow> Break list \<Rightarrow> Report body" where
  "reconcile_loop now f [] rep d = (rep, Inr d)"
| "reconcile_loop now f (b # bs) rep d =
     (case SaveBreak (rp_RunID rep) (f_ID f) b d of
        Inl e \<Rightarrow> (rep, Inl e)
      | Inr (isNew, d1) \<Rightarrow>
          let rep1 = rep\<lparr>rp_ByCategory := bump (bk_Category b) 1 (rp_ByCategory rep),
                rp_Exposure := (case bk_Delta b of None \<Rightarrow> rp_Exposure rep
                  | Some delta \<Rightarrow> bump (m_currency delta) (absMinor delta) (rp_Exposure rep))\<rparr>
          in if \<not> isNew then reconcile_loop now f bs rep1 d1
             else
               let rep2 = rep1\<lparr>rp_NewBreaks := rp_NewBreaks rep1 + 1\<rparr> in
               (case autoResolve now f b d1 of
                  Inl e \<Rightarrow> (rep2, Inl e)
                | Inr (resolved, d2) \<Rightarrow>
                    reconcile_loop now f bs (if resolved then rep2\<lparr>rp_AutoResolved := rp_AutoResolved rep2 + 1\<rparr> else rep2) d2))"

definition reconcile_body :: "time \<Rightarrow> string \<Rightarrow> File \<Rightarrow> Break list \<Rightarrow> Report body" where
  "reconcile_body now actor f found =
     (\<lambda>rep d. case StartRun (f_ID f) actor d of
        Inl e \<Rightarrow> (rep, Inl e)
      | Inr (runID, d1) \<Rightarrow>
          (case reconcile_loop now f found (rep\<lparr>rp_RunID := runID\<rparr>) d1 of
             (rep1, Inl e) \<Rightarrow> (rep1, Inl e)
           | (rep1, Inr d2) \<Rightarrow> (rep1, Inr (FinishRun now runID (rp_Matched rep1) (Report_Total rep1) d2))))"

definition empty_report :: "uuid \<Rightarrow> int \<Rightarrow> Report" where
  "empty_report fileID matched = \<lparr>rp_RunID = 0, rp_FileID = fileID, rp_Matched = matched, rp_ByCategory = [], rp_NewBreaks = 0,
     rp_AutoResolved = 0, rp_Exposure = []\<rparr>"

definition Reconcile :: "ReconService \<Rightarrow> time \<Rightarrow> uuid \<Rightarrow> string \<Rightarrow> world \<Rightarrow> Report result \<times> world" where
  "Reconcile svc now fileID actor w =
     (case LoadFile (rc_db svc) fileID w of
        (Inl e, w1) \<Rightarrow> (Inl e, w1)
      | (Inr f, w1) \<Rightarrow>
          (case query_at (rc_db svc) (CapturedInWindow (f_Provider f) (f_PeriodStart f) (f_PeriodEnd f)) w1 of
             (Inl e, w2) \<Rightarrow> (Inl e, w2)
           | (Inr records, w2) \<Rightarrow>
               let matched = Match (f_Rows f) records in
               (case classifyAll svc f matched w2 of
                  (Inl e, w3) \<Rightarrow> (Inl e, w3)
                | (Inr found, w3) \<Rightarrow>
                    (case tx_at (rc_db svc) (reconcile_body now actor f found)
                         (empty_report fileID (int (length (mr_Matched matched)))) w3 of
                       (_, Inl e, w4) \<Rightarrow> (Inl e, w4)
                     | (rep, Inr _, w4) \<Rightarrow> (Inr rep, w4)))))"

end
