(* ===== verification/ReconSafety.thy ===== *)
theory ReconSafety
  imports Recon SettlementClaims
begin

text \<open>
  What one transaction of a reconciliation run does: it appends breaks, each new under its identity, it
  closes exactly those it may close, and for each rate movement it appends one balanced entry. Nothing a
  previous run or an operator recorded is touched, and nothing it posts is taken for a capture by the
  next run.
\<close>

section \<open>Books that the reader can rely on\<close>

text \<open>Postings refer to known accounts and entries, as the foreign keys of migration 2 have it.\<close>

definition books_ok :: "db \<Rightarrow> bool" where
  "books_ok d \<longleftrightarrow> accounts_ok d
     \<and> (\<forall>p \<in> set (db_postings d). p_AccountID (pr_Posting p) \<in> a_ID ` set (db_accounts d) \<and> pr_EntryID p \<in> je_ID ` set (db_entries d))"

definition captures_kept :: "db \<Rightarrow> db \<Rightarrow> bool" where
  "captures_kept d d' \<longleftrightarrow> (\<forall>provider start end'. capture_rows provider start end' d' = capture_rows provider start end' d)"

lemma captures_kept_trans: "captures_kept d d1 \<Longrightarrow> captures_kept d1 d2 \<Longrightarrow> captures_kept d d2"
  by (simp add: captures_kept_def)

definition same_books :: "db \<Rightarrow> db \<Rightarrow> bool" where
  "same_books d d' \<longleftrightarrow> db_accounts d' = db_accounts d \<and> db_entries d' = db_entries d \<and> db_postings d' = db_postings d
     \<and> db_payments d' = db_payments d"

lemma captures_kept_same: "same_books d d' \<Longrightarrow> captures_kept d d'"
proof -
  assume s: "same_books d d'"
  then have "joined_account d' = joined_account d" "entry_postings d' = entry_postings d"
    by (auto simp: same_books_def joined_account_def entry_postings_def fun_eq_iff)
  then have "fee_legs d' = fee_legs d" "is_clearing provider d' = is_clearing provider d" "entry_postings d' = entry_postings d" for provider
    by (simp_all add: fee_legs_def is_clearing_def fun_eq_iff Let_def)
  then have "entry_captures provider d' = entry_captures provider d" for provider
    by (intro ext) (simp add: entry_captures_def)
  then show ?thesis using s by (simp add: captures_kept_def capture_rows_def same_books_def)
qed

lemma joined_account_extends:
  assumes "accounts_ok d'" "db_accounts d' = db_accounts d @ as" "p_AccountID p \<in> a_ID ` set (db_accounts d)"
  shows "joined_account d' p P = joined_account d p P"
proof -
  have "a_ID ` set (db_accounts d) \<inter> a_ID ` set as = {}" using assms(1,2) by (simp add: accounts_ok_def)
  then have "a_ID b \<noteq> p_AccountID p" if "b \<in> set as" for b
    using assms(3) imageI [OF that, of a_ID] by (metis disjoint_iff)
  then show ?thesis by (auto simp: joined_account_def assms(2) list_ex_iff)
qed

lemma entry_postings_extends:
  assumes "ledger_extends d d'" "e \<in> set (db_entries d)"
  shows "entry_postings d' (je_ID e) = entry_postings d (je_ID e)"
proof -
  obtain es ps where e: "db_entries d' = db_entries d @ es" "db_postings d' = db_postings d @ ps"
    "\<forall>p \<in> set ps. pr_EntryID p \<in> je_ID ` set es" "je_ID ` set es \<inter> je_ID ` set (db_entries d) = {}"
    using assms(1) by (auto simp: ledger_extends_def)
  then have "filter (\<lambda>r. pr_EntryID r = je_ID e) ps = []" using assms(2) by (auto simp: filter_empty_conv)
  then show ?thesis by (simp add: entry_postings_def e(2))
qed

text \<open>An entry that is appended without a fee leg is no capture, and the captures of the entries before it stay what they
  were.\<close>

lemma captures_kept_entry:
  assumes b: "books_ok d" "accounts_ok d'" "db_accounts d' = db_accounts d @ as"
    and l: "ledger_extends d d'" "db_entries d' = db_entries d @ [e]" "db_payments d' = db_payments d"
    and f: "fee_legs d' (entry_postings d' (je_ID e)) = []"
  shows "captures_kept d d'"
proof -
  have old: "entry_captures provider d' x t = entry_captures provider d x t" if x: "x \<in> set (db_entries d)" for provider x t
  proof -
    note ps = entry_postings_extends [OF l(1) x]
    have "p_AccountID p \<in> a_ID ` set (db_accounts d)" if "p \<in> set (entry_postings d (je_ID x))" for p
      using that b(1) by (auto simp: entry_postings_def books_ok_def)
    then have j: "joined_account d' p P = joined_account d p P" if "p \<in> set (entry_postings d (je_ID x))" for p P
      using that joined_account_extends [OF b(2,3)] by blast
    have "fee_legs d' (entry_postings d (je_ID x)) = fee_legs d (entry_postings d (je_ID x))"
      by (auto simp: fee_legs_def Let_def j cong: filter_cong)
    moreover have "filter (is_clearing provider d') (entry_postings d (je_ID x)) = filter (is_clearing provider d) (entry_postings d (je_ID x))"
      by (auto simp: is_clearing_def j cong: filter_cong)
    ultimately show ?thesis by (simp add: entry_captures_def ps)
  qed
  have new: "entry_captures provider d' e t = []" for provider t by (simp add: entry_captures_def f)
  have "concat (map (\<lambda>x. concat (map (entry_captures provider d' x) (ts x))) (filter Q (db_entries d)))
      = concat (map (\<lambda>x. concat (map (entry_captures provider d x) (ts x))) (filter Q (db_entries d)))" for provider ts Q
    using old by (intro arg_cong [where f = concat] map_cong refl) auto
  then show ?thesis by (simp add: captures_kept_def capture_rows_def l(2,3) new)
qed

section \<open>The adjustment\<close>

definition drift_legs :: "Money \<Rightarrow> uuid \<Rightarrow> uuid \<Rightarrow> Money \<Rightarrow> Posting list" where
  "drift_legs delta clearing gainLoss amount =
     (if IsPositive delta then [mk_posting clearing Debit amount, mk_posting gainLoss Credit amount]
      else [mk_posting gainLoss Debit amount, mk_posting clearing Credit amount])"

lemma PostFXDrift_steps:
  assumes "PostFXDrift now b tx sk prov d = Inr (i, d')"
  obtains delta clearing d1 gainLoss d2 amount entry where
    "bk_Delta b = Some delta" "\<not> IsZero delta"
    "EnsureAccount (drift_account ''psp'' prov PurposeClearing AccountTypeAsset (m_currency delta) sk) d = Inr (clearing, d1)"
    "EnsureAccount (drift_account ''platform'' ''platform'' PurposeFXGainLoss AccountTypeRevenue (m_currency delta) sk) d1 = Inr (gainLoss, d2)"
    "(if IsPositive delta then Inr delta else Money_Neg delta) = Inr amount" "i = db_nextid d2"
    "NewEntry i now (Some tx) sk (''fx drift on settlement: '' @ bk_Detail b) now (drift_legs delta (a_ID clearing) (a_ID gainLoss) amount) = Inr entry"
    "RecordEntry entry (d2\<lparr>db_nextid := Suc i\<rparr>) = Inr d'"
proof -
  obtain delta where delta: "bk_Delta b = Some delta" "\<not> IsZero delta"
    using assms by (auto simp: PostFXDrift_def split: option.splits if_splits)
  show ?thesis
    using assms delta
    by (auto simp: PostFXDrift_def Let_def ebind_Inr_iff drift_legs_def split: if_splits intro!: that)
qed

lemma RecordEntry_frame:
  assumes "RecordEntry x d = Inr d'"
  shows "db_breaks d' = db_breaks d" "db_nextid d' = db_nextid d" "db_accounts d' = db_accounts d" "db_payments d' = db_payments d"
    "db_files d' = db_files d" "db_rows d' = db_rows d" "db_runs d' = db_runs d" "db_locks d' = db_locks d"
  using RecordEntry_Inr(1) [OF assms] by simp_all

definition recon_frame :: "db \<Rightarrow> db \<Rightarrow> bool" where
  "recon_frame d d' \<longleftrightarrow> db_payments d' = db_payments d \<and> db_files d' = db_files d \<and> db_rows d' = db_rows d
     \<and> db_locks d' = db_locks d \<and> db_runs d' = db_runs d \<and> db_nextid d \<le> db_nextid d'"

lemma recon_frame_trans: "recon_frame d d1 \<Longrightarrow> recon_frame d1 d2 \<Longrightarrow> recon_frame d d2"
  by (simp add: recon_frame_def)

lemma recon_frame_refl [simp]: "recon_frame d d"
  by (simp add: recon_frame_def)

lemma EnsureAccount_recon:
  assumes "EnsureAccount acct d = Inr (a, d')"
  shows "recon_frame d d'" "db_breaks d' = db_breaks d" "db_entries d' = db_entries d" "db_postings d' = db_postings d"
    "\<exists>as. db_accounts d' = db_accounts d @ as" "a \<in> set (db_accounts d')" "a_Purpose a = a_Purpose acct"
  using EnsureAccount_Inr [OF assms] by (auto simp: recon_frame_def natural_key_def)

lemma drift_net:
  assumes "(if IsPositive delta then Inr delta else Money_Neg delta) = Inr amount" "clearing \<noteq> gainLoss"
  shows "(\<Sum>p \<leftarrow> filter (\<lambda>p. p_AccountID p = clearing) (drift_legs delta clearing gainLoss amount). posting_delta p) = minor delta"
    "(\<Sum>p \<leftarrow> filter (\<lambda>p. p_AccountID p = gainLoss) (drift_legs delta clearing gainLoss amount). posting_delta p) = - minor delta"
    "\<forall>p \<in> set (drift_legs delta clearing gainLoss amount). m_currency (p_Amount p) = m_currency delta \<and> p_AccountID p \<in> {clearing, gainLoss}"
proof -
  have "minor amount = \<bar>minor delta\<bar> \<and> m_currency amount = m_currency delta"
    using assms(1) in64_sint [of "m_amount delta"] by (auto simp: IsPositive_def Money_Neg_eq in64_def split: if_splits)
  then show "(\<Sum>p \<leftarrow> filter (\<lambda>p. p_AccountID p = clearing) (drift_legs delta clearing gainLoss amount). posting_delta p) = minor delta"
    "(\<Sum>p \<leftarrow> filter (\<lambda>p. p_AccountID p = gainLoss) (drift_legs delta clearing gainLoss amount). posting_delta p) = - minor delta"
    "\<forall>p \<in> set (drift_legs delta clearing gainLoss amount). m_currency (p_Amount p) = m_currency delta \<and> p_AccountID p \<in> {clearing, gainLoss}"
    using assms(2) by (auto simp: drift_legs_def posting_delta_def IsPositive_def)
qed

lemma PostFXDrift_effect:
  assumes "PostFXDrift now b tx sk prov d = Inr (i, d')" "books_ok d"
  shows "recon_frame d d'" "db_breaks d' = db_breaks d" "ledger_extends d d'" "books_ok d'" "captures_kept d d'"
    "\<exists>e. db_entries d' = db_entries d @ [e] \<and> je_ID e = i \<and> je_TransactionID e = Some tx"
    "db_nextid d \<le> i" "i < db_nextid d'"
proof -
  obtain delta clearing d1 gainLoss d2 amount entry where *: "bk_Delta b = Some delta" "\<not> IsZero delta"
    "EnsureAccount (drift_account ''psp'' prov PurposeClearing AccountTypeAsset (m_currency delta) sk) d = Inr (clearing, d1)"
    "EnsureAccount (drift_account ''platform'' ''platform'' PurposeFXGainLoss AccountTypeRevenue (m_currency delta) sk) d1 = Inr (gainLoss, d2)"
    "(if IsPositive delta then Inr delta else Money_Neg delta) = Inr amount" "i = db_nextid d2"
    "NewEntry i now (Some tx) sk (''fx drift on settlement: '' @ bk_Detail b) now (drift_legs delta (a_ID clearing) (a_ID gainLoss) amount) = Inr entry"
    "RecordEntry entry (d2\<lparr>db_nextid := Suc i\<rparr>) = Inr d'"
    using assms(1) by (rule PostFXDrift_steps)
  let ?d2 = "d2\<lparr>db_nextid := Suc i\<rparr>"
  note e1 = EnsureAccount_recon [OF *(3)] and e2 = EnsureAccount_recon [OF *(4)]
    and n = NewEntry_Inr [OF *(7)] and r = RecordEntry_Inr [OF *(8)] and rf = RecordEntry_frame [OF *(8)]
  obtain as1 as2 where as: "db_accounts d1 = db_accounts d @ as1" "db_accounts d2 = db_accounts d1 @ as2" using e1(5) e2(5) by blast
  have acc: "db_accounts d' = db_accounts d @ (as1 @ as2)" using as rf(3) by simp
  have ok2: "accounts_ok d2"
    using EnsureAccount_accounts_ok [OF _ *(4)] EnsureAccount_accounts_ok [OF _ *(3)] assms(2) by (simp add: books_ok_def)
  then have ok': "accounts_ok d'" using rf(2,3) *(6) by (auto simp: accounts_ok_def less_SucI)
  have c: "clearing \<in> set (db_accounts d')" "gainLoss \<in> set (db_accounts d')" using e1(6) e2(6) as rf(3) by auto
  show frame: "recon_frame d d'" using e1(1) e2(1) rf *(6) by (auto simp: recon_frame_def)
  show "db_breaks d' = db_breaks d" using e1(2) e2(2) rf(1) by simp
  have "ledger_extends d ?d2" by (rule ledger_extends_same) (simp_all add: e1 e2)
  then show ext: "ledger_extends d d'" using RecordEntry_ledger [OF *(8)] ledger_extends_trans by blast
  show "db_nextid d \<le> i" "i < db_nextid d'" using e1(1) e2(1) *(6) rf(2) by (auto simp: recon_frame_def)
  define e where "e = \<lparr>je_ID = e_ID entry, je_TransactionID = e_TransactionID entry,
     je_ShardKey = e_ShardKey entry, je_Description = e_Description entry, je_OccurredAt = e_OccurredAt entry\<rparr>"
  have ents: "db_entries d' = db_entries d @ [e]" using r(1) e1(3) e2(3) by (simp add: e_def)
  then show "\<exists>e. db_entries d' = db_entries d @ [e] \<and> je_ID e = i \<and> je_TransactionID e = Some tx" using n by (auto simp: e_def)
  have posts: "db_postings d' = db_postings d @ map (\<lambda>p. \<lparr>pr_EntryID = i, pr_Posting = p\<rparr>) (e_Postings entry)"
    using r(1) e1(4) e2(4) n(2) by simp
  have i_new: "i \<notin> je_ID ` set (db_entries d)" using r(2) n(2) e1(3) e2(3) by simp
  have ids: "p_AccountID p \<in> {a_ID clearing, a_ID gainLoss}" if "p \<in> set (e_Postings entry)" for p
    using that n(1) by (auto simp: drift_legs_def split: if_splits)
  show books': "books_ok d'"
    using assms(2) ok' acc ents posts ids c n(2) unfolding books_ok_def by (fastforce simp: e_def)
  have ep: "entry_postings d' i = e_Postings entry"
  proof -
    have "filter (\<lambda>r. pr_EntryID r = i) (db_postings d) = []" using assms(2) i_new by (auto simp: books_ok_def filter_empty_conv)
    then show ?thesis by (simp add: entry_postings_def posts comp_def)
  qed
  have nofee: "\<not> joined_account d' p (\<lambda>a. a_Purpose a = PurposeFeeRevenue)" if "p \<in> set (e_Postings entry)" for p
  proof -
    have "a_Purpose a \<noteq> PurposeFeeRevenue" if "a \<in> set (db_accounts d')" "a_ID a = a_ID clearing \<or> a_ID a = a_ID gainLoss" for a
      using that accounts_ok_unique(1) [OF ok' that(1) c(1)] accounts_ok_unique(1) [OF ok' that(1) c(2)] e1(7) e2(7)
      by (auto simp: drift_account_def)
    then show ?thesis using ids [OF that] by (auto simp: joined_account_def list_ex_iff)
  qed
  have "filter (\<lambda>p. p_Direction p = Credit) (e_Postings entry) \<noteq> []" using n(1) by (auto simp: drift_legs_def)
  then have "fee_legs d' (entry_postings d' (je_ID e)) = []" using nofee n(2) by (auto simp: fee_legs_def ep e_def filter_empty_conv)
  then show "captures_kept d d'" using captures_kept_entry [OF assms(2) ok' acc ext ents] frame by (simp add: recon_frame_def)
qed

section \<open>One break\<close>

definition attributed :: "BreakRow \<Rightarrow> bool" where
  "attributed r \<longleftrightarrow> (is_open r \<or> br_ResolvedBy r \<noteq> None \<and> br_Note r \<noteq> None \<and> br_ResolvedAt r \<noteq> None)"

definition breaks_ok :: "db \<Rightarrow> bool" where
  "breaks_ok d \<longleftrightarrow> distinct (map identity (db_breaks d)) \<and> (\<forall>r \<in> set (db_breaks d). br_ID r < db_nextid d \<and> attributed r)"

lemma SaveBreak_cases:
  assumes "SaveBreak runID fileID b d = Inr (isNew, d')"
  obtains (old) "\<not> isNew" "d' = d" "(fileID, bk_Category b, bk_MatchKey b) \<in> identity ` set (db_breaks d)"
  | (fresh) "isNew" "d' = d\<lparr>db_breaks := db_breaks d @ [break_row (db_nextid d) runID fileID b], db_nextid := Suc (db_nextid d)\<rparr>"
      "(fileID, bk_Category b, bk_MatchKey b) \<notin> identity ` set (db_breaks d)"
  using assms by (auto simp: SaveBreak_def list_ex_iff image_iff split: if_splits) metis+

text \<open>The row a run leaves for a new break.\<close>

definition settled_row :: "time \<Rightarrow> BreakRow \<Rightarrow> BreakRow \<Rightarrow> bool" where
  "settled_row now r0 r \<longleftrightarrow>
     br_ID r = br_ID r0 \<and> identity r = identity r0 \<and> br_TransactionID r = br_TransactionID r0 \<and> br_DeltaMinor r = br_DeltaMinor r0
     \<and> (if AutoResolvable (br_Category r0)
        then br_Status r = StatusResolved \<and> br_ResolvedBy r = Some reconciler \<and> br_Note r \<noteq> None \<and> br_ResolvedAt r = Some now
        else r = r0)
     \<and> (br_AdjustmentEntryID r \<noteq> None \<longleftrightarrow> br_Category r0 = FXDrift)"

lemma identity_break_row [simp]: "identity (break_row i runID fileID b) = (fileID, bk_Category b, bk_MatchKey b)"
  "br_ID (break_row i runID fileID b) = i" "br_Category (break_row i runID fileID b) = bk_Category b"
  "br_Status (break_row i runID fileID b) = StatusOpen" "br_AdjustmentEntryID (break_row i runID fileID b) = None"
  by (simp_all add: identity_def break_row_def)

lemma ResolveTx_last:
  assumes "ResolveTx now i res adj d = Inr d'" "db_breaks d = rs @ [r]" "br_ID r = i" "\<forall>x \<in> set rs. br_ID x \<noteq> i"
    "rsl_Actor res \<noteq> []" "rsl_Note res \<noteq> []" "rsl_At res = now"
  shows "d' = d\<lparr>db_breaks := rs @ [r\<lparr>br_Status := rsl_Status res, br_Note := Some (rsl_Note res), br_ResolvedBy := Some (rsl_Actor res),
      br_ResolvedAt := Some now, br_AdjustmentEntryID := (case adj of None \<Rightarrow> br_AdjustmentEntryID r | Some e \<Rightarrow> Some e)\<rparr>]\<rparr>"
proof -
  let ?P = "\<lambda>x. br_ID x = i \<and> is_open x"
  have ex: "list_ex ?P (rs @ [r])" using assms(1,2) by (auto simp: ResolveTx_def Let_def ebind_Inr_iff split: if_splits)
  then have "is_open r" using assms(4) by (auto simp: list_ex_iff)
  moreover have "tupdate ?P f rs = rs" for f using assms(4) by (intro tupdate_id) auto
  ultimately show ?thesis
    using assms by (auto simp: ResolveTx_def Let_def ebind_Inr_iff nullif_def split: if_splits)
qed

lemma autoResolve_new:
  assumes a: "autoResolve now f b d1 = Inr (resolved, d2)"
    and d1: "d1 = d\<lparr>db_breaks := db_breaks d @ [break_row (db_nextid d) runID (f_ID f) b], db_nextid := Suc (db_nextid d)\<rparr>"
    and new: "(f_ID f, bk_Category b, bk_MatchKey b) \<notin> identity ` set (db_breaks d)" and ok: "breaks_ok d" "books_ok d"
  obtains r es where "settled_row now (break_row (db_nextid d) runID (f_ID f) b) r" "resolved = AutoResolvable (bk_Category b)"
    "db_breaks d2 = db_breaks d @ [r]" "db_entries d2 = db_entries d @ es"
    "map je_ID es = (case br_AdjustmentEntryID r of None \<Rightarrow> [] | Some e \<Rightarrow> [e])"
    "\<forall>e \<in> set es. je_TransactionID e = br_TransactionID r"
    "recon_frame d d2" "db_nextid d < db_nextid d2" "ledger_extends d d2" "books_ok d2" "captures_kept d d2"
proof -
  note result = that
  let ?row = "break_row (db_nextid d) runID (f_ID f) b"
  have same: "same_books d d1" by (simp add: same_books_def d1)
  have fr: "recon_frame d d1" "ledger_extends d d1" "books_ok d1" "captures_kept d d1"
    using ok(2) captures_kept_same [OF same] by (auto simp: recon_frame_def d1 books_ok_def accounts_ok_def less_Suc_eq intro: ledger_extends_same)
  have ids: "\<forall>x \<in> set (db_breaks d). br_ID x \<noteq> db_nextid d" using ok(1) by (auto simp: breaks_ok_def)
  have none: "tfind (\<lambda>r. identity r = (f_ID f, bk_Category b, bk_MatchKey b)) (db_breaks d) = None"
    using new by (auto simp: tfind_None_iff image_iff)
  then have bid: "BreakID (f_ID f) (bk_Category b) (bk_MatchKey b) d1 = Inr (db_nextid d)"
    by (simp add: BreakID_def d1 tfind_append)
  consider "\<not> AutoResolvable (bk_Category b)" | "bk_Category b = TimingCutoff" | "bk_Category b = FXDrift" by (auto simp: AutoResolvable_def)
  then show ?thesis
  proof cases
    case 1
    then have "resolved = False" "d2 = d1" using a by (auto simp: autoResolve_def)
    moreover have "bk_Category b \<noteq> FXDrift" using 1 by (auto simp: AutoResolvable_def)
    ultimately show ?thesis using result [of ?row "[]"] fr 1 by (simp add: settled_row_def) (simp add: d1)
  next
    case 2
    then have r: "resolved" "ResolveTx now (db_nextid d) \<lparr>rsl_Status = StatusResolved, rsl_Actor = reconciler,
        rsl_Note = ''settles in an adjacent window; no movement to account for'', rsl_At = now\<rparr> None d1 = Inr d2"
      using a bid by (auto simp: autoResolve_def AutoResolvable_def ebind_Inr_iff)
    have br: "db_breaks d1 = db_breaks d @ [?row]" by (simp add: d1)
    note d2 = ResolveTx_last [OF r(2) br _ ids]
    define r' where "r' = ?row\<lparr>br_Status := StatusResolved, br_Note := Some ''settles in an adjacent window; no movement to account for'',
        br_ResolvedBy := Some reconciler, br_ResolvedAt := Some now\<rparr>"
    have d2': "d2 = d1\<lparr>db_breaks := db_breaks d @ [r']\<rparr>" using d2 by (simp add: r'_def reconciler_def)
    have "same_books d1 d2" by (simp add: same_books_def d2')
    then have "captures_kept d d2" using captures_kept_same captures_kept_trans fr(4) by blast
    moreover have "books_ok d2" "ledger_extends d d2" "recon_frame d d2" using fr by (auto simp: d2' books_ok_def accounts_ok_def ledger_extends_def recon_frame_def)
    moreover have "settled_row now ?row r'" using 2 by (simp add: settled_row_def r'_def AutoResolvable_def identity_def)
    moreover have "br_AdjustmentEntryID r' = None" by (simp add: r'_def)
    ultimately show ?thesis using result [of r' "[]"] r(1) 2 by (simp add: d2' AutoResolvable_def) (simp add: d1)
  next
    case 3
    then obtain tx sk i d3 where p: "bk_TransactionID b = Some tx" "PostFXDrift now b tx sk (f_Provider f) d1 = Inr (i, d3)" "resolved"
      and rt: "ResolveTx now (db_nextid d) \<lparr>rsl_Status = StatusResolved, rsl_Actor = reconciler,
        rsl_Note = ''rate movement accounted to fx gain/loss ('' @ Money_String (the (bk_Delta b)) @ '')'', rsl_At = now\<rparr> (Some i) d3 = Inr d2"
      using a bid by (auto simp: autoResolve_def AutoResolvable_def ebind_Inr_iff split: option.splits)
    note e = PostFXDrift_effect [OF p(2) fr(3)]
    obtain en where en: "db_entries d3 = db_entries d1 @ [en]" "je_ID en = i" "je_TransactionID en = Some tx" using e(6) by blast
    have br: "db_breaks d3 = db_breaks d @ [?row]" using e(2) by (simp add: d1)
    define r' where "r' = ?row\<lparr>br_Status := StatusResolved, br_Note := Some (''rate movement accounted to fx gain/loss ('' @ Money_String (the (bk_Delta b)) @ '')''),
        br_ResolvedBy := Some reconciler, br_ResolvedAt := Some now, br_AdjustmentEntryID := Some i\<rparr>"
    have d2: "d2 = d3\<lparr>db_breaks := db_breaks d @ [r']\<rparr>" using ResolveTx_last [OF rt br _ ids] by (simp add: r'_def reconciler_def)
    have "same_books d3 d2" by (simp add: same_books_def d2)
    then have "captures_kept d d2" using captures_kept_same captures_kept_trans fr(4) e(5) by blast
    moreover have "ledger_extends d d2" using ledger_extends_trans [OF fr(2) e(3)] by (auto simp: d2 ledger_extends_def)
    moreover have "books_ok d2" using e(4) by (simp add: d2 books_ok_def accounts_ok_def)
    moreover have "recon_frame d d2" using recon_frame_trans [OF fr(1) e(1)] by (simp add: d2 recon_frame_def)
    moreover have "settled_row now ?row r'" using 3 by (simp add: settled_row_def r'_def AutoResolvable_def identity_def)
    moreover have "br_AdjustmentEntryID r' = Some i" "br_TransactionID r' = Some tx" using p(1) by (simp_all add: r'_def break_row_def)
    moreover have "db_nextid d < db_nextid d2" using e(7,8) by (simp add: d2 d1)
    moreover have "db_entries d2 = db_entries d @ [en]" using en(1) by (simp add: d2 d1)
    ultimately show ?thesis using result [of r' "[en]"] p(3) 3 en(2,3) by (simp add: d2 AutoResolvable_def)
  qed
qed

section \<open>The whole transaction\<close>

lemma sum_bump: "sum_list (map snd (bump k (n :: int) xs)) = sum_list (map snd xs) + n"
  by (induction k n xs rule: bump.induct) auto

definition adjustments :: "BreakRow list \<Rightarrow> uuid list" where
  "adjustments rs = concat (map (\<lambda>r. case br_AdjustmentEntryID r of None \<Rightarrow> [] | Some e \<Rightarrow> [e]) rs)"

text \<open>What a run appends: \<open>new\<close> breaks, each for a difference it found, and \<open>es\<close> entries.\<close>

definition run_appends :: "time \<Rightarrow> uuid \<Rightarrow> uuid \<Rightarrow> Break list \<Rightarrow> BreakRow list \<Rightarrow> JournalRow list \<Rightarrow> db \<Rightarrow> db \<Rightarrow> bool" where
  "run_appends now runID fileID found new es d d' \<longleftrightarrow>
     db_breaks d' = db_breaks d @ new \<and> db_entries d' = db_entries d @ es
     \<and> (\<forall>r \<in> set new. \<exists>b \<in> set found. \<exists>i. settled_row now (break_row i runID fileID b) r)
     \<and> map je_ID es = adjustments new
     \<and> (\<forall>b \<in> set found. (fileID, bk_Category b, bk_MatchKey b) \<in> identity ` set (db_breaks d'))"

definition run_keeps :: "db \<Rightarrow> db \<Rightarrow> bool" where
  "run_keeps d d' \<longleftrightarrow> recon_frame d d' \<and> ledger_extends d d' \<and> captures_kept d d' \<and> books_ok d' \<and> breaks_ok d'"

definition report_adds :: "Break list \<Rightarrow> BreakRow list \<Rightarrow> Report \<Rightarrow> Report \<Rightarrow> bool" where
  "report_adds found new rep rep' \<longleftrightarrow> rp_RunID rep' = rp_RunID rep \<and> rp_FileID rep' = rp_FileID rep \<and> rp_Matched rep' = rp_Matched rep
     \<and> rp_NewBreaks rep' = rp_NewBreaks rep + int (length new)
     \<and> rp_AutoResolved rep' = rp_AutoResolved rep + int (length (filter (\<lambda>r. AutoResolvable (br_Category r)) new))
     \<and> Report_Total rep' = Report_Total rep + int (length found)"

lemma breaks_ok_append:
  assumes "breaks_ok d" "db_breaks d' = db_breaks d @ [r]" "br_ID r = db_nextid d" "db_nextid d < db_nextid d'" "attributed r"
    "identity r \<notin> identity ` set (db_breaks d)"
  shows "breaks_ok d'"
  using assms by (auto simp: breaks_ok_def)

lemma settled_row_attributed: "settled_row now (break_row i runID fileID b) r \<Longrightarrow> attributed r"
  by (auto simp: settled_row_def attributed_def is_open_def break_row_def split: if_splits)

lemma reconcile_loop_effect:
  assumes "reconcile_loop now f bs rep d = (rep', Inr d')" "breaks_ok d" "books_ok d"
  shows "\<exists>new es. run_appends now (rp_RunID rep) (f_ID f) bs new es d d' \<and> run_keeps d d' \<and> report_adds bs new rep rep'"
  using assms
proof (induction bs arbitrary: rep d)
  case Nil
  then show ?case
    by (auto simp: run_appends_def run_keeps_def report_adds_def adjustments_def captures_kept_def)
next
  case (Cons b bs)
  let ?key = "(f_ID f, bk_Category b, bk_MatchKey b)"
  obtain isNew d1 where s: "SaveBreak (rp_RunID rep) (f_ID f) b d = Inr (isNew, d1)"
    using Cons.prems(1) by (auto split: sum.splits)
  define rep1 where "rep1 = rep\<lparr>rp_ByCategory := bump (bk_Category b) 1 (rp_ByCategory rep),
     rp_Exposure := (case bk_Delta b of None \<Rightarrow> rp_Exposure rep | Some delta \<Rightarrow> bump (m_currency delta) (absMinor delta) (rp_Exposure rep))\<rparr>"
  have rep1: "report_adds [b] [] rep rep1" by (simp add: report_adds_def rep1_def Report_Total_def sum_bump)
  from s show ?case
  proof (cases rule: SaveBreak_cases)
    case old
    then have "reconcile_loop now f bs rep1 d = (rep', Inr d')" using Cons.prems(1) s by (simp add: rep1_def)
    from Cons.IH [OF this Cons.prems(2,3)] obtain new es where
      ih: "run_appends now (rp_RunID rep1) (f_ID f) bs new es d d'" "run_keeps d d'" "report_adds bs new rep1 rep'" by blast
    have "run_appends now (rp_RunID rep) (f_ID f) (b # bs) new es d d'"
      using ih(1) old(3) rep1 by (auto simp: run_appends_def report_adds_def)
    moreover have "report_adds (b # bs) new rep rep'" using ih(3) rep1 by (auto simp: report_adds_def)
    ultimately show ?thesis using ih(2) by blast
  next
    case fresh
    then obtain resolved d2 where a: "autoResolve now f b d1 = Inr (resolved, d2)"
      using Cons.prems(1) s by (auto simp: Let_def split: sum.splits)
    define rep2 where "rep2 = (if resolved then rep1\<lparr>rp_NewBreaks := rp_NewBreaks rep1 + 1, rp_AutoResolved := rp_AutoResolved rep1 + 1\<rparr>
        else rep1\<lparr>rp_NewBreaks := rp_NewBreaks rep1 + 1\<rparr>)"
    have loop: "reconcile_loop now f bs rep2 d2 = (rep', Inr d')" using Cons.prems(1) s a fresh(1) by (auto simp: rep1_def rep2_def Let_def)
    obtain r es1 where r: "settled_row now (break_row (db_nextid d) (rp_RunID rep) (f_ID f) b) r" "resolved = AutoResolvable (bk_Category b)"
      "db_breaks d2 = db_breaks d @ [r]" "db_entries d2 = db_entries d @ es1"
      "map je_ID es1 = (case br_AdjustmentEntryID r of None \<Rightarrow> [] | Some e \<Rightarrow> [e])"
      and k: "recon_frame d d2" "db_nextid d < db_nextid d2" "ledger_extends d d2" "books_ok d2" "captures_kept d d2"
      using autoResolve_new [OF a fresh(2,3) Cons.prems(2,3)] by metis
    have id: "br_ID r = db_nextid d" "identity r = ?key" "br_Category r = bk_Category b"
    proof -
      show "br_ID r = db_nextid d" "identity r = ?key" using r(1) by (simp_all add: settled_row_def)
      then show "br_Category r = bk_Category b" by (simp add: identity_def)
    qed
    have ok2: "breaks_ok d2" using breaks_ok_append [OF Cons.prems(2) r(3) id(1) k(2) settled_row_attributed [OF r(1)]] fresh(3) id(2) by simp
    from Cons.IH [OF loop ok2 k(4)] obtain new es where
      ih: "run_appends now (rp_RunID rep2) (f_ID f) bs new es d2 d'" "run_keeps d2 d'" "report_adds bs new rep2 rep'" by blast
    have run: "rp_RunID rep2 = rp_RunID rep" by (simp add: rep2_def rep1_def)
    have "run_appends now (rp_RunID rep) (f_ID f) (b # bs) (r # new) (es1 @ es) d d'"
    proof -
      have br: "db_breaks d' = db_breaks d @ r # new" using ih(1) r(3) by (simp add: run_appends_def)
      have "?key \<in> identity ` set (db_breaks d')" using id(2) imageI [of r "set (db_breaks d')" identity] br by simp
      moreover have "\<forall>x \<in> set (r # new). \<exists>c \<in> set (b # bs). \<exists>i. settled_row now (break_row i (rp_RunID rep) (f_ID f) c) x"
        using ih(1) r(1) unfolding run run_appends_def by auto
      moreover have "map je_ID (es1 @ es) = adjustments (r # new)" using ih(1) r(5) by (simp add: run_appends_def adjustments_def)
      moreover have "db_entries d' = db_entries d @ (es1 @ es)" using ih(1) r(4) by (simp add: run_appends_def)
      ultimately show ?thesis using ih(1) br by (simp add: run_appends_def)
    qed
    moreover have "run_keeps d d'"
      using ih(2) k recon_frame_trans ledger_extends_trans captures_kept_trans unfolding run_keeps_def by blast
    moreover have "report_adds (b # bs) (r # new) rep rep'"
      using ih(3) rep1 r(2) id(3) by (auto simp: report_adds_def rep2_def Report_Total_def split: if_splits)
    ultimately show ?thesis by blast
  qed
qed

text \<open>When every difference is on record, the loop counts and changes nothing.\<close>

lemma reconcile_loop_again:
  assumes "\<forall>b \<in> set bs. (f_ID f, bk_Category b, bk_MatchKey b) \<in> identity ` set (db_breaks d)"
    "\<forall>b \<in> set bs. bk_Category b \<in> set All_categories \<and> (currencyOf b = [] \<or> valid_currency (currencyOf b))"
  shows "\<exists>rep'. reconcile_loop now f bs rep d = (rep', Inr d) \<and> report_adds bs [] rep rep'"
  using assms
proof (induction bs arbitrary: rep)
  case (Cons b bs)
  let ?rep1 = "rep\<lparr>rp_ByCategory := bump (bk_Category b) 1 (rp_ByCategory rep),
     rp_Exposure := (case bk_Delta b of None \<Rightarrow> rp_Exposure rep | Some delta \<Rightarrow> bump (m_currency delta) (absMinor delta) (rp_Exposure rep))\<rparr>"
  have "SaveBreak (rp_RunID rep) (f_ID f) b d = Inr (False, d)"
    using Cons.prems by (auto simp: SaveBreak_def list_ex_iff image_iff)
  then have "reconcile_loop now f (b # bs) rep d = reconcile_loop now f bs ?rep1 d" by simp
  moreover obtain rep' where "reconcile_loop now f bs ?rep1 d = (rep', Inr d)" "report_adds bs [] ?rep1 rep'" using Cons by fastforce
  ultimately show ?case by (auto simp: report_adds_def Report_Total_def sum_bump)
qed (simp add: report_adds_def)

lemma StartRun_Inr:
  assumes "StartRun fileID actor d = Inr (i, d')"
  shows "i = db_nextid d" "d' = d\<lparr>db_runs := db_runs d @ [\<lparr>rr_ID = i, rr_FileID = fileID, rr_Actor = actor, rr_Matched = 0, rr_Breaks = 0,
        rr_FinishedAt = None\<rparr>], db_nextid := Suc i\<rparr>" "\<exists>f \<in> set (db_files d). f_ID f = fileID"
  using assms by (auto simp: StartRun_def Let_def list_ex_iff split: if_splits)

end
