(* ===== verification/ReconClaims.thy ===== *)
theory ReconClaims
  imports ReconSafety
begin

text \<open>
  The properties of a reconciliation run as an operator sees it, over any interleaving with other processes
  that keep the books and the breaks well formed: a run records each difference once and accounts for each
  rate movement once, running it again changes nothing, a file is stored once and read back as it was, and
  the entry posted for a movement is exactly that movement.
\<close>

section \<open>Other processes\<close>

definition recon_inv :: "db \<Rightarrow> bool" where
  "recon_inv d \<longleftrightarrow> breaks_ok d \<and> books_ok d \<and> ledger_ok d"

definition recon_env :: "db list \<Rightarrow> db list \<Rightarrow> bool" where
  "recon_env dbs dbs' \<longleftrightarrow> length dbs' = length dbs \<and> (list_all recon_inv dbs \<longrightarrow> list_all recon_inv dbs')"

interpretation recon: environment recon_env
  by unfold_locales (auto simp: recon_env_def)

lemma list_all_update: "list_all P xs \<Longrightarrow> P x \<Longrightarrow> list_all P (xs[i := x])"
  by (metis list_all_iff insertE set_update_subset_insert subsetD)

lemma list_all_nth: "list_all P xs \<Longrightarrow> i < length xs \<Longrightarrow> P (xs ! i)"
  by (simp add: list_all_length)

section \<open>The transaction of a run\<close>

lemma run_keeps_refl_start:
  assumes "books_ok d" "breaks_ok d" "d1 = d\<lparr>db_runs := rs, db_nextid := Suc (db_nextid d)\<rparr>"
  shows "books_ok d1" "breaks_ok d1" "same_books d d1"
  using assms by (auto simp: books_ok_def breaks_ok_def accounts_ok_def same_books_def less_Suc_eq)

lemma reconcile_body_effect:
  assumes "reconcile_body now actor f found rep d = (rep', Inr d')" "books_ok d" "breaks_ok d"
  shows "\<exists>new es. run_appends now (rp_RunID rep') (f_ID f) found new es d d'
      \<and> report_adds found new (rep\<lparr>rp_RunID := rp_RunID rep'\<rparr>) rep'"
    "ledger_extends d d'" "captures_kept d d'" "books_ok d'" "breaks_ok d'"
    "db_payments d' = db_payments d" "db_files d' = db_files d" "db_rows d' = db_rows d" "db_locks d' = db_locks d"
    "\<exists>f' \<in> set (db_files d). f_ID f' = f_ID f"
proof -
  obtain runID d1 d2 where s: "StartRun (f_ID f) actor d = Inr (runID, d1)"
    and l: "reconcile_loop now f found (rep\<lparr>rp_RunID := runID\<rparr>) d1 = (rep', Inr d2)"
    and d': "d' = FinishRun now runID (rp_Matched rep') (Report_Total rep') d2"
    using assms(1) by (auto simp: reconcile_body_def split: sum.splits prod.splits)
  note st = StartRun_Inr [OF s]
  have d1: "d1 = d\<lparr>db_runs := db_runs d1, db_nextid := Suc (db_nextid d)\<rparr>" using st by simp
  note k = run_keeps_refl_start [OF assms(2,3) d1]
  obtain new es where e: "run_appends now runID (f_ID f) found new es d1 d2" "run_keeps d1 d2"
      "report_adds found new (rep\<lparr>rp_RunID := runID\<rparr>) rep'"
    using reconcile_loop_effect [OF l k(2,1)] by auto
  have run: "rp_RunID rep' = runID" using e(3) by (simp add: report_adds_def)
  have fin: "db_breaks d' = db_breaks d2" "db_entries d' = db_entries d2" "same_books d2 d'" "db_nextid d' = db_nextid d2"
    by (simp_all add: d' FinishRun_def same_books_def)
  have "run_appends now (rp_RunID rep') (f_ID f) found new es d d'"
  proof -
    have eq: "db_breaks d1 = db_breaks d" "db_entries d1 = db_entries d" using st(2) by simp_all
    show ?thesis using e(1) unfolding run run_appends_def fin(1,2) eq .
  qed
  then show "\<exists>new es. run_appends now (rp_RunID rep') (f_ID f) found new es d d'
      \<and> report_adds found new (rep\<lparr>rp_RunID := rp_RunID rep'\<rparr>) rep'" using e(3) run by blast
  have "ledger_extends d d1" using k(3) by (intro ledger_extends_same) (simp_all add: same_books_def)
  moreover have "ledger_extends d2 d'" using fin(3) by (intro ledger_extends_same) (simp_all add: same_books_def)
  ultimately show "ledger_extends d d'" using e(2) ledger_extends_trans unfolding run_keeps_def by blast
  show "captures_kept d d'"
    using captures_kept_same [OF k(3)] captures_kept_same [OF fin(3)] e(2) captures_kept_trans unfolding run_keeps_def by blast
  show "books_ok d'" using e(2) fin(3,4) by (simp add: run_keeps_def books_ok_def accounts_ok_def same_books_def)
  show "breaks_ok d'" using e(2) fin(1,4) by (simp add: run_keeps_def breaks_ok_def)
  have "recon_frame d1 d2" using e(2) by (simp add: run_keeps_def)
  then show "db_payments d' = db_payments d" "db_files d' = db_files d" "db_rows d' = db_rows d" "db_locks d' = db_locks d"
    using st(2) by (simp_all add: recon_frame_def d' FinishRun_def)
  show "\<exists>f' \<in> set (db_files d). f_ID f' = f_ID f" using st(3) by blast
qed

lemma reconcile_body_inv:
  assumes "reconcile_body now actor f found rep d = (rep', Inr d')" "commit_check d d' = Inr ()" "recon_inv d"
  shows "recon_inv d'"
  using reconcile_body_effect [OF assms(1)] ledger_ok_commit [OF _ _ assms(2)] assms(3) by (simp add: recon_inv_def)

section \<open>The run\<close>

lemma LoadFile_world:
  assumes "sched_ok recon_env w" "LoadFile p fileID w = (r, w')"
  shows "recon_env (w_dbs w) (w_dbs w')" "sched_ok recon_env w'" "r = Inr f \<Longrightarrow> f_ID f = fileID"
proof -
  obtain r1 w1 where q: "query_at p (load_header fileID) w = (r1, w1)" by fastforce
  note 1 = recon.query_at_rel [OF assms(1) q]
  have *: "recon_env (w_dbs w) (w_dbs w') \<and> sched_ok recon_env w' \<and> (r = Inr f \<longrightarrow> f_ID f = fileID)"
  proof (cases r1)
    case (Inl e)
    then show ?thesis using assms(2) q 1 by (auto simp: LoadFile_def)
  next
    case (Inr g)
    obtain r2 w2 where q2: "query_at p (loadRows fileID) w1 = (r2, w2)" by fastforce
    have g: "f_ID g = fileID" using 1(3) [OF Inr] by (auto simp: load_header_def split: option.splits dest: tfind_SomeD)
    note 2 = recon.query_at_rel [OF 1(2) q2]
    show ?thesis using assms(2) q q2 Inr g 2(1,2) 1(1) recon.R_trans by (auto simp: LoadFile_def split: sum.splits)
  qed
  then show "recon_env (w_dbs w) (w_dbs w')" "sched_ok recon_env w'" "r = Inr f \<Longrightarrow> f_ID f = fileID" by auto
qed

lemma lockFor_world:
  assumes "sched_ok recon_env w" "lockFor p row rcd w = (r, w')"
  shows "recon_env (w_dbs w) (w_dbs w')" "sched_ok recon_env w'"
proof -
  obtain r1 w1 where q: "query_at p (GetLock (lr_TransactionID rcd)) w = (r1, w1)" by fastforce
  note 1 = recon.query_at_rel [OF assms(1) q]
  have "recon_env (w_dbs w) (w_dbs w') \<and> sched_ok recon_env w'"
    using assms q 1(1,2) recon.R_refl by (auto simp: lockFor_def split: if_splits sum.splits)
  then show "recon_env (w_dbs w) (w_dbs w')" "sched_ok recon_env w'" by auto
qed

lemma classify_pairs_world:
  assumes "sched_ok recon_env w" "classify_pairs p tol pairs w = (r, w')"
  shows "recon_env (w_dbs w) (w_dbs w') \<and> sched_ok recon_env w'"
  using assms
proof (induction p tol pairs w arbitrary: r w' rule: classify_pairs.induct)
  case (1 p tol w)
  then show ?case using recon.R_refl by auto
next
  case (2 p tol row rcd pairs w)
  obtain r1 w1 where l: "lockFor p row rcd w = (r1, w1)" by fastforce
  note 1 = lockFor_world [OF 2(2) l]
  show ?case
  proof (cases "\<exists>lock b. r1 = Inr lock \<and> ClassifyPair tol row rcd lock = Inr b")
    case True
    then obtain lock b where lb: "r1 = Inr lock" "ClassifyPair tol row rcd lock = Inr b" by blast
    obtain r2 w2 where c: "classify_pairs p tol pairs w1 = (r2, w2)" by fastforce
    have "w' = w2" using 2(3) l lb c by (auto split: sum.splits)
    then show ?thesis using 2(1) [OF l [symmetric, unfolded lb] refl lb(2) 1(2) c] 1 recon.R_trans by blast
  next
    case False
    then have "w' = w1" using 2(3) l by (auto split: sum.splits)
    then show ?thesis using 1 by blast
  qed
qed

text \<open>What the comparison of a file with the books must find, stated without the code: the verdict on each pair with the lock that is
  on file when the pair's turn comes (a lock is looked up for a converted row only), and a break for every row and
  record that is left over.\<close>

definition lock_on_file :: "LedgerRecord \<Rightarrow> db \<Rightarrow> Lock option" where
  "lock_on_file rcd d = (case GetLock (lr_TransactionID rcd) d of Inl _ \<Rightarrow> None | Inr l \<Rightarrow> Some l)"

fun verdicts :: "nat \<Rightarrow> Tolerances \<Rightarrow> (Row \<times> LedgerRecord) list \<Rightarrow> world \<Rightarrow> Break option result list" where
  "verdicts p tol [] w = []"
| "verdicts p tol ((row, rcd) # pairs) w =
     ClassifyPair tol row rcd (if HasFX row then lock_on_file rcd (seen w ! p) else None)
     # verdicts p tol pairs (if HasFX row then snd (turn w) else w)"

definition differences :: "ReconService \<Rightarrow> File \<Rightarrow> MatchResult \<Rightarrow> Break option list \<Rightarrow> Break list" where
  "differences svc f m decided = map the (filter (\<lambda>b. b \<noteq> None) decided)
     @ map ClassifyDuplicate (mr_DuplicateRows m) @ map ClassifyUnmatchedRow (mr_UnmatchedRows m)
     @ map (\<lambda>r. ClassifyUnmatchedRecord (rc_codec svc) r f) (mr_UnmatchedRecords m)"

lemma classify_pairs_verdicts:
  "classify_pairs p tol pairs w = (Inr bs, w') \<Longrightarrow>
   \<exists>decided. verdicts p tol pairs w = map Inr decided \<and> bs = map the (filter (\<lambda>b. b \<noteq> None) decided)"
proof (induction p tol pairs w arbitrary: bs w' rule: classify_pairs.induct)
  case (2 p tol row rcd pairs w)
  obtain lock w1 b bs' where l: "lockFor p row rcd w = (Inr lock, w1)" and b: "ClassifyPair tol row rcd lock = Inr b"
    and c: "classify_pairs p tol pairs w1 = (Inr bs', w')" and bs: "bs = (case b of None \<Rightarrow> [] | Some x \<Rightarrow> [x]) @ bs'"
    using 2(2) by (auto split: prod.splits sum.splits)
  have at: "lock = (if HasFX row then lock_on_file rcd (seen w ! p) else None) \<and> w1 = (if HasFX row then snd (turn w) else w)"
    using l by (auto simp: lockFor_def query_at_def lock_on_file_def seen_def split: if_splits prod.splits sum.splits)
  obtain decided where "verdicts p tol pairs w1 = map Inr decided" "bs' = map the (filter (\<lambda>b. b \<noteq> None) decided)"
    using 2(1) [OF l [symmetric] refl b c] by blast
  then show ?case using at b bs by (intro exI [of _ "b # decided"]) (auto split: option.splits)
qed simp

text \<open>The parts of a successful run: what it read, and the transaction that committed.\<close>

definition run_reads :: "ReconService \<Rightarrow> uuid \<Rightarrow> world \<Rightarrow> File \<Rightarrow> MatchResult \<Rightarrow> Break list \<Rightarrow> world \<Rightarrow> bool" where
  "run_reads svc fileID w f m found w3 \<longleftrightarrow>
     (\<exists>w1 records w2. LoadFile (rc_db svc) fileID w = (Inr f, w1)
        \<and> query_at (rc_db svc) (CapturedInWindow (f_Provider f) (f_PeriodStart f) (f_PeriodEnd f)) w1 = (Inr records, w2)
        \<and> m = Match (f_Rows f) records \<and> classifyAll svc f m w2 = (Inr found, w3)
        \<and> (\<exists>decided. verdicts (rc_db svc) (rc_tolerances svc) (mr_Matched m) w2 = map Inr decided
             \<and> found = differences svc f m decided))"

lemma Reconcile_commits:
  assumes "sched_ok recon_env w" "Reconcile svc now fileID actor w = (Inr rep, w')"
  obtains f m found w3 d' where "run_reads svc fileID w f m found w3" "f_ID f = fileID" "recon_env (w_dbs w) (seen w3)" "rc_db svc < length (seen w3)"
    "reconcile_body now actor f found (empty_report fileID (int (length (mr_Matched m)))) (seen w3 ! rc_db svc) = (rep, Inr d')"
    "commit_check (seen w3 ! rc_db svc) d' = Inr ()" "w_dbs w' = (seen w3)[rc_db svc := d']"
proof -
  let ?p = "rc_db svc"
  obtain f w1 where l: "LoadFile ?p fileID w = (Inr f, w1)" using assms(2) by (auto simp: Reconcile_def split: prod.splits sum.splits)
  obtain records w2 where c: "query_at ?p (CapturedInWindow (f_Provider f) (f_PeriodStart f) (f_PeriodEnd f)) w1 = (Inr records, w2)"
    using assms(2) l by (auto simp: Reconcile_def split: prod.splits sum.splits)
  let ?m = "Match (f_Rows f) records"
  obtain found w3 where a: "classifyAll svc f ?m w2 = (Inr found, w3)"
    using assms(2) l c by (auto simp: Reconcile_def Let_def split: prod.splits sum.splits)
  let ?rep0 = "empty_report fileID (int (length (mr_Matched ?m)))"
  have t: "tx_at ?p (reconcile_body now actor f found) ?rep0 w3 = (rep, Inr (), w')"
    using assms(2) l c a by (auto simp: Reconcile_def Let_def split: prod.splits sum.splits)
  note 1 = LoadFile_world [OF assms(1) l] and 2 = recon.query_at_rel [OF LoadFile_world(2) [OF assms(1) l] c]
  obtain bs where cp: "classify_pairs ?p (rc_tolerances svc) (mr_Matched ?m) w2 = (Inr bs, w3)"
    and found: "found = bs @ unpaired_breaks (rc_codec svc) f ?m"
    using a by (auto simp: classifyAll_def split: prod.splits sum.splits)
  have reads: "run_reads svc fileID w f ?m found w3"
    using l c a classify_pairs_verdicts [OF cp] found unfolding run_reads_def differences_def unpaired_breaks_def by auto
  note 3 = classify_pairs_world [OF 2(2) cp]
  have R: "recon_env (w_dbs w) (seen w3)" using 1(1) 2(1) 3 recon.seen_rel recon.R_trans by blast
  obtain d' where "?p < length (seen w3)" "reconcile_body now actor f found ?rep0 (seen w3 ! ?p) = (rep, Inr d')"
      "commit_check (seen w3 ! ?p) d' = Inr ()" "w_dbs w' = (seen w3)[?p := d']"
    by (rule tx_at_seen [OF t])
  then show ?thesis using that [OF reads _ R] 1(3) [OF refl] by blast
qed

text \<open>C20: a run records each difference once and accounts for each rate movement once. The differences it finds are exactly the
  verdict on each matched pair, with the rate lock that is on file when the pair is looked at, and one for every duplicate row,
  unmatched row and unmatched record. When the run reports success, then, whatever other processes do meanwhile as long as they keep
  the books and the breaks well formed, the breaks of its database are those its transaction found there, untouched, followed by one new row for each
  difference that was not on record; every difference it found is now on record, and no identity twice. A new row is open,
  unless its category may be closed without a person: then it is resolved by the reconciler with a reason, and exactly the
  rate movements carry an adjustment, each its own new journal entry and the only entries posted. The counts of the report
  are those numbers, the ledger stays balanced, and no entry the run posted will be read as a capture.\<close>

theorem Reconcile_records_once:
  assumes "sched_ok recon_env w" "list_all recon_inv (w_dbs w)" "Reconcile svc now fileID actor w = (Inr rep, w')"
  shows "\<exists>f m found w3 new es d d'. run_reads svc fileID w f m found w3
    \<and> d = seen w3 ! rc_db svc \<and> rc_db svc < length (seen w3) \<and> w_dbs w' = (seen w3)[rc_db svc := d']
    \<and> run_appends now (rp_RunID rep) fileID found new es d d'
    \<and> distinct (map identity (db_breaks d')) \<and> distinct (adjustments new)
    \<and> rp_Matched rep = int (length (mr_Matched m))
    \<and> rp_NewBreaks rep = int (length new) \<and> rp_AutoResolved rep = int (length (filter (\<lambda>r. AutoResolvable (br_Category r)) new))
    \<and> Report_Total rep = int (length found)
    \<and> captures_kept d d' \<and> ledger_ok d' \<and> list_all recon_inv (w_dbs w')"
proof -
  obtain f m found w3 d' where reads: "run_reads svc fileID w f m found w3"
    and r: "f_ID f = fileID" "recon_env (w_dbs w) (seen w3)" "rc_db svc < length (seen w3)"
    "reconcile_body now actor f found (empty_report fileID (int (length (mr_Matched m)))) (seen w3 ! rc_db svc) = (rep, Inr d')"
    "commit_check (seen w3 ! rc_db svc) d' = Inr ()" "w_dbs w' = (seen w3)[rc_db svc := d']"
    by (rule Reconcile_commits [OF assms(1,3)])
  let ?d = "seen w3 ! rc_db svc"
  have all: "list_all recon_inv (seen w3)" using r(2) assms(2) by (simp add: recon_env_def)
  have inv: "recon_inv ?d" using list_all_nth [OF all r(3)] .
  then have ok: "books_ok ?d" "breaks_ok ?d" by (simp_all add: recon_inv_def)
  note e = reconcile_body_effect [OF r(4) ok] and inv' = reconcile_body_inv [OF r(4,5) inv]
  obtain new es where n: "run_appends now (rp_RunID rep) (f_ID f) found new es ?d d'"
      "report_adds found new (empty_report fileID (int (length (mr_Matched m)))\<lparr>rp_RunID := rp_RunID rep\<rparr>) rep"
    using e(1) by blast
  have counts: "rp_Matched rep = int (length (mr_Matched m))" "rp_NewBreaks rep = int (length new)"
    "rp_AutoResolved rep = int (length (filter (\<lambda>r. AutoResolvable (br_Category r)) new))"
    "Report_Total rep = int (length found)" using n(2) by (simp_all add: report_adds_def empty_report_def Report_Total_def)
  obtain es' where le: "db_entries d' = db_entries ?d @ es'" "distinct (map je_ID es')"
    using e(2) by (auto simp: ledger_extends_def)
  have "distinct (adjustments new)" using le n(1) by (simp add: run_appends_def)
  moreover have "distinct (map identity (db_breaks d'))" "ledger_ok d'" using inv' by (simp_all add: recon_inv_def breaks_ok_def)
  moreover have "list_all recon_inv (w_dbs w')" using list_all_update [OF all inv'] r(6) by simp
  ultimately show ?thesis using reads r(1,3,6) n(1) counts e(3) by blast
qed

section \<open>Running it again\<close>

text \<open>With no other process about, what a run finds is a function of the database it reads.\<close>

definition quiet_lock :: "Row \<Rightarrow> LedgerRecord \<Rightarrow> db \<Rightarrow> Lock option result" where
  "quiet_lock row rcd d =
     (if \<not> HasFX row then Inr None
      else case GetLock (lr_TransactionID rcd) d of Inl e \<Rightarrow> (if e = ErrLockNotFound then Inr None else Inl e) | Inr l \<Rightarrow> Inr (Some l))"

fun quiet_pairs :: "Tolerances \<Rightarrow> (Row \<times> LedgerRecord) list \<Rightarrow> db \<Rightarrow> Break list result" where
  "quiet_pairs tol [] d = Inr []"
| "quiet_pairs tol ((row, rcd) # pairs) d =
     ebind (quiet_lock row rcd d) (\<lambda>lock.
     ebind (ClassifyPair tol row rcd lock) (\<lambda>b.
     ebind (quiet_pairs tol pairs d) (\<lambda>bs. Inr ((case b of None \<Rightarrow> [] | Some x \<Rightarrow> [x]) @ bs))))"

definition quiet_plan :: "ReconService \<Rightarrow> uuid \<Rightarrow> db \<Rightarrow> (File \<times> MatchResult \<times> Break list) result" where
  "quiet_plan svc fileID d =
     ebind (load_header fileID d) (\<lambda>f0.
     ebind (loadRows fileID d) (\<lambda>rows.
     let f = f0\<lparr>f_Rows := rows\<rparr> in
     ebind (CapturedInWindow (f_Provider f) (f_PeriodStart f) (f_PeriodEnd f) d) (\<lambda>records.
     let m = Match (f_Rows f) records in
     ebind (quiet_pairs (rc_tolerances svc) (mr_Matched m) d) (\<lambda>bs.
     Inr (f, m, bs @ unpaired_breaks (rc_codec svc) f m)))))"

lemma query_at_quiet: "w_sched w = [] \<Longrightarrow> p < length (w_dbs w) \<Longrightarrow> query_at p q w = (q (w_dbs w ! p), w)"
  by (simp add: query_at_def turn_def)

lemma classify_pairs_quiet:
  "w_sched w = [] \<Longrightarrow> p < length (w_dbs w) \<Longrightarrow> classify_pairs p tol pairs w = (quiet_pairs tol pairs (w_dbs w ! p), w)"
proof (induction p tol pairs w rule: classify_pairs.induct)
  case (2 p tol row rcd pairs w)
  have l: "lockFor p row rcd w = (quiet_lock row rcd (w_dbs w ! p), w)"
    using 2(2,3) by (auto simp: lockFor_def quiet_lock_def query_at_quiet split: sum.splits)
  show ?case
  proof (cases "\<exists>lock b. quiet_lock row rcd (w_dbs w ! p) = Inr lock \<and> ClassifyPair tol row rcd lock = Inr b")
    case True
    then obtain lock b where lb: "quiet_lock row rcd (w_dbs w ! p) = Inr lock" "ClassifyPair tol row rcd lock = Inr b" by blast
    then have "classify_pairs p tol pairs w = (quiet_pairs tol pairs (w_dbs w ! p), w)" using 2 l by auto
    then show ?thesis using l lb by (cases "quiet_pairs tol pairs (w_dbs w ! p)") auto
  next
    case False
    then show ?thesis using l by (auto split: sum.splits)
  qed
qed simp

lemma Reconcile_quiet:
  assumes "w_sched w = []" "rc_db svc < length (w_dbs w)"
  shows "Reconcile svc now fileID actor w =
    (case quiet_plan svc fileID (w_dbs w ! rc_db svc) of
       Inl e \<Rightarrow> (Inl e, w)
     | Inr (f, m, found) \<Rightarrow>
         (case tx_at (rc_db svc) (reconcile_body now actor f found) (empty_report fileID (int (length (mr_Matched m)))) w of
            (_, Inl e, w4) \<Rightarrow> (Inl e, w4)
          | (rep, Inr _, w4) \<Rightarrow> (Inr rep, w4)))"
  using assms
  by (auto simp: Reconcile_def LoadFile_def query_at_quiet classifyAll_def classify_pairs_quiet quiet_plan_def Let_def
      split: sum.splits)

lemma quiet_pairs_cong: "db_locks d' = db_locks d \<Longrightarrow> quiet_pairs tol pairs d' = quiet_pairs tol pairs d"
proof (induction tol pairs d rule: quiet_pairs.induct)
  case (2 tol row rcd pairs d)
  have "quiet_lock row rcd d' = quiet_lock row rcd d" using 2(2) by (simp add: quiet_lock_def GetLock_def)
  then show ?case using 2 by (simp only: quiet_pairs.simps)
qed simp

lemma quiet_plan_cong:
  assumes "db_files d' = db_files d" "db_rows d' = db_rows d" "db_locks d' = db_locks d" "captures_kept d d'"
  shows "quiet_plan svc fileID d' = quiet_plan svc fileID d"
proof -
  have "load_header fileID d' = load_header fileID d" "loadRows fileID d' = loadRows fileID d"
    using assms(1,2) by (simp_all add: load_header_def loadRows_def)
  moreover have "CapturedInWindow a b c d' = CapturedInWindow a b c d" for a b c
    using assms(4) by (simp add: CapturedInWindow_def captures_kept_def)
  ultimately show ?thesis unfolding quiet_plan_def quiet_pairs_cong [OF assms(3)] by simp
qed

lemma reconcile_loop_valid:
  "reconcile_loop now f bs rep d = (rep', Inr d') \<Longrightarrow>
   \<forall>b \<in> set bs. bk_Category b \<in> set All_categories \<and> (currencyOf b = [] \<or> valid_currency (currencyOf b))"
proof (induction bs arbitrary: rep d)
  case (Cons b bs)
  obtain isNew d1 where s: "SaveBreak (rp_RunID rep) (f_ID f) b d = Inr (isNew, d1)" using Cons.prems by (auto split: sum.splits)
  then have "bk_Category b \<in> set All_categories \<and> (currencyOf b = [] \<or> valid_currency (currencyOf b))"
    by (auto simp: SaveBreak_def split: if_splits)
  moreover have "\<exists>rep2 d2. reconcile_loop now f bs rep2 d2 = (rep', Inr d')"
    using Cons.prems s by (auto simp: Let_def split: if_splits sum.splits)
  ultimately show ?case using Cons.IH by auto
qed simp

text \<open>The second transaction over the same differences: only the run itself is recorded.\<close>

lemma reconcile_body_again:
  assumes "\<forall>b \<in> set found. (f_ID f, bk_Category b, bk_MatchKey b) \<in> identity ` set (db_breaks d)"
    "\<forall>b \<in> set found. bk_Category b \<in> set All_categories \<and> (currencyOf b = [] \<or> valid_currency (currencyOf b))"
    "\<exists>f' \<in> set (db_files d). f_ID f' = f_ID f"
  shows "\<exists>rep' runs. reconcile_body now actor f found rep d = (rep', Inr (d\<lparr>db_runs := runs, db_nextid := Suc (db_nextid d)\<rparr>))
    \<and> report_adds found [] (rep\<lparr>rp_RunID := db_nextid d\<rparr>) rep'"
proof -
  obtain d1 where s: "StartRun (f_ID f) actor d = Inr (db_nextid d, d1)" using assms(3) by (auto simp: StartRun_def Let_def list_ex_iff)
  note st = StartRun_Inr(2) [OF s]
  have "\<forall>b \<in> set found. (f_ID f, bk_Category b, bk_MatchKey b) \<in> identity ` set (db_breaks d1)" using assms(1) st by simp
  from reconcile_loop_again [OF this assms(2), of now "rep\<lparr>rp_RunID := db_nextid d\<rparr>"] obtain rep' where
    "reconcile_loop now f found (rep\<lparr>rp_RunID := db_nextid d\<rparr>) d1 = (rep', Inr d1)" "report_adds found [] (rep\<lparr>rp_RunID := db_nextid d\<rparr>) rep'" by blast
  moreover have "FinishRun now (db_nextid d) a c d1 = d\<lparr>db_runs := db_runs (FinishRun now (db_nextid d) a c d1), db_nextid := Suc (db_nextid d)\<rparr>" for a c
    by (rule db.equality) (simp_all add: FinishRun_def st)
  ultimately show ?thesis using s by (auto simp: reconcile_body_def)
qed

text \<open>A repeated run is a no-op. On a database nobody else is using, a run after a successful one, by anyone and at any time,
  succeeds, matches and finds the same, and raises and closes nothing: breaks, with whatever was decided about them, entries,
  postings and accounts stay as the first run left them.\<close>

theorem Reconcile_again_is_noop:
  assumes "w_sched w = []" "list_all recon_inv (w_dbs w)" "Reconcile svc now fileID actor w = (Inr rep, w1)"
  shows "\<exists>rep2 w2. Reconcile svc now2 fileID actor2 w1 = (Inr rep2, w2)
    \<and> rp_NewBreaks rep2 = 0 \<and> rp_AutoResolved rep2 = 0 \<and> rp_Matched rep2 = rp_Matched rep \<and> Report_Total rep2 = Report_Total rep
    \<and> (\<exists>runs i. w_dbs w2 = (w_dbs w1)[rc_db svc := (w_dbs w1 ! rc_db svc)\<lparr>db_runs := runs, db_nextid := i\<rparr>])"
proof -
  let ?p = "rc_db svc"
  have p: "?p < length (w_dbs w)" using assms(1,3) by (rule_tac ccontr) (auto simp: Reconcile_def LoadFile_def query_at_def turn_def)
  let ?d = "w_dbs w ! ?p"
  obtain f m found where plan: "quiet_plan svc fileID ?d = Inr (f, m, found)"
    using assms(3) Reconcile_quiet [OF assms(1) p] by (auto split: sum.splits)
  let ?rep0 = "empty_report fileID (int (length (mr_Matched m)))"
  have t: "tx_at ?p (reconcile_body now actor f found) ?rep0 w = (rep, Inr (), w1)"
    using assms(3) Reconcile_quiet [OF assms(1) p] plan by (auto split: sum.splits prod.splits)
  then obtain d1 where D: "DB_WithTx TxOk (reconcile_body now actor f found) ?rep0 ?d = (rep, Inr (), d1)"
    and w1: "w1 = w\<lparr>w_dbs := (w_dbs w)[?p := d1]\<rparr>" using assms(1) p by (auto simp: tx_at_def turn_def split: prod.splits)
  note b = DB_WithTx_ok [OF D]
  have inv: "books_ok ?d" "breaks_ok ?d" using list_all_nth [OF assms(2) p] by (simp_all add: recon_inv_def)
  note e = reconcile_body_effect [OF b(1) inv]
  obtain new es where n: "run_appends now (rp_RunID rep) (f_ID f) found new es ?d d1" "report_adds found new (?rep0\<lparr>rp_RunID := rp_RunID rep\<rparr>) rep"
    using e(1) by blast
  have valid: "\<forall>x \<in> set found. bk_Category x \<in> set All_categories \<and> (currencyOf x = [] \<or> valid_currency (currencyOf x))"
  proof -
    obtain i d0 d2 where "reconcile_loop now f found (?rep0\<lparr>rp_RunID := i\<rparr>) d0 = (rep, Inr d2)"
      using b(1) by (auto simp: reconcile_body_def split: sum.splits prod.splits)
    then show ?thesis by (rule reconcile_loop_valid)
  qed
  have d1: "w_dbs w1 ! ?p = d1" "?p < length (w_dbs w1)" "w_sched w1 = []" using p assms(1) by (simp_all add: w1)
  have plan1: "quiet_plan svc fileID (w_dbs w1 ! ?p) = Inr (f, m, found)" using quiet_plan_cong [OF e(7,8,9,3)] plan d1(1) by simp
  have "\<exists>f' \<in> set (db_files d1). f_ID f' = f_ID f" using e(7,10) by simp
  moreover have "\<forall>x \<in> set found. (f_ID f, bk_Category x, bk_MatchKey x) \<in> identity ` set (db_breaks d1)"
    using n(1) unfolding run_appends_def by blast
  ultimately obtain rep2 runs where r2: "reconcile_body now2 actor2 f found ?rep0 d1 = (rep2, Inr (d1\<lparr>db_runs := runs, db_nextid := Suc (db_nextid d1)\<rparr>))"
      "report_adds found [] (?rep0\<lparr>rp_RunID := db_nextid d1\<rparr>) rep2"
    using reconcile_body_again [OF _ valid] by blast
  have t2: "tx_at ?p (reconcile_body now2 actor2 f found) ?rep0 w1 = (rep2, Inr (), w1\<lparr>w_dbs := (w_dbs w1)[?p := d1\<lparr>db_runs := runs, db_nextid := Suc (db_nextid d1)\<rparr>]\<rparr>)"
    by (rule tx_at_quiet [OF d1(3,2)]) (simp_all add: d1(1) r2(1))
  have "Reconcile svc now2 fileID actor2 w1 = (Inr rep2, w1\<lparr>w_dbs := (w_dbs w1)[?p := d1\<lparr>db_runs := runs, db_nextid := Suc (db_nextid d1)\<rparr>]\<rparr>)"
    using Reconcile_quiet [OF d1(3,2)] plan1 t2 by simp
  then show ?thesis using n(2) r2(2) d1(1) by (auto simp: report_adds_def empty_report_def Report_Total_def)
qed

section \<open>A concrete run\<close>

text \<open>One converted payment of 10.00 EUR with a lock at 1.085, settled by the provider at 1.090.\<close>

definition demo_recon :: ReconService where
  "demo_recon = \<lparr>rc_db = 0, rc_parsers = NewReconRegistry demo_codec [''sim''], rc_tolerances = DefaultTolerances, rc_codec = demo_codec\<rparr>"

definition demo_settlement_file :: File where
  "demo_settlement_file = \<lparr>f_ID = 30, f_Provider = ''sim'', f_Filename = ''day.csv'', f_ContentSHA256 = ''h'', f_PeriodStart = 50 * second,
     f_PeriodEnd = 200 * second, f_RowCount = 1, f_IngestedAt = 0, f_Rows = []\<rparr>"

definition demo_recon_db :: db where
  "demo_recon_db = demo_locked_db\<lparr>
     db_accounts := [drift_account ''psp'' ''sim'' PurposeClearing AccountTypeAsset ''EUR'' ''s1''\<lparr>a_ID := 1\<rparr>,
       drift_account ''merchant'' ''m1'' PurposePayable AccountTypeLiability ''EUR'' ''s1''\<lparr>a_ID := 2\<rparr>,
       drift_account ''platform'' ''platform'' PurposeFeeRevenue AccountTypeRevenue ''EUR'' ''s1''\<lparr>a_ID := 3\<rparr>],
     db_entries := [\<lparr>je_ID = 20, je_TransactionID = Some 7, je_ShardKey = ''s1'', je_Description = ''capture'', je_OccurredAt = 100 * second\<rparr>],
     db_postings := [\<lparr>pr_EntryID = 20, pr_Posting = mk_posting 1 Debit (mk_money 1000 ''EUR'')\<rparr>,
       \<lparr>pr_EntryID = 20, pr_Posting = mk_posting 2 Credit (mk_money 941 ''EUR'')\<rparr>,
       \<lparr>pr_EntryID = 20, pr_Posting = mk_posting 3 Credit (mk_money 59 ''EUR'')\<rparr>],
     db_locks := [demo_promise], db_files := [demo_settlement_file],
     db_rows := [stored_row 31 30 (demo_row 2 ''ch_1''\<lparr>ro_SettlementCurrency := ''USD'', ro_SettlementRateNano := 1090000000,
        ro_Settled := mk_money 1090 ''USD''\<rparr>)],
     db_nextid := 100\<rparr>"

definition demo_recon_world :: world where
  "demo_recon_world = \<lparr>w_dbs = [demo_recon_db], w_sched = [], w_calls = []\<rparr>"

lemma demo_recon_inv: "list_all recon_inv (w_dbs demo_recon_world)"
proof -
  have "breaks_ok demo_recon_db" by (simp add: breaks_ok_def demo_recon_db_def demo_locked_db_def empty_db_def)
  moreover have "books_ok demo_recon_db"
    by (simp add: books_ok_def accounts_ok_def natural_key_def drift_account_def demo_recon_db_def)
  moreover have "ledger_ok demo_recon_db"
    by (simp add: ledger_ok_def ledger_total_def posting_row_ok_def posting_delta_def demo_recon_db_def)
  ultimately show ?thesis by (simp add: recon_inv_def demo_recon_world_def)
qed

lemma demo_recon_sched: "sched_ok recon_env demo_recon_world" "w_sched demo_recon_world = []"
  by (simp_all add: sched_ok_def demo_recon_world_def)

definition report_counts :: "Report result \<Rightarrow> (int \<times> int \<times> int) option" where
  "report_counts r = (case r of Inl _ \<Rightarrow> None | Inr rep \<Rightarrow> Some (rp_Matched rep, rp_NewBreaks rep, rp_AutoResolved rep))"

lemma demo_run: "report_counts (fst (Reconcile demo_recon 500 30 ''ops'' demo_recon_world)) = Some (1, 1, 1)"
  by code_simp

lemma demo_run_ok:
  obtains rep w' where "Reconcile demo_recon 500 30 ''ops'' demo_recon_world = (Inr rep, w')" "rp_Matched rep = 1" "rp_NewBreaks rep = 1" "rp_AutoResolved rep = 1"
  using demo_run by (cases "Reconcile demo_recon 500 30 ''ops'' demo_recon_world") (auto simp: report_counts_def split: sum.splits)

theorem Reconcile_records_once_witness:
  "\<exists>rep w' r. Reconcile demo_recon 500 30 ''ops'' demo_recon_world = (Inr rep, w') \<and> list_all ledger_ok (w_dbs w')
     \<and> rp_NewBreaks rep = 1 \<and> rp_AutoResolved rep = 1 \<and> length (db_breaks (w_dbs w' ! 0)) = 1"
proof -
  obtain rep w' where r: "Reconcile demo_recon 500 30 ''ops'' demo_recon_world = (Inr rep, w')" "rp_NewBreaks rep = 1" "rp_AutoResolved rep = 1"
    by (rule demo_run_ok)
  have "length (db_breaks (w_dbs (snd (Reconcile demo_recon 500 30 ''ops'' demo_recon_world)) ! 0)) = 1" by code_simp
  then have "length (db_breaks (w_dbs w' ! 0)) = 1" using r by simp
  moreover have "list_all recon_inv (w_dbs w')"
    using Reconcile_records_once [OF demo_recon_sched(1) demo_recon_inv r(1)] by blast
  then have "list_all ledger_ok (w_dbs w')" by (rule list.pred_mono_strong) (simp add: recon_inv_def)
  ultimately show ?thesis using r by blast
qed

theorem Reconcile_again_is_noop_witness:
  "\<exists>rep w' rep2 w2. Reconcile demo_recon 500 30 ''ops'' demo_recon_world = (Inr rep, w') \<and> rp_NewBreaks rep = 1
     \<and> Reconcile demo_recon 900 30 ''night'' w' = (Inr rep2, w2) \<and> rp_NewBreaks rep2 = 0 \<and> rp_Matched rep2 = 1"
proof -
  obtain rep w' where r: "Reconcile demo_recon 500 30 ''ops'' demo_recon_world = (Inr rep, w')" "rp_Matched rep = 1" "rp_NewBreaks rep = 1"
    by (rule demo_run_ok)
  show ?thesis using Reconcile_again_is_noop [OF demo_recon_sched(2) demo_recon_inv r(1), of 900 "''night''"] r by auto
qed

section \<open>The entry for a rate movement\<close>

definition account_net :: "uuid \<Rightarrow> db \<Rightarrow> int" where
  "account_net a d = (\<Sum>p \<leftarrow> filter (\<lambda>p. p_AccountID p = a) (map pr_Posting (db_postings d)). posting_delta p)"

text \<open>The adjustment is the movement. When an adjustment is posted, the provider's clearing account in the settlement currency
  moves by exactly the difference, up for a gain and down for a loss, the platform's gain and loss account by its opposite, and
  no other account moves.\<close>

theorem PostFXDrift_books_delta:
  assumes "PostFXDrift now b tx sk prov d = Inr (i, d')" "books_ok d" "bk_Delta b = Some delta"
  shows "\<exists>clearing \<in> set (db_accounts d'). \<exists>gainLoss \<in> set (db_accounts d').
      natural_key clearing = (\<lparr>o_Type = ''psp'', o_ID = prov\<rparr>, PurposeClearing, m_currency delta)
    \<and> natural_key gainLoss = (\<lparr>o_Type = ''platform'', o_ID = ''platform''\<rparr>, PurposeFXGainLoss, m_currency delta)
    \<and> account_net (a_ID clearing) d' = account_net (a_ID clearing) d + minor delta
    \<and> account_net (a_ID gainLoss) d' = account_net (a_ID gainLoss) d - minor delta
    \<and> (\<forall>a. a \<noteq> a_ID clearing \<and> a \<noteq> a_ID gainLoss \<longrightarrow> account_net a d' = account_net a d)"
proof -
  obtain delta' clearing d1 gainLoss d2 amount entry where *: "bk_Delta b = Some delta'" "\<not> IsZero delta'"
    "EnsureAccount (drift_account ''psp'' prov PurposeClearing AccountTypeAsset (m_currency delta') sk) d = Inr (clearing, d1)"
    "EnsureAccount (drift_account ''platform'' ''platform'' PurposeFXGainLoss AccountTypeRevenue (m_currency delta') sk) d1 = Inr (gainLoss, d2)"
    "(if IsPositive delta' then Inr delta' else Money_Neg delta') = Inr amount" "i = db_nextid d2"
    "NewEntry i now (Some tx) sk (''fx drift on settlement: '' @ bk_Detail b) now (drift_legs delta' (a_ID clearing) (a_ID gainLoss) amount) = Inr entry"
    "RecordEntry entry (d2\<lparr>db_nextid := Suc i\<rparr>) = Inr d'"
    using assms(1) by (rule PostFXDrift_steps)
  have dd: "delta' = delta" using * assms(3) by simp
  note e1 = EnsureAccount_recon [OF *(3)] and e2 = EnsureAccount_recon [OF *(4)]
    and n = NewEntry_Inr [OF *(7)] and r = RecordEntry_Inr [OF *(8)] and rf = RecordEntry_frame [OF *(8)]
  have mem: "clearing \<in> set (db_accounts d')" "gainLoss \<in> set (db_accounts d')" using e1(6) e2(5,6) rf(3) by auto
  have key: "natural_key clearing = (\<lparr>o_Type = ''psp'', o_ID = prov\<rparr>, PurposeClearing, m_currency delta)"
    "natural_key gainLoss = (\<lparr>o_Type = ''platform'', o_ID = ''platform''\<rparr>, PurposeFXGainLoss, m_currency delta)"
    using EnsureAccount_Inr(1) [OF *(3)] EnsureAccount_Inr(1) [OF *(4)] dd by (simp_all add: natural_key_def drift_account_def)
  have "accounts_ok d'" using PostFXDrift_effect(4) [OF assms(1,2)] by (simp add: books_ok_def)
  then have ne: "a_ID clearing \<noteq> a_ID gainLoss" using accounts_ok_unique(1) [OF _ mem] key by auto
  note net = drift_net [OF *(5) ne]
  have posts: "map pr_Posting (db_postings d') = map pr_Posting (db_postings d) @ drift_legs delta' (a_ID clearing) (a_ID gainLoss) amount"
    using r(1) e1(4) e2(4) n(1) by (simp add: comp_def)
  have "filter (\<lambda>p. p_AccountID p = a) (drift_legs delta' (a_ID clearing) (a_ID gainLoss) amount) = []"
    if "a \<noteq> a_ID clearing \<and> a \<noteq> a_ID gainLoss" for a using net(3) that by (auto simp: filter_empty_conv)
  then have "\<forall>a. a \<noteq> a_ID clearing \<and> a \<noteq> a_ID gainLoss \<longrightarrow> account_net a d' = account_net a d" by (simp add: account_net_def posts)
  moreover have "account_net (a_ID clearing) d' = account_net (a_ID clearing) d + minor delta"
    "account_net (a_ID gainLoss) d' = account_net (a_ID gainLoss) d - minor delta"
    using net(1,2) by (simp_all add: account_net_def posts dd)
  ultimately show ?thesis using mem key by blast
qed

definition demo_drift :: Break where
  "demo_drift = \<lparr>bk_Category = FXDrift, bk_MatchKey = ''ch_1'', bk_TransactionID = Some 7, bk_SettlementRowID = None, bk_Expected = None,
     bk_Actual = None, bk_Delta = Some (mk_money (- 5) ''USD''), bk_Detail = ''loss''\<rparr>"

theorem PostFXDrift_books_delta_witness:
  "\<exists>i d'. PostFXDrift 500 demo_drift 7 ''s1'' ''sim'' demo_recon_db = Inr (i, d')
     \<and> (\<exists>clearing \<in> set (db_accounts d'). a_Purpose clearing = PurposeClearing \<and> a_Currency clearing = ''USD''
          \<and> account_net (a_ID clearing) d' = account_net (a_ID clearing) demo_recon_db - 5)"
proof -
  have "is_ok (PostFXDrift 500 demo_drift 7 ''s1'' ''sim'' demo_recon_db)" by code_simp
  then obtain i d' where p: "PostFXDrift 500 demo_drift 7 ''s1'' ''sim'' demo_recon_db = Inr (i, d')" by (auto simp: is_ok_iff)
  have "books_ok demo_recon_db" using demo_recon_inv by (simp add: recon_inv_def demo_recon_world_def)
  moreover have "bk_Delta demo_drift = Some (mk_money (- 5) ''USD'')" by (simp add: demo_drift_def)
  ultimately show ?thesis using PostFXDrift_books_delta [OF p] p by (fastforce simp: natural_key_def)
qed

end
