(* ===== verification/SettlementStore.thy ===== *)
theory SettlementStore
  imports Recon SettlementClaims
begin

text \<open>
  Settlement files at rest: storing a file and reading it back, storing the same bytes twice, and the rows the
  parser accepts but the table refuses.
\<close>

section \<open>Rows\<close>

lemma nullif_simps [simp]: "nullif x y = None \<longleftrightarrow> x = y" "nullif x y = Some z \<longleftrightarrow> x \<noteq> y \<and> z = x"
  by (auto simp: nullif_def)

lemma scan_stored_row:
  assumes "row_typed row" "settlement_row_checks (stored_row i fileID row)"
  shows "scan_row fileID (stored_row i fileID row) = Inr (row\<lparr>ro_ID := i, ro_FileID := fileID, ro_SettledAt := timestamptz (ro_SettledAt row)\<rparr>)"
proof -
  have v: "valid_currency (m_currency (ro_Gross row))" "m_currency (ro_Fee row) = m_currency (ro_Gross row)"
    "m_currency (ro_Net row) = m_currency (ro_Gross row)" using assms(1) by (simp_all add: row_typed_def)
  have new: "Money_New a c = Inr (mk_money a c)" if "valid_currency c" for a c using that by (simp add: Money_New_Inr_iff)
  consider "ro_SettlementCurrency row = []" "ro_SettlementRateNano row = 0" "ro_Settled row = no_money"
    | "ro_SettlementCurrency row \<noteq> []" "valid_currency (ro_SettlementCurrency row)" "0 < sint (ro_SettlementRateNano row)"
      "m_currency (ro_Settled row) = ro_SettlementCurrency row"
  proof (cases "ro_SettlementCurrency row = []")
    case True
    then show ?thesis using assms(1) that(1) by (auto simp: row_typed_def valid_currency_def)
  next
    case False
    then show ?thesis using assms(1) that(2) by (auto simp: row_typed_def)
  qed
  then show ?thesis
  proof cases
    case 1
    then show ?thesis using v by (auto simp: scan_row_def stored_row_def Let_def new nullif_def intro!: Row.equality Money.equality)
  next
    case 2
    then have "settledMinorOrSentinel row \<noteq> - 1" using assms(2) by (auto simp: settlement_row_checks_def stored_row_def)
    then have "settledMinorOrSentinel row \<noteq> - 1" "settledMinorOrSentinel row = m_amount (ro_Settled row)" "ro_SettlementRateNano row \<noteq> 0"
      using 2(3) by (auto simp: settledMinorOrSentinel_def split: if_splits)
    then show ?thesis using v 2 by (auto simp: scan_row_def stored_row_def Let_def new nullif_def intro!: Row.equality Money.equality)
  qed
qed

definition placed :: "uuid \<Rightarrow> nat \<Rightarrow> Row list \<Rightarrow> Row list" where
  "placed fileID i rows = map2 (\<lambda>j row. row\<lparr>ro_ID := j, ro_FileID := fileID\<rparr>) [i..<i + length rows] rows"

abbreviation at_microseconds :: "Row \<Rightarrow> Row" where
  "at_microseconds row \<equiv> row\<lparr>ro_SettledAt := timestamptz (ro_SettledAt row)\<rparr>"

definition stored :: "uuid \<Rightarrow> nat \<Rightarrow> Row list \<Rightarrow> SettlementRow list" where
  "stored fileID i rows = map2 (\<lambda>j row. stored_row j fileID row) [i..<i + length rows] rows"

lemma placed_Nil [simp]: "placed fileID i [] = []" "stored fileID i [] = []"
  by (simp_all add: placed_def stored_def)

lemma placed_Cons: "placed fileID i (row # rows) = row\<lparr>ro_ID := i, ro_FileID := fileID\<rparr> # placed fileID (Suc i) rows"
  by (simp add: placed_def upt_conv_Cons del: upt_Suc)

lemma stored_Cons: "stored fileID i (row # rows) = stored_row i fileID row # stored fileID (Suc i) rows"
  by (simp add: stored_def upt_conv_Cons del: upt_Suc)

lemma insert_settlement_rows_Inr:
  "insert_settlement_rows fileID rows d = Inr (rows', d') \<Longrightarrow>
     rows' = placed fileID (db_nextid d) rows \<and> list_all settlement_row_checks (stored fileID (db_nextid d) rows)
     \<and> d' = d\<lparr>db_rows := db_rows d @ stored fileID (db_nextid d) rows, db_nextid := db_nextid d + length rows\<rparr>"
proof (induction fileID rows d arbitrary: rows' d' rule: insert_settlement_rows.induct)
  case (1 fileID d)
  then show ?case by (simp add: placed_def stored_def)
next
  case (2 fileID row rows d)
  obtain row1 d1 rows1 where i: "insert_settlement_row fileID row d = Inr (row1, d1)"
    "insert_settlement_rows fileID rows d1 = Inr (rows1, d')" "rows' = row1 # rows1" using 2(2) by (auto simp: ebind_Inr_iff)
  have 1: "row1 = row\<lparr>ro_ID := db_nextid d, ro_FileID := fileID\<rparr>" "settlement_row_checks (stored_row (db_nextid d) fileID row)"
    "d1 = d\<lparr>db_rows := db_rows d @ [stored_row (db_nextid d) fileID row], db_nextid := Suc (db_nextid d)\<rparr>"
    using i(1) by (auto simp: insert_settlement_row_def Let_def split: if_splits)
  have ih: "rows1 = placed fileID (db_nextid d1) rows \<and> list_all settlement_row_checks (stored fileID (db_nextid d1) rows)
     \<and> d' = d1\<lparr>db_rows := db_rows d1 @ stored fileID (db_nextid d1) rows, db_nextid := db_nextid d1 + length rows\<rparr>"
    using 2(1) i(1,2) by auto
  then show ?case using 1 i(3) by (simp add: placed_Cons stored_Cons)
qed

lemma scan_stored_rows:
  assumes "list_all row_typed rows" "list_all settlement_row_checks (stored fileID i rows)"
  shows "collect_results (scan_row fileID) (stored fileID i rows) = Inr (map at_microseconds (placed fileID i rows))"
  using assms by (induction rows arbitrary: i) (simp_all add: placed_Cons stored_Cons scan_stored_row)

lemma stored_facts:
  "r \<in> set (stored fileID i rows) \<Longrightarrow> sr_FileID r = fileID"
  "map sr_LineNumber (stored fileID i rows) = map ro_LineNumber rows"
  by (induction rows arbitrary: i) (auto simp: stored_Cons stored_row_def)

lemma placed_times:
  "map (\<lambda>r. r\<lparr>ro_ID := 0, ro_FileID := 0\<rparr>) (map at_microseconds (placed fileID i rows)) = map (\<lambda>r. at_microseconds r\<lparr>ro_ID := 0, ro_FileID := 0\<rparr>) rows"
  by (induction rows arbitrary: i) (auto simp: placed_Cons)

lemma placed_file: "list_all (\<lambda>r. ro_FileID r = fileID) (map at_microseconds (placed fileID i rows))"
  by (induction rows arbitrary: i) (auto simp: placed_Cons)

lemma stored_checks:
  "list_all settlement_row_checks (stored fileID i rows) \<Longrightarrow> row \<in> set rows \<Longrightarrow> \<exists>j. settlement_row_checks (stored_row j fileID row)"
  by (induction rows arbitrary: i) (auto simp: stored_Cons)

section \<open>Files\<close>

definition files_ok :: "db \<Rightarrow> bool" where
  "files_ok d \<longleftrightarrow> (\<forall>r \<in> set (db_rows d). sr_FileID r < db_nextid d) \<and> (\<forall>f \<in> set (db_files d). f_ID f < db_nextid d \<and> f_Rows f = [])"

lemma InsertFile_new:
  assumes "InsertFile now f d = Inr (True, f', d')"
  shows "f' = f\<lparr>f_ID := db_nextid d, f_IngestedAt := timestamptz now, f_Rows := placed (db_nextid d) (Suc (db_nextid d)) (f_Rows f)\<rparr>"
    "list_all settlement_row_checks (stored (db_nextid d) (Suc (db_nextid d)) (f_Rows f))"
    "db_files d' = db_files d @ [f'\<lparr>f_PeriodStart := timestamptz (f_PeriodStart f'), f_PeriodEnd := timestamptz (f_PeriodEnd f'), f_Rows := []\<rparr>]"
    "db_rows d' = db_rows d @ stored (db_nextid d) (Suc (db_nextid d)) (f_Rows f)"
    "db_nextid d' = Suc (db_nextid d) + length (f_Rows f)"
    "timestamptz (f_PeriodStart f) < timestamptz (f_PeriodEnd f)" "0 \<le> f_RowCount f"
    "tfind (\<lambda>x. f_Provider x = f_Provider f \<and> f_ContentSHA256 x = f_ContentSHA256 f) (db_files d) = None"
proof -
  let ?i = "db_nextid d" and ?d0 = "d\<lparr>db_files := db_files d @ [f\<lparr>f_ID := db_nextid d, f_IngestedAt := timestamptz now,
      f_PeriodStart := timestamptz (f_PeriodStart f), f_PeriodEnd := timestamptz (f_PeriodEnd f), f_Rows := []\<rparr>], db_nextid := Suc (db_nextid d)\<rparr>"
  show g: "timestamptz (f_PeriodStart f) < timestamptz (f_PeriodEnd f)" "0 \<le> f_RowCount f"
    and t: "tfind (\<lambda>x. f_Provider x = f_Provider f \<and> f_ContentSHA256 x = f_ContentSHA256 f) (db_files d) = None"
    using assms by (auto simp: InsertFile_def split: if_splits option.splits)
  obtain rows where r: "insert_settlement_rows ?i (f_Rows f) ?d0 = Inr (rows, d')" "f' = f\<lparr>f_ID := ?i, f_IngestedAt := timestamptz now, f_Rows := rows\<rparr>"
    using assms g t by (auto simp: InsertFile_def Let_def ebind_Inr_iff)
  note i = insert_settlement_rows_Inr [OF r(1)]
  show "f' = f\<lparr>f_ID := ?i, f_IngestedAt := timestamptz now, f_Rows := placed ?i (Suc ?i) (f_Rows f)\<rparr>"
    "list_all settlement_row_checks (stored ?i (Suc ?i) (f_Rows f))"
    "db_files d' = db_files d @ [f'\<lparr>f_PeriodStart := timestamptz (f_PeriodStart f'), f_PeriodEnd := timestamptz (f_PeriodEnd f'), f_Rows := []\<rparr>]"
    "db_rows d' = db_rows d @ stored ?i (Suc ?i) (f_Rows f)" "db_nextid d' = Suc ?i + length (f_Rows f)"
    using i r(2) by simp_all
qed

text \<open>Later states, as far as one file is concerned: files have been added, and rows of other files.\<close>

definition files_grow :: "uuid \<Rightarrow> db \<Rightarrow> db \<Rightarrow> bool" where
  "files_grow i d d' \<longleftrightarrow> (\<exists>gs rs. db_files d' = db_files d @ gs \<and> db_rows d' = db_rows d @ rs \<and> (\<forall>r \<in> set rs. sr_FileID r \<noteq> i))"

lemma files_grow_trans: "files_grow i d d' \<Longrightarrow> files_grow i d' d'' \<Longrightarrow> files_grow i d d''"
  by (fastforce simp: files_grow_def)

text \<open>Storing is such a step for every file that is there.\<close>

lemma InsertFile_grows:
  assumes "InsertFile now g d = Inr (x, g', d')" "i < db_nextid d"
  shows "files_grow i d d'"
proof (cases x)
  case True
  then have "InsertFile now g d = Inr (True, g', d')" using assms(1) by simp
  note n = InsertFile_new [OF this]
  have "\<forall>r \<in> set (stored (db_nextid d) (Suc (db_nextid d)) (f_Rows g)). sr_FileID r \<noteq> i" using stored_facts(1) assms(2) by fastforce
  then show ?thesis unfolding files_grow_def n(3,4) by blast
next
  case False
  then have "d' = d" using assms(1) by (auto simp: InsertFile_def Let_def ebind_Inr_iff split: if_splits option.splits)
  then show ?thesis by (simp add: files_grow_def)
qed

text \<open>C33: a settlement file is stored once and read back. Take a file with well-typed rows in strictly increasing line order, as the
  parser produces them, on a database whose identifiers are below its counter. If it is stored as new, then in that state and in
  every later one, files and rows of other files having been added, it is loaded with the same header and the same rows in the
  order of their lines, each with its new identity and nothing else changed, except that times are cut to the microseconds
  the database keeps; and the same bytes from the same provider, under whatever name, are recognised: the stored identity and window are
  returned and nothing is written.\<close>

theorem stored_file_reads_back:
  assumes "InsertFile now f d = Inr (True, f', d')" "files_ok d" "list_all row_typed (f_Rows f)"
    "sorted_wrt (<) (map ro_LineNumber (f_Rows f))" "files_grow (f_ID f') d' d''"
  shows "load_header (f_ID f') d'' = Inr (f\<lparr>f_ID := f_ID f', f_IngestedAt := timestamptz now, f_PeriodStart := timestamptz (f_PeriodStart f),
        f_PeriodEnd := timestamptz (f_PeriodEnd f), f_Rows := []\<rparr>)
    \<and> (\<exists>rows. loadRows (f_ID f') d'' = Inr rows
        \<and> map (\<lambda>r. r\<lparr>ro_ID := 0, ro_FileID := 0\<rparr>) rows = map (\<lambda>r. at_microseconds r\<lparr>ro_ID := 0, ro_FileID := 0\<rparr>) (f_Rows f)
        \<and> list_all (\<lambda>r. ro_FileID r = f_ID f') rows)
    \<and> (\<forall>g later. f_Provider g = f_Provider f \<and> f_ContentSHA256 g = f_ContentSHA256 f \<and> timestamptz (f_PeriodStart g) < timestamptz (f_PeriodEnd g) \<and> 0 \<le> f_RowCount g
        \<longrightarrow> InsertFile later g d'' = Inr (False, g\<lparr>f_ID := f_ID f', f_PeriodStart := timestamptz (f_PeriodStart f), f_PeriodEnd := timestamptz (f_PeriodEnd f),
             f_RowCount := f_RowCount f, f_IngestedAt := timestamptz now\<rparr>, d''))"
proof -
  note n = InsertFile_new [OF assms(1)]
  obtain gs rs where g: "db_files d'' = db_files d' @ gs" "db_rows d'' = db_rows d' @ rs" "\<forall>r \<in> set rs. sr_FileID r \<noteq> f_ID f'"
    using assms(5) by (auto simp: files_grow_def)
  have id: "f_ID f' = db_nextid d" using n(1) by simp
  define hd where "hd = f\<lparr>f_ID := f_ID f', f_IngestedAt := timestamptz now, f_PeriodStart := timestamptz (f_PeriodStart f),
        f_PeriodEnd := timestamptz (f_PeriodEnd f), f_Rows := []\<rparr>"
  have hd: "f'\<lparr>f_PeriodStart := timestamptz (f_PeriodStart f'), f_PeriodEnd := timestamptz (f_PeriodEnd f'), f_Rows := []\<rparr> = hd"
    by (simp add: n(1) hd_def)
  have "tfind (\<lambda>g. f_ID g = db_nextid d) (db_files d) = None" using assms(2) by (auto simp: files_ok_def tfind_None_iff)
  then have h: "load_header (f_ID f') d'' = Inr hd" using id by (simp add: load_header_def g(1) n(3) hd tfind_append) (simp add: hd_def)
  have old: "filter (\<lambda>r. sr_FileID r = db_nextid d) (db_rows d) = []" using assms(2) by (auto simp: files_ok_def filter_empty_conv)
  have other: "filter (\<lambda>r. sr_FileID r = db_nextid d) rs = []" using g(3) id by (auto simp: filter_empty_conv)
  let ?st = "stored (db_nextid d) (Suc (db_nextid d)) (f_Rows f)" and ?pl = "placed (db_nextid d) (Suc (db_nextid d)) (f_Rows f)"
  have mine: "filter (\<lambda>r. sr_FileID r = db_nextid d) ?st = ?st" using stored_facts(1) by (auto simp: filter_id_conv)
  have "sorted (map sr_LineNumber ?st)" unfolding stored_facts(2) using assms(4) by (simp add: strict_sorted_imp_sorted)
  then have "sort_key sr_LineNumber ?st = ?st" by (rule sort_key_id_if_sorted)
  then have l: "loadRows (f_ID f') d'' = Inr (map at_microseconds ?pl)"
    using scan_stored_rows [OF assms(3) n(2)] id old other mine by (simp add: loadRows_def g(2) n(4))
  have t: "tfind (\<lambda>x. f_Provider x = f_Provider f \<and> f_ContentSHA256 x = f_ContentSHA256 f) (db_files d'') = Some hd"
    using n(8) by (simp add: g(1) n(3) hd tfind_append) (simp add: hd_def)
  have again: "InsertFile later g d'' = Inr (False, g\<lparr>f_ID := f_ID f', f_PeriodStart := timestamptz (f_PeriodStart f), f_PeriodEnd := timestamptz (f_PeriodEnd f),
             f_RowCount := f_RowCount f, f_IngestedAt := timestamptz now\<rparr>, d'')"
    if "f_Provider g = f_Provider f" "f_ContentSHA256 g = f_ContentSHA256 f" "timestamptz (f_PeriodStart g) < timestamptz (f_PeriodEnd g)" "0 \<le> f_RowCount g" for g later
    using that t by (simp add: InsertFile_def hd_def)
  show ?thesis using h l placed_times placed_file [of "db_nextid d"] again id unfolding hd_def by auto
qed

definition demo_file :: File where
  "demo_file = \<lparr>f_ID = 0, f_Provider = ''sim'', f_Filename = ''day.csv'', f_ContentSHA256 = ''h'', f_PeriodStart = 100 * second,
     f_PeriodEnd = 101 * second, f_RowCount = 1, f_IngestedAt = 0, f_Rows = [demo_row 2 ''ch_1'']\<rparr>"

theorem stored_file_reads_back_witness:
  "\<exists>f' d' r. InsertFile 7 demo_file empty_db = Inr (True, f', d') \<and> loadRows 1 d' = Inr [r] \<and> ro_Gross r = mk_money 1000 ''EUR'' \<and> ro_SettledAt r = 100 * second
     \<and> (\<exists>g. InsertFile 9 (demo_file\<lparr>f_Filename := ''again.csv''\<rparr>) d' = Inr (False, g, d') \<and> f_ID g = 1)"
proof -
  have "is_ok (InsertFile 7 demo_file empty_db) \<and> fst (projr (InsertFile 7 demo_file empty_db))" by code_simp
  then obtain f' d' where i: "InsertFile 7 demo_file empty_db = Inr (True, f', d')" by (auto simp: is_ok_iff)
  have ok: "files_ok empty_db" by (simp add: files_ok_def empty_db_def)
  have ty: "list_all row_typed (f_Rows demo_file)" by code_simp
  have so: "sorted_wrt (<) (map ro_LineNumber (f_Rows demo_file))" by (simp add: demo_file_def)
  have gr: "files_grow (f_ID f') d' d'" by (simp add: files_grow_def)
  have id: "f_ID f' = 1" using InsertFile_new(1) [OF i] by (simp add: empty_db_def)
  have pd: "timestamptz (f_PeriodStart demo_file) < timestamptz (f_PeriodEnd demo_file)" "0 \<le> f_RowCount demo_file"
    by (simp_all add: demo_file_def second_def timestamptz_def)
  note b = stored_file_reads_back [OF i ok ty so gr, unfolded id]
  obtain rows where rows: "loadRows 1 d' = Inr rows"
    "map (\<lambda>r. r\<lparr>ro_ID := 0, ro_FileID := 0\<rparr>) rows = [at_microseconds (demo_row 2 ''ch_1'')\<lparr>ro_ID := 0, ro_FileID := 0\<rparr>]"
    using b by (auto simp: demo_file_def)
  then obtain r where r: "rows = [r]" "r\<lparr>ro_ID := 0, ro_FileID := 0\<rparr> = at_microseconds (demo_row 2 ''ch_1'')\<lparr>ro_ID := 0, ro_FileID := 0\<rparr>" by auto
  have "ro_Gross r = mk_money 1000 ''EUR'' \<and> ro_SettledAt r = 100 * second"
    using arg_cong [OF r(2), of ro_Gross] arg_cong [OF r(2), of ro_SettledAt] by (simp add: demo_row_def timestamptz_def second_def)
  then show ?thesis using b rows(1) r(1) i pd by auto
qed

text \<open>A row the parser accepts can make its whole file impossible to store. When the provider states a conversion into the charge
  currency itself, or a settled amount of minus one minor unit, the row is written with its settled amount missing and the
  table refuses it, so the file that contains it is never stored.\<close>

theorem degenerate_conversion_unstorable:
  assumes "row_typed row" "ro_SettlementCurrency row \<noteq> []"
    "ro_SettlementCurrency row = m_currency (ro_Gross row) \<or> m_amount (ro_Settled row) = - 1" "row \<in> set (f_Rows f)"
  shows "InsertFile now f d \<noteq> Inr (True, f', d')"
proof
  assume i: "InsertFile now f d = Inr (True, f', d')"
  obtain j where c: "settlement_row_checks (stored_row j (db_nextid d) row)" using stored_checks [OF InsertFile_new(2) [OF i] assms(4)] by blast
  have "settledMinorOrSentinel row = - 1" using assms(3) by (auto simp: settledMinorOrSentinel_def HasFX_def)
  then show False using c assms(2) by (auto simp: settlement_row_checks_def stored_row_def)
qed

theorem degenerate_conversion_unstorable_witness:
  "case Parse demo_codec 0 ''sim'' (''ch_1,1000,59,941,EUR,100,EUR,1,1000'' @ newline) of
     Inl _ \<Rightarrow> False
   | Inr f \<Rightarrow> length (f_Rows f) = 1 \<and> (\<forall>f' d'. InsertFile 7 f empty_db \<noteq> Inr (True, f', d'))"
proof -
  let ?p = "Parse demo_codec 0 ''sim'' (''ch_1,1000,59,941,EUR,100,EUR,1,1000'' @ newline)"
  let ?ok = "\<lambda>f. case f_Rows f of [r] \<Rightarrow> row_typed r \<and> ro_SettlementCurrency r \<noteq> [] \<and> ro_SettlementCurrency r = m_currency (ro_Gross r) | _ \<Rightarrow> False"
  have "is_ok ?p \<and> ?ok (projr ?p)" by code_simp
  then obtain f where f: "?p = Inr f" "?ok f" by (auto simp: is_ok_iff)
  then obtain r where r: "f_Rows f = [r]" "row_typed r" "ro_SettlementCurrency r \<noteq> []" "ro_SettlementCurrency r = m_currency (ro_Gross r)"
    by (auto split: list.splits)
  show ?thesis using degenerate_conversion_unstorable [OF r(2,3), of f 7 empty_db] r f(1) by simp
qed

end
