(* ===== verification/Json.thy ===== *)
theory Json
  imports Complex_Main Prelude
begin

text \<open>
  JSON documents, as far as \<open>encoding/json\<close> is used between the orchestrator and the provider: an
  object is a list of named members. Decoding into a struct sets one member after the other, leaves
  a field alone on null and fails on a value of another kind; a strict decoder
  (\<open>DisallowUnknownFields\<close>) refuses a member the struct has no field for, a lenient one skips it.
  A document that is not JSON at all is \<open>None\<close>. Member names are matched exactly.
\<close>

datatype json = JNull | JBool bool | JInt int | JFloat rat | JStr string | JArr "json list" | JObj "(string \<times> json) list"

type_synonym 'a setter = "json \<Rightarrow> 'a \<Rightarrow> 'a option"

definition as_string :: "(string \<Rightarrow> 'a \<Rightarrow> 'a) \<Rightarrow> 'a setter" where
  "as_string f v r = (case v of JStr s \<Rightarrow> Some (f s r) | JNull \<Rightarrow> Some r | _ \<Rightarrow> None)"

definition as_int64 :: "(int64 \<Rightarrow> 'a \<Rightarrow> 'a) \<Rightarrow> 'a setter" where
  "as_int64 f v r = (case v of JInt i \<Rightarrow> if in64 i then Some (f (word_of_int i) r) else None | JNull \<Rightarrow> Some r | _ \<Rightarrow> None)"

definition as_float :: "(rat \<Rightarrow> 'a \<Rightarrow> 'a) \<Rightarrow> 'a setter" where
  "as_float f v r = (case v of JInt i \<Rightarrow> Some (f (of_int i) r) | JFloat q \<Rightarrow> Some (f q r) | JNull \<Rightarrow> Some r | _ \<Rightarrow> None)"

text \<open>Pointer fields: null leaves the pointer nil.\<close>

definition as_map :: "((string \<times> rat) list \<Rightarrow> 'a \<Rightarrow> 'a) \<Rightarrow> 'a setter" where
  "as_map f v r = (case v of
       JObj ms \<Rightarrow> map_option (\<lambda>kv. f kv r)
         (those (map (\<lambda>(n, x). map_option (Pair n) (as_float (\<lambda>q _. q) x 0)) ms))
     | JNull \<Rightarrow> Some r | _ \<Rightarrow> None)"

fun set_members :: "bool \<Rightarrow> (string \<rightharpoonup> 'a setter) \<Rightarrow> (string \<times> json) list \<Rightarrow> 'a \<Rightarrow> 'a option" where
  "set_members strict fields_of [] r = Some r"
| "set_members strict fields_of ((n, v) # ms) r =
     (case fields_of n of
        None \<Rightarrow> if strict then None else set_members strict fields_of ms r
      | Some st \<Rightarrow> (case st v r of None \<Rightarrow> None | Some r' \<Rightarrow> set_members strict fields_of ms r'))"

definition decode_struct :: "bool \<Rightarrow> (string \<rightharpoonup> 'a setter) \<Rightarrow> 'a \<Rightarrow> json option \<Rightarrow> 'a option" where
  "decode_struct strict fields_of zero doc =
     (case doc of Some (JObj ms) \<Rightarrow> set_members strict fields_of ms zero | Some JNull \<Rightarrow> Some zero | _ \<Rightarrow> None)"

text \<open>\<open>json.Unmarshal\<close> whose error is dropped keeps what it could set.\<close>

fun keep_members :: "(string \<rightharpoonup> 'a setter) \<Rightarrow> (string \<times> json) list \<Rightarrow> 'a \<Rightarrow> 'a" where
  "keep_members fields_of [] r = r"
| "keep_members fields_of ((n, v) # ms) r =
     keep_members fields_of ms (case fields_of n of None \<Rightarrow> r | Some st \<Rightarrow> (case st v r of None \<Rightarrow> r | Some r' \<Rightarrow> r'))"

definition decode_what_fits :: "(string \<rightharpoonup> 'a setter) \<Rightarrow> 'a \<Rightarrow> json option \<Rightarrow> 'a" where
  "decode_what_fits fields_of zero doc = (case doc of Some (JObj ms) \<Rightarrow> keep_members fields_of ms zero | _ \<Rightarrow> zero)"

text \<open>\<open>omitempty\<close> on a string.\<close>

definition omitempty :: "string \<Rightarrow> string \<Rightarrow> (string \<times> json) list" where
  "omitempty n s = (if s = [] then [] else [(n, JStr s)])"

lemmas json_simps = as_string_def as_int64_def as_float_def as_map_def decode_struct_def decode_what_fits_def omitempty_def

end
