(* ===== verification/SimServer.thy ===== *)
theory SimServer
  imports Json Sharding Psp "HOL-Library.AList"
begin

text \<open>
  The provider simulator (internal/simulator): the charges it keeps under idempotency keys
  (charges.go), the fault catalogue and engine (faults.go), decline triggers (declines.go), the two
  places where faults are injected (fault_injection.go), the handlers of the charge endpoints
  (handlers_charges.go) and of the admin endpoints (handlers_admin.go), the callback emitter
  (webhooks.go) and the route table (server.go).

  Probabilities are rationals, which every float64 is. The generator that turns a seed into a draw
  (math/rand), the text of a UUID and of an instant, JSON text of an event and HMAC-SHA256 are
  parameters, in \<open>SimEnv\<close>. One request reads the clock once. Whether the client is still there when a
  wait ends is an input of the request. A goroutine started in the background is an entry of
  \<open>sv_background\<close> until it runs. A fresh UUID is a counter of the server.
\<close>

unbundle bit_operations_syntax

record SimEvent =
  xe_ID :: string
  xe_Type :: string
  xe_Reference :: string
  xe_Status :: string
  xe_CreatedAt :: time
  xe_Sequence :: int64

record SimEnv =
  en_uuid :: "uuid \<Rightarrow> string"
  en_time :: "time \<Rightarrow> string"
  en_Float64 :: "int64 \<Rightarrow> rat"
  en_Intn :: "int64 \<Rightarrow> int \<Rightarrow> int"
  en_marshal :: "SimEvent \<Rightarrow> string"
  en_hmac :: "string \<Rightarrow> string \<Rightarrow> string"

record SimCtx =
  cx_now :: time
  cx_goneSlow :: bool
  cx_goneHang :: bool

section \<open>Charges (charges.go)\<close>

record Charge =
  ch_Reference :: string
  ch_IdempotencyKey :: string
  ch_TransactionID :: string
  ch_Operation :: string
  ch_AmountMinor :: int64
  ch_Currency :: string
  ch_Status :: string
  ch_Mode :: string
  ch_CreatedAt :: time
  ch_ResolvedAt :: time

record SimStore =
  ss_byKey :: "(string \<times> Charge) list"
  ss_byRefKey :: "string \<rightharpoonup> string"
  ss_attempts :: "string \<Rightarrow> nat"

definition NewStore :: SimStore where
  "NewStore = \<lparr>ss_byKey = [], ss_byRefKey = Map.empty, ss_attempts = (\<lambda>_. 0)\<rparr>"

definition NextAttempt :: "string \<Rightarrow> SimStore \<Rightarrow> nat \<times> SimStore" where
  "NextAttempt key s = (let n = ss_attempts s key + 1 in (n, s\<lparr>ss_attempts := (ss_attempts s)(key := n)\<rparr>))"

definition CurrentAttempt :: "string \<Rightarrow> SimStore \<Rightarrow> nat" where
  "CurrentAttempt key s = ss_attempts s key"

definition GetOrCreate :: "string \<Rightarrow> time \<Rightarrow> string \<Rightarrow> Charge \<Rightarrow> SimStore \<Rightarrow> (Charge \<times> bool) \<times> SimStore" where
  "GetOrCreate uuidText now key template s =
     (case map_of (ss_byKey s) key of
        Some existing \<Rightarrow> ((existing, False), s)
      | None \<Rightarrow>
          let stored = template\<lparr>ch_IdempotencyKey := key, ch_Reference := ''ch_'' @ uuidText, ch_CreatedAt := now\<rparr>
          in ((stored, True),
              s\<lparr>ss_byKey := ss_byKey s @ [(key, stored)], ss_byRefKey := (ss_byRefKey s)(ch_Reference stored \<mapsto> key)\<rparr>))"

definition Charge_Get :: "string \<Rightarrow> SimStore \<Rightarrow> Charge option" where
  "Charge_Get key s = map_of (ss_byKey s) key"

definition GetByReference :: "string \<Rightarrow> SimStore \<Rightarrow> Charge option" where
  "GetByReference reference s = (case ss_byRefKey s reference of None \<Rightarrow> None | Some key \<Rightarrow> Charge_Get key s)"

text \<open>A reference whose key has no charge would be a nil dereference; \<open>store_ok\<close> excludes it.\<close>

definition SetStatus :: "time \<Rightarrow> string \<Rightarrow> string \<Rightarrow> SimStore \<Rightarrow> Charge option \<times> SimStore" where
  "SetStatus now reference status s =
     (case ss_byRefKey s reference of
        None \<Rightarrow> (None, s)
      | Some key \<Rightarrow>
          (case map_of (ss_byKey s) key of
             None \<Rightarrow> (None, s)
           | Some c \<Rightarrow> let c' = c\<lparr>ch_Status := status, ch_ResolvedAt := now\<rparr>
                       in (Some c', s\<lparr>ss_byKey := AList.update key c' (ss_byKey s)\<rparr>)))"

definition Charge_Count :: "SimStore \<Rightarrow> nat" where
  "Charge_Count s = length (ss_byKey s)"

definition Charge_List :: "SimStore \<Rightarrow> Charge list" where
  "Charge_List s = sort_key ch_CreatedAt (map snd (ss_byKey s))"

section \<open>Declines (declines.go)\<close>

definition triggerInsufficientFunds :: int where "triggerInsufficientFunds = 51"
definition triggerDoNotHonor :: int where "triggerDoNotHonor = 5"
definition triggerSuspectedFraud :: int where "triggerSuspectedFraud = 59"
definition triggerExpiredCard :: int where "triggerExpiredCard = 54"

definition declineCodeFor :: "int64 \<Rightarrow> string option" where
  "declineCodeFor amountMinor =
     (if sint amountMinor \<le> 0 then None
      else let r = sint amountMinor mod 100 in
        if r = triggerInsufficientFunds then Some ''insufficient_funds''
        else if r = triggerDoNotHonor then Some ''do_not_honor''
        else if r = triggerSuspectedFraud then Some ''suspected_fraud''
        else if r = triggerExpiredCard then Some ''expired_card''
        else None)"

section \<open>Faults (faults.go)\<close>

datatype Fault =
    FaultTimeoutAfterSuccess | FaultError5xxAfterSuccess | FaultDuplicateWebhook | FaultOutOfOrderWebhook
  | FaultWebhookBeforeResponse | FaultSlowResponse | FaultPartialCaptureDrift | FaultStaleStatus

fun fault_string :: "Fault \<Rightarrow> string" where
  "fault_string FaultTimeoutAfterSuccess = ''timeout_after_success''"
| "fault_string FaultError5xxAfterSuccess = ''error_5xx_after_success''"
| "fault_string FaultDuplicateWebhook = ''duplicate_webhook''"
| "fault_string FaultOutOfOrderWebhook = ''out_of_order_webhook''"
| "fault_string FaultWebhookBeforeResponse = ''webhook_before_response''"
| "fault_string FaultSlowResponse = ''slow_response''"
| "fault_string FaultPartialCaptureDrift = ''partial_capture_drift''"
| "fault_string FaultStaleStatus = ''stale_status''"

definition AllFaults :: "Fault list" where
  "AllFaults = [FaultTimeoutAfterSuccess, FaultError5xxAfterSuccess, FaultDuplicateWebhook, FaultOutOfOrderWebhook,
     FaultWebhookBeforeResponse, FaultSlowResponse, FaultPartialCaptureDrift, FaultStaleStatus]"

definition knownFault :: "string \<Rightarrow> Fault option" where
  "knownFault name = find (\<lambda>f. fault_string f = name) AllFaults"

text \<open>A fault missing from the map of probabilities reads as zero.\<close>

record SimConfig =
  cf_Seed :: int64
  cf_Probabilities :: "Fault \<Rightarrow> rat"
  cf_OutageUntil :: time
  cf_SlowResponseMinMs :: int
  cf_SlowResponseMaxMs :: int
  cf_WebhookDelayMs :: int

definition zero_time :: time where
  "zero_time = - 62135596800000000000"

definition Preset :: "string \<Rightarrow> int64 \<Rightarrow> SimConfig option" where
  "Preset name seed =
     (let base = \<lparr>cf_Seed = seed, cf_Probabilities = (\<lambda>_. 0), cf_OutageUntil = zero_time,
                  cf_SlowResponseMinMs = 0, cf_SlowResponseMaxMs = 0, cf_WebhookDelayMs = 50\<rparr>
      in if name = ''healthy'' then Some base
         else if name = ''degraded'' then
           Some (base\<lparr>cf_Probabilities := (\<lambda>_. 0)(FaultTimeoutAfterSuccess := 5 / 100, FaultSlowResponse := 15 / 100,
                        FaultDuplicateWebhook := 10 / 100),
                      cf_SlowResponseMinMs := 200, cf_SlowResponseMaxMs := 800\<rparr>)
         else if name = ''chaos'' then
           Some (base\<lparr>cf_Probabilities := (\<lambda>_. 0)(FaultTimeoutAfterSuccess := 12 / 100, FaultError5xxAfterSuccess := 8 / 100,
                        FaultDuplicateWebhook := 25 / 100, FaultOutOfOrderWebhook := 15 / 100,
                        FaultWebhookBeforeResponse := 10 / 100, FaultSlowResponse := 20 / 100,
                        FaultPartialCaptureDrift := 5 / 100, FaultStaleStatus := 10 / 100),
                      cf_SlowResponseMinMs := 300, cf_SlowResponseMaxMs := 2000\<rparr>)
         else None)"

definition rngFor :: "int64 \<Rightarrow> string list \<Rightarrow> int64" where
  "rngFor seed parts = seed XOR foldl (\<lambda>h p. fnv1a h (p @ [CHR 0x00])) fnv_offset parts"

definition Fires :: "SimEnv \<Rightarrow> SimConfig \<Rightarrow> Fault \<Rightarrow> string \<Rightarrow> bool" where
  "Fires env cfg fault key =
     (let p = cf_Probabilities cfg fault in
      if p \<le> 0 then False else if p \<ge> 1 then True
      else en_Float64 env (rngFor (cf_Seed cfg) [key, fault_string fault]) < p)"

definition InOutage :: "SimConfig \<Rightarrow> time \<Rightarrow> bool" where
  "InOutage cfg now \<longleftrightarrow> now < cf_OutageUntil cfg"

definition StartOutage :: "time \<Rightarrow> int64 \<Rightarrow> SimConfig \<Rightarrow> time \<times> SimConfig" where
  "StartOutage now d cfg = (let until' = now + sint d in (until', cfg\<lparr>cf_OutageUntil := until'\<rparr>))"

definition SlowResponseDelay :: "SimEnv \<Rightarrow> SimConfig \<Rightarrow> string \<Rightarrow> int" where
  "SlowResponseDelay env cfg key =
     (let minMs = cf_SlowResponseMinMs cfg; maxMs = cf_SlowResponseMaxMs cfg in
      if maxMs \<le> minMs then minMs * 1000000
      else (minMs + en_Intn env (rngFor (cf_Seed cfg) [key, ''slow'']) (maxMs - minMs)) * 1000000)"

section \<open>The server and its wire (server.go)\<close>

record WebhookEmitter =
  em_targetURL :: string
  em_secret :: string
  em_sequence :: int64
  em_delivered :: "SimEvent list"
  em_posted :: "(string \<times> string \<times> string) list"

record SimServer =
  sv_store :: SimStore
  sv_engine :: SimConfig
  sv_hooks :: WebhookEmitter
  sv_background :: "(string \<times> string) list"
  sv_nextid :: uuid

record HttpRequest =
  rq_route :: string
  rq_header :: "string \<Rightarrow> string"
  rq_query :: "string \<Rightarrow> string"
  rq_body :: "json option"

datatype HttpReply = Reply int "json option" | NoReply

definition simAuthorized :: string where "simAuthorized = ''AUTH_OK''"
definition simCaptured :: string where "simCaptured = ''CAPTURED''"
definition simRefunded :: string where "simRefunded = ''REFUNDED''"
definition simVoided :: string where "simVoided = ''VOIDED''"
definition simPending :: string where "simPending = ''PENDING_ASYNC''"
definition simRequiresAction :: string where "simRequiresAction = ''ACTION_REQUIRED''"
definition simFailed :: string where "simFailed = ''FAILED''"

definition ModeSync :: string where "ModeSync = ''sync''"
definition ModeAsync :: string where "ModeAsync = ''async''"
definition ModeRedirect :: string where "ModeRedirect = ''redirect''"

record chargeRequest =
  cr_TransactionID :: string
  cr_Reference :: string
  cr_AmountMinor :: int64
  cr_Currency :: string
  cr_ReturnURL :: string

definition charge_fields :: "string \<rightharpoonup> chargeRequest setter" where
  "charge_fields = [''transaction_id'' \<mapsto> as_string (\<lambda>s r. r\<lparr>cr_TransactionID := s\<rparr>),
     ''reference'' \<mapsto> as_string (\<lambda>s r. r\<lparr>cr_Reference := s\<rparr>),
     ''amount_minor'' \<mapsto> as_int64 (\<lambda>i r. r\<lparr>cr_AmountMinor := i\<rparr>),
     ''currency'' \<mapsto> as_string (\<lambda>s r. r\<lparr>cr_Currency := s\<rparr>),
     ''return_url'' \<mapsto> as_string (\<lambda>s r. r\<lparr>cr_ReturnURL := s\<rparr>)]"

definition zero_charge :: chargeRequest where
  "zero_charge = \<lparr>cr_TransactionID = [], cr_Reference = [], cr_AmountMinor = 0, cr_Currency = [], cr_ReturnURL = []\<rparr>"

definition decode :: "json option \<Rightarrow> chargeRequest option" where
  "decode bdy = decode_struct True charge_fields zero_charge bdy"

record chargeResponse =
  cs_Reference :: string
  cs_Status :: string
  cs_AmountMinor :: int64
  cs_Currency :: string
  cs_RedirectURL :: string
  cs_RawStatus :: string
  cs_RawCode :: string

definition encode_response :: "chargeResponse \<Rightarrow> json" where
  "encode_response r = JObj ([(''reference'', JStr (cs_Reference r)), (''status'', JStr (cs_Status r)),
     (''amount_minor'', JInt (sint (cs_AmountMinor r))), (''currency'', JStr (cs_Currency r))]
     @ omitempty ''redirect_url'' (cs_RedirectURL r) @ [(''raw_status'', JStr (cs_RawStatus r))]
     @ omitempty ''raw_code'' (cs_RawCode r))"

definition charge_response :: "Charge \<Rightarrow> chargeResponse" where
  "charge_response c = \<lparr>cs_Reference = ch_Reference c, cs_Status = ch_Status c, cs_AmountMinor = ch_AmountMinor c,
     cs_Currency = ch_Currency c, cs_RedirectURL = [], cs_RawStatus = ch_Status c, cs_RawCode = []\<rparr>"

definition writeJSON :: "int \<Rightarrow> json \<Rightarrow> HttpReply" where
  "writeJSON status bdy = Reply status (Some bdy)"

definition writeError :: "int \<Rightarrow> string \<Rightarrow> string \<Rightarrow> HttpReply" where
  "writeError status code message = writeJSON status (JObj [(''code'', JStr code), (''message'', JStr message)])"

definition modeFrom :: "HttpRequest \<Rightarrow> string" where
  "modeFrom r = (let m = rq_header r ''X-Sim-Mode'' in if m = ModeAsync \<or> m = ModeRedirect then m else ModeSync)"

definition idempotencyKeyFrom :: "HttpRequest \<Rightarrow> string" where
  "idempotencyKeyFrom r = rq_header r ''Idempotency-Key''"

section \<open>Callbacks (webhooks.go)\<close>

definition NewWebhookEmitter :: "string \<Rightarrow> string \<Rightarrow> WebhookEmitter" where
  "NewWebhookEmitter targetURL secret =
     \<lparr>em_targetURL = targetURL, em_secret = secret, em_sequence = 0, em_delivered = [], em_posted = []\<rparr>"

definition sign :: "(string \<Rightarrow> string \<Rightarrow> string) \<Rightarrow> string \<Rightarrow> string \<Rightarrow> string \<Rightarrow> string" where
  "sign hmac secret timestamp bdy = hmac secret (timestamp @ ''.'' @ bdy)"

definition Emitter_build :: "SimEnv \<Rightarrow> time \<Rightarrow> string \<Rightarrow> string \<Rightarrow> SimServer \<Rightarrow> SimEvent \<times> SimServer" where
  "Emitter_build env now reference status s =
     (let seq = em_sequence (sv_hooks s) + 1 in
      (\<lparr>xe_ID = ''evt_'' @ en_uuid env (sv_nextid s), xe_Type = ''charge.updated'', xe_Reference = reference,
        xe_Status = status, xe_CreatedAt = now, xe_Sequence = seq\<rparr>,
       s\<lparr>sv_hooks := (sv_hooks s)\<lparr>em_sequence := seq\<rparr>, sv_nextid := Suc (sv_nextid s)\<rparr>))"

text \<open>What is posted: timestamp header, signature header and body. Whether it arrives is the network's affair.\<close>

definition Emitter_deliver :: "SimEnv \<Rightarrow> time \<Rightarrow> SimEvent \<Rightarrow> WebhookEmitter \<Rightarrow> WebhookEmitter" where
  "Emitter_deliver env now ev e =
     (let e1 = e\<lparr>em_delivered := em_delivered e @ [ev]\<rparr> in
      if em_targetURL e = [] then e1
      else let bdy = en_marshal env ev; ts = show_int (now div 1000000000)
           in e1\<lparr>em_posted := em_posted e1 @ [(ts, sign (en_hmac env) (em_secret e) ts bdy, bdy)]\<rparr>)"

definition Emit :: "SimEnv \<Rightarrow> time \<Rightarrow> string \<Rightarrow> string \<Rightarrow> string \<Rightarrow> SimServer \<Rightarrow> SimServer" where
  "Emit env now reference key status s =
     (case Emitter_build env now reference status s of (ev, s1) \<Rightarrow>
        let events = (if Fires env (sv_engine s) FaultDuplicateWebhook key then [ev, ev, ev] else [ev]);
            (events', s2) =
              (if Fires env (sv_engine s) FaultOutOfOrderWebhook key
               then (case Emitter_build env now reference ''AUTH_PENDING_STALE'' s1 of (stale, s2) \<Rightarrow>
                       (events @ [stale\<lparr>xe_Sequence := xe_Sequence ev - 1\<rparr>], s2))
               else (events, s1))
        in s2\<lparr>sv_hooks := fold (Emitter_deliver env now) events' (sv_hooks s2)\<rparr>)"

definition Emitter_Reset :: "WebhookEmitter \<Rightarrow> WebhookEmitter" where
  "Emitter_Reset e = e\<lparr>em_delivered := [], em_sequence := 0\<rparr>"

section \<open>Fault injection (fault\_injection.go)\<close>

definition faultKey :: "string \<Rightarrow> nat \<Rightarrow> string" where
  "faultKey idempotencyKey attempt = idempotencyKey @ ''#'' @ show_nat attempt"

text \<open>A reply means that the request has been answered, or abandoned by its client.\<close>

definition applyPreFaults :: "SimEnv \<Rightarrow> SimCtx \<Rightarrow> string \<Rightarrow> SimServer \<Rightarrow> HttpReply option \<times> SimServer" where
  "applyPreFaults env cx key s =
     (case NextAttempt key (sv_store s) of (attempt, st) \<Rightarrow>
        let s1 = s\<lparr>sv_store := st\<rparr>; fk = faultKey key attempt in
        if InOutage (sv_engine s1) (cx_now cx)
        then (Some (writeError 503 ''provider_unavailable'' ''provider is in an outage window''), s1)
        else if Fires env (sv_engine s1) FaultSlowResponse fk \<and> cx_goneSlow cx then (Some NoReply, s1)
        else (None, s1))"

text \<open>A hanging connection whose client waits longer than the cap is answered by the HTTP library with an
  empty 200.\<close>

definition applyPostSuccessFaults :: "SimEnv \<Rightarrow> SimCtx \<Rightarrow> string \<Rightarrow> bool \<Rightarrow> SimServer \<Rightarrow> HttpReply option" where
  "applyPostSuccessFaults env cx key created s =
     (if \<not> created then None
      else let fk = faultKey key (CurrentAttempt key (sv_store s)) in
        if Fires env (sv_engine s) FaultTimeoutAfterSuccess fk
        then Some (if cx_goneHang cx then NoReply else Reply 200 None)
        else if Fires env (sv_engine s) FaultError5xxAfterSuccess fk
        then Some (writeError 500 ''internal_error'' ''provider internal error'')
        else None)"

section \<open>Charge endpoints (handlers\_charges.go)\<close>

definition record_charge :: "SimEnv \<Rightarrow> time \<Rightarrow> string \<Rightarrow> Charge \<Rightarrow> SimServer \<Rightarrow> (Charge \<times> bool) \<times> SimServer" where
  "record_charge env now key template s =
     (case GetOrCreate (en_uuid env (sv_nextid s)) now key template (sv_store s) of ((charge, created), st) \<Rightarrow>
        ((charge, created), s\<lparr>sv_store := st, sv_nextid := Suc (sv_nextid s)\<rparr>))"

text \<open>What becomes of an asynchronous charge: the store first, the callback afterwards.\<close>

definition resolve_async :: "SimEnv \<Rightarrow> time \<Rightarrow> string \<Rightarrow> string \<Rightarrow> SimServer \<Rightarrow> SimServer" where
  "resolve_async env now reference key s =
     Emit env now reference key simAuthorized (s\<lparr>sv_store := snd (SetStatus now reference simAuthorized (sv_store s))\<rparr>)"

definition settle_async :: "SimEnv \<Rightarrow> time \<Rightarrow> string \<Rightarrow> string \<Rightarrow> SimServer \<Rightarrow> SimServer" where
  "settle_async env now reference key s =
     (if Fires env (sv_engine s) FaultWebhookBeforeResponse (faultKey key (CurrentAttempt key (sv_store s)))
      then resolve_async env now reference key s
      else s\<lparr>sv_background := sv_background s @ [(reference, key)]\<rparr>)"

definition handleAuthorize :: "SimEnv \<Rightarrow> SimCtx \<Rightarrow> HttpRequest \<Rightarrow> SimServer \<Rightarrow> HttpReply \<times> SimServer" where
  "handleAuthorize env cx r s =
     (let key = idempotencyKeyFrom r in
      if key = [] then (writeError 400 ''idempotency_key_required'' ''Idempotency-Key header is required'', s)
      else (case decode (rq_body r) of
          None \<Rightarrow> (writeError 400 ''invalid_request'' ''malformed body'', s)
        | Some req \<Rightarrow>
            (case applyPreFaults env cx key s of
               (Some rep, s1) \<Rightarrow> (rep, s1)
             | (None, s1) \<Rightarrow>
                 (case declineCodeFor (cr_AmountMinor req) of
                    Some code \<Rightarrow> (writeError 422 code ''the issuer declined this charge'', s1)
                  | None \<Rightarrow>
                      let mode = modeFrom r;
                          status = (if mode = ModeAsync then simPending
                                    else if mode = ModeRedirect then simRequiresAction else simAuthorized)
                      in (case record_charge env (cx_now cx) key
                             \<lparr>ch_Reference = [], ch_IdempotencyKey = [], ch_TransactionID = cr_TransactionID req,
                              ch_Operation = ''authorize'', ch_AmountMinor = cr_AmountMinor req,
                              ch_Currency = cr_Currency req, ch_Status = status, ch_Mode = mode,
                              ch_CreatedAt = zero_time, ch_ResolvedAt = zero_time\<rparr> s1 of
                           ((charge, created), s2) \<Rightarrow>
                             let resp = (charge_response charge)\<lparr>cs_RedirectURL :=
                                   (if ch_Status charge = simRequiresAction
                                    then ''/v1/simulate/challenge?reference='' @ ch_Reference charge else [])\<rparr>;
                                 s3 = (if created \<and> mode = ModeAsync
                                       then settle_async env (cx_now cx) (ch_Reference charge) key s2 else s2)
                             in (case applyPostSuccessFaults env cx key created s3 of
                                   Some rep \<Rightarrow> (rep, s3)
                                 | None \<Rightarrow> (writeJSON 200 (encode_response resp), s3)))))))"

definition handleFollowOn :: "SimEnv \<Rightarrow> SimCtx \<Rightarrow> string \<Rightarrow> string \<Rightarrow> HttpRequest \<Rightarrow> SimServer \<Rightarrow> HttpReply \<times> SimServer" where
  "handleFollowOn env cx operation successStatus r s =
     (let key = idempotencyKeyFrom r in
      if key = [] then (writeError 400 ''idempotency_key_required'' ''Idempotency-Key header is required'', s)
      else (case decode (rq_body r) of
          None \<Rightarrow> (writeError 400 ''invalid_request'' ''malformed body'', s)
        | Some req \<Rightarrow>
            (case applyPreFaults env cx key s of
               (Some rep, s1) \<Rightarrow> (rep, s1)
             | (None, s1) \<Rightarrow>
                 if cr_Reference req = [] then (writeError 400 ''reference_required'' ''reference is required'', s1)
                 else (case GetByReference (cr_Reference req) (sv_store s1) of
                     None \<Rightarrow> (writeError 404 ''charge_not_found'' ''no charge with that reference'', s1)
                   | Some original \<Rightarrow>
                       let amount = (if operation = ''capture'' \<and> Fires env (sv_engine s1) FaultPartialCaptureDrift key
                                        \<and> sint (cr_AmountMinor req) > 1
                                     then cr_AmountMinor req - 1 else cr_AmountMinor req)
                       in (case record_charge env (cx_now cx) key
                              \<lparr>ch_Reference = [], ch_IdempotencyKey = [], ch_TransactionID = ch_TransactionID original,
                               ch_Operation = operation, ch_AmountMinor = amount, ch_Currency = ch_Currency original,
                               ch_Status = successStatus, ch_Mode = ch_Mode original,
                               ch_CreatedAt = zero_time, ch_ResolvedAt = zero_time\<rparr> s1 of
                            ((charge, created), s2) \<Rightarrow>
                              (case applyPostSuccessFaults env cx key created s2 of
                                 Some rep \<Rightarrow> (rep, s2)
                               | None \<Rightarrow> (writeJSON 200 (encode_response (charge_response charge)), s2)))))))"

definition handleCapture :: "SimEnv \<Rightarrow> SimCtx \<Rightarrow> HttpRequest \<Rightarrow> SimServer \<Rightarrow> HttpReply \<times> SimServer" where
  "handleCapture env cx = handleFollowOn env cx ''capture'' simCaptured"

definition handleRefund :: "SimEnv \<Rightarrow> SimCtx \<Rightarrow> HttpRequest \<Rightarrow> SimServer \<Rightarrow> HttpReply \<times> SimServer" where
  "handleRefund env cx = handleFollowOn env cx ''refund'' simRefunded"

definition handleVoid :: "SimEnv \<Rightarrow> SimCtx \<Rightarrow> HttpRequest \<Rightarrow> SimServer \<Rightarrow> HttpReply \<times> SimServer" where
  "handleVoid env cx = handleFollowOn env cx ''void'' simVoided"

definition not_found :: "string \<Rightarrow> HttpReply" where
  "not_found rawStatus = writeJSON 200 (encode_response \<lparr>cs_Reference = [], cs_Status = ''NOT_FOUND'', cs_AmountMinor = 0,
     cs_Currency = [], cs_RedirectURL = [], cs_RawStatus = rawStatus, cs_RawCode = []\<rparr>)"

definition handleStatus :: "SimEnv \<Rightarrow> SimCtx \<Rightarrow> HttpRequest \<Rightarrow> SimServer \<Rightarrow> HttpReply" where
  "handleStatus env cx r s =
     (let key = rq_query r ''idempotency_key'' in
      if key = [] then writeError 400 ''idempotency_key_required'' ''idempotency_key query parameter is required''
      else if InOutage (sv_engine s) (cx_now cx)
      then writeError 503 ''provider_unavailable'' ''provider is in an outage window''
      else (case Charge_Get key (sv_store s) of
          None \<Rightarrow> not_found ''NOT_FOUND''
        | Some charge \<Rightarrow>
            if Fires env (sv_engine s) FaultStaleStatus key \<and> cx_now cx - ch_CreatedAt charge < 2000000000
            then not_found ''NOT_FOUND_STALE''
            else writeJSON 200 (encode_response (charge_response charge))))"

section \<open>Admin endpoints (handlers\_admin.go)\<close>

definition handleGetFaults :: "SimEnv \<Rightarrow> SimCtx \<Rightarrow> SimServer \<Rightarrow> HttpReply" where
  "handleGetFaults env cx s =
     (let cfg = sv_engine s in
      writeJSON 200 (JObj [(''seed'', JInt (sint (cf_Seed cfg))),
        (''probabilities'', JObj (map (\<lambda>f. (fault_string f, JFloat (cf_Probabilities cfg f))) AllFaults)),
        (''outage_until'', JStr (en_time env (cf_OutageUntil cfg))),
        (''in_outage'', JBool (InOutage cfg (cx_now cx))),
        (''slow_response_min_ms'', JInt (cf_SlowResponseMinMs cfg)),
        (''slow_response_max_ms'', JInt (cf_SlowResponseMaxMs cfg)),
        (''webhook_delay_ms'', JInt (cf_WebhookDelayMs cfg))]))"

record setFaultsRequest =
  sf_Seed :: "int64 option"
  sf_Probabilities :: "(string \<times> rat) list"
  sf_SlowResponseMinMs :: "int64 option"
  sf_SlowResponseMaxMs :: "int64 option"
  sf_WebhookDelayMs :: "int64 option"

definition set_faults_fields :: "string \<rightharpoonup> setFaultsRequest setter" where
  "set_faults_fields = [''seed'' \<mapsto> as_int64 (\<lambda>i r. r\<lparr>sf_Seed := Some i\<rparr>),
     ''probabilities'' \<mapsto> as_map (\<lambda>ps r. r\<lparr>sf_Probabilities := foldl (\<lambda>m (k, p). AList.update k p m) (sf_Probabilities r) ps\<rparr>),
     ''slow_response_min_ms'' \<mapsto> as_int64 (\<lambda>i r. r\<lparr>sf_SlowResponseMinMs := Some i\<rparr>),
     ''slow_response_max_ms'' \<mapsto> as_int64 (\<lambda>i r. r\<lparr>sf_SlowResponseMaxMs := Some i\<rparr>),
     ''webhook_delay_ms'' \<mapsto> as_int64 (\<lambda>i r. r\<lparr>sf_WebhookDelayMs := Some i\<rparr>)]"

text \<open>Go ranges over the map in an unspecified order: which of several bad members is reported is
  unspecified, that one is reported is not.\<close>

fun set_probabilities :: "(string \<times> rat) list \<Rightarrow> (Fault \<Rightarrow> rat) \<Rightarrow> HttpReply + (Fault \<Rightarrow> rat)" where
  "set_probabilities [] m = Inr m"
| "set_probabilities ((name, p) # ps) m =
     (case knownFault name of
        None \<Rightarrow> Inl (writeError 400 ''unknown_fault'' ''not a known fault'')
      | Some fault \<Rightarrow>
          if p < 0 \<or> p > 1 then Inl (writeError 400 ''invalid_probability'' ''must be between 0 and 1'')
          else set_probabilities ps (m(fault := p)))"

definition handleSetFaults :: "SimEnv \<Rightarrow> SimCtx \<Rightarrow> HttpRequest \<Rightarrow> SimServer \<Rightarrow> HttpReply \<times> SimServer" where
  "handleSetFaults env cx r s =
     (case decode_struct True set_faults_fields \<lparr>sf_Seed = None, sf_Probabilities = [], sf_SlowResponseMinMs = None,
             sf_SlowResponseMaxMs = None, sf_WebhookDelayMs = None\<rparr> (rq_body r) of
        None \<Rightarrow> (writeError 400 ''invalid_request'' ''malformed body'', s)
      | Some req \<Rightarrow>
          let cfg = sv_engine s in
          (case set_probabilities (sf_Probabilities req) (cf_Probabilities cfg) of
             Inl rep \<Rightarrow> (rep, s)
           | Inr ps \<Rightarrow>
               let s' = s\<lparr>sv_engine := cfg\<lparr>cf_Probabilities := ps,
                     cf_Seed := (case sf_Seed req of None \<Rightarrow> cf_Seed cfg | Some i \<Rightarrow> i),
                     cf_SlowResponseMinMs := (case sf_SlowResponseMinMs req of None \<Rightarrow> cf_SlowResponseMinMs cfg | Some i \<Rightarrow> sint i),
                     cf_SlowResponseMaxMs := (case sf_SlowResponseMaxMs req of None \<Rightarrow> cf_SlowResponseMaxMs cfg | Some i \<Rightarrow> sint i),
                     cf_WebhookDelayMs := (case sf_WebhookDelayMs req of None \<Rightarrow> cf_WebhookDelayMs cfg | Some i \<Rightarrow> sint i)\<rparr>\<rparr>
               in (handleGetFaults env cx s', s')))"

definition handleSetPreset :: "SimEnv \<Rightarrow> SimCtx \<Rightarrow> HttpRequest \<Rightarrow> SimServer \<Rightarrow> HttpReply \<times> SimServer" where
  "handleSetPreset env cx r s =
     (let raw = rq_query r ''seed'' in
      case (if raw = [] then Some (sint (cf_Seed (sv_engine s))) else ParseInt64 raw) of
        None \<Rightarrow> (writeError 400 ''invalid_seed'' ''invalid syntax'', s)
      | Some seed \<Rightarrow>
          (case Preset (rq_query r ''name'') (word_of_int seed) of
             None \<Rightarrow> (writeError 400 ''unknown_preset'' ''expected healthy, degraded, or chaos'', s)
           | Some cfg \<Rightarrow> let s' = s\<lparr>sv_engine := cfg\<rparr> in (handleGetFaults env cx s', s')))"

definition handleOutage :: "SimEnv \<Rightarrow> SimCtx \<Rightarrow> HttpRequest \<Rightarrow> SimServer \<Rightarrow> HttpReply \<times> SimServer" where
  "handleOutage env cx r s =
     (let raw = rq_query r ''seconds'' in
      case (if raw = [] then Some 30 else ParseInt64 raw) of
        None \<Rightarrow> (writeError 400 ''invalid_seconds'' ''seconds must be a non-negative integer'', s)
      | Some seconds \<Rightarrow>
          if seconds < 0 then (writeError 400 ''invalid_seconds'' ''seconds must be a non-negative integer'', s)
          else (case StartOutage (cx_now cx) (word_of_int seconds * 1000000000) (sv_engine s) of (until', cfg) \<Rightarrow>
                  (writeJSON 200 (JObj [(''outage_until'', JStr (en_time env until'))]), s\<lparr>sv_engine := cfg\<rparr>)))"

definition encode_charge :: "SimEnv \<Rightarrow> Charge \<Rightarrow> json" where
  "encode_charge env c = JObj [(''reference'', JStr (ch_Reference c)), (''idempotency_key'', JStr (ch_IdempotencyKey c)),
     (''transaction_id'', JStr (ch_TransactionID c)), (''operation'', JStr (ch_Operation c)),
     (''amount_minor'', JInt (sint (ch_AmountMinor c))), (''currency'', JStr (ch_Currency c)),
     (''status'', JStr (ch_Status c)), (''mode'', JStr (ch_Mode c)),
     (''created_at'', JStr (en_time env (ch_CreatedAt c))), (''resolved_at'', JStr (en_time env (ch_ResolvedAt c)))]"

definition handleListCharges :: "SimEnv \<Rightarrow> SimServer \<Rightarrow> HttpReply" where
  "handleListCharges env s =
     (let charges = Charge_List (sv_store s) in
      writeJSON 200 (JObj [(''count'', JInt (int (length charges))), (''charges'', JArr (map (encode_charge env) charges))]))"

definition handleReset :: "SimServer \<Rightarrow> HttpReply \<times> SimServer" where
  "handleReset s =
     (writeJSON 200 (JObj [(''status'', JStr ''reset'')]), s\<lparr>sv_store := NewStore, sv_hooks := Emitter_Reset (sv_hooks s)\<rparr>)"

definition complete_fields :: "string \<rightharpoonup> (string \<times> string) setter" where
  "complete_fields = [''reference'' \<mapsto> as_string (\<lambda>s (_, b). (s, b)), ''outcome'' \<mapsto> as_string (\<lambda>s (a, _). (a, s))]"

definition handleComplete :: "SimEnv \<Rightarrow> SimCtx \<Rightarrow> HttpRequest \<Rightarrow> SimServer \<Rightarrow> HttpReply \<times> SimServer" where
  "handleComplete env cx r s =
     (case decode_struct True complete_fields ([], []) (rq_body r) of
        None \<Rightarrow> (writeError 400 ''invalid_request'' ''malformed body'', s)
      | Some (reference, outcome) \<Rightarrow>
          let status = (if outcome = ''failed'' then simFailed else simAuthorized) in
          (case SetStatus (cx_now cx) reference status (sv_store s) of
             (None, st) \<Rightarrow> (writeError 404 ''charge_not_found'' ''no charge with that reference'', s\<lparr>sv_store := st\<rparr>)
           | (Some charge, st) \<Rightarrow>
               (writeJSON 200 (encode_response (charge_response charge)),
                Emit env (cx_now cx) (ch_Reference charge) (ch_IdempotencyKey charge) status (s\<lparr>sv_store := st\<rparr>))))"

section \<open>The route table\<close>

text \<open>Every other route is refused by the mux; the 404 here stands for its 405 too.\<close>

definition ServeHTTP :: "SimEnv \<Rightarrow> SimCtx \<Rightarrow> HttpRequest \<Rightarrow> SimServer \<Rightarrow> HttpReply \<times> SimServer" where
  "ServeHTTP env cx r s =
     (let route = rq_route r in
      if route = ''POST /v1/charges/authorize'' then handleAuthorize env cx r s
      else if route = ''POST /v1/charges/capture'' then handleCapture env cx r s
      else if route = ''POST /v1/charges/refund'' then handleRefund env cx r s
      else if route = ''POST /v1/charges/void'' then handleVoid env cx r s
      else if route = ''GET /v1/charges/status'' then (handleStatus env cx r s, s)
      else if route = ''POST /v1/simulate/complete'' then handleComplete env cx r s
      else if route = ''GET /admin/charges'' then (handleListCharges env s, s)
      else if route = ''GET /admin/faults'' then (handleGetFaults env cx s, s)
      else if route = ''PUT /admin/faults'' then handleSetFaults env cx r s
      else if route = ''PUT /admin/faults/preset'' then handleSetPreset env cx r s
      else if route = ''POST /admin/outage'' then handleOutage env cx r s
      else if route = ''POST /admin/reset'' then handleReset s
      else if route = ''GET /healthz'' then (writeJSON 200 (JObj [(''status'', JStr ''ok'')]), s)
      else (Reply 404 None, s))"

text \<open>A pending background task runs: \<open>i\<close> picks one of them.\<close>

definition run_background :: "SimEnv \<Rightarrow> time \<Rightarrow> nat \<Rightarrow> SimServer \<Rightarrow> SimServer" where
  "run_background env now i s =
     (if i < length (sv_background s)
      then case sv_background s ! i of (reference, key) \<Rightarrow>
        resolve_async env now reference key
          (s\<lparr>sv_background := take i (sv_background s) @ drop (Suc i) (sv_background s)\<rparr>)
      else s)"

definition NewServer :: "SimConfig \<Rightarrow> WebhookEmitter \<Rightarrow> SimServer" where
  "NewServer cfg hooks = \<lparr>sv_store = NewStore, sv_engine = cfg, sv_hooks = hooks, sv_background = [], sv_nextid = 1\<rparr>"

end
