(* ===== verification/SimClient.thy ===== *)
theory SimClient
  imports SimServer
begin

text \<open>
  The adapter that speaks to the simulator (internal/psp/simclient): the translation of statuses and
  decline codes (mapping.go), the requests of the five operations, and the classification of
  everything that can come back (client.go). \<open>exchange\<close> is one HTTP exchange with the server of
  SimServer over a network that may lose the request, the reply or the body of the reply;
  \<open>simulated_adapter\<close> is the adapter the orchestrator registers, with the state of the provider as
  the requests so far have left it. The textual form of a UUID is a parameter.
\<close>

section \<open>Mapping (mapping.go)\<close>

definition mapStatus :: "string \<Rightarrow> Status" where
  "mapStatus raw =
     (if raw = ''AUTH_OK'' then StatusAuthorized
      else if raw = ''CAPTURED'' then StatusCaptured
      else if raw = ''REFUNDED'' then StatusRefunded
      else if raw = ''VOIDED'' then StatusVoided
      else if raw = ''PENDING_ASYNC'' then StatusPending
      else if raw = ''ACTION_REQUIRED'' then StatusRequiresAction
      else if raw = ''FAILED'' then StatusFailed
      else if raw = ''NOT_FOUND'' then StatusNotFound
      else StatusPending)"

definition mapDeclineCode :: "string \<Rightarrow> ErrorClass" where
  "mapDeclineCode code =
     (if code = ''insufficient_funds'' then ClassInsufficientFunds
      else if code = ''do_not_honor'' then ClassDoNotHonor
      else if code = ''suspected_fraud'' then ClassSuspectedFraud
      else if code = ''invalid_instrument'' \<or> code = ''expired_card'' then ClassInvalidInstrument
      else ClassDeclined)"

definition encode_request :: "chargeRequest \<Rightarrow> json" where
  "encode_request r = JObj ([(''transaction_id'', JStr (cr_TransactionID r))] @ omitempty ''reference'' (cr_Reference r)
     @ [(''amount_minor'', JInt (sint (cr_AmountMinor r))), (''currency'', JStr (cr_Currency r))]
     @ omitempty ''return_url'' (cr_ReturnURL r))"

definition response_fields :: "string \<rightharpoonup> chargeResponse setter" where
  "response_fields = [''reference'' \<mapsto> as_string (\<lambda>s r. r\<lparr>cs_Reference := s\<rparr>),
     ''status'' \<mapsto> as_string (\<lambda>s r. r\<lparr>cs_Status := s\<rparr>),
     ''amount_minor'' \<mapsto> as_int64 (\<lambda>i r. r\<lparr>cs_AmountMinor := i\<rparr>),
     ''currency'' \<mapsto> as_string (\<lambda>s r. r\<lparr>cs_Currency := s\<rparr>),
     ''redirect_url'' \<mapsto> as_string (\<lambda>s r. r\<lparr>cs_RedirectURL := s\<rparr>),
     ''raw_status'' \<mapsto> as_string (\<lambda>s r. r\<lparr>cs_RawStatus := s\<rparr>),
     ''raw_code'' \<mapsto> as_string (\<lambda>s r. r\<lparr>cs_RawCode := s\<rparr>)]"

definition zero_response :: chargeResponse where
  "zero_response = \<lparr>cs_Reference = [], cs_Status = [], cs_AmountMinor = 0, cs_Currency = [], cs_RedirectURL = [],
     cs_RawStatus = [], cs_RawCode = []\<rparr>"

definition error_fields :: "string \<rightharpoonup> (string \<times> string) setter" where
  "error_fields = [''code'' \<mapsto> as_string (\<lambda>s (_, b). (s, b)), ''message'' \<mapsto> as_string (\<lambda>s (a, _). (a, s))]"

section \<open>The client (client.go)\<close>

record ClientConfig =
  cc_Name :: string
  cc_Mode :: string
  cc_Timeout :: int

definition SimClient_New :: "ClientConfig \<Rightarrow> ClientConfig" where
  "SimClient_New cfg = (if cc_Timeout cfg \<le> 0 then cfg\<lparr>cc_Timeout := 5000000000\<rparr> else cfg)"

datatype transport_error = DeadlineExceeded | Canceled | NetTimeout | OtherTransport

text \<open>What \<open>http.Client.Do\<close> and reading the body give: a transport error, or a status with the body
  or a failure to read it.\<close>

datatype http_result = Failed transport_error | Answered int "json option" | BodyUnreadable int

definition classifyTransportError :: "ClientConfig \<Rightarrow> transport_error \<Rightarrow> gerror" where
  "classifyTransportError c err =
     (case err of
        DeadlineExceeded \<Rightarrow> PspError ClassTimeout (cc_Name c) []
      | Canceled \<Rightarrow> PspError ClassTimeout (cc_Name c) []
      | NetTimeout \<Rightarrow> PspError ClassTimeout (cc_Name c) []
      | OtherTransport \<Rightarrow> PspError ClassNetworkError (cc_Name c) [])"

definition classifyHTTPError :: "ClientConfig \<Rightarrow> int \<Rightarrow> json option \<Rightarrow> gerror" where
  "classifyHTTPError c status raw =
     (let code = fst (decode_what_fits error_fields ([], []) raw) in
      if status = 429 then PspError ClassRateLimited (cc_Name c) code
      else if status = 503 then PspError ClassUnavailable (cc_Name c) code
      else if status \<ge> 500 then PspError ClassUnknown (cc_Name c) code
      else if status = 422 \<or> status = 402 then PspError (mapDeclineCode code) (cc_Name c) code
      else PspError ClassInvalidInstrument (cc_Name c) code)"

definition no_money :: Money where
  "no_money = mk_money 0 []"

definition Client_do :: "ClientConfig \<Rightarrow> http_result \<Rightarrow> Response result" where
  "Client_do c res =
     (case res of
        Failed err \<Rightarrow> Inl (classifyTransportError c err)
      | BodyUnreadable _ \<Rightarrow> Inl (PspError ClassNetworkError (cc_Name c) [])
      | Answered status raw \<Rightarrow>
          if status \<noteq> 200 then Inl (classifyHTTPError c status raw)
          else (case decode_struct False response_fields zero_response raw of
              None \<Rightarrow> Inl (PspError ClassUnknown (cc_Name c) [])
            | Some bdy \<Rightarrow>
                let status' = mapStatus (cs_Status bdy) in
                if status' = StatusFailed then Inl (PspError ClassDeclined (cc_Name c) (cs_RawCode bdy))
                else (case (if cs_Currency bdy \<noteq> [] then Money_New (cs_AmountMinor bdy) (cs_Currency bdy)
                            else Inr no_money) of
                    Inl _ \<Rightarrow> Inl (PspError ClassUnknown (cc_Name c) [])
                  | Inr amount \<Rightarrow> Inr \<lparr>rs_Status = status', rs_ProviderReference = cs_Reference bdy, rs_Amount = amount\<rparr>)))"

definition post_request :: "ClientConfig \<Rightarrow> string \<Rightarrow> string \<Rightarrow> chargeRequest \<Rightarrow> HttpRequest" where
  "post_request c path idempotencyKey bdy =
     \<lparr>rq_route = ''POST '' @ path,
      rq_header = (\<lambda>_. [])(''Content-Type'' := ''application/json'', ''Idempotency-Key'' := idempotencyKey, ''X-Sim-Mode'' := cc_Mode c),
      rq_query = (\<lambda>_. []), rq_body = Some (encode_request bdy)\<rparr>"

definition Client_Authorize :: "ClientConfig \<Rightarrow> string \<Rightarrow> string \<Rightarrow> Money \<Rightarrow> string \<Rightarrow> HttpRequest" where
  "Client_Authorize c idempotencyKey transactionID amount returnURL =
     post_request c ''/v1/charges/authorize'' idempotencyKey
       \<lparr>cr_TransactionID = transactionID, cr_Reference = [], cr_AmountMinor = m_amount amount,
        cr_Currency = m_currency amount, cr_ReturnURL = returnURL\<rparr>"

definition Client_Capture :: "ClientConfig \<Rightarrow> string \<Rightarrow> string \<Rightarrow> string \<Rightarrow> Money \<Rightarrow> HttpRequest" where
  "Client_Capture c idempotencyKey transactionID providerReference amount =
     post_request c ''/v1/charges/capture'' idempotencyKey
       \<lparr>cr_TransactionID = transactionID, cr_Reference = providerReference, cr_AmountMinor = m_amount amount,
        cr_Currency = m_currency amount, cr_ReturnURL = []\<rparr>"

definition Client_Refund :: "ClientConfig \<Rightarrow> string \<Rightarrow> string \<Rightarrow> string \<Rightarrow> Money \<Rightarrow> HttpRequest" where
  "Client_Refund c idempotencyKey transactionID providerReference amount =
     post_request c ''/v1/charges/refund'' idempotencyKey
       \<lparr>cr_TransactionID = transactionID, cr_Reference = providerReference, cr_AmountMinor = m_amount amount,
        cr_Currency = m_currency amount, cr_ReturnURL = []\<rparr>"

definition Client_Void :: "ClientConfig \<Rightarrow> string \<Rightarrow> string \<Rightarrow> string \<Rightarrow> HttpRequest" where
  "Client_Void c idempotencyKey transactionID providerReference =
     post_request c ''/v1/charges/void'' idempotencyKey
       \<lparr>cr_TransactionID = transactionID, cr_Reference = providerReference, cr_AmountMinor = 0,
        cr_Currency = [], cr_ReturnURL = []\<rparr>"

definition Client_GetStatus :: "string \<Rightarrow> HttpRequest" where
  "Client_GetStatus idempotencyKey =
     \<lparr>rq_route = ''GET /v1/charges/status'', rq_header = (\<lambda>_. []),
      rq_query = (\<lambda>_. [])(''idempotency_key'' := idempotencyKey), rq_body = None\<rparr>"

section \<open>One exchange over an unreliable network\<close>

text \<open>The request never arrives; the server works and the reply is lost; its body is cut off; or
  everything arrives. A server that gives no reply leaves the client with the transport error.\<close>

datatype link = LostRequest transport_error | LostReply transport_error | LostBody | Delivered transport_error

definition exchange ::
  "SimEnv \<Rightarrow> SimCtx \<Rightarrow> link \<Rightarrow> HttpRequest \<Rightarrow> SimServer \<Rightarrow> http_result \<times> SimServer" where
  "exchange env cx l r s =
     (case l of
        LostRequest err \<Rightarrow> (Failed err, s)
      | LostReply err \<Rightarrow> (Failed err, snd (ServeHTTP env cx r s))
      | LostBody \<Rightarrow> (case ServeHTTP env cx r s of (NoReply, s') \<Rightarrow> (Failed DeadlineExceeded, s')
                       | (Reply status _, s') \<Rightarrow> (BodyUnreadable status, s'))
      | Delivered err \<Rightarrow> (case ServeHTTP env cx r s of (NoReply, s') \<Rightarrow> (Failed err, s')
                       | (Reply status bdy, s') \<Rightarrow> (Answered status bdy, s')))"

definition call_request :: "SimEnv \<Rightarrow> ClientConfig \<Rightarrow> ProviderCall \<Rightarrow> HttpRequest" where
  "call_request env c pc =
     (case pc of
        CallAuthorize key i amount \<Rightarrow> Client_Authorize c key (en_uuid env i) amount []
      | CallCapture key i reference amount \<Rightarrow> Client_Capture c key (en_uuid env i) reference amount
      | CallGetStatus key i \<Rightarrow> Client_GetStatus key)"

definition Client_call ::
  "SimEnv \<Rightarrow> ClientConfig \<Rightarrow> SimCtx \<Rightarrow> link \<Rightarrow> ProviderCall \<Rightarrow> SimServer \<Rightarrow> Response result \<times> SimServer" where
  "Client_call env c cx l pc s =
     (case exchange env cx l (call_request env c pc) s of (res, s') \<Rightarrow> (Client_do c res, s'))"

text \<open>What happens to the provider between two calls of ours: requests of other clients and background tasks.\<close>

datatype sim_step = SimRequest SimCtx HttpRequest | SimBackground time nat

fun sim_step_run :: "SimEnv \<Rightarrow> sim_step \<Rightarrow> SimServer \<Rightarrow> SimServer" where
  "sim_step_run env (SimRequest cx r) s = snd (ServeHTTP env cx r s)"
| "sim_step_run env (SimBackground now i) s = run_background env now i s"

text \<open>The environment of the \<open>n\<close>-th call: what others do before it, and its network.\<close>

type_synonym sim_weather = "nat \<Rightarrow> sim_step list \<times> SimCtx \<times> link"

definition weather_call ::
  "SimEnv \<Rightarrow> ClientConfig \<Rightarrow> sim_weather \<Rightarrow> nat \<Rightarrow> ProviderCall \<Rightarrow> SimServer \<Rightarrow> Response result \<times> SimServer" where
  "weather_call env c wt n pc s =
     (case wt n of (steps, cx, l) \<Rightarrow> Client_call env c cx l pc (fold (sim_step_run env) steps s))"

fun replay_calls ::
  "SimEnv \<Rightarrow> ClientConfig \<Rightarrow> sim_weather \<Rightarrow> nat \<Rightarrow> ProviderCall list \<Rightarrow> SimServer \<Rightarrow> SimServer" where
  "replay_calls env c wt n [] s = s"
| "replay_calls env c wt n (pc # pcs) s = replay_calls env c wt (Suc n) pcs (snd (weather_call env c wt n pc s))"

definition simulated_adapter :: "SimEnv \<Rightarrow> ClientConfig \<Rightarrow> sim_weather \<Rightarrow> SimServer \<Rightarrow> Adapter" where
  "simulated_adapter env c wt s0 =
     \<lparr>ad_Name = cc_Name c,
      ad_call = (\<lambda>h pc. fst (weather_call env c wt (length h) pc (replay_calls env c wt 0 h s0)))\<rparr>"

end
