(* ===== verification/SimClaims.thy ===== *)
theory SimClaims
  imports SimClient
begin

text \<open>
  What the simulated provider promises and what its client makes of it. The provider keeps at most
  one charge per idempotency key and never changes what a charge is, only its status; no request
  other than the administrative reset undoes that. The client reports a charge only when one exists
  and an unambiguous error only when the call has created none, over any network and any faults.
\<close>

section \<open>Charges are kept\<close>

definition store_ok :: "SimStore \<Rightarrow> bool" where
  "store_ok st \<longleftrightarrow> distinct (map fst (ss_byKey st)) \<and> list_all (\<lambda>(k, c). ch_IdempotencyKey c = k) (ss_byKey st)"

definition same_charge :: "Charge \<Rightarrow> Charge \<Rightarrow> bool" where
  "same_charge c c' \<longleftrightarrow> c' = c\<lparr>ch_Status := ch_Status c', ch_ResolvedAt := ch_ResolvedAt c'\<rparr>"

definition charges_kept :: "SimStore \<Rightarrow> SimStore \<Rightarrow> bool" where
  "charges_kept st st' \<longleftrightarrow>
     (\<forall>k. rel_option same_charge (map_of (ss_byKey st) k) (map_of (ss_byKey st') k) \<or> map_of (ss_byKey st) k = None)"

lemma same_charge_refl [simp]: "same_charge c c"
  by (simp add: same_charge_def)

lemma same_charge_trans: "same_charge a b \<Longrightarrow> same_charge b c \<Longrightarrow> same_charge a c"
  unfolding same_charge_def by (rule Charge.equality; cases a; cases b; cases c; simp)

lemma same_charge_reference: "same_charge a b \<Longrightarrow> ch_Reference b = ch_Reference a"
  unfolding same_charge_def by (cases a; cases b; simp)

lemma charges_kept_Some:
  "charges_kept st st' \<Longrightarrow> map_of (ss_byKey st) k = Some c \<Longrightarrow> \<exists>c'. map_of (ss_byKey st') k = Some c' \<and> same_charge c c'"
  unfolding charges_kept_def by (erule allE [of _ k]) (auto elim: option.rel_cases)

lemma charges_kept_refl [simp]: "charges_kept st st"
  by (simp add: charges_kept_def option.rel_refl)

lemma charges_kept_trans:
  assumes "charges_kept a b" "charges_kept b c"
  shows "charges_kept a c"
  unfolding charges_kept_def
proof
  fix k
  show "rel_option same_charge (map_of (ss_byKey a) k) (map_of (ss_byKey c) k) \<or> map_of (ss_byKey a) k = None"
  proof (cases "map_of (ss_byKey a) k")
    case (Some x)
    then obtain y z where "map_of (ss_byKey b) k = Some y" "same_charge x y" "map_of (ss_byKey c) k = Some z" "same_charge y z"
      using charges_kept_Some [OF assms(1)] charges_kept_Some [OF assms(2)] by blast
    then show ?thesis using Some same_charge_trans by auto
  qed simp
qed

text \<open>The relation between two states of the server that every request keeps.\<close>

definition sim_kept :: "SimServer \<Rightarrow> SimServer \<Rightarrow> bool" where
  "sim_kept s s' \<longleftrightarrow> charges_kept (sv_store s) (sv_store s') \<and> (store_ok (sv_store s) \<longrightarrow> store_ok (sv_store s'))"

lemma sim_kept_refl [simp]: "sim_kept s s"
  by (simp add: sim_kept_def)

lemma sim_kept_trans: "sim_kept a b \<Longrightarrow> sim_kept b c \<Longrightarrow> sim_kept a c"
  by (auto simp: sim_kept_def intro: charges_kept_trans)

lemma sim_kept_same_charges: "ss_byKey (sv_store s') = ss_byKey (sv_store s) \<Longrightarrow> sim_kept s s'"
  by (simp add: sim_kept_def charges_kept_def store_ok_def option.rel_refl)

lemma GetOrCreate_kept:
  assumes "GetOrCreate u now key tpl st = ((c, created), st')"
  shows "charges_kept st st'" "store_ok st \<Longrightarrow> store_ok st'" "map_of (ss_byKey st') key = Some c"
    "\<not> created \<Longrightarrow> st' = st"
    "created \<Longrightarrow> c = tpl\<lparr>ch_IdempotencyKey := key, ch_Reference := ''ch_'' @ u, ch_CreatedAt := now\<rparr>"
proof -
  let ?c = "tpl\<lparr>ch_IdempotencyKey := key, ch_Reference := ''ch_'' @ u, ch_CreatedAt := now\<rparr>"
  have "charges_kept st st' \<and> (store_ok st \<longrightarrow> store_ok st') \<and> map_of (ss_byKey st') key = Some c
    \<and> (\<not> created \<longrightarrow> st' = st) \<and> (created \<longrightarrow> c = ?c)"
  proof (cases "map_of (ss_byKey st) key")
    case None
    then have s: "c = ?c" created "ss_byKey st' = ss_byKey st @ [(key, ?c)]" using assms by (auto simp: GetOrCreate_def Let_def)
    have "rel_option same_charge (map_of (ss_byKey st) k) (map_of (ss_byKey st') k)" if "map_of (ss_byKey st) k = Some x" for k x
      using that by (simp add: s(3) map_add_Some_iff)
    then have "charges_kept st st'" by (auto simp: charges_kept_def simp del: not_None_eq)
    moreover have "key \<notin> fst ` set (ss_byKey st)" using None by (simp add: map_of_eq_None_iff)
    ultimately show ?thesis using s None by (auto simp: store_ok_def map_add_Some_iff)
  next
    case (Some x)
    then show ?thesis using assms by (simp add: GetOrCreate_def)
  qed
  then show "charges_kept st st'" "store_ok st \<Longrightarrow> store_ok st'" "map_of (ss_byKey st') key = Some c"
    "\<not> created \<Longrightarrow> st' = st" "created \<Longrightarrow> c = ?c" by blast+
qed

lemma SetStatus_kept:
  assumes "SetStatus now reference status st = (r, st')"
  shows "charges_kept st st'" "store_ok st \<Longrightarrow> store_ok st'" "map fst (ss_byKey st') = map fst (ss_byKey st)"
proof -
  consider "st' = st"
    | key c where "map_of (ss_byKey st) key = Some c" "ss_byKey st' = AList.update key (c\<lparr>ch_Status := status, ch_ResolvedAt := now\<rparr>) (ss_byKey st)"
  proof (cases "\<exists>key c. ss_byRefKey st reference = Some key \<and> map_of (ss_byKey st) key = Some c")
    case True
    then obtain key c where k: "ss_byRefKey st reference = Some key" "map_of (ss_byKey st) key = Some c" by blast
    then have "ss_byKey st' = AList.update key (c\<lparr>ch_Status := status, ch_ResolvedAt := now\<rparr>) (ss_byKey st)"
      using assms by (auto simp: SetStatus_def Let_def)
    then show ?thesis using k(2) that(2) by blast
  next
    case False
    then have "st' = st" using assms by (auto simp: SetStatus_def split: option.splits)
    then show ?thesis using that(1) by blast
  qed
  then have "charges_kept st st' \<and> (store_ok st \<longrightarrow> store_ok st') \<and> map fst (ss_byKey st') = map fst (ss_byKey st)"
  proof cases
    case (2 key c)
    let ?c = "c\<lparr>ch_Status := status, ch_ResolvedAt := now\<rparr>"
    have "key \<in> fst ` set (ss_byKey st)" using 2(1) by (metis map_of_eq_None_iff option.distinct(1))
    then have k: "map fst (ss_byKey st') = map fst (ss_byKey st)" using 2(2) by (simp add: update_keys)
    have "charges_kept st st'"
      using 2 by (auto simp: charges_kept_def update_conv same_charge_def option.rel_refl)
    moreover have "store_ok st'" if ok: "store_ok st"
    proof -
      have "ch_IdempotencyKey c' = k'" if "(k', c') \<in> set (ss_byKey st')" for k' c'
      proof -
        have "map_of (ss_byKey st') k' = Some c'" using that k ok by (simp add: store_ok_def)
        then have "c' = ?c \<and> k' = key \<or> (k', c') \<in> set (ss_byKey st)"
          using 2(2) by (auto simp: update_conv split: if_splits dest: map_of_SomeD)
        moreover have "ch_IdempotencyKey c = key" using ok 2(1) by (auto simp: store_ok_def list_all_iff dest: map_of_SomeD)
        ultimately show ?thesis using ok by (auto simp: store_ok_def list_all_iff)
      qed
      then show ?thesis using k ok by (auto simp: store_ok_def list_all_iff)
    qed
    ultimately show ?thesis using k by blast
  qed simp
  then show "charges_kept st st'" "store_ok st \<Longrightarrow> store_ok st'" "map fst (ss_byKey st') = map fst (ss_byKey st)" by blast+
qed

section \<open>The server's steps\<close>

lemma Emit_store [simp]: "sv_store (Emit env now reference key status s) = sv_store s"
  by (auto simp: Emit_def Emitter_build_def Let_def split: prod.splits if_splits)

lemma resolve_async_kept: "sim_kept s (resolve_async env now reference key s)"
  "map fst (ss_byKey (sv_store (resolve_async env now reference key s))) = map fst (ss_byKey (sv_store s))"
  using SetStatus_kept [OF surjective_pairing [of "SetStatus now reference simAuthorized (sv_store s)"]]
  by (simp_all add: resolve_async_def sim_kept_def)

lemma settle_async_kept: "sim_kept s (settle_async env now reference key s)"
  "map fst (ss_byKey (sv_store (settle_async env now reference key s))) = map fst (ss_byKey (sv_store s))"
  using resolve_async_kept by (simp_all add: settle_async_def sim_kept_same_charges)

lemma applyPreFaults_same:
  "applyPreFaults env cx key s = (r, s') \<Longrightarrow> ss_byKey (sv_store s') = ss_byKey (sv_store s)"
  by (auto simp: applyPreFaults_def NextAttempt_def Let_def split: if_splits)

lemma record_charge_kept:
  assumes "record_charge env now key tpl s = ((c, created), s')"
  shows "sim_kept s s'" "map_of (ss_byKey (sv_store s')) key = Some c"
    "\<not> created \<Longrightarrow> ss_byKey (sv_store s') = ss_byKey (sv_store s)"
    "created \<Longrightarrow> ch_Status c = ch_Status tpl"
proof -
  obtain st where g: "GetOrCreate (en_uuid env (sv_nextid s)) now key tpl (sv_store s) = ((c, created), st)" "sv_store s' = st"
    using assms by (auto simp: record_charge_def split: prod.splits)
  note k = GetOrCreate_kept [OF g(1)]
  show "sim_kept s s'" using k(1,2) g(2) by (simp add: sim_kept_def)
  show "map_of (ss_byKey (sv_store s')) key = Some c" using k(3) g(2) by simp
  show "\<not> created \<Longrightarrow> ss_byKey (sv_store s') = ss_byKey (sv_store s)" using k(4) g(2) by simp
  show "created \<Longrightarrow> ch_Status c = ch_Status tpl" using k(5) by simp
qed


section \<open>What a request can do\<close>

text \<open>A refusal; a reply that hides what was done; a reply that shows the charge.\<close>

definition refused :: "HttpReply \<Rightarrow> bool" where
  "refused rep \<longleftrightarrow> rep = NoReply \<or> (\<exists>status code msg. rep = writeError status code msg \<and> status \<in> {400, 404, 422, 503})"

definition hidden :: "HttpReply \<Rightarrow> bool" where
  "hidden rep \<longleftrightarrow> rep = NoReply \<or> rep = Reply 200 None \<or> (\<exists>code msg. rep = writeError 500 code msg)"

definition shows_charge :: "HttpReply \<Rightarrow> Charge \<Rightarrow> chargeResponse \<Rightarrow> bool" where
  "shows_charge rep c resp \<longleftrightarrow> rep = writeJSON 200 (encode_response resp) \<and> cs_Reference resp = ch_Reference c
     \<and> cs_AmountMinor resp = ch_AmountMinor c \<and> cs_Currency resp = ch_Currency c"

definition request_outcome :: "string \<Rightarrow> SimServer \<Rightarrow> HttpReply \<Rightarrow> SimServer \<Rightarrow> bool" where
  "request_outcome key s rep s' \<longleftrightarrow> sim_kept s s' \<and>
     (ss_byKey (sv_store s') = ss_byKey (sv_store s) \<and> refused rep
      \<or> (\<exists>c. map_of (ss_byKey (sv_store s')) key = Some c \<and>
           (hidden rep \<or> (\<exists>resp. shows_charge rep c resp
              \<and> (ss_byKey (sv_store s') = ss_byKey (sv_store s) \<or> cs_Status resp \<noteq> simFailed)))))"

lemma refusedI: "status \<in> {400, 404, 422, 503} \<Longrightarrow> refused (writeError status code msg)"
  by (auto simp: refused_def)

lemma outcome_refused:
  "ss_byKey (sv_store s') = ss_byKey (sv_store s) \<Longrightarrow> refused rep \<Longrightarrow> request_outcome key s rep s'"
  by (simp add: request_outcome_def sim_kept_same_charges)

lemma preFaults_refuse: "applyPreFaults env cx key s = (Some rep, s') \<Longrightarrow> refused rep"
  by (auto simp: applyPreFaults_def NextAttempt_def Let_def refused_def split: if_splits)

lemma postFaults_hide: "applyPostSuccessFaults env cx key created s = Some rep \<Longrightarrow> hidden rep"
  by (auto simp: applyPostSuccessFaults_def Let_def hidden_def split: if_splits)

text \<open>The end of both handlers: the charge is recorded, follow-up work may change its status, then the
  reply is spoiled or sent.\<close>

lemma recorded_outcome:
  assumes rec: "record_charge env now key tpl s1 = ((c, created), s2)"
    and pre: "ss_byKey (sv_store s1) = ss_byKey (sv_store s)" and tpl: "ch_Status tpl \<noteq> simFailed"
    and after: "sim_kept s2 s'" "\<not> created \<Longrightarrow> s' = s2"
    and resp: "cs_Reference resp = ch_Reference c" "cs_AmountMinor resp = ch_AmountMinor c"
      "cs_Currency resp = ch_Currency c" "cs_Status resp = ch_Status c"
    and rep: "rep = (case applyPostSuccessFaults env cx key created s' of Some x \<Rightarrow> x | None \<Rightarrow> writeJSON 200 (encode_response resp))"
  shows "request_outcome key s rep s'"
proof -
  note k = record_charge_kept [OF rec]
  obtain c' where c': "map_of (ss_byKey (sv_store s')) key = Some c'" "same_charge c c'"
    using charges_kept_Some [OF _ k(2)] after(1) by (auto simp: sim_kept_def)
  have "sim_kept s s'" using sim_kept_trans [OF sim_kept_same_charges [OF pre] sim_kept_trans [OF k(1) after(1)]] .
  moreover have "hidden rep \<or> shows_charge rep c' resp"
    using rep postFaults_hide [of env cx key created s'] resp c'(2)
    by (cases c; cases c') (auto simp: shows_charge_def same_charge_def split: option.splits)
  moreover have "ss_byKey (sv_store s') = ss_byKey (sv_store s) \<or> cs_Status resp \<noteq> simFailed"
    using k(3,4) after(2) pre tpl resp(4) by (cases created) auto
  ultimately show ?thesis using c'(1) by (auto simp: request_outcome_def)
qed

lemma handleAuthorize_outcome:
  assumes "handleAuthorize env cx r s = (rep, s')"
  shows "request_outcome (idempotencyKeyFrom r) s rep s'"
proof -
  let ?key = "idempotencyKeyFrom r" and ?mode = "modeFrom r"
  let ?status = "if ?mode = ModeAsync then simPending else if ?mode = ModeRedirect then simRequiresAction else simAuthorized"
  have [simp]: "?status \<noteq> simFailed" by (simp add: simFailed_def simPending_def simRequiresAction_def simAuthorized_def)
  show ?thesis
  proof (cases "?key = [] \<or> decode (rq_body r) = None")
    case True
    then show ?thesis using assms by (auto simp: handleAuthorize_def Let_def intro!: outcome_refused refusedI split: if_splits)
  next
    case False
    then obtain req where d: "?key \<noteq> []" "decode (rq_body r) = Some req" by auto
    obtain pre s1 where p: "applyPreFaults env cx ?key s = (pre, s1)" by (cases "applyPreFaults env cx ?key s")
    note same = applyPreFaults_same [OF p]
    show ?thesis
    proof (cases pre)
      case (Some x)
      then have "rep = x" "s' = s1" using assms d p by (simp_all add: handleAuthorize_def Let_def)
      then show ?thesis using preFaults_refuse p Some same by (auto intro: outcome_refused)
    next
      case None
      show ?thesis
      proof (cases "declineCodeFor (cr_AmountMinor req)")
        case (Some code)
        then have "rep = writeError 422 code ''the issuer declined this charge''" "s' = s1"
          using assms d p None by (simp_all add: handleAuthorize_def Let_def)
        then show ?thesis using same by (auto intro!: outcome_refused refusedI)
      next
        case nd: None
        let ?tpl = "\<lparr>ch_Reference = [], ch_IdempotencyKey = [], ch_TransactionID = cr_TransactionID req,
           ch_Operation = ''authorize'', ch_AmountMinor = cr_AmountMinor req, ch_Currency = cr_Currency req,
           ch_Status = ?status, ch_Mode = ?mode, ch_CreatedAt = zero_time, ch_ResolvedAt = zero_time\<rparr>"
        obtain c created s2 where rec: "record_charge env (cx_now cx) ?key ?tpl s1 = ((c, created), s2)"
          by (metis surj_pair)
        let ?s3 = "if created \<and> ?mode = ModeAsync then settle_async env (cx_now cx) (ch_Reference c) ?key s2 else s2"
        let ?resp = "(charge_response c)\<lparr>cs_RedirectURL :=
            (if ch_Status c = simRequiresAction then ''/v1/simulate/challenge?reference='' @ ch_Reference c else [])\<rparr>"
        have "s' = ?s3 \<and> rep = (case applyPostSuccessFaults env cx ?key created ?s3 of Some x \<Rightarrow> x
              | None \<Rightarrow> writeJSON 200 (encode_response ?resp))"
          using assms d p None nd rec unfolding handleAuthorize_def Let_def by (auto split: option.splits)
        then show ?thesis
          by (intro recorded_outcome [OF rec same, where resp = ?resp]) (auto simp: charge_response_def settle_async_kept)
      qed
    qed
  qed
qed

lemma handleFollowOn_outcome:
  assumes "handleFollowOn env cx operation ok r s = (rep, s')" and ok: "ok \<noteq> simFailed"
  shows "request_outcome (idempotencyKeyFrom r) s rep s'"
proof -
  let ?key = "idempotencyKeyFrom r"
  show ?thesis
  proof (cases "?key = [] \<or> decode (rq_body r) = None")
    case True
    then show ?thesis using assms by (auto simp: handleFollowOn_def Let_def intro!: outcome_refused refusedI split: if_splits)
  next
    case False
    then obtain req where d: "?key \<noteq> []" "decode (rq_body r) = Some req" by auto
    obtain pre s1 where p: "applyPreFaults env cx ?key s = (pre, s1)" by (cases "applyPreFaults env cx ?key s")
    note same = applyPreFaults_same [OF p]
    show ?thesis
    proof (cases pre)
      case (Some x)
      then have "rep = x" "s' = s1" using assms d p by (simp_all add: handleFollowOn_def Let_def)
      then show ?thesis using preFaults_refuse p Some same by (auto intro: outcome_refused)
    next
      case None
      show ?thesis
      proof (cases "cr_Reference req = [] \<or> GetByReference (cr_Reference req) (sv_store s1) = None")
        case True
        then show ?thesis using assms d p None same
          by (auto simp: handleFollowOn_def Let_def intro!: outcome_refused refusedI split: if_splits)
      next
        case False
        then obtain original where o: "cr_Reference req \<noteq> []" "GetByReference (cr_Reference req) (sv_store s1) = Some original" by auto
        let ?amount = "if operation = ''capture'' \<and> Fires env (sv_engine s1) FaultPartialCaptureDrift ?key \<and> sint (cr_AmountMinor req) > 1
            then cr_AmountMinor req - 1 else cr_AmountMinor req"
        let ?tpl = "\<lparr>ch_Reference = [], ch_IdempotencyKey = [], ch_TransactionID = ch_TransactionID original,
           ch_Operation = operation, ch_AmountMinor = ?amount, ch_Currency = ch_Currency original,
           ch_Status = ok, ch_Mode = ch_Mode original, ch_CreatedAt = zero_time, ch_ResolvedAt = zero_time\<rparr>"
        obtain c created s2 where rec: "record_charge env (cx_now cx) ?key ?tpl s1 = ((c, created), s2)"
          by (metis surj_pair)
        have "s' = s2 \<and> rep = (case applyPostSuccessFaults env cx ?key created s2 of Some x \<Rightarrow> x
              | None \<Rightarrow> writeJSON 200 (encode_response (charge_response c)))"
          using assms(1) d p None o rec unfolding handleFollowOn_def Let_def by (auto split: option.splits)
        then show ?thesis using ok
          by (intro recorded_outcome [OF rec same, where resp = "charge_response c"]) (auto simp: charge_response_def)
      qed
    qed
  qed
qed


lemma success_statuses: "simCaptured \<noteq> simFailed" "simRefunded \<noteq> simFailed" "simVoided \<noteq> simFailed"
  by (simp_all add: simCaptured_def simRefunded_def simVoided_def simFailed_def)

lemma outcome_kept: "request_outcome key s rep s' \<Longrightarrow> sim_kept s s'"
  by (simp add: request_outcome_def)

lemma handleComplete_kept: "sim_kept s (snd (handleComplete env cx r s))"
proof (cases "decode_struct True complete_fields ([], []) (rq_body r)")
  case None
  then show ?thesis by (simp add: handleComplete_def)
next
  case (Some x)
  obtain reference outcome where x: "x = (reference, outcome)" by (cases x)
  let ?status = "if outcome = ''failed'' then simFailed else simAuthorized"
  obtain c st where st: "SetStatus (cx_now cx) reference ?status (sv_store s) = (c, st)"
    by (cases "SetStatus (cx_now cx) reference ?status (sv_store s)")
  have "sv_store (snd (handleComplete env cx r s)) = st"
    using Some x st by (cases c) (auto simp: handleComplete_def Let_def)
  then show ?thesis using SetStatus_kept [OF st] by (simp add: sim_kept_def)
qed

lemma admin_store:
  "sv_store (snd (handleSetFaults env cx r s)) = sv_store s"
  "sv_store (snd (handleSetPreset env cx r s)) = sv_store s"
  "sv_store (snd (handleOutage env cx r s)) = sv_store s"
  by (simp_all add: handleSetFaults_def handleSetPreset_def handleOutage_def StartOutage_def Let_def split: option.splits sum.splits)

definition reset_route :: string where
  "reset_route = ''POST /admin/reset''"

lemma ServeHTTP_kept: "rq_route r \<noteq> reset_route \<Longrightarrow> sim_kept s (snd (ServeHTTP env cx r s))"
proof -
  have "sim_kept s (snd (handleAuthorize env cx r s))"
    using outcome_kept [OF handleAuthorize_outcome [OF surjective_pairing]] .
  moreover have "sim_kept s (snd (handleFollowOn env cx operation ok r s))" if "ok \<noteq> simFailed" for operation ok
    using outcome_kept [OF handleFollowOn_outcome [OF surjective_pairing that]] .
  ultimately show "rq_route r \<noteq> reset_route \<Longrightarrow> ?thesis"
    using handleComplete_kept [of s env cx r] success_statuses
    by (simp add: ServeHTTP_def reset_route_def Let_def handleCapture_def handleRefund_def handleVoid_def
        sim_kept_same_charges admin_store)
qed

lemma run_background_kept: "sim_kept s (run_background env now i s)"
proof -
  have "sim_kept s (s\<lparr>sv_background := b\<rparr>)" for b by (rule sim_kept_same_charges) simp
  then show ?thesis using sim_kept_trans resolve_async_kept(1) by (fastforce simp: run_background_def split: prod.splits)
qed

fun no_reset :: "sim_step \<Rightarrow> bool" where
  "no_reset (SimRequest cx r) \<longleftrightarrow> rq_route r \<noteq> reset_route"
| "no_reset (SimBackground now i) \<longleftrightarrow> True"

lemma sim_step_kept: "no_reset x \<Longrightarrow> sim_kept s (sim_step_run env x s)"
  by (cases x) (simp_all add: ServeHTTP_kept run_background_kept)

lemma sim_steps_kept: "list_all no_reset xs \<Longrightarrow> sim_kept s (fold (sim_step_run env) xs s)"
proof (induction xs arbitrary: s)
  case (Cons x xs)
  then show ?case by (auto intro: sim_kept_trans [OF sim_step_kept])
qed simp

section \<open>The client's view\<close>

lemma decode_encode_request: "decode (Some (encode_request r)) = Some r"
  by (cases r) (simp add: decode_def encode_request_def json_simps charge_fields_def zero_charge_def)

lemma decode_encode_response: "decode_struct False response_fields zero_response (Some (encode_response r)) = Some r"
  by (cases r) (simp add: encode_response_def json_simps response_fields_def zero_response_def)

lemma decode_error_code: "decode_what_fits error_fields ([], []) (Some (JObj [(''code'', JStr code), (''message'', JStr msg)])) = (code, msg)"
  by (simp add: json_simps error_fields_def)


fun call_key :: "ProviderCall \<Rightarrow> string" where
  "call_key (CallAuthorize key i amount) = key"
| "call_key (CallCapture key i reference amount) = key"
| "call_key (CallGetStatus key i) = key"

lemma call_outcome:
  assumes "ServeHTTP env cx (call_request env c pc) s = (rep, s')"
  shows "request_outcome (call_key pc) s rep s' \<or> s' = s \<and> (\<exists>raw. rep = not_found raw)"
proof (cases pc)
  case (CallAuthorize key i amount)
  then have "handleAuthorize env cx (call_request env c pc) s = (rep, s')"
    using assms by (simp add: ServeHTTP_def call_request_def Client_Authorize_def post_request_def Let_def)
  from handleAuthorize_outcome [OF this] show ?thesis
    using CallAuthorize by (simp add: idempotencyKeyFrom_def call_request_def Client_Authorize_def post_request_def)
next
  case (CallCapture key i reference amount)
  then have "handleFollowOn env cx ''capture'' simCaptured (call_request env c pc) s = (rep, s')"
    using assms by (simp add: ServeHTTP_def call_request_def Client_Capture_def post_request_def Let_def handleCapture_def)
  from handleFollowOn_outcome [OF this success_statuses(1)] show ?thesis
    using CallCapture by (simp add: idempotencyKeyFrom_def call_request_def Client_Capture_def post_request_def)
next
  case (CallGetStatus key i)
  then have r: "rep = handleStatus env cx (Client_GetStatus key) s" "s' = s"
    using assms by (auto simp: ServeHTTP_def call_request_def Client_GetStatus_def Let_def)
  have q: "rq_query (Client_GetStatus key) ''idempotency_key'' = key" by (simp add: Client_GetStatus_def)
  have "refused rep \<or> (\<exists>raw. rep = not_found raw)
    \<or> (\<exists>ch. map_of (ss_byKey (sv_store s)) key = Some ch \<and> rep = writeJSON 200 (encode_response (charge_response ch)))"
    unfolding r(1) handleStatus_def q Let_def Charge_Get_def
    by (auto simp: refused_def split: option.splits)
  then show ?thesis
  proof (elim disjE exE conjE)
    fix ch assume ch: "map_of (ss_byKey (sv_store s)) key = Some ch" "rep = writeJSON 200 (encode_response (charge_response ch))"
    have "shows_charge rep ch (charge_response ch)" using ch(2) by (simp add: shows_charge_def charge_response_def)
    then show ?thesis using CallGetStatus r(2) ch(1) by (auto simp: request_outcome_def)
  qed (use CallGetStatus r(2) in \<open>auto intro: outcome_refused\<close>)
qed

definition truthful :: "string \<Rightarrow> SimServer \<Rightarrow> Response result \<Rightarrow> SimServer \<Rightarrow> bool" where
  "truthful key s res s' \<longleftrightarrow>
     (case res of
        Inr resp \<Rightarrow> rs_Status resp \<noteq> StatusFailed \<and> (rs_Status resp = StatusNotFound \<or>
          (\<exists>ch. map_of (ss_byKey (sv_store s')) key = Some ch \<and> rs_ProviderReference resp = ch_Reference ch
             \<and> rs_Amount resp = (if ch_Currency ch = [] then no_money else mk_money (ch_AmountMinor ch) (ch_Currency ch))))
      | Inl e \<Rightarrow> IsAmbiguous (ClassOf e) \<or> ss_byKey (sv_store s') = ss_byKey (sv_store s))"

lemma truthful_same: "ss_byKey (sv_store s') = ss_byKey (sv_store s) \<Longrightarrow> truthful key s (Inl e) s'"
  by (simp add: truthful_def)

lemma truthful_ambiguous: "IsAmbiguous (ClassOf e) \<Longrightarrow> truthful key s (Inl e) s'"
  by (simp add: truthful_def)

lemma mapStatus_failed: "mapStatus raw = StatusFailed \<longleftrightarrow> raw = simFailed"
  by (simp add: mapStatus_def simFailed_def)

lemma Client_do_shown:
  assumes "shows_charge (Reply status bdy) ch resp" "map_of (ss_byKey (sv_store s')) key = Some ch"
    "ss_byKey (sv_store s') = ss_byKey (sv_store s) \<or> cs_Status resp \<noteq> simFailed"
  shows "truthful key s (Client_do c (Answered status bdy)) s'"
proof -
  have b: "status = 200" "bdy = Some (encode_response resp)" using assms(1) by (simp_all add: shows_charge_def writeJSON_def)
  show ?thesis
  proof (cases "cs_Status resp = simFailed")
    case True
    then show ?thesis using assms(3) b
      by (simp add: Client_do_def decode_encode_response mapStatus_failed [THEN iffD2] truthful_same)
  next
    case False
    then show ?thesis using assms(1,2) b
      by (auto simp: Client_do_def decode_encode_response mapStatus_failed truthful_def shows_charge_def
          Money_New_Inr_iff IsAmbiguous_def Let_def split: sum.splits)
  qed
qed

lemma Client_do_answer:
  assumes "request_outcome key s (Reply status bdy) s'"
  shows "truthful key s (Client_do c (Answered status bdy)) s'"
proof -
  consider "ss_byKey (sv_store s') = ss_byKey (sv_store s)" "status \<noteq> 200"
    | "bdy = None" "status = 200" | "status = 500"
    | ch resp where "shows_charge (Reply status bdy) ch resp" "map_of (ss_byKey (sv_store s')) key = Some ch"
        "ss_byKey (sv_store s') = ss_byKey (sv_store s) \<or> cs_Status resp \<noteq> simFailed"
    using assms by (auto simp: request_outcome_def refused_def hidden_def writeError_def writeJSON_def)
  then show ?thesis
  proof cases
    case 4
    then show ?thesis by (rule Client_do_shown)
  qed (auto simp: Client_do_def classifyHTTPError_def decode_struct_def truthful_def IsAmbiguous_def Let_def)
qed

lemma transport_ambiguous: "IsAmbiguous (ClassOf (classifyTransportError c err))"
  by (cases err) (simp_all add: classifyTransportError_def IsAmbiguous_def)

lemma not_found_status:
  "Client_do c (Answered status bdy) = Inr resp \<Longrightarrow> Reply status bdy = not_found raw \<Longrightarrow> rs_Status resp = StatusNotFound"
  by (auto simp: Client_do_def not_found_def writeJSON_def decode_encode_response mapStatus_def Let_def split: if_splits sum.splits)

lemma Client_call_truth:
  assumes "Client_call env c cx l pc s = (res, s')"
  shows "sim_kept s s'" "truthful (call_key pc) s res s'"
proof -
  let ?r = "call_request env c pc"
  obtain rep s1 where serve: "ServeHTTP env cx ?r s = (rep, s1)" by (cases "ServeHTTP env cx ?r s")
  have reset: "rq_route ?r \<noteq> reset_route"
    by (cases pc) (simp_all add: call_request_def Client_Authorize_def Client_Capture_def Client_GetStatus_def post_request_def reset_route_def)
  have kept: "sim_kept s s1" using ServeHTTP_kept [OF reset, of s env cx] serve by simp
  show "sim_kept s s'"
    using assms serve kept by (auto simp: Client_call_def exchange_def split: link.splits HttpReply.splits prod.splits)
  have answer: "truthful (call_key pc) s (Client_do c (Answered status bdy)) s1" if "rep = Reply status bdy" for status bdy
  proof (cases "request_outcome (call_key pc) s rep s1")
    case True
    then show ?thesis using that Client_do_answer by simp
  next
    case False
    then obtain raw where "s1 = s" "rep = not_found raw" using call_outcome [OF serve] by blast
    then show ?thesis using that not_found_status [of c status bdy] by (auto simp: truthful_def split: sum.splits)
  qed
  show "truthful (call_key pc) s res s'"
    using assms serve answer
    by (auto simp: Client_call_def exchange_def Client_do_def [of c "Failed _"] Client_do_def [of c "BodyUnreadable _"] IsAmbiguous_def
        intro!: truthful_ambiguous transport_ambiguous split: link.splits HttpReply.splits prod.splits)
qed


section \<open>Claims\<close>

lemma one_entry: "distinct (map fst m) \<Longrightarrow> map_of m k = Some c \<Longrightarrow> filter (\<lambda>(k', _). k' = k) m = [(k, c)]"
proof (induction m)
  case (Cons x m)
  then show ?case by (cases x) (auto simp: filter_empty_conv rev_image_eqI split: if_splits)
qed simp

definition demo_sim_env :: SimEnv where
  "demo_sim_env = \<lparr>en_uuid = show_nat, en_time = show_int, en_Float64 = (\<lambda>_. 1 / 2), en_Intn = (\<lambda>_ _. 0),
     en_marshal = xe_ID, en_hmac = (\<lambda>k m. k @ m)\<rparr>"

definition demo_ctx :: SimCtx where
  "demo_ctx = \<lparr>cx_now = 1000, cx_goneSlow = False, cx_goneHang = True\<rparr>"

definition demo_client :: ClientConfig where
  "demo_client = \<lparr>cc_Name = ''sim'', cc_Mode = ''sync'', cc_Timeout = 5\<rparr>"

text \<open>Every charge is followed by a connection that hangs.\<close>

definition demo_hanging :: SimServer where
  "demo_hanging = NewServer \<lparr>cf_Seed = 1, cf_Probabilities = (\<lambda>f. if f = FaultTimeoutAfterSuccess then 1 else 0),
     cf_OutageUntil = 0, cf_SlowResponseMinMs = 0, cf_SlowResponseMaxMs = 0, cf_WebhookDelayMs = 50\<rparr> (NewWebhookEmitter [] [])"

definition demo_charge_call :: ProviderCall where
  "demo_charge_call = CallAuthorize ''7:authorize'' 7 (mk_money 1000 ''USD'')"

text \<open>C15: the simulator's client tells the truth about charges, whatever faults the provider injects and
  whatever the network loses. If it reports anything but that no charge was found, the provider holds a
  charge under the key of the call, with the reference and the amount reported; if it reports an error
  that is not ambiguous, the call has left the provider's charges as they were.\<close>

theorem Client_call_truthful:
  "case Client_call env c cx l pc s of (res, s') \<Rightarrow>
     (case res of
        Inr resp \<Rightarrow> rs_Status resp = StatusNotFound \<or>
          (\<exists>ch. map_of (ss_byKey (sv_store s')) (call_key pc) = Some ch \<and> rs_ProviderReference resp = ch_Reference ch
             \<and> rs_Amount resp = (if ch_Currency ch = [] then no_money else mk_money (ch_AmountMinor ch) (ch_Currency ch)))
      | Inl e \<Rightarrow> IsAmbiguous (ClassOf e) \<or> ss_byKey (sv_store s') = ss_byKey (sv_store s))"
proof -
  obtain res s' where c: "Client_call env c cx l pc s = (res, s')" by (cases "Client_call env c cx l pc s")
  show ?thesis
  proof (cases res)
    case (Inl e)
    then show ?thesis using Client_call_truth(2) [OF c] c by (simp add: truthful_def)
  next
    case (Inr resp)
    then show ?thesis using Client_call_truth(2) [OF c] unfolding c truthful_def Inr prod.case sum.case by blast
  qed
qed

text \<open>C16: the provider never charges twice for one key. Once it holds a charge under the key of a call,
  then after any requests of any clients, any background work and any configuration of faults, short of
  an administrative reset, the call is answered from that charge: there is still exactly one charge
  under the key, unchanged but for its status, and a caller that is told about a charge is told its
  reference and its amount.\<close>

theorem provider_never_charges_twice:
  assumes "store_ok (sv_store s)" "map_of (ss_byKey (sv_store s)) (call_key pc) = Some ch" "list_all no_reset xs"
    and "Client_call env c cx l pc (fold (sim_step_run env) xs s) = (res, s')"
  shows "(\<exists>ch'. filter (\<lambda>(k, _). k = call_key pc) (ss_byKey (sv_store s')) = [(call_key pc, ch')] \<and> same_charge ch ch')
    \<and> (case res of Inl _ \<Rightarrow> True | Inr resp \<Rightarrow> rs_Status resp = StatusNotFound \<or> rs_ProviderReference resp = ch_Reference ch
         \<and> rs_Amount resp = (if ch_Currency ch = [] then no_money else mk_money (ch_AmountMinor ch) (ch_Currency ch)))"
proof -
  note call = Client_call_truth [OF assms(4)]
  have kept: "sim_kept s s'" using sim_kept_trans [OF sim_steps_kept [OF assms(3)] call(1)] .
  then obtain ch' where ch': "map_of (ss_byKey (sv_store s')) (call_key pc) = Some ch'" "same_charge ch ch'"
    using charges_kept_Some [OF _ assms(2)] by (auto simp: sim_kept_def)
  have "distinct (map fst (ss_byKey (sv_store s')))" using kept assms(1) by (simp add: sim_kept_def store_ok_def)
  note one = one_entry [OF this ch'(1)]
  have "ch_Reference ch' = ch_Reference ch \<and> ch_AmountMinor ch' = ch_AmountMinor ch \<and> ch_Currency ch' = ch_Currency ch"
    using ch'(2) unfolding same_charge_def by (cases ch; cases ch'; simp)
  then show ?thesis using one ch' call(2) by (auto simp: truthful_def split: sum.splits)
qed

theorem provider_never_charges_twice_witness:
  "let s1 = snd (Client_call demo_sim_env demo_client demo_ctx (Delivered DeadlineExceeded) demo_charge_call demo_hanging);
       (res, s2) = Client_call demo_sim_env demo_client demo_ctx (Delivered DeadlineExceeded) demo_charge_call s1
   in length (filter (\<lambda>(k, _). k = ''7:authorize'') (ss_byKey (sv_store s2))) = 1 \<and> is_ok res"
proof -
  let ?call = "Client_call demo_sim_env demo_client demo_ctx (Delivered DeadlineExceeded) demo_charge_call"
  let ?s1 = "snd (?call demo_hanging)"
  have s1: "store_ok (sv_store ?s1) \<and> map_of (ss_byKey (sv_store ?s1)) (call_key demo_charge_call) \<noteq> None
      \<and> call_key demo_charge_call = ''7:authorize'' \<and> is_ok (fst (?call ?s1))" by code_simp
  then obtain ch where ch: "map_of (ss_byKey (sv_store ?s1)) (call_key demo_charge_call) = Some ch" by blast
  obtain res s2 where c: "?call ?s1 = (res, s2)" by (cases "?call ?s1")
  have "?call (fold (sim_step_run demo_sim_env) [] ?s1) = (res, s2)" using c by simp
  from provider_never_charges_twice [OF _ ch _ this] s1 c show ?thesis by (auto simp: Let_def)
qed

end
