(* ===== verification/SimPayments.thy ===== *)
theory SimPayments
  imports SimClaims WebhookClaims
begin

text \<open>
  The orchestrator against its simulated provider: the payment service of PaymentService with the
  adapter of SimClient and the server of SimServer behind it, and the callbacks of the server
  received by the verifier of Webhook.
\<close>

section \<open>A run of calls\<close>

definition weather_ok :: "sim_weather \<Rightarrow> bool" where
  "weather_ok wt \<longleftrightarrow> (\<forall>n. list_all no_reset (fst (wt n)))"

lemma weather_call_truth:
  assumes "weather_ok wt" "weather_call env c wt n pc s = (res, s')"
  shows "sim_kept s s'" "\<exists>s1. truthful (call_key pc) s1 res s'"
proof -
  obtain steps cx l where w: "wt n = (steps, cx, l)" by (metis surj_pair)
  have n: "list_all no_reset steps" using assms(1) w unfolding weather_ok_def by (metis fst_conv)
  have c: "Client_call env c cx l pc (fold (sim_step_run env) steps s) = (res, s')" using assms(2) w by (simp add: weather_call_def)
  show "sim_kept s s'" using sim_kept_trans [OF sim_steps_kept [OF n] Client_call_truth(1) [OF c]] .
  show "\<exists>s1. truthful (call_key pc) s1 res s'" using Client_call_truth(2) [OF c] by blast
qed

lemma replay_append: "replay_calls env c wt n (h @ h') s = replay_calls env c wt (n + length h) h' (replay_calls env c wt n h s)"
  by (induction h arbitrary: n s) simp_all

lemma replay_kept: "weather_ok wt \<Longrightarrow> sim_kept s (replay_calls env c wt n h s)"
proof (induction h arbitrary: n s)
  case (Cons pc h)
  then show ?case using sim_kept_trans weather_call_truth(1) [OF Cons.prems surjective_pairing] by (metis replay_calls.simps(2))
qed simp

text \<open>An answer in the middle of a run: the charge it reports is there at the end.\<close>

lemma answered_charge_stays:
  assumes wt: "weather_ok wt" and k: "k < length h" and ok: "store_ok (sv_store s0)"
    and res: "ad_call (simulated_adapter env c wt s0) (take k h) (h ! k) = Inr resp" "rs_Status resp \<noteq> StatusNotFound"
  shows "\<exists>ch. filter (\<lambda>(key, _). key = call_key (h ! k)) (ss_byKey (sv_store (replay_calls env c wt 0 h s0))) = [(call_key (h ! k), ch)]
     \<and> ch_Reference ch = rs_ProviderReference resp"
proof -
  let ?s1 = "replay_calls env c wt 0 (take k h) s0"
  obtain s2 where c: "weather_call env c wt k (h ! k) ?s1 = (Inr resp, s2)"
    using res(1) k by (cases "weather_call env c wt k (h ! k) ?s1") (simp add: simulated_adapter_def)
  have s3: "replay_calls env c wt 0 h s0 = replay_calls env c wt (Suc k) (drop (Suc k) h) s2" (is "?end = _")
    using replay_append [of env c wt 0 "take k h" "h ! k # drop (Suc k) h" s0, folded id_take_nth_drop [OF k]] k c by simp
  obtain ch where ch: "map_of (ss_byKey (sv_store s2)) (call_key (h ! k)) = Some ch" "rs_ProviderReference resp = ch_Reference ch"
    using weather_call_truth(2) [OF wt c] res(2) by (auto simp: truthful_def)
  have "sim_kept s2 ?end" unfolding s3 by (rule replay_kept [OF wt])
  then obtain ch' where ch': "map_of (ss_byKey (sv_store ?end)) (call_key (h ! k)) = Some ch'" "same_charge ch ch'"
    using charges_kept_Some [OF _ ch(1)] by (auto simp: sim_kept_def)
  have "distinct (map fst (ss_byKey (sv_store ?end)))"
    using replay_kept [OF wt, of s0 env c 0 h] ok by (simp add: sim_kept_def store_ok_def)
  from one_entry [OF this ch'(1)] show ?thesis using ch(2) same_charge_reference [OF ch'(2)] by auto
qed

section \<open>Claims\<close>

text \<open>C3: a payment the orchestrator holds for authorized is charged at its provider, once. Whatever
  faults the simulated provider injects, whatever the network loses and whatever other processes on the databases and
  other clients of the provider do, short of the administrative reset that makes the provider forget everything, when an authorization returns the payment as authorized the provider holds exactly
  one charge under the key of the payment, and the payment carries its reference.\<close>

theorem authorized_payment_is_charged:
  assumes "sched_ok pay_env w" "list_all shard_inv (w_dbs w)"
    and "Registry_Default (svc_providers svc) = Inr (simulated_adapter env c wt s0)" "weather_ok wt" "store_ok (sv_store s0)"
    and "Service_Authorize svc now ctxDone merchantID i w = ((Some t, err), w')" "t_State t = StateAuthorized"
  shows "let key = OperationKey (svc_uuidString svc) i ''authorize'' in
    \<exists>ch. filter (\<lambda>(k, _). k = key) (ss_byKey (sv_store (replay_calls env c wt 0 (w_calls w') s0))) = [(key, ch)]
      \<and> ch_Reference ch = t_PSPReference t"
proof -
  let ?ad = "simulated_adapter env c wt s0" and ?key = "OperationKey (svc_uuidString svc) i ''authorize''"
  obtain amount n where calls: "w_calls w' = w_calls w @ CallAuthorize ?key i amount # replicate n (CallGetStatus ?key i)"
    and v: "vouched ?ad (length (w_calls w)) w' (Some t, err)"
    using Authorize_world [OF assms(1,2,6)] assms(3) by auto
  obtain k where k: "length (w_calls w) \<le> k" "k < length (w_calls w')"
    "said_authorized (t_PSPReference t) (ad_call ?ad (take k (w_calls w')) (w_calls w' ! k))"
    using v assms(7) by (auto simp: vouched_def said_def)
  then obtain resp where r: "ad_call ?ad (take k (w_calls w')) (w_calls w' ! k) = Inr resp"
    "rs_Status resp \<noteq> StatusNotFound" "rs_ProviderReference resp = t_PSPReference t"
    by (auto simp: said_authorized_def split: sum.splits)
  have "call_key (w_calls w' ! k) = ?key"
    using k(1,2) calls by (cases "k - length (w_calls w)") (auto simp: nth_append nth_Cons')
  then show ?thesis using answered_charge_stays [OF assms(4) k(2) assms(5) r(1,2)] r(3) by (simp add: Let_def)
qed


definition demo_weather :: sim_weather where
  "demo_weather n = ([], demo_ctx, Delivered DeadlineExceeded)"

text \<open>The provider charges and hangs; the status query finds the charge.\<close>

definition demo_recovered :: "outcome \<times> world" where
  "demo_recovered = Service_Authorize (demo_svc (ad_call (simulated_adapter demo_sim_env demo_client demo_weather demo_hanging)))
     5 (\<lambda>_. False) ''m1'' 7 (demo_world demo_db)"

lemma demo_recovered_state: "case demo_recovered of ((Some t, None), w') \<Rightarrow> t_State t = StateAuthorized \<and> length (w_calls w') = 2 | _ \<Rightarrow> False"
  by code_simp

theorem authorized_payment_is_charged_witness:
  "case demo_recovered of ((Some t, None), w') \<Rightarrow> (\<exists>ch.
     filter (\<lambda>(k, _). k = ''7:authorize'') (ss_byKey (sv_store (replay_calls demo_sim_env demo_client demo_weather 0 (w_calls w') demo_hanging)))
       = [(''7:authorize'', ch)] \<and> ch_Reference ch = t_PSPReference t) | _ \<Rightarrow> False"
proof -
  obtain t w' where r: "demo_recovered = ((Some t, None), w')" "t_State t = StateAuthorized"
    using demo_recovered_state by (auto split: prod.splits option.splits)
  let ?ad = "simulated_adapter demo_sim_env demo_client demo_weather demo_hanging"
  have "Inr \<lparr>ad_Name = ''sim'', ad_call = ad_call ?ad\<rparr> = (Inr ?ad :: Adapter result)"
    by (simp add: simulated_adapter_def demo_client_def)
  note a = trans [OF demo_adapter this]
  have key: "OperationKey show_nat 7 ''authorize'' = ''7:authorize''" by code_simp
  have "weather_ok demo_weather" by (simp add: weather_ok_def demo_weather_def)
  moreover have "store_ok (sv_store demo_hanging)" by code_simp
  moreover have "svc_uuidString (demo_svc f) = show_nat" for f by (simp add: demo_svc_def)
  ultimately show ?thesis
    using authorized_payment_is_charged [OF demo_world_ok a _ _ r(1) [unfolded demo_recovered_def] r(2)] key
    unfolding r(1) by (simp add: Let_def)
qed


text \<open>C40: a failed charge is never recognised after an ambiguous authorization. The client turns the provider's
  status FAILED into an error, for a status query as well, and the service takes an error of the query for no
  answer: whatever the provider holds, resolving the outcome never ends in a failed payment.\<close>

theorem failed_charge_never_resolves:
  assumes "holds svc p t w" "t_State t = StateAuthorizing" "weather_ok wt"
    and "resolveAmbiguousOutcome svc now ctxDone t (simulated_adapter env c wt s0) key authErr w = ((Some t', err), w')"
  shows "t_State t' \<noteq> StateFailed"
proof -
  let ?ad = "simulated_adapter env c wt s0"
  have never: "rs_Status resp \<noteq> StatusFailed" if said: "ad_call ?ad h pc = Inr resp" for h pc resp
  proof -
    obtain s' where "weather_call env c wt (length h) pc (replay_calls env c wt 0 h s0) = (Inr resp, s')"
      using said by (cases "weather_call env c wt (length h) pc (replay_calls env c wt 0 h s0)") (simp add: simulated_adapter_def)
    from weather_call_truth(2) [OF assms(3) this] show ?thesis by (auto simp: truthful_def)
  qed
  have "t_State t' \<noteq> StateFailed"
    if "holds svc p t w" "status_loop svc now ctxDone t ?ad key authErr n w = ((Some t', err), w')" for n w
    using that
  proof (induction n arbitrary: w)
    case 0
    then show ?case using assms(2) by simp
  next
    case (Suc n)
    let ?pc = "CallGetStatus key (t_ID t)" and ?name = "ad_Name ?ad"
    let ?w1 = "w\<lparr>w_calls := w_calls w @ [?pc]\<rparr>"
    have h1: "holds svc p t ?w1" using Suc.prems(1) by (simp add: holds_calls)
    show ?case
    proof (cases "ad_call ?ad (w_calls w) ?pc")
      case (Inl e)
      then show ?thesis using Suc.prems(2) assms(2) by (simp add: call_provider_def)
    next
      case (Inr resp)
      show ?thesis
      proof (cases "rs_Status resp = StatusNotFound")
        case True
        then show ?thesis using Suc.prems(2) Inr Suc.IH [OF h1] assms(2) by (auto simp: call_provider_def split: if_splits)
      next
        case False
        then have "applyProviderStatus svc now t ?name resp ''recovered after ambiguous failure'' ?w1 = ((Some t', err), w')"
          using Suc.prems(2) Inr by (simp add: call_provider_def)
        from applyProviderStatus_world(4) [OF h1 this, of t'] show ?thesis using never [OF Inr] assms(2) by auto
      qed
    qed
  qed
  then show ?thesis using assms(1,4) by (simp add: resolveAmbiguousOutcome_def)
qed


text \<open>A charge that needed the customer's action and failed; the payment is still authorizing.\<close>

definition demo_failed :: SimServer where
  "demo_failed = (let s = snd (Client_call demo_sim_env (demo_client\<lparr>cc_Mode := ''redirect''\<rparr>) demo_ctx LostBody demo_charge_call demo_hanging)
     in snd (handleComplete demo_sim_env demo_ctx \<lparr>rq_route = ''POST /v1/simulate/complete'', rq_header = (\<lambda>_. []), rq_query = (\<lambda>_. []),
          rq_body = Some (JObj [(''reference'', JStr ''ch_1''), (''outcome'', JStr ''failed'')])\<rparr> s))"

definition demo_open :: Transaction where
  "demo_open = demo_payment\<lparr>t_State := StateAuthorizing\<rparr>"

definition demo_unresolved :: "outcome \<times> world" where
  "demo_unresolved =
     (let ad = simulated_adapter demo_sim_env demo_client demo_weather demo_failed
      in resolveAmbiguousOutcome (demo_svc (ad_call ad)) 5 (\<lambda>_. False) demo_open ad ''7:authorize'' (PspError ClassTimeout ''sim'' [])
           (demo_world (empty_db\<lparr>db_payments := [demo_open]\<rparr>)))"

theorem failed_charge_never_resolves_witness:
  "map_option ch_Status (map_of (ss_byKey (sv_store demo_failed)) ''7:authorize'') = Some simFailed
   \<and> (case demo_unresolved of ((Some t', Some (ErrOutcomeUnresolved _)), _) \<Rightarrow> t_State t' \<noteq> StateFailed | _ \<Rightarrow> False)"
proof -
  let ?w = "demo_world (empty_db\<lparr>db_payments := [demo_open]\<rparr>)"
  have r: "map_option ch_Status (map_of (ss_byKey (sv_store demo_failed)) ''7:authorize'') = Some simFailed
    \<and> (case demo_unresolved of ((Some t', Some (ErrOutcomeUnresolved _)), _) \<Rightarrow> True | _ \<Rightarrow> False)" by code_simp
  then obtain t' e w' where u: "demo_unresolved = ((Some t', Some (ErrOutcomeUnresolved e)), w')"
    by (auto split: prod.splits option.splits gerror.splits)
  have "holds (demo_svc f) 0 demo_open ?w" for f
    by (simp add: holds_def demo_world_def sched_ok_def demo_svc_def demo_open_def demo_payment_def tracks_def payment_row_def)
  moreover have "t_State demo_open = StateAuthorizing" by (simp add: demo_open_def)
  moreover have "weather_ok demo_weather" by (simp add: weather_ok_def demo_weather_def)
  ultimately have "t_State t' \<noteq> StateFailed"
    using failed_charge_never_resolves u [unfolded demo_unresolved_def Let_def] by blast
  then show ?thesis using r unfolding u by simp
qed


section \<open>Callbacks\<close>

definition callback_headers :: "string \<Rightarrow> string \<Rightarrow> Headers" where
  "callback_headers ts signature = (\<lambda>_. [])(headerTimestamp := ts, headerSignature := signature)"

lemma Emit_posts:
  assumes "em_targetURL (sv_hooks s) \<noteq> []"
    and "post \<in> set (drop (length (em_posted (sv_hooks s))) (em_posted (sv_hooks (Emit env now reference key status s))))"
  obtains ev where "post = (let ts = show_int (now div 1000000000); bdy = en_marshal env ev
      in (ts, sign (en_hmac env) (em_secret (sv_hooks s)) ts bdy, bdy))"
    "xe_Reference ev = reference" "xe_ID ev \<noteq> []" "xe_Status ev = status \<or> xe_Status ev = ''AUTH_PENDING_STALE''"
    "take 4 (xe_ID ev) = ''evt_''" "drop 4 (xe_ID ev) \<in> range (en_uuid env)" "xe_Type ev = ''charge.updated''" "xe_CreatedAt ev = now"
  using assms by (auto simp: Emit_def Emitter_build_def Emitter_deliver_def Let_def split: if_splits)

lemma fresh_timestamp:
  assumes "0 \<le> now" "now < 2 ^ 62" "\<bar>received - now\<bar> \<le> 299000000000"
  shows "sint (time_Sub received (time_Unix (now div 1000000000))) = received - now div 1000000000 * 1000000000"
    "\<bar>received - now div 1000000000 * 1000000000\<bar> < 300000000000"
proof -
  have q: "0 \<le> now div 1000000000" "now div 1000000000 < 2 ^ 62" using assms(1,2) by linarith+
  then have "time_Unix (now div 1000000000) = now div 1000000000 * 1000000000" by (simp add: time_Unix_def wrap64_id in64_def)
  moreover show b: "\<bar>received - now div 1000000000 * 1000000000\<bar> < 300000000000" using assms(3) by linarith
  moreover have "in64 (received - now div 1000000000 * 1000000000)" using b by (auto simp: in64_def)
  ultimately show "sint (time_Sub received (time_Unix (now div 1000000000))) = received - now div 1000000000 * 1000000000"
    by (simp only: time_Sub_def if_True sint_word_of_int_in64)
qed

text \<open>Events that JSON carries without loss: printable ASCII texts and a time in a year of four digits. For these the
  documentation of encoding/json promises the way back; it does not for invalid UTF-8 or other years.\<close>

definition printable :: "char \<Rightarrow> bool" where
  "printable c \<longleftrightarrow> 32 \<le> (of_char c :: nat) \<and> (of_char c :: nat) < 127"

definition carried :: "SimEvent \<Rightarrow> bool" where
  "carried ev \<longleftrightarrow> list_all printable (xe_ID ev) \<and> list_all printable (xe_Type ev) \<and> list_all printable (xe_Reference ev)
     \<and> list_all printable (xe_Status ev) \<and> 0 \<le> xe_CreatedAt ev \<and> xe_CreatedAt ev < 253402300800 * 1000000000"

text \<open>C34: what the simulator posts is what the orchestrator accepts. Take a charge reference, a status and event identifiers in
  printable ASCII, a clock between 1970 and 2116, a keyed hash that is never empty, and a JSON codec that reads back what it wrote for events of
  printable texts and years of four digits. Then every callback the simulator sends, duplicates and
  the injected stale event included, passes the receiver's signature check when both share the secret and it arrives
  within 299 seconds of its sending by the receiver's clock, and parses to an event about the charge with the status the
  provider announced, or a pending one.\<close>

theorem emitted_callbacks_verify:
  assumes "em_targetURL (sv_hooks s) \<noteq> []" "reference \<noteq> []" "0 \<le> now" "now < 2 ^ 62" "\<bar>received - now\<bar> \<le> 299000000000"
    and "\<And>k m. en_hmac env k m \<noteq> []"
    and "list_all printable reference" "list_all printable status" "\<And>i. list_all printable (en_uuid env i)"
    and "\<And>ev. carried ev \<Longrightarrow> unmarshal (en_marshal env ev) = Some \<lparr>se_ID = xe_ID ev, se_Type = xe_Type ev, se_Reference = xe_Reference ev,
           se_Status = xe_Status ev, se_CreatedAt = xe_CreatedAt ev, se_Sequence = sint (xe_Sequence ev)\<rparr>"
    and "(ts, signature, bdy) \<in> set (drop (length (em_posted (sv_hooks s))) (em_posted (sv_hooks (Emit env now reference key status s))))"
  shows "Simulator_Verify (en_hmac env) (NewSimulator name (em_secret (sv_hooks s))) (callback_headers ts signature) bdy received = Inr ()
    \<and> (\<exists>ev. Simulator_Parse unmarshal bdy = Inr ev \<and> ev_Reference ev = reference
         \<and> (ev_Status ev = mapSimulatorStatus status \<or> ev_Status ev = StatusPending))"
proof -
  obtain ev where ev: "(ts, signature, bdy) = (let ts = show_int (now div 1000000000); bdy = en_marshal env ev
      in (ts, sign (en_hmac env) (em_secret (sv_hooks s)) ts bdy, bdy))"
    and e: "xe_Reference ev = reference" "xe_ID ev \<noteq> []" "xe_Status ev = status \<or> xe_Status ev = ''AUTH_PENDING_STALE''"
    "take 4 (xe_ID ev) = ''evt_''" "drop 4 (xe_ID ev) \<in> range (en_uuid env)" "xe_Type ev = ''charge.updated''" "xe_CreatedAt ev = now"
    by (rule Emit_posts [OF assms(1,11)])
  have "list_all printable (take 4 (xe_ID ev))" "list_all printable (drop 4 (xe_ID ev))" "list_all printable (xe_Type ev)" "list_all printable (xe_Status ev)"
    using e(3-6) assms(8,9) by (auto simp: printable_def)
  then have "carried ev"
    using e(1,7) assms(3,4,7) by (simp add: carried_def) (metis append_take_drop_id list_all_append)
  note rt = assms(10) [OF this]
  have p: "ts = show_int (now div 1000000000)" "bdy = en_marshal env ev" "signature = en_hmac env (em_secret (sv_hooks s)) (ts @ ''.'' @ bdy)"
    using ev by (simp_all add: Let_def sign_def)
  have "0 \<le> now div 1000000000" "now div 1000000000 < 2 ^ 62" using assms(3,4) by linarith+
  then have "in64 (now div 1000000000)" by (simp add: in64_def)
  then have parse: "ParseInt64 ts = Some (now div 1000000000)" unfolding p(1) by (rule ParseInt64_show_int)
  then have "ts \<noteq> []" by (auto simp: ParseInt64_def atoi_def)
  moreover note f = fresh_timestamp [OF assms(3,4,5)]
  ultimately have "Simulator_Verify (en_hmac env) (NewSimulator name (em_secret (sv_hooks s))) (callback_headers ts signature) bdy received = Inr ()"
    using parse p(3) assms(6) by (auto simp: Simulator_Verify_def callback_headers_def headerTimestamp_def headerSignature_def
        NewSimulator_def DefaultTolerance_def sint_minus_in64 in64_def Let_def)
  moreover have "mapSimulatorStatus ''AUTH_PENDING_STALE'' = StatusPending" by (simp add: mapSimulatorStatus_def)
  ultimately show ?thesis using assms(2) rt e(1-3) by (auto simp: p(2) Simulator_Parse_def)
qed


text \<open>A codec of events that loses nothing: every member as its length in unary and its characters.\<close>

definition pack :: "string \<Rightarrow> string" where
  "pack s = replicate (length s) CHR ''1'' @ CHR ''0'' # s"

definition unpack :: "string \<Rightarrow> string \<times> string" where
  "unpack b = (let n = length (takeWhile (\<lambda>c. c = CHR ''1'') b); r = drop (Suc n) b in (take n r, drop n r))"

definition demo_marshal :: "SimEvent \<Rightarrow> string" where
  "demo_marshal ev = pack (xe_ID ev) @ pack (xe_Type ev) @ pack (xe_Reference ev) @ pack (xe_Status ev)
     @ pack (show_int (xe_CreatedAt ev)) @ show_int (sint (xe_Sequence ev))"

definition demo_unmarshal :: "string \<Rightarrow> simulatorEvent option" where
  "demo_unmarshal b =
     (let (i, b1) = unpack b; (ty, b2) = unpack b1; (rf, b3) = unpack b2; (st, b4) = unpack b3; (ca, sq) = unpack b4
      in case (atoi ca, atoi sq) of
           (Some c, Some q) \<Rightarrow> Some \<lparr>se_ID = i, se_Type = ty, se_Reference = rf, se_Status = st, se_CreatedAt = c, se_Sequence = q\<rparr>
         | _ \<Rightarrow> None)"

lemma unpack_pack: "unpack (pack s @ r) = (s, r)"
proof -
  have "takeWhile (\<lambda>c. c = CHR ''1'') (replicate n CHR ''1'' @ CHR ''0'' # t) = replicate n CHR ''1''" for n t
    by (induction n) simp_all
  then show ?thesis by (simp add: unpack_def pack_def Let_def)
qed

lemma demo_codec_events: "demo_unmarshal (demo_marshal ev) = Some \<lparr>se_ID = xe_ID ev, se_Type = xe_Type ev, se_Reference = xe_Reference ev,
    se_Status = xe_Status ev, se_CreatedAt = xe_CreatedAt ev, se_Sequence = sint (xe_Sequence ev)\<rparr>"
  by (simp add: demo_unmarshal_def demo_marshal_def unpack_pack atoi_show_int)

lemma show_nat_printable: "list_all printable (show_nat n)"
proof (induction n rule: show_nat.induct)
  case (1 n)
  have "printable (digit_char k)" if "k < 10" for k using that by (simp add: printable_def digit_char_def)
  then show ?case using 1 by (subst show_nat.simps) simp
qed

definition demo_posting_env :: SimEnv where
  "demo_posting_env = demo_sim_env\<lparr>en_marshal := demo_marshal, en_hmac := (\<lambda>k m. CHR ''h'' # k @ m)\<rparr>"

definition demo_hooked :: SimServer where
  "demo_hooked = NewServer \<lparr>cf_Seed = 1, cf_Probabilities = (\<lambda>f. if f = FaultDuplicateWebhook then 1 else 0), cf_OutageUntil = 0,
     cf_SlowResponseMinMs = 0, cf_SlowResponseMaxMs = 0, cf_WebhookDelayMs = 50\<rparr> (NewWebhookEmitter ''http://o'' ''secret'')"

theorem emitted_callbacks_verify_witness:
  "let posted = em_posted (sv_hooks (Emit demo_posting_env 5000000000 ''ch_1'' ''k'' ''AUTH_OK'' demo_hooked)) in
   length posted = 3 \<and> (\<forall>(ts, signature, bdy) \<in> set posted.
     Simulator_Verify (en_hmac demo_posting_env) (NewSimulator ''sim'' ''secret'') (callback_headers ts signature) bdy 9000000000 = Inr ())"
proof -
  let ?posted = "em_posted (sv_hooks (Emit demo_posting_env 5000000000 ''ch_1'' ''k'' ''AUTH_OK'' demo_hooked))"
  have d: "em_targetURL (sv_hooks demo_hooked) \<noteq> [] \<and> em_posted (sv_hooks demo_hooked) = [] \<and> em_secret (sv_hooks demo_hooked) = ''secret''
    \<and> length ?posted = 3" by code_simp
  have e: "en_hmac demo_posting_env k m \<noteq> []" "en_marshal demo_posting_env = demo_marshal" for k m
    by (simp_all add: demo_posting_env_def)
  have pr: "list_all printable ''ch_1''" "list_all printable ''AUTH_OK''" by code_simp+
  have ids: "list_all printable (en_uuid demo_posting_env i)" for i
    by (simp add: demo_posting_env_def demo_sim_env_def show_nat_printable)
  have "Simulator_Verify (en_hmac demo_posting_env) (NewSimulator ''sim'' ''secret'') (callback_headers ts signature) bdy 9000000000 = Inr ()"
    if "(ts, signature, bdy) \<in> set ?posted" for ts signature bdy
    using emitted_callbacks_verify [of demo_hooked "''ch_1''" 5000000000 9000000000 demo_posting_env "''AUTH_OK''" demo_unmarshal
        ts signature bdy "''k''" "''sim''"] that d e pr ids demo_codec_events by simp
  then show ?thesis using d by (auto simp: Let_def)
qed

end
