(* ===== verification/Auth.thy ===== *)
theory Auth
  imports Database
begin

text \<open>
  API keys (internal/auth) and the middleware that turns one into a merchant
  (internal/transport/http/middleware/authentication.go). SHA-256 and the random bytes of a new key
  are parameters; the base32 encoding, the shape of a key and its parsing are modelled. The table
  lives on the global database and has one row per public half (migration 13).
\<close>

unbundle bit_operations_syntax

section \<open>Keys (key.go)\<close>

definition key_Prefix :: string where
  "key_Prefix = ''pmt''"

record Key =
  k_Public :: string
  k_Secret :: string
  k_Hash :: string

text \<open>\<open>encoding/base32\<close> without padding, in lower case: five bits to a digit, the last group filled with zeros.\<close>

definition byte_bits :: "char \<Rightarrow> bool list" where
  "byte_bits c = map (\<lambda>i. bit (of_char c :: nat) (7 - i)) [0..<8]"

fun quintets :: "bool list \<Rightarrow> bool list list" where
  "quintets (a # b # c # d # e # bs) = [a, b, c, d, e] # quintets bs"
| "quintets [] = []"
| "quintets bs = [bs @ replicate (5 - length bs) False]"

definition base32_chars :: string where
  "base32_chars = ''abcdefghijklmnopqrstuvwxyz234567''"

definition base32_digit :: "bool list \<Rightarrow> char" where
  "base32_digit bs = base32_chars ! foldl (\<lambda>n b. 2 * n + of_bool b) 0 bs"

definition key_encode :: "string \<Rightarrow> string" where
  "key_encode bytes = map base32_digit (quintets (concat (map byte_bits bytes)))"

definition Digest :: "(string \<Rightarrow> string) \<Rightarrow> string \<Rightarrow> string" where
  "Digest sha256 secret = sha256 secret"

text \<open>The bytes are what \<open>crypto/rand\<close> gave; \<open>None\<close> is its failure.\<close>

definition Generate_key :: "(string \<Rightarrow> string) \<Rightarrow> string option \<Rightarrow> string option \<Rightarrow> Key result" where
  "Generate_key sha256 publicBytes secretBytes =
     (case publicBytes of
        None \<Rightarrow> Inl (ErrOther ''generate key prefix'')
      | Some pb \<Rightarrow>
          (case secretBytes of
             None \<Rightarrow> Inl (ErrOther ''generate key secret'')
           | Some sb \<Rightarrow>
               let public = key_encode pb; secret = key_Prefix @ ''_'' @ public @ ''_'' @ key_encode sb
               in Inr \<lparr>k_Public = public, k_Secret = secret, k_Hash = Digest sha256 secret\<rparr>))"

fun split_on :: "char \<Rightarrow> string \<Rightarrow> string list" where
  "split_on sep [] = [[]]"
| "split_on sep (c # cs) =
     (if c = sep then [] # split_on sep cs
      else case split_on sep cs of [] \<Rightarrow> [[c]] | p # ps \<Rightarrow> (c # p) # ps)"

definition PublicPart :: "string \<Rightarrow> string result" where
  "PublicPart presented =
     (let parts = split_on CHR ''_'' presented in
      if length parts \<noteq> 3 \<or> parts ! 0 \<noteq> key_Prefix \<or> parts ! 1 = [] \<or> parts ! 2 = [] then Inl ErrMalformedKey
      else Inr (parts ! 1))"

definition Redact :: "string \<Rightarrow> string" where
  "Redact public = key_Prefix @ ''_'' @ public @ ''_'' @ replicate 8 CHR ''*''"

section \<open>The store (store.go)\<close>

definition touchInterval :: int where
  "touchInterval = 3600000000000"

definition key_row :: "string \<Rightarrow> db \<Rightarrow> KeyRow option" where
  "key_row public d = tfind (\<lambda>r. kr_Public r = public) (db_keys d)"

definition Issue :: "time \<Rightarrow> string \<Rightarrow> string \<Rightarrow> Key \<Rightarrow> db \<Rightarrow> (KeyRow \<times> db) result" where
  "Issue now merchantID name key d =
     (if key_row (k_Public key) d \<noteq> None then Inl (ErrConstraint ''api_keys_prefix_unique'')
      else let r = \<lparr>kr_ID = db_nextid d, kr_MerchantID = merchantID, kr_Public = k_Public key, kr_Hash = k_Hash key,
                    kr_Name = name, kr_CreatedAt = now, kr_LastUsedAt = None, kr_RevokedAt = None\<rparr>
           in Inr (r, d\<lparr>db_keys := db_keys d @ [r], db_nextid := Suc (db_nextid d)\<rparr>))"

definition touch_body :: "time \<Rightarrow> uuid \<Rightarrow> unit body" where
  "touch_body now i u d =
     ((), Inr (d\<lparr>db_keys := tupdate (\<lambda>r. kr_ID r = i) (\<lambda>r. r\<lparr>kr_LastUsedAt := Some now\<rparr>) (db_keys d)\<rparr>))"

definition touch :: "time \<Rightarrow> KeyRow \<Rightarrow> world \<Rightarrow> world" where
  "touch now r w =
     (if (case kr_LastUsedAt r of None \<Rightarrow> False | Some t \<Rightarrow> now - t < touchInterval) then w
      else snd (snd (tx_at Global (touch_body now (kr_ID r)) () w)))"

definition Auth_Verify :: "(string \<Rightarrow> string) \<Rightarrow> time \<Rightarrow> string \<Rightarrow> world \<Rightarrow> KeyRow result \<times> world" where
  "Auth_Verify sha256 now presented w =
     (case PublicPart presented of
        Inl e \<Rightarrow> (Inl e, w)
      | Inr public \<Rightarrow>
          (case query_at Global (\<lambda>d. case key_row public d of None \<Rightarrow> Inl ErrKeyNotFound | Some r \<Rightarrow> Inr r) w of
             (Inl e, w1) \<Rightarrow> (Inl e, w1)
           | (Inr r, w1) \<Rightarrow>
               if kr_Hash r \<noteq> Digest sha256 presented then (Inl ErrKeyNotFound, w1)
               else if kr_RevokedAt r \<noteq> None then (Inl ErrKeyNotFound, w1)
               else (Inr r, touch now r w1)))"

text \<open>\<open>ORDER BY created_at DESC\<close>.\<close>

definition Key_List :: "string \<Rightarrow> db \<Rightarrow> KeyRow list" where
  "Key_List merchantID d =
     rev (sort_key kr_CreatedAt (filter (\<lambda>r. merchantID = [] \<or> kr_MerchantID r = merchantID) (db_keys d)))"

definition Revoke :: "time \<Rightarrow> string \<Rightarrow> db \<Rightarrow> bool \<times> db" where
  "Revoke now public d =
     (let hit = (\<lambda>r. kr_Public r = public \<and> kr_RevokedAt r = None) in
      (length (filter hit (db_keys d)) = 1,
       d\<lparr>db_keys := tupdate hit (\<lambda>r. r\<lparr>kr_RevokedAt := Some now\<rparr>) (db_keys d)\<rparr>))"

section \<open>The middleware (authentication.go)\<close>

definition bearerToken :: "string \<Rightarrow> string option" where
  "bearerToken header =
     (let scheme = ''bearer '' in
      if header = [] \<or> length header \<le> length scheme \<or> \<not> EqualFold (take (length scheme) header) scheme then None
      else let token = TrimSpace (drop (length scheme) header) in if token = [] then None else Some token)"

text \<open>\<open>Inl\<close>: the request is answered here, with a status and an error code. \<open>Inr\<close>: the merchant that the rest
  of the chain sees.\<close>

definition Authenticate ::
  "(string \<Rightarrow> string) \<Rightarrow> time \<Rightarrow> string \<Rightarrow> world \<Rightarrow> ((int \<times> string) + string) \<times> world" where
  "Authenticate sha256 now header w =
     (case bearerToken header of
        None \<Rightarrow> (Inl (401, ''authorization_required''), w)
      | Some presented \<Rightarrow>
          (case Auth_Verify sha256 now presented w of
             (Inr r, w1) \<Rightarrow> (Inr (kr_MerchantID r), w1)
           | (Inl e, w1) \<Rightarrow>
               if e = ErrKeyNotFound \<or> e = ErrMalformedKey then (Inl (401, ''invalid_api_key''), w1)
               else (Inl (503, ''unavailable''), w1)))"

text \<open>The merchant a handler finds in the request.\<close>

definition MerchantFrom :: "string \<Rightarrow> string option" where
  "MerchantFrom merchant = (if merchant = [] then None else Some merchant)"

section \<open>Generated keys parse\<close>

lemma quintets_length: "qs = quintets bs \<Longrightarrow> list_all (\<lambda>q. length q = 5) qs"
  by (induction bs arbitrary: qs rule: quintets.induct) auto

lemma quintets_nonempty: "bs \<noteq> [] \<Longrightarrow> quintets bs \<noteq> []"
  by (cases bs rule: quintets.cases) auto

lemma five_bits: "length q = 5 \<Longrightarrow> foldl (\<lambda>n b. 2 * n + of_bool b) 0 q < (32 :: nat)"
  by (auto simp: numeral_eq_Suc length_Suc_conv of_bool_def)

lemma base32_alphabet: "i < 32 \<Longrightarrow> base32_chars ! i \<in> {c. c \<noteq> CHR ''_'' \<and> graphic c}"
proof -
  have "list_all (\<lambda>c. c \<noteq> CHR ''_'' \<and> graphic c) base32_chars" "length base32_chars = 32"
    by (simp_all add: base32_chars_def graphic_def)
  then show "i < 32 \<Longrightarrow> ?thesis" by (simp add: list_all_length)
qed

lemma encode_digits: "c \<in> set (key_encode bytes) \<Longrightarrow> c \<noteq> CHR ''_'' \<and> graphic c"
proof -
  have "base32_digit q \<in> {c. c \<noteq> CHR ''_'' \<and> graphic c}" if "q \<in> set (quintets bs)" for q bs
    using that quintets_length [OF refl, of bs] five_bits base32_alphabet unfolding base32_digit_def list_all_iff by blast
  then show "c \<in> set (key_encode bytes) \<Longrightarrow> ?thesis" unfolding key_encode_def by auto
qed

lemma encode_no_separator: "CHR ''_'' \<notin> set (key_encode bytes)"
  using encode_digits by blast

lemma encode_nonempty: "bytes \<noteq> [] \<Longrightarrow> key_encode bytes \<noteq> []"
  by (cases bytes) (simp_all add: key_encode_def byte_bits_def quintets_nonempty upt_conv_Cons)

lemma split_on_word: "sep \<notin> set s \<Longrightarrow> split_on sep s = [s]"
  by (induction s) auto

lemma split_on_append: "sep \<notin> set s \<Longrightarrow> split_on sep (s @ sep # t) = s # split_on sep t"
  by (induction s) auto

lemma PublicPart_generated:
  assumes "Generate_key sha256 (Some pb) (Some sb) = Inr key" "pb \<noteq> []" "sb \<noteq> []"
  shows "PublicPart (k_Secret key) = Inr (k_Public key)" "k_Hash key = Digest sha256 (k_Secret key)"
proof -
  have k: "k_Public key = key_encode pb" "k_Secret key = ''pmt'' @ CHR ''_'' # key_encode pb @ CHR ''_'' # key_encode sb"
    "k_Hash key = Digest sha256 (k_Secret key)"
    using assms(1) by (auto simp: Generate_key_def key_Prefix_def Let_def)
  have "split_on CHR ''_'' (k_Secret key) = [''pmt'', key_encode pb, key_encode sb]"
    unfolding k(2) by (subst split_on_append) (simp_all add: split_on_append split_on_word encode_no_separator)
  then show "PublicPart (k_Secret key) = Inr (k_Public key)"
    using k(1) assms(2,3) by (simp add: PublicPart_def key_Prefix_def encode_nonempty)
  show "k_Hash key = Digest sha256 (k_Secret key)" by (rule k(3))
qed


section \<open>Claims\<close>

lemma generated_word:
  assumes "Generate_key sha256 (Some pb) (Some sb) = Inr key"
  shows "\<forall>c \<in> set (k_Secret key). graphic c" "k_Secret key \<noteq> []"
  using assms encode_digits by (auto simp: Generate_key_def key_Prefix_def Let_def graphic_def)

lemma bearer_token: "\<forall>c \<in> set token. graphic c \<Longrightarrow> token \<noteq> [] \<Longrightarrow> bearerToken (''Bearer '' @ token) = Some token"
proof -
  have "EqualFold ''Bearer '' ''bearer ''" by code_simp
  then show "\<forall>c \<in> set token. graphic c \<Longrightarrow> token \<noteq> [] \<Longrightarrow> ?thesis"
    by (cases token) (simp_all add: bearerToken_def TrimSpace_word)
qed

lemma Verify_quiet:
  assumes "w_sched w = []" "Global < length (w_dbs w)" "PublicPart presented = Inr public" "key_row public (w_dbs w ! Global) = Some r"
  shows "fst (Auth_Verify sha256 now presented w) =
    (if kr_Hash r = Digest sha256 presented \<and> kr_RevokedAt r = None then Inr r else Inl ErrKeyNotFound)"
  using assms by (simp add: Auth_Verify_def query_at_def turn_def)

lemma key_row_Revoke:
  "key_row public d = Some r \<Longrightarrow> \<exists>r'. key_row public (snd (Revoke now public d)) = Some r' \<and> kr_RevokedAt r' \<noteq> None"
proof -
  have "find (\<lambda>r. kr_Public r = public) rows = Some r \<Longrightarrow>
    \<exists>r'. find (\<lambda>r. kr_Public r = public) (map (\<lambda>r. if kr_Public r = public \<and> kr_RevokedAt r = None then r\<lparr>kr_RevokedAt := Some now\<rparr> else r) rows)
      = Some r' \<and> kr_RevokedAt r' \<noteq> None" for rows
    by (induction rows) (auto split: if_splits)
  then show "key_row public d = Some r \<Longrightarrow> ?thesis"
    unfolding key_row_def Revoke_def Let_def tfind_def tupdate_def by simp
qed

text \<open>C19: a key that has been issued opens the merchant's account until it is revoked. Whatever random bytes it was
  made of, a generated key parses back to its public half, its bearer header authenticates as the merchant it was
  issued to, and after a revocation the same header is refused with the answer an unknown key gets.\<close>

theorem issued_key_authenticates:
  assumes "Generate_key sha256 (Some pb) (Some sb) = Inr key" "pb \<noteq> []" "sb \<noteq> []"
    and "Issue at merchantID name key d = Inr (r, d')"
    and "w_sched w = []" "Global < length (w_dbs w)" "w_dbs w ! Global = d'"
  shows "fst (Authenticate sha256 now (''Bearer '' @ k_Secret key) w) = Inr merchantID
    \<and> fst (Authenticate sha256 now (''Bearer '' @ k_Secret key) (w\<lparr>w_dbs := (w_dbs w)[Global := snd (Revoke later (k_Public key) d')]\<rparr>))
        = Inl (401, ''invalid_api_key'')"
proof -
  note token = bearer_token [OF generated_word [OF assms(1)]] and public = PublicPart_generated [OF assms(1-3)]
  have r: "key_row (k_Public key) d' = Some r" "kr_MerchantID r = merchantID" "kr_Hash r = k_Hash key" "kr_RevokedAt r = None"
    using assms(4) by (auto simp: Issue_def key_row_def tfind_append tfind_Cons Let_def split: if_splits)
  obtain r' where r': "key_row (k_Public key) (snd (Revoke later (k_Public key) d')) = Some r'" "kr_RevokedAt r' \<noteq> None"
    using key_row_Revoke [OF r(1)] by blast
  let ?w' = "w\<lparr>w_dbs := (w_dbs w)[Global := snd (Revoke later (k_Public key) d')]\<rparr>"
  have "fst (Auth_Verify sha256 now (k_Secret key) w) = Inr r"
    using Verify_quiet [OF assms(5,6) public(1), of r sha256 now] r public(2) assms(7) by simp
  moreover have "fst (Auth_Verify sha256 now (k_Secret key) ?w') = Inl ErrKeyNotFound"
    using Verify_quiet [of ?w', OF _ _ public(1), of r' sha256 now] r' assms(5,6) by simp
  ultimately show ?thesis
    using r(2) token by (cases "Auth_Verify sha256 now (k_Secret key) w"; cases "Auth_Verify sha256 now (k_Secret key) ?w'")
      (simp add: Authenticate_def)
qed

theorem issued_key_authenticates_witness:
  "case Generate_key (\<lambda>s. rev s) (Some ''abcdef'') (Some ''0123456789abcdef0123456789abcdef'') of
     Inl _ \<Rightarrow> False
   | Inr key \<Rightarrow> (case Issue 1 ''m1'' ''ci'' key empty_db of
         Inl _ \<Rightarrow> False
       | Inr (r, d) \<Rightarrow> fst (Authenticate (\<lambda>s. rev s) 5 (''Bearer '' @ k_Secret key) \<lparr>w_dbs = [d], w_sched = [], w_calls = []\<rparr>) = Inr ''m1'')"
proof -
  obtain key where key: "Generate_key (\<lambda>s. rev s) (Some ''abcdef'') (Some ''0123456789abcdef0123456789abcdef'') = Inr key"
    by (simp add: Generate_key_def Let_def)
  obtain r d where i: "Issue 1 ''m1'' ''ci'' key empty_db = Inr (r, d)"
    by (simp add: Issue_def key_row_def empty_db_def tfind_def Let_def)
  show ?thesis
    using issued_key_authenticates [OF key _ _ i, of "\<lparr>w_dbs = [d], w_sched = [], w_calls = []\<rparr>" 5] key i by (simp add: Global_def)
qed

end
