(* ===== verification/Http.thy ===== *)
theory Http
  imports Auth Json IdemStore CaptureSafety Webhook
begin

text \<open>
  The HTTP surface (internal/transport/http): the payment handlers (handler/payment.go), the callback
  endpoint (handler/webhook.go) and the routes a merchant reaches, each behind authentication and the
  two that move money behind the idempotency middleware as well (server.go). A handler's answer is a
  status and a JSON document. UUID and time texts, error texts, JSON text and the request digest are
  parameters. Logging and metrics are left out.
\<close>

record HttpEnv =
  he_sha256 :: "string \<Rightarrow> string"
  he_parseUUID :: "string \<Rightarrow> uuid option"
  he_uuid :: "uuid \<Rightarrow> string"
  he_time :: "time \<Rightarrow> string"
  he_error :: "gerror \<Rightarrow> string"
  he_render :: "json \<Rightarrow> string"

record ApiCtx =
  ac_now :: time
  ac_newID :: uuid
  ac_eventID :: uuid
  ac_entryID :: uuid
  ac_clientIP :: string

type_synonym answer = "int \<times> json"

definition abort :: "int \<Rightarrow> string \<Rightarrow> answer" where
  "abort status code = (status, JObj [(''error'', JStr code)])"

definition abort_with :: "HttpEnv \<Rightarrow> int \<Rightarrow> string \<Rightarrow> gerror \<Rightarrow> answer" where
  "abort_with env status code e = (status, JObj [(''error'', JStr code), (''message'', JStr (he_error env e))])"

section \<open>Payments (handler/payment.go)\<close>

definition toResponse :: "HttpEnv \<Rightarrow> Transaction \<Rightarrow> json" where
  "toResponse env t = JObj [(''id'', JStr (he_uuid env (t_ID t))), (''merchant_id'', JStr (t_MerchantID t)),
     (''state'', JStr (state_string (t_State t))), (''amount'', JInt (minor (t_Amount t))),
     (''currency'', JStr (m_currency (t_Amount t))), (''captured'', JInt (minor (t_Captured t))),
     (''refunded'', JInt (minor (t_Refunded t))), (''created_at'', JStr (he_time env (t_CreatedAt t))),
     (''updated_at'', JStr (he_time env (t_UpdatedAt t)))]"

definition unauthenticated :: answer where
  "unauthenticated = (401, JObj [(''error'', JStr ''authorization_required''),
     (''message'', JStr ''an Authorization: Bearer <api key> header is required'')])"

definition create_fields :: "string \<rightharpoonup> (int64 \<times> string) setter" where
  "create_fields = [''amount'' \<mapsto> as_int64 (\<lambda>i (_, c). (i, c)), ''currency'' \<mapsto> as_string (\<lambda>s (a, _). (a, s))]"

definition Payment_Create ::
  "HttpEnv \<Rightarrow> Service \<Rightarrow> ApiCtx \<Rightarrow> string option \<Rightarrow> string \<Rightarrow> json option \<Rightarrow> world \<Rightarrow> answer \<times> world" where
  "Payment_Create env svc cx merchant idempotencyKey bdy w =
     (case decode_struct True create_fields (0, []) bdy of
        None \<Rightarrow> (abort 400 ''invalid_request_body'', w)
      | Some (minorUnits, currency) \<Rightarrow>
          (case Money_New minorUnits currency of
             Inl e \<Rightarrow> (abort_with env 400 ''invalid_amount'' e, w)
           | Inr amount \<Rightarrow>
               (case merchant of
                  None \<Rightarrow> (unauthenticated, w)
                | Some merchantID \<Rightarrow>
                    (case Service_Create svc (ac_newID cx) (ac_eventID cx) (ac_now cx)
                            \<lparr>ci_MerchantID = merchantID, ci_IdempotencyKey = idempotencyKey, ci_Amount = amount,
                             ci_Actor = ''api:'' @ merchantID, ci_SourceIP = ac_clientIP cx\<rparr> w of
                       (Inl e, w1) \<Rightarrow>
                         if e = ErrAmountNotPositive \<or> e = ErrMerchantRequired \<or> e = ErrInvalidCurrency
                         then (abort_with env 400 ''invalid_payment'' e, w1)
                         else (abort 500 ''internal_error'', w1)
                     | (Inr t, w1) \<Rightarrow> ((201, toResponse env t), w1)))))"

definition capture_fields :: "string \<rightharpoonup> (int64 option \<times> string option) setter" where
  "capture_fields = [''amount'' \<mapsto> as_int64 (\<lambda>i (_, c). (Some i, c)), ''currency'' \<mapsto> as_string (\<lambda>s (a, _). (a, Some s))]"

text \<open>An unresolved outcome without its payment would be a nil dereference, which the recovery middleware answers
  with 500, as it would a success without one.\<close>

definition respondToCaptureError :: "HttpEnv \<Rightarrow> Transaction option \<Rightarrow> gerror \<Rightarrow> answer" where
  "respondToCaptureError env t e =
     (if e = ErrPaymentNotFound then abort 404 ''payment_not_found''
      else if e = ErrIllegalTransition \<or> e = ErrExceedsAuthorized \<or> e = ErrAmountNotPositive \<or> e = ErrInvalidCurrency
      then abort_with env 409 ''capture_not_permitted'' e
      else case (e, t) of
          (ErrOutcomeUnresolved _, Some t') \<Rightarrow> (202, toResponse env t')
        | (_, Some t') \<Rightarrow> (422, JObj [(''error'', JStr ''capture_failed''), (''message'', JStr (he_error env e)), (''payment'', toResponse env t')])
        | (_, None) \<Rightarrow> abort 500 ''internal_error'')"

text \<open>The body: absent, or present and then JSON or not.\<close>

definition Payment_Capture ::
  "HttpEnv \<Rightarrow> Service \<Rightarrow> ApiCtx \<Rightarrow> string option \<Rightarrow> string \<Rightarrow> json option option \<Rightarrow> world \<Rightarrow> answer \<times> world" where
  "Payment_Capture env svc cx merchant idParam bdy w =
     (case merchant of
        None \<Rightarrow> (unauthenticated, w)
      | Some merchantID \<Rightarrow>
          (case he_parseUUID env idParam of
             None \<Rightarrow> (abort 404 ''payment_not_found'', w)
           | Some i \<Rightarrow>
               (case (case bdy of None \<Rightarrow> Some (None, None) | Some doc \<Rightarrow> decode_struct True capture_fields (None, None) doc) of
                  None \<Rightarrow> (abort 400 ''invalid_request_body'', w)
                | Some (reqAmount, reqCurrency) \<Rightarrow>
                    (case Service_Get svc merchantID i w of
                       (Inl e, w1) \<Rightarrow> (if e = ErrPaymentNotFound then abort 404 ''payment_not_found'' else abort 500 ''internal_error'', w1)
                     | (Inr existing, w1) \<Rightarrow>
                         (case (case reqAmount of
                                  None \<Rightarrow> Inr (t_Amount existing)
                                | Some a \<Rightarrow> Money_New a (case reqCurrency of None \<Rightarrow> m_currency (t_Amount existing) | Some c \<Rightarrow> c)) of
                            Inl e \<Rightarrow> (abort_with env 400 ''invalid_amount'' e, w1)
                          | Inr amount \<Rightarrow>
                              (case Service_Capture svc (ac_entryID cx) (ac_now cx)
                                      \<lparr>ca_TransactionID = i, ca_MerchantID = merchantID, ca_Amount = amount,
                                       ca_Actor = ''api:'' @ merchantID, ca_SourceIP = ac_clientIP cx\<rparr> w1 of
                                 ((t, Some e), w2) \<Rightarrow> (respondToCaptureError env t e, w2)
                               | ((Some t, None), w2) \<Rightarrow> ((200, toResponse env t), w2)
                               | ((None, None), w2) \<Rightarrow> (abort 500 ''internal_error'', w2)))))))"

definition Payment_Get :: "HttpEnv \<Rightarrow> Service \<Rightarrow> string option \<Rightarrow> string \<Rightarrow> world \<Rightarrow> answer \<times> world" where
  "Payment_Get env svc merchant idParam w =
     (case merchant of
        None \<Rightarrow> (unauthenticated, w)
      | Some merchantID \<Rightarrow>
          (case he_parseUUID env idParam of
             None \<Rightarrow> (abort 404 ''payment_not_found'', w)
           | Some i \<Rightarrow>
               (case Service_Get svc merchantID i w of
                  (Inl e, w1) \<Rightarrow> (if e = ErrPaymentNotFound then abort 404 ''payment_not_found'' else abort 500 ''internal_error'', w1)
                | (Inr t, w1) \<Rightarrow> ((200, toResponse env t), w1))))"

section \<open>Callbacks (handler/webhook.go)\<close>

definition respondToIngestError :: "gerror \<Rightarrow> answer" where
  "respondToIngestError e =
     (if e = ErrUnknownProvider then abort 404 ''unknown_provider''
      else if e = ErrInvalidSignature \<or> e = ErrTimestampOutsideWindow then abort 401 ''invalid_signature''
      else if e = ErrMalformedPayload then abort 400 ''malformed_payload''
      else abort 500 ''internal_error'')"

definition Receive ::
  "Ingestor \<Rightarrow> uuid \<Rightarrow> time \<Rightarrow> string \<Rightarrow> Headers \<Rightarrow> string \<Rightarrow> world \<Rightarrow> answer \<times> world" where
  "Receive ig newID now provider hdr bdy w =
     (case Ingest ig newID now provider hdr bdy w of
        (Inl e, w1) \<Rightarrow> (respondToIngestError e, w1)
      | (Inr res, w1) \<Rightarrow>
          ((200, JObj [(''status'', JStr (if ir_Duplicate res then ''duplicate'' else ''received''))]), w1))"

section \<open>Routes (server.go)\<close>

datatype ApiRoute = CreatePayment | GetPayment string | CapturePayment string

record ApiRequest =
  aq_route :: ApiRoute
  aq_Authorization :: string
  aq_IdempotencyKey :: string
  aq_Body :: "json option option"
  aq_Fingerprint :: string

definition rendered :: "HttpEnv \<Rightarrow> (world \<Rightarrow> answer \<times> world) \<Rightarrow> world \<Rightarrow> (int \<times> string) \<times> world" where
  "rendered env h w = (case h w of ((status, doc), w') \<Rightarrow> ((status, he_render env doc), w'))"

definition payment_route ::
  "HttpEnv \<Rightarrow> Service \<Rightarrow> IdemRepo \<Rightarrow> ApiCtx \<Rightarrow> string \<Rightarrow> ApiRequest \<Rightarrow> world \<Rightarrow> HttpResponse \<times> world" where
  "payment_route env svc repo cx merchant r w =
     (let m = MerchantFrom merchant;
          once = (\<lambda>h. case Idempotency (svc_mapping svc) repo (aq_IdempotencyKey r) m (aq_Fingerprint r) (rendered env h) (ac_now cx) w of
                    (resp, w', _) \<Rightarrow> (resp, w'))
      in case aq_route r of
           CreatePayment \<Rightarrow> once (Payment_Create env svc cx m (aq_IdempotencyKey r) (Option.bind (aq_Body r) id))
         | CapturePayment i \<Rightarrow> once (Payment_Capture env svc cx m i (aq_Body r))
         | GetPayment i \<Rightarrow>
             (case rendered env (Payment_Get env svc m i) w of
                ((status, txt), w') \<Rightarrow> (\<lparr>h_Status = status, h_Body = txt, h_Replayed = False\<rparr>, w')))"

definition serve_v1 ::
  "HttpEnv \<Rightarrow> Service \<Rightarrow> IdemRepo \<Rightarrow> ApiCtx \<Rightarrow> ApiRequest \<Rightarrow> world \<Rightarrow> HttpResponse \<times> world" where
  "serve_v1 env svc repo cx r w =
     (case Authenticate (he_sha256 env) (ac_now cx) (aq_Authorization r) w of
        (Inl (status, code), w1) \<Rightarrow> (http_error status code, w1)
      | (Inr merchant, w1) \<Rightarrow> payment_route env svc repo cx merchant r w1)"

end
