(* ===== verification/HttpClaims.thy ===== *)
theory HttpClaims
  imports Http
begin

text \<open>
  What a caller of the API can and cannot do: nothing happens without a valid key, and with one only
  the merchant's own payments are seen. Also where the answer to a capture misleads.
\<close>

text \<open>The row of a key that opens the request: its header carries the key, the database that is read has the row
  with its digest, and it is not revoked.\<close>

definition opens :: "HttpEnv \<Rightarrow> ApiRequest \<Rightarrow> world \<Rightarrow> KeyRow \<Rightarrow> bool" where
  "opens env r w k \<longleftrightarrow> (\<exists>token. bearerToken (aq_Authorization r) = Some token \<and> kr_Hash k = Digest (he_sha256 env) token)
     \<and> k \<in> set (db_keys (w_dbs (snd (turn w)) ! Global)) \<and> kr_RevokedAt k = None"

lemma Authenticate_cases:
  assumes "Authenticate (he_sha256 env) now (aq_Authorization r) w = (res, w')"
  shows "(case res of
      Inr m \<Rightarrow> \<exists>k. opens env r w k \<and> kr_MerchantID k = m
    | Inl (status, _) \<Rightarrow> (status = 401 \<or> status = 503) \<and> (w' = w \<or> w' = snd (turn w)))"
proof (cases "bearerToken (aq_Authorization r)")
  case None
  then show ?thesis using assms by (auto simp: Authenticate_def)
next
  case (Some token)
  show ?thesis
  proof (cases "PublicPart token")
    case (Inl e)
    then show ?thesis using assms Some by (auto simp: Authenticate_def Auth_Verify_def split: if_splits)
  next
    case (Inr public)
    obtain q w1 where q: "query_at Global (\<lambda>d. case key_row public d of None \<Rightarrow> Inl ErrKeyNotFound | Some r \<Rightarrow> Inr r) w = (q, w1)"
      by (metis surj_pair)
    have w1: "w1 = snd (turn w)" using q by (auto simp: query_at_def split: prod.splits if_splits)
    show ?thesis
    proof (cases q)
      case Inl: (Inl e)
      then show ?thesis using assms Some Inr q w1 by (auto simp: Authenticate_def Auth_Verify_def split: if_splits)
    next
      case row: (Inr k)
      have "key_row public (w_dbs w1 ! Global) = Some k"
        using q row by (auto simp: query_at_def split: prod.splits if_splits option.splits)
      then have "k \<in> set (db_keys (w_dbs (snd (turn w)) ! Global))" unfolding w1 key_row_def by (auto dest: tfind_SomeD)
      then have "opens env r w k" if "kr_Hash k = Digest (he_sha256 env) token" "kr_RevokedAt k = None"
        using that Some by (auto simp: opens_def)
      then show ?thesis using assms Some Inr q w1 row by (auto simp: Authenticate_def Auth_Verify_def split: if_splits)
    qed
  qed
qed

text \<open>C17: without a valid key a request does nothing. If no row of the key table that is read carries the digest of
  the presented token unrevoked, then on every route of the merchant API the answer is 401, or 503 when the table
  could not be read, no statement of the request has changed a database, and no provider has been called.\<close>

theorem unauthenticated_request_does_nothing:
  assumes "\<And>k. \<not> opens env r w k" "serve_v1 env svc repo cx r w = (resp, w')"
  shows "(h_Status resp = 401 \<or> h_Status resp = 503) \<and> (w' = w \<or> w' = snd (turn w)) \<and> w_calls w' = w_calls w"
proof -
  obtain res w1 where a: "Authenticate (he_sha256 env) (ac_now cx) (aq_Authorization r) w = (res, w1)" by (metis surj_pair)
  obtain status code where res: "res = Inl (status, code)"
    using Authenticate_cases [OF a] assms(1) by (cases res) auto
  have "w_calls (snd (turn w)) = w_calls w" by (simp add: turn_def split: list.splits prod.splits)
  then show ?thesis using Authenticate_cases [OF a] res assms(2) a by (auto simp: serve_v1_def http_error_def)
qed

text \<open>C18: a merchant sees its own payments only. A request that does not authenticate gets 401 or 503. One that
  authenticates does so with a key on file, as the merchant of that key, and whenever it is answered with a payment, that is
  the stored payment of the given id in that merchant's database, and it belongs to that merchant. A payment of anybody else is
  answered exactly like one that does not exist: 404 with the same body (500 when the database could not be read, in both cases alike).\<close>

theorem lookup_is_tenant_isolated:
  assumes "serve_v1 env svc repo cx r w = (resp, w')" "aq_route r = GetPayment i"
  shows "case Authenticate (he_sha256 env) (ac_now cx) (aq_Authorization r) w of
      (Inl _, _) \<Rightarrow> h_Status resp = 401 \<or> h_Status resp = 503
    | (Inr m, w1) \<Rightarrow> (\<exists>k. opens env r w k \<and> kr_MerchantID k = m)
        \<and> (h_Status resp = 200 \<longrightarrow> (\<exists>u p t. he_parseUUID env i = Some u \<and> shardOf svc m = Inr p \<and> TxStore_Get u (seen w1 ! p) = Inr t
             \<and> t_ID t = u \<and> t_MerchantID t = m \<and> h_Body resp = he_render env (toResponse env t)))
        \<and> (\<forall>u p. m \<noteq> [] \<and> he_parseUUID env i = Some u \<and> shardOf svc m = Inr p \<and> payments_ok (seen w1 ! p)
             \<and> (\<forall>t. payment_row u (seen w1 ! p) = Some t \<longrightarrow> t_MerchantID t \<noteq> m) \<longrightarrow>
             resp = (let (status, doc) = (if fst (turn w1) = TxOk \<and> p < length (seen w1) then abort 404 ''payment_not_found'' else abort 500 ''internal_error'')
                     in \<lparr>h_Status = status, h_Body = he_render env doc, h_Replayed = False\<rparr>))"
proof -
  obtain res w1 where a: "Authenticate (he_sha256 env) (ac_now cx) (aq_Authorization r) w = (res, w1)" by (metis surj_pair)
  show ?thesis
  proof (cases res)
    case (Inl e)
    then show ?thesis using Authenticate_cases [OF a] a assms(1) by (auto simp: serve_v1_def http_error_def)
  next
    case res: (Inr m)
    have "payment_route env svc repo cx m r w1 = (resp, w')" using assms(1) a res by (simp add: serve_v1_def)
    then obtain st doc where g: "Payment_Get env svc (MerchantFrom m) i w1 = ((st, doc), w')" "resp = \<lparr>h_Status = st, h_Body = he_render env doc, h_Replayed = False\<rparr>"
      using assms(2) by (auto simp: payment_route_def rendered_def split: prod.splits)
    have own: "\<exists>u p t. he_parseUUID env i = Some u \<and> shardOf svc m = Inr p \<and> TxStore_Get u (seen w1 ! p) = Inr t
         \<and> t_ID t = u \<and> t_MerchantID t = m \<and> h_Body resp = he_render env (toResponse env t)" if ok: "h_Status resp = 200"
    proof -
      obtain u where u: "m \<noteq> []" "he_parseUUID env i = Some u"
        using g ok by (auto simp: Payment_Get_def MerchantFrom_def unauthenticated_def abort_def split: if_splits option.splits)
      obtain x w2 where x: "Service_Get svc m u w1 = (x, w2)" by (metis surj_pair)
      obtain t where t: "x = Inr t" "doc = toResponse env t"
        using g u x ok by (cases x) (auto simp: Payment_Get_def MerchantFrom_def abort_def split: if_splits)
      obtain p where p: "shardOf svc m = Inr p" "query_at p (TxStore_Get u) w1 = (Inr t, w2)" "t_MerchantID t = m"
        using x t(1) by (auto simp: Service_Get_def split: sum.splits prod.splits if_splits)
      note s = query_at_seen(2) [OF p(2) refl]
      have "t_ID t = u" using TxStore_Get_Inr(1) [OF s] payment_row_Some by fastforce
      then show ?thesis using u(2) p s t(2) g(2) by auto
    qed
    have other: "resp = (let (status, doc) = (if fst (turn w1) = TxOk \<and> p < length (seen w1) then abort 404 ''payment_not_found'' else abort 500 ''internal_error'')
        in \<lparr>h_Status = status, h_Body = he_render env doc, h_Replayed = False\<rparr>)"
      if f: "m \<noteq> []" "he_parseUUID env i = Some u" "shardOf svc m = Inr p" "payments_ok (seen w1 ! p)"
        "\<forall>t. payment_row u (seen w1 ! p) = Some t \<longrightarrow> t_MerchantID t \<noteq> m" for u p
    proof -
      have "\<exists>w2. Service_Get svc m u w1 = (Inl (if fst (turn w1) = TxOk \<and> p < length (seen w1) then ErrPaymentNotFound
          else if p < length (seen w1) then ErrInfra ''query'' else GoPanic ''index out of range''), w2)"
      proof (cases "fst (turn w1) = TxOk \<and> p < length (seen w1)")
        case False
        then show ?thesis using f(3) by (auto simp: Service_Get_def query_at_def seen_def split: prod.splits)
      next
        case True
        then have q: "query_at p (TxStore_Get u) w1 = (TxStore_Get u (seen w1 ! p), snd (turn w1))"
          by (auto simp: query_at_def seen_def split: prod.splits)
        show ?thesis
        proof (cases "payment_row u (seen w1 ! p)")
          case None
          then show ?thesis using f(3) q True by (simp add: Service_Get_def TxStore_Get_def scanTransaction_def)
        next
          case (Some t)
          have "TxStore_Get u (seen w1 ! p) = Inr t" by (rule TxStore_Get_row [OF f(4) Some])
          then show ?thesis using f(3,5) q True Some by (simp add: Service_Get_def)
        qed
      qed
      then show ?thesis using g f(1,2) by (auto simp: Payment_Get_def MerchantFrom_def split: if_splits)
    qed
    show ?thesis using Authenticate_cases [OF a] own other a res by auto
  qed
qed

definition demo_http :: HttpEnv where
  "demo_http = \<lparr>he_sha256 = rev, he_parseUUID = (\<lambda>s. if s = ''7'' then Some 7 else None), he_uuid = show_nat, he_time = show_int,
     he_error = (\<lambda>_. []), he_render = (\<lambda>doc. case doc of JObj ((_, JStr s) # _) \<Rightarrow> s | _ \<Rightarrow> [])\<rparr>"

definition demo_key :: KeyRow where
  "demo_key = \<lparr>kr_ID = 1, kr_MerchantID = ''m1'', kr_Public = ''a'', kr_Hash = rev ''pmt_a_b'', kr_Name = [], kr_CreatedAt = 0,
     kr_LastUsedAt = Some 5, kr_RevokedAt = None\<rparr>"

definition demo_api_ctx :: ApiCtx where
  "demo_api_ctx = \<lparr>ac_now = 6, ac_newID = 8, ac_eventID = 9, ac_entryID = 10, ac_clientIP = []\<rparr>"

definition demo_api_request :: "ApiRoute \<Rightarrow> string \<Rightarrow> ApiRequest" where
  "demo_api_request rt auth = \<lparr>aq_route = rt, aq_Authorization = auth, aq_IdempotencyKey = ''k1'', aq_Body = None, aq_Fingerprint = ''f''\<rparr>"

definition demo_serve :: "Adapter \<Rightarrow> ApiRoute \<Rightarrow> string \<Rightarrow> db \<Rightarrow> HttpResponse \<times> world" where
  "demo_serve ad rt auth d = serve_v1 demo_http (demo_svc (ad_call ad)) \<lparr>LockTTL = 30000000000, TTL = 86400000000000\<rparr> demo_api_ctx
     (demo_api_request rt auth) (demo_world (d\<lparr>db_keys := [demo_key]\<rparr>))"

definition silent :: Adapter where
  "silent = \<lparr>ad_Name = ''sim'', ad_call = demo_timeout\<rparr>"

theorem unauthenticated_request_does_nothing_witness:
  "h_Status (fst (demo_serve silent (CapturePayment ''7'') ''Bearer pmt_a_guess'' demo_db)) = 401
     \<or> h_Status (fst (demo_serve silent (CapturePayment ''7'') ''Bearer pmt_a_guess'' demo_db)) = 503"
proof -
  let ?r = "demo_api_request (CapturePayment ''7'') ''Bearer pmt_a_guess''" and ?w = "demo_world (demo_db\<lparr>db_keys := [demo_key]\<rparr>)"
  have t: "bearerToken (aq_Authorization ?r) = Some ''pmt_a_guess''" by code_simp
  have "\<not> opens demo_http ?r ?w k" for k
    using t by (auto simp: opens_def turn_def demo_world_def Global_def demo_key_def demo_http_def Digest_def)
  then show ?thesis
    using unauthenticated_request_does_nothing [of demo_http ?r ?w "demo_svc (ad_call silent)"] surjective_pairing
    unfolding demo_serve_def by metis
qed

definition demo_foreign :: "db \<Rightarrow> db" where
  "demo_foreign d = d\<lparr>db_payments := map (\<lambda>t. t\<lparr>t_MerchantID := ''m2''\<rparr>) (db_payments d)\<rparr>"

lemma demo_authenticates:
  "Authenticate (he_sha256 demo_http) (ac_now demo_api_ctx) ''bearer pmt_a_b'' (demo_world (d\<lparr>db_keys := [demo_key]\<rparr>))
     = (Inr ''m1'', demo_world (d\<lparr>db_keys := [demo_key]\<rparr>))"
proof -
  have "bearerToken ''bearer pmt_a_b'' = Some ''pmt_a_b''" "PublicPart ''pmt_a_b'' = Inr ''a''" by code_simp+
  then show ?thesis
    by (simp add: Authenticate_def Auth_Verify_def query_at_def turn_def demo_world_def Global_def key_row_def demo_key_def
        demo_http_def Digest_def touch_def touchInterval_def demo_api_ctx_def)
qed

theorem lookup_is_tenant_isolated_witness:
  "(\<exists>t. t_MerchantID t = ''m1'' \<and> h_Body (fst (demo_serve silent (GetPayment ''7'') ''bearer pmt_a_b'' demo_db)) = he_render demo_http (toResponse demo_http t))
   \<and> h_Status (fst (demo_serve silent (GetPayment ''7'') ''bearer pmt_a_b'' (demo_foreign demo_db))) = 404"
proof -
  let ?r = "demo_api_request (GetPayment ''7'') ''bearer pmt_a_b''"
  let ?w = "\<lambda>d. demo_world (d\<lparr>db_keys := [demo_key]\<rparr>)"
  let ?get = "\<lambda>d. fst (demo_serve silent (GetPayment ''7'') ''bearer pmt_a_b'' d)"
  have rt: "aq_route ?r = GetPayment ''7''" "aq_Authorization ?r = ''bearer pmt_a_b''" by (simp_all add: demo_api_request_def)
  have sv: "serve_v1 demo_http (demo_svc (ad_call silent)) \<lparr>LockTTL = 30000000000, TTL = 86400000000000\<rparr> demo_api_ctx ?r (?w d)
      = (?get d, snd (demo_serve silent (GetPayment ''7'') ''bearer pmt_a_b'' d))" for d by (simp add: demo_serve_def)
  have "h_Status (?get demo_db) = 200" by code_simp
  then have own: "\<exists>t. t_MerchantID t = ''m1'' \<and> h_Body (?get demo_db) = he_render demo_http (toResponse demo_http t)"
    using lookup_is_tenant_isolated [OF sv rt(1), of demo_db, unfolded rt(2) demo_authenticates] by auto
  have "payments_ok (demo_foreign demo_db\<lparr>db_keys := [demo_key]\<rparr>)"
    by (simp add: payments_ok_def demo_foreign_def demo_db_def demo_payment_def txn_inv_def usd known_state_def allStates_def)
  moreover have "seen (?w d) = [d\<lparr>db_keys := [demo_key]\<rparr>]" "fst (turn (?w d)) = TxOk" for d by (simp_all add: seen_def turn_def demo_world_def)
  moreover have "shardOf (demo_svc (ad_call silent)) ''m1'' = Inr 0" by code_simp
  moreover have "t_MerchantID t = ''m2''" if "payment_row 7 (demo_foreign demo_db\<lparr>db_keys := [demo_key]\<rparr>) = Some t" for t
    using payment_row_Some [OF that] by (auto simp: demo_foreign_def)
  moreover have "he_parseUUID demo_http ''7'' = Some 7" by (simp add: demo_http_def)
  ultimately have "h_Status (?get (demo_foreign demo_db)) = 404"
    using lookup_is_tenant_isolated [OF sv rt(1), of "demo_foreign demo_db", unfolded rt(2) demo_authenticates]
    by (auto simp: abort_def)
  then show ?thesis using own by blast
qed

text \<open>C38: a capture can be answered as not permitted after the provider has captured. Take any payment that a capture of
  its whole amount may start on, and a provider that answers the capture with more, in the same currency. Even with no fault and
  no interference the merchant is told 409, the answer to a capture that was never attempted, although the provider has been
  asked and has taken the money; the stored payment stays capturing with nothing added.\<close>

theorem captured_but_refused:
  assumes "w_sched w = []" "list_all shard_inv (w_dbs w)" "shardOf svc m = Inr p" "p < length (w_dbs w)"
    and "he_parseUUID env idParam = Some i" "payment_row i (w_dbs w ! p) = Some t" "t_MerchantID t = m"
    and "CanTransitionTo (t_State t) StateCapturing" "minor (t_Captured t) = 0"
    and "Registry_Default (svc_providers svc) = Inr ad"
      "ad_call ad (w_calls w) (CallCapture (OperationKey (svc_uuidString svc) i ''capture'') i (t_PSPReference t) (t_Amount t)) = Inr resp"
      "m_currency (rs_Amount resp) = m_currency (t_Amount t)" "minor (t_Amount t) < minor (rs_Amount resp)"
  shows "case Payment_Capture env svc cx (Some m) idParam None w of ((status, _), w') \<Rightarrow> status = 409
    \<and> w_calls w' = w_calls w @ [CallCapture (OperationKey (svc_uuidString svc) i ''capture'') i (t_PSPReference t) (t_Amount t)]
    \<and> payment_row i (w_dbs w' ! p) = Some (capturing (ac_now cx) t)"
proof -
  define inp where "inp = \<lparr>ca_TransactionID = i, ca_MerchantID = m, ca_Amount = t_Amount t, ca_Actor = ''api:'' @ m, ca_SourceIP = ac_clientIP cx\<rparr>"
  have inp: "ca_TransactionID inp = i" "ca_MerchantID inp = m" "ca_Amount inp = t_Amount t" by (simp_all add: inp_def)
  have inv: "shard_inv (w_dbs w ! p)" using assms(2,4) by (simp add: list_all_length)
  then have ti: "txn_inv t" "payments_ok (w_dbs w ! p)" using payment_row_Some [OF assms(6)] by (auto simp: shard_inv_def payments_ok_def)
  have asked: "asked_capture svc inp t = CallCapture (OperationKey (svc_uuidString svc) i ''capture'') i (t_PSPReference t) (t_Amount t)"
    by (simp add: asked_capture_def inp)
  have ac: "assertCapturable t (ca_Amount inp) = Inr ()"
    using ti(1) assms(8,9) unfolding inp by (simp add: assertCapturable_whole)
  have amt: "captured_amount inp resp = rs_Amount resp"
    using ti(1) assms(12,13) by (simp add: captured_amount_def IsValid_iff IsPositive_def txn_inv_def)
  have tc: "Transaction_Capture (ac_now cx) (capturing (ac_now cx) t) (rs_Amount resp) = Inl ErrExceedsAuthorized"
    using ti(1) assms(9,12,13) by (intro Transaction_Capture_exceeds) (simp_all add: txn_inv_def)
  obtain d2 w3 where d2: "payment_row i d2 = Some (capturing (ac_now cx) t)"
    and w3: "w3 = w\<lparr>w_dbs := (w_dbs w)[p := d2], w_calls := w_calls w @ [asked_capture svc inp t]\<rparr>"
    and run: "Service_Capture svc (ac_entryID cx) (ac_now cx) inp w =
       (case recordCapture svc (ac_entryID cx) (ac_now cx) (capturing (ac_now cx) t) (captured_amount inp resp) inp (ad_Name ad) w3 of
          (t2, Inl e, w4) \<Rightarrow> ((Some t2, Some e), w4) | (t2, Inr _, w4) \<Rightarrow> ((Some t2, None), w4))"
    using Capture_up_to_booking [OF assms(1,2) _ assms(4) _ _ ac assms(10), of resp "ac_now cx" "ac_entryID cx" thesis] assms(3,6,7,11)
    unfolding inp asked by blast
  have "Service_Capture svc (ac_entryID cx) (ac_now cx) inp w = ((Some (capturing (ac_now cx) t), Some ErrExceedsAuthorized), w3)"
    unfolding run amt recordCapture_def tc Let_def by simp
  moreover have "Service_Get svc m i w = (Inr t, w)"
    using assms(1,3,4,7) TxStore_Get_row [OF ti(2) assms(6)] by (simp add: Service_Get_def query_at_def turn_def)
  ultimately show ?thesis
    using assms(5) d2 asked by (simp add: Payment_Capture_def inp_def respondToCaptureError_def abort_with_def w3 assms(4))
qed

text \<open>A provider that captures twice the amount asked for.\<close>

definition overcapturing :: Adapter where
  "overcapturing = \<lparr>ad_Name = ''sim'', ad_call = (\<lambda>_ pc. case pc of
       CallCapture _ _ ref amount \<Rightarrow> Inr \<lparr>rs_Status = StatusCaptured, rs_ProviderReference = ref, rs_Amount = mk_money (2 * m_amount amount) (m_currency amount)\<rparr>
     | _ \<Rightarrow> Inl (PspError ClassTimeout ''sim'' []))\<rparr>"

theorem captured_but_refused_witness:
  "case Payment_Capture demo_http (demo_svc (ad_call overcapturing)) demo_api_ctx (Some ''m1'') ''7'' None (demo_world (demo_auth_db ''USD'')) of
     ((status, _), w') \<Rightarrow> status = 409 \<and> length (w_calls w') = 1 \<and> map_option t_State (payment_row 7 (w_dbs w' ! 0)) = Some StateCapturing"
proof -
  define t where "t = hd (db_payments (demo_auth_db ''USD''))"
  define resp where "resp = \<lparr>rs_Status = StatusCaptured, rs_ProviderReference = ''ch_1'', rs_Amount = mk_money 2000 ''USD''\<rparr>"
  let ?w = "demo_world (demo_auth_db ''USD'')" and ?svc = "demo_svc (ad_call overcapturing)"
  have w: "w_sched ?w = []" "w_dbs ?w = [demo_auth_db ''USD'']" "w_calls ?w = []" by (simp_all add: demo_world_def)
  have sh: "shardOf ?svc ''m1'' = Inr 0" "0 < length (w_dbs ?w)" unfolding w by code_simp+
  have pay: "payment_row 7 (w_dbs ?w ! 0) = Some t" "t_MerchantID t = ''m1''" "CanTransitionTo (t_State t) StateCapturing" "minor (t_Captured t) = 0"
    unfolding t_def w by code_simp+
  have reg: "Registry_Default (svc_providers ?svc) = Inr overcapturing" using demo_adapter by (simp add: overcapturing_def)
  have resp: "ad_call overcapturing (w_calls ?w) (CallCapture (OperationKey (svc_uuidString ?svc) 7 ''capture'') 7 (t_PSPReference t) (t_Amount t)) = Inr resp"
    "m_currency (rs_Amount resp) = m_currency (t_Amount t)" "minor (t_Amount t) < minor (rs_Amount resp)"
    unfolding overcapturing_def resp_def t_def by code_simp+
  have u: "he_parseUUID demo_http ''7'' = Some 7" by (simp add: demo_http_def)
  show ?thesis
    using captured_but_refused [OF w(1) demo_auth_ok(2) sh u pay reg resp, of demo_api_ctx] w(3) by (auto split: prod.splits)
qed

end
