(* ===== verification/Invariants.thy ===== *)
theory Invariants
  imports LedgerStore
begin

text \<open>
  The checker that watches the system from outside (internal/invariant/checker.go): three queries
  against committed state, summed over every database, and the outbox part of the depth sampler
  (depths.go). SQL sums of \<open>bigint\<close> are exact. Publishing the results as gauges, the loop on a ticker
  and the Kafka admin queries are left out.
\<close>

section \<open>The queries\<close>

definition signed_minor :: "Posting \<Rightarrow> int" where
  "signed_minor p = (if p_Direction p = Debit then minor (p_Amount p) else - minor (p_Amount p))"

text \<open>\<open>GROUP BY entry_id, currency HAVING SUM(...) <> 0\<close>.\<close>

definition posting_group :: "PostingRow \<Rightarrow> uuid \<times> currency" where
  "posting_group r = (pr_EntryID r, m_currency (p_Amount (pr_Posting r)))"

definition ledgerImbalanceQuery :: "db \<Rightarrow> nat" where
  "ledgerImbalanceQuery d =
     length (filter (\<lambda>g. (\<Sum>r \<leftarrow> filter (\<lambda>r. posting_group r = g) (db_postings d). signed_minor (pr_Posting r)) \<noteq> 0)
       (remdups (map posting_group (db_postings d))))"

definition capture_debits :: "db \<Rightarrow> uuid list" where
  "capture_debits d =
     concat (map (\<lambda>e. case je_TransactionID e of
         None \<Rightarrow> []
       | Some i \<Rightarrow>
           if take 7 (je_Description e) \<noteq> ''capture'' then []
           else concat (map (\<lambda>r. map (\<lambda>a. i)
                  (filter (\<lambda>a. a_ID a = p_AccountID (pr_Posting r) \<and> a_Purpose a = PurposeClearing) (db_accounts d)))
                (filter (\<lambda>r. pr_EntryID r = je_ID e \<and> p_Direction (pr_Posting r) = Debit) (db_postings d))))
       (db_entries d))"

definition doubleChargeQuery :: "db \<Rightarrow> nat" where
  "doubleChargeQuery d = (let hits = capture_debits d in length (filter (\<lambda>i. 1 < count_list hits i) (remdups hits)))"

definition captured_state :: "State \<Rightarrow> bool" where
  "captured_state s \<longleftrightarrow> s \<in> {StateCaptured, StateSettled, StatePartiallyRefunded, StateRefunded}"

definition lostPaymentQuery :: "db \<Rightarrow> nat" where
  "lostPaymentQuery d =
     length (filter (\<lambda>t. captured_state (t_State t) \<and> \<not> list_ex (\<lambda>e. je_TransactionID e = Some (t_ID t)) (db_entries d)) (db_payments d))"

section \<open>The checker\<close>

record InvariantResult =
  iv_LedgerImbalance :: nat
  iv_DoubleCharges :: nat
  iv_LostPayments :: nat

definition Holds :: "InvariantResult \<Rightarrow> bool" where
  "Holds r \<longleftrightarrow> iv_LedgerImbalance r = 0 \<and> iv_DoubleCharges r = 0 \<and> iv_LostPayments r = 0"

fun Check_loop :: "nat list \<Rightarrow> InvariantResult \<Rightarrow> world \<Rightarrow> InvariantResult result \<times> world" where
  "Check_loop [] r w = (Inr r, w)"
| "Check_loop (shard # shards) r w =
     (case query_at shard (\<lambda>d. Inr (ledgerImbalanceQuery d)) w of
        (Inl e, w1) \<Rightarrow> (Inl e, w1)
      | (Inr a, w1) \<Rightarrow>
          (case query_at shard (\<lambda>d. Inr (doubleChargeQuery d)) w1 of
             (Inl e, w2) \<Rightarrow> (Inl e, w2)
           | (Inr b, w2) \<Rightarrow>
               (case query_at shard (\<lambda>d. Inr (lostPaymentQuery d)) w2 of
                  (Inl e, w3) \<Rightarrow> (Inl e, w3)
                | (Inr c, w3) \<Rightarrow>
                    Check_loop shards (r\<lparr>iv_LedgerImbalance := iv_LedgerImbalance r + a, iv_DoubleCharges := iv_DoubleCharges r + b,
                      iv_LostPayments := iv_LostPayments r + c\<rparr>) w3)))"

definition Check :: "Mapping \<Rightarrow> world \<Rightarrow> InvariantResult result \<times> world" where
  "Check mp w = Check_loop [0..<physical mp] \<lparr>iv_LedgerImbalance = 0, iv_DoubleCharges = 0, iv_LostPayments = 0\<rparr> w"

fun outbox_loop :: "nat list \<Rightarrow> nat \<Rightarrow> world \<Rightarrow> nat result \<times> world" where
  "outbox_loop [] acc w = (Inr acc, w)"
| "outbox_loop (shard # shards) acc w =
     (case query_at shard (\<lambda>d. Inr (length (filter (\<lambda>r. ob_Status r = OutboxPending) (db_outbox d)))) w of
        (Inl e, w1) \<Rightarrow> (Inl e, w1)
      | (Inr n, w1) \<Rightarrow> outbox_loop shards (acc + n) w1)"

definition sampleOutbox :: "Mapping \<Rightarrow> world \<Rightarrow> nat result \<times> world" where
  "sampleOutbox mp w = outbox_loop [0..<physical mp] 0 w"

section \<open>What a count of zero means\<close>

lemma signed_minor_delta: "posting_row_ok p \<Longrightarrow> signed_minor p = posting_delta p"
  by (auto simp: signed_minor_def posting_row_ok_def posting_delta_def)

lemma group_sum:
  assumes "\<forall>r \<in> set (db_postings d). posting_row_ok (pr_Posting r)"
  shows "(\<Sum>r \<leftarrow> filter (\<lambda>r. posting_group r = (e, c)) (db_postings d). signed_minor (pr_Posting r)) = posting_net c (entry_postings d e)"
proof -
  have "(\<Sum>r \<leftarrow> filter (\<lambda>r. posting_group r = (e, c)) rs. signed_minor (pr_Posting r))
      = posting_net c (map pr_Posting (filter (\<lambda>r. pr_EntryID r = e) rs))" if "\<forall>r \<in> set rs. posting_row_ok (pr_Posting r)" for rs
    using that by (induction rs) (auto simp: posting_group_def posting_net_def signed_minor_delta)
  then show ?thesis using assms by (simp add: entry_postings_def)
qed

lemma imbalance_zero:
  assumes "\<forall>r \<in> set (db_postings d). posting_row_ok (pr_Posting r)"
  shows "ledgerImbalanceQuery d = 0 \<longleftrightarrow> (\<forall>e. postings_balanced (entry_postings d e))"
proof
  assume b: "\<forall>e. postings_balanced (entry_postings d e)"
  have "(\<Sum>r \<leftarrow> filter (\<lambda>r. posting_group r = g) (db_postings d). signed_minor (pr_Posting r)) = 0" for g
    using b group_sum [OF assms, of "fst g" "snd g"] by (simp add: postings_balanced_def)
  then show "ledgerImbalanceQuery d = 0" by (simp add: ledgerImbalanceQuery_def)
next
  assume z: "ledgerImbalanceQuery d = 0"
  show "\<forall>e. postings_balanced (entry_postings d e)"
    unfolding postings_balanced_def
  proof (intro allI)
    fix e c
    show "posting_net c (entry_postings d e) = 0"
    proof (cases "(e, c) \<in> set (map posting_group (db_postings d))")
      case True
      then show ?thesis using z group_sum [OF assms, of e c] by (auto simp: ledgerImbalanceQuery_def filter_empty_conv)
    next
      case False
      then have "c \<notin> set (map (m_currency \<circ> p_Amount) (entry_postings d e))"
        by (auto simp: entry_postings_def posting_group_def image_iff)
      then show ?thesis by (rule posting_net_notin)
    qed
  qed
qed

lemma lost_zero: "lostPaymentQuery d = 0 \<longleftrightarrow>
    (\<forall>t \<in> set (db_payments d). captured_state (t_State t) \<longrightarrow> (\<exists>e \<in> set (db_entries d). je_TransactionID e = Some (t_ID t)))"
  by (auto simp: lostPaymentQuery_def filter_empty_conv list_ex_iff)

lemma Check_loop_quiet:
  assumes "w_sched w = []" "\<forall>p \<in> set shards. p < length (w_dbs w)"
  shows "Check_loop shards r w = (Inr \<lparr>iv_LedgerImbalance = iv_LedgerImbalance r + (\<Sum>p \<leftarrow> shards. ledgerImbalanceQuery (w_dbs w ! p)),
      iv_DoubleCharges = iv_DoubleCharges r + (\<Sum>p \<leftarrow> shards. doubleChargeQuery (w_dbs w ! p)),
      iv_LostPayments = iv_LostPayments r + (\<Sum>p \<leftarrow> shards. lostPaymentQuery (w_dbs w ! p))\<rparr>, w)"
  using assms by (induction shards arbitrary: r) (simp_all add: query_at_def turn_def add.assoc)


text \<open>C32: the invariant checker is exact. On databases at rest whose posting rows obey their constraints it reads every
  one of them and answers; it counts no imbalance exactly when every entry of every database balances in every
  currency, and no lost payment exactly when every payment that was captured has an entry behind it in its database.\<close>

theorem Check_exact:
  assumes "w_sched w = []" "length (w_dbs w) = physical mp"
    and "\<forall>d \<in> set (w_dbs w). \<forall>r \<in> set (db_postings d). posting_row_ok (pr_Posting r)"
  shows "\<exists>res. Check mp w = (Inr res, w)
    \<and> (iv_LedgerImbalance res = 0 \<longleftrightarrow> (\<forall>d \<in> set (w_dbs w). \<forall>e. postings_balanced (entry_postings d e)))
    \<and> (iv_LostPayments res = 0 \<longleftrightarrow> (\<forall>d \<in> set (w_dbs w). \<forall>t \<in> set (db_payments d). captured_state (t_State t) \<longrightarrow>
          (\<exists>e \<in> set (db_entries d). je_TransactionID e = Some (t_ID t))))"
proof -
  have sums: "(\<Sum>p \<leftarrow> [0..<length (w_dbs w)]. f (w_dbs w ! p)) = 0 \<longleftrightarrow> (\<forall>d \<in> set (w_dbs w). f d = 0)" for f :: "db \<Rightarrow> nat"
    by (auto simp: all_set_conv_all_nth)
  obtain res where r: "Check mp w = (Inr res, w)" "iv_LedgerImbalance res = (\<Sum>p \<leftarrow> [0..<length (w_dbs w)]. ledgerImbalanceQuery (w_dbs w ! p))"
    "iv_LostPayments res = (\<Sum>p \<leftarrow> [0..<length (w_dbs w)]. lostPaymentQuery (w_dbs w ! p))"
    using Check_loop_quiet [OF assms(1), of "[0..<physical mp]"] assms(2) by (simp add: Check_def)
  show ?thesis
    using r(1) unfolding r(2,3) sums
    by (intro exI [of _ res]) (use assms(3) in \<open>auto simp: r(2,3) sums imbalance_zero lost_zero simp del: sum_list_eq_0_iff\<close>)
qed

text \<open>A database with one captured payment, booked as it should be, and the same with the credit leg and the link to the payment gone.\<close>

definition demo_watched :: "bool \<Rightarrow> db" where
  "demo_watched good = empty_db\<lparr>
     db_payments := [\<lparr>t_ID = 7, t_MerchantID = ''m1'', t_ShardKey = ''s1'', t_IdempotencyKey = ''k'', t_State = StateCaptured, t_Amount = mk_money 1000 ''USD'',
       t_Captured = mk_money 1000 ''USD'', t_Refunded = mk_money 0 ''USD'', t_PSP = ''sim'', t_PSPReference = ''ch_1'', t_Version = 5,
       t_LastAppliedEventSeq = 0, t_CreatedAt = 0, t_UpdatedAt = 0\<rparr>],
     db_entries := [\<lparr>je_ID = 20, je_TransactionID = (if good then Some 7 else None), je_ShardKey = ''s1'', je_Description = ''capture'', je_OccurredAt = 9\<rparr>],
     db_postings := \<lparr>pr_EntryID = 20, pr_Posting = mk_posting 1 Debit (mk_money 1000 ''USD'')\<rparr>
       # (if good then [\<lparr>pr_EntryID = 20, pr_Posting = mk_posting 2 Credit (mk_money 1000 ''USD'')\<rparr>] else [])\<rparr>"

abbreviation demo_watched_world :: "bool \<Rightarrow> world" where
  "demo_watched_world good \<equiv> \<lparr>w_dbs = [demo_watched True, demo_watched good], w_sched = [], w_calls = []\<rparr>"

lemma demo_watched_rows: "\<forall>d \<in> set (w_dbs (demo_watched_world good)). \<forall>r \<in> set (db_postings d). posting_row_ok (pr_Posting r)"
  by (simp add: demo_watched_def posting_row_ok_def)

theorem Check_exact_witness:
  "\<exists>res bad. Check \<lparr>physical = 2\<rparr> (demo_watched_world True) = (Inr res, demo_watched_world True)
     \<and> iv_LedgerImbalance res = 0 \<and> iv_LostPayments res = 0
     \<and> Check \<lparr>physical = 2\<rparr> (demo_watched_world False) = (Inr bad, demo_watched_world False)
     \<and> iv_LedgerImbalance bad \<noteq> 0 \<and> iv_LostPayments bad \<noteq> 0"
proof -
  note good = Check_exact [of "demo_watched_world True" "\<lparr>physical = 2\<rparr>", OF _ _ demo_watched_rows, simplified]
    and broken = Check_exact [of "demo_watched_world False" "\<lparr>physical = 2\<rparr>", OF _ _ demo_watched_rows, simplified]
  have bal: "postings_balanced (entry_postings (demo_watched True) e)" for e
    by (simp add: postings_balanced_def posting_net_def entry_postings_def demo_watched_def posting_delta_def)
  have unbal: "\<not> postings_balanced (entry_postings (demo_watched False) 20)"
    by (auto simp: postings_balanced_def posting_net_def entry_postings_def demo_watched_def posting_delta_def)
  have pay: "\<exists>t. db_payments (demo_watched good) = [t] \<and> t_ID t = 7 \<and> captured_state (t_State t)"
    "map je_TransactionID (db_entries (demo_watched good)) = [if good then Some 7 else None]" for good
    by (simp_all add: demo_watched_def captured_state_def)
  obtain res where "Check \<lparr>physical = 2\<rparr> (demo_watched_world True) = (Inr res, demo_watched_world True)"
    "iv_LedgerImbalance res = 0" "iv_LostPayments res = 0"
    using good bal pay [of True] by (auto simp: map_eq_Cons_conv)
  moreover obtain bad where "Check \<lparr>physical = 2\<rparr> (demo_watched_world False) = (Inr bad, demo_watched_world False)"
    "iv_LedgerImbalance bad \<noteq> 0" "iv_LostPayments bad \<noteq> 0"
    using broken unbal pay [of False] by (auto simp: map_eq_Cons_conv)
  ultimately show ?thesis by blast
qed

end
