(* ===== verification/Config.thy ===== *)
theory Config
  imports Csv Complex_Main "HOL-Library.State_Monad"
begin

text \<open>
  Configuration from the environment (internal/config): the loader that collects every problem
  (env.go) and \<open>Load\<close> (config.go). The environment is a function from names to values, empty when
  unset; the loader's state is the list of the keys that failed, in order. \<open>time.ParseDuration\<close> and
  \<open>strconv.ParseFloat\<close> are parameters.
\<close>

section \<open>The loader (env.go)\<close>

record Environ =
  ev_Getenv :: "string \<Rightarrow> string"
  ev_ParseDuration :: "string \<Rightarrow> int option"
  ev_ParseFloat :: "string \<Rightarrow> rat option"

type_synonym 'a loader = "(string list, 'a) state"

definition loader_fail :: "string \<Rightarrow> unit loader" where
  "loader_fail key = State (\<lambda>errs. ((), errs @ [key]))"

definition read_env :: "Environ \<Rightarrow> string \<Rightarrow> string" where
  "read_env env key = TrimSpace (ev_Getenv env key)"

definition loader_str :: "Environ \<Rightarrow> string \<Rightarrow> string \<Rightarrow> string loader" where
  "loader_str env key dflt = State_Monad.return (let v = read_env env key in if v \<noteq> [] then v else dflt)"

definition loader_required :: "Environ \<Rightarrow> string \<Rightarrow> string loader" where
  "loader_required env key =
     (let v = read_env env key in
      if v = [] then do { loader_fail key; State_Monad.return v } else State_Monad.return v)"

text \<open>What the typed readers share: the default when unset, a failure and the default when malformed.\<close>

definition parsed :: "Environ \<Rightarrow> string \<Rightarrow> 'a \<Rightarrow> (string \<Rightarrow> 'a option) \<Rightarrow> 'a loader" where
  "parsed env key dflt parse =
     (let raw = read_env env key in
      if raw = [] then State_Monad.return dflt
      else case parse raw of
          None \<Rightarrow> do { loader_fail key; State_Monad.return dflt }
        | Some v \<Rightarrow> State_Monad.return v)"

definition loader_int :: "Environ \<Rightarrow> string \<Rightarrow> int \<Rightarrow> int loader" where
  "loader_int env key dflt = parsed env key dflt ParseInt64"

definition loader_duration :: "Environ \<Rightarrow> string \<Rightarrow> int \<Rightarrow> int loader" where
  "loader_duration env key dflt = parsed env key dflt (ev_ParseDuration env)"

definition ParseBool :: "string \<Rightarrow> bool option" where
  "ParseBool s =
     (if s \<in> {''1'', ''t'', ''T'', ''true'', ''TRUE'', ''True''} then Some True
      else if s \<in> {''0'', ''f'', ''F'', ''false'', ''FALSE'', ''False''} then Some False
      else None)"

definition loader_bool :: "Environ \<Rightarrow> string \<Rightarrow> bool \<Rightarrow> bool loader" where
  "loader_bool env key dflt = parsed env key dflt ParseBool"

definition loader_float :: "Environ \<Rightarrow> string \<Rightarrow> rat \<Rightarrow> rat loader" where
  "loader_float env key dflt =
     parsed env key dflt (\<lambda>raw. case ev_ParseFloat env raw of None \<Rightarrow> None | Some v \<Rightarrow> if v < 0 \<or> v > 1 then None else Some v)"

fun split_comma :: "string \<Rightarrow> string list" where
  "split_comma [] = [[]]"
| "split_comma (c # cs) =
     (if c = CHR '','' then [] # split_comma cs
      else case split_comma cs of [] \<Rightarrow> [[c]] | p # ps \<Rightarrow> (c # p) # ps)"

definition loader_csv :: "Environ \<Rightarrow> string \<Rightarrow> string list \<Rightarrow> string list loader" where
  "loader_csv env key dflt =
     parsed env key dflt (\<lambda>raw. let out = filter (\<lambda>p. p \<noteq> []) (map TrimSpace (split_comma raw)) in if out = [] then None else Some out)"

definition loader_oneOf :: "Environ \<Rightarrow> string \<Rightarrow> string \<Rightarrow> string list \<Rightarrow> string loader" where
  "loader_oneOf env key dflt allowed =
     do { v \<leftarrow> loader_str env key dflt;
          if v \<in> set allowed then State_Monad.return v else do { loader_fail key; State_Monad.return dflt } }"

section \<open>Configuration (config.go)\<close>

record HTTPConfig =
  hc_Addr :: string
  hc_ReadTimeout :: int
  hc_WriteTimeout :: int
  hc_IdleTimeout :: int
  hc_ShutdownTimeout :: int
  hc_RequestTimeout :: int
  hc_MaxBodyBytes :: int

record PostgresConfig =
  pc_DSN :: string
  pc_ShardDSNs :: "string list"
  pc_MaxConns :: "32 word"
  pc_MinConns :: "32 word"
  pc_MaxConnLifetime :: int
  pc_MaxConnIdleTime :: int
  pc_ConnectTimeout :: int
  pc_StatementTimeout :: int
  pc_HealthCheckPeriod :: int

record RedisConfig =
  rc_Addr :: string
  rc_Password :: string
  rc_DB :: int
  rc_DialTimeout :: int
  rc_ReadTimeout :: int
  rc_WriteTimeout :: int
  rc_PoolSize :: int

record KafkaConfig =
  kc_Brokers :: "string list"
  kc_ClientID :: string
  kc_DialTimeout :: int
  kc_TopicPrefix :: string

record LogConfig =
  lc_Level :: string
  lc_Format :: string
  lc_AddSource :: bool

record PSPConfig =
  pp_SimulatorURL :: string
  pp_DefaultProvider :: string
  pp_Timeout :: int

record WebhookConfig =
  wc_Provider :: string
  wc_Secret :: string

record Observability =
  oc_CheckInterval :: int
  oc_ConsumerGroup :: string
  oc_WorkerMetricsAddr :: string
  oc_TracingEnabled :: bool
  oc_TracingEndpoint :: string
  oc_TraceSampleRatio :: rat

record ServiceConfig =
  gc_Env :: string
  gc_HTTP :: HTTPConfig
  gc_Postgres :: PostgresConfig
  gc_Redis :: RedisConfig
  gc_Kafka :: KafkaConfig
  gc_Log :: LogConfig
  gc_PSP :: PSPConfig
  gc_Webhook :: WebhookConfig
  gc_Observability :: Observability

definition seconds :: "int \<Rightarrow> int" where
  "seconds n = n * 1000000000"

definition devWebhookSecret :: string where
  "devWebhookSecret = ''sim-webhook-secret''"

definition IsProduction :: "ServiceConfig \<Rightarrow> bool" where
  "IsProduction c \<longleftrightarrow> gc_Env c = ''production''"

definition load_http :: "Environ \<Rightarrow> HTTPConfig loader" where
  "load_http env =
     do { addr \<leftarrow> loader_str env ''HTTP_ADDR'' '':8080'';
          rt \<leftarrow> loader_duration env ''HTTP_READ_TIMEOUT'' (seconds 10);
          wt \<leftarrow> loader_duration env ''HTTP_WRITE_TIMEOUT'' (seconds 15);
          it \<leftarrow> loader_duration env ''HTTP_IDLE_TIMEOUT'' (seconds 60);
          st \<leftarrow> loader_duration env ''HTTP_SHUTDOWN_TIMEOUT'' (seconds 20);
          qt \<leftarrow> loader_duration env ''HTTP_REQUEST_TIMEOUT'' (seconds 30);
          mb \<leftarrow> loader_int env ''HTTP_MAX_BODY_BYTES'' 1048576;
          State_Monad.return \<lparr>hc_Addr = addr, hc_ReadTimeout = rt, hc_WriteTimeout = wt, hc_IdleTimeout = it,
            hc_ShutdownTimeout = st, hc_RequestTimeout = qt, hc_MaxBodyBytes = mb\<rparr> }"

definition load_postgres :: "Environ \<Rightarrow> PostgresConfig loader" where
  "load_postgres env =
     do { dsn \<leftarrow> loader_required env ''POSTGRES_DSN'';
          shards \<leftarrow> loader_csv env ''POSTGRES_SHARD_DSNS'' [];
          mx \<leftarrow> loader_int env ''POSTGRES_MAX_CONNS'' 20;
          mn \<leftarrow> loader_int env ''POSTGRES_MIN_CONNS'' 2;
          lt \<leftarrow> loader_duration env ''POSTGRES_MAX_CONN_LIFETIME'' (seconds 3600);
          it \<leftarrow> loader_duration env ''POSTGRES_MAX_CONN_IDLE_TIME'' (seconds 1800);
          ct \<leftarrow> loader_duration env ''POSTGRES_CONNECT_TIMEOUT'' (seconds 5);
          st \<leftarrow> loader_duration env ''POSTGRES_STATEMENT_TIMEOUT'' (seconds 10);
          hp \<leftarrow> loader_duration env ''POSTGRES_HEALTH_CHECK_PERIOD'' (seconds 30);
          State_Monad.return \<lparr>pc_DSN = dsn, pc_ShardDSNs = shards, pc_MaxConns = word_of_int mx, pc_MinConns = word_of_int mn,
            pc_MaxConnLifetime = lt, pc_MaxConnIdleTime = it, pc_ConnectTimeout = ct, pc_StatementTimeout = st,
            pc_HealthCheckPeriod = hp\<rparr> }"

definition load_redis :: "Environ \<Rightarrow> RedisConfig loader" where
  "load_redis env =
     do { addr \<leftarrow> loader_str env ''REDIS_ADDR'' ''localhost:6379'';
          pw \<leftarrow> loader_str env ''REDIS_PASSWORD'' [];
          n \<leftarrow> loader_int env ''REDIS_DB'' 0;
          dt \<leftarrow> loader_duration env ''REDIS_DIAL_TIMEOUT'' (seconds 5);
          rt \<leftarrow> loader_duration env ''REDIS_READ_TIMEOUT'' (seconds 3);
          wt \<leftarrow> loader_duration env ''REDIS_WRITE_TIMEOUT'' (seconds 3);
          ps \<leftarrow> loader_int env ''REDIS_POOL_SIZE'' 20;
          State_Monad.return \<lparr>rc_Addr = addr, rc_Password = pw, rc_DB = n, rc_DialTimeout = dt, rc_ReadTimeout = rt,
            rc_WriteTimeout = wt, rc_PoolSize = ps\<rparr> }"

definition load_kafka :: "Environ \<Rightarrow> KafkaConfig loader" where
  "load_kafka env =
     do { brokers \<leftarrow> loader_csv env ''KAFKA_BROKERS'' [''localhost:9092''];
          cid \<leftarrow> loader_str env ''KAFKA_CLIENT_ID'' ''payment-orchestrator'';
          dt \<leftarrow> loader_duration env ''KAFKA_DIAL_TIMEOUT'' (seconds 10);
          tp \<leftarrow> loader_str env ''KAFKA_TOPIC_PREFIX'' [];
          State_Monad.return \<lparr>kc_Brokers = brokers, kc_ClientID = cid, kc_DialTimeout = dt, kc_TopicPrefix = tp\<rparr> }"

definition load_log :: "Environ \<Rightarrow> LogConfig loader" where
  "load_log env =
     do { level \<leftarrow> loader_oneOf env ''LOG_LEVEL'' ''info'' [''debug'', ''info'', ''warn'', ''error''];
          format \<leftarrow> loader_oneOf env ''LOG_FORMAT'' ''json'' [''json'', ''text''];
          src \<leftarrow> loader_bool env ''LOG_ADD_SOURCE'' False;
          State_Monad.return \<lparr>lc_Level = level, lc_Format = format, lc_AddSource = src\<rparr> }"

definition load_psp :: "Environ \<Rightarrow> PSPConfig loader" where
  "load_psp env =
     do { url \<leftarrow> loader_str env ''PSP_SIMULATOR_URL'' ''http://localhost:9091'';
          dp \<leftarrow> loader_str env ''PSP_DEFAULT_PROVIDER'' ''psp-sync-sim'';
          tm \<leftarrow> loader_duration env ''PSP_TIMEOUT'' (seconds 5);
          State_Monad.return \<lparr>pp_SimulatorURL = url, pp_DefaultProvider = dp, pp_Timeout = tm\<rparr> }"

definition load_webhook :: "Environ \<Rightarrow> WebhookConfig loader" where
  "load_webhook env =
     do { pv \<leftarrow> loader_str env ''WEBHOOK_PROVIDER'' ''psp-sim'';
          sc \<leftarrow> loader_str env ''WEBHOOK_SECRET'' devWebhookSecret;
          State_Monad.return \<lparr>wc_Provider = pv, wc_Secret = sc\<rparr> }"

definition load_observability :: "Environ \<Rightarrow> Observability loader" where
  "load_observability env =
     do { ci \<leftarrow> loader_duration env ''OBSERVABILITY_CHECK_INTERVAL'' (seconds 5);
          cg \<leftarrow> loader_str env ''KAFKA_CONSUMER_GROUP'' ''payment-workers'';
          wa \<leftarrow> loader_str env ''WORKER_METRICS_ADDR'' '':8081'';
          te \<leftarrow> loader_bool env ''TRACING_ENABLED'' False;
          ep \<leftarrow> loader_str env ''TRACING_ENDPOINT'' ''localhost:4317'';
          sr \<leftarrow> loader_float env ''TRACE_SAMPLE_RATIO'' 1;
          State_Monad.return \<lparr>oc_CheckInterval = ci, oc_ConsumerGroup = cg, oc_WorkerMetricsAddr = wa, oc_TracingEnabled = te,
            oc_TracingEndpoint = ep, oc_TraceSampleRatio = sr\<rparr> }"

text \<open>The failed keys are the error's text; the development secret in production has an error of its own.\<close>

datatype config_error = InvalidConfiguration "string list" | DevelopmentSecret

text \<open>No list of databases means the primary one alone.\<close>

definition load_shards :: "PostgresConfig \<Rightarrow> PostgresConfig loader" where
  "load_shards pg =
     (let pg' = (if pc_ShardDSNs pg = [] then pg\<lparr>pc_ShardDSNs := [pc_DSN pg]\<rparr> else pg) in
      case NewMapping (int (length (pc_ShardDSNs pg'))) of
        Inl _ \<Rightarrow> do { loader_fail ''POSTGRES_SHARD_DSNS''; State_Monad.return pg' }
      | Inr _ \<Rightarrow> State_Monad.return pg')"

definition load_all :: "Environ \<Rightarrow> ServiceConfig loader" where
  "load_all env =
     do { app \<leftarrow> loader_oneOf env ''APP_ENV'' ''development'' [''development'', ''test'', ''staging'', ''production''];
          http \<leftarrow> load_http env; pg \<leftarrow> load_postgres env; redis \<leftarrow> load_redis env; kafka \<leftarrow> load_kafka env;
          lg \<leftarrow> load_log env; psp \<leftarrow> load_psp env; webhook \<leftarrow> load_webhook env; obs \<leftarrow> load_observability env;
          pg' \<leftarrow> load_shards pg;
          State_Monad.return \<lparr>gc_Env = app, gc_HTTP = http, gc_Postgres = pg', gc_Redis = redis, gc_Kafka = kafka, gc_Log = lg,
            gc_PSP = psp, gc_Webhook = webhook, gc_Observability = obs\<rparr> }"

definition Load :: "Environ \<Rightarrow> config_error + ServiceConfig" where
  "Load env =
     (case run_state (load_all env) [] of
        (cfg, errs) \<Rightarrow>
          if errs \<noteq> [] then Inl (InvalidConfiguration errs)
          else if IsProduction cfg \<and> wc_Secret (gc_Webhook cfg) = devWebhookSecret then Inl DevelopmentSecret
          else Inr cfg)"

section \<open>What a loaded configuration satisfies\<close>

text \<open>A reader only adds failures, and if it adds none its value has the property.\<close>

definition yields :: "('a \<Rightarrow> bool) \<Rightarrow> 'a loader \<Rightarrow> bool" where
  "yields Q m \<longleftrightarrow> (\<forall>e. \<exists>v xs. run_state m e = (v, e @ xs) \<and> (xs = [] \<longrightarrow> Q v))"

lemma yields_return: "Q v \<Longrightarrow> yields Q (State_Monad.return v)"
  by (simp add: yields_def State_Monad.return_def)

lemma yields_fail: "yields Q (loader_fail key)"
  by (simp add: yields_def loader_fail_def)

lemma yields_bind:
  assumes "yields P m" "\<And>v. yields (\<lambda>x. P v \<longrightarrow> Q x) (f v)"
  shows "yields Q (m \<bind> f)"
  unfolding yields_def
proof
  fix e
  obtain v xs where m: "run_state m e = (v, e @ xs)" "xs = [] \<longrightarrow> P v" using assms(1) unfolding yields_def by blast
  obtain x ys where f: "run_state (f v) (e @ xs) = (x, (e @ xs) @ ys)" "ys = [] \<longrightarrow> P v \<longrightarrow> Q x"
    using assms(2) [of v] unfolding yields_def by blast
  then show "\<exists>v xs. run_state (m \<bind> f) e = (v, e @ xs) \<and> (xs = [] \<longrightarrow> Q v)"
    using m by (auto simp: State_Monad.bind_def)
qed

lemma yields_weaken: "yields P m \<Longrightarrow> (\<And>v. P v \<Longrightarrow> Q v) \<Longrightarrow> yields Q m"
  unfolding yields_def by blast

lemma yields_failing: "yields Q (loader_fail key \<bind> (\<lambda>_. State_Monad.return v))"
  by (rule yields_bind [where P = "\<lambda>_. False", OF yields_fail yields_return]) simp

lemma yields_parsed: "(\<And>v. parse raw = Some v \<Longrightarrow> Q v) \<Longrightarrow> raw = read_env env key \<Longrightarrow> Q dflt \<Longrightarrow> yields Q (parsed env key dflt parse)"
  by (auto simp: parsed_def Let_def yields_return yields_failing split: option.splits)

lemma yields_any:
  "yields (\<lambda>_. True) (loader_str env key s)" "yields (\<lambda>_. True) (loader_int env key i)" "yields (\<lambda>_. True) (loader_duration env key i)"
  "yields (\<lambda>_. True) (loader_bool env key b)" "yields (\<lambda>_. True) (loader_csv env key ss)"
  by (simp_all add: loader_str_def loader_int_def loader_duration_def loader_bool_def loader_csv_def yields_return yields_parsed)

lemma yields_oneOf: "yields (\<lambda>v. v \<in> set allowed) (loader_oneOf env key dflt allowed)"
  unfolding loader_oneOf_def
  by (rule yields_bind [OF yields_any(1)]) (simp add: yields_return yields_failing)

lemma yields_float: "0 \<le> dflt \<Longrightarrow> dflt \<le> 1 \<Longrightarrow> yields (\<lambda>v. 0 \<le> v \<and> v \<le> 1) (loader_float env key dflt)"
  unfolding loader_float_def by (rule yields_parsed [OF _ refl]) (auto split: option.splits if_splits)

lemma yields_required: "yields (\<lambda>v. v \<noteq> []) (loader_required env key)"
  by (simp add: loader_required_def Let_def yields_return yields_failing)

lemmas yields_rules = yields_bind [OF yields_any(1)] yields_bind [OF yields_any(2)] yields_bind [OF yields_any(3)]
  yields_bind [OF yields_any(4)] yields_bind [OF yields_any(5)] yields_bind [OF yields_oneOf] yields_bind [OF yields_float]
  yields_bind [OF yields_required] yields_return

lemma yields_sections:
  "yields (\<lambda>_. True) (load_http env)" "yields (\<lambda>p. pc_DSN p \<noteq> []) (load_postgres env)" "yields (\<lambda>_. True) (load_redis env)"
  "yields (\<lambda>_. True) (load_kafka env)" "yields (\<lambda>_. True) (load_log env)" "yields (\<lambda>_. True) (load_psp env)"
  "yields (\<lambda>_. True) (load_webhook env)" "yields (\<lambda>oc. 0 \<le> oc_TraceSampleRatio oc \<and> oc_TraceSampleRatio oc \<le> 1) (load_observability env)"
  unfolding load_http_def load_postgres_def load_redis_def load_kafka_def load_log_def load_psp_def load_webhook_def load_observability_def
  by (rule yields_rules | simp)+

definition routable :: "PostgresConfig \<Rightarrow> bool" where
  "routable p \<longleftrightarrow> is_ok (NewMapping (int (length (pc_ShardDSNs p))))"

lemma yields_shards: "yields (\<lambda>p. routable p \<and> pc_DSN p = pc_DSN pg) (load_shards pg)"
proof -
  define pg' where "pg' = (if pc_ShardDSNs pg = [] then pg\<lparr>pc_ShardDSNs := [pc_DSN pg]\<rparr> else pg)"
  have "pc_DSN pg' = pc_DSN pg" by (simp add: pg'_def)
  then show ?thesis
    unfolding load_shards_def Let_def pg'_def [symmetric]
    by (cases "NewMapping (int (length (pc_ShardDSNs pg')))") (simp_all add: yields_failing yields_return routable_def)
qed

definition config_ok :: "ServiceConfig \<Rightarrow> bool" where
  "config_ok c \<longleftrightarrow> routable (gc_Postgres c) \<and> pc_DSN (gc_Postgres c) \<noteq> []
     \<and> gc_Env c \<in> set [''development'', ''test'', ''staging'', ''production'']
     \<and> 0 \<le> oc_TraceSampleRatio (gc_Observability c) \<and> oc_TraceSampleRatio (gc_Observability c) \<le> 1"

lemma yields_all: "yields config_ok (load_all env)"
  unfolding load_all_def
  apply (rule yields_bind [OF yields_oneOf], rule yields_bind [OF yields_sections(1)], rule yields_bind [OF yields_sections(2)],
      rule yields_bind [OF yields_sections(3)], rule yields_bind [OF yields_sections(4)], rule yields_bind [OF yields_sections(5)],
      rule yields_bind [OF yields_sections(6)], rule yields_bind [OF yields_sections(7)], rule yields_bind [OF yields_sections(8)],
      rule yields_bind [OF yields_shards], rule yields_return)
  apply (unfold config_ok_def ServiceConfig.simps)
  apply simp
  done

text \<open>A configuration that loads can be routed and does not verify callbacks with the published secret in production:
  the number of databases is one the shard mapping accepts, the primary database is named, the environment is one of the
  four, the sampling ratio is a fraction.\<close>

theorem Load_sound:
  assumes "Load env = Inr cfg"
  shows "is_ok (NewMapping (int (length (pc_ShardDSNs (gc_Postgres cfg))))) \<and> pc_DSN (gc_Postgres cfg) \<noteq> []
    \<and> gc_Env cfg \<in> {''development'', ''test'', ''staging'', ''production''}
    \<and> (gc_Env cfg = ''production'' \<longrightarrow> wc_Secret (gc_Webhook cfg) \<noteq> ''sim-webhook-secret'')
    \<and> 0 \<le> oc_TraceSampleRatio (gc_Observability cfg) \<and> oc_TraceSampleRatio (gc_Observability cfg) \<le> 1"
proof -
  obtain c xs where m: "run_state (load_all env) [] = (c, xs)" "xs = [] \<longrightarrow> config_ok c"
    using yields_all [of env] unfolding yields_def by (metis append_Nil)
  have "xs = [] \<and> c = cfg \<and> \<not> (IsProduction cfg \<and> wc_Secret (gc_Webhook cfg) = devWebhookSecret)"
    using assms unfolding Load_def m(1) prod.case by (auto split: if_splits)
  then show ?thesis using m(2) by (auto simp: IsProduction_def devWebhookSecret_def config_ok_def routable_def)
qed

end
