(* ===== verification/Spec2Isabelle.thy ===== *)
theory Spec2Isabelle
  imports Fx Fee Ledger Transaction Psp Resilience Sharding IdemStore CaptureSafety TccStranded WorkerClaims SettlementClaims ReconClaims SettlementStore SimPayments HttpClaims Invariants Config
begin

text \<open>
  \<^bold>\<open>The payment orchestrator, verified.\<close> This development models the payment orchestrator under src/ (a Go
  service that authorizes and captures card payments through providers, keeps a double-entry ledger over several
  sharded PostgreSQL databases, moves money between shards, receives provider callbacks and reconciles the books with
  settlement files) and proves what makes it correct: no payment is charged twice, no money is lost or created, no
  outcome is assumed, each fact is recorded once, and a merchant reaches its own data only.

  \<^bold>\<open>How the program fits together.\<close> A request passes the authentication middleware (internal/auth,
  transport/http/middleware), the idempotency middleware (store/idempotency) and a handler (transport/http/handler) into
  the payment service (service/payment). The service routes a merchant to its database (platform/sharding,
  platform/postgres), writes the payment, its audit row and an outbox message in one transaction, calls the provider
  through an adapter (psp, psp/simclient), and books captures in the ledger (domain/ledger, store/ledger) with the fee
  in force (domain/fee, store/fee). The outbox relay (outbox) carries messages to Kafka (messaging); the worker (worker)
  consumes them, retries along a ladder of delays behind a circuit breaker (resilience) and sends what cannot be handled
  to a dead letter queue. Callbacks are verified, stored once and applied in the provider's order (webhook). Transfers
  between merchants on different databases are a try-confirm-cancel protocol with a sweeper (tcc). Settlement files are
  parsed, matched and classified against the ledger (recon), with exchange rates and locks from domain/fx and store/fx.
  A checker (invariant) watches the books; a provider simulator with injectable faults (simulator) stands in for a provider.

  \<^bold>\<open>How the model represents it.\<close> A Go function is one definition with the source's name (with a prefix or suffix where two packages share
  one or HOL has it). A result with an error is \<open>gerror + 'a\<close>; a Go \<open>(*T, error)\<close> that may return both is a pair of
  options. An \<open>int64\<close> is a 64-bit word, so every overflow is visible; \<open>minor\<close> reads it as a signed number. A struct is a
  record, a set of constants a datatype (with a constructor for any other string where the code accepts one). A physical
  database is a record of tables, a transaction body a function on it, and \<open>tx_at\<close> and \<open>query_at\<close> are one access: before
  it, the environment may do anything its relation allows, and the access may fail to begin, fail to commit, or commit
  without the caller hearing of it. These happenings are scripts in the world, so a theorem over all worlds covers all
  interleavings and faults. \<open>seen w\<close> is what the next access finds: theorems about what an operation decides speak of the
  rows in it, not of those before the environment acted. Provider answers are functions of the calls so far. The clock, fresh identifiers
  and random draws are arguments.

  \<^bold>\<open>The theories.\<close>
  \<^item> Prelude: results, wrap-around arithmetic, printing of numbers. StateMachine, CompareAndSet and the
    environment of Database are the interfaces (locales) the components provide and rely on: a lifecycle matrix
    (the Go matrix, the trigger's copy, the transfer's states), a guarded write (payment versions, idempotency tokens, transfer
    states), other processes acting between two accesses (payments, transfers, reconciliation). LedgerStore has a locale for
    writers of the ledger and WorkerClaims one for handlers of messages.
  \<^item> Money, Fx, Fee, Ledger, Transaction, Psp, Resilience, Sharding: the domain (internal/domain, internal/psp,
    internal/resilience, internal/platform/sharding). Exact allocation and rounding, conversion as one exact fraction,
    fee bounds, balanced entries characterised, ordered amounts along every run of a payment, agreement of the two
    transition matrices, the retry policy, the breaker, total routing.
  \<^item> Database, TxStore, LedgerStore, FeeStore, FxStore, IdemStore, Outbox: the tables and repositories with the
    constraints and triggers of the migrations. The ledger stays balanced, one writer wins per version, one response per
    claim and a replayed one afterwards, nothing is lost between outbox and broker, one rate at a time per source.
  \<^item> PaymentService, PaymentSafety, CaptureSafety: creation, authorization and capture, and their guarantees under
    interference: one authorize request per authorization, no state that the provider has not vouched for, validation
    before the provider is called, a success that is booked in full, kept invariants.
  \<^item> Tcc, TccSide, TccProtocol, TccSafety, TccClaims, TccProgress, TccStranded: the transfer code, one side of it, the abstract
    protocol, and the refinement of the protocol by coordinators and sweepers; both halves in the ledgers or none, now and
    later, covered holds, completion past the commit point, and the hold that nobody releases.
  \<^item> Webhook, WebhookSafety, WebhookClaims: callbacks. Decided once, applied in strictly increasing order, replays
    that write nothing, the signature scheme.
  \<^item> Messaging, Worker, WorkerClaims: the consumer, the dispatcher and its handlers. Every message is settled or carried
    on with its identity; the ladder is finite.
  \<^item> Csv, Settlement, SettlementClaims, SettlementStore, Recon, ReconSafety, ReconClaims: settlement files and
    reconciliation. Parsed files are well typed, matching is a partition, classification decides, a stored file reads
    back, a run records every difference once and a second run changes nothing.
  \<^item> Json, SimServer, SimClient, SimClaims, SimPayments: the simulator, its client and both of them under the
    payment service. One charge per key whatever the faults, truthful reports over any network, an authorized payment
    is charged exactly once and carries that charge's reference, emitted callbacks verify.
  \<^item> Auth, Http, HttpClaims, Invariants, Config: API keys, the HTTP surface, the checker and the configuration from the
    environment. Keys round-trip until revoked, no effect without a key, tenants are isolated, the checker counts zero
    exactly when the books balance, a configuration that loads can be routed.

  \<^bold>\<open>Bounds and fuel.\<close> No definition uses fuel. Loops of the code are structural recursions or functions with a termination
  proof; the two bounded loops keep the code's bounds (three status queries after an ambiguous answer, four tiers of
  retry). A fault script that runs out means that nothing else fails and nobody else acts; theorems quantify over
  every script.

  \<^bold>\<open>Parameters.\<close> HMAC-SHA256, SHA-256, the name-based UUID, the text of UUIDs and instants, JSON text, durations, floating-point text and the
  random generator, the broker's acknowledgements, the collation of the database and the oscillation of the simulated exchange
  rates are arguments. A theorem that needs a law of one of them states it as a hypothesis and has a witness with a
  concrete function.

  \<^bold>\<open>Not modelled.\<close> The backoff delay (floating point with random jitter; the delays are arguments), logging, metrics and
  tracing (no result depends on them), construction and health checks of the database, Kafka and Redis clients, the wiring
  of the server and of the command-line programs with their flags and signals, and test support. Times are
  nanoseconds; the columns of settlement files and rows cut them to microseconds as PostgreSQL does (\<open>timestamptz\<close>), other
  columns keep them whole. A request to the simulator, with the callbacks it emits, is atomic and reads the clock once, where the code reads it for
  each event and each delivery; probabilities are rationals. Row versions and callback sequence numbers are unbounded
  integers, which are only compared and incremented. \<open>FOR UPDATE SKIP LOCKED\<close> is not modelled: the relay's sweeps follow one another. The ticker loops around the sweeper,
  relay, sampler and checker are modelled by what one round does.
\<close>

end
